(* ===== verification/PyValue.thy ===== *)
theory PyValue
  imports Complex_Main "HOL-Library.AList"
begin

text \<open>
  Shared prelude: the Python values the program keeps in its JSON documents, and the
  Python operations on them that the modelled modules use.

  \<^item> A document value is a \<open>pyv\<close>; a \<open>dict\<close> is an association list in insertion order,
    with the lookup \<open>map_of\<close> and the library's \<open>AList.update\<close> and \<open>AList.delete\<close>.
  \<^item> A \<open>str\<close> is the list of its UTF-8 bytes, so slicing and \<open>len\<close> count the bytes that
    start a code point, and whitespace is Python's Unicode whitespace.
  \<^item> A \<open>float\<close> is an exact finite rational: rounding, infinities and NaN are not modelled.
  \<^item> \<open>int(x)\<close> and \<open>float(x)\<close> raise as Python does; \<open>str(x)\<close> of a float or a container is
    the parameter \<open>rp\<close> (Python's \<open>repr\<close>), every other \<open>str(x)\<close> is computed.
\<close>

named_theorems dict_simps \<open>lookups and updates of dictionary values\<close>

section \<open>Values and errors\<close>

datatype pyv =
    PNone
  | PBool bool
  | PInt int
  | PFloat rat
  | PStr string
  | PList "pyv list"
  | PDict "(string \<times> pyv) list"

type_synonym dict = "(string \<times> pyv) list"

datatype pyerr =
    TypeError string
  | ValueError string
  | RuntimeError string
  | AttributeError string
  | ConflictError string
  | OtherError string string

type_synonym 'a result = "pyerr + 'a"

fun truthy :: "pyv \<Rightarrow> bool" where
  "truthy PNone = False"
| "truthy (PBool b) = b"
| "truthy (PInt i) = (i \<noteq> 0)"
| "truthy (PFloat r) = (r \<noteq> 0)"
| "truthy (PStr s) = (s \<noteq> [])"
| "truthy (PList xs) = (xs \<noteq> [])"
| "truthy (PDict d) = (d \<noteq> [])"

definition py_or :: "pyv \<Rightarrow> pyv \<Rightarrow> pyv" where
  "py_or a b = (if truthy a then a else b)"

section \<open>Dictionaries\<close>

fun is_dict :: "pyv \<Rightarrow> bool" where
  "is_dict (PDict d) = True"
| "is_dict v = False"

fun is_list :: "pyv \<Rightarrow> bool" where
  "is_list (PList xs) = True"
| "is_list v = False"

fun dict_items :: "pyv \<Rightarrow> dict" where
  "dict_items (PDict d) = d"
| "dict_items v = []"

fun list_items :: "pyv \<Rightarrow> pyv list" where
  "list_items (PList xs) = xs"
| "list_items v = []"

definition dget :: "dict \<Rightarrow> string \<Rightarrow> pyv" where
  "dget d k = (case map_of d k of None \<Rightarrow> PNone | Some v \<Rightarrow> v)"

definition dget_or :: "dict \<Rightarrow> string \<Rightarrow> pyv \<Rightarrow> pyv" where
  "dget_or d k v = (case map_of d k of None \<Rightarrow> v | Some w \<Rightarrow> w)"

definition dput :: "string \<Rightarrow> pyv \<Rightarrow> dict \<Rightarrow> dict" where
  "dput k v d = AList.update k v d"

definition dpop :: "string \<Rightarrow> dict \<Rightarrow> dict" where
  "dpop k d = AList.delete k d"

definition has_key :: "dict \<Rightarrow> string \<Rightarrow> bool" where
  "has_key d k \<longleftrightarrow> map_of d k \<noteq> None"

text \<open>\<open>x.get(k)\<close> and \<open>x[k] = v\<close> for a value that has been checked to be a dictionary.\<close>

definition get :: "pyv \<Rightarrow> string \<Rightarrow> pyv" where
  "get x k = dget (dict_items x) k"

fun put :: "string \<Rightarrow> pyv \<Rightarrow> pyv \<Rightarrow> pyv" where
  "put k v (PDict d) = PDict (dput k v d)"
| "put k v x = x"

lemma dget_nil [simp, dict_simps]: "dget [] k = PNone"
  by (simp add: dget_def)

lemma dget_Cons [dict_simps]: "dget ((k', v) # d) k = (if k = k' then v else dget d k)"
  by (simp add: dget_def)

lemma dget_dput [simp]: "dget (dput k v d) k' = (if k' = k then v else dget d k')"
  by (simp add: dget_def dput_def update_conv')

lemma dget_dpop [simp]: "dget (dpop k d) k' = (if k' = k then PNone else dget d k')"
  by (simp add: dget_def dpop_def delete_conv')

lemma map_of_dput [simp]: "map_of (dput k v d) k' = (if k' = k then Some v else map_of d k')"
  by (simp add: dput_def update_conv')

lemma map_of_dpop [simp]: "map_of (dpop k d) k' = (if k' = k then None else map_of d k')"
  by (simp add: dpop_def delete_conv')

lemma dpop_alt: "dpop k d = filter (\<lambda>kv. fst kv \<noteq> k) d"
  by (auto simp: dpop_def AList.delete_eq intro!: filter_cong)

lemma set_dpop: "set (dpop k d) = {kv \<in> set d. fst kv \<noteq> k}"
  by (auto simp: dpop_alt)

lemma set_dput_subset: "set (dput k v d) \<subseteq> insert (k, v) (set d)"
  unfolding dput_def by (induction d) auto

lemma in_set_dput: "(k, v) \<in> set (dput k v d)"
  unfolding dput_def by (induction d) auto

lemma dput_not_nil [simp]: "dput k v d \<noteq> []"
  unfolding dput_def by (cases d) auto

lemma dput_notin: "k \<notin> fst ` set d \<Longrightarrow> dput k v d = d @ [(k, v)]"
  unfolding dput_def by (induction d) auto

lemma keys_dput: "fst ` set (dput k v d) = insert k (fst ` set d)"
  unfolding dput_def by (induction d) auto

lemma distinct_dput: "distinct (map fst d) \<Longrightarrow> distinct (map fst (dput k v d))"
  unfolding dput_def by (rule distinct_update)

lemma distinct_dpop: "distinct (map fst d) \<Longrightarrow> distinct (map fst (dpop k d))"
  by (auto simp: dpop_alt intro: distinct_map_filter)

lemma length_dpop: "length (dpop k d) \<le> length d"
  by (simp add: dpop_alt)

lemma length_dput: "length (dput k v d) \<le> Suc (length d)"
  unfolding dput_def by (induction d) auto

lemma get_PDict [simp, dict_simps]: "get (PDict d) k = dget d k"
  by (simp add: get_def)

lemma is_dict_put [simp]: "is_dict (put k v x) = is_dict x"
  by (cases x) auto

lemma get_put [simp]: "is_dict x \<Longrightarrow> get (put k v x) k' = (if k' = k then v else get x k')"
  by (cases x) auto

lemma get_not_dict: "\<not> is_dict x \<Longrightarrow> get x k = PNone"
  by (cases x) (auto simp: get_def)

lemma has_key_dput [simp]: "has_key (dput k v d) k' \<longleftrightarrow> k' = k \<or> has_key d k'"
  by (simp add: has_key_def)

lemma has_key_dpop [simp]: "has_key (dpop k d) k' \<longleftrightarrow> k' \<noteq> k \<and> has_key d k'"
  by (simp add: has_key_def)

lemma map_of_filter_val:
  assumes "distinct (map fst d)"
  shows "map_of (filter (\<lambda>kv. P (snd kv)) d) k =
     (case map_of d k of None \<Rightarrow> None | Some v \<Rightarrow> if P v then Some v else None)"
  using assms
proof (induction d)
  case (Cons kv d)
  obtain k' v where kv: "kv = (k', v)" by (cases kv)
  show ?case
  proof (cases "k = k'")
    case True
    with Cons.prems kv have "map_of d k = None" by (simp add: map_of_eq_None_iff)
    with Cons kv True show ?thesis by simp
  next
    case False
    with Cons kv show ?thesis by simp
  qed
qed simp

section \<open>Text\<close>

text \<open>
  The bytes of a code point after its first one. A string has as many code points as it has
  other bytes.
\<close>

definition is_cont :: "char \<Rightarrow> bool" where
  "is_cont c \<longleftrightarrow> 128 \<le> (of_char c :: int) \<and> (of_char c :: int) < 192"

definition py_len :: "string \<Rightarrow> nat" where
  "py_len s = length (filter (\<lambda>c. \<not> is_cont c) s)"

text \<open>\<open>s[:n]\<close> and \<open>s[n:]\<close>.\<close>

fun take_cp :: "nat \<Rightarrow> string \<Rightarrow> string" where
  "take_cp 0 s = []"
| "take_cp (Suc n) [] = []"
| "take_cp (Suc n) (c # cs) = c # takeWhile is_cont cs @ take_cp n (dropWhile is_cont cs)"

fun drop_cp :: "nat \<Rightarrow> string \<Rightarrow> string" where
  "drop_cp 0 s = s"
| "drop_cp (Suc n) [] = []"
| "drop_cp (Suc n) (c # cs) = drop_cp n (dropWhile is_cont cs)"

lemma take_drop_cp: "take_cp n s @ drop_cp n s = s"
proof (induction n s rule: take_cp.induct)
  case (3 n c cs)
  then show ?case by (simp add: append_assoc)
qed simp_all

text \<open>The UTF-8 characters of a string.\<close>

function chars_of :: "string \<Rightarrow> string list" where
  "chars_of [] = []"
| "chars_of (c # cs) = (c # takeWhile is_cont cs) # chars_of (dropWhile is_cont cs)"
  by pat_completeness auto
termination
  by (relation "measure length") (simp_all add: length_dropWhile_le less_Suc_eq_le)

text \<open>
  The number of bytes of the white space character a string starts with, 0 if it starts with
  none: the code points for which Python's \<open>str.isspace\<close> holds.
\<close>

fun ws_len :: "string \<Rightarrow> nat" where
  "ws_len [] = 0"
| "ws_len (c # cs) =
     (let b = (of_char c :: int);
          n1 = (case cs of [] \<Rightarrow> 0 | d # _ \<Rightarrow> (of_char d :: int));
          n2 = (case cs of _ # d # _ \<Rightarrow> (of_char d :: int) | _ \<Rightarrow> 0)
      in if (9 \<le> b \<and> b \<le> 13) \<or> (28 \<le> b \<and> b \<le> 32) then 1
         else if b = 194 \<and> (n1 = 133 \<or> n1 = 160) then 2
         else if b = 225 \<and> n1 = 154 \<and> n2 = 128 then 3
         else if b = 226 \<and> n1 = 128
                 \<and> ((128 \<le> n2 \<and> n2 \<le> 138) \<or> n2 = 168 \<or> n2 = 169 \<or> n2 = 175) then 3
         else if b = 226 \<and> n1 = 129 \<and> n2 = 159 then 3
         else if b = 227 \<and> n1 = 128 \<and> n2 = 128 then 3
         else 0)"

text \<open>\<open>s.split()\<close>: the maximal runs of other characters; \<open>acc\<close> is the run being read.\<close>

fun split_ws_acc :: "string \<Rightarrow> string \<Rightarrow> string list" where
  "split_ws_acc acc [] = (if acc = [] then [] else [rev acc])"
| "split_ws_acc acc (c # cs) =
     (if ws_len (c # cs) = 0 then split_ws_acc (c # acc) cs
      else (if acc = [] then [] else [rev acc])
             @ split_ws_acc [] (drop (ws_len (c # cs) - 1) cs))"

definition split_ws :: "string \<Rightarrow> string list" where
  "split_ws s = split_ws_acc [] s"

fun lstrip :: "string \<Rightarrow> string" where
  "lstrip [] = []"
| "lstrip (c # cs) =
     (if ws_len (c # cs) = 0 then c # cs else lstrip (drop (ws_len (c # cs) - 1) cs))"

fun rstrip :: "string \<Rightarrow> string" where
  "rstrip [] = []"
| "rstrip (c # cs) = (if lstrip (c # cs) = [] then [] else c # rstrip cs)"

definition strip :: "string \<Rightarrow> string" where
  "strip s = rstrip (lstrip s)"

text \<open>\<open>sep.join(parts)\<close>.\<close>

fun py_join :: "string \<Rightarrow> string list \<Rightarrow> string" where
  "py_join sep [] = []"
| "py_join sep [x] = x"
| "py_join sep (x # xs) = x @ sep @ py_join sep xs"

text \<open>\<open>s.split(c)\<close> for a one-character separator, \<open>s.replace(a, b)\<close> for one-character \<open>a\<close>.\<close>

fun split_on :: "char \<Rightarrow> string \<Rightarrow> string list" where
  "split_on sep [] = [[]]"
| "split_on sep (c # cs) =
     (if c = sep then [] # split_on sep cs
      else (case split_on sep cs of [] \<Rightarrow> [[c]] | w # ws \<Rightarrow> (c # w) # ws))"

definition replace_char :: "char \<Rightarrow> string \<Rightarrow> string \<Rightarrow> string" where
  "replace_char a b s = concat (map (\<lambda>c. if c = a then b else [c]) s)"

text \<open>\<open>s.lower()\<close>, on ASCII letters.\<close>

definition lower_char :: "char \<Rightarrow> char" where
  "lower_char c =
     (let b = (of_char c :: int) in if 65 \<le> b \<and> b \<le> 90 then char_of (b + 32) else c)"

definition lower :: "string \<Rightarrow> string" where
  "lower s = map lower_char s"

fun is_prefix :: "string \<Rightarrow> string \<Rightarrow> bool" where
  "is_prefix [] s = True"
| "is_prefix (p # ps) [] = False"
| "is_prefix (p # ps) (c # cs) = (p = c \<and> is_prefix ps cs)"

text \<open>\<open>sub in s\<close>.\<close>

fun py_contains :: "string \<Rightarrow> string \<Rightarrow> bool" where
  "py_contains sub [] = (sub = [])"
| "py_contains sub (c # cs) = (is_prefix sub (c # cs) \<or> py_contains sub cs)"

section \<open>Numbers\<close>

definition digit_val :: "char \<Rightarrow> nat" where
  "digit_val c = of_char c - 48"

definition is_digit :: "char \<Rightarrow> bool" where
  "is_digit c \<longleftrightarrow> 48 \<le> (of_char c :: nat) \<and> (of_char c :: nat) \<le> 57"

text \<open>An ASCII letter or digit.\<close>

definition is_alnum :: "char \<Rightarrow> bool" where
  "is_alnum c \<longleftrightarrow>
     (let b = (of_char c :: int)
      in (48 \<le> b \<and> b \<le> 57) \<or> (65 \<le> b \<and> b \<le> 90) \<or> (97 \<le> b \<and> b \<le> 122))"

definition dec_value :: "string \<Rightarrow> nat" where
  "dec_value s = foldl (\<lambda>n c. 10 * n + digit_val c) 0 s"

text \<open>Digits with single underscores between them, as number literals allow; the digits.\<close>

fun digit_group :: "string \<Rightarrow> string option" where
  "digit_group [] = None"
| "digit_group [c] = (if is_digit c then Some [c] else None)"
| "digit_group (c # d # cs) =
     (if \<not> is_digit c then None
      else if d = CHR ''_'' then map_option (\<lambda>ds. c # ds) (digit_group cs)
      else map_option (\<lambda>ds. c # ds) (digit_group (d # cs)))"

fun split_sign :: "string \<Rightarrow> int \<times> string" where
  "split_sign [] = (1, [])"
| "split_sign (c # cs) =
     (if c = CHR ''-'' then (-1, cs) else if c = CHR ''+'' then (1, cs) else (1, c # cs))"

text \<open>\<open>int(s)\<close>: \<open>None\<close> where it raises \<open>ValueError\<close>.\<close>

definition parse_int :: "string \<Rightarrow> int option" where
  "parse_int s =
     (case split_sign (strip s) of
        (sg, ds) \<Rightarrow> map_option (\<lambda>d. sg * int (dec_value d)) (digit_group ds))"

text \<open>\<open>float(s)\<close> for decimal literals; spellings of infinities and NaN are left out.\<close>

definition parse_mantissa :: "string \<Rightarrow> rat option" where
  "parse_mantissa s =
     (case split_on (CHR ''.'') s of
        [a] \<Rightarrow> map_option (\<lambda>d. of_nat (dec_value d)) (digit_group a)
      | [a, b] \<Rightarrow>
          (if a = [] then
             map_option (\<lambda>f. of_nat (dec_value f) / 10 ^ length f) (digit_group b)
           else if b = [] then map_option (\<lambda>d. of_nat (dec_value d)) (digit_group a)
           else (case (digit_group a, digit_group b) of
                   (Some d, Some f) \<Rightarrow>
                     Some (of_nat (dec_value d) + of_nat (dec_value f) / 10 ^ length f)
                 | _ \<Rightarrow> None))
      | _ \<Rightarrow> None)"

definition parse_float :: "string \<Rightarrow> rat option" where
  "parse_float s =
     (case split_sign (strip s) of
        (sg, body) \<Rightarrow>
          (case split_on (CHR ''e'') (lower body) of
             [m] \<Rightarrow> map_option (\<lambda>r. of_int sg * r) (parse_mantissa m)
           | [m, e] \<Rightarrow>
               (case (parse_mantissa m, split_sign e) of
                  (Some r, (esg, ds)) \<Rightarrow>
                    (case digit_group ds of
                       None \<Rightarrow> None
                     | Some d \<Rightarrow>
                         Some (of_int sg * r *
                           (if esg = 1 then 10 ^ dec_value d else 1 / 10 ^ dec_value d)))
                | _ \<Rightarrow> None)
           | _ \<Rightarrow> None))"

text \<open>Truncation towards zero, as \<open>int\<close> does on a float.\<close>

definition trunc :: "rat \<Rightarrow> int" where
  "trunc r = (if r < 0 then - \<lfloor>- r\<rfloor> else \<lfloor>r\<rfloor>)"

fun py_int :: "pyv \<Rightarrow> int result" where
  "py_int (PInt i) = Inr i"
| "py_int (PBool b) = Inr (if b then 1 else 0)"
| "py_int (PFloat r) = Inr (trunc r)"
| "py_int (PStr s) =
     (case parse_int s of None \<Rightarrow> Inl (ValueError ''int'') | Some i \<Rightarrow> Inr i)"
| "py_int v = Inl (TypeError ''int'')"

fun py_float :: "pyv \<Rightarrow> rat result" where
  "py_float (PInt i) = Inr (of_int i)"
| "py_float (PBool b) = Inr (if b then 1 else 0)"
| "py_float (PFloat r) = Inr r"
| "py_float (PStr s) =
     (case parse_float s of None \<Rightarrow> Inl (ValueError ''float'') | Some r \<Rightarrow> Inr r)"
| "py_float v = Inl (TypeError ''float'')"

text \<open>The decimal text of an integer.\<close>

fun show_nat :: "nat \<Rightarrow> string" where
  "show_nat n = (if n < 10 then [char_of (48 + n)]
                 else show_nat (n div 10) @ [char_of (48 + n mod 10)])"

declare show_nat.simps [simp del]

definition show_int :: "int \<Rightarrow> string" where
  "show_int i = (if i < 0 then ''-'' @ show_nat (nat (- i)) else show_nat (nat i))"

fun py_str :: "(pyv \<Rightarrow> string) \<Rightarrow> pyv \<Rightarrow> string" where
  "py_str rp PNone = ''None''"
| "py_str rp (PBool b) = (if b then ''True'' else ''False'')"
| "py_str rp (PInt i) = show_int i"
| "py_str rp (PStr s) = s"
| "py_str rp v = rp v"

text \<open>\<open>str(x or "")\<close>, the idiom the program reads its string fields with.\<close>

definition str_or_empty :: "(pyv \<Rightarrow> string) \<Rightarrow> pyv \<Rightarrow> string" where
  "str_or_empty rp v = py_str rp (py_or v (PStr []))"

lemma str_or_empty_PStr [simp]: "str_or_empty rp (PStr s) = s"
  by (simp add: str_or_empty_def py_or_def)

lemma str_or_empty_PNone [simp]: "str_or_empty rp PNone = []"
  by (simp add: str_or_empty_def py_or_def)

section \<open>Equality of documents\<close>

text \<open>
  Python's \<open>==\<close>: numbers compare by value across \<open>bool\<close>, \<open>int\<close> and \<open>float\<close>, dictionaries
  ignore the order of their keys.
\<close>

fun py_num :: "pyv \<Rightarrow> rat option" where
  "py_num (PInt i) = Some (of_int i)"
| "py_num (PBool b) = Some (if b then 1 else 0)"
| "py_num (PFloat r) = Some r"
| "py_num v = None"

fun py_eq :: "pyv \<Rightarrow> pyv \<Rightarrow> bool" where
  "py_eq PNone w = (w = PNone)"
| "py_eq (PStr s) w = (w = PStr s)"
| "py_eq (PBool b) w = (py_num w = Some (if b then 1 else 0))"
| "py_eq (PInt i) w = (py_num w = Some (of_int i))"
| "py_eq (PFloat r) w = (py_num w = Some r)"
| "py_eq (PList xs) w =
     (case w of PList ys \<Rightarrow> list_all2 (\<lambda>x y. py_eq x y) xs ys | _ \<Rightarrow> False)"
| "py_eq (PDict d) w =
     (case w of
        PDict e \<Rightarrow>
          length d = length e
          \<and> list_all (\<lambda>kv. case map_of e (fst kv) of None \<Rightarrow> False | Some y \<Rightarrow> py_eq (snd kv) y) d
      | _ \<Rightarrow> False)"

end
