(* ===== verification/MaintState.thy ===== *)
theory MaintState
  imports PyValue
begin

text \<open>
  The durable maintenance document of \<open>core/maintenance.py\<close>: what \<open>_normalize\<close> makes of
  the stored JSON, the sweep \<open>_prune\<close> that every transaction starts with, and the
  transaction itself.

  The record \<open>mstate\<close> is the document after \<open>_normalize\<close>: the phase is one of five, the
  containers are containers, the counters are natural. Every other field, and every element
  of a container, is still an arbitrary JSON value, because the code checks them one by one.
  The file is \<open>None\<close> when it is absent or not readable as JSON.
\<close>

section \<open>Constants\<close>

definition LEASE_TTL_SECONDS :: rat where "LEASE_TTL_SECONDS = 90"
definition ROOT_CLAIM_TTL_SECONDS :: rat where "ROOT_CLAIM_TTL_SECONDS = 120"
definition NOTICE_CLAIM_TTL_SECONDS :: rat where "NOTICE_CLAIM_TTL_SECONDS = 60"
definition MAX_PUBLIC_EVENTS :: nat where "MAX_PUBLIC_EVENTS = 200"
definition MAX_DELIVERED_NOTICES :: nat where "MAX_DELIVERED_NOTICES = 200"
definition MAX_CONTINUATION_RECEIPTS :: nat where "MAX_CONTINUATION_RECEIPTS = 2000"
definition CONTINUATION_RECEIPT_TTL_SECONDS :: rat where
  "CONTINUATION_RECEIPT_TTL_SECONDS = 7 * 24 * 60 * 60"
definition MAX_INGRESS_RECEIPTS :: nat where "MAX_INGRESS_RECEIPTS = 5000"
definition INGRESS_RECEIPT_TTL_SECONDS :: rat where
  "INGRESS_RECEIPT_TTL_SECONDS = 7 * 24 * 60 * 60"
definition RETRY_BACKOFF_CAP_SECONDS :: rat where "RETRY_BACKOFF_CAP_SECONDS = 300"
definition RETRY_BACKOFF_MAX_DOUBLINGS :: int where "RETRY_BACKOFF_MAX_DOUBLINGS = 6"

lemmas maint_limits =
  LEASE_TTL_SECONDS_def ROOT_CLAIM_TTL_SECONDS_def NOTICE_CLAIM_TTL_SECONDS_def
  MAX_PUBLIC_EVENTS_def MAX_DELIVERED_NOTICES_def MAX_CONTINUATION_RECEIPTS_def
  CONTINUATION_RECEIPT_TTL_SECONDS_def MAX_INGRESS_RECEIPTS_def
  INGRESS_RECEIPT_TTL_SECONDS_def RETRY_BACKOFF_CAP_SECONDS_def
  RETRY_BACKOFF_MAX_DOUBLINGS_def

definition retry_backoff_seconds :: "rat \<Rightarrow> int \<Rightarrow> rat" where
  "retry_backoff_seconds delay attempts =
     (let base = max 0 delay;
          doublings = min (max 0 (attempts - 1)) RETRY_BACKOFF_MAX_DOUBLINGS
      in min (base * 2 ^ nat doublings) RETRY_BACKOFF_CAP_SECONDS)"

section \<open>Data\<close>

datatype phase = Available | Draining | Updating | Validating | RollingBack

fun phase_name :: "phase \<Rightarrow> string" where
  "phase_name Available = ''available''"
| "phase_name Draining = ''draining''"
| "phase_name Updating = ''updating''"
| "phase_name Validating = ''validating''"
| "phase_name RollingBack = ''rolling_back''"

definition phase_of :: "string \<Rightarrow> phase option" where
  "phase_of s =
     (if s = ''available'' then Some Available
      else if s = ''draining'' then Some Draining
      else if s = ''updating'' then Some Updating
      else if s = ''validating'' then Some Validating
      else if s = ''rolling_back'' then Some RollingBack
      else None)"

lemma phase_of_name [simp]: "phase_of (phase_name p) = Some p"
  by (cases p) (simp_all add: phase_of_def)

lemma phase_of_Some: "phase_of s = Some p \<Longrightarrow> phase_name p = s"
  by (auto simp: phase_of_def split: if_splits)

definition ACTIVE_PHASES :: "phase list" where
  "ACTIVE_PHASES = [Draining, Updating, Validating, RollingBack]"

lemma in_ACTIVE_PHASES [simp]: "p \<in> set ACTIVE_PHASES \<longleftrightarrow> p \<noteq> Available"
  by (cases p) (simp_all add: ACTIVE_PHASES_def)

fun PUBLIC_MESSAGES :: "phase \<Rightarrow> string" where
  "PUBLIC_MESSAGES Available = ''Silicon is available.''"
| "PUBLIC_MESSAGES Draining =
     ''Silicon is finishing its current work before updating. Your message is safely queued; you don't need to resend it.''"
| "PUBLIC_MESSAGES Updating =
     ''Silicon is updating. Your message is safely queued; you don't need to resend it.''"
| "PUBLIC_MESSAGES Validating =
     ''Silicon is restarting and being checked. Your message is safely queued.''"
| "PUBLIC_MESSAGES RollingBack =
     ''The update could not be completed. Silicon is resuming its previous version.''"

text \<open>
  What a transaction takes from outside: the process id, the \<open>uuid4\<close> values it draws in
  order, the clock reading made when the event with a given sequence number is built, the
  SHA-256 hex digest and \<open>repr\<close>.
\<close>

record env =
  env_pid :: int
  env_uid :: "nat \<Rightarrow> string"
  env_tick :: "int \<Rightarrow> rat"
  env_sha :: "string \<Rightarrow> string"
  env_repr :: "pyv \<Rightarrow> string"

record mstate =
  ms_epoch :: int
  ms_phase :: phase
  ms_maintenance_id :: pyv
  ms_requested_at :: pyv
  ms_deadline_at :: pyv
  ms_updated_at :: pyv
  ms_safe_to_stop :: pyv
  ms_last_outcome :: pyv
  ms_leases :: dict
  ms_root_queue :: "pyv list"
  ms_continuation_receipts :: dict
  ms_ingress_receipts :: dict
  ms_notices :: "pyv list"
  ms_public_events :: "pyv list"
  ms_event_sequence :: int
  ms_participants :: dict
  ms_extra :: dict

definition state_keys :: "string list" where
  "state_keys =
     [''version'', ''epoch'', ''phase'', ''maintenance_id'', ''requested_at'', ''deadline_at'',
      ''updated_at'', ''safe_to_stop'', ''last_outcome'', ''leases'', ''root_queue'',
      ''continuation_receipts'', ''ingress_receipts'', ''notices'', ''public_events'',
      ''event_sequence'', ''participants'']"

definition default_doc :: pyv where
  "default_doc = PDict
     [(''version'', PInt 1), (''epoch'', PInt 0), (''phase'', PStr ''available''),
      (''maintenance_id'', PStr []), (''requested_at'', PFloat 0), (''deadline_at'', PFloat 0),
      (''updated_at'', PFloat 0), (''safe_to_stop'', PBool False), (''last_outcome'', PStr []),
      (''leases'', PDict []), (''root_queue'', PList []), (''continuation_receipts'', PDict []),
      (''ingress_receipts'', PDict []), (''notices'', PList []), (''public_events'', PList []),
      (''event_sequence'', PInt 0), (''participants'', PDict [])]"

definition to_doc :: "mstate \<Rightarrow> pyv" where
  "to_doc s = PDict
     ([(''version'', PInt 1), (''epoch'', PInt (ms_epoch s)),
       (''phase'', PStr (phase_name (ms_phase s))),
       (''maintenance_id'', ms_maintenance_id s), (''requested_at'', ms_requested_at s),
       (''deadline_at'', ms_deadline_at s), (''updated_at'', ms_updated_at s),
       (''safe_to_stop'', ms_safe_to_stop s), (''last_outcome'', ms_last_outcome s),
       (''leases'', PDict (ms_leases s)), (''root_queue'', PList (ms_root_queue s)),
       (''continuation_receipts'', PDict (ms_continuation_receipts s)),
       (''ingress_receipts'', PDict (ms_ingress_receipts s)),
       (''notices'', PList (ms_notices s)), (''public_events'', PList (ms_public_events s)),
       (''event_sequence'', PInt (ms_event_sequence s)),
       (''participants'', PDict (ms_participants s))] @ ms_extra s)"

definition number :: "pyv \<Rightarrow> rat \<Rightarrow> rat" where
  "number v d = (case py_float v of Inl e \<Rightarrow> d | Inr r \<Rightarrow> r)"

definition integer :: "pyv \<Rightarrow> int \<Rightarrow> int" where
  "integer v d = (case py_int v of Inl e \<Rightarrow> d | Inr i \<Rightarrow> i)"

lemma number_PFloat [simp]: "number (PFloat r) d = r"
  by (simp add: number_def)

lemma number_PNone [simp]: "number PNone d = d"
  by (simp add: number_def)

lemma integer_PInt [simp]: "integer (PInt i) d = i"
  by (simp add: integer_def)

lemma integer_PNone [simp]: "integer PNone d = d"
  by (simp add: integer_def)

section \<open>Reading the document\<close>

text \<open>
  \<open>state.get("phase") not in \{...\}\<close> hashes the value, which a list or a dictionary does not
  allow.
\<close>

fun normalize_phase :: "pyv \<Rightarrow> phase result" where
  "normalize_phase (PStr s) = Inr (case phase_of s of None \<Rightarrow> Available | Some p \<Rightarrow> p)"
| "normalize_phase (PList xs) = Inl (TypeError ''unhashable type: list'')"
| "normalize_phase (PDict d) = Inl (TypeError ''unhashable type: dict'')"
| "normalize_phase v = Inr Available"

definition normalize :: "pyv \<Rightarrow> mstate result" where
  "normalize raw =
     (let d = (case raw of PDict d \<Rightarrow> d | _ \<Rightarrow> dict_items default_doc)
      in case normalize_phase (dget_or d ''phase'' (PStr ''available'')) of
           Inl e \<Rightarrow> Inl e
         | Inr p \<Rightarrow> Inr
             \<lparr>ms_epoch = max 0 (integer (dget_or d ''epoch'' (PInt 0)) 0),
              ms_phase = p,
              ms_maintenance_id = dget_or d ''maintenance_id'' (PStr []),
              ms_requested_at = dget_or d ''requested_at'' (PFloat 0),
              ms_deadline_at = dget_or d ''deadline_at'' (PFloat 0),
              ms_updated_at = dget_or d ''updated_at'' (PFloat 0),
              ms_safe_to_stop = dget_or d ''safe_to_stop'' (PBool False),
              ms_last_outcome = dget_or d ''last_outcome'' (PStr []),
              ms_leases = dict_items (dget d ''leases''),
              ms_root_queue = list_items (dget d ''root_queue''),
              ms_continuation_receipts = dict_items (dget d ''continuation_receipts''),
              ms_ingress_receipts = dict_items (dget d ''ingress_receipts''),
              ms_notices = list_items (dget d ''notices''),
              ms_public_events = list_items (dget d ''public_events''),
              ms_event_sequence = max 0 (integer (dget_or d ''event_sequence'' (PInt 0)) 0),
              ms_participants = dict_items (dget d ''participants''),
              ms_extra = filter (\<lambda>kv. fst kv \<notin> set state_keys) d\<rparr>)"

section \<open>Events\<close>

definition last_n :: "nat \<Rightarrow> 'a list \<Rightarrow> 'a list" where
  "last_n n xs = drop (length xs - n) xs"

lemma length_last_n: "length (last_n n xs) \<le> n"
  by (simp add: last_n_def)

text \<open>
  \<open>_emit\<close>; \<open>ph\<close> is the phase the caller passes, \<open>None\<close> for the state's own, and an empty
  \<open>outcome\<close> is left out.
\<close>

definition emit :: "env \<Rightarrow> mstate \<Rightarrow> string \<Rightarrow> phase option \<Rightarrow> string \<Rightarrow> mstate" where
  "emit E s event ph outcome =
     (let n = ms_event_sequence s + 1;
          item = [(''sequence'', PInt n), (''event'', PStr event), (''epoch'', PInt (ms_epoch s)),
                  (''maintenance_id'', PStr (str_or_empty (env_repr E) (ms_maintenance_id s))),
                  (''phase'', PStr (phase_name (case ph of None \<Rightarrow> ms_phase s | Some p \<Rightarrow> p))),
                  (''occurred_at'', PFloat (env_tick E n))]
                 @ (if outcome = [] then [] else [(''outcome'', PStr outcome)])
      in s\<lparr>ms_event_sequence := n,
           ms_public_events := last_n MAX_PUBLIC_EVENTS (ms_public_events s @ [PDict item])\<rparr>)"

section \<open>The sweep\<close>

definition cancel_expired_drain :: "env \<Rightarrow> mstate \<Rightarrow> rat \<Rightarrow> mstate" where
  "cancel_expired_drain E s now =
     (let deadline = number (ms_deadline_at s) 0
      in if ms_phase s = Draining \<and> deadline > 0 \<and> now \<ge> deadline
         then emit E
                (s\<lparr>ms_phase := Available, ms_safe_to_stop := PBool False,
                   ms_last_outcome := PStr ''deadline_expired'', ms_participants := []\<rparr>)
                ''maintenance.cancelled'' (Some Available) ''deadline_expired''
         else s)"

definition lease_expired :: "rat \<Rightarrow> pyv \<Rightarrow> bool" where
  "lease_expired now lease \<longleftrightarrow> \<not> is_dict lease \<or> number (get lease ''expires_at'') 0 \<le> now"

definition prune_leases :: "env \<Rightarrow> mstate \<Rightarrow> rat \<Rightarrow> mstate" where
  "prune_leases E s now =
     (let live = filter (\<lambda>kv. \<not> lease_expired now (snd kv)) (ms_leases s);
          s' = s\<lparr>ms_leases := live\<rparr>
      in if length live < length (ms_leases s) then emit E s' ''activity.expired'' None [] else s')"

definition prune_receipts :: "rat \<Rightarrow> nat \<Rightarrow> rat \<Rightarrow> dict \<Rightarrow> dict" where
  "prune_receipts ttl bound now receipts =
     (let live = filter (\<lambda>kv. is_dict (snd kv)
                              \<and> now - number (get (snd kv) ''accepted_at'') 0 < ttl) receipts;
          ordered = sort_key (\<lambda>kv. number (get (snd kv) ''accepted_at'') 0) live;
          evicted = map fst (take (length live - bound) ordered)
      in filter (\<lambda>kv. fst kv \<notin> set evicted) live)"

text \<open>The four assignments that hand a claimed root back to the queue.\<close>

definition unclaim :: "pyv \<Rightarrow> pyv" where
  "unclaim item =
     put ''lease_id'' (PStr []) (put ''claim_until'' (PFloat 0)
       (put ''claim_token'' (PStr []) (put ''status'' (PStr ''pending'') item)))"

definition sweep_root :: "env \<Rightarrow> dict \<Rightarrow> rat \<Rightarrow> pyv \<Rightarrow> pyv" where
  "sweep_root E leases now item =
     (if \<not> is_dict item \<or> get item ''status'' \<noteq> PStr ''claimed'' then item
      else if has_key leases (str_or_empty (env_repr E) (get item ''lease_id''))
              \<and> number (get item ''claim_until'') 0 > now then item
      else unclaim item)"

definition sweep_notice :: "rat \<Rightarrow> pyv \<Rightarrow> pyv" where
  "sweep_notice now notice =
     (if \<not> is_dict notice \<or> get notice ''status'' \<noteq> PStr ''claimed'' then notice
      else if number (get notice ''claim_until'') 0 \<le> now
      then put ''claim_until'' (PFloat 0)
             (put ''claim_token'' (PStr []) (put ''status'' (PStr ''pending'') notice))
      else notice)"

text \<open>
  Only the newest delivered notices are kept. The code reads \<open>item.get\<close> of every notice
  here, dictionary or not.
\<close>

definition trim_delivered :: "env \<Rightarrow> pyv list \<Rightarrow> pyv list result" where
  "trim_delivered E notices =
     (let delivered = filter (\<lambda>n. is_dict n \<and> get n ''status'' = PStr ''delivered'') notices;
          notice_id = (\<lambda>n. str_or_empty (env_repr E) (get n ''notice_id''))
      in if length delivered > MAX_DELIVERED_NOTICES
         then if list_all is_dict notices
              then let remove_ids = map notice_id
                         (take (length delivered - MAX_DELIVERED_NOTICES) delivered)
                   in Inr (filter (\<lambda>n. notice_id n \<notin> set remove_ids) notices)
              else Inl (AttributeError ''get'')
         else Inr notices)"

definition settle_safe_to_stop :: "mstate \<Rightarrow> mstate" where
  "settle_safe_to_stop s =
     (if ms_phase s \<noteq> Draining then s\<lparr>ms_safe_to_stop := PBool False\<rparr>
      else if truthy (ms_safe_to_stop s) \<and> ms_leases s \<noteq> []
      then s\<lparr>ms_safe_to_stop := PBool False\<rparr>
      else s)"

definition prune :: "env \<Rightarrow> mstate \<Rightarrow> rat \<Rightarrow> mstate result" where
  "prune E s now =
     (let s1 = prune_leases E (cancel_expired_drain E s now) now;
          s2 = s1\<lparr>ms_continuation_receipts :=
                   prune_receipts CONTINUATION_RECEIPT_TTL_SECONDS MAX_CONTINUATION_RECEIPTS now
                     (ms_continuation_receipts s1),
                 ms_ingress_receipts :=
                   prune_receipts INGRESS_RECEIPT_TTL_SECONDS MAX_INGRESS_RECEIPTS now
                     (ms_ingress_receipts s1),
                 ms_root_queue := map (sweep_root E (ms_leases s1) now) (ms_root_queue s1)\<rparr>
      in case trim_delivered E (map (sweep_notice now) (ms_notices s2)) of
           Inl e \<Rightarrow> Inl e
         | Inr ns \<Rightarrow> Inr (settle_safe_to_stop (s2\<lparr>ms_notices := ns\<rparr>)))"

section \<open>The transaction\<close>

text \<open>
  \<open>_transaction\<close>, under the file lock: read, normalise, sweep, mutate, and write the document
  back when it changed. An exception of the mutation leaves the file as it was.
\<close>

definition transaction ::
  "env \<Rightarrow> rat \<Rightarrow> (mstate \<Rightarrow> ('r \<times> mstate) result) \<Rightarrow> pyv option \<Rightarrow> ('r \<times> pyv option) result" where
  "transaction E now mutate file =
     (let raw = (case file of None \<Rightarrow> default_doc | Some d \<Rightarrow> d)
      in case normalize raw of
           Inl e \<Rightarrow> Inl e
         | Inr s0 \<Rightarrow>
             (case prune E s0 now of
                Inl e \<Rightarrow> Inl e
              | Inr s1 \<Rightarrow>
                  (case mutate s1 of
                     Inl e \<Rightarrow> Inl e
                   | Inr (r, s2) \<Rightarrow>
                       if py_eq (to_doc s2) raw then Inr (r, file)
                       else Inr (r, Some (to_doc (s2\<lparr>ms_updated_at := PFloat now\<rparr>))))))"

end
