(* ===== verification/MaintOps.thy ===== *)
theory MaintOps
  imports MaintState
begin

text \<open>
  The operations of \<open>MaintenanceCoordinator\<close> (\<open>core/maintenance.py\<close>). Each is the closure
  \<open>mutate\<close> that the method hands to the transaction, from the swept state to a result and a
  new state, written as \<open><method>_mut\<close>; the method itself is the transaction around it. The
  \<open>uuid4\<close> values a transaction draws are numbered from 0 in the order the code draws them.
\<close>

section \<open>Tokens and admissions\<close>

record activity_token =
  tk_lease_id :: string
  tk_lineage_id :: string
  tk_admitted_epoch :: int
  tk_kind :: string
  tk_parent_lease_id :: string

definition reference :: "activity_token \<Rightarrow> pyv" where
  "reference t = PDict
     [(''lease_id'', PStr (tk_lease_id t)), (''lineage_id'', PStr (tk_lineage_id t)),
      (''admitted_epoch'', PInt (tk_admitted_epoch t)), (''kind'', PStr (tk_kind t)),
      (''parent_lease_id'', PStr (tk_parent_lease_id t))]"

record root_admission =
  ad_queue_id :: string
  ad_claim_token :: string
  ad_contact_id :: string
  ad_context :: string
  ad_activity :: activity_token

record root_enqueue_result =
  rr_admission :: "root_admission option"
  rr_queued_for_maintenance :: bool
  rr_maintenance_id :: string
  rr_public_state :: phase

section \<open>Leases\<close>

definition token_from_lease :: "env \<Rightarrow> string \<Rightarrow> pyv \<Rightarrow> activity_token" where
  "token_from_lease E lease_id lease =
     \<lparr>tk_lease_id = lease_id,
      tk_lineage_id = py_str (env_repr E) (py_or (get lease ''lineage_id'') (PStr lease_id)),
      tk_admitted_epoch = integer (get lease ''admitted_epoch'') 0,
      tk_kind = py_str (env_repr E) (py_or (get lease ''kind'') (PStr ''activity'')),
      tk_parent_lease_id = str_or_empty (env_repr E) (get lease ''parent_lease_id'')\<rparr>"

definition lease_doc ::
  "env \<Rightarrow> string \<Rightarrow> rat \<Rightarrow> string \<Rightarrow> string \<Rightarrow> string \<Rightarrow> int \<Rightarrow> string \<Rightarrow> string \<Rightarrow> rat \<Rightarrow> pyv" where
  "lease_doc E lease_id now kind activity_id contact_id admitted_epoch lineage_id parent ttl =
     PDict
       [(''kind'', PStr (take_cp 64 (if kind = [] then ''activity'' else kind))),
        (''activity_id'', PStr (take_cp 200 activity_id)),
        (''contact_id'', PStr (take_cp 200 contact_id)),
        (''lineage_id'', PStr (if lineage_id = [] then lease_id else lineage_id)),
        (''parent_lease_id'', PStr parent),
        (''admitted_epoch'', PInt admitted_epoch),
        (''owner_pid'', PInt (env_pid E)),
        (''acquired_at'', PFloat now),
        (''heartbeat_at'', PFloat now),
        (''expires_at'', PFloat (now + max 5 ttl))]"

definition new_lease ::
  "env \<Rightarrow> nat \<Rightarrow> mstate \<Rightarrow> rat \<Rightarrow> string \<Rightarrow> string \<Rightarrow> string \<Rightarrow> int \<Rightarrow> string \<Rightarrow> string \<Rightarrow> rat
     \<Rightarrow> activity_token \<times> mstate" where
  "new_lease E u s now kind activity_id contact_id admitted_epoch lineage_id parent ttl =
     (let lease_id = env_uid E u;
          lease = lease_doc E lease_id now kind activity_id contact_id admitted_epoch
                    lineage_id parent ttl
      in (token_from_lease E lease_id lease,
          s\<lparr>ms_leases := dput lease_id lease (ms_leases s), ms_safe_to_stop := PBool False\<rparr>))"

section \<open>The fence\<close>

definition request_drain_mut ::
  "env \<Rightarrow> rat \<Rightarrow> rat option \<Rightarrow> string \<Rightarrow> mstate \<Rightarrow> (unit \<times> mstate) result" where
  "request_drain_mut E now deadline_seconds maintenance_id s =
     (if ms_phase s \<in> set ACTIVE_PHASES
      then (if maintenance_id \<noteq> []
               \<and> maintenance_id \<noteq> str_or_empty (env_repr E) (ms_maintenance_id s)
            then Inl (RuntimeError
                   ''A different Silicon maintenance operation is already active.'')
            else Inr ((), s))
      else Inr ((), emit E
             (s\<lparr>ms_epoch := ms_epoch s + 1,
                ms_phase := Draining,
                ms_maintenance_id :=
                  PStr (if maintenance_id = [] then ''update-'' @ env_uid E 0 else maintenance_id),
                ms_requested_at := PFloat now,
                ms_deadline_at := PFloat (case deadline_seconds of
                                            Some d \<Rightarrow> now + max 0 d | None \<Rightarrow> 0),
                ms_safe_to_stop := PBool False,
                ms_last_outcome := PStr [],
                ms_participants := []\<rparr>)
             ''maintenance.requested'' None []))"

definition cancel_drain_mut ::
  "env \<Rightarrow> string \<Rightarrow> string \<Rightarrow> mstate \<Rightarrow> (bool \<times> mstate) result" where
  "cancel_drain_mut E maintenance_id outcome s =
     (if ms_phase s \<noteq> Draining then Inr (False, s)
      else if maintenance_id \<noteq> [] \<and> PStr maintenance_id \<noteq> ms_maintenance_id s
      then Inr (False, s)
      else Inr (True, emit E
             (s\<lparr>ms_phase := Available, ms_safe_to_stop := PBool False,
                ms_last_outcome := PStr outcome, ms_participants := []\<rparr>)
             ''maintenance.cancelled'' None outcome))"

text \<open>The lifecycle edges, \<open>allowed\<close> in \<open>transition\<close>.\<close>

fun allowed :: "phase \<Rightarrow> phase list" where
  "allowed Draining = [Updating, Available, RollingBack]"
| "allowed Updating = [Validating, RollingBack]"
| "allowed Validating = [Available, RollingBack]"
| "allowed RollingBack = [Available]"
| "allowed Available = []"

text \<open>
  The requested phase as the code reads it: lower case, stripped, \<open>-\<close> as \<open>_\<close>, with
  \<open>rollback\<close> as an alias.
\<close>

definition requested_phase :: "string \<Rightarrow> phase result" where
  "requested_phase p =
     (let p1 = replace_char (CHR ''-'') ''_'' (lower (strip p));
          p2 = (if p1 = ''rollback'' then ''rolling_back'' else p1)
      in if p2 \<in> {''updating'', ''validating'', ''rolling_back'', ''available''}
         then (case phase_of p2 of
                 Some ph \<Rightarrow> Inr ph
               | None \<Rightarrow> Inl (ValueError (''invalid maintenance phase: '' @ p2)))
         else Inl (ValueError (''invalid maintenance phase: '' @ p2)))"

definition outcome_from :: "phase \<Rightarrow> string" where
  "outcome_from current =
     (case current of
        RollingBack \<Rightarrow> ''rolled_back'' | Draining \<Rightarrow> ''cancelled'' | _ \<Rightarrow> ''updated'')"

definition transition_mut ::
  "env \<Rightarrow> phase \<Rightarrow> string \<Rightarrow> mstate \<Rightarrow> (unit \<times> mstate) result" where
  "transition_mut E ph maintenance_id s =
     (if maintenance_id \<noteq> [] \<and> PStr maintenance_id \<noteq> ms_maintenance_id s
      then Inl (RuntimeError ''maintenance id does not match the active update'')
      else let current = ms_phase s in
        if ph = current then Inr ((), s)
        else if ph \<notin> set (allowed current)
        then Inl (RuntimeError (''invalid maintenance transition: '' @ phase_name current
                                 @ '' -> '' @ phase_name ph))
        else if ph = Updating \<and> \<not> truthy (ms_safe_to_stop s)
        then Inl (RuntimeError ''runtime has not reached safe_to_stop'')
        else if ph = Available
        then Inr ((), emit E
               (s\<lparr>ms_phase := ph, ms_safe_to_stop := PBool False,
                  ms_last_outcome := PStr (outcome_from current), ms_participants := []\<rparr>)
               ''maintenance.available'' None (outcome_from current))
        else Inr ((), emit E (s\<lparr>ms_phase := ph, ms_safe_to_stop := PBool False\<rparr>)
               (''maintenance.'' @ phase_name ph) None []))"

section \<open>Notices\<close>

definition ensure_notice :: "env \<Rightarrow> nat \<Rightarrow> mstate \<Rightarrow> string \<Rightarrow> phase \<Rightarrow> rat \<Rightarrow> mstate" where
  "ensure_notice E u s contact_id ph now =
     (let mid = str_or_empty (env_repr E) (ms_maintenance_id s)
      in if list_ex (\<lambda>n. is_dict n \<and> get n ''maintenance_id'' = PStr mid
                          \<and> get n ''contact_id'' = PStr contact_id) (ms_notices s)
         then s
         else s\<lparr>ms_notices := ms_notices s @ [PDict
                [(''notice_id'', PStr (env_uid E u)), (''maintenance_id'', PStr mid),
                 (''contact_id'', PStr contact_id), (''phase'', PStr (phase_name ph)),
                 (''message'', PStr (PUBLIC_MESSAGES ph)), (''created_at'', PFloat now),
                 (''status'', PStr ''pending''), (''claim_token'', PStr []),
                 (''claim_until'', PFloat 0), (''delivered_at'', PFloat 0)]]\<rparr>)"

fun claim_notices_loop ::
  "env \<Rightarrow> rat \<Rightarrow> nat \<Rightarrow> nat \<Rightarrow> pyv list \<Rightarrow> pyv list \<Rightarrow> pyv list \<times> pyv list" where
  "claim_notices_loop E now limit u claimed [] = (claimed, [])"
| "claim_notices_loop E now limit u claimed (item # rest) =
     (if limit \<le> length claimed then (claimed, item # rest)
      else if \<not> is_dict item \<or> get item ''status'' \<noteq> PStr ''pending''
      then (let (c, q) = claim_notices_loop E now limit u claimed rest in (c, item # q))
      else
        let token = env_uid E u;
            item' = put ''claim_until'' (PFloat (now + NOTICE_CLAIM_TTL_SECONDS))
                      (put ''claim_token'' (PStr token) (put ''status'' (PStr ''claimed'') item));
            f = (\<lambda>k. PStr (str_or_empty (env_repr E) (get item' k)));
            entry = PDict
              [(''notice_id'', f ''notice_id''), (''claim_token'', PStr token),
               (''contact_id'', f ''contact_id''), (''maintenance_id'', f ''maintenance_id''),
               (''phase'', f ''phase''), (''message'', f ''message'')];
            (c, q) = claim_notices_loop E now limit (Suc u) (claimed @ [entry]) rest
        in (c, item' # q))"

definition claim_notices_mut ::
  "env \<Rightarrow> rat \<Rightarrow> int \<Rightarrow> mstate \<Rightarrow> (pyv list \<times> mstate) result" where
  "claim_notices_mut E now limit s =
     (let (c, q) = claim_notices_loop E now (nat (max 1 limit)) 0 [] (ms_notices s)
      in Inr (c, s\<lparr>ms_notices := q\<rparr>))"

fun finish_notice_loop ::
  "rat \<Rightarrow> string \<Rightarrow> string \<Rightarrow> bool \<Rightarrow> pyv list \<Rightarrow> bool \<times> pyv list" where
  "finish_notice_loop now notice_id claim_token delivered [] = (False, [])"
| "finish_notice_loop now notice_id claim_token delivered (item # rest) =
     (if \<not> is_dict item \<or> get item ''notice_id'' \<noteq> PStr notice_id
         \<or> get item ''claim_token'' \<noteq> PStr claim_token
      then (let (b, q) = finish_notice_loop now notice_id claim_token delivered rest
            in (b, item # q))
      else let item1 = (if delivered
                        then put ''delivered_at'' (PFloat now)
                               (put ''status'' (PStr ''delivered'') item)
                        else put ''status'' (PStr ''pending'') item)
           in (True, put ''claim_until'' (PFloat 0) (put ''claim_token'' (PStr []) item1) # rest))"

definition finish_notice_mut ::
  "rat \<Rightarrow> string \<Rightarrow> string \<Rightarrow> bool \<Rightarrow> mstate \<Rightarrow> (bool \<times> mstate) result" where
  "finish_notice_mut now notice_id claim_token delivered s =
     (let (b, q) = finish_notice_loop now notice_id claim_token delivered (ms_notices s)
      in Inr (b, s\<lparr>ms_notices := q\<rparr>))"

section \<open>Root queue\<close>

definition root_item :: "string \<Rightarrow> string \<Rightarrow> string \<Rightarrow> rat \<Rightarrow> int \<Rightarrow> dict" where
  "root_item queue_id contact_id context now epoch =
     [(''queue_id'', PStr queue_id), (''contact_id'', PStr contact_id),
      (''context'', PStr context), (''enqueued_at'', PFloat now), (''enqueued_epoch'', PInt epoch),
      (''status'', PStr ''pending''), (''claim_token'', PStr []), (''claim_until'', PFloat 0),
      (''lease_id'', PStr []), (''attempts'', PInt 0), (''not_before'', PFloat 0)]"

text \<open>\<open>_claim_root_item\<close> draws the claim token \<open>u\<close> and the lease id \<open>u + 1\<close>.\<close>

definition claim_root_item ::
  "env \<Rightarrow> nat \<Rightarrow> mstate \<Rightarrow> pyv \<Rightarrow> rat \<Rightarrow> root_admission \<times> pyv \<times> mstate" where
  "claim_root_item E u s item now =
     (let S = (\<lambda>k. str_or_empty (env_repr E) (get item k));
          claim_token = env_uid E u;
          continuation = truthy (get item ''continuation'');
          transfer = S ''transfer_lease_id'';
          (activity, s1) =
            new_lease E (Suc u) s now ''manager_root'' (S ''queue_id'') (S ''contact_id'')
              (if continuation then integer (get item ''admitted_epoch'') 0 else ms_epoch s)
              (if continuation then S ''lineage_id'' else []) transfer LEASE_TTL_SECONDS;
          s2 = (if transfer = [] then s1
                else s1\<lparr>ms_leases := dpop transfer (ms_leases s1)\<rparr>);
          item' = put ''lease_id'' (PStr (tk_lease_id activity))
                    (put ''claim_until'' (PFloat (now + ROOT_CLAIM_TTL_SECONDS))
                      (put ''claim_token'' (PStr claim_token)
                        (put ''status'' (PStr ''claimed'') item)))
      in (\<lparr>ad_queue_id = S ''queue_id'', ad_claim_token = claim_token,
           ad_contact_id = S ''contact_id'', ad_context = S ''context'',
           ad_activity = activity\<rparr>, item', s2))"

definition enqueue_root_mut ::
  "env \<Rightarrow> rat \<Rightarrow> string \<Rightarrow> string \<Rightarrow> bool \<Rightarrow> mstate \<Rightarrow> (root_enqueue_result \<times> mstate) result" where
  "enqueue_root_mut E now contact_id context admit s =
     (let item = PDict (root_item (env_uid E 0) contact_id context now (ms_epoch s))
      in if ms_phase s = Available \<and> admit
         then let (admission, item', s1) = claim_root_item E 1 s item now
              in Inr (\<lparr>rr_admission = Some admission, rr_queued_for_maintenance = False,
                       rr_maintenance_id = [], rr_public_state = Available\<rparr>,
                      s1\<lparr>ms_root_queue := ms_root_queue s1 @ [item']\<rparr>)
         else let s1 = s\<lparr>ms_root_queue := ms_root_queue s @ [item]\<rparr>;
                  s2 = (if ms_phase s = Available then s1
                        else ensure_notice E 1 s1 contact_id (ms_phase s) now)
              in Inr (\<lparr>rr_admission = None,
                       rr_queued_for_maintenance = (ms_phase s \<noteq> Available),
                       rr_maintenance_id =
                         (if ms_phase s \<noteq> Available
                          then str_or_empty (env_repr E) (ms_maintenance_id s) else []),
                       rr_public_state = ms_phase s\<rparr>, s2))"

text \<open>The byte that separates the contact from the context in a fingerprint, \<open>\x1f\<close>.\<close>

definition fingerprint :: "env \<Rightarrow> string \<Rightarrow> string \<Rightarrow> string" where
  "fingerprint E contact_id context = env_sha E (contact_id @ [char_of (31::nat)] @ context)"

definition ingress_queue_id :: "env \<Rightarrow> string \<Rightarrow> string" where
  "ingress_queue_id E ingress_id = ''ingress-'' @ env_sha E ingress_id"

definition find_root :: "env \<Rightarrow> string \<Rightarrow> pyv list \<Rightarrow> pyv option" where
  "find_root E queue_id q =
     List.find (\<lambda>i. is_dict i \<and> str_or_empty (env_repr E) (get i ''queue_id'') = queue_id) q"

definition receipt :: "string \<Rightarrow> string \<Rightarrow> rat \<Rightarrow> pyv" where
  "receipt contact_id fp accepted_at = PDict
     [(''contact_id'', PStr contact_id), (''fingerprint'', PStr fp),
      (''accepted_at'', PFloat accepted_at)]"

definition ingress_conflict :: pyerr where
  "ingress_conflict =
     ConflictError ''Durable ingress identity conflicts with an accepted root.''"

definition enqueue_ingress_root_mut ::
  "env \<Rightarrow> rat \<Rightarrow> string \<Rightarrow> string \<Rightarrow> string \<Rightarrow> mstate \<Rightarrow> (bool \<times> mstate) result" where
  "enqueue_ingress_root_mut E now contact_id context ingress_id s =
     (let queue_id = ingress_queue_id E ingress_id;
          fp = fingerprint E contact_id context;
          r = dget (ms_ingress_receipts s) queue_id
      in if is_dict r
         then (if get r ''fingerprint'' \<noteq> PStr fp \<or> get r ''contact_id'' \<noteq> PStr contact_id
               then Inl ingress_conflict else Inr (True, s))
         else (case find_root E queue_id (ms_root_queue s) of
             Some existing \<Rightarrow>
               (let ec = str_or_empty (env_repr E) (get existing ''contact_id'')
                in if ec \<noteq> contact_id
                      \<or> fingerprint E ec (str_or_empty (env_repr E) (get existing ''context'')) \<noteq> fp
                   then Inl ingress_conflict
                   else Inr (True, s\<lparr>ms_ingress_receipts :=
                          dput queue_id
                            (receipt contact_id fp (number (get existing ''enqueued_at'') now))
                            (ms_ingress_receipts s)\<rparr>))
           | None \<Rightarrow>
               (let s1 = s\<lparr>ms_root_queue := ms_root_queue s
                             @ [PDict (root_item queue_id contact_id context now (ms_epoch s))],
                           ms_ingress_receipts :=
                             dput queue_id (receipt contact_id fp now) (ms_ingress_receipts s)\<rparr>;
                    s2 = (if ms_phase s = Available then s1
                          else ensure_notice E 0 s1 contact_id (ms_phase s) now)
                in Inr (True, s2\<lparr>ms_safe_to_stop := PBool False\<rparr>))))"

text \<open>
  The loop of \<open>claim_pending_roots\<close>: the admissions so far, the contacts still excluded, and
  the state whose leases each claim extends; it returns the queue with the claimed items.
\<close>

definition claimable :: "env \<Rightarrow> rat \<Rightarrow> string list \<Rightarrow> mstate \<Rightarrow> pyv \<Rightarrow> bool" where
  "claimable E now excluded s item \<longleftrightarrow>
     is_dict item \<and> get item ''status'' = PStr ''pending''
     \<and> str_or_empty (env_repr E) (get item ''contact_id'') \<notin> set excluded
     \<and> \<not> number (get item ''not_before'') 0 > now
     \<and> \<not> (ms_phase s = Draining
          \<and> \<not> (truthy (get item ''continuation'')
               \<and> integer (get item ''admitted_epoch'') 0 < ms_epoch s))"

fun claim_loop ::
  "env \<Rightarrow> rat \<Rightarrow> nat \<Rightarrow> bool \<Rightarrow> nat \<Rightarrow> string list \<Rightarrow> root_admission list \<Rightarrow> mstate \<Rightarrow> pyv list
     \<Rightarrow> root_admission list \<times> pyv list \<times> mstate" where
  "claim_loop E now limit uniq u excluded acc s [] = (acc, [], s)"
| "claim_loop E now limit uniq u excluded acc s (item # rest) =
     (if limit \<le> length acc then (acc, item # rest, s)
      else if \<not> claimable E now excluded s item
      then (let (a, q, s') = claim_loop E now limit uniq u excluded acc s rest in (a, item # q, s'))
      else
        let (admission, item', s1) = claim_root_item E u s item now;
            excluded' = (if uniq then str_or_empty (env_repr E) (get item ''contact_id'') # excluded
                         else excluded);
            (a, q, s') =
              claim_loop E now limit uniq (Suc (Suc u)) excluded' (acc @ [admission]) s1 rest
        in (a, item' # q, s'))"

definition claim_pending_roots_mut ::
  "env \<Rightarrow> rat \<Rightarrow> int \<Rightarrow> string list \<Rightarrow> bool \<Rightarrow> mstate \<Rightarrow> (root_admission list \<times> mstate) result" where
  "claim_pending_roots_mut E now limit exclude_contact_ids unique_contacts s =
     (if ms_phase s \<noteq> Available \<and> ms_phase s \<noteq> Draining then Inr ([], s)
      else let (a, q, s') =
                 claim_loop E now (nat (max 1 limit)) unique_contacts 0 exclude_contact_ids [] s
                   (ms_root_queue s)
           in Inr (a, s'\<lparr>ms_root_queue := q\<rparr>))"

definition enqueue_continuation_mut ::
  "env \<Rightarrow> rat \<Rightarrow> string \<Rightarrow> string \<Rightarrow> pyv \<Rightarrow> string \<Rightarrow> mstate \<Rightarrow> (bool \<times> mstate) result" where
  "enqueue_continuation_mut E now contact_id context activity_reference queue_id s =
     (let fp = fingerprint E contact_id context;
          r = dget (ms_continuation_receipts s) queue_id
      in if is_dict r
         then Inr (get r ''fingerprint'' = PStr fp \<and> get r ''contact_id'' = PStr contact_id, s)
         else (case find_root E queue_id (ms_root_queue s) of
             Some existing \<Rightarrow>
               (let same = (str_or_empty (env_repr E) (get existing ''contact_id'') = contact_id
                            \<and> fingerprint E contact_id
                                (str_or_empty (env_repr E) (get existing ''context'')) = fp)
                in Inr (same,
                     if same
                     then s\<lparr>ms_continuation_receipts :=
                            dput queue_id
                              (receipt contact_id fp (number (get existing ''enqueued_at'') now))
                              (ms_continuation_receipts s)\<rparr>
                     else s))
           | None \<Rightarrow>
               (let lease_id = str_or_empty (env_repr E) (get activity_reference ''lease_id'');
                    lease = dget (ms_leases s) lease_id
                in if \<not> is_dict lease then Inr (False, s)
                   else Inr (True, s\<lparr>ms_root_queue := ms_root_queue s
                       @ [PDict (root_item queue_id contact_id context now (ms_epoch s)
                           @ [(''continuation'', PBool True),
                              (''admitted_epoch'',
                                 PInt (integer (get lease ''admitted_epoch'') 0)),
                              (''lineage_id'', PStr (py_str (env_repr E)
                                 (py_or (get lease ''lineage_id'') (PStr lease_id)))),
                              (''transfer_lease_id'', PStr lease_id)])],
                     ms_leases := dpop lease_id (ms_leases s),
                     ms_continuation_receipts :=
                       dput queue_id (receipt contact_id fp now) (ms_continuation_receipts s),
                     ms_safe_to_stop := PBool False\<rparr>))))"

section \<open>Settling claimed roots\<close>

text \<open>
  The dictionary \<open>keys\<close> of the admissions; a later admission of one queue id replaces an
  earlier one. An item is settled when it still carries the claim of its admission.
\<close>

definition admission_keys :: "root_admission list \<Rightarrow> string \<Rightarrow> (string \<times> string) option" where
  "admission_keys admissions =
     map_of (rev (map (\<lambda>a. (ad_queue_id a, (ad_claim_token a, tk_lease_id (ad_activity a))))
                   admissions))"

definition settles :: "env \<Rightarrow> root_admission list \<Rightarrow> pyv \<Rightarrow> string option" where
  "settles E admissions item =
     (if \<not> is_dict item then None
      else (case admission_keys admissions (str_or_empty (env_repr E) (get item ''queue_id'')) of
              None \<Rightarrow> None
            | Some (token, lease_id) \<Rightarrow>
                if get item ''claim_token'' = PStr token \<and> get item ''lease_id'' = PStr lease_id
                then Some lease_id else None))"

definition drop_leases :: "string list \<Rightarrow> dict \<Rightarrow> dict" where
  "drop_leases ids leases = foldl (\<lambda>d k. dpop k d) leases ids"

definition settled_leases :: "env \<Rightarrow> root_admission list \<Rightarrow> pyv list \<Rightarrow> string list" where
  "settled_leases E admissions q = List.map_filter (settles E admissions) q"

definition complete_roots_mut ::
  "env \<Rightarrow> root_admission list \<Rightarrow> mstate \<Rightarrow> (unit \<times> mstate) result" where
  "complete_roots_mut E admissions s =
     Inr ((), s\<lparr>ms_leases := drop_leases (settled_leases E admissions (ms_root_queue s))
                             (ms_leases s),
               ms_root_queue :=
                 filter (\<lambda>i. settles E admissions i = None) (ms_root_queue s)\<rparr>)"

definition retry_item :: "rat \<Rightarrow> rat \<Rightarrow> pyv \<Rightarrow> pyv" where
  "retry_item now delay item =
     (let attempts = integer (get item ''attempts'') 0 + 1
      in put ''not_before'' (PFloat (now + retry_backoff_seconds delay attempts))
           (put ''attempts'' (PInt attempts) (unclaim item)))"

definition retry_roots_mut ::
  "env \<Rightarrow> rat \<Rightarrow> root_admission list \<Rightarrow> rat \<Rightarrow> mstate \<Rightarrow> (unit \<times> mstate) result" where
  "retry_roots_mut E now admissions delay s =
     Inr ((), s\<lparr>ms_leases := drop_leases (settled_leases E admissions (ms_root_queue s))
                             (ms_leases s),
               ms_root_queue :=
                 map (\<lambda>i. if settles E admissions i = None then i else retry_item now delay i)
                   (ms_root_queue s)\<rparr>)"

definition defer_roots_mut ::
  "env \<Rightarrow> root_admission list \<Rightarrow> mstate \<Rightarrow> (unit \<times> mstate) result" where
  "defer_roots_mut E admissions s =
     Inr ((), s\<lparr>ms_leases := drop_leases (settled_leases E admissions (ms_root_queue s))
                             (ms_leases s),
               ms_root_queue :=
                 map (\<lambda>i. if settles E admissions i = None then i else unclaim i)
                   (ms_root_queue s)\<rparr>)"

section \<open>Activities\<close>

definition heartbeat_mut :: "rat \<Rightarrow> string \<Rightarrow> rat \<Rightarrow> mstate \<Rightarrow> (bool \<times> mstate) result" where
  "heartbeat_mut now lease_id ttl s =
     (let lease = dget (ms_leases s) lease_id
      in if \<not> is_dict lease then Inr (False, s)
         else Inr (True, s\<lparr>ms_leases :=
                dput lease_id
                  (put ''expires_at'' (PFloat (now + max 5 ttl))
                    (put ''heartbeat_at'' (PFloat now) lease)) (ms_leases s),
              ms_root_queue :=
                map (\<lambda>i. if is_dict i \<and> get i ''lease_id'' = PStr lease_id
                         then put ''claim_until'' (PFloat (now + ROOT_CLAIM_TTL_SECONDS)) i
                         else i) (ms_root_queue s)\<rparr>))"

definition get_activity_mut ::
  "env \<Rightarrow> string \<Rightarrow> mstate \<Rightarrow> (activity_token option \<times> mstate) result" where
  "get_activity_mut E lease_id s =
     (let lease = dget (ms_leases s) lease_id
      in Inr (if is_dict lease then Some (token_from_lease E lease_id lease) else None, s))"

text \<open>\<open>parent\<close> is the argument, or the activity bound to the calling context.\<close>

definition acquire_activity_mut ::
  "env \<Rightarrow> rat \<Rightarrow> string \<Rightarrow> string \<Rightarrow> string \<Rightarrow> activity_token option \<Rightarrow> rat \<Rightarrow> mstate
     \<Rightarrow> (activity_token option \<times> mstate) result" where
  "acquire_activity_mut E now kind activity_id contact_id parent ttl s =
     (if ms_phase s = Available
      then let (t, s') = new_lease E 0 s now kind activity_id contact_id (ms_epoch s)
                 (case parent of None \<Rightarrow> [] | Some p \<Rightarrow> tk_lineage_id p)
                 (case parent of None \<Rightarrow> [] | Some p \<Rightarrow> tk_lease_id p) ttl
           in Inr (Some t, s')
      else (case parent of
              None \<Rightarrow> Inr (None, s)
            | Some p \<Rightarrow>
                if \<not> is_dict (dget (ms_leases s) (tk_lease_id p)) then Inr (None, s)
                else if tk_admitted_epoch p \<ge> ms_epoch s then Inr (None, s)
                else let (t, s') = new_lease E 0 s now kind activity_id contact_id
                           (tk_admitted_epoch p) (tk_lineage_id p) (tk_lease_id p) ttl
                     in Inr (Some t, s')))"

definition adopt_prefence_activity_mut ::
  "env \<Rightarrow> rat \<Rightarrow> string \<Rightarrow> string \<Rightarrow> string \<Rightarrow> rat \<Rightarrow> rat \<Rightarrow> mstate
     \<Rightarrow> (activity_token option \<times> mstate) result" where
  "adopt_prefence_activity_mut E now kind activity_id contact_id started_at ttl s =
     (let requested_at = number (ms_requested_at s) 0
      in if ms_phase s \<noteq> Available
            \<and> (requested_at = 0 \<or> (started_at \<noteq> 0 \<and> started_at > requested_at))
         then Inr (None, s)
         else let (t, s') = new_lease E 0 s now kind activity_id contact_id
                    (if ms_phase s = Available then ms_epoch s else max 0 (ms_epoch s - 1))
                    [] [] ttl
              in Inr (Some t, s'))"

definition release_mut :: "string \<Rightarrow> mstate \<Rightarrow> (bool \<times> mstate) result" where
  "release_mut lease_id s =
     Inr (dget (ms_leases s) lease_id \<noteq> PNone,
          s\<lparr>ms_leases := dpop lease_id (ms_leases s)\<rparr>)"

section \<open>Quiescence\<close>

definition pending_continuation :: "pyv \<Rightarrow> bool" where
  "pending_continuation i \<longleftrightarrow>
     is_dict i \<and> get i ''status'' = PStr ''pending'' \<and> truthy (get i ''continuation'')"

definition acknowledge_mut ::
  "env \<Rightarrow> rat \<Rightarrow> int \<Rightarrow> bool option \<Rightarrow> bool option \<Rightarrow> int option \<Rightarrow> mstate \<Rightarrow> (bool \<times> mstate) result" where
  "acknowledge_mut E now epoch durable_inputs_secured outbox_flushed pid s =
     (let inputs_secured = (case durable_inputs_secured of
                              Some b \<Rightarrow> b | None \<Rightarrow> outbox_flushed = Some True)
      in if ms_phase s \<noteq> Draining \<or> ms_epoch s \<noteq> epoch \<or> ms_leases s \<noteq> []
            \<or> list_ex pending_continuation (ms_root_queue s) \<or> \<not> inputs_secured
         then Inr (False, s\<lparr>ms_safe_to_stop := PBool False\<rparr>)
         else Inr (True, s\<lparr>ms_participants :=
                dput ''runtime'' (PDict
                  [(''epoch'', PInt epoch),
                   (''pid'', PInt (case pid of Some p \<Rightarrow> if p = 0 then env_pid E else p
                                             | None \<Rightarrow> env_pid E)),
                   (''acknowledged_at'', PFloat now)]) (ms_participants s),
              ms_safe_to_stop := PBool True\<rparr>))"

end
