(* ===== verification/MaintInv.thy ===== *)
theory MaintInv
  imports MaintOps
begin

text \<open>
  What every run of the maintenance coordinator keeps true. \<open>coord_step\<close> is one completed
  transaction on the file, \<open>coord_reach\<close> the files reachable from an absent one, and the locale
  \<open>coord_invariant\<close> is the contract between a state predicate and the coordinator: kept by the
  sweep and by every operation, it holds of every reachable document.
\<close>

named_theorems maint_defs \<open>the definitions of the operations, for one-step proofs\<close>

section \<open>Documents and states\<close>

definition wf_state :: "mstate \<Rightarrow> bool" where
  "wf_state s \<longleftrightarrow>
     0 \<le> ms_epoch s \<and> 0 \<le> ms_event_sequence s
     \<and> (\<forall>kv \<in> set (ms_extra s). fst kv \<notin> set state_keys)"

lemma map_of_extra:
  assumes "\<forall>kv \<in> set xs. fst kv \<notin> set state_keys" and "k \<in> set state_keys"
  shows "map_of xs k = None"
  using assms by (metis image_iff map_of_eq_None_iff)

lemma filter_extra:
  assumes "\<forall>kv \<in> set xs. fst kv \<notin> set state_keys"
  shows "filter (\<lambda>kv. fst kv \<notin> set state_keys) xs = xs"
  using assms by (simp add: filter_id_conv)

lemma normalize_to_doc: "wf_state s \<Longrightarrow> normalize (to_doc s) = Inr s"
proof -
  assume wf: "wf_state s"
  have e: "map_of (ms_extra s) k = None" if "k \<in> set state_keys" for k
    using wf that by (intro map_of_extra) (auto simp: wf_state_def)
  have f: "filter (\<lambda>kv. fst kv \<notin> set state_keys) (ms_extra s) = ms_extra s"
    using wf by (intro filter_extra) (auto simp: wf_state_def)
  have k: "set state_keys =
     {''version'', ''epoch'', ''phase'', ''maintenance_id'', ''requested_at'', ''deadline_at'',
      ''updated_at'', ''safe_to_stop'', ''last_outcome'', ''leases'', ''root_queue'',
      ''continuation_receipts'', ''ingress_receipts'', ''notices'', ''public_events'',
      ''event_sequence'', ''participants''}"
    by (simp add: state_keys_def)
  show ?thesis
    using wf f
    by (simp add: normalize_def to_doc_def dget_or_def dget_def wf_state_def k)
qed

lemma normalize_wf: "normalize d = Inr s \<Longrightarrow> wf_state s"
  by (auto simp: normalize_def wf_state_def Let_def split: sum.splits)

lemma normalize_default: "normalize default_doc = Inr
  \<lparr>ms_epoch = 0, ms_phase = Available, ms_maintenance_id = PStr [], ms_requested_at = PFloat 0,
   ms_deadline_at = PFloat 0, ms_updated_at = PFloat 0, ms_safe_to_stop = PBool False,
   ms_last_outcome = PStr [], ms_leases = [], ms_root_queue = [],
   ms_continuation_receipts = [], ms_ingress_receipts = [], ms_notices = [],
   ms_public_events = [], ms_event_sequence = 0, ms_participants = [], ms_extra = []\<rparr>"
  by (simp add: normalize_def default_doc_def dget_or_def dget_def phase_of_def state_keys_def)

section \<open>Steps\<close>

datatype mop =
    RequestDrain "rat option" string
  | CancelDrain string string
  | Transition phase string
  | EnqueueRoot string string bool
  | EnqueueIngress string string string
  | ClaimRoots int "string list" bool
  | EnqueueContinuation string string pyv string
  | Heartbeat string rat
  | GetActivity string
  | Acquire string string string "activity_token option" rat
  | Adopt string string string rat rat
  | Release string
  | Complete "root_admission list"
  | Retry "root_admission list" rat
  | Defer "root_admission list"
  | ClaimNotices int
  | FinishNotice string string bool
  | Acknowledge int "bool option" "bool option" "int option"
  | ReadState

definition state_of :: "('r \<times> mstate) result \<Rightarrow> mstate result" where
  "state_of r = (case r of Inl e \<Rightarrow> Inl e | Inr (x, s) \<Rightarrow> Inr s)"

lemma state_of_Inr: "state_of r = Inr s' \<longleftrightarrow> (\<exists>x. r = Inr (x, s'))"
  by (auto simp: state_of_def split: sum.splits)

fun step_of :: "env \<Rightarrow> rat \<Rightarrow> mop \<Rightarrow> mstate \<Rightarrow> mstate result" where
  "step_of E now (RequestDrain d m) s = state_of (request_drain_mut E now d m s)"
| "step_of E now (CancelDrain m outc) s = state_of (cancel_drain_mut E m outc s)"
| "step_of E now (Transition p m) s = state_of (transition_mut E p m s)"
| "step_of E now (EnqueueRoot c x a) s = state_of (enqueue_root_mut E now c x a s)"
| "step_of E now (EnqueueIngress c x i) s = state_of (enqueue_ingress_root_mut E now c x i s)"
| "step_of E now (ClaimRoots n xs q) s = state_of (claim_pending_roots_mut E now n xs q s)"
| "step_of E now (EnqueueContinuation c x r q) s =
     state_of (enqueue_continuation_mut E now c x r q s)"
| "step_of E now (Heartbeat l t) s = state_of (heartbeat_mut now l t s)"
| "step_of E now (GetActivity l) s = state_of (get_activity_mut E l s)"
| "step_of E now (Acquire k a c p t) s = state_of (acquire_activity_mut E now k a c p t s)"
| "step_of E now (Adopt k a c st t) s = state_of (adopt_prefence_activity_mut E now k a c st t s)"
| "step_of E now (Release l) s = state_of (release_mut l s)"
| "step_of E now (Complete xs) s = state_of (complete_roots_mut E xs s)"
| "step_of E now (Retry xs d) s = state_of (retry_roots_mut E now xs d s)"
| "step_of E now (Defer xs) s = state_of (defer_roots_mut E xs s)"
| "step_of E now (ClaimNotices n) s = state_of (claim_notices_mut E now n s)"
| "step_of E now (FinishNotice i t d) s = state_of (finish_notice_mut now i t d s)"
| "step_of E now (Acknowledge e a b p) s = state_of (acknowledge_mut E now e a b p s)"
| "step_of E now ReadState s = Inr s"

definition doc_of :: "pyv option \<Rightarrow> pyv" where
  "doc_of file = (case file of None \<Rightarrow> default_doc | Some d \<Rightarrow> d)"

inductive coord_step :: "pyv option \<Rightarrow> pyv option \<Rightarrow> bool" where
  op: "transaction E now (\<lambda>s. map_sum id (\<lambda>s'. ((), s')) (step_of E now c s)) file = Inr ((), file')
       \<Longrightarrow> coord_step file file'"

inductive coord_reach :: "pyv option \<Rightarrow> bool" where
  start: "coord_reach None"
| step: "coord_reach file \<Longrightarrow> coord_step file file' \<Longrightarrow> coord_reach file'"

inductive_cases coord_stepE: "coord_step file file'"

text \<open>
  A transaction that completes either leaves the file as it was, or writes the document of the
  mutated state with its time stamp.
\<close>

lemma transaction_Inr:
  assumes "transaction E now m file = Inr (r, file')"
  obtains s0 s1 s2 where
    "normalize (doc_of file) = Inr s0" and "prune E s0 now = Inr s1" and "m s1 = Inr (r, s2)"
    and "file' = file \<or> file' = Some (to_doc (s2\<lparr>ms_updated_at := PFloat now\<rparr>))"
  using assms by (auto simp: transaction_def doc_of_def Let_def split: sum.splits if_splits)

lemma coord_step_states:
  assumes "coord_step file file'"
  obtains E now c s0 s1 s2 where
    "normalize (doc_of file) = Inr s0" and "prune E s0 now = Inr s1" and
    "step_of E now c s1 = Inr s2" and
    "file' = file \<or> file' = Some (to_doc (s2\<lparr>ms_updated_at := PFloat now\<rparr>))"
  using assms
proof (cases rule: coord_step.cases)
  case (op E now c)
  from op obtain s0 s1 s2 where
    "normalize (doc_of file) = Inr s0" "prune E s0 now = Inr s1"
    "map_sum id (\<lambda>s'. ((), s')) (step_of E now c s1) = Inr ((), s2)"
    "file' = file \<or> file' = Some (to_doc (s2\<lparr>ms_updated_at := PFloat now\<rparr>))"
    by (elim transaction_Inr)
  moreover from this(3) have "step_of E now c s1 = Inr s2"
    by (cases "step_of E now c s1") auto
  ultimately show thesis using that by blast
qed

text \<open>
  What an operation may rely on after the sweep of its own transaction: a root that carries a
  claim holds a lease.
\<close>

definition swept :: "env \<Rightarrow> mstate \<Rightarrow> bool" where
  "swept E s \<longleftrightarrow>
     (\<forall>i \<in> set (ms_root_queue s). is_dict i \<and> get i ''status'' = PStr ''claimed'' \<longrightarrow>
        has_key (ms_leases s) (str_or_empty (env_repr E) (get i ''lease_id'')))"

lemma sweep_root_claimed:
  assumes "is_dict (sweep_root E ls now i)"
    and "get (sweep_root E ls now i) ''status'' = PStr ''claimed''"
  shows "has_key ls (str_or_empty (env_repr E) (get (sweep_root E ls now i) ''lease_id''))"
  using assms by (auto simp: sweep_root_def unclaim_def split: if_splits)

lemma prune_swept: "prune E s now = Inr s' \<Longrightarrow> swept E s'"
proof -
  assume p: "prune E s now = Inr s'"
  let ?q = "map (sweep_root E (ms_leases s') now)
              (ms_root_queue (prune_leases E (cancel_expired_drain E s now) now))"
  have "ms_root_queue s' = ?q"
    using p by (auto simp: prune_def settle_safe_to_stop_def Let_def split: sum.splits if_splits)
  then show ?thesis
    using sweep_root_claimed by (auto simp: swept_def)
qed

section \<open>The contract of an invariant\<close>

locale coord_invariant =
  fixes I :: "mstate \<Rightarrow> bool"
  assumes I_wf: "I s \<Longrightarrow> wf_state s"
    and I_init: "normalize default_doc = Inr s \<Longrightarrow> I s"
    and I_stamp: "I s \<Longrightarrow> I (s\<lparr>ms_updated_at := v\<rparr>)"
    and I_prune: "I s \<Longrightarrow> prune E s now = Inr s' \<Longrightarrow> I s'"
    and I_step: "I s \<Longrightarrow> swept E s \<Longrightarrow> step_of E now c s = Inr s' \<Longrightarrow> I s'"
begin

lemma inv_step:
  assumes "coord_step file file'" and "\<And>s. normalize (doc_of file) = Inr s \<Longrightarrow> I s"
    and "normalize (doc_of file') = Inr s'"
  shows "I s'"
proof -
  from assms(1) obtain E now c s0 s1 s2 where
    s: "normalize (doc_of file) = Inr s0" "prune E s0 now = Inr s1" "step_of E now c s1 = Inr s2"
    and f: "file' = file \<or> file' = Some (to_doc (s2\<lparr>ms_updated_at := PFloat now\<rparr>))"
    by (elim coord_step_states)
  have "I (s2\<lparr>ms_updated_at := PFloat now\<rparr>)"
    using assms(2) s by (metis I_stamp I_step I_prune prune_swept)
  with f show ?thesis
    using assms(2,3) normalize_to_doc [OF I_wf] by (auto simp: doc_of_def)
qed

lemma inv_reach: "coord_reach file \<Longrightarrow> normalize (doc_of file) = Inr s \<Longrightarrow> I s"
proof (induction arbitrary: s rule: coord_reach.induct)
  case start
  then show ?case by (simp add: doc_of_def I_init)
next
  case (step f f')
  then show ?case using inv_step by blast
qed

lemma reach_normalizes: "coord_reach file \<Longrightarrow> \<exists>s. normalize (doc_of file) = Inr s"
proof (induction rule: coord_reach.induct)
  case start
  show ?case by (simp add: doc_of_def normalize_default)
next
  case (step f f')
  from step.hyps(2) obtain E now c s0 s1 s2 where
    s: "normalize (doc_of f) = Inr s0" "prune E s0 now = Inr s1" "step_of E now c s1 = Inr s2"
    and g: "f' = f \<or> f' = Some (to_doc (s2\<lparr>ms_updated_at := PFloat now\<rparr>))"
    by (elim coord_step_states)
  from s step.hyps(1) have "I (s2\<lparr>ms_updated_at := PFloat now\<rparr>)"
    by (metis I_stamp I_step I_prune prune_swept inv_reach)
  then have n: "normalize (to_doc (s2\<lparr>ms_updated_at := PFloat now\<rparr>)) = Inr (s2\<lparr>ms_updated_at := PFloat now\<rparr>)"
    by (blast intro: normalize_to_doc I_wf)
  show ?case
    using g
  proof
    assume "f' = f"
    with s(1) show ?thesis by blast
  next
    assume "f' = Some (to_doc (s2\<lparr>ms_updated_at := PFloat now\<rparr>))"
    with n show ?thesis by (simp add: doc_of_def)
  qed
qed

end

end
