(* ===== verification/MaintSafe.thy ===== *)
theory MaintSafe
  imports MaintInv
begin

text \<open>
  Safety of the maintenance coordinator: the quiescence attestation \<open>safe_to_stop\<close> and the
  epoch fence are invariants of every reachable document.
\<close>

section \<open>What each helper leaves alone\<close>

lemma emit_frame:
  "emit E s ev ph outc =
     s\<lparr>ms_event_sequence := ms_event_sequence s + 1,
       ms_public_events := ms_public_events (emit E s ev ph outc)\<rparr>"
  by (simp add: emit_def Let_def)

lemma emit_fields [simp]:
  "ms_epoch (emit E s ev ph outc) = ms_epoch s"
  "ms_phase (emit E s ev ph outc) = ms_phase s"
  "ms_maintenance_id (emit E s ev ph outc) = ms_maintenance_id s"
  "ms_requested_at (emit E s ev ph outc) = ms_requested_at s"
  "ms_deadline_at (emit E s ev ph outc) = ms_deadline_at s"
  "ms_safe_to_stop (emit E s ev ph outc) = ms_safe_to_stop s"
  "ms_last_outcome (emit E s ev ph outc) = ms_last_outcome s"
  "ms_leases (emit E s ev ph outc) = ms_leases s"
  "ms_root_queue (emit E s ev ph outc) = ms_root_queue s"
  "ms_continuation_receipts (emit E s ev ph outc) = ms_continuation_receipts s"
  "ms_ingress_receipts (emit E s ev ph outc) = ms_ingress_receipts s"
  "ms_notices (emit E s ev ph outc) = ms_notices s"
  "ms_participants (emit E s ev ph outc) = ms_participants s"
  "ms_extra (emit E s ev ph outc) = ms_extra s"
  "ms_event_sequence (emit E s ev ph outc) = ms_event_sequence s + 1"
  by (simp_all add: emit_def Let_def)

lemma ensure_notice_frame:
  "ensure_notice E u s c ph now = s\<lparr>ms_notices := ms_notices (ensure_notice E u s c ph now)\<rparr>"
  by (simp add: ensure_notice_def Let_def)

lemma ensure_notice_fields [simp]:
  "ms_epoch (ensure_notice E u s c ph now) = ms_epoch s"
  "ms_phase (ensure_notice E u s c ph now) = ms_phase s"
  "ms_safe_to_stop (ensure_notice E u s c ph now) = ms_safe_to_stop s"
  "ms_leases (ensure_notice E u s c ph now) = ms_leases s"
  "ms_root_queue (ensure_notice E u s c ph now) = ms_root_queue s"
  "ms_continuation_receipts (ensure_notice E u s c ph now) = ms_continuation_receipts s"
  "ms_ingress_receipts (ensure_notice E u s c ph now) = ms_ingress_receipts s"
  "ms_public_events (ensure_notice E u s c ph now) = ms_public_events s"
  "ms_event_sequence (ensure_notice E u s c ph now) = ms_event_sequence s"
  "ms_extra (ensure_notice E u s c ph now) = ms_extra s"
  by (simp_all add: ensure_notice_def Let_def)

lemma new_lease_eq:
  "new_lease E u s now k a c ep lin par ttl = (t, s') \<longleftrightarrow>
     (let L = lease_doc E (env_uid E u) now k a c ep lin par ttl
      in t = token_from_lease E (env_uid E u) L
         \<and> s' = s\<lparr>ms_leases := dput (env_uid E u) L (ms_leases s), ms_safe_to_stop := PBool False\<rparr>)"
  by (auto simp: new_lease_def Let_def)

lemma is_dict_lease_doc [simp]: "is_dict (lease_doc E i now k a c ep lin par ttl)"
  by (simp add: lease_doc_def)

lemma get_lease_doc_epoch [simp]:
  "get (lease_doc E i now k a c ep lin par ttl) ''admitted_epoch'' = PInt ep"
  by (simp add: lease_doc_def dget_Cons)

lemma token_of_lease_doc [simp]:
  "tk_lease_id (token_from_lease E i L) = i"
  "tk_admitted_epoch (token_from_lease E i L) = integer (get L ''admitted_epoch'') 0"
  by (simp_all add: token_from_lease_def)

lemma is_dict_unclaim [simp]: "is_dict (unclaim i) = is_dict i"
  by (simp add: unclaim_def)

lemma get_unclaim [simp]:
  "is_dict i \<Longrightarrow> get (unclaim i) k =
     (if k = ''lease_id'' then PStr [] else if k = ''claim_until'' then PFloat 0
      else if k = ''claim_token'' then PStr [] else if k = ''status'' then PStr ''pending''
      else get i k)"
  by (simp add: unclaim_def)

definition claimed_item :: "env \<Rightarrow> nat \<Rightarrow> rat \<Rightarrow> pyv \<Rightarrow> pyv" where
  "claimed_item E u now item =
     put ''lease_id'' (PStr (env_uid E (Suc u)))
       (put ''claim_until'' (PFloat (now + ROOT_CLAIM_TTL_SECONDS))
         (put ''claim_token'' (PStr (env_uid E u)) (put ''status'' (PStr ''claimed'') item)))"

lemma is_dict_claimed_item [simp]: "is_dict (claimed_item E u now i) = is_dict i"
  by (simp add: claimed_item_def)

lemma get_claimed_item [simp]:
  "is_dict i \<Longrightarrow> get (claimed_item E u now i) k =
     (if k = ''lease_id'' then PStr (env_uid E (Suc u))
      else if k = ''claim_until'' then PFloat (now + ROOT_CLAIM_TTL_SECONDS)
      else if k = ''claim_token'' then PStr (env_uid E u)
      else if k = ''status'' then PStr ''claimed'' else get i k)"
  by (simp add: claimed_item_def)

text \<open>The epoch the new lease of a claimed root is admitted at.\<close>

definition item_epoch :: "mstate \<Rightarrow> pyv \<Rightarrow> int" where
  "item_epoch s item =
     (if truthy (get item ''continuation'') then integer (get item ''admitted_epoch'') 0
      else ms_epoch s)"

definition lease_epoch :: "pyv \<Rightarrow> int" where
  "lease_epoch l = integer (get l ''admitted_epoch'') 0"

lemma claim_root_item_cases:
  assumes "claim_root_item E u s item now = (adm, item', s')"
  obtains L ls where "is_dict L" and "lease_epoch L = item_epoch s item"
    and "set ls \<subseteq> insert (env_uid E (Suc u), L) (set (ms_leases s))"
    and "s' = s\<lparr>ms_leases := ls, ms_safe_to_stop := PBool False\<rparr>"
    and "item' = claimed_item E u now item"
    and "ad_claim_token adm = env_uid E u"
    and "tk_lease_id (ad_activity adm) = env_uid E (Suc u)"
    and "ad_queue_id adm = str_or_empty (env_repr E) (get item ''queue_id'')"
    and "ad_contact_id adm = str_or_empty (env_repr E) (get item ''contact_id'')"
proof -
  define L where "L = lease_doc E (env_uid E (Suc u)) now ''manager_root''
     (str_or_empty (env_repr E) (get item ''queue_id''))
     (str_or_empty (env_repr E) (get item ''contact_id'')) (item_epoch s item)
     (if truthy (get item ''continuation'')
      then str_or_empty (env_repr E) (get item ''lineage_id'') else [])
     (str_or_empty (env_repr E) (get item ''transfer_lease_id'')) LEASE_TTL_SECONDS"
  have "is_dict L" and "lease_epoch L = item_epoch s item"
    by (simp_all add: L_def lease_epoch_def)
  moreover have "set (ms_leases s') \<subseteq> insert (env_uid E (Suc u), L) (set (ms_leases s))"
    using assms set_dput_subset
    by (force simp: claim_root_item_def new_lease_def Let_def set_dpop L_def item_epoch_def
        split: if_splits)
  moreover have "s' = s\<lparr>ms_leases := ms_leases s', ms_safe_to_stop := PBool False\<rparr>"
    and "item' = claimed_item E u now item" and "ad_claim_token adm = env_uid E u"
    and "tk_lease_id (ad_activity adm) = env_uid E (Suc u)"
    and "ad_queue_id adm = str_or_empty (env_repr E) (get item ''queue_id'')"
    and "ad_contact_id adm = str_or_empty (env_repr E) (get item ''contact_id'')"
    using assms by (auto simp: claim_root_item_def new_lease_def Let_def claimed_item_def)
  ultimately show thesis by (rule that)
qed

lemma set_drop_leases: "set (drop_leases ids d) \<subseteq> set d"
  unfolding drop_leases_def
proof (induction ids arbitrary: d)
  case (Cons k ids)
  then show ?case using set_dpop [of k d] by force
qed simp

lemma set_prune_receipts: "set (prune_receipts ttl b now d) \<subseteq> set d"
  by (auto simp: prune_receipts_def Let_def)

section \<open>The sweep\<close>

lemma cancel_expired_drain_cases:
  "cancel_expired_drain E s now = s
   \<or> ms_phase s = Draining
     \<and> cancel_expired_drain E s now =
         emit E (s\<lparr>ms_phase := Available, ms_safe_to_stop := PBool False,
                   ms_last_outcome := PStr ''deadline_expired'', ms_participants := []\<rparr>)
           ''maintenance.cancelled'' (Some Available) ''deadline_expired''"
  by (simp add: cancel_expired_drain_def Let_def)

text \<open>The swept state, field by field.\<close>

lemma prune_InrD:
  assumes "prune E s now = Inr s'"
  shows "ms_epoch s' = ms_epoch s"
    and "ms_phase s' = ms_phase (cancel_expired_drain E s now)"
    and "ms_leases s' = filter (\<lambda>kv. \<not> lease_expired now (snd kv)) (ms_leases s)"
    and "ms_root_queue s' = map (sweep_root E (ms_leases s') now) (ms_root_queue s)"
    and "truthy (ms_safe_to_stop s') \<longleftrightarrow>
           truthy (ms_safe_to_stop s) \<and> ms_phase s' = Draining \<and> ms_leases s' = []"
    and "ms_extra s' = ms_extra s"
    and "ms_event_sequence s \<le> ms_event_sequence s'"
    and "ms_continuation_receipts s' =
           prune_receipts CONTINUATION_RECEIPT_TTL_SECONDS MAX_CONTINUATION_RECEIPTS now
             (ms_continuation_receipts s)"
    and "ms_ingress_receipts s' =
           prune_receipts INGRESS_RECEIPT_TTL_SECONDS MAX_INGRESS_RECEIPTS now
             (ms_ingress_receipts s)"
proof -
  let ?c = "cancel_expired_drain E s now"
  have c: "ms_epoch ?c = ms_epoch s" "ms_leases ?c = ms_leases s" "ms_extra ?c = ms_extra s"
    "ms_root_queue ?c = ms_root_queue s" "ms_event_sequence s \<le> ms_event_sequence ?c"
    "ms_continuation_receipts ?c = ms_continuation_receipts s"
    "ms_ingress_receipts ?c = ms_ingress_receipts s"
    "truthy (ms_safe_to_stop ?c) \<and> ms_phase ?c = Draining \<longleftrightarrow>
       truthy (ms_safe_to_stop s) \<and> ms_phase ?c = Draining"
    using cancel_expired_drain_cases [of E s now] by auto
  from assms show "ms_epoch s' = ms_epoch s"
    and "ms_phase s' = ms_phase ?c"
    and l: "ms_leases s' = filter (\<lambda>kv. \<not> lease_expired now (snd kv)) (ms_leases s)"
    and "ms_root_queue s' = map (sweep_root E (ms_leases s') now) (ms_root_queue s)"
    and "ms_extra s' = ms_extra s"
    and "ms_event_sequence s \<le> ms_event_sequence s'"
    and "ms_continuation_receipts s' =
           prune_receipts CONTINUATION_RECEIPT_TTL_SECONDS MAX_CONTINUATION_RECEIPTS now
             (ms_continuation_receipts s)"
    and "ms_ingress_receipts s' =
           prune_receipts INGRESS_RECEIPT_TTL_SECONDS MAX_INGRESS_RECEIPTS now
             (ms_ingress_receipts s)"
    using c by (auto simp: prune_def prune_leases_def settle_safe_to_stop_def Let_def
        split: sum.splits if_splits)
  show "truthy (ms_safe_to_stop s') \<longleftrightarrow>
           truthy (ms_safe_to_stop s) \<and> ms_phase s' = Draining \<and> ms_leases s' = []"
    using assms c by (auto simp: prune_def prune_leases_def settle_safe_to_stop_def Let_def
        split: sum.splits if_splits)
qed

lemma prune_phase:
  assumes "prune E s now = Inr s'"
  shows "ms_phase s' = ms_phase s \<or> ms_phase s = Draining \<and> ms_phase s' = Available"
  using prune_InrD(2) [OF assms] cancel_expired_drain_cases [of E s now] by auto

lemma sweep_root_get:
  assumes "k \<notin> {''status'', ''claim_token'', ''claim_until'', ''lease_id''}"
  shows "get (sweep_root E ls now i) k = get i k"
  using assms by (auto simp: sweep_root_def)

lemma is_dict_sweep_root [simp]: "is_dict (sweep_root E ls now i) = is_dict i"
  by (simp add: sweep_root_def)

section \<open>The claim loop\<close>

lemma claimable_frame [simp]:
  "claimable E now ex (s\<lparr>ms_leases := ls, ms_safe_to_stop := b\<rparr>) i = claimable E now ex s i"
  by (simp add: claimable_def)

lemma item_epoch_frame [simp]:
  "item_epoch (s\<lparr>ms_leases := ls, ms_safe_to_stop := b\<rparr>) i = item_epoch s i"
  by (simp add: item_epoch_def)

lemma claimable_mono: "claimable E now ex s i \<Longrightarrow> set ex' \<subseteq> set ex \<Longrightarrow> claimable E now ex' s i"
  by (auto simp: claimable_def)

text \<open>
  A lease the loop leaves behind was there before, or is the lease of a root that could be
  claimed; an item it returns is as it was, or carries a claim.
\<close>

definition loop_lease :: "env \<Rightarrow> rat \<Rightarrow> mstate \<Rightarrow> pyv list \<Rightarrow> (string \<times> pyv) \<Rightarrow> bool" where
  "loop_lease E now s q kv \<longleftrightarrow>
     kv \<in> set (ms_leases s)
     \<or> (\<exists>i \<in> set q. claimable E now [] s i \<and> is_dict (snd kv) \<and> lease_epoch (snd kv) = item_epoch s i)"

definition loop_item :: "env \<Rightarrow> rat \<Rightarrow> pyv \<Rightarrow> pyv \<Rightarrow> bool" where
  "loop_item E now i i' \<longleftrightarrow> i' = i \<or> (is_dict i \<and> (\<exists>u. i' = claimed_item E u now i))"

lemma claim_loop_result:
  "claim_loop E now limit uniq u excluded acc s q = (a, q', s') \<Longrightarrow>
     (s' = s \<and> q' = q
      \<or> (\<exists>ls. s' = s\<lparr>ms_leases := ls, ms_safe_to_stop := PBool False\<rparr>
             \<and> (\<forall>kv \<in> set ls. loop_lease E now s q kv)))
     \<and> list_all2 (loop_item E now) q q'"
proof (induction q arbitrary: u excluded acc s a q' s')
  case (Cons item rest)
  show ?case
  proof (cases "limit \<le> length acc")
    case True
    with Cons.prems show ?thesis by (simp add: loop_item_def list_all2_refl)
  next
    case not_full: False
    show ?thesis
    proof (cases "claimable E now excluded s item")
      case False
      with not_full Cons.prems obtain q1 where
        l: "claim_loop E now limit uniq u excluded acc s rest = (a, q1, s')" and q': "q' = item # q1"
        by (auto split: prod.splits)
      from Cons.IH [OF l] q' show ?thesis
        by (force simp: loop_item_def loop_lease_def)
    next
      case True
      obtain adm i1 s1 where c: "claim_root_item E u s item now = (adm, i1, s1)"
        by (metis prod_cases3)
      then obtain L ls1 where c': "is_dict L" "lease_epoch L = item_epoch s item"
        "set ls1 \<subseteq> insert (env_uid E (Suc u), L) (set (ms_leases s))"
        "s1 = s\<lparr>ms_leases := ls1, ms_safe_to_stop := PBool False\<rparr>" "i1 = claimed_item E u now item"
        by (elim claim_root_item_cases)
      from True not_full c Cons.prems obtain ex q1 where
        l: "claim_loop E now limit uniq (Suc (Suc u)) ex (acc @ [adm]) s1 rest = (a, q1, s')"
        and q': "q' = i1 # q1"
        by (auto simp: Let_def split: prod.splits)
      have t: "claimable E now [] s item" using True by (rule claimable_mono) simp
      have new: "\<forall>kv \<in> set ls1. loop_lease E now s (item # rest) kv"
        using c' t by (auto simp: loop_lease_def)
      have "\<exists>ls. s' = s\<lparr>ms_leases := ls, ms_safe_to_stop := PBool False\<rparr>
             \<and> (\<forall>kv \<in> set ls. loop_lease E now s (item # rest) kv)"
        using conjunct1 [OF Cons.IH [OF l]]
      proof
        assume "s' = s1 \<and> q1 = rest"
        with c' new show ?thesis by blast
      next
        assume "\<exists>ls. s' = s1\<lparr>ms_leases := ls, ms_safe_to_stop := PBool False\<rparr>
             \<and> (\<forall>kv \<in> set ls. loop_lease E now s1 rest kv)"
        then obtain ls where ls: "s' = s1\<lparr>ms_leases := ls, ms_safe_to_stop := PBool False\<rparr>"
          "\<forall>kv \<in> set ls. loop_lease E now s1 rest kv" by blast
        have "loop_lease E now s (item # rest) kv" if "kv \<in> set ls" for kv
          using ls(2) that new c'(4) by (auto simp: loop_lease_def)
        with ls(1) c'(4) show ?thesis by auto
      qed
      moreover have "loop_item E now item i1"
        using t c'(5) by (auto simp: loop_item_def claimable_def)
      ultimately show ?thesis using Cons.IH [OF l] q' by auto
    qed
  qed
qed simp

end
