(* ===== verification/MaintReach.thy ===== *)
theory MaintReach
  imports MaintSafe
begin

text \<open>
  The two safety invariants of the coordinator and the interpretations of \<open>coord_invariant\<close>
  that carry them to every reachable document.

  \<^item> \<open>quiet_inv\<close>: while \<open>safe_to_stop\<close> is set, the fence is up, no lease is held and no
    continuation waits in the queue.
  \<^item> \<open>fence_inv\<close>: no lease is admitted at an epoch after the current one, and behind a raised
    fence every lease was admitted before it.
\<close>

section \<open>Invariants\<close>

definition root_wf :: "pyv \<Rightarrow> bool" where
  "root_wf i \<longleftrightarrow>
     is_dict i \<and> (get i ''status'' = PStr ''pending'' \<or> get i ''status'' = PStr ''claimed'')"

definition quiet_inv :: "mstate \<Rightarrow> bool" where
  "quiet_inv s \<longleftrightarrow> wf_state s
     \<and> (\<forall>i \<in> set (ms_root_queue s). root_wf i)
     \<and> (truthy (ms_safe_to_stop s) \<longrightarrow>
          ms_phase s = Draining \<and> ms_leases s = []
          \<and> (\<forall>i \<in> set (ms_root_queue s). \<not> truthy (get i ''continuation'')))"

text \<open>The newest epoch a lease may have been admitted at.\<close>

definition fence_bound :: "mstate \<Rightarrow> int" where
  "fence_bound s = (if ms_phase s = Available then ms_epoch s else ms_epoch s - 1)"

definition epochs_le :: "int \<Rightarrow> dict \<Rightarrow> bool" where
  "epochs_le b d \<longleftrightarrow> (\<forall>kv \<in> set d. lease_epoch (snd kv) \<le> b)"

lemma epochs_le_subset: "epochs_le b d \<Longrightarrow> set d' \<subseteq> set d \<Longrightarrow> epochs_le b d'"
  unfolding epochs_le_def by blast

lemma epochs_le_mono: "epochs_le b d \<Longrightarrow> b \<le> b' \<Longrightarrow> epochs_le b' d"
  unfolding epochs_le_def by force

lemma epochs_le_nil [simp]: "epochs_le b []"
  by (simp add: epochs_le_def)

lemma epochs_le_dpop [simp]: "epochs_le b d \<Longrightarrow> epochs_le b (dpop k d)"
  by (erule epochs_le_subset) (auto simp: set_dpop)

lemma epochs_le_drop [simp]: "epochs_le b d \<Longrightarrow> epochs_le b (drop_leases ids d)"
  by (erule epochs_le_subset) (rule set_drop_leases)

lemma epochs_le_dput [simp]: "epochs_le b d \<Longrightarrow> lease_epoch v \<le> b \<Longrightarrow> epochs_le b (dput k v d)"
  using set_dput_subset [of k v d] unfolding epochs_le_def by auto

lemma epochs_le_dget: "epochs_le b d \<Longrightarrow> is_dict (dget d k) \<Longrightarrow> lease_epoch (dget d k) \<le> b"
  unfolding epochs_le_def dget_def
  by (auto split: option.splits dest!: map_of_SomeD)

definition queue_epochs_le :: "int \<Rightarrow> pyv list \<Rightarrow> bool" where
  "queue_epochs_le b q \<longleftrightarrow>
     (\<forall>i \<in> set q. truthy (get i ''continuation'') \<longrightarrow>
                    integer (get i ''admitted_epoch'') 0 \<le> b)"

definition fence_inv :: "mstate \<Rightarrow> bool" where
  "fence_inv s \<longleftrightarrow> wf_state s
     \<and> (ms_phase s \<noteq> Available \<longrightarrow> 1 \<le> ms_epoch s)
     \<and> epochs_le (fence_bound s) (ms_leases s)
     \<and> queue_epochs_le (ms_epoch s) (ms_root_queue s)"

lemma wf_state_frame:
  assumes "wf_state s" and "ms_epoch s \<le> ms_epoch s'" and "ms_event_sequence s \<le> ms_event_sequence s'"
    and "ms_extra s' = ms_extra s"
  shows "wf_state s'"
  using assms by (auto simp: wf_state_def)

lemma quiet_inv_unsafe:
  assumes "wf_state s" and "\<forall>i \<in> set (ms_root_queue s). root_wf i" and "\<not> truthy (ms_safe_to_stop s)"
  shows "quiet_inv s"
  using assms by (simp add: quiet_inv_def)

section \<open>Kept by the sweep\<close>

lemma root_wf_sweep: "root_wf i \<Longrightarrow> root_wf (sweep_root E ls now i)"
  by (auto simp: root_wf_def sweep_root_def)

lemma quiet_inv_prune:
  assumes "quiet_inv s" and "prune E s now = Inr s'"
  shows "quiet_inv s'"
proof -
  note p = prune_InrD [OF assms(2)]
  have "wf_state s'"
    using assms(1) p by (intro wf_state_frame [of s s']) (auto simp: quiet_inv_def)
  moreover have "\<forall>i \<in> set (ms_root_queue s'). root_wf i"
    using assms(1) p(4) by (auto simp: quiet_inv_def root_wf_sweep)
  moreover have "\<forall>i \<in> set (ms_root_queue s'). \<not> truthy (get i ''continuation'')"
    if "truthy (ms_safe_to_stop s')"
    using assms(1) p(4) p(5) that by (auto simp: quiet_inv_def sweep_root_get)
  ultimately show ?thesis
    using p(5) by (auto simp: quiet_inv_def)
qed

lemma fence_inv_prune:
  assumes "fence_inv s" and "prune E s now = Inr s'"
  shows "fence_inv s'"
proof -
  note p = prune_InrD [OF assms(2)] and ph = prune_phase [OF assms(2)]
  have "wf_state s'"
    using assms(1) p by (intro wf_state_frame [of s s']) (auto simp: fence_inv_def)
  moreover have "epochs_le (fence_bound s) (ms_leases s')"
    using assms(1) p(3) by (auto simp: fence_inv_def intro: epochs_le_subset)
  then have "epochs_le (fence_bound s') (ms_leases s')"
    by (rule epochs_le_mono) (use ph p(1) in \<open>auto simp: fence_bound_def\<close>)
  moreover have "queue_epochs_le (ms_epoch s') (ms_root_queue s')"
    using assms(1) p(1,4) by (auto simp: fence_inv_def queue_epochs_le_def sweep_root_get)
  ultimately show ?thesis
    using assms(1) p(1) ph by (auto simp: fence_inv_def)
qed

section \<open>Kept by every operation\<close>

lemma root_wf_item [simp]:
  "root_wf (PDict (root_item q c x now ep @ d))" "root_wf (PDict (root_item q c x now ep))"
  by (simp_all add: root_wf_def root_item_def dget_Cons)

lemma get_root_item [simp]:
  "dget (root_item q c x now ep) ''continuation'' = PNone"
  by (simp add: root_item_def dget_Cons)

lemma root_wf_claimed [simp]: "is_dict i \<Longrightarrow> root_wf (claimed_item E u now i)"
  by (simp add: root_wf_def)

lemma root_wf_unclaim [simp]: "is_dict i \<Longrightarrow> root_wf (unclaim i)"
  by (simp add: root_wf_def)

lemma root_wf_retry [simp]: "is_dict i \<Longrightarrow> root_wf (retry_item now d i)"
  by (simp add: root_wf_def retry_item_def Let_def)

lemma retry_item_get:
  assumes "is_dict i" and "k \<in> {''continuation'', ''admitted_epoch''}"
  shows "get (retry_item now d i) k = get i k"
  using assms by (auto simp: retry_item_def Let_def)

lemma settles_dict: "settles E adm i \<noteq> None \<Longrightarrow> is_dict i"
  by (auto simp: settles_def split: if_splits)

lemma loop_item_wf: "loop_item E now i i' \<Longrightarrow> root_wf i \<Longrightarrow> root_wf i'"
  by (auto simp: loop_item_def)

lemma loop_items_wf:
  "list_all2 (loop_item E now) q q' \<Longrightarrow> \<forall>i \<in> set q. root_wf i \<Longrightarrow> \<forall>i \<in> set q'. root_wf i"
  by (induction rule: list_all2_induct) (auto dest: loop_item_wf)

lemma loop_items_get:
  assumes "list_all2 (loop_item E now) q q'" and "k \<in> {''continuation'', ''admitted_epoch''}"
  shows "map (\<lambda>i. get i k) q' = map (\<lambda>i. get i k) q"
  using assms(1)
proof (induction rule: list_all2_induct)
  case (Cons x xs y ys)
  then show ?case using assms(2) by (auto simp: loop_item_def)
qed simp

lemma loop_items_ball:
  assumes "list_all2 (loop_item E now) q q'"
    and "\<forall>i \<in> set q. P (get i ''continuation'') (get i ''admitted_epoch'')"
  shows "\<forall>i \<in> set q'. P (get i ''continuation'') (get i ''admitted_epoch'')"
  using assms
proof (induction rule: list_all2_induct)
  case (Cons x xs y ys)
  have "get y k = get x k" if "k \<in> {''continuation'', ''admitted_epoch''}" for k
    using Cons.hyps(1) that by (auto simp: loop_item_def)
  with Cons show ?case by auto
qed simp

lemma claim_pending_roots_cases:
  assumes "claim_pending_roots_mut E now n ex uq s = Inr (a, s')"
  obtains "s' = s"
  | q' where "s' = s\<lparr>ms_root_queue := q'\<rparr>" and "q' = ms_root_queue s"
  | ls q' where "ms_phase s = Available \<or> ms_phase s = Draining"
    and "s' = s\<lparr>ms_leases := ls, ms_safe_to_stop := PBool False, ms_root_queue := q'\<rparr>"
    and "\<forall>kv \<in> set ls. loop_lease E now s (ms_root_queue s) kv"
    and "list_all2 (loop_item E now) (ms_root_queue s) q'"
proof (cases "ms_phase s \<noteq> Available \<and> ms_phase s \<noteq> Draining")
  case True
  with assms that(1) show thesis by (simp add: claim_pending_roots_mut_def)
next
  case False
  with assms obtain q' s1 where
    l: "claim_loop E now (nat (max 1 n)) uq 0 ex [] s (ms_root_queue s) = (a, q', s1)"
    and s': "s' = s1\<lparr>ms_root_queue := q'\<rparr>"
    by (auto simp: claim_pending_roots_mut_def Let_def split: prod.splits)
  from claim_loop_result [OF l] False that s' show thesis by auto
qed

lemma quiet_inv_claim_roots:
  assumes "quiet_inv s" and "claim_pending_roots_mut E now n ex uq s = Inr (a, s')"
  shows "quiet_inv s'"
  using assms(2)
proof (cases rule: claim_pending_roots_cases)
  case (3 ls q')
  with assms(1) loop_items_wf [OF 3(4)] show ?thesis
    by (intro quiet_inv_unsafe) (auto simp: quiet_inv_def wf_state_def)
qed (use assms(1) in auto)

lemma fence_inv_claim_roots:
  assumes "fence_inv s" and "claim_pending_roots_mut E now n ex uq s = Inr (a, s')"
  shows "fence_inv s'"
  using assms(2)
proof (cases rule: claim_pending_roots_cases)
  case (3 ls q')
  have "lease_epoch (snd kv) \<le> fence_bound s" if "kv \<in> set ls" for kv
  proof -
    have "loop_lease E now s (ms_root_queue s) kv" using 3(3) that by blast
    then show ?thesis
      using assms(1) 3(1) unfolding loop_lease_def
      by (auto simp: fence_inv_def fence_bound_def epochs_le_def queue_epochs_le_def
          claimable_def item_epoch_def)
  qed
  then have "epochs_le (fence_bound s) ls"
    by (simp add: epochs_le_def)
  moreover have "queue_epochs_le (ms_epoch s) q'"
    using loop_items_ball [OF 3(4), of "\<lambda>c e. truthy c \<longrightarrow> integer e 0 \<le> ms_epoch s"] assms(1)
    by (auto simp: fence_inv_def queue_epochs_le_def)
  ultimately show ?thesis
    using assms(1) 3(2) by (auto simp: fence_inv_def wf_state_def fence_bound_def)
qed (use assms(1) in auto)

lemmas mut_defs =
  request_drain_mut_def cancel_drain_mut_def transition_mut_def enqueue_root_mut_def
  enqueue_ingress_root_mut_def enqueue_continuation_mut_def heartbeat_mut_def
  get_activity_mut_def acquire_activity_mut_def adopt_prefence_activity_mut_def release_mut_def
  complete_roots_mut_def retry_roots_mut_def defer_roots_mut_def claim_notices_mut_def
  finish_notice_mut_def acknowledge_mut_def

lemma drop_leases_nil [simp]: "drop_leases ids [] = []"
  using set_drop_leases [of ids "[]"] by simp

lemma dpop_nil [simp]: "dpop k [] = []"
  by (simp add: dpop_alt)

lemma root_wf_dict: "root_wf i \<Longrightarrow> is_dict i"
  by (simp add: root_wf_def)

lemma root_wf_put_claim_until: "root_wf i \<Longrightarrow> root_wf (put ''claim_until'' v i)"
  by (auto simp: root_wf_def)

lemma quiet_inv_enqueue_root:
  assumes "quiet_inv s" and "enqueue_root_mut E now c x a s = Inr (r, s')"
  shows "quiet_inv s'"
proof (cases "ms_phase s = Available \<and> a")
  case True
  obtain adm i1 s1 where c:
    "claim_root_item E 1 s (PDict (root_item (env_uid E 0) c x now (ms_epoch s))) now = (adm, i1, s1)"
    by (metis prod_cases3)
  with True assms(2) have s': "s' = s1\<lparr>ms_root_queue := ms_root_queue s1 @ [i1]\<rparr>"
    by (simp add: enqueue_root_mut_def Let_def)
  from c obtain ls where "s1 = s\<lparr>ms_leases := ls, ms_safe_to_stop := PBool False\<rparr>"
    and "i1 = claimed_item E 1 now (PDict (root_item (env_uid E 0) c x now (ms_epoch s)))"
    by (elim claim_root_item_cases)
  with s' assms(1) show ?thesis
    by (intro quiet_inv_unsafe) (auto simp: quiet_inv_def wf_state_def)
next
  case False
  with assms show ?thesis
    by (auto simp: enqueue_root_mut_def Let_def quiet_inv_def wf_state_def split: if_splits)
qed

lemma queue_epochs_le_append [simp]:
  "queue_epochs_le b (q @ q') \<longleftrightarrow> queue_epochs_le b q \<and> queue_epochs_le b q'"
  by (auto simp: queue_epochs_le_def)

lemma queue_epochs_le_root [simp]:
  "queue_epochs_le b [PDict (root_item q c x now ep)]"
  by (simp add: queue_epochs_le_def)

lemma fence_inv_enqueue_root:
  assumes "fence_inv s" and "enqueue_root_mut E now c x a s = Inr (r, s')"
  shows "fence_inv s'"
proof (cases "ms_phase s = Available \<and> a")
  case True
  let ?i = "PDict (root_item (env_uid E 0) c x now (ms_epoch s))"
  obtain adm i1 s1 where c: "claim_root_item E 1 s ?i now = (adm, i1, s1)"
    by (metis prod_cases3)
  with True assms(2) have s': "s' = s1\<lparr>ms_root_queue := ms_root_queue s1 @ [i1]\<rparr>"
    by (simp add: enqueue_root_mut_def Let_def)
  from c obtain L ls where s1: "s1 = s\<lparr>ms_leases := ls, ms_safe_to_stop := PBool False\<rparr>"
    and i1: "i1 = claimed_item E 1 now ?i" and L: "lease_epoch L = item_epoch s ?i"
    and ls: "set ls \<subseteq> insert (env_uid E (Suc 1), L) (set (ms_leases s))"
    by (elim claim_root_item_cases)
  have "lease_epoch L = ms_epoch s"
    using L by (simp add: item_epoch_def)
  with ls assms(1) True have "epochs_le (fence_bound s) ls"
    unfolding fence_inv_def fence_bound_def epochs_le_def by auto
  moreover have "queue_epochs_le (ms_epoch s) [i1]"
    by (simp add: i1 queue_epochs_le_def)
  ultimately show ?thesis
    using s' s1 assms(1) True by (auto simp: fence_inv_def wf_state_def fence_bound_def)
next
  case False
  with assms show ?thesis
    by (auto simp: enqueue_root_mut_def Let_def fence_inv_def fence_bound_def wf_state_def
        split: if_splits)
qed

lemma swept_ack:
  assumes "\<forall>i \<in> set (ms_root_queue s). root_wf i" and "swept E s" and "ms_leases s = []"
    and "\<not> list_ex pending_continuation (ms_root_queue s)"
  shows "\<forall>i \<in> set (ms_root_queue s). \<not> truthy (get i ''continuation'')"
  using assms
  by (auto simp: swept_def root_wf_def pending_continuation_def list_ex_iff has_key_def)

lemma quiet_inv_step:
  assumes "quiet_inv s" and "swept E s" and "step_of E now c s = Inr s'"
  shows "quiet_inv s'"
proof (cases c)
  case (RequestDrain d m)
  with assms(1,3) show ?thesis
    by (auto simp: mut_defs state_of_Inr quiet_inv_def wf_state_def split: if_splits)
next
  case (CancelDrain m outc)
  with assms(1,3) show ?thesis
    by (auto simp: mut_defs state_of_Inr quiet_inv_def wf_state_def split: if_splits)
next
  case (Transition p m)
  with assms(1,3) show ?thesis
    by (auto simp: mut_defs state_of_Inr quiet_inv_def wf_state_def Let_def split: if_splits)
next
  case (EnqueueRoot c x a)
  with assms show ?thesis by (auto simp: state_of_Inr intro: quiet_inv_enqueue_root)
next
  case (EnqueueIngress c x i)
  with assms(1,3) show ?thesis
    by (auto simp: mut_defs state_of_Inr quiet_inv_def wf_state_def Let_def
        split: if_splits option.splits)
next
  case (ClaimRoots n ex uq)
  with assms show ?thesis by (auto simp: state_of_Inr intro: quiet_inv_claim_roots)
next
  case (EnqueueContinuation c x r q)
  with assms(1,3) show ?thesis
    by (auto simp: mut_defs state_of_Inr quiet_inv_def wf_state_def Let_def
        split: if_splits option.splits)
next
  case (Heartbeat l t)
  with assms(1,3) show ?thesis
    by (auto simp: mut_defs state_of_Inr quiet_inv_def wf_state_def Let_def
        root_wf_put_claim_until split: if_splits)
next
  case (GetActivity l)
  with assms show ?thesis by (auto simp: mut_defs state_of_Inr Let_def)
next
  case (Acquire k a c p t)
  with assms(1,3) show ?thesis
    by (auto simp: mut_defs state_of_Inr quiet_inv_def wf_state_def new_lease_eq Let_def
        split: if_splits option.splits prod.splits)
next
  case (Adopt k a c st t)
  with assms(1,3) show ?thesis
    by (auto simp: mut_defs state_of_Inr quiet_inv_def wf_state_def new_lease_eq Let_def
        split: if_splits prod.splits)
next
  case (Release l)
  with assms(1,3) show ?thesis
    by (auto simp: mut_defs state_of_Inr quiet_inv_def wf_state_def)
next
  case (Complete xs)
  with assms(1,3) show ?thesis
    by (auto simp: mut_defs state_of_Inr quiet_inv_def wf_state_def)
next
  case (Retry xs d)
  with assms(1,3) show ?thesis
    by (auto simp: mut_defs state_of_Inr quiet_inv_def wf_state_def root_wf_dict retry_item_get)
next
  case (Defer xs)
  with assms(1,3) show ?thesis
    by (auto simp: mut_defs state_of_Inr quiet_inv_def wf_state_def root_wf_dict)
next
  case (ClaimNotices n)
  with assms(1,3) show ?thesis
    by (auto simp: mut_defs state_of_Inr quiet_inv_def wf_state_def split: prod.splits)
next
  case (FinishNotice i t d)
  with assms(1,3) show ?thesis
    by (auto simp: mut_defs state_of_Inr quiet_inv_def wf_state_def split: prod.splits)
next
  case (Acknowledge e a b p)
  with assms swept_ack [of s E] show ?thesis
    by (auto simp: mut_defs state_of_Inr quiet_inv_def wf_state_def Let_def split: if_splits)
next
  case ReadState
  with assms show ?thesis by simp
qed

lemma queue_epochs_le_map:
  assumes "queue_epochs_le b q"
    and "\<And>i k. i \<in> set q \<Longrightarrow> k \<in> {''continuation'', ''admitted_epoch''} \<Longrightarrow> get (f i) k = get i k"
  shows "queue_epochs_le b (map f q)"
  using assms by (auto simp: queue_epochs_le_def)

lemma queue_epochs_le_filter: "queue_epochs_le b q \<Longrightarrow> queue_epochs_le b (filter P q)"
  by (auto simp: queue_epochs_le_def)

lemma queue_epochs_le_mono: "queue_epochs_le b q \<Longrightarrow> b \<le> b' \<Longrightarrow> queue_epochs_le b' q"
  unfolding queue_epochs_le_def by force

lemma lease_epoch_doc [simp]:
  "lease_epoch (lease_doc E i now k a c ep lin par ttl) = ep"
  by (simp add: lease_epoch_def)

lemma lease_epoch_put [simp]:
  "is_dict l \<Longrightarrow> k \<noteq> ''admitted_epoch'' \<Longrightarrow> lease_epoch (put k v l) = lease_epoch l"
  by (simp add: lease_epoch_def)

lemma fence_inv_settle:
  assumes "fence_inv s"
    and "\<And>i k. is_dict i \<Longrightarrow> k \<in> {''continuation'', ''admitted_epoch''} \<Longrightarrow> get (f i) k = get i k"
  shows "fence_inv (s\<lparr>ms_leases := drop_leases ids (ms_leases s),
            ms_root_queue := map (\<lambda>i. if settles E adm i = None then i else f i) (ms_root_queue s)\<rparr>)"
proof -
  have "queue_epochs_le (ms_epoch s)
          (map (\<lambda>i. if settles E adm i = None then i else f i) (ms_root_queue s))"
    by (rule queue_epochs_le_map) (use assms settles_dict in \<open>auto simp: fence_inv_def\<close>)
  then show ?thesis
    using assms(1) by (auto simp: fence_inv_def fence_bound_def wf_state_def)
qed

lemma fence_inv_continuation:
  assumes "fence_inv s" and "enqueue_continuation_mut E now c x r q s = Inr (b, s')"
  shows "fence_inv s'"
proof -
  let ?l = "str_or_empty (env_repr E) (get r ''lease_id'')"
  have "lease_epoch (dget (ms_leases s) ?l) \<le> ms_epoch s" if "is_dict (dget (ms_leases s) ?l)"
  proof -
    have "lease_epoch (dget (ms_leases s) ?l) \<le> fence_bound s"
      using epochs_le_dget [OF _ that] assms(1) by (simp add: fence_inv_def)
    then show ?thesis by (simp add: fence_bound_def split: if_splits)
  qed
  then show ?thesis
    using assms
    by (auto simp: mut_defs fence_inv_def fence_bound_def wf_state_def Let_def lease_epoch_def
        queue_epochs_le_def root_item_def dget_Cons split: if_splits option.splits)
qed

lemma fence_inv_step:
  assumes "fence_inv s" and "step_of E now c s = Inr s'"
  shows "fence_inv s'"
proof (cases c)
  case (RequestDrain d m)
  with assms show ?thesis
    by (auto simp: mut_defs state_of_Inr fence_inv_def fence_bound_def wf_state_def
        intro: queue_epochs_le_mono split: if_splits)
next
  case (CancelDrain m outc)
  with assms show ?thesis
    by (auto simp: mut_defs state_of_Inr fence_inv_def fence_bound_def wf_state_def
        intro: epochs_le_mono split: if_splits)
next
  case (Transition p m)
  with assms show ?thesis
    by (cases "ms_phase s")
      (auto simp: mut_defs state_of_Inr fence_inv_def fence_bound_def wf_state_def Let_def
        intro: epochs_le_mono split: if_splits)
next
  case (EnqueueRoot c x a)
  with assms show ?thesis by (auto simp: state_of_Inr intro: fence_inv_enqueue_root)
next
  case (EnqueueIngress c x i)
  with assms show ?thesis
    by (auto simp: mut_defs state_of_Inr fence_inv_def fence_bound_def wf_state_def Let_def
        split: if_splits option.splits)
next
  case (ClaimRoots n ex uq)
  with assms show ?thesis by (auto simp: state_of_Inr intro: fence_inv_claim_roots)
next
  case (EnqueueContinuation c x r q)
  with assms show ?thesis by (auto simp: state_of_Inr intro: fence_inv_continuation)
next
  case (Heartbeat l t)
  have "lease_epoch (dget (ms_leases s) l) \<le> fence_bound s" if "is_dict (dget (ms_leases s) l)"
    using epochs_le_dget [OF _ that] assms(1) by (simp add: fence_inv_def)
  moreover have "queue_epochs_le (ms_epoch s)
      (map (\<lambda>i. if is_dict i \<and> get i ''lease_id'' = PStr l then put ''claim_until'' v i else i)
        (ms_root_queue s))" for v
    by (rule queue_epochs_le_map) (use assms in \<open>auto simp: fence_inv_def\<close>)
  ultimately show ?thesis
    using assms Heartbeat
    by (auto simp: mut_defs state_of_Inr fence_inv_def fence_bound_def wf_state_def Let_def
        split: if_splits)
next
  case (GetActivity l)
  with assms show ?thesis by (auto simp: mut_defs state_of_Inr Let_def)
next
  case (Acquire k a c p t)
  with assms show ?thesis
    by (auto simp: mut_defs state_of_Inr fence_inv_def fence_bound_def wf_state_def new_lease_eq
        Let_def split: if_splits option.splits prod.splits)
next
  case (Adopt k a c st t)
  with assms show ?thesis
    by (auto simp: mut_defs state_of_Inr fence_inv_def fence_bound_def wf_state_def new_lease_eq
        Let_def split: if_splits prod.splits)
next
  case (Release l)
  with assms show ?thesis
    by (auto simp: mut_defs state_of_Inr fence_inv_def fence_bound_def wf_state_def)
next
  case (Complete xs)
  with assms show ?thesis
    by (auto simp: mut_defs state_of_Inr fence_inv_def fence_bound_def wf_state_def
        intro: queue_epochs_le_filter)
next
  case (Retry xs d)
  with assms show ?thesis
    by (auto simp: mut_defs state_of_Inr retry_item_get intro!: fence_inv_settle)
next
  case (Defer xs)
  with assms show ?thesis
    by (auto simp: mut_defs state_of_Inr intro!: fence_inv_settle)
next
  case (ClaimNotices n)
  with assms show ?thesis
    by (auto simp: mut_defs state_of_Inr fence_inv_def fence_bound_def wf_state_def
        split: prod.splits)
next
  case (FinishNotice i t d)
  with assms show ?thesis
    by (auto simp: mut_defs state_of_Inr fence_inv_def fence_bound_def wf_state_def
        split: prod.splits)
next
  case (Acknowledge e a b p)
  with assms show ?thesis
    by (auto simp: mut_defs state_of_Inr fence_inv_def fence_bound_def wf_state_def Let_def
        split: if_splits)
next
  case ReadState
  with assms show ?thesis by simp
qed

section \<open>Interpretations\<close>

interpretation quiet: coord_invariant quiet_inv
proof unfold_locales
  show "quiet_inv s" if "normalize default_doc = Inr s" for s
    using that by (auto simp: normalize_default quiet_inv_def wf_state_def)
  show "quiet_inv (s\<lparr>ms_updated_at := v\<rparr>)" if "quiet_inv s" for s v
    using that by (simp add: quiet_inv_def wf_state_def)
  show "wf_state s" if "quiet_inv s" for s
    using that by (simp add: quiet_inv_def)
qed (auto intro: quiet_inv_prune quiet_inv_step)

interpretation fence: coord_invariant fence_inv
proof unfold_locales
  show "fence_inv s" if "normalize default_doc = Inr s" for s
    using that by (auto simp: normalize_default fence_inv_def wf_state_def queue_epochs_le_def)
  show "fence_inv (s\<lparr>ms_updated_at := v\<rparr>)" if "fence_inv s" for s v
    using that by (auto simp: fence_inv_def fence_bound_def wf_state_def split: if_splits)
  show "wf_state s" if "fence_inv s" for s
    using that by (simp add: fence_inv_def)
qed (auto intro: fence_inv_prune fence_inv_step)

end
