(* ===== verification/MaintCoord.thy ===== *)
theory MaintCoord
  imports MaintReach
begin

text \<open>
  The public methods of \<open>MaintenanceCoordinator\<close> (\<open>core/maintenance.py\<close>) as operations on the
  file: argument checks, the transaction around the mutation, and the status views. A method
  that ends in \<open>public_status()\<close> runs a second transaction, with its own environment and time.
\<close>

section \<open>Status\<close>

record status =
  st_epoch :: int
  st_phase :: phase
  st_maintenance_id :: string
  st_requested_at :: rat
  st_deadline_at :: rat
  st_safe_to_stop :: bool
  st_active_count :: nat
  st_active_by_kind :: "(string \<times> nat) list"
  st_queued_message_count :: nat
  st_pending_notice_count :: nat
  st_public_message :: string
  st_last_outcome :: string
  st_event_sequence :: int

definition read_state :: "env \<Rightarrow> rat \<Rightarrow> pyv option \<Rightarrow> (mstate \<times> pyv option) result" where
  "read_state E now file = transaction E now (\<lambda>s. Inr (s, s)) file"

definition count_kind :: "string \<Rightarrow> (string \<times> nat) list \<Rightarrow> (string \<times> nat) list" where
  "count_kind kind counts =
     AList.update kind (Suc (case map_of counts kind of None \<Rightarrow> 0 | Some n \<Rightarrow> n)) counts"

definition lease_kind :: "env \<Rightarrow> pyv \<Rightarrow> string" where
  "lease_kind E lease = py_str (env_repr E) (py_or (get lease ''kind'') (PStr ''activity''))"

fun active_by_kind :: "env \<Rightarrow> pyv list \<Rightarrow> (string \<times> nat) list \<Rightarrow> (string \<times> nat) list" where
  "active_by_kind E [] counts = counts"
| "active_by_kind E (lease # rest) counts =
     active_by_kind E rest
       (if \<not> is_dict lease then counts else count_kind (lease_kind E lease) counts)"

definition pending_item :: "pyv \<Rightarrow> bool" where
  "pending_item i \<longleftrightarrow> is_dict i \<and> get i ''status'' = PStr ''pending''"

definition status_of :: "env \<Rightarrow> mstate \<Rightarrow> status" where
  "status_of E s =
     (let counts = active_by_kind E (map snd (ms_leases s)) [];
          continuation_count = length (filter pending_continuation (ms_root_queue s));
          counts' = (if continuation_count = 0 then counts
                     else AList.update ''continuation_pending'' continuation_count counts)
      in \<lparr>st_epoch = ms_epoch s, st_phase = ms_phase s,
          st_maintenance_id = str_or_empty (env_repr E) (ms_maintenance_id s),
          st_requested_at = number (ms_requested_at s) 0,
          st_deadline_at = number (ms_deadline_at s) 0,
          st_safe_to_stop = truthy (ms_safe_to_stop s),
          st_active_count = sum_list (map snd counts'),
          st_active_by_kind = counts',
          st_queued_message_count = length (filter pending_item (ms_root_queue s)),
          st_pending_notice_count =
            length (filter (\<lambda>n. is_dict n \<and> get n ''status'' \<noteq> PStr ''delivered'') (ms_notices s)),
          st_public_message = PUBLIC_MESSAGES (ms_phase s),
          st_last_outcome = str_or_empty (env_repr E) (ms_last_outcome s),
          st_event_sequence = ms_event_sequence s\<rparr>)"

definition public_status :: "env \<Rightarrow> rat \<Rightarrow> pyv option \<Rightarrow> (status \<times> pyv option) result" where
  "public_status E now file =
     (case read_state E now file of Inl e \<Rightarrow> Inl e | Inr (s, f) \<Rightarrow> Inr (status_of E s, f))"

definition public_events :: "env \<Rightarrow> rat \<Rightarrow> int \<Rightarrow> pyv option \<Rightarrow> (pyv list \<times> pyv option) result" where
  "public_events E now after_sequence file =
     (case read_state E now file of
        Inl e \<Rightarrow> Inl e
      | Inr (s, f) \<Rightarrow>
          Inr (filter (\<lambda>i. is_dict i \<and> integer (get i ''sequence'') 0 > after_sequence)
                 (ms_public_events s), f))"

definition accepting_new_roots :: "env \<Rightarrow> rat \<Rightarrow> pyv option \<Rightarrow> (bool \<times> pyv option) result" where
  "accepting_new_roots E now file =
     (case public_status E now file of
        Inl e \<Rightarrow> Inl e | Inr (st, f) \<Rightarrow> Inr (st_phase st = Available, f))"

section \<open>Methods\<close>

definition then_status ::
  "env \<Rightarrow> rat \<Rightarrow> ('r \<times> pyv option) result \<Rightarrow> (status \<times> pyv option) result" where
  "then_status E now r = (case r of Inl e \<Rightarrow> Inl e | Inr (x, f) \<Rightarrow> public_status E now f)"

definition request_drain ::
  "env \<Rightarrow> rat \<Rightarrow> env \<Rightarrow> rat \<Rightarrow> rat option \<Rightarrow> string \<Rightarrow> pyv option \<Rightarrow> (status \<times> pyv option) result" where
  "request_drain E now E' now' deadline_seconds maintenance_id file =
     then_status E' now'
       (transaction E now (request_drain_mut E now deadline_seconds maintenance_id) file)"

definition cancel_drain ::
  "env \<Rightarrow> rat \<Rightarrow> string \<Rightarrow> string \<Rightarrow> pyv option \<Rightarrow> (bool \<times> pyv option) result" where
  "cancel_drain E now maintenance_id outcome file =
     transaction E now (cancel_drain_mut E maintenance_id outcome) file"

definition transition ::
  "env \<Rightarrow> rat \<Rightarrow> env \<Rightarrow> rat \<Rightarrow> string \<Rightarrow> string \<Rightarrow> pyv option \<Rightarrow> (status \<times> pyv option) result" where
  "transition E now E' now' p maintenance_id file =
     (case requested_phase p of
        Inl e \<Rightarrow> Inl e
      | Inr ph \<Rightarrow>
          then_status E' now' (transaction E now (transition_mut E ph maintenance_id) file))"

definition enqueue_root ::
  "env \<Rightarrow> rat \<Rightarrow> string \<Rightarrow> string \<Rightarrow> bool \<Rightarrow> pyv option \<Rightarrow> (root_enqueue_result \<times> pyv option) result"
  where
  "enqueue_root E now contact_id context admit file =
     transaction E now (enqueue_root_mut E now contact_id context admit) file"

definition enqueue_ingress_root ::
  "env \<Rightarrow> rat \<Rightarrow> string \<Rightarrow> string \<Rightarrow> string \<Rightarrow> pyv option \<Rightarrow> (bool \<times> pyv option) result" where
  "enqueue_ingress_root E now contact_id context ingress_id file =
     (if ingress_id = [] then Inl (ValueError ''A durable ingress identity is required.'')
      else transaction E now (enqueue_ingress_root_mut E now contact_id context ingress_id) file)"

definition claim_pending_roots ::
  "env \<Rightarrow> rat \<Rightarrow> int \<Rightarrow> string list \<Rightarrow> bool \<Rightarrow> pyv option
     \<Rightarrow> (root_admission list \<times> pyv option) result" where
  "claim_pending_roots E now limit exclude_contact_ids unique_contacts file =
     transaction E now (claim_pending_roots_mut E now limit exclude_contact_ids unique_contacts) file"

text \<open>Without a queue id the method draws one before its transaction.\<close>

definition enqueue_continuation ::
  "env \<Rightarrow> rat \<Rightarrow> string \<Rightarrow> string \<Rightarrow> pyv \<Rightarrow> string \<Rightarrow> pyv option \<Rightarrow> (bool \<times> pyv option) result" where
  "enqueue_continuation E now contact_id context activity_reference queue_id file =
     transaction E now
       (enqueue_continuation_mut E now contact_id context activity_reference
         (if queue_id = [] then env_uid E 0 else queue_id)) file"

definition heartbeat :: "env \<Rightarrow> rat \<Rightarrow> string \<Rightarrow> rat \<Rightarrow> pyv option \<Rightarrow> (bool \<times> pyv option) result" where
  "heartbeat E now lease_id ttl file = transaction E now (heartbeat_mut now lease_id ttl) file"

definition get_activity ::
  "env \<Rightarrow> rat \<Rightarrow> string \<Rightarrow> pyv option \<Rightarrow> (activity_token option \<times> pyv option) result" where
  "get_activity E now lease_id file = transaction E now (get_activity_mut E lease_id) file"

text \<open>\<open>current\<close> is the activity bound to the calling context, used when no parent is passed.\<close>

definition acquire_activity ::
  "env \<Rightarrow> rat \<Rightarrow> string \<Rightarrow> string \<Rightarrow> string \<Rightarrow> activity_token option \<Rightarrow> activity_token option \<Rightarrow> rat
     \<Rightarrow> pyv option \<Rightarrow> (activity_token option \<times> pyv option) result" where
  "acquire_activity E now kind activity_id contact_id parent current ttl file =
     transaction E now
       (acquire_activity_mut E now kind activity_id contact_id
         (case parent of None \<Rightarrow> current | Some p \<Rightarrow> Some p) ttl) file"

definition adopt_prefence_activity ::
  "env \<Rightarrow> rat \<Rightarrow> string \<Rightarrow> string \<Rightarrow> string \<Rightarrow> rat \<Rightarrow> rat \<Rightarrow> pyv option
     \<Rightarrow> (activity_token option \<times> pyv option) result" where
  "adopt_prefence_activity E now kind activity_id contact_id started_at ttl file =
     transaction E now
       (adopt_prefence_activity_mut E now kind activity_id contact_id started_at ttl) file"

definition release :: "env \<Rightarrow> rat \<Rightarrow> string \<Rightarrow> pyv option \<Rightarrow> (bool \<times> pyv option) result" where
  "release E now lease_id file = transaction E now (release_mut lease_id) file"

definition complete_roots ::
  "env \<Rightarrow> rat \<Rightarrow> root_admission list \<Rightarrow> pyv option \<Rightarrow> (unit \<times> pyv option) result" where
  "complete_roots E now admissions file = transaction E now (complete_roots_mut E admissions) file"

definition retry_roots ::
  "env \<Rightarrow> rat \<Rightarrow> root_admission list \<Rightarrow> rat \<Rightarrow> pyv option \<Rightarrow> (unit \<times> pyv option) result" where
  "retry_roots E now admissions delay file =
     transaction E now (retry_roots_mut E now admissions delay) file"

definition defer_roots ::
  "env \<Rightarrow> rat \<Rightarrow> root_admission list \<Rightarrow> pyv option \<Rightarrow> (unit \<times> pyv option) result" where
  "defer_roots E now admissions file = transaction E now (defer_roots_mut E admissions) file"

definition claim_notices :: "env \<Rightarrow> rat \<Rightarrow> int \<Rightarrow> pyv option \<Rightarrow> (pyv list \<times> pyv option) result" where
  "claim_notices E now limit file = transaction E now (claim_notices_mut E now limit) file"

definition finish_notice ::
  "env \<Rightarrow> rat \<Rightarrow> string \<Rightarrow> string \<Rightarrow> bool \<Rightarrow> pyv option \<Rightarrow> (bool \<times> pyv option) result" where
  "finish_notice E now notice_id claim_token delivered file =
     transaction E now (finish_notice_mut now notice_id claim_token delivered) file"

definition acknowledge_runtime_quiescent ::
  "env \<Rightarrow> rat \<Rightarrow> int \<Rightarrow> bool option \<Rightarrow> bool option \<Rightarrow> int option \<Rightarrow> pyv option
     \<Rightarrow> (bool \<times> pyv option) result" where
  "acknowledge_runtime_quiescent E now epoch durable_inputs_secured outbox_flushed pid file =
     transaction E now (acknowledge_mut E now epoch durable_inputs_secured outbox_flushed pid) file"

definition activity_from_reference ::
  "env \<Rightarrow> rat \<Rightarrow> pyv \<Rightarrow> pyv option \<Rightarrow> (activity_token option \<times> pyv option) result" where
  "activity_from_reference E now ref file =
     (if \<not> is_dict ref then Inr (None, file)
      else let lease_id = str_or_empty (env_repr E) (get ref ''lease_id'')
           in if lease_id = [] then Inr (None, file) else get_activity E now lease_id file)"

end
