(* ===== verification/MaintProps.thy ===== *)
theory MaintProps
  imports MaintCoord
begin

text \<open>
  The properties of the maintenance coordinator, over its runs and its operations, and the
  concrete runs that witness them.
\<close>

section \<open>Phase changes of one operation\<close>

lemma claim_roots_phase:
  assumes "claim_pending_roots_mut E now n ex uq s = Inr (a, s')"
  shows "ms_phase s' = ms_phase s \<and> ms_epoch s' = ms_epoch s"
  using assms by (cases rule: claim_pending_roots_cases) auto

lemma enqueue_root_phase:
  assumes "enqueue_root_mut E now c x a s = Inr (r, s')"
  shows "ms_phase s' = ms_phase s \<and> ms_epoch s' = ms_epoch s"
proof (cases "ms_phase s = Available \<and> a")
  case True
  obtain adm i1 s1 where c:
    "claim_root_item E 1 s (PDict (root_item (env_uid E 0) c x now (ms_epoch s))) now = (adm, i1, s1)"
    by (metis prod_cases3)
  then obtain ls where "s1 = s\<lparr>ms_leases := ls, ms_safe_to_stop := PBool False\<rparr>"
    by (elim claim_root_item_cases)
  with True c assms show ?thesis by (auto simp: enqueue_root_mut_def Let_def)
next
  case False
  with assms show ?thesis by (auto simp: enqueue_root_mut_def Let_def split: if_splits)
qed

lemma transition_cases:
  assumes "transition_mut E p m s = Inr (r, s')"
  shows "s' = s
     \<or> (p \<in> set (allowed (ms_phase s)) \<and> ms_phase s' = p \<and> ms_epoch s' = ms_epoch s
        \<and> ms_leases s' = ms_leases s \<and> ms_root_queue s' = ms_root_queue s
        \<and> (p = Updating \<longrightarrow> truthy (ms_safe_to_stop s)))"
  using assms unfolding transition_mut_def Let_def by (auto split: if_splits)

lemma request_drain_cases:
  assumes "request_drain_mut E now d m s = Inr (r, s')"
  shows "s' = s
     \<or> (ms_phase s = Available \<and> ms_phase s' = Draining \<and> ms_epoch s' = ms_epoch s + 1
        \<and> ms_leases s' = ms_leases s \<and> ms_root_queue s' = ms_root_queue s)"
  using assms unfolding request_drain_mut_def by (auto split: if_splits)

lemma cancel_drain_cases:
  assumes "cancel_drain_mut E m outc s = Inr (r, s')"
  shows "s' = s
     \<or> (ms_phase s = Draining \<and> ms_phase s' = Available \<and> ms_epoch s' = ms_epoch s
        \<and> ms_leases s' = ms_leases s \<and> ms_root_queue s' = ms_root_queue s)"
  using assms unfolding cancel_drain_mut_def by (auto split: if_splits)

lemma ingress_phase:
  assumes "enqueue_ingress_root_mut E now c x i s = Inr (r, s')"
  shows "ms_phase s' = ms_phase s \<and> ms_epoch s' = ms_epoch s"
  using assms unfolding enqueue_ingress_root_mut_def Let_def
  by (auto split: if_splits option.splits)

lemma continuation_phase:
  assumes "enqueue_continuation_mut E now c x i q s = Inr (r, s')"
  shows "ms_phase s' = ms_phase s \<and> ms_epoch s' = ms_epoch s"
  using assms unfolding enqueue_continuation_mut_def Let_def
  by (auto split: if_splits option.splits)

lemma acquire_frame:
  assumes "acquire_activity_mut E now k a c p t s = Inr (r, s')"
  shows "ms_phase s' = ms_phase s \<and> ms_epoch s' = ms_epoch s \<and> ms_root_queue s' = ms_root_queue s"
  using assms unfolding acquire_activity_mut_def new_lease_def Let_def
  by (auto split: if_splits option.splits)

lemma adopt_frame:
  assumes "adopt_prefence_activity_mut E now k a c st t s = Inr (r, s')"
  shows "ms_phase s' = ms_phase s \<and> ms_epoch s' = ms_epoch s \<and> ms_root_queue s' = ms_root_queue s"
  using assms unfolding adopt_prefence_activity_mut_def new_lease_def Let_def
  by (auto split: if_splits)

lemma heartbeat_phase:
  assumes "heartbeat_mut now l t s = Inr (r, s')"
  shows "ms_phase s' = ms_phase s \<and> ms_epoch s' = ms_epoch s"
  using assms unfolding heartbeat_mut_def Let_def by (auto split: if_splits)

lemma claim_notices_frame:
  assumes "claim_notices_mut E now n s = Inr (r, s')"
  shows "ms_phase s' = ms_phase s \<and> ms_epoch s' = ms_epoch s \<and> ms_root_queue s' = ms_root_queue s"
  using assms by (auto simp: claim_notices_mut_def split: prod.splits)

lemma finish_notice_frame:
  assumes "finish_notice_mut now i t d s = Inr (r, s')"
  shows "ms_phase s' = ms_phase s \<and> ms_epoch s' = ms_epoch s \<and> ms_root_queue s' = ms_root_queue s"
  using assms by (auto simp: finish_notice_mut_def split: prod.splits)

lemma acknowledge_frame:
  assumes "acknowledge_mut E now e a b p s = Inr (r, s')"
  shows "ms_phase s' = ms_phase s \<and> ms_epoch s' = ms_epoch s \<and> ms_root_queue s' = ms_root_queue s"
  using assms unfolding acknowledge_mut_def Let_def by (auto split: if_splits)

lemmas op_phases =
  enqueue_root_phase ingress_phase claim_roots_phase continuation_phase heartbeat_phase
  acquire_frame adopt_frame acknowledge_frame claim_notices_frame finish_notice_frame

text \<open>The operations that touch neither the phase nor the epoch.\<close>

lemma step_same_phase:
  assumes "step_of E now c s = Inr s'"
    and "\<And>d m. c \<noteq> RequestDrain d m" and "\<And>m outc. c \<noteq> CancelDrain m outc"
    and "\<And>p m. c \<noteq> Transition p m"
  shows "ms_phase s' = ms_phase s \<and> ms_epoch s' = ms_epoch s"
  using assms
  by (cases c)
    (auto simp: state_of_Inr get_activity_mut_def Let_def release_mut_def
       complete_roots_mut_def retry_roots_mut_def defer_roots_mut_def dest!: op_phases)

text \<open>
  An operation changes the phase in three ways: it raises the fence, it lowers it, or it is a
  lifecycle transition along an allowed edge.
\<close>

lemma step_phase:
  assumes "step_of E now c s = Inr s'"
  obtains (same) "ms_phase s' = ms_phase s" and "ms_epoch s' = ms_epoch s"
  | (raise) "ms_phase s = Available" and "ms_phase s' = Draining" and "ms_epoch s' = ms_epoch s + 1"
  | (lower) "ms_phase s = Draining" and "ms_phase s' = Available" and "ms_epoch s' = ms_epoch s"
  | (edge) "ms_phase s' \<in> set (allowed (ms_phase s))" and "ms_epoch s' = ms_epoch s"
    and "ms_leases s' = ms_leases s" and "ms_root_queue s' = ms_root_queue s"
    and "ms_phase s' = Updating \<Longrightarrow> truthy (ms_safe_to_stop s)"
proof (cases c)
  case (RequestDrain d m)
  with assms obtain r where "request_drain_mut E now d m s = Inr (r, s')"
    by (auto simp: state_of_Inr)
  from request_drain_cases [OF this] same raise show thesis by blast
next
  case (CancelDrain m outc)
  with assms obtain r where "cancel_drain_mut E m outc s = Inr (r, s')"
    by (auto simp: state_of_Inr)
  from cancel_drain_cases [OF this] same lower show thesis by blast
next
  case (Transition p m)
  with assms obtain r where "transition_mut E p m s = Inr (r, s')"
    by (auto simp: state_of_Inr)
  from transition_cases [OF this] same edge show thesis by blast
qed (use step_same_phase [OF assms] same in auto)

text \<open>
  The lifecycle as the module documents it: a drain is raised on an available runtime and ends
  in the installation, in a cancellation or in a rollback; the installation is validated or
  rolled back; the validated one is opened or rolled back; a rollback is opened.
\<close>

definition lifecycle_edge :: "phase \<Rightarrow> phase \<Rightarrow> bool" where
  "lifecycle_edge p q \<longleftrightarrow> p = q \<or> (p, q) \<in>
     {(Available, Draining),
      (Draining, Updating), (Draining, Available), (Draining, RollingBack),
      (Updating, Validating), (Updating, RollingBack),
      (Validating, Available), (Validating, RollingBack),
      (RollingBack, Available)}"

lemma lifecycle_edge_simps [simp]:
  "lifecycle_edge p p" "lifecycle_edge Available Draining" "lifecycle_edge Draining Available"
  by (simp_all add: lifecycle_edge_def)

lemma allowed_edges:
  assumes "q \<in> set (allowed p)"
  shows "lifecycle_edge p q"
  using assms by (cases p) (auto simp: lifecycle_edge_def)

section \<open>Where a lease behind the fence comes from\<close>

text \<open>An operation that grants no lease holds only keys that were there before.\<close>

lemma keys_dpop: "fst ` set (dpop k d) \<subseteq> fst ` set d"
  by (auto simp: set_dpop)

lemma keys_drop: "fst ` set (drop_leases ids d) \<subseteq> fst ` set d"
  using set_drop_leases by blast

lemma new_in_dput:
  assumes "(k, v) \<in> set (dput j w d)" and "k \<notin> fst ` set d"
  shows "v = w"
proof -
  have "(k, v) \<notin> set d" using assms(2) by (metis fst_conv image_eqI)
  with assms(1) set_dput_subset [of j w d] show ?thesis by blast
qed

lemma keys_dput_dict:
  assumes "is_dict (dget d k)"
  shows "fst ` set (dput k v d) = fst ` set d"
  using assms by (force simp: keys_dput dget_def split: option.splits dest: map_of_SomeD)

definition grants :: "mop \<Rightarrow> bool" where
  "grants c \<longleftrightarrow> (case c of ClaimRoots n ex uq \<Rightarrow> True | Acquire k a cc p t \<Rightarrow> True
                          | Adopt k a cc st t \<Rightarrow> True | _ \<Rightarrow> False)"

lemma fenced_leases:
  assumes "step_of E now c s = Inr s'" and "ms_phase s \<noteq> Available" and "\<not> grants c"
  shows "ms_leases s' = ms_leases s \<or> (\<exists>k. ms_leases s' = dpop k (ms_leases s))
    \<or> (\<exists>ids. ms_leases s' = drop_leases ids (ms_leases s))
    \<or> (\<exists>k v. is_dict (dget (ms_leases s) k) \<and> ms_leases s' = dput k v (ms_leases s))"
proof (cases c)
  case (EnqueueIngress c x i)
  with assms(1) show ?thesis
    by (auto simp: enqueue_ingress_root_mut_def state_of_Inr Let_def split: if_splits option.splits)
next
  case (EnqueueContinuation c x r q)
  with assms(1) show ?thesis
    by (auto simp: enqueue_continuation_mut_def state_of_Inr Let_def split: if_splits option.splits)
next
  case (Heartbeat l t)
  with assms(1) have "ms_leases s' = ms_leases s
      \<or> is_dict (dget (ms_leases s) l) \<and> (\<exists>v. ms_leases s' = dput l v (ms_leases s))"
    by (auto simp: heartbeat_mut_def state_of_Inr Let_def split: if_splits)
  then show ?thesis by blast
next
  case (FinishNotice i t d)
  with assms(1) show ?thesis
    by (auto simp: finish_notice_mut_def state_of_Inr split: prod.splits)
next
  case (ClaimNotices n)
  with assms(1) show ?thesis
    by (auto simp: claim_notices_mut_def state_of_Inr split: prod.splits)
qed (use assms in \<open>auto simp: mut_defs state_of_Inr Let_def grants_def split: if_splits\<close>)

lemma fenced_keys:
  assumes "step_of E now c s = Inr s'" and "ms_phase s \<noteq> Available" and "\<not> grants c"
  shows "fst ` set (ms_leases s') \<subseteq> fst ` set (ms_leases s)"
  using fenced_leases [OF assms]
  by (elim disjE exE conjE) (simp_all only: keys_dpop keys_drop keys_dput_dict order_refl)

lemma fenced_acquire:
  assumes "acquire_activity_mut E now kd a cc p t s = Inr (r, s')" and "ms_phase s \<noteq> Available"
    and "(k, l) \<in> set (ms_leases s')" and "k \<notin> fst ` set (ms_leases s)"
  obtains q where "p = Some q" and "is_dict (dget (ms_leases s) (tk_lease_id q))"
    and "tk_admitted_epoch q < ms_epoch s"
    and "lease_epoch l = tk_admitted_epoch q" and "get l ''parent_lease_id'' = PStr (tk_lease_id q)"
proof (cases "ms_leases s' = ms_leases s")
  case True
  with assms(3,4) show thesis by (metis fst_conv image_eqI)
next
  case False
  with assms(1,2) obtain q where p: "p = Some q"
    by (cases p) (auto simp: acquire_activity_mut_def)
  define L where "L = lease_doc E (env_uid E 0) now kd a cc (tk_admitted_epoch q) (tk_lineage_id q)
      (tk_lease_id q) t"
  from False assms(1,2) have q: "is_dict (dget (ms_leases s) (tk_lease_id q))"
    "tk_admitted_epoch q < ms_epoch s"
    and ls: "ms_leases s' = dput (env_uid E 0) L (ms_leases s)"
    by (auto simp: acquire_activity_mut_def p L_def new_lease_def Let_def split: if_splits)
  have "l = L" by (rule new_in_dput [OF assms(3) [unfolded ls] assms(4)])
  with that [OF p q] show thesis
    by (simp add: L_def lease_epoch_def) (simp add: lease_doc_def dget_Cons)
qed

lemma fenced_adopt:
  assumes "adopt_prefence_activity_mut E now kd a cc st t s = Inr (r, s')"
    and "ms_phase s \<noteq> Available" and "1 \<le> ms_epoch s"
    and "(k, l) \<in> set (ms_leases s')" and "k \<notin> fst ` set (ms_leases s)"
  shows "number (ms_requested_at s) 0 \<noteq> 0 \<and> (st = 0 \<or> st \<le> number (ms_requested_at s) 0)
    \<and> lease_epoch l = ms_epoch s - 1"
proof (cases "ms_leases s' = ms_leases s")
  case True
  with assms(4,5) show ?thesis by (metis fst_conv image_eqI)
next
  case False
  let ?L = "lease_doc E (env_uid E 0) now kd a cc (ms_epoch s - 1) [] [] t"
  from False assms(1-3) have c: "number (ms_requested_at s) 0 \<noteq> 0"
    "st = 0 \<or> st \<le> number (ms_requested_at s) 0"
    and ls: "ms_leases s' = dput (env_uid E 0) ?L (ms_leases s)"
    by (auto simp: adopt_prefence_activity_mut_def new_lease_def Let_def split: if_splits)
  have "l = ?L" by (rule new_in_dput [OF assms(4) [unfolded ls] assms(5)])
  with c show ?thesis by (simp add: lease_epoch_def)
qed

lemma fenced_claim:
  assumes "claim_pending_roots_mut E now n ex uq s = Inr (a, s')" and "ms_phase s \<noteq> Available"
    and "(k, l) \<in> set (ms_leases s')" and "k \<notin> fst ` set (ms_leases s)"
  shows "ms_phase s = Draining \<and> (\<exists>i \<in> set (ms_root_queue s). pending_continuation i
    \<and> lease_epoch l = integer (get i ''admitted_epoch'') 0 \<and> lease_epoch l < ms_epoch s)"
  using assms(1)
proof (cases rule: claim_pending_roots_cases)
  case (3 ls q')
  with assms(3,4) have "loop_lease E now s (ms_root_queue s) (k, l)" by auto
  with assms(2,4) 3(1) show ?thesis
    unfolding loop_lease_def
    by (force simp: claimable_def item_epoch_def pending_continuation_def)
qed (use assms(3,4) in force)+

section \<open>What the queue keeps\<close>

text \<open>The identity of a queued root: its id, its contact and its context.\<close>

definition payload :: "pyv \<Rightarrow> pyv \<times> pyv \<times> pyv" where
  "payload i = (get i ''queue_id'', get i ''contact_id'', get i ''context'')"

lemma payload_sweep [simp]: "payload (sweep_root E ls now i) = payload i"
  by (simp add: payload_def sweep_root_get)

lemma payload_unclaim [simp]: "is_dict i \<Longrightarrow> payload (unclaim i) = payload i"
  by (simp add: payload_def)

lemma payload_retry [simp]: "is_dict i \<Longrightarrow> payload (retry_item now d i) = payload i"
  by (simp add: payload_def retry_item_def Let_def)

lemma payload_claimed [simp]: "is_dict i \<Longrightarrow> payload (claimed_item E u now i) = payload i"
  by (simp add: payload_def)

lemma payload_claim_until [simp]:
  "is_dict i \<Longrightarrow> payload (put ''claim_until'' v i) = payload i"
  by (simp add: payload_def)

lemma payload_loop_items: "list_all2 (loop_item E now) q q' \<Longrightarrow> map payload q' = map payload q"
  by (induction rule: list_all2_induct) (auto simp: loop_item_def)

lemma payload_settle:
  assumes "\<And>i. is_dict i \<Longrightarrow> payload (f i) = payload i"
  shows "payload (if settles E adm i = None then i else f i) = payload i"
  using assms settles_dict [of E adm i] by (cases "settles E adm i") auto

lemma map_payload_settle:
  assumes "\<And>i. is_dict i \<Longrightarrow> payload (f i) = payload i"
  shows "map (payload \<circ> (\<lambda>i. if settles E adm i = None then i else f i)) q = map payload q"
  using payload_settle [OF assms] by (simp add: comp_def)

lemma claim_roots_payload:
  assumes "claim_pending_roots_mut E now n ex uq s = Inr (a, s')"
  shows "map payload (ms_root_queue s') = map payload (ms_root_queue s)"
  using assms
proof (cases rule: claim_pending_roots_cases)
  case (3 ls q')
  then show ?thesis using payload_loop_items [OF 3(4)] by simp
qed auto

lemma enqueue_root_payload:
  assumes "enqueue_root_mut E now c x a s = Inr (r, s')"
  shows "map payload (ms_root_queue s')
     = map payload (ms_root_queue s) @ [(PStr (env_uid E 0), PStr c, PStr x)]"
proof -
  let ?i = "PDict (root_item (env_uid E 0) c x now (ms_epoch s))"
  have p: "payload ?i = (PStr (env_uid E 0), PStr c, PStr x)"
    by (simp add: payload_def root_item_def dget_Cons)
  show ?thesis
  proof (cases "ms_phase s = Available \<and> a")
    case True
    obtain adm i1 s1 where c: "claim_root_item E 1 s ?i now = (adm, i1, s1)"
      by (metis prod_cases3)
    with True assms have s': "s' = s1\<lparr>ms_root_queue := ms_root_queue s1 @ [i1]\<rparr>"
      by (simp add: enqueue_root_mut_def Let_def)
    from c obtain ls where s1: "s1 = s\<lparr>ms_leases := ls, ms_safe_to_stop := PBool False\<rparr>"
      and i1: "i1 = claimed_item E 1 now ?i"
      by (elim claim_root_item_cases)
    show ?thesis by (simp add: s' s1 i1 p)
  next
    case False
    with assms have "ms_root_queue s' = ms_root_queue s @ [?i]"
      by (auto simp: enqueue_root_mut_def Let_def split: if_splits)
    then show ?thesis by (simp add: p)
  qed
qed

lemma heartbeat_payload:
  assumes "heartbeat_mut now l t s = Inr (r, s')"
  shows "map payload (ms_root_queue s') = map payload (ms_root_queue s)"
proof (cases "is_dict (dget (ms_leases s) l)")
  case True
  with assms have q: "ms_root_queue s' =
      map (\<lambda>i. if is_dict i \<and> get i ''lease_id'' = PStr l
               then put ''claim_until'' (PFloat (now + ROOT_CLAIM_TTL_SECONDS)) i else i)
        (ms_root_queue s)"
    by (auto simp: heartbeat_mut_def Let_def)
  show ?thesis unfolding q by (simp add: comp_def)
next
  case False
  with assms show ?thesis by (simp add: heartbeat_mut_def Let_def)
qed

lemma settle_payload:
  "complete_roots_mut E xs s = Inr (r, s') \<Longrightarrow> set (map payload (ms_root_queue s'))
     \<subseteq> set (map payload (ms_root_queue s))"
  "retry_roots_mut E now xs d s = Inr (r, s') \<Longrightarrow>
     map payload (ms_root_queue s') = map payload (ms_root_queue s)"
  "defer_roots_mut E xs s = Inr (r, s') \<Longrightarrow>
     map payload (ms_root_queue s') = map payload (ms_root_queue s)"
  by (auto simp: complete_roots_mut_def retry_roots_mut_def defer_roots_mut_def payload_settle)

lemma drain_queue:
  "request_drain_mut E now d m s = Inr (r, s') \<Longrightarrow> ms_root_queue s' = ms_root_queue s"
  "cancel_drain_mut E m outc s = Inr (r', s') \<Longrightarrow> ms_root_queue s' = ms_root_queue s"
  "transition_mut E p m s = Inr (r, s') \<Longrightarrow> ms_root_queue s' = ms_root_queue s"
  using request_drain_cases cancel_drain_cases transition_cases by blast+

lemmas op_payloads =
  claim_roots_payload heartbeat_payload settle_payload(2,3)
  acquire_frame adopt_frame acknowledge_frame claim_notices_frame finish_notice_frame drain_queue

lemma step_payload_same:
  assumes "step_of E now c s = Inr s'"
    and "\<And>xs. c \<noteq> Complete xs" and "\<And>x y z. c \<noteq> EnqueueRoot x y z"
    and "\<And>x y z. c \<noteq> EnqueueIngress x y z" and "\<And>x y z u. c \<noteq> EnqueueContinuation x y z u"
  shows "map payload (ms_root_queue s') = map payload (ms_root_queue s)"
  using assms
  by (cases c)
    (auto simp: state_of_Inr get_activity_mut_def Let_def release_mut_def dest!: op_payloads)

lemma ingress_payload:
  assumes "enqueue_ingress_root_mut E now c x i s = Inr (r, s')"
  shows "\<exists>new. map payload (ms_root_queue s') = map payload (ms_root_queue s) @ new \<and> length new \<le> 1"
  using assms unfolding enqueue_ingress_root_mut_def Let_def
  by (auto split: if_splits option.splits)

lemma continuation_payload:
  assumes "enqueue_continuation_mut E now c x i q s = Inr (r, s')"
  shows "\<exists>new. map payload (ms_root_queue s') = map payload (ms_root_queue s) @ new \<and> length new \<le> 1"
  using assms unfolding enqueue_continuation_mut_def Let_def
  by (auto split: if_splits option.splits)

lemma step_payload:
  assumes "step_of E now c s = Inr s'" and "\<And>xs. c \<noteq> Complete xs"
  shows "\<exists>new. map payload (ms_root_queue s') = map payload (ms_root_queue s) @ new \<and> length new \<le> 1"
proof (cases c)
  case (EnqueueRoot cc x a)
  with assms(1) obtain r where "enqueue_root_mut E now cc x a s = Inr (r, s')"
    by (auto simp: state_of_Inr)
  from enqueue_root_payload [OF this] show ?thesis by simp
next
  case (EnqueueIngress cc x i)
  with assms(1) show ?thesis using ingress_payload by (auto simp: state_of_Inr)
next
  case (EnqueueContinuation cc x r q)
  with assms(1) show ?thesis using continuation_payload by (auto simp: state_of_Inr)
qed (use step_payload_same [OF assms(1)] assms(2) in auto)

lemma prune_payload:
  "prune E s now = Inr s' \<Longrightarrow> map payload (ms_root_queue s') = map payload (ms_root_queue s)"
  using prune_InrD(4) by (simp add: comp_def)

end
