(* ===== verification/MaintEvents.thy ===== *)
theory MaintEvents
  imports MaintProps
begin

text \<open>
  The public event log of \<open>core/maintenance.py\<close>: its sequence numbers strictly increase, it
  holds at most 200 events, and no number exceeds the counter. Every operation appends through
  \<open>emit\<close> or leaves the log alone (\<open>log_frame\<close>).
\<close>

section \<open>The public event log\<close>

definition event_seq :: "pyv \<Rightarrow> int" where
  "event_seq e = integer (get e ''sequence'') 0"

definition log_ok :: "int \<Rightarrow> pyv list \<Rightarrow> bool" where
  "log_ok n evs \<longleftrightarrow>
     length evs \<le> MAX_PUBLIC_EVENTS \<and> sorted_wrt (\<lambda>a b. event_seq a < event_seq b) evs
     \<and> (\<forall>e \<in> set evs. event_seq e \<le> n)"

definition events_inv :: "mstate \<Rightarrow> bool" where
  "events_inv s \<longleftrightarrow> wf_state s \<and> log_ok (ms_event_sequence s) (ms_public_events s)"

lemma log_ok_last:
  assumes "log_ok n evs" and "event_seq e = n + 1"
  shows "log_ok (n + 1) (last_n MAX_PUBLIC_EVENTS (evs @ [e]))"
proof -
  have "sorted_wrt (\<lambda>a b. event_seq a < event_seq b) (evs @ [e])"
    using assms by (fastforce simp: log_ok_def sorted_wrt_append)
  then have "sorted_wrt (\<lambda>a b. event_seq a < event_seq b) (last_n MAX_PUBLIC_EVENTS (evs @ [e]))"
    unfolding last_n_def by (rule sorted_wrt_drop)
  moreover have "set (last_n MAX_PUBLIC_EVENTS (evs @ [e])) \<subseteq> set (evs @ [e])"
    unfolding last_n_def by (rule set_drop_subset)
  ultimately show ?thesis
    using assms length_last_n [of MAX_PUBLIC_EVENTS "evs @ [e]"]
    by (fastforce simp: log_ok_def)
qed

lemma events_inv_emit [simp]:
  assumes "events_inv s"
  shows "events_inv (emit E s ev ph outc)"
proof -
  have "log_ok (ms_event_sequence s + 1) (ms_public_events (emit E s ev ph outc))"
    using assms by (auto simp: events_inv_def emit_def Let_def event_seq_def dget_Cons intro!: log_ok_last)
  then show ?thesis using assms by (simp add: events_inv_def wf_state_def)
qed

lemma events_inv_cong:
  assumes "events_inv s" and "ms_event_sequence s' = ms_event_sequence s"
    and "ms_public_events s' = ms_public_events s" and "ms_extra s' = ms_extra s" and "0 \<le> ms_epoch s'"
  shows "events_inv s'"
  using assms by (simp add: events_inv_def wf_state_def)

lemma events_inv_epoch: "events_inv s \<Longrightarrow> 0 \<le> ms_epoch s"
  by (simp add: events_inv_def wf_state_def)

lemma events_inv_prune:
  assumes "events_inv s" and "prune E s now = Inr s'"
  shows "events_inv s'"
proof -
  note e = events_inv_epoch [OF assms(1)]
  have c: "events_inv (cancel_expired_drain E s now)"
    using assms(1) e by (auto simp: cancel_expired_drain_def Let_def intro!: events_inv_emit
        intro: events_inv_cong)
  let ?c = "cancel_expired_drain E s now"
  have p: "events_inv (prune_leases E ?c now)"
    using c events_inv_epoch [OF c]
    by (auto simp: prune_leases_def Let_def intro!: events_inv_emit intro: events_inv_cong)
  have "ms_event_sequence s' = ms_event_sequence (prune_leases E ?c now)
      \<and> ms_public_events s' = ms_public_events (prune_leases E ?c now)
      \<and> ms_extra s' = ms_extra (prune_leases E ?c now)"
    using assms(2) by (auto simp: prune_def settle_safe_to_stop_def Let_def
        split: sum.splits if_splits)
  moreover have "ms_epoch s' = ms_epoch s" by (rule prune_InrD(1) [OF assms(2)])
  ultimately show ?thesis using events_inv_cong [OF p] e by simp
qed

text \<open>The fields no operation but an event touches.\<close>

definition log_frame :: "mstate \<Rightarrow> mstate \<Rightarrow> bool" where
  "log_frame s s' \<longleftrightarrow> ms_event_sequence s' = ms_event_sequence s
     \<and> ms_public_events s' = ms_public_events s \<and> ms_extra s' = ms_extra s
     \<and> ms_epoch s' = ms_epoch s"

lemma log_frame_events: "log_frame s s' \<Longrightarrow> events_inv s \<Longrightarrow> events_inv s'"
  using events_inv_cong [of s s'] events_inv_epoch [of s] by (simp add: log_frame_def)

lemma claim_roots_log:
  assumes "claim_pending_roots_mut E now n ex uq s = Inr (a, s')"
  shows "log_frame s s'"
  using assms by (cases rule: claim_pending_roots_cases) (auto simp: log_frame_def)

lemma enqueue_root_log:
  assumes "enqueue_root_mut E now c x a s = Inr (r, s')"
  shows "log_frame s s'"
proof (cases "ms_phase s = Available \<and> a")
  case True
  obtain adm i1 s1 where c:
    "claim_root_item E 1 s (PDict (root_item (env_uid E 0) c x now (ms_epoch s))) now = (adm, i1, s1)"
    by (metis prod_cases3)
  then obtain ls where "s1 = s\<lparr>ms_leases := ls, ms_safe_to_stop := PBool False\<rparr>"
    by (elim claim_root_item_cases)
  with True c assms show ?thesis by (auto simp: enqueue_root_mut_def Let_def log_frame_def)
next
  case False
  with assms show ?thesis
    by (auto simp: enqueue_root_mut_def Let_def log_frame_def split: if_splits)
qed

lemma ingress_log:
  assumes "enqueue_ingress_root_mut E now c x i s = Inr (r, s')"
  shows "log_frame s s'"
  using assms unfolding enqueue_ingress_root_mut_def Let_def log_frame_def
  by (auto split: if_splits option.splits)

lemma continuation_log:
  assumes "enqueue_continuation_mut E now c x i q s = Inr (r, s')"
  shows "log_frame s s'"
  using assms unfolding enqueue_continuation_mut_def Let_def log_frame_def
  by (auto split: if_splits option.splits)

lemma acquire_log:
  assumes "acquire_activity_mut E now k a c p t s = Inr (r, s')"
  shows "log_frame s s'"
  using assms unfolding acquire_activity_mut_def new_lease_def Let_def log_frame_def
  by (auto split: if_splits option.splits)

lemma adopt_log:
  assumes "adopt_prefence_activity_mut E now k a c st t s = Inr (r, s')"
  shows "log_frame s s'"
  using assms unfolding adopt_prefence_activity_mut_def new_lease_def Let_def log_frame_def
  by (auto split: if_splits)

lemma heartbeat_log:
  assumes "heartbeat_mut now l t s = Inr (r, s')"
  shows "log_frame s s'"
  using assms unfolding heartbeat_mut_def Let_def log_frame_def by (auto split: if_splits)

lemma notices_log:
  "claim_notices_mut E now n s = Inr (r, s') \<Longrightarrow> log_frame s s'"
  "finish_notice_mut now i t d s = Inr (r', s') \<Longrightarrow> log_frame s s'"
  by (auto simp: claim_notices_mut_def finish_notice_mut_def log_frame_def split: prod.splits)

lemma acknowledge_log:
  assumes "acknowledge_mut E now e a b p s = Inr (r, s')"
  shows "log_frame s s'"
  using assms unfolding acknowledge_mut_def Let_def log_frame_def by (auto split: if_splits)

lemma settle_log:
  "release_mut l s = Inr (b, s') \<Longrightarrow> log_frame s s'"
  "complete_roots_mut E xs s = Inr (r, s') \<Longrightarrow> log_frame s s'"
  "retry_roots_mut E now xs d s = Inr (r, s') \<Longrightarrow> log_frame s s'"
  "defer_roots_mut E xs s = Inr (r, s') \<Longrightarrow> log_frame s s'"
  "get_activity_mut E l s = Inr (t, s') \<Longrightarrow> log_frame s s'"
  by (auto simp: release_mut_def complete_roots_mut_def retry_roots_mut_def defer_roots_mut_def
      get_activity_mut_def Let_def log_frame_def)

lemmas op_logs =
  claim_roots_log enqueue_root_log ingress_log continuation_log acquire_log adopt_log
  heartbeat_log notices_log acknowledge_log settle_log

lemma fence_events:
  assumes "events_inv s"
  shows "request_drain_mut E now d m s = Inr (r, s') \<Longrightarrow> events_inv s'"
    and "cancel_drain_mut E m outc s = Inr (b, s') \<Longrightarrow> events_inv s'"
    and "transition_mut E p m s = Inr (r, s') \<Longrightarrow> events_inv s'"
  using assms events_inv_epoch [OF assms]
  unfolding request_drain_mut_def cancel_drain_mut_def transition_mut_def Let_def
  by (auto split: if_splits intro!: events_inv_emit intro: events_inv_cong)

lemma events_inv_step:
  assumes "events_inv s" and "step_of E now c s = Inr s'"
  shows "events_inv s'"
  using assms(2) fence_events [OF assms(1)] log_frame_events [OF _ assms(1)] assms(1)
  by (cases c) (auto simp: state_of_Inr dest!: op_logs)

interpretation events: coord_invariant events_inv
proof unfold_locales
  show "events_inv s" if "normalize default_doc = Inr s" for s
    using that by (auto simp: normalize_default events_inv_def wf_state_def log_ok_def)
  show "events_inv (s\<lparr>ms_updated_at := v\<rparr>)" if "events_inv s" for s v
    using that by (simp add: events_inv_def wf_state_def)
  show "wf_state s" if "events_inv s" for s
    using that by (simp add: events_inv_def)
qed (auto intro: events_inv_prune events_inv_step)

end
