(* ===== verification/MaintSpec.thy ===== *)
theory MaintSpec
  imports MaintEvents
begin

text \<open>
  The properties of the maintenance coordinator: what every reachable document satisfies, what
  one operation promises, and the concrete runs and states that witness them.
\<close>

section \<open>Runs\<close>

text \<open>A run: each operation with the environment and the time of its transaction.\<close>

fun run_ops :: "(env \<times> rat \<times> mop) list \<Rightarrow> pyv option \<Rightarrow> pyv option result" where
  "run_ops [] file = Inr file"
| "run_ops ((E, now, c) # cs) file =
     (case transaction E now (\<lambda>s. map_sum id (\<lambda>s'. ((), s')) (step_of E now c s)) file of
        Inl e \<Rightarrow> Inl e
      | Inr (r, file') \<Rightarrow> run_ops cs file')"

lemma run_ops_reach: "coord_reach f \<Longrightarrow> run_ops cs f = Inr g \<Longrightarrow> coord_reach g"
proof (induction cs arbitrary: f)
  case (Cons x cs)
  obtain E now c where x: "x = (E, now, c)" by (cases x)
  with Cons.prems(2) obtain f1 where
    t: "transaction E now (\<lambda>s. map_sum id (\<lambda>s'. ((), s')) (step_of E now c s)) f = Inr ((), f1)"
    and r: "run_ops cs f1 = Inr g"
    by (auto split: sum.splits)
  from Cons.prems(1) coord_step.op [OF t] have "coord_reach f1" by (rule coord_reach.step)
  from Cons.IH [OF this r] show ?case .
qed simp

lemmas run_reaches = run_ops_reach [OF coord_reach.start]

text \<open>A concrete environment for the witnesses: fresh ids are the prefix of the step followed by as many marks
  as ids were drawn before.\<close>

definition exE :: "string \<Rightarrow> env" where
  "exE p = \<lparr>env_pid = 7, env_uid = (\<lambda>n. p @ replicate n (CHR ''+'')), env_tick = (\<lambda>n. 5),
            env_sha = (\<lambda>s. s), env_repr = (\<lambda>v. ''?'')\<rparr>"

definition run_state :: "(env \<times> rat \<times> mop) list \<Rightarrow> mstate result" where
  "run_state cs = (case run_ops cs None of Inl e \<Rightarrow> Inl e | Inr f \<Rightarrow> normalize (doc_of f))"

definition quiet_run :: "(env \<times> rat \<times> mop) list" where
  "quiet_run =
     [(exE ''a'', 1, EnqueueRoot ''c1'' ''hello'' True),
      (exE ''b'', 2, RequestDrain None ''m1''),
      (exE ''c'', 3, Complete [\<lparr>ad_queue_id = ''a'', ad_claim_token = ''a+'', ad_contact_id = ''c1'',
         ad_context = ''hello'', ad_activity = \<lparr>tk_lease_id = ''a++'', tk_lineage_id = ''a++'',
         tk_admitted_epoch = 0, tk_kind = ''manager_root'', tk_parent_lease_id = []\<rparr>\<rparr>]),
      (exE ''d'', 4, Acknowledge 1 (Some True) None None)]"

lemma quiet_run_state:
  "case run_ops quiet_run None of Inl e \<Rightarrow> False
   | Inr f \<Rightarrow> (case normalize (doc_of f) of Inl e \<Rightarrow> False | Inr s \<Rightarrow> truthy (ms_safe_to_stop s))"
  by code_simp

text \<open>
  C1: whenever the durable document says \<open>safe_to_stop\<close>, in any run of the operations of any
  number of processes, the fence is up, no activity holds a lease and no continuation waits.
\<close>

theorem safe_to_stop_quiescent:
  assumes "coord_reach file" and "normalize (doc_of file) = Inr s" and "truthy (ms_safe_to_stop s)"
  shows "ms_phase s = Draining \<and> ms_leases s = []
    \<and> \<not> list_ex pending_continuation (ms_root_queue s)"
  using quiet.inv_reach [OF assms(1,2)] assms(3)
  by (auto simp: quiet_inv_def pending_continuation_def list_ex_iff)

theorem safe_to_stop_quiescent_witness:
  "\<exists>file s. coord_reach file \<and> normalize (doc_of file) = Inr s \<and> truthy (ms_safe_to_stop s)
     \<and> ms_phase s = Draining \<and> ms_leases s = []"
proof -
  obtain f s where f: "run_ops quiet_run None = Inr f" and s: "normalize (doc_of f) = Inr s"
    and t: "truthy (ms_safe_to_stop s)"
    using quiet_run_state by (auto split: sum.splits)
  from safe_to_stop_quiescent [OF run_reaches [OF f] s t] run_reaches [OF f] s t show ?thesis
    by blast
qed

text \<open>
  C2: no reachable document holds a lease admitted after the current epoch, and while the fence
  is up every lease and every activity below it was admitted before the fence.
\<close>

theorem fence_epochs:
  assumes "coord_reach file" and "normalize (doc_of file) = Inr s" and "(k, l) \<in> set (ms_leases s)"
  shows "lease_epoch l \<le> (if ms_phase s = Available then ms_epoch s else ms_epoch s - 1)"
  using fence.inv_reach [OF assms(1,2)] assms(3)
  by (auto simp: fence_inv_def fence_bound_def epochs_le_def)

definition fence_run :: "(env \<times> rat \<times> mop) list" where
  "fence_run =
     [(exE ''a'', 1, EnqueueRoot ''c1'' ''hello'' True), (exE ''b'', 2, RequestDrain None ''m1''),
      (exE ''c'', 3, Acquire ''worker'' ''w'' ''c1''
         (Some \<lparr>tk_lease_id = ''a++'', tk_lineage_id = ''a++'',
         tk_admitted_epoch = 0, tk_kind = ''manager_root'', tk_parent_lease_id = []\<rparr>) 30)]"

lemma fence_run_state:
  "case run_ops fence_run None of Inl e \<Rightarrow> False
   | Inr f \<Rightarrow> (case normalize (doc_of f) of Inl e \<Rightarrow> False
       | Inr s \<Rightarrow> ms_phase s = Draining \<and> length (ms_leases s) = 2)"
  by code_simp

theorem fence_epochs_witness:
  "\<exists>file s k l. coord_reach file \<and> normalize (doc_of file) = Inr s \<and> (k, l) \<in> set (ms_leases s)
     \<and> ms_phase s = Draining \<and> lease_epoch l \<le> ms_epoch s - 1"
proof -
  obtain f s where f: "run_ops fence_run None = Inr f" and s: "normalize (doc_of f) = Inr s"
    and p: "ms_phase s = Draining" and n: "length (ms_leases s) = 2"
    using fence_run_state by (auto split: sum.splits)
  from n obtain k l where kl: "(k, l) \<in> set (ms_leases s)"
    by (metis length_0_conv list.set_intros(1) neq_Nil_conv surj_pair zero_neq_numeral)
  from fence_epochs [OF run_reaches [OF f] s kl] run_reaches [OF f] s p kl show ?thesis
    by (intro exI [of _ f] exI [of _ s] exI [of _ k] exI [of _ l]) simp
qed

lemma settle_inv_phase [simp]: "ms_phase (settle_safe_to_stop s) = ms_phase s"
  by (simp add: settle_safe_to_stop_def)

text \<open>
  What a step relates: the states before and after it, of a document that is reachable.
\<close>

lemma step_states:
  assumes "coord_reach f" and "coord_step f f'"
    and "normalize (doc_of f) = Inr s" and "normalize (doc_of f') = Inr s'"
  obtains "s' = s"
  | E now c s1 s2 where "prune E s now = Inr s1" and "step_of E now c s1 = Inr s2"
    and "s' = s2\<lparr>ms_updated_at := PFloat now\<rparr>" and "quiet_inv s1"
proof -
  from assms(2) obtain E now c s0 s1 s2 where
    s0: "normalize (doc_of f) = Inr s0" and p: "prune E s0 now = Inr s1"
    and c: "step_of E now c s1 = Inr s2"
    and f: "f' = f \<or> f' = Some (to_doc (s2\<lparr>ms_updated_at := PFloat now\<rparr>))"
    by (elim coord_step_states)
  have q: "quiet_inv s1"
    using quiet.inv_reach [OF assms(1) s0] p by (rule quiet.I_prune)
  then have "quiet_inv s2" using prune_swept [OF p] c by (rule quiet.I_step)
  then have w: "wf_state (s2\<lparr>ms_updated_at := PFloat now\<rparr>)"
    by (intro quiet.I_wf quiet.I_stamp)
  from f show thesis
  proof
    assume "f' = f"
    with assms(3,4) that(1) show thesis by simp
  next
    assume "f' = Some (to_doc (s2\<lparr>ms_updated_at := PFloat now\<rparr>))"
    with assms(4) normalize_to_doc [OF w] have "s' = s2\<lparr>ms_updated_at := PFloat now\<rparr>"
      by (simp add: doc_of_def)
    with that(2) p c q s0 assms(3) show thesis by simp
  qed
qed

text \<open>
  C3: the installation starts only on a drained runtime: a step that enters \<open>updating\<close> comes
  from \<open>draining\<close>, and afterwards there is no lease and no waiting continuation.
\<close>

theorem updating_entered_quiescent:
  assumes "coord_reach f" and "coord_step f f'"
    and "normalize (doc_of f) = Inr s" and "normalize (doc_of f') = Inr s'"
    and "ms_phase s' = Updating" and "ms_phase s \<noteq> Updating"
  shows "ms_phase s = Draining \<and> ms_leases s' = []
    \<and> \<not> list_ex pending_continuation (ms_root_queue s')"
  using assms(1-4)
proof (cases rule: step_states)
  case 1
  with assms(5,6) show ?thesis by simp
next
  case (2 E now c s1 s2)
  have p: "ms_phase s1 = ms_phase s \<or> ms_phase s1 = Available"
    using prune_phase [OF 2(1)] by auto
  from 2(2) show ?thesis
  proof (cases rule: step_phase)
    case edge
    with assms(5) 2 p show ?thesis
      by (auto simp: quiet_inv_def pending_continuation_def list_ex_iff)
  qed (use assms(5,6) p 2(3) in auto)
qed

lemma run_ops_append:
  "run_ops (xs @ ys) f = (case run_ops xs f of Inl e \<Rightarrow> Inl e | Inr g \<Rightarrow> run_ops ys g)"
  by (induction xs f rule: run_ops.induct) (auto split: sum.splits)

lemma run_ops_step: "run_ops [x] f = Inr g \<Longrightarrow> coord_step f g"
  by (cases x) (auto split: sum.splits intro: coord_step.op)

definition enter_op :: "env \<times> rat \<times> mop" where
  "enter_op = (exE ''e'', 5, Transition Updating ''m1'')"

lemma update_run_state:
  "case run_ops quiet_run None of Inl e \<Rightarrow> False
   | Inr f \<Rightarrow> (case run_ops [enter_op] f of Inl e \<Rightarrow> False
       | Inr g \<Rightarrow> (case (normalize (doc_of f), normalize (doc_of g)) of
             (Inr s, Inr s') \<Rightarrow> ms_phase s = Draining \<and> ms_phase s' = Updating | _ \<Rightarrow> False))"
  by code_simp

theorem updating_entered_quiescent_witness:
  "\<exists>f f' s s'. coord_reach f \<and> coord_step f f' \<and> normalize (doc_of f) = Inr s
     \<and> normalize (doc_of f') = Inr s' \<and> ms_phase s' = Updating \<and> ms_leases s' = []"
proof -
  obtain f g s s' where f: "run_ops quiet_run None = Inr f"
    and g: "run_ops [enter_op] f = Inr g"
    and s: "normalize (doc_of f) = Inr s" and s': "normalize (doc_of g) = Inr s'"
    and p: "ms_phase s = Draining" "ms_phase s' = Updating"
    using update_run_state by (auto split: sum.splits)
  note r = run_reaches [OF f] and st = run_ops_step [OF g]
  from updating_entered_quiescent [OF r st s s'] p r st s s' show ?thesis by auto
qed

text \<open>
  C4: one step moves the phase along one of the nine edges of the documented lifecycle or leaves
  it, keeps the epoch or raises it by one, and raises it only by raising the fence.
\<close>

theorem lifecycle_edges:
  assumes "coord_reach f" and "coord_step f f'"
    and "normalize (doc_of f) = Inr s" and "normalize (doc_of f') = Inr s'"
  shows "lifecycle_edge (ms_phase s) (ms_phase s')
    \<and> (ms_epoch s' = ms_epoch s \<or> ms_epoch s' = ms_epoch s + 1 \<and> ms_phase s' = Draining)"
  using assms(1-4)
proof (cases rule: step_states)
  case 1
  then show ?thesis by simp
next
  case (2 E now c s1 s2)
  have p: "ms_phase s1 = ms_phase s \<or> ms_phase s = Draining \<and> ms_phase s1 = Available"
    and e: "ms_epoch s1 = ms_epoch s"
    using prune_phase [OF 2(1)] prune_InrD [OF 2(1)] by auto
  from 2(2) show ?thesis
  proof (cases rule: step_phase)
    case edge
    then have "ms_phase s1 \<noteq> Available" by auto
    with p have "ms_phase s1 = ms_phase s" by blast
    with allowed_edges [OF edge(1)] edge(2) e 2(3) show ?thesis by simp
  qed (use p e 2(3) in auto)
qed

theorem lifecycle_edges_witness:
  "\<exists>f f' s s'. coord_reach f \<and> coord_step f f' \<and> normalize (doc_of f) = Inr s
     \<and> normalize (doc_of f') = Inr s' \<and> lifecycle_edge (ms_phase s) (ms_phase s')
     \<and> ms_phase s \<noteq> ms_phase s'"
proof -
  obtain f g s s' where f: "run_ops quiet_run None = Inr f"
    and g: "run_ops [enter_op] f = Inr g"
    and s: "normalize (doc_of f) = Inr s" and s': "normalize (doc_of g) = Inr s'"
    and p: "ms_phase s = Draining" "ms_phase s' = Updating"
    using update_run_state by (auto split: sum.splits)
  note r = run_reaches [OF f] and st = run_ops_step [OF g]
  from lifecycle_edges [OF r st s s'] r st s s' p show ?thesis
    by (intro exI [of _ f] exI [of _ g] exI [of _ s] exI [of _ s']) simp
qed

section \<open>Concrete states\<close>

definition ms0 :: mstate where
  "ms0 =
     \<lparr>ms_epoch = 1, ms_phase = Available, ms_maintenance_id = PStr ''m1'', ms_requested_at = PFloat 0,
      ms_deadline_at = PFloat 0, ms_updated_at = PFloat 0, ms_safe_to_stop = PBool False,
      ms_last_outcome = PStr [], ms_leases = [], ms_root_queue = [],
      ms_continuation_receipts = [], ms_ingress_receipts = [], ms_notices = [],
      ms_public_events = [], ms_event_sequence = 0, ms_participants = [], ms_extra = []\<rparr>"

definition ms_queue :: mstate where
  "ms_queue = ms0\<lparr>ms_root_queue :=
     [PDict (root_item ''q1'' ''c1'' ''a'' 1 0), PDict (root_item ''q2'' ''c1'' ''b'' 2 0),
      PDict (root_item ''q3'' ''c2'' ''c'' 3 0), PDict (root_item ''q4'' ''c3'' ''d'' 4 0)]\<rparr>"

lemma result_cases:
  assumes "case r of Inl e \<Rightarrow> False | Inr (x, y) \<Rightarrow> P x y"
  obtains x y where "r = Inr (x, y)" and "P x y"
  using assms by (auto split: sum.splits)

section \<open>Claiming\<close>

lemma claim_loop_bounds:
  "claim_loop E now limit uniq u excluded acc s q = (a, q', s') \<Longrightarrow>
     \<exists>new. a = acc @ new \<and> length a \<le> max limit (length acc)
       \<and> (\<forall>ad \<in> set new. ad_contact_id ad \<notin> set excluded)
       \<and> (uniq \<longrightarrow> distinct (map ad_contact_id new))"
proof (induction q arbitrary: u excluded acc s a q' s')
  case (Cons item rest)
  show ?case
  proof (cases "limit \<le> length acc")
    case True
    with Cons.prems show ?thesis by simp
  next
    case not_full: False
    show ?thesis
    proof (cases "claimable E now excluded s item")
      case False
      with not_full Cons.prems obtain q1 where
        "claim_loop E now limit uniq u excluded acc s rest = (a, q1, s')"
        by (auto split: prod.splits)
      from Cons.IH [OF this] show ?thesis .
    next
      case True
      obtain adm i1 s1 where c: "claim_root_item E u s item now = (adm, i1, s1)"
        by (metis prod_cases3)
      then have ac: "ad_contact_id adm = str_or_empty (env_repr E) (get item ''contact_id'')"
        by (elim claim_root_item_cases)
      from True ac have ne: "ad_contact_id adm \<notin> set excluded" by (simp add: claimable_def)
      let ?ex = "if uniq then str_or_empty (env_repr E) (get item ''contact_id'') # excluded
                 else excluded"
      from True not_full c Cons.prems obtain q1 where
        "claim_loop E now limit uniq (Suc (Suc u)) ?ex (acc @ [adm]) s1 rest = (a, q1, s')"
        by (auto simp: Let_def split: prod.splits)
      from Cons.IH [OF this] obtain new where
        a: "a = (acc @ [adm]) @ new" and len: "length a \<le> max limit (length (acc @ [adm]))"
        and ex: "\<forall>ad \<in> set new. ad_contact_id ad \<notin> set ?ex"
        and d: "uniq \<longrightarrow> distinct (map ad_contact_id new)" by blast
      have "length a \<le> max limit (length acc)" using len not_full by simp
      moreover have "\<forall>ad \<in> set (adm # new). ad_contact_id ad \<notin> set excluded"
        using ex ne ac by (auto split: if_splits)
      moreover have "uniq \<longrightarrow> distinct (map ad_contact_id (adm # new))"
        using ex d ac by auto
      ultimately show ?thesis using a by (intro exI [of _ "adm # new"]) simp
    qed
  qed
qed auto

text \<open>
  C8: one replay admits at most the requested number of roots, never a root of an excluded
  contact, and with \<open>unique_contacts\<close> no two roots of one contact.
\<close>

theorem claim_pending_bounded:
  assumes "claim_pending_roots_mut E now limit excluded uniq s = Inr (a, s')"
  shows "int (length a) \<le> max 1 limit
    \<and> (\<forall>ad \<in> set a. ad_contact_id ad \<notin> set excluded)
    \<and> (uniq \<longrightarrow> distinct (map ad_contact_id a))"
proof (cases "ms_phase s \<noteq> Available \<and> ms_phase s \<noteq> Draining")
  case True
  with assms show ?thesis by (simp add: claim_pending_roots_mut_def)
next
  case False
  with assms obtain q' s1 where
    "claim_loop E now (nat (max 1 limit)) uniq 0 excluded [] s (ms_root_queue s) = (a, q', s1)"
    by (auto simp: claim_pending_roots_mut_def split: prod.splits)
  from claim_loop_bounds [OF this] show ?thesis by auto
qed

theorem claim_pending_bounded_witness:
  "\<exists>a s'. claim_pending_roots_mut (exE ''a'') 9 5 [''c3''] True ms_queue = Inr (a, s')
     \<and> length a = 2 \<and> distinct (map ad_contact_id a)"
proof -
  have "case claim_pending_roots_mut (exE ''a'') 9 5 [''c3''] True ms_queue of
          Inl e \<Rightarrow> False | Inr (a, s') \<Rightarrow> length a = 2"
    by code_simp
  then obtain a s' where c: "claim_pending_roots_mut (exE ''a'') 9 5 [''c3''] True ms_queue = Inr (a, s')"
    and "length a = 2" by (rule result_cases)
  with claim_pending_bounded [OF c] show ?thesis by blast
qed

section \<open>Ingress\<close>

lemma sha_conflict:
  assumes "inj (env_sha E)" and "x' \<noteq> x"
  shows "fingerprint E c x' \<noteq> fingerprint E c x"
  using assms by (auto simp: fingerprint_def inj_def)

lemma is_dict_receipt [simp]: "is_dict (receipt c fp t)"
  by (simp add: receipt_def)

lemma get_receipt [simp]:
  "get (receipt c fp t) ''fingerprint'' = PStr fp" "get (receipt c fp t) ''contact_id'' = PStr c"
  by (simp_all add: receipt_def dget_Cons)

lemma ingress_receipt:
  assumes "enqueue_ingress_root_mut E now c x i s = Inr (b, s')"
  shows "b \<and> is_dict (dget (ms_ingress_receipts s') (ingress_queue_id E i))
    \<and> get (dget (ms_ingress_receipts s') (ingress_queue_id E i)) ''fingerprint''
        = PStr (fingerprint E c x)
    \<and> get (dget (ms_ingress_receipts s') (ingress_queue_id E i)) ''contact_id'' = PStr c"
  using assms unfolding enqueue_ingress_root_mut_def Let_def
  by (auto split: if_splits option.splits)

text \<open>
  Handing over one durable source record twice takes ownership once: the second call is
  accepted and changes nothing, whatever its time.
\<close>

theorem ingress_idempotent:
  assumes "enqueue_ingress_root_mut E now c x i s = Inr (b, s')"
  shows "b \<and> enqueue_ingress_root_mut E now' c x i s' = Inr (True, s')"
  using ingress_receipt [OF assms] by (simp add: enqueue_ingress_root_mut_def Let_def)

text \<open>
  Reusing an ingress identity for another contact or another text is refused, where the
  digest has no collision.
\<close>

theorem ingress_conflict_refused:
  assumes "enqueue_ingress_root_mut E now c x i s = Inr (b, s')"
    and "inj (env_sha E)" and "c' \<noteq> c \<or> x' \<noteq> x"
  shows "enqueue_ingress_root_mut E now' c' x' i s' = Inl ingress_conflict"
  using ingress_receipt [OF assms(1)] assms(3) sha_conflict [OF assms(2)]
  by (cases "c' = c") (auto simp: enqueue_ingress_root_mut_def Let_def)

lemma ingress_run:
  "case enqueue_ingress_root_mut (exE ''a'') 9 ''c1'' ''hi'' ''i1'' ms0 of
     Inl e \<Rightarrow> False | Inr (b, s') \<Rightarrow> length (ms_root_queue s') = 1"
  by code_simp

theorem ingress_idempotent_witness:
  "\<exists>s'. enqueue_ingress_root_mut (exE ''a'') 9 ''c1'' ''hi'' ''i1'' ms0 = Inr (True, s')
     \<and> enqueue_ingress_root_mut (exE ''a'') 20 ''c1'' ''hi'' ''i1'' s' = Inr (True, s')"
proof -
  obtain b s' where c: "enqueue_ingress_root_mut (exE ''a'') 9 ''c1'' ''hi'' ''i1'' ms0 = Inr (b, s')"
    using ingress_run by (rule result_cases)
  from ingress_idempotent [OF c, of 20] c show ?thesis by auto
qed

theorem ingress_conflict_refused_witness:
  "\<exists>s'. enqueue_ingress_root_mut (exE ''a'') 9 ''c1'' ''hi'' ''i1'' ms0 = Inr (True, s')
     \<and> enqueue_ingress_root_mut (exE ''a'') 20 ''c2'' ''hi'' ''i1'' s' = Inl ingress_conflict"
proof -
  obtain b s' where c: "enqueue_ingress_root_mut (exE ''a'') 9 ''c1'' ''hi'' ''i1'' ms0 = Inr (b, s')"
    using ingress_run by (rule result_cases)
  have "inj (env_sha (exE ''a''))" by (simp add: exE_def inj_def)
  from ingress_conflict_refused [OF c this, of "''c2''" "''hi''" 20] ingress_receipt [OF c] c
  show ?thesis by auto
qed

section \<open>Backoff\<close>

lemma backoff_base_mono:
  fixes b :: rat
  assumes "0 \<le> b" and "m \<le> n"
  shows "b * 2 ^ m \<le> b * 2 ^ n"
  using assms by (intro mult_left_mono power_increasing) auto

text \<open>
  The delay before a failed root is retried never exceeds the cap, never shrinks as the
  attempts grow, and doubles up to six times below the cap.
\<close>

theorem retry_backoff_bounded_monotone:
  assumes "attempts \<le> attempts'"
  shows "0 \<le> retry_backoff_seconds delay attempts
    \<and> retry_backoff_seconds delay attempts \<le> 300
    \<and> retry_backoff_seconds delay attempts \<le> retry_backoff_seconds delay attempts'"
proof -
  let ?d = "\<lambda>a. nat (min (max 0 (a - 1)) 6)"
  have "?d attempts \<le> ?d attempts'" using assms by simp
  then have "max 0 delay * 2 ^ ?d attempts \<le> max 0 delay * 2 ^ ?d attempts'"
    by (intro backoff_base_mono) simp_all
  moreover have "0 \<le> max 0 delay * 2 ^ ?d attempts" by simp
  ultimately show ?thesis
    by (auto simp: retry_backoff_seconds_def Let_def maint_limits min_def)
qed


theorem retry_backoff_bounded_monotone_witness:
  "0 \<le> retry_backoff_seconds 5 2 \<and> retry_backoff_seconds 5 2 \<le> retry_backoff_seconds 5 3
     \<and> retry_backoff_seconds 5 9 = 300"
  using retry_backoff_bounded_monotone [of 2 3 5]
  by (simp add: retry_backoff_seconds_def maint_limits)

section \<open>Leases and time\<close>

lemma dget_filter_live:
  assumes "distinct (map fst d)"
  shows "dget (filter (\<lambda>kv. \<not> lease_expired now (snd kv)) d) k =
     (if map_of d k \<noteq> None \<and> \<not> lease_expired now (dget d k) then dget d k else PNone)"
  using map_of_filter_val [OF assms, of "\<lambda>v. \<not> lease_expired now v" k]
  by (simp add: dget_def split: option.splits)

lemma lease_expired_doc [simp]:
  "lease_expired now' (lease_doc E i now k a c ep lin par ttl) \<longleftrightarrow> now + max 5 ttl \<le> now'"
  by (simp add: lease_expired_def) (simp add: lease_doc_def dget_Cons)

lemma acquire_stored:
  assumes "acquire_activity_mut E now k a c p t s = Inr (Some tok, s')"
  obtains ep lin par where
    "tok = token_from_lease E (env_uid E 0) (lease_doc E (env_uid E 0) now k a c ep lin par t)"
    and "ms_leases s' = dput (env_uid E 0) (lease_doc E (env_uid E 0) now k a c ep lin par t)
           (ms_leases s)"
    and "ms_phase s \<noteq> Available \<Longrightarrow> \<exists>q. p = Some q \<and> is_dict (dget (ms_leases s) (tk_lease_id q))
           \<and> ep = tk_admitted_epoch q \<and> tk_admitted_epoch q < ms_epoch s"
    and "ms_phase s = Available \<Longrightarrow> ep = ms_epoch s"
  using assms unfolding acquire_activity_mut_def new_lease_def Let_def
  by (auto split: if_splits option.splits)

text \<open>
  C7: whatever operation runs behind a raised fence, a lease that appears under a new key is
  admitted at an epoch before the fence and comes from one of three sources: \<open>acquire_activity\<close>
  for a parent whose lease is still held and itself predates the fence, with the epoch of the
  parent's token; \<open>adopt_prefence_activity\<close> for work that started no later than the fence was
  requested, or whose start is unknown; or, while draining, the replay of a continuation that
  waits in the queue, at the epoch the queue kept for it.
\<close>

theorem granted_behind_fence:
  assumes "coord_reach f" and "normalize (doc_of f) = Inr s0" and "prune E s0 now = Inr s"
    and "step_of E now c s = Inr s'" and "ms_phase s \<noteq> Available"
    and "(k, l) \<in> set (ms_leases s')" and "k \<notin> fst ` set (ms_leases s)"
  shows "lease_epoch l < ms_epoch s
    \<and> ((\<exists>kd a cc q t. c = Acquire kd a cc (Some q) t
          \<and> is_dict (dget (ms_leases s) (tk_lease_id q))
          \<and> lease_epoch (dget (ms_leases s) (tk_lease_id q)) < ms_epoch s
          \<and> lease_epoch l = tk_admitted_epoch q
          \<and> get l ''parent_lease_id'' = PStr (tk_lease_id q))
      \<or> (\<exists>kd a cc st t. c = Adopt kd a cc st t \<and> number (ms_requested_at s) 0 \<noteq> 0
          \<and> (st = 0 \<or> st \<le> number (ms_requested_at s) 0) \<and> lease_epoch l = ms_epoch s - 1)
      \<or> (\<exists>n ex uq i. c = ClaimRoots n ex uq \<and> ms_phase s = Draining
          \<and> i \<in> set (ms_root_queue s) \<and> pending_continuation i
          \<and> lease_epoch l = integer (get i ''admitted_epoch'') 0))"
proof -
  have inv: "fence_inv s"
    using fence.inv_reach [OF assms(1,2)] assms(3) by (rule fence_inv_prune)
  then have ep: "1 \<le> ms_epoch s" and le: "epochs_le (ms_epoch s - 1) (ms_leases s)"
    using assms(5) by (simp_all add: fence_inv_def fence_bound_def)
  have "grants c" using fenced_keys [OF assms(4,5)] assms(6,7) by force
  then consider (acquire) kd a cc p t where "c = Acquire kd a cc p t"
    | (adopt) kd a cc st t where "c = Adopt kd a cc st t"
    | (claim) n ex uq where "c = ClaimRoots n ex uq"
    by (cases c) (auto simp: grants_def)
  then show ?thesis
  proof cases
    case acquire
    with assms(4) obtain r where "acquire_activity_mut E now kd a cc p t s = Inr (r, s')"
      by (auto simp: state_of_Inr)
    from fenced_acquire [OF this assms(5-7)] obtain q where
      q: "p = Some q" "is_dict (dget (ms_leases s) (tk_lease_id q))" "tk_admitted_epoch q < ms_epoch s"
      "lease_epoch l = tk_admitted_epoch q" "get l ''parent_lease_id'' = PStr (tk_lease_id q)" .
    with acquire epochs_le_dget [OF le q(2)] show ?thesis by auto
  next
    case adopt
    with assms(4) obtain r where "adopt_prefence_activity_mut E now kd a cc st t s = Inr (r, s')"
      by (auto simp: state_of_Inr)
    from fenced_adopt [OF this assms(5) ep assms(6,7)] adopt show ?thesis by auto
  next
    case claim
    with assms(4) obtain a where "claim_pending_roots_mut E now n ex uq s = Inr (a, s')"
      by (auto simp: state_of_Inr)
    from fenced_claim [OF this assms(5-7)] claim show ?thesis by auto
  qed
qed

definition child_op :: mop where
  "child_op = Acquire ''worker'' ''w'' ''c1''
     (Some \<lparr>tk_lease_id = ''a++'', tk_lineage_id = ''a++'', tk_admitted_epoch = 0,
            tk_kind = ''manager_root'', tk_parent_lease_id = []\<rparr>) 30"

lemma granted_run:
  "case run_ops (butlast fence_run) None of Inl e \<Rightarrow> False
   | Inr f \<Rightarrow> (case normalize (doc_of f) of Inl e \<Rightarrow> False
     | Inr s0 \<Rightarrow> (case prune (exE ''c'') s0 3 of Inl e \<Rightarrow> False
       | Inr s \<Rightarrow> (case step_of (exE ''c'') 3 child_op s of Inl e \<Rightarrow> False
         | Inr s' \<Rightarrow> ms_phase s \<noteq> Available \<and> ms_epoch s = 1
             \<and> list_ex (\<lambda>(k, l). k = ''c'') (ms_leases s')
             \<and> \<not> list_ex (\<lambda>(k, l). k = ''c'') (ms_leases s))))"
  by code_simp

theorem granted_behind_fence_witness:
  "\<exists>f s0 s s' l. coord_reach f \<and> normalize (doc_of f) = Inr s0 \<and> prune (exE ''c'') s0 3 = Inr s
     \<and> step_of (exE ''c'') 3 child_op s = Inr s' \<and> ms_phase s \<noteq> Available
     \<and> (''c'', l) \<in> set (ms_leases s') \<and> ''c'' \<notin> fst ` set (ms_leases s) \<and> lease_epoch l < 1"
proof -
  obtain f s0 s s' where f: "run_ops (butlast fence_run) None = Inr f"
    and s0: "normalize (doc_of f) = Inr s0" and s: "prune (exE ''c'') s0 3 = Inr s"
    and s': "step_of (exE ''c'') 3 child_op s = Inr s'"
    and p: "ms_phase s \<noteq> Available" and e: "ms_epoch s = 1"
    and i: "list_ex (\<lambda>(k, l). k = ''c'') (ms_leases s')"
    and n: "\<not> list_ex (\<lambda>(k, l). k = ''c'') (ms_leases s)"
    using granted_run by (auto simp del: step_of.simps split: sum.splits)
  from i obtain l where l: "(''c'', l) \<in> set (ms_leases s')" by (auto simp: list_ex_iff)
  from n have k: "''c'' \<notin> fst ` set (ms_leases s)" by (auto simp: list_ex_iff)
  have "lease_epoch l < 1"
    using granted_behind_fence [OF run_reaches [OF f] s0 s s' p l k] unfolding e by (rule conjunct1)
  with run_reaches [OF f] s0 s s' p l k show ?thesis by blast
qed

definition ms_fenced :: mstate where
  "ms_fenced = ms0\<lparr>ms_epoch := 2, ms_phase := Draining,
     ms_leases := [(''p'', lease_doc (exE ''z'') ''p'' 1 ''k'' ''a'' ''c1'' 1 [] [] 60)]\<rparr>"

text \<open>
  A granted lease is found under its token by every sweep before its time to live ends,
  and by none from then on (if it is not renewed).
\<close>

theorem lease_lives_exactly_ttl:
  assumes "acquire_activity_mut E now k a c p t s = Inr (Some tok, s')"
    and "prune E' s' now' = Inr s''" and "distinct (map fst (ms_leases s'))"
  shows "get_activity_mut E (tk_lease_id tok) s''
    = Inr (if now' < now + max 5 t then Some tok else None, s'')"
  using assms(1)
proof (rule acquire_stored)
  fix ep lin par
  let ?L = "lease_doc E (env_uid E 0) now k a c ep lin par t"
  assume tok: "tok = token_from_lease E (env_uid E 0) ?L"
    and l: "ms_leases s' = dput (env_uid E 0) ?L (ms_leases s)"
  have "dget (ms_leases s'') (env_uid E 0) = (if now' < now + max 5 t then ?L else PNone)"
    using dget_filter_live [OF assms(3)] by (simp add: prune_InrD(3) [OF assms(2)] l not_le)
  then show ?thesis by (simp add: get_activity_mut_def tok)
qed

lemma acquire_run:
  "case acquire_activity_mut (exE ''a'') 9 ''worker'' ''w'' ''c1'' None 30 ms0 of Inl e \<Rightarrow> False
   | Inr (t, s') \<Rightarrow> t \<noteq> None \<and> distinct (map fst (ms_leases s'))
       \<and> (case (prune (exE ''b'') s' 38, prune (exE ''b'') s' 39) of
             (Inr s1, Inr s2) \<Rightarrow> True | _ \<Rightarrow> False)"
  by code_simp

theorem lease_lives_exactly_ttl_witness:
  "\<exists>tok s' s1 s2. acquire_activity_mut (exE ''a'') 9 ''worker'' ''w'' ''c1'' None 30 ms0 = Inr (Some tok, s')
     \<and> prune (exE ''b'') s' 38 = Inr s1
     \<and> get_activity_mut (exE ''a'') (tk_lease_id tok) s1 = Inr (Some tok, s1)
     \<and> prune (exE ''b'') s' 39 = Inr s2
     \<and> get_activity_mut (exE ''a'') (tk_lease_id tok) s2 = Inr (None, s2)"
proof -
  obtain t s' where
    "acquire_activity_mut (exE ''a'') 9 ''worker'' ''w'' ''c1'' None 30 ms0 = Inr (t, s')"
    and t: "t \<noteq> None \<and> distinct (map fst (ms_leases s'))
       \<and> (case (prune (exE ''b'') s' 38, prune (exE ''b'') s' 39) of
             (Inr s1, Inr s2) \<Rightarrow> True | _ \<Rightarrow> False)"
    using acquire_run by (rule result_cases)
  then obtain tok where
    a: "acquire_activity_mut (exE ''a'') 9 ''worker'' ''w'' ''c1'' None 30 ms0 = Inr (Some tok, s')" by blast
  from t obtain s1 s2 where p: "prune (exE ''b'') s' 38 = Inr s1" "prune (exE ''b'') s' 39 = Inr s2"
    and d: "distinct (map fst (ms_leases s'))"
    by (auto split: sum.splits)
  from lease_lives_exactly_ttl [OF a p(1) d] lease_lives_exactly_ttl [OF a p(2) d] a p show ?thesis
    by auto
qed

text \<open>
  C6: a root admitted when it is queued stays claimed through every sweep before its lease
  ends, so no other replay can admit it; a sweep after that hands it back as pending.
\<close>

theorem admitted_root_claim_lifetime:
  assumes "enqueue_root_mut E now c x True s = Inr (r, s')" and "ms_phase s = Available"
    and "prune E' s' now' = Inr s''" and "distinct (map fst (ms_leases s'))"
  shows "get (last (ms_root_queue s'')) ''status''
    = PStr (if now' < now + LEASE_TTL_SECONDS then ''claimed'' else ''pending'')"
proof -
  let ?i = "PDict (root_item (env_uid E 0) c x now (ms_epoch s))"
  obtain adm i1 s1 where cl: "claim_root_item E 1 s ?i now = (adm, i1, s1)"
    by (metis prod_cases3)
  then have s': "s' = s1\<lparr>ms_root_queue := ms_root_queue s1 @ [i1]\<rparr>" and i1: "i1 = claimed_item E 1 now ?i"
    using assms(1,2) by (auto simp: enqueue_root_mut_def Let_def elim!: claim_root_item_cases)
  obtain k a cc ep lin par where
    l: "ms_leases s1 = dput (env_uid E 2) (lease_doc E (env_uid E 2) now k a cc ep lin par LEASE_TTL_SECONDS)
          (ms_leases s)"
    using cl by (auto simp: claim_root_item_def new_lease_def Let_def root_item_def dget_Cons
        numeral_2_eq_2)
  let ?L = "lease_doc E (env_uid E 2) now k a cc ep lin par LEASE_TTL_SECONDS"
  have live: "has_key (ms_leases s'') (env_uid E 2) \<longleftrightarrow> now' < now + LEASE_TTL_SECONDS"
    using map_of_filter_val [OF assms(4), of "\<lambda>v. \<not> lease_expired now' v" "env_uid E 2"]
    by (simp add: has_key_def prune_InrD(3) [OF assms(3)] s' l not_le maint_limits)
  have "last (ms_root_queue s'') = sweep_root E' (ms_leases s'') now' i1"
    by (simp add: prune_InrD(4) [OF assms(3)] s')
  moreover have "is_dict i1" and "get i1 ''status'' = PStr ''claimed''"
    and "get i1 ''lease_id'' = PStr (env_uid E 2)"
    and "get i1 ''claim_until'' = PFloat (now + ROOT_CLAIM_TTL_SECONDS)"
    by (simp_all add: i1 numeral_2_eq_2)
  ultimately show ?thesis
    using live by (auto simp: sweep_root_def maint_limits)
qed

lemma admitted_run:
  "case enqueue_root_mut (exE ''a'') 9 ''c1'' ''hi'' True ms0 of Inl e \<Rightarrow> False
   | Inr (r, s') \<Rightarrow> distinct (map fst (ms_leases s'))
       \<and> (case prune (exE ''b'') s' 99 of Inl e \<Rightarrow> False | Inr s1 \<Rightarrow> True)"
  by code_simp

theorem admitted_root_claim_lifetime_witness:
  "\<exists>r s' s1. enqueue_root_mut (exE ''a'') 9 ''c1'' ''hi'' True ms0 = Inr (r, s')
     \<and> prune (exE ''b'') s' 99 = Inr s1 \<and> get (last (ms_root_queue s1)) ''status'' = PStr ''pending''"
proof -
  obtain r s' where e: "enqueue_root_mut (exE ''a'') 9 ''c1'' ''hi'' True ms0 = Inr (r, s')"
    and "distinct (map fst (ms_leases s'))
       \<and> (case prune (exE ''b'') s' 99 of Inl e \<Rightarrow> False | Inr s1 \<Rightarrow> True)"
    using admitted_run by (rule result_cases)
  then obtain s1 where d: "distinct (map fst (ms_leases s'))" and p: "prune (exE ''b'') s' 99 = Inr s1"
    by (auto split: sum.splits)
  have a: "ms_phase ms0 = Available" by (simp add: ms0_def)
  from admitted_root_claim_lifetime [OF e a p d] e p show ?thesis by (auto simp: maint_limits)
qed

text \<open>
  A reader of the public event log gets at most 200 events, each after the one it named, in
  strictly increasing order: no event twice and none out of order.
\<close>

theorem public_events_increasing:
  assumes "coord_reach f" and "public_events E now after f = Inr (evs, f')"
  shows "length evs \<le> 200 \<and> sorted_wrt (\<lambda>a b. event_seq a < event_seq b) evs
    \<and> (\<forall>e \<in> set evs. after < event_seq e)"
proof -
  from assms(2) obtain s f1 where t: "transaction E now (\<lambda>s. Inr (s, s)) f = Inr (s, f1)"
    and evs: "evs = filter (\<lambda>i. is_dict i \<and> integer (get i ''sequence'') 0 > after) (ms_public_events s)"
    by (auto simp: public_events_def read_state_def split: sum.splits)
  from t obtain s0 where s0: "normalize (doc_of f) = Inr s0" and p: "prune E s0 now = Inr s"
    by (elim transaction_Inr) auto
  have "events_inv s"
    using events.inv_reach [OF assms(1) s0] p by (rule events.I_prune)
  then have "length (ms_public_events s) \<le> 200"
    and "sorted_wrt (\<lambda>a b. event_seq a < event_seq b) (ms_public_events s)"
    by (simp_all add: events_inv_def log_ok_def maint_limits)
  then show ?thesis
    using le_trans [OF length_filter_le] by (auto simp: evs event_seq_def sorted_wrt_filter)
qed

lemma events_run:
  "case run_ops quiet_run None of Inl e \<Rightarrow> False
   | Inr f \<Rightarrow> (case public_events (exE ''e'') 6 0 f of Inl e \<Rightarrow> False | Inr (evs, g) \<Rightarrow> evs \<noteq> [])"
  by code_simp

theorem public_events_increasing_witness:
  "\<exists>f evs g. coord_reach f \<and> public_events (exE ''e'') 6 0 f = Inr (evs, g) \<and> evs \<noteq> []
     \<and> (\<forall>e. e \<in> set evs \<and> event_seq e \<le> 0 \<longleftrightarrow> False)"
proof -
  obtain f evs g where f: "run_ops quiet_run None = Inr f"
    and g: "public_events (exE ''e'') 6 0 f = Inr (evs, g)" and n: "evs \<noteq> []"
    using events_run by (auto split: sum.splits)
  from public_events_increasing [OF run_reaches [OF f] g] run_reaches [OF f] g n show ?thesis
    by (intro exI [of _ f] exI [of _ evs] exI [of _ g]) auto
qed

text \<open>
  C5: no operation but the completion of a root loses, changes or reorders an accepted message:
  the roots in the queue keep their identity, contact and text, and at most one is appended.
\<close>

theorem roots_conserved:
  assumes "prune E s now = Inr s1" and "step_of E now c s1 = Inr s'" and "\<And>xs. c \<noteq> Complete xs"
  shows "\<exists>new. map payload (ms_root_queue s') = map payload (ms_root_queue s) @ new \<and> length new \<le> 1"
  using step_payload [OF assms(2,3)] prune_payload [OF assms(1)] by simp

lemma conserved_run:
  "case prune (exE ''a'') ms_queue 9 of Inl e \<Rightarrow> False
   | Inr s1 \<Rightarrow> (case step_of (exE ''a'') 9 (EnqueueRoot ''c9'' ''z'' True) s1 of Inl e \<Rightarrow> False
       | Inr s' \<Rightarrow> length (ms_root_queue s') = 5)"
  by code_simp

theorem roots_conserved_witness:
  "\<exists>s1 s' new. prune (exE ''a'') ms_queue 9 = Inr s1
     \<and> step_of (exE ''a'') 9 (EnqueueRoot ''c9'' ''z'' True) s1 = Inr s'
     \<and> map payload (ms_root_queue s') = map payload (ms_root_queue ms_queue) @ new \<and> length new \<le> 1"
proof -
  obtain s1 s' where p: "prune (exE ''a'') ms_queue 9 = Inr s1"
    and c: "step_of (exE ''a'') 9 (EnqueueRoot ''c9'' ''z'' True) s1 = Inr s'"
    using conserved_run by (auto simp del: step_of.simps split: sum.splits)
  from roots_conserved [OF p c] p c show ?thesis by (auto simp del: step_of.simps)
qed

lemma prune_total:
  assumes "list_all is_dict (ms_notices s)"
  shows "\<exists>s1. prune E s now = Inr s1"
proof -
  have n: "ms_notices (prune_leases E (cancel_expired_drain E s now) now) = ms_notices s"
    by (simp add: prune_leases_def cancel_expired_drain_def Let_def)
  have d: "list_all is_dict (map (sweep_notice now) (ms_notices s))"
    using assms by (auto simp: list_all_iff sweep_notice_def)
  have "\<exists>ns. trim_delivered E q = Inr ns" if "list_all is_dict q" for q
    using that by (simp add: trim_delivered_def Let_def)
  from this [OF d] obtain ns where "trim_delivered E (map (sweep_notice now) (ms_notices s)) = Inr ns"
    by blast
  then show ?thesis by (simp add: prune_def Let_def n)
qed

text \<open>
  The fence fails open: new roots are accepted exactly when the phase is \<open>available\<close>, or
  when a drain has outlived its deadline, whatever became of the updater.
\<close>

theorem accepting_new_roots_iff:
  assumes "normalize (doc_of f) = Inr s" and "list_all is_dict (ms_notices s)"
  shows "\<exists>f'. accepting_new_roots E now f =
    Inr (ms_phase s = Available
         \<or> ms_phase s = Draining \<and> 0 < number (ms_deadline_at s) 0
           \<and> number (ms_deadline_at s) 0 \<le> now, f')"
proof -
  obtain s1 where p: "prune E s now = Inr s1" using prune_total [OF assms(2)] by blast
  have ph: "ms_phase s1 = (if ms_phase s = Draining \<and> 0 < number (ms_deadline_at s) 0
       \<and> number (ms_deadline_at s) 0 \<le> now then Available else ms_phase s)"
    using prune_InrD(2) [OF p] by (simp add: cancel_expired_drain_def Let_def)
  have "\<exists>f'. read_state E now f = Inr (s1, f')"
    using assms(1) p by (simp add: read_state_def transaction_def doc_of_def Let_def)
  then obtain f' where "read_state E now f = Inr (s1, f')" ..
  then have "accepting_new_roots E now f = Inr (ms_phase s1 = Available, f')"
    by (simp add: accepting_new_roots_def public_status_def status_of_def Let_def)
  with ph show ?thesis by auto
qed

theorem accepting_new_roots_iff_witness:
  "\<exists>f. accepting_new_roots (exE ''a'') 50
     (Some (to_doc (ms0\<lparr>ms_phase := Draining, ms_deadline_at := PFloat 40\<rparr>))) = Inr (True, f)"
proof -
  let ?s = "ms0\<lparr>ms_phase := Draining, ms_deadline_at := PFloat 40\<rparr>"
  have "normalize (doc_of (Some (to_doc ?s))) = Inr ?s"
    by (simp add: doc_of_def normalize_to_doc wf_state_def ms0_def)
  from accepting_new_roots_iff [OF this, of "exE ''a''" 50] show ?thesis by (simp add: ms0_def)
qed

section \<open>Status\<close>

lemma sum_count_kind: "sum_list (map snd (count_kind k cs)) = Suc (sum_list (map snd cs))"
  if "distinct (map fst cs)"
proof -
  have "sum_list (map snd (AList.update k (Suc (case map_of cs k of None \<Rightarrow> 0 | Some n \<Rightarrow> n)) cs))
      = Suc (sum_list (map snd cs))"
    using that
  proof (induction cs)
    case (Cons c cs)
    obtain k' n where c: "c = (k', n)" by (cases c)
    show ?case
    proof (cases "k = k'")
      case True
      with c show ?thesis by simp
    next
      case False
      with Cons c show ?thesis by simp
    qed
  qed simp
  then show ?thesis by (simp add: count_kind_def)
qed

lemma distinct_count_kind: "distinct (map fst cs) \<Longrightarrow> distinct (map fst (count_kind k cs))"
  unfolding count_kind_def by (rule distinct_update)

lemma sum_active_by_kind:
  "distinct (map fst cs) \<Longrightarrow>
     sum_list (map snd (active_by_kind E ls cs)) = length (filter is_dict ls) + sum_list (map snd cs)"
  by (induction ls arbitrary: cs) (simp_all add: sum_count_kind distinct_count_kind)

lemma sum_update_notin:
  "map_of cs k = None \<Longrightarrow> sum_list (map snd (AList.update k n cs)) = sum_list (map snd cs) + n"
  by (induction cs) (auto split: if_splits simp: algebra_simps)

lemma active_kinds:
  "map_of (active_by_kind E ls cs) k = None \<longleftrightarrow>
     map_of cs k = None \<and> k \<notin> lease_kind E ` set (filter is_dict ls)"
  by (induction ls arbitrary: cs) (auto simp: count_kind_def update_conv')

text \<open>
  The operator's view of a drain counts each leased activity and each waiting continuation
  once, where no lease has the kind \<open>continuation_pending\<close> that the view reserves.
\<close>

theorem status_active_count:
  assumes "\<forall>l \<in> set (map snd (ms_leases s)). lease_kind E l \<noteq> ''continuation_pending''"
  shows "st_active_count (status_of E s) =
    length (filter is_dict (map snd (ms_leases s)))
    + length (filter pending_continuation (ms_root_queue s))"
proof -
  let ?cs = "active_by_kind E (map snd (ms_leases s)) []"
  have "map_of ?cs ''continuation_pending'' = None"
    using assms by (force simp: active_kinds)
  then show ?thesis
    by (auto simp: status_of_def Let_def sum_update_notin sum_active_by_kind)
qed

theorem status_active_count_witness:
  "st_active_count (status_of (exE ''a'') (ms_fenced\<lparr>ms_root_queue :=
     [PDict [(''status'', PStr ''pending''), (''continuation'', PBool True)]]\<rparr>)) = 2"
proof -
  have k: "take_cp 64 ''k'' = ''k''" by code_simp
  show ?thesis
    by (subst status_active_count) (auto simp: k ms_fenced_def lease_kind_def
        lease_doc_def dget_Cons py_or_def pending_continuation_def)
qed

lemma settles_other:
  assumes "\<forall>i \<in> set q. str_or_empty (env_repr E) (get i ''queue_id'') \<noteq> ad_queue_id adm"
  shows "filter (\<lambda>i. settles E [adm] i = None) q = q" and "settled_leases E [adm] q = []"
  using assms by (induction q) (auto simp: settles_def admission_keys_def settled_leases_def
      map_filter_def)

text \<open>
  A root that is admitted as it is queued and then completed leaves no trace: queue and
  leases are as before.
\<close>

theorem admit_complete_roundtrip:
  assumes "enqueue_root_mut E now c x True s = Inr (r, s1)" and "ms_phase s = Available"
    and "rr_admission r = Some adm" and "complete_roots_mut E [adm] s1 = Inr ((), s2)"
    and "\<forall>i \<in> set (ms_root_queue s). str_or_empty (env_repr E) (get i ''queue_id'') \<noteq> env_uid E 0"
    and "env_uid E 2 \<notin> fst ` set (ms_leases s)"
  shows "ms_root_queue s2 = ms_root_queue s \<and> ms_leases s2 = ms_leases s"
proof -
  let ?i = "PDict (root_item (env_uid E 0) c x now (ms_epoch s))"
  obtain a i1 s' where cl: "claim_root_item E 1 s ?i now = (a, i1, s')"
    by (metis prod_cases3)
  with assms(1-3) have s1: "s1 = s'\<lparr>ms_root_queue := ms_root_queue s' @ [i1]\<rparr>" and a: "adm = a"
    by (auto simp: enqueue_root_mut_def Let_def)
  have qi: "dget (root_item (env_uid E 0) c x now (ms_epoch s)) ''queue_id'' = PStr (env_uid E 0)"
    by (simp add: root_item_def dget_Cons)
  from cl have i1: "i1 = claimed_item E 1 now ?i" and q: "ms_root_queue s' = ms_root_queue s"
    and ad: "ad_claim_token a = env_uid E 1" "tk_lease_id (ad_activity a) = env_uid E 2"
      "ad_queue_id a = env_uid E 0"
    by (auto simp: numeral_2_eq_2 qi elim!: claim_root_item_cases)
  obtain L where l: "ms_leases s' = dput (env_uid E 2) L (ms_leases s)"
    using cl by (auto simp: claim_root_item_def new_lease_def Let_def root_item_def dget_Cons
        numeral_2_eq_2)
  have st: "settles E [adm] i1 = Some (env_uid E 2)"
    by (simp add: settles_def admission_keys_def i1 a ad numeral_2_eq_2 qi)
  have o: "filter (\<lambda>i. settles E [adm] i = None) (ms_root_queue s) = ms_root_queue s"
    "settled_leases E [adm] (ms_root_queue s) = []"
    using settles_other [of "ms_root_queue s" E adm] assms(5) by (simp_all add: a ad)
  have "settled_leases E [adm] (ms_root_queue s1) = [env_uid E 2]"
    using o st by (simp add: s1 q settled_leases_def map_filter_def)
  moreover have "dpop (env_uid E 2) (dput (env_uid E 2) L (ms_leases s)) = ms_leases s"
    using assms(6) by (force simp: dput_notin dpop_alt filter_id_conv)
  ultimately show ?thesis
    using assms(4) o st by (auto simp: complete_roots_mut_def s1 q l drop_leases_def)
qed

theorem admit_complete_roundtrip_witness:
  "\<exists>r adm s1 s2. enqueue_root_mut (exE ''a'') 9 ''c1'' ''hi'' True ms_queue = Inr (r, s1)
     \<and> rr_admission r = Some adm \<and> complete_roots_mut (exE ''a'') [adm] s1 = Inr ((), s2)
     \<and> ms_root_queue s2 = ms_root_queue ms_queue \<and> ms_leases s2 = []"
proof -
  have "case enqueue_root_mut (exE ''a'') 9 ''c1'' ''hi'' True ms_queue of Inl e \<Rightarrow> False
     | Inr (r, s1) \<Rightarrow> rr_admission r \<noteq> None" by code_simp
  then obtain r s1 where "rr_admission r \<noteq> None"
    and e: "enqueue_root_mut (exE ''a'') 9 ''c1'' ''hi'' True ms_queue = Inr (r, s1)"
    by (rule result_cases) blast
  then obtain adm where a: "rr_admission r = Some adm" by blast
  obtain s2 where c: "complete_roots_mut (exE ''a'') [adm] s1 = Inr ((), s2)"
    by (simp add: complete_roots_mut_def)
  have p: "ms_phase ms_queue = Available" by (simp add: ms_queue_def ms0_def)
  have q: "\<forall>i \<in> set (ms_root_queue ms_queue).
      str_or_empty (env_repr (exE ''a'')) (get i ''queue_id'') \<noteq> env_uid (exE ''a'') 0"
    by (simp add: ms_queue_def root_item_def dget_Cons exE_def)
  have l: "env_uid (exE ''a'') 2 \<notin> fst ` set (ms_leases ms_queue)"
    by (simp add: ms_queue_def ms0_def)
  from admit_complete_roundtrip [OF e p a c q l] e a c show ?thesis
    by (intro exI [of _ r] exI [of _ adm] exI [of _ s1] exI [of _ s2])
      (simp add: ms_queue_def ms0_def)
qed

end
