(* ===== verification/Store.thy ===== *)
theory Store
  imports PyValue
begin

text \<open>
  Documents on disk: \<open>d.update(e)\<close> on dictionaries, and the contract between a module that
  keeps its state in one JSON document and the code that reads it back. The document of
  \<open>core/state_store.py\<close> is read whole, changed in memory and replaced whole under the file
  lock; a module supplies the normalisation it reads with and the form it writes.
\<close>

text \<open>\<open>d.update(e)\<close>.\<close>

definition dict_update :: "dict \<Rightarrow> dict \<Rightarrow> dict" where
  "dict_update d e = foldl (\<lambda>acc kv. dput (fst kv) (snd kv) acc) d e"

lemma dict_update_nil [simp]: "dict_update d [] = d"
  by (simp add: dict_update_def)

lemma dict_update_Cons [simp]: "dict_update d (kv # e) = dict_update (dput (fst kv) (snd kv) d) e"
  by (simp add: dict_update_def)

lemma distinct_dict_update: "distinct (map fst d) \<Longrightarrow> distinct (map fst (dict_update d e))"
  by (induction e arbitrary: d) (simp_all add: distinct_dput)

lemma map_of_dict_update:
  assumes "distinct (map fst e)"
  shows "map_of (dict_update d e) k = (case map_of e k of None \<Rightarrow> map_of d k | Some v \<Rightarrow> Some v)"
  using assms
proof (induction e arbitrary: d)
  case (Cons kv e)
  obtain k' v where kv: "kv = (k', v)" by (cases kv)
  with Cons.prems have "map_of e k' = None" by (simp add: map_of_eq_None_iff)
  with Cons kv show ?case by (auto split: option.splits)
qed simp

lemma keys_dict_update: "fst ` set (dict_update d e) = fst ` set d \<union> fst ` set e"
  by (induction e arbitrary: d) (auto simp: keys_dput)

lemma dget_dict_update:
  assumes "distinct (map fst e)"
  shows "dget (dict_update d e) k = (if map_of e k = None then dget d k else dget e k)"
  by (simp add: dget_def map_of_dict_update [OF assms] split: option.splits)

text \<open>
  A store of documents: what is loaded is well formed, and a well-formed state that has been
  saved is read back with the same fields.
\<close>

locale document_store =
  fixes load :: "'w \<Rightarrow> 's"
    and save :: "'s \<Rightarrow> 'w \<Rightarrow> 'w"
    and wf :: "'s \<Rightarrow> bool"
    and field :: "'s \<Rightarrow> string \<Rightarrow> pyv"
  assumes load_wf: "wf (load w)"
    and load_save: "wf s \<Longrightarrow> field (load (save s w)) k = field s k"
begin

text \<open>A change that keeps the state well formed is what the next reader sees.\<close>

lemma read_own_write:
  assumes "\<And>s. wf s \<Longrightarrow> wf (f s)"
  shows "field (load (save (f (load w)) w)) k = field (f (load w)) k"
  using assms load_wf by (blast intro: load_save)

text \<open>A field no change touches is still there after any sequence of changes.\<close>

lemma untouched_field:
  assumes "\<And>f s. f \<in> set fs \<Longrightarrow> wf s \<Longrightarrow> wf (f s) \<and> field (f s) k = field s k"
  shows "field (load (fold (\<lambda>f w. save (f (load w)) w) fs w)) k = field (load w) k"
  using assms
proof (induction fs arbitrary: w)
  case (Cons f fs)
  have "field (load (fold (\<lambda>f w. save (f (load w)) w) fs (save (f (load w)) w))) k
      = field (load (save (f (load w)) w)) k"
    using Cons.prems by (intro Cons.IH) auto
  also have "\<dots> = field (load w) k"
    using Cons.prems load_wf by (simp add: load_save)
  finally show ?case by simp
qed simp

end

end
