(* ===== verification/Trust.thy ===== *)
theory Trust
  imports Store "HOL-Library.List_Lexorder" "HOL-Library.Char_ord"
begin

text \<open>
  The trust policy cache of \<open>core/trust.py\<close>, with the projection of a policy on the local
  contacts (\<open>apply_glass_trust_policy\<close> of \<open>core/interface.py\<close>).

  Glass, the remote authority, is a parameter: \<open>tw_net\<close> answers a request in a world and
  returns the world the answer is read in, so whatever other processes do to the files while
  a request is in flight is part of it. The world holds the policy document as stored
  (\<open>None\<close>: absent or unreadable), the local contacts and the clock.
\<close>

section \<open>Constants\<close>

definition VALID_LEVELS :: "string list" where
  "VALID_LEVELS = [''very_low'', ''low'', ''ok'', ''high'', ''very_high'', ''ultimate'']"

definition VALID_KINDS :: "string list" where
  "VALID_KINDS = [''carbon'', ''silicon'']"

definition VALID_SOURCES :: "string list" where
  "VALID_SOURCES = [''central_carbon'', ''silicon_override'', ''team_base'', ''default'']"

definition MAX_POLICY_ENTRIES :: nat where "MAX_POLICY_ENTRIES = 10000"
definition MAX_TARGET_NAME_BYTES :: nat where "MAX_TARGET_NAME_BYTES = 512"

text \<open>\<open>ID_RE.fullmatch\<close>: a letter or digit, then up to 159 letters, digits, dots, underscores or dashes.\<close>

definition valid_id :: "string \<Rightarrow> bool" where
  "valid_id s \<longleftrightarrow>
     (case s of
        [] \<Rightarrow> False
      | c # cs \<Rightarrow> is_alnum c \<and> length cs \<le> 159
          \<and> list_all (\<lambda>d. is_alnum d \<or> d \<in> set ''._-'') cs)"

fun is_level :: "pyv \<Rightarrow> bool" where
  "is_level (PStr s) = (s \<in> set VALID_LEVELS)"
| "is_level v = False"

definition trust_error :: "string \<Rightarrow> pyerr" where
  "trust_error msg = OtherError ''TrustSyncError'' msg"

section \<open>The world\<close>

record response =
  rs_status :: int
  rs_body :: "pyv result"
  rs_content :: bool
  rs_etag :: string

record tworld =
  tw_file :: "pyv option"
  tw_contacts :: dict
  tw_clock :: rat

text \<open>
  What the module takes from outside: \<open>repr\<close>, the text of an exception, the time stamp put on
  a changed contact, a fresh \<open>uuid4\<close>, and the answer of Glass to a method, a path, the request
  headers and a body.
\<close>

record tenv =
  te_repr :: "pyv \<Rightarrow> string"
  te_text :: "pyerr \<Rightarrow> string"
  te_iso :: string
  te_uuid :: string
  te_net :: "string \<Rightarrow> string \<Rightarrow> dict \<Rightarrow> pyv \<Rightarrow> tworld \<Rightarrow> response result \<times> tworld"

section \<open>The stored document\<close>

definition trust_default :: dict where
  "trust_default =
     [(''version'', PInt 1), (''etag'', PStr []), (''source_silicon_id'', PStr []),
      (''team_revision'', PInt 0), (''silicon_revision'', PInt 0), (''revision'', PStr ''0:0''),
      (''server_bootstrapped'', PBool False), (''entries'', PDict []),
      (''last_confirmed_at'', PInt 0), (''last_error'', PStr []),
      (''pending_team_revision'', PInt 0), (''pending_silicon_revision'', PInt 0),
      (''invalidated_at'', PInt 0)]"

definition trust_normalise :: "pyv \<Rightarrow> dict" where
  "trust_normalise raw =
     (case raw of
        PDict d \<Rightarrow>
          (if \<not> py_eq (dget d ''version'') (PInt 1) then trust_default
           else let s = dict_update trust_default d
                in if is_dict (dget s ''entries'') then s else dput ''entries'' (PDict []) s)
      | _ \<Rightarrow> trust_default)"

definition trust_load :: "tworld \<Rightarrow> dict" where
  "trust_load w =
     trust_normalise (case tw_file w of None \<Rightarrow> PDict trust_default | Some d \<Rightarrow> d)"

definition trust_save :: "dict \<Rightarrow> tworld \<Rightarrow> tworld" where
  "trust_save s w = w\<lparr>tw_file := Some (PDict (dput ''version'' (PInt 1) s))\<rparr>"

text \<open>\<open>_update_state\<close>: under the file lock, so one step. It returns the state it saved.\<close>

definition trust_update :: "(dict \<Rightarrow> dict) \<Rightarrow> tworld \<Rightarrow> dict \<times> tworld" where
  "trust_update f w =
     (let s = dput ''version'' (PInt 1) (f (trust_load w)) in (s, trust_save s w))"

definition trust_key :: "string \<Rightarrow> string \<Rightarrow> string" where
  "trust_key kind public_id = kind @ '':'' @ public_id"

definition nonnegative_int :: "pyv \<Rightarrow> int" where
  "nonnegative_int v = (case py_int (py_or v (PInt 0)) of Inl e \<Rightarrow> 0 | Inr i \<Rightarrow> max 0 i)"

definition nonnegative_float :: "pyv \<Rightarrow> rat" where
  "nonnegative_float v = (case py_float (py_or v (PInt 0)) of Inl e \<Rightarrow> 0 | Inr r \<Rightarrow> max 0 r)"

section \<open>Names\<close>

text \<open>
  The whole code points that fit in \<open>n\<close> bytes: what decoding the first \<open>n\<close> bytes of valid
  UTF-8 and ignoring an incomplete last code point leaves.
\<close>

definition cp_size :: "char \<Rightarrow> nat" where
  "cp_size c =
     (let b = (of_char c :: nat)
      in if b < 192 then 1 else if b < 224 then 2 else if b < 240 then 3 else 4)"

lemma cp_size_pos [simp]: "0 < cp_size c"
  by (simp add: cp_size_def Let_def)

function utf8_prefix :: "nat \<Rightarrow> string \<Rightarrow> string" where
  "utf8_prefix n [] = []"
| "utf8_prefix n (c # cs) =
     (if cp_size c \<le> n
      then c # take (cp_size c - 1) cs @ utf8_prefix (n - cp_size c) (drop (cp_size c - 1) cs)
      else [])"
  by pat_completeness auto
termination by (relation "measure (\<lambda>(n, s). length s)") auto

definition ellipsis :: string where
  "ellipsis = [char_of (226::nat), char_of (128::nat), char_of (166::nat)]"

definition one_line_name :: "tenv \<Rightarrow> pyv \<Rightarrow> string" where
  "one_line_name T value =
     (let text = py_join '' ''
            (split_ws (replace_char (char_of (0::nat)) [] (str_or_empty (te_repr T) value)))
      in if length text \<le> MAX_TARGET_NAME_BYTES then text
         else rstrip (utf8_prefix MAX_TARGET_NAME_BYTES text) @ ellipsis)"

section \<open>Validation\<close>

definition validate_entry :: "tenv \<Rightarrow> pyv \<Rightarrow> (string \<times> pyv) result" where
  "validate_entry T raw =
     (if \<not> is_dict raw then Inl (trust_error ''Glass returned an invalid trust entry.'')
      else if \<not> is_dict (get raw ''target'')
      then Inl (trust_error ''Glass returned an invalid typed trust target.'')
      else
        let target = get raw ''target'';
            kind = str_or_empty (te_repr T) (get target ''kind'');
            public_id = str_or_empty (te_repr T) (get target ''id'');
            level = str_or_empty (te_repr T) (get raw ''effective_level'');
            source_label = str_or_empty (te_repr T) (get raw ''effective_source'');
            base_level = get raw ''base_level'';
            override_level = get raw ''override_level''
        in if kind \<notin> set VALID_KINDS \<or> \<not> valid_id public_id \<or> level \<notin> set VALID_LEVELS
              \<or> source_label \<notin> set VALID_SOURCES
           then Inl (trust_error ''Glass returned an invalid typed trust target.'')
           else if base_level \<noteq> PNone \<and> \<not> is_level base_level
           then Inl (trust_error ''Glass returned an invalid base trust value.'')
           else if override_level \<noteq> PNone \<and> \<not> is_level override_level
           then Inl (trust_error ''Glass returned an invalid trust override.'')
           else (case py_int (py_or (get raw ''override_revision'') (PInt 0)) of
                   Inl e \<Rightarrow> Inl (trust_error ''Glass returned an invalid override revision.'')
                 | Inr revision \<Rightarrow> Inr (trust_key kind public_id, PDict
                     [(''kind'', PStr kind), (''id'', PStr public_id),
                      (''name'', PStr (one_line_name T (py_or (get target ''name'') (PStr public_id)))),
                      (''level'', PStr level), (''source'', PStr source_label),
                      (''base_level'', base_level), (''override_level'', override_level),
                      (''override_revision'', PInt (max 0 revision)),
                      (''central_carbon'', PBool (truthy (get raw ''central_carbon'')))])))"

fun validate_entries :: "tenv \<Rightarrow> pyv list \<Rightarrow> dict \<Rightarrow> dict result" where
  "validate_entries T [] entries = Inr entries"
| "validate_entries T (raw # rest) entries =
     (case validate_entry T raw of
        Inl e \<Rightarrow> Inl e
      | Inr (k, v) \<Rightarrow> validate_entries T rest (dput k v entries))"

definition revision_text :: "int \<Rightarrow> int \<Rightarrow> string" where
  "revision_text team silicon = show_int team @ '':'' @ show_int silicon"

definition validate_policy :: "tenv \<Rightarrow> pyv \<Rightarrow> dict result" where
  "validate_policy T payload =
     (if \<not> is_dict payload then Inl (trust_error ''Glass returned an invalid trust policy.'')
      else let source = get payload ''source_silicon'';
               source_id = str_or_empty (te_repr T) (get source ''id'')
        in if \<not> is_dict source \<or> \<not> valid_id source_id
           then Inl (trust_error ''Glass returned an invalid source Silicon identity.'')
           else (case (py_int (get payload ''team_revision''), py_int (get payload ''silicon_revision'')) of
                   (Inr team, Inr silicon) \<Rightarrow>
                     (if team < 0 \<or> silicon < 0
                      then Inl (trust_error ''Glass returned invalid trust revisions.'')
                      else (case get payload ''entries'' of
                              PList raws \<Rightarrow>
                                (if length raws > MAX_POLICY_ENTRIES
                                 then Inl (trust_error ''Glass returned too many trust entries.'')
                                 else (case validate_entries T raws [] of
                                         Inl e \<Rightarrow> Inl e
                                       | Inr entries \<Rightarrow> Inr
                                           [(''source_silicon_id'', PStr source_id),
                                            (''team_revision'', PInt team),
                                            (''silicon_revision'', PInt silicon),
                                            (''revision'', PStr (revision_text team silicon)),
                                            (''entries'', PDict entries)]))
                            | _ \<Rightarrow> Inl (trust_error ''Glass returned invalid trust entries.'')))
                 | _ \<Rightarrow> Inl (trust_error ''Glass returned invalid trust revisions.'')))"

section \<open>Revisions\<close>

definition pending_revision_is_newer :: "dict \<Rightarrow> bool" where
  "pending_revision_is_newer s \<longleftrightarrow>
     nonnegative_int (dget s ''pending_team_revision'') > nonnegative_int (dget s ''team_revision'')
     \<or> nonnegative_int (dget s ''pending_silicon_revision'')
         > nonnegative_int (dget s ''silicon_revision'')"

text \<open>Both values are dropped when either is not a number.\<close>

definition advertised :: "pyv \<Rightarrow> pyv \<Rightarrow> int \<times> int" where
  "advertised team silicon =
     (case (py_int (py_or team (PInt 0)), py_int (py_or silicon (PInt 0))) of
        (Inr t, Inr s) \<Rightarrow> (max 0 t, max 0 s)
      | _ \<Rightarrow> (0, 0))"

definition mark_trust_policy_invalidated :: "pyv \<Rightarrow> pyv \<Rightarrow> tworld \<Rightarrow> dict \<times> tworld" where
  "mark_trust_policy_invalidated team_revision silicon_revision w =
     (let (team, silicon) = advertised team_revision silicon_revision
      in trust_update (\<lambda>s.
           dput ''invalidated_at'' (PFloat (tw_clock w))
             (dput ''pending_silicon_revision''
                (PInt (max (nonnegative_int (dget s ''pending_silicon_revision'')) silicon))
                (dput ''pending_team_revision''
                  (PInt (max (nonnegative_int (dget s ''pending_team_revision'')) team)) s))) w)"

section \<open>Local contacts\<close>

text \<open>\<open>_normalize_contact_type\<close> of the contact's \<open>contact_type\<close>.\<close>

definition contact_kind :: "tenv \<Rightarrow> pyv \<Rightarrow> string" where
  "contact_kind T contact_type =
     (if py_contains ''silicon'' (lower (str_or_empty (te_repr T) contact_type)) then ''silicon''
      else ''carbon'')"

definition policy_level :: "tenv \<Rightarrow> pyv \<Rightarrow> string" where
  "policy_level T policy =
     (let level = (if is_dict policy then str_or_empty (te_repr T) (get policy ''level'')
                   else ''very_low'')
      in if level \<in> set VALID_LEVELS then level else ''very_low'')"

definition policy_source :: "tenv \<Rightarrow> pyv \<Rightarrow> string" where
  "policy_source T policy =
     (if is_dict policy then py_str (te_repr T) (py_or (get policy ''source'') (PStr ''glass''))
      else ''glass_default'')"

definition contact_policy :: "tenv \<Rightarrow> dict \<Rightarrow> string \<Rightarrow> pyv \<Rightarrow> pyv" where
  "contact_policy T entries fixed_id contact =
     dget entries (trust_key (contact_kind T
       (dget_or (dict_items contact) ''contact_type'' (PStr ''carbon''))) fixed_id)"

text \<open>\<open>if contact.get(k) != v: contact[k] = v\<close>.\<close>

definition set_if_changed :: "string \<Rightarrow> pyv \<Rightarrow> pyv \<Rightarrow> pyv" where
  "set_if_changed k v contact = (if get contact k \<noteq> v then put k v contact else contact)"

definition project_contact :: "tenv \<Rightarrow> dict \<Rightarrow> string \<Rightarrow> pyv \<Rightarrow> pyv \<times> bool" where
  "project_contact T entries fixed_id contact =
     (if \<not> is_dict contact then (contact, False)
      else let kind = contact_kind T (dget_or (dict_items contact) ''contact_type'' (PStr ''carbon''));
               policy = contact_policy T entries fixed_id contact;
               level = PStr (policy_level T policy);
               source = PStr (policy_source T policy);
               central = (kind = ''carbon'' \<and> is_dict policy \<and> truthy (get policy ''central_carbon''));
               recolour = (truthy (get contact ''is_central_carbon'') \<noteq> central);
               c2 = set_if_changed ''trust_source'' source (set_if_changed ''trust_level'' level contact);
               c3 = (if recolour then put ''is_central_carbon'' (PBool central) c2 else c2);
               changed = (get contact ''trust_level'' \<noteq> level \<or> get contact ''trust_source'' \<noteq> source
                          \<or> recolour)
           in (if changed then put ''updated_at'' (PStr (te_iso T)) c3 else c3, changed))"

text \<open>The document is written only when a contact changed, so the projection is one map.\<close>

definition apply_glass_trust_policy :: "tenv \<Rightarrow> pyv \<Rightarrow> tworld \<Rightarrow> nat \<times> tworld" where
  "apply_glass_trust_policy T entries w =
     (case entries of
        PDict d \<Rightarrow>
          (let projected = map (\<lambda>(k, c). (k, project_contact T d k c)) (tw_contacts w)
           in (length (filter (\<lambda>(k, c, ch). ch) projected),
               w\<lparr>tw_contacts := map (\<lambda>(k, c, ch). (k, c)) projected\<rparr>))
      | _ \<Rightarrow> (0, w))"

section \<open>Reconciliation\<close>

definition confirm :: "dict \<Rightarrow> string \<Rightarrow> bool \<Rightarrow> rat \<Rightarrow> dict \<Rightarrow> dict" where
  "confirm validated etag bootstrapped now s =
     (let s1 = dict_update s validated;
          s2 = dput ''last_error'' (PStr []) (dput ''last_confirmed_at'' (PFloat now)
                 (dput ''server_bootstrapped'' (PBool bootstrapped) (dput ''etag'' (PStr etag) s1)))
      in if pending_revision_is_newer s2 then s2
         else dput ''invalidated_at'' (PInt 0) (dput ''pending_silicon_revision'' (PInt 0)
                (dput ''pending_team_revision'' (PInt 0) s2)))"

definition apply_confirmed_policy ::
  "tenv \<Rightarrow> pyv \<Rightarrow> string \<Rightarrow> tworld \<Rightarrow> dict result \<times> tworld" where
  "apply_confirmed_policy T payload etag w =
     (case validate_policy T payload of
        Inl e \<Rightarrow> (Inl e, w)
      | Inr validated \<Rightarrow>
          (let (changed, w1) = apply_glass_trust_policy T (dget validated ''entries'') w;
               (s, w2) = trust_update (confirm validated etag True (tw_clock w1)) w1
           in (Inr ((''changed_contacts'', PInt (int changed)) # validated), w2)))"

definition trust_ack :: "tenv \<Rightarrow> dict \<Rightarrow> tworld \<Rightarrow> unit result \<times> tworld" where
  "trust_ack T policy w =
     (case te_net T ''POST'' ''/api/v1/silicons/me/trust-ack'' []
             (PDict [(''team_revision'', dget policy ''team_revision''),
                     (''silicon_revision'', dget policy ''silicon_revision'')]) w of
        (Inl e, w1) \<Rightarrow> (Inl e, w1)
      | (Inr r, w1) \<Rightarrow>
          (if rs_status r \<noteq> 200
           then (Inl (trust_error ''Glass did not accept the trust-policy acknowledgement.''), w1)
           else (Inr (), w1)))"

definition conditional_headers :: "bool \<Rightarrow> dict \<Rightarrow> dict" where
  "conditional_headers force s =
     (if truthy (dget s ''etag'') \<and> \<not> force then [(''If-None-Match'', dget s ''etag'')] else [])"

text \<open>The body of the \<open>try\<close>: the outcome, or the exception that was raised.\<close>

definition bootstrap_policy ::
  "tenv \<Rightarrow> string \<Rightarrow> tworld \<Rightarrow> dict result \<times> tworld" where
  "bootstrap_policy T reason w =
     (case te_net T ''POST'' ''/api/v1/silicons/me/trust-bootstrap'' []
             (PDict [(''contacts'', PList [])]) w of
        (Inl e, w1) \<Rightarrow> (Inl e, w1)
      | (Inr r, w1) \<Rightarrow>
          (if rs_status r \<noteq> 200
           then (Inl (trust_error ''Glass did not accept the trust bootstrap.''), w1)
           else (case rs_body r of
                   Inl e \<Rightarrow> (Inl e, w1)
                 | Inr b \<Rightarrow>
                     (let body = py_or b (PDict [])
                      in if \<not> is_dict body then (Inl (AttributeError ''get''), w1)
                         else (case apply_confirmed_policy T (get body ''policy'') [] w1 of
                                 (Inl e, w2) \<Rightarrow> (Inl e, w2)
                               | (Inr result, w2) \<Rightarrow>
                                   (case trust_ack T result w2 of
                                      (Inl e, w3) \<Rightarrow> (Inl e, w3)
                                    | (Inr u, w3) \<Rightarrow>
                                        (Inr ([(''status'', PStr ''updated''),
                                               (''reason'', PStr reason)] @ result), w3)))))))"

definition unchanged_policy :: "tenv \<Rightarrow> string \<Rightarrow> tworld \<Rightarrow> dict result \<times> tworld" where
  "unchanged_policy T reason w =
     (let s = trust_load w
      in if pending_revision_is_newer s
         then (Inl (trust_error
                 ''Glass returned an unchanged policy while a newer revision is pending.''), w)
         else let (changed, w1) = apply_glass_trust_policy T (dget s ''entries'') w;
                  (s1, w2) = trust_update (\<lambda>c. dput ''last_error'' (PStr [])
                               (dput ''last_confirmed_at'' (PFloat (tw_clock w1)) c)) w1
              in (case trust_ack T s w2 of
                    (Inl e, w3) \<Rightarrow> (Inl e, w3)
                  | (Inr u, w3) \<Rightarrow>
                      (Inr [(''status'', PStr ''unchanged''), (''reason'', PStr reason),
                            (''changed_contacts'', PInt (int changed)),
                            (''revision'', dget_or s ''revision'' (PStr ''0:0''))], w3)))"

definition reconcile_try :: "tenv \<Rightarrow> bool \<Rightarrow> string \<Rightarrow> tworld \<Rightarrow> dict result \<times> tworld" where
  "reconcile_try T force reason w =
     (let s = trust_load w
      in if \<not> truthy (dget s ''server_bootstrapped'') then bootstrap_policy T reason w
         else (case te_net T ''GET'' ''/api/v1/silicons/me/trust-policy''
                      (conditional_headers force s) PNone w of
                 (Inl e, w1) \<Rightarrow> (Inl e, w1)
               | (Inr r, w1) \<Rightarrow>
                   (if rs_status r = 304 then unchanged_policy T reason w1
                    else if rs_status r \<noteq> 200
                    then (Inl (trust_error ''Glass trust policy is temporarily unavailable.''), w1)
                    else (case rs_body r of
                            Inl e \<Rightarrow> (Inl e, w1)
                          | Inr b \<Rightarrow>
                              (case apply_confirmed_policy T b (rs_etag r) w1 of
                                 (Inl e, w2) \<Rightarrow> (Inl e, w2)
                               | (Inr result, w2) \<Rightarrow>
                                   (case trust_ack T result w2 of
                                      (Inl e, w3) \<Rightarrow> (Inl e, w3)
                                    | (Inr u, w3) \<Rightarrow>
                                        (Inr ([(''status'', PStr ''updated''),
                                               (''reason'', PStr reason)] @ result), w3)))))))"

definition reconcile_trust_policy :: "tenv \<Rightarrow> bool \<Rightarrow> string \<Rightarrow> tworld \<Rightarrow> dict \<times> tworld" where
  "reconcile_trust_policy T force reason w =
     (case reconcile_try T force reason w of
        (Inr outcome, w1) \<Rightarrow> (outcome, w1)
      | (Inl e, w1) \<Rightarrow>
          (let text = take_cp 300 (te_text T e);
               (s, w2) = trust_update (dput ''last_error'' (PStr text)) w1
           in ([(''status'', PStr ''deferred''), (''reason'', PStr reason), (''error'', PStr text),
                (''revision'', dget_or s ''revision'' (PStr ''0:0''))], w2)))"

section \<open>Reading the confirmed policy\<close>

definition has_confirmed_state :: "dict \<Rightarrow> bool" where
  "has_confirmed_state s \<longleftrightarrow>
     truthy (dget s ''server_bootstrapped'') \<and> nonnegative_float (dget s ''last_confirmed_at'') > 0"

definition has_current_state :: "dict \<Rightarrow> bool" where
  "has_current_state s \<longleftrightarrow> has_confirmed_state s \<and> \<not> pending_revision_is_newer s"

definition has_confirmed_policy :: "tworld \<Rightarrow> bool" where
  "has_confirmed_policy w = has_confirmed_state (trust_load w)"

definition level_or_none :: "pyv \<Rightarrow> pyv" where
  "level_or_none v = (if is_level v then v else PNone)"

definition cached_entry_from_state :: "tenv \<Rightarrow> dict \<Rightarrow> string \<Rightarrow> string \<Rightarrow> dict" where
  "cached_entry_from_state T s kind public_id =
     (let entry = dget (dict_items (dget s ''entries'')) (trust_key kind public_id);
          level = str_or_empty (te_repr T) (get entry ''level'');
          source = str_or_empty (te_repr T) (get entry ''source'')
      in if \<not> is_dict entry \<or> level \<notin> set VALID_LEVELS \<or> source \<notin> set VALID_SOURCES then []
         else [(''kind'', PStr kind), (''id'', PStr public_id),
               (''name'', PStr (one_line_name T (py_or (get entry ''name'') (PStr public_id)))),
               (''level'', PStr level), (''source'', PStr source),
               (''base_level'', level_or_none (get entry ''base_level'')),
               (''override_level'', level_or_none (get entry ''override_level'')),
               (''override_revision'', PInt (nonnegative_int (get entry ''override_revision''))),
               (''central_carbon'', PBool (truthy (get entry ''central_carbon'')))])"

definition cached_trust_entry :: "tenv \<Rightarrow> string \<Rightarrow> string \<Rightarrow> tworld \<Rightarrow> dict" where
  "cached_trust_entry T kind public_id w =
     (if kind \<notin> set VALID_KINDS \<or> \<not> valid_id public_id then []
      else if \<not> has_confirmed_state (trust_load w) then []
      else cached_entry_from_state T (trust_load w) kind public_id)"

definition cached_trust_level :: "tenv \<Rightarrow> string \<Rightarrow> string \<Rightarrow> tworld \<Rightarrow> string" where
  "cached_trust_level T kind public_id w =
     (let level = str_or_empty (te_repr T) (dget (cached_trust_entry T kind public_id w) ''level'')
      in if level \<in> set VALID_LEVELS then level else ''very_low'')"

definition snapshot_entries :: "tenv \<Rightarrow> dict \<Rightarrow> dict list" where
  "snapshot_entries T s =
     (let entries = dict_items (dget s ''entries'')
      in filter (\<lambda>e. e \<noteq> [])
           (map (\<lambda>key. let raw = dget entries key
                      in if \<not> is_dict raw then []
                         else cached_entry_from_state T s
                                (str_or_empty (te_repr T) (get raw ''kind''))
                                (str_or_empty (te_repr T) (get raw ''id'')))
             (sort (map fst entries))))"

record trust_snapshot =
  sn_status :: string
  sn_source_silicon_id :: string
  sn_team_revision :: int
  sn_silicon_revision :: int
  sn_revision :: string
  sn_last_confirmed_at :: rat
  sn_entries :: "dict list"
  sn_refresh :: "(pyv \<times> string) option"

definition confirmed_trust_policy_snapshot :: "tenv \<Rightarrow> tworld \<Rightarrow> trust_snapshot" where
  "confirmed_trust_policy_snapshot T w =
     (let s = trust_load w
      in \<lparr>sn_status = (if has_current_state s then ''current''
                       else if pending_revision_is_newer s then ''refresh_pending''
                       else ''unavailable''),
          sn_source_silicon_id = str_or_empty (te_repr T) (dget s ''source_silicon_id''),
          sn_team_revision = nonnegative_int (dget s ''team_revision''),
          sn_silicon_revision = nonnegative_int (dget s ''silicon_revision''),
          sn_revision = py_str (te_repr T) (py_or (dget s ''revision'') (PStr ''0:0'')),
          sn_last_confirmed_at = nonnegative_float (dget s ''last_confirmed_at''),
          sn_entries = (if has_confirmed_state s then snapshot_entries T s else []),
          sn_refresh = None\<rparr>)"

definition inspect_trust_policy ::
  "tenv \<Rightarrow> string \<Rightarrow> string \<Rightarrow> bool \<Rightarrow> tworld \<Rightarrow> trust_snapshot result \<times> tworld" where
  "inspect_trust_policy T kind public_id refresh w =
     (let (refreshed, w1) = (if refresh
             then (case reconcile_trust_policy T True ''manager-inspection'' w of
                     (r, w') \<Rightarrow> (Some r, w'))
             else (None, w));
          snapshot = confirmed_trust_policy_snapshot T w1
      in if (kind \<noteq> [] \<or> public_id \<noteq> []) \<and> (kind \<notin> set VALID_KINDS \<or> \<not> valid_id public_id)
         then (Inl (ValueError ''A valid typed trust target is required.''), w1)
         else let entries = (if kind \<noteq> [] \<or> public_id \<noteq> []
                    then filter (\<lambda>e. dget e ''kind'' = PStr kind \<and> dget e ''id'' = PStr public_id)
                           (sn_entries snapshot)
                    else sn_entries snapshot)
              in (Inr (snapshot\<lparr>sn_entries := entries,
                     sn_refresh := map_option (\<lambda>r.
                       (dget_or r ''status'' (PStr []),
                        if truthy (dget r ''error'')
                        then take_cp 300 (py_str (te_repr T) (dget r ''error'')) else [])) refreshed\<rparr>),
                  w1))"

section \<open>Changing a trust level\<close>

definition not_current_error :: pyerr where
  "not_current_error = trust_error ''Glass trust policy is not current; no trust change was made.''"

definition override_revision_of :: "dict \<Rightarrow> string \<Rightarrow> string \<Rightarrow> int result" where
  "override_revision_of s kind public_id =
     (let entry = dget_or (dict_items (dget s ''entries'')) (trust_key kind public_id) (PDict [])
      in if is_dict entry then py_int (py_or (get entry ''override_revision'') (PInt 0)) else Inr 0)"

text \<open>The request and what becomes of its answer, once the cached policy is known to be current.\<close>

definition send_override ::
  "tenv \<Rightarrow> string \<Rightarrow> string \<Rightarrow> string option \<Rightarrow> string \<Rightarrow> string \<Rightarrow> tworld \<Rightarrow> dict result \<times> tworld"
  where
  "send_override T kind public_id level reason initiated_by w =
     (case override_revision_of (trust_load w) kind public_id of
        Inl e \<Rightarrow> (Inl e, w)
      | Inr expected \<Rightarrow>
          (case te_net T ''PATCH'' ''/api/v1/silicons/me/trust-overrides'' []
                  (PDict [(''target_kind'', PStr kind), (''target_id'', PStr public_id),
                          (''level'', case level of None \<Rightarrow> PNone | Some l \<Rightarrow> PStr l),
                          (''expected_revision'', PInt expected),
                          (''reason'', PStr (take_cp 500 reason)),
                          (''initiated_by_carbon_id'', PStr initiated_by),
                          (''operation_id'', PStr (te_uuid T))]) w of
             (Inl e, w1) \<Rightarrow> (Inl e, w1)
           | (Inr r, w1) \<Rightarrow>
               (case (if rs_content r then rs_body r else Inr (PDict [])) of
                  Inl e \<Rightarrow> (Inl e, w1)
                | Inr body \<Rightarrow>
                    let refuse = (\<lambda>text. if is_dict body
                            then trust_error (py_str (te_repr T) (py_or (get body ''detail'') (PStr text)))
                            else AttributeError ''get'')
                    in if rs_status r = 409
                       then (if is_dict body \<and> is_dict (get body ''policy'')
                             then (case apply_confirmed_policy T (get body ''policy'') [] w1 of
                                     (Inl e, w2) \<Rightarrow> (Inl e, w2)
                                   | (Inr result, w2) \<Rightarrow>
                                       (Inl (refuse ''Trust changed in Glass; refresh and retry.''), w2))
                             else (Inl (refuse ''Trust changed in Glass; refresh and retry.''), w1))
                       else if rs_status r \<noteq> 200
                       then (Inl (refuse ''Glass did not accept the trust change.''), w1)
                       else (case apply_confirmed_policy T body [] w1 of
                               (Inl e, w2) \<Rightarrow> (Inl e, w2)
                             | (Inr result, w2) \<Rightarrow>
                                 (case trust_ack T result w2 of
                                    (Inl e, w3) \<Rightarrow> (Inl e, w3)
                                  | (Inr u, w3) \<Rightarrow>
                                      (Inr [(''status'', PStr ''updated''),
                                            (''target'', PStr (trust_key kind public_id)),
                                            (''level'', PStr (cached_trust_level T kind public_id w3)),
                                            (''revision'', dget result ''revision'')], w3))))))"

definition set_contact_trust ::
  "tenv \<Rightarrow> string \<Rightarrow> string \<Rightarrow> string option \<Rightarrow> string \<Rightarrow> string \<Rightarrow> tworld \<Rightarrow> dict result \<times> tworld"
  where
  "set_contact_trust T kind public_id level reason initiated_by w =
     (if kind \<notin> set VALID_KINDS then (Inl (ValueError ''kind must be carbon or silicon''), w)
      else if \<not> valid_id public_id then (Inl (ValueError ''invalid target identity''), w)
      else if (case level of None \<Rightarrow> False | Some l \<Rightarrow> l \<notin> set VALID_LEVELS)
      then (Inl (ValueError ''invalid trust level''), w)
      else if has_current_state (trust_load w)
      then send_override T kind public_id level reason initiated_by w
      else (case reconcile_trust_policy T True ''before-local-mutation'' w of
              (refreshed, w1) \<Rightarrow>
                (if dget refreshed ''status'' = PStr ''deferred'' \<or> \<not> has_current_state (trust_load w1)
                 then (Inl not_current_error, w1)
                 else send_override T kind public_id level reason initiated_by w1)))"

end
