(* ===== verification/TrustSpec.thy ===== *)
theory TrustSpec
  imports Trust
begin

text \<open>
  Properties of the trust policy cache: the stored document as a \<open>document_store\<close>, what a
  validated policy looks like, and that contacts and cached levels mirror the confirmed policy
  and fail closed.
\<close>

section \<open>The document as a store\<close>

definition trust_wf :: "dict \<Rightarrow> bool" where
  "trust_wf s \<longleftrightarrow>
     distinct (map fst s) \<and> fst ` set trust_default \<subseteq> fst ` set s \<and> is_dict (dget s ''entries'')"

text \<open>The fields a reader sees; the version is fixed by the format.\<close>

definition trust_field :: "dict \<Rightarrow> string \<Rightarrow> pyv" where
  "trust_field s k = (if k = ''version'' then PInt 1 else dget s k)"

lemma distinct_trust_default: "distinct (map fst trust_default)"
  by (simp add: trust_default_def)

lemma trust_wf_default: "trust_wf trust_default"
  by (simp add: trust_wf_def distinct_trust_default)
    (simp add: trust_default_def dget_Cons)

lemma trust_wf_dput:
  assumes "trust_wf s" and "k = ''entries'' \<longrightarrow> is_dict v"
  shows "trust_wf (dput k v s)"
  using assms by (auto simp: trust_wf_def distinct_dput keys_dput)

lemma trust_wf_update:
  assumes "trust_wf s" and "\<forall>kv \<in> set e. fst kv = ''entries'' \<longrightarrow> is_dict (snd kv)"
  shows "trust_wf (dict_update s e)"
  using assms by (induction e arbitrary: s) (simp_all add: trust_wf_dput)

lemma trust_normalise_wf: "trust_wf (trust_normalise raw)"
proof (cases raw)
  case (PDict d)
  let ?s = "dict_update trust_default d"
  have d: "distinct (map fst ?s)" and k: "fst ` set trust_default \<subseteq> fst ` set ?s"
    by (simp_all add: distinct_dict_update distinct_trust_default keys_dict_update)
  have "trust_wf (dput ''entries'' (PDict []) ?s)"
    using d k by (auto simp: trust_wf_def distinct_dput keys_dput)
  with PDict d k show ?thesis
    using trust_wf_default by (auto simp: trust_normalise_def Let_def trust_wf_def)
qed (simp_all add: trust_normalise_def trust_wf_default)

lemma trust_load_wf: "trust_wf (trust_load w)"
  by (simp add: trust_load_def trust_normalise_wf)

lemma dget_normalised:
  assumes "trust_wf s"
  shows "dget (trust_normalise (PDict (dput ''version'' (PInt 1) s))) k = trust_field s k"
proof -
  let ?s = "dput ''version'' (PInt 1) s"
  have d: "distinct (map fst ?s)" using assms by (simp add: trust_wf_def distinct_dput)
  have g: "dget (dict_update trust_default ?s) k = dget ?s k" for k
  proof (cases "map_of ?s k")
    case None
    then have "k \<notin> fst ` set s" by (auto simp: map_of_eq_None_iff split: if_splits)
    with assms have "k \<notin> fst ` set trust_default" by (auto simp: trust_wf_def)
    with None show ?thesis
      unfolding dget_dict_update [OF d] by (auto simp: dget_def map_of_eq_None_iff [symmetric])
  qed (simp add: dget_dict_update [OF d])
  have e: "is_dict (dget ?s ''entries'')" using assms by (simp add: trust_wf_def)
  show ?thesis
    using e by (simp add: trust_normalise_def Let_def g trust_field_def)
qed

interpretation trust: document_store trust_load trust_save trust_wf trust_field
proof unfold_locales
  show "trust_wf (trust_load w)" for w by (rule trust_load_wf)
  show "trust_field (trust_load (trust_save s w)) k = trust_field s k" if "trust_wf s" for s w k
    using dget_normalised [OF that] by (simp add: trust_load_def trust_save_def trust_field_def)
qed

lemma dget_load_update:
  assumes "\<And>s. trust_wf s \<Longrightarrow> trust_wf (f s)" and "k \<noteq> ''version''"
  shows "dget (trust_load (snd (trust_update f w))) k = dget (f (trust_load w)) k"
proof -
  have "trust_wf (dput ''version'' (PInt 1) (f s))" if "trust_wf s" for s
    using assms(1) [OF that] by (simp add: trust_wf_dput)
  from trust.read_own_write [where w = w and k = k, OF this] assms(2) show ?thesis
    by (simp add: trust_update_def Let_def trust_field_def)
qed

lemma contacts_update [simp]: "tw_contacts (snd (trust_update f w)) = tw_contacts w"
  by (simp add: trust_update_def trust_save_def Let_def)

section \<open>Validated policies\<close>

definition entry_ok :: "string \<Rightarrow> pyv \<Rightarrow> bool" where
  "entry_ok k v \<longleftrightarrow>
     (\<exists>kind public_id level source.
        kind \<in> set VALID_KINDS \<and> valid_id public_id \<and> level \<in> set VALID_LEVELS
        \<and> source \<in> set VALID_SOURCES \<and> k = trust_key kind public_id \<and> is_dict v
        \<and> get v ''kind'' = PStr kind \<and> get v ''id'' = PStr public_id
        \<and> get v ''level'' = PStr level \<and> get v ''source'' = PStr source)"

lemma validate_entry_ok: "validate_entry T raw = Inr (k, v) \<Longrightarrow> entry_ok k v"
  unfolding validate_entry_def Let_def entry_ok_def
  by (auto split: if_splits sum.splits simp: dget_Cons)

lemma validate_entries_ok:
  assumes "validate_entries T raws entries = Inr d"
    and "\<forall>(k, v) \<in> set entries. entry_ok k v" and "distinct (map fst entries)"
  shows "(\<forall>(k, v) \<in> set d. entry_ok k v) \<and> distinct (map fst d)
    \<and> length d \<le> length entries + length raws"
  using assms
proof (induction T raws entries rule: validate_entries.induct)
  case (2 T raw rest entries)
  from 2(2) obtain k v where r: "validate_entry T raw = Inr (k, v)"
    and v: "validate_entries T rest (dput k v entries) = Inr d"
    by (auto split: sum.splits)
  have "\<forall>(k, v) \<in> set (dput k v entries). entry_ok k v"
    using 2(3) validate_entry_ok [OF r] set_dput_subset [of k v entries] by blast
  from 2(1) [OF r refl v this] 2(4) length_dput [of k v entries] show ?case
    by (auto simp: distinct_dput)
qed simp

lemma validate_policy_Inr:
  assumes "validate_policy T payload = Inr v"
  obtains source team silicon raws entries where
    "v = [(''source_silicon_id'', PStr source), (''team_revision'', PInt team),
          (''silicon_revision'', PInt silicon), (''revision'', PStr (revision_text team silicon)),
          (''entries'', PDict entries)]"
    and "valid_id source" and "0 \<le> team" and "0 \<le> silicon"
    and "get payload ''entries'' = PList raws" and "length raws \<le> MAX_POLICY_ENTRIES"
    and "validate_entries T raws [] = Inr entries"
  using assms unfolding validate_policy_def Let_def
  by (auto split: if_splits sum.splits pyv.splits)

lemma validated_entries:
  assumes "validate_policy T payload = Inr v"
  shows "(\<forall>(k, e) \<in> set (dict_items (dget v ''entries'')). entry_ok k e)
    \<and> distinct (map fst (dict_items (dget v ''entries'')))
    \<and> length (dict_items (dget v ''entries'')) \<le> 10000"
  using assms
proof (rule validate_policy_Inr)
  fix source team silicon raws entries
  assume v: "v = [(''source_silicon_id'', PStr source), (''team_revision'', PInt team),
          (''silicon_revision'', PInt silicon), (''revision'', PStr (revision_text team silicon)),
          (''entries'', PDict entries)]"
    and e: "validate_entries T raws [] = Inr entries" and l: "length raws \<le> MAX_POLICY_ENTRIES"
  from validate_entries_ok [OF e] l show ?thesis
    by (simp add: v dget_Cons MAX_POLICY_ENTRIES_def)
qed

definition ex_policy :: pyv where
  "ex_policy = PDict
     [(''source_silicon'', PDict [(''id'', PStr ''s1'')]), (''team_revision'', PInt 3),
      (''silicon_revision'', PInt 2),
      (''entries'', PList
        [PDict [(''target'', PDict [(''kind'', PStr ''carbon''), (''id'', PStr ''c1''), (''name'', PStr ''Ann'')]),
                (''effective_level'', PStr ''high''), (''effective_source'', PStr ''team_base''),
                (''central_carbon'', PBool True)]])]"

definition ex_contacts :: dict where
  "ex_contacts =
     [(''c1'', PDict [(''contact_type'', PStr ''carbon''), (''trust_level'', PStr ''ok'')]),
      (''c2'', PDict [(''trust_level'', PStr ''ultimate'')])]"

definition ex_world :: tworld where
  "ex_world = \<lparr>tw_file = None, tw_contacts = ex_contacts, tw_clock = 10\<rparr>"

text \<open>A Glass that answers every request with the policy, and one that is unreachable.\<close>

definition exT :: tenv where
  "exT = \<lparr>te_repr = (\<lambda>v. ''?''), te_text = (\<lambda>e. ''error''), te_iso = ''now'', te_uuid = ''u'',
     te_net = (\<lambda>m p h b w. (Inr \<lparr>rs_status = 200, rs_body = Inr ex_policy, rs_content = True,
                 rs_etag = ''e1''\<rparr>, w))\<rparr>"

text \<open>
  C11: a policy Glass sent is used only if every entry of it is well typed: entries are stored
  under their own kind and id, each with a known kind, a valid id, a known level and a known
  source, no key twice, and at most 10000 of them.
\<close>

theorem validated_policy_typed:
  assumes "validate_policy T payload = Inr v"
  shows "(\<forall>(k, e) \<in> set (dict_items (dget v ''entries'')). entry_ok k e)
    \<and> distinct (map fst (dict_items (dget v ''entries'')))
    \<and> length (dict_items (dget v ''entries'')) \<le> 10000"
  by (rule validated_entries [OF assms])

theorem validated_policy_typed_witness:
  "\<exists>v. validate_policy exT ex_policy = Inr v
     \<and> (\<forall>(k, e) \<in> set (dict_items (dget v ''entries'')). entry_ok k e)
     \<and> dict_items (dget v ''entries'') \<noteq> []"
proof -
  have "case validate_policy exT ex_policy of Inl e \<Rightarrow> False
     | Inr v \<Rightarrow> dict_items (dget v ''entries'') \<noteq> []" by code_simp
  then obtain v where v: "validate_policy exT ex_policy = Inr v"
    and "dict_items (dget v ''entries'') \<noteq> []" by (auto split: sum.splits)
  with validated_policy_typed [OF v] show ?thesis by blast
qed

section \<open>Confirming a policy\<close>

lemma trust_key_inj:
  assumes "kind \<in> set VALID_KINDS" and "kind' \<in> set VALID_KINDS"
  shows "trust_key kind i = trust_key kind' i' \<longleftrightarrow> kind = kind' \<and> i = i'"
  using assms by (auto simp: trust_key_def VALID_KINDS_def)

lemma contact_kind_valid [simp]: "contact_kind T c \<in> set VALID_KINDS"
  by (simp add: contact_kind_def VALID_KINDS_def)

lemma nonnegative_int_PInt [simp]: "nonnegative_int (PInt i) = max 0 i"
  by (simp add: nonnegative_int_def py_or_def)

lemma pending_newer_cong:
  assumes "\<And>k. k \<in> {''pending_team_revision'', ''pending_silicon_revision'', ''team_revision'',
      ''silicon_revision''} \<Longrightarrow> dget s k = dget s' k"
  shows "pending_revision_is_newer s = pending_revision_is_newer s'"
  using assms by (simp add: pending_revision_is_newer_def)

text \<open>The stored fields after a confirmed policy.\<close>

lemma confirm_fields:
  assumes "validate_policy T payload = Inr v" and "trust_wf s"
  shows "trust_wf (confirm v etag b now s)"
    and "dget (confirm v etag b now s) ''entries'' = dget v ''entries''"
    and "dget (confirm v etag b now s) ''team_revision'' = dget v ''team_revision''"
    and "dget (confirm v etag b now s) ''silicon_revision'' = dget v ''silicon_revision''"
    and "dget (confirm v etag b now s) ''server_bootstrapped'' = PBool b"
    and "dget (confirm v etag b now s) ''last_confirmed_at'' = PFloat now"
    and "pending_revision_is_newer (confirm v etag b now s) \<longleftrightarrow>
         nonnegative_int (dget s ''pending_team_revision'') > nonnegative_int (dget v ''team_revision'')
         \<or> nonnegative_int (dget s ''pending_silicon_revision'')
             > nonnegative_int (dget v ''silicon_revision'')"
proof -
  from assms(1) obtain source team silicon entries where
    v: "v = [(''source_silicon_id'', PStr source), (''team_revision'', PInt team),
          (''silicon_revision'', PInt silicon), (''revision'', PStr (revision_text team silicon)),
          (''entries'', PDict entries)]" and t: "0 \<le> team" and u: "0 \<le> silicon"
    by (rule validate_policy_Inr)
  have "trust_wf (dict_update s v)" using assms(2) by (rule trust_wf_update) (simp add: v)
  then show "trust_wf (confirm v etag b now s)"
    by (simp add: confirm_def Let_def trust_wf_dput)
  show "dget (confirm v etag b now s) ''entries'' = dget v ''entries''"
    and "dget (confirm v etag b now s) ''team_revision'' = dget v ''team_revision''"
    and "dget (confirm v etag b now s) ''silicon_revision'' = dget v ''silicon_revision''"
    and "dget (confirm v etag b now s) ''server_bootstrapped'' = PBool b"
    and "dget (confirm v etag b now s) ''last_confirmed_at'' = PFloat now"
    by (simp_all add: confirm_def Let_def v dget_Cons)
  show "pending_revision_is_newer (confirm v etag b now s) \<longleftrightarrow>
         nonnegative_int (dget s ''pending_team_revision'') > nonnegative_int (dget v ''team_revision'')
         \<or> nonnegative_int (dget s ''pending_silicon_revision'')
             > nonnegative_int (dget v ''silicon_revision'')"
    using t u by (simp add: confirm_def Let_def v dget_Cons pending_revision_is_newer_def)
qed

lemma apply_confirmed_Inr:
  assumes "apply_confirmed_policy T payload etag w = (Inr r, w')"
  obtains v where "validate_policy T payload = Inr v"
    and "r = (''changed_contacts'', PInt (int (fst (apply_glass_trust_policy T (dget v ''entries'') w)))) # v"
    and "w' = snd (trust_update (confirm v etag True (tw_clock w))
                 (snd (apply_glass_trust_policy T (dget v ''entries'') w)))"
proof -
  have c: "tw_clock (snd (apply_glass_trust_policy T d w)) = tw_clock w" for d
    by (cases d) (simp_all add: apply_glass_trust_policy_def Let_def)
  show thesis
    using assms c that
    by (auto simp: apply_confirmed_policy_def Let_def split: sum.splits prod.splits)
      (metis fst_conv snd_conv)
qed

lemma load_apply [simp]:
  "trust_load (snd (apply_glass_trust_policy T d w)) = trust_load w"
  by (cases d) (simp_all add: apply_glass_trust_policy_def Let_def trust_load_def)

lemma confirmed_load:
  assumes "apply_confirmed_policy T payload etag w = (Inr r, w')" and "validate_policy T payload = Inr v"
    and "k \<noteq> ''version''"
  shows "dget (trust_load w') k = dget (confirm v etag True (tw_clock w) (trust_load w)) k"
  using assms(1)
proof (rule apply_confirmed_Inr)
  fix v'
  assume "validate_policy T payload = Inr v'" and
    w': "w' = snd (trust_update (confirm v' etag True (tw_clock w))
                 (snd (apply_glass_trust_policy T (dget v' ''entries'') w)))"
  with assms(2) have "v' = v" by simp
  with w' show ?thesis
    using dget_load_update [OF confirm_fields(1) [OF assms(2)] assms(3)] by simp
qed

lemma cached_level_confirmed:
  assumes "has_confirmed_state (trust_load w)" and "kind \<in> set VALID_KINDS" and "valid_id i"
    and "map_of (dict_items (dget (trust_load w) ''entries'')) (trust_key kind i) = Some e"
    and "entry_ok (trust_key kind i) e"
  shows "PStr (cached_trust_level T kind i w) = get e ''level''"
  using assms
  by (auto simp: cached_trust_level_def cached_trust_entry_def cached_entry_from_state_def Let_def
      entry_ok_def dget_Cons dget_def [of _ "trust_key kind i"])

lemma cached_level_absent:
  assumes "map_of (dict_items (dget (trust_load w) ''entries'')) (trust_key kind i) = None"
  shows "cached_trust_level T kind i w = ''very_low''"
  using assms
  by (simp add: cached_trust_level_def cached_trust_entry_def cached_entry_from_state_def Let_def
      dget_def [of _ "trust_key kind i"] VALID_LEVELS_def)

text \<open>
  Once a policy is confirmed, the level the runtime reads for an identity is the one Glass
  sent for exactly this kind and id, and an identity Glass did not list has the lowest level.
\<close>

theorem confirmed_level_mirrors_glass:
  assumes "apply_confirmed_policy T payload etag w = (Inr r, w')" and "0 < tw_clock w"
    and "kind \<in> set VALID_KINDS" and "valid_id i"
  shows "PStr (cached_trust_level T kind i w') =
    (case map_of (dict_items (dget r ''entries'')) (trust_key kind i) of
       None \<Rightarrow> PStr ''very_low'' | Some e \<Rightarrow> get e ''level'')"
  using assms(1)
proof (rule apply_confirmed_Inr)
  fix v
  assume v: "validate_policy T payload = Inr v"
    and r: "r = (''changed_contacts'', PInt (int (fst (apply_glass_trust_policy T (dget v ''entries'') w)))) # v"
  note f = confirmed_load [OF assms(1) v] confirm_fields [OF v trust_load_wf]
  have c: "has_confirmed_state (trust_load w')"
    using assms(2) by (simp add: f has_confirmed_state_def nonnegative_float_def py_or_def)
  have e: "dget (trust_load w') ''entries'' = dget r ''entries''"
    by (simp add: f r dget_Cons)
  have ok: "entry_ok k x" if "map_of (dict_items (dget r ''entries'')) k = Some x" for k x
    using validated_entries [OF v] that by (auto simp: r dget_Cons dest: map_of_SomeD)
  show ?thesis
    using cached_level_confirmed [OF c assms(3,4)] cached_level_absent [of w' kind i T] ok
    by (auto simp: e split: option.splits)
qed

lemma ex_applied:
  "case apply_confirmed_policy exT ex_policy ''e'' ex_world of (Inl e, w) \<Rightarrow> False
   | (Inr r, w) \<Rightarrow> (case map_of (dict_items (dget r ''entries'')) (trust_key ''carbon'' ''c1'') of
        None \<Rightarrow> False | Some e \<Rightarrow> get e ''level'' = PStr ''high'')"
  by code_simp

theorem confirmed_level_mirrors_glass_witness:
  "\<exists>r w'. apply_confirmed_policy exT ex_policy ''e'' ex_world = (Inr r, w')
     \<and> cached_trust_level exT ''carbon'' ''c1'' w' = ''high''"
proof -
  obtain r w' e where a: "apply_confirmed_policy exT ex_policy ''e'' ex_world = (Inr r, w')"
    and m: "map_of (dict_items (dget r ''entries'')) (trust_key ''carbon'' ''c1'') = Some e"
    and l: "get e ''level'' = PStr ''high''"
    using ex_applied by (auto split: prod.splits sum.splits option.splits)
  have "0 < tw_clock ex_world" "''carbon'' \<in> set VALID_KINDS" "valid_id ''c1''"
    by (simp add: ex_world_def, simp add: VALID_KINDS_def, code_simp)
  from confirmed_level_mirrors_glass [OF a this] a m l show ?thesis by auto
qed

section \<open>Contacts mirror the policy\<close>

lemma is_dict_set_if_changed [simp]: "is_dict (set_if_changed k v c) = is_dict c"
  by (simp add: set_if_changed_def)

lemma get_set_if_changed [simp]:
  "is_dict c \<Longrightarrow> get (set_if_changed k v c) k' = (if k' = k then v else get c k')"
  by (simp add: set_if_changed_def)

lemma dget_or_put [simp]:
  "is_dict c \<Longrightarrow> dget_or (dict_items (put k v c)) k' x = (if k' = k then v else dget_or (dict_items c) k' x)"
  by (cases c) (simp_all add: dget_or_def)

lemma dget_or_set_if_changed [simp]:
  "is_dict c \<Longrightarrow> k' \<noteq> k \<Longrightarrow>
     dget_or (dict_items (set_if_changed k v c)) k' x = dget_or (dict_items c) k' x"
  by (simp add: set_if_changed_def)

lemma project_contact_fields:
  assumes "project_contact T d fixed_id c = (c', ch)" and "is_dict c"
  shows "is_dict c'"
    and "dget_or (dict_items c') ''contact_type'' x = dget_or (dict_items c) ''contact_type'' x"
    and "get c' ''trust_level'' = PStr (policy_level T (contact_policy T d fixed_id c))"
  using assms unfolding project_contact_def Let_def by (auto split: if_splits)

lemma contact_policy_eq:
  "contact_policy T d i c =
     dget d (trust_key (contact_kind T (dget_or (dict_items c) ''contact_type'' (PStr ''carbon''))) i)"
  by (simp add: contact_policy_def)

lemma apply_contacts:
  assumes "(fixed_id, c') \<in> set (tw_contacts (snd (apply_glass_trust_policy T (PDict d) w)))"
  obtains c where "(fixed_id, c) \<in> set (tw_contacts w)" and "c' = fst (project_contact T d fixed_id c)"
  using assms that
  by (fastforce simp: apply_glass_trust_policy_def Let_def split: prod.splits)

lemma not_dict_project: "\<not> is_dict c \<Longrightarrow> project_contact T d i c = (c, False)"
  by (simp add: project_contact_def)

lemma trust_key_valid:
  assumes "entry_ok (trust_key kind i) e" and "kind \<in> set VALID_KINDS"
  shows "valid_id i"
  using assms trust_key_inj by (auto simp: entry_ok_def)

text \<open>
  C9: after a confirmed policy every local contact carries exactly the trust level that the
  cache answers for its kind and id: the two copies of the policy agree, and a contact that Glass
  does not list is lowered to the lowest level.
\<close>

theorem contacts_mirror_policy:
  assumes "apply_confirmed_policy T payload etag w = (Inr r, w')" and "0 < tw_clock w"
    and "(fixed_id, c) \<in> set (tw_contacts w')" and "is_dict c"
  shows "get c ''trust_level'' = PStr (cached_trust_level T
     (contact_kind T (dget_or (dict_items c) ''contact_type'' (PStr ''carbon''))) fixed_id w')"
  using assms(1)
proof (rule apply_confirmed_Inr)
  fix v
  let ?kind = "contact_kind T (dget_or (dict_items c) ''contact_type'' (PStr ''carbon''))"
  assume v: "validate_policy T payload = Inr v"
    and w': "w' = snd (trust_update (confirm v etag True (tw_clock w))
                 (snd (apply_glass_trust_policy T (dget v ''entries'') w)))"
  obtain d where d: "dget v ''entries'' = PDict d"
    using v by (rule validate_policy_Inr) (simp add: dget_Cons)
  from assms(3) obtain c0 where "c = fst (project_contact T d fixed_id c0)"
    by (auto simp: w' d elim: apply_contacts)
  then obtain ch where p: "project_contact T d fixed_id c0 = (c, ch)" by (metis prod.collapse)
  then have c0: "is_dict c0" using assms(4) not_dict_project by fastforce
  note f = confirmed_load [OF assms(1) v] confirm_fields [OF v trust_load_wf]
  have cs: "has_confirmed_state (trust_load w')"
    using assms(2) by (simp add: f has_confirmed_state_def nonnegative_float_def py_or_def)
  have e: "dict_items (dget (trust_load w') ''entries'') = d" by (simp add: f d)
  have pol: "contact_policy T d fixed_id c0 = dget d (trust_key ?kind fixed_id)"
    using project_contact_fields(2) [OF p c0] by (simp add: contact_policy_eq)
  have lvl: "get c ''trust_level'' = PStr (policy_level T (dget d (trust_key ?kind fixed_id)))"
    using project_contact_fields(3) [OF p c0] by (simp only: pol)
  show ?thesis
  proof (cases "map_of d (trust_key ?kind fixed_id)")
    case None
    then have "dget d (trust_key ?kind fixed_id) = PNone" by (simp add: dget_def)
    moreover have "cached_trust_level T ?kind fixed_id w' = ''very_low''"
      by (rule cached_level_absent) (simp add: e None)
    ultimately show ?thesis by (simp add: lvl policy_level_def)
  next
    case (Some x)
    then have x: "dget d (trust_key ?kind fixed_id) = x" by (simp add: dget_def)
    from Some have ok: "entry_ok (trust_key ?kind fixed_id) x"
      using validated_entries [OF v] by (auto simp: d dest: map_of_SomeD)
    have "PStr (cached_trust_level T ?kind fixed_id w') = get x ''level''"
      using trust_key_valid [OF ok] Some by (intro cached_level_confirmed [OF cs _ _ _ ok]) (simp_all add: e)
    moreover from ok obtain l where "get x ''level'' = PStr l" "l \<in> set VALID_LEVELS" "is_dict x"
      by (auto simp: entry_ok_def)
    ultimately show ?thesis by (simp add: lvl x policy_level_def)
  qed
qed

lemma ex_applied_contacts:
  "case apply_confirmed_policy exT ex_policy ''e'' ex_world of (Inl e, w) \<Rightarrow> False
   | (Inr r, w) \<Rightarrow> tw_contacts w \<noteq> [] \<and> fst (hd (tw_contacts w)) = ''c1''
       \<and> is_dict (snd (hd (tw_contacts w)))"
  by code_simp

theorem contacts_mirror_policy_witness:
  "\<exists>r w' c. apply_confirmed_policy exT ex_policy ''e'' ex_world = (Inr r, w')
     \<and> (''c1'', c) \<in> set (tw_contacts w')
     \<and> get c ''trust_level'' = PStr (cached_trust_level exT
          (contact_kind exT (dget_or (dict_items c) ''contact_type'' (PStr ''carbon''))) ''c1'' w')"
proof -
  obtain r w' where a: "apply_confirmed_policy exT ex_policy ''e'' ex_world = (Inr r, w')"
    and ne: "tw_contacts w' \<noteq> []" and m: "fst (hd (tw_contacts w')) = ''c1''"
    and d: "is_dict (snd (hd (tw_contacts w')))"
    using ex_applied_contacts by (auto split: prod.splits sum.splits)
  have i: "(''c1'', snd (hd (tw_contacts w'))) \<in> set (tw_contacts w')"
    using hd_in_set [OF ne] m by (metis prod.collapse)
  have "0 < tw_clock ex_world" by (simp add: ex_world_def)
  from contacts_mirror_policy [OF a this i d] a i show ?thesis by blast
qed

section \<open>Revisions in flight\<close>

lemma mark_wf: "trust_wf s \<Longrightarrow> trust_wf
  (dput ''invalidated_at'' a (dput ''pending_silicon_revision'' b (dput ''pending_team_revision'' c s)))"
  by (simp add: trust_wf_dput)

lemma cached_entry_cong:
  assumes "\<And>k. k \<in> {''server_bootstrapped'', ''last_confirmed_at'', ''entries''} \<Longrightarrow>
     dget (trust_load w') k = dget (trust_load w) k"
  shows "cached_trust_entry T kind i w' = cached_trust_entry T kind i w"
  using assms
  by (simp add: cached_trust_entry_def cached_entry_from_state_def has_confirmed_state_def)

text \<open>
  A nudge that Glass has a newer revision keeps the confirmed policy in force (every cached
  entry reads as before) and only ever raises the revision that is waited for.
\<close>

theorem invalidation_keeps_policy:
  shows "cached_trust_entry T kind i (snd (mark_trust_policy_invalidated team silicon w))
      = cached_trust_entry T kind i w
    \<and> nonnegative_int (dget (trust_load (snd (mark_trust_policy_invalidated team silicon w)))
          ''pending_team_revision'')
      = max (nonnegative_int (dget (trust_load w) ''pending_team_revision'')) (fst (advertised team silicon))
    \<and> nonnegative_int (dget (trust_load (snd (mark_trust_policy_invalidated team silicon w)))
          ''pending_silicon_revision'')
      = max (nonnegative_int (dget (trust_load w) ''pending_silicon_revision'')) (snd (advertised team silicon))"
proof -
  obtain t u where a: "advertised team silicon = (t, u)" by (cases "advertised team silicon")
  then have n: "0 \<le> t" "0 \<le> u" by (auto simp: advertised_def split: sum.splits)
  define f where "f = (\<lambda>s. dput ''invalidated_at'' (PFloat (tw_clock w))
             (dput ''pending_silicon_revision''
                (PInt (max (nonnegative_int (dget s ''pending_silicon_revision'')) u))
                (dput ''pending_team_revision''
                  (PInt (max (nonnegative_int (dget s ''pending_team_revision'')) t)) s)))"
  have m: "mark_trust_policy_invalidated team silicon w = trust_update f w"
    by (simp add: mark_trust_policy_invalidated_def a f_def)
  have l: "dget (trust_load (snd (trust_update f w))) k = dget (f (trust_load w)) k"
    if "k \<noteq> ''version''" for k
    using that by (intro dget_load_update) (simp_all add: f_def mark_wf)
  have same: "dget (f (trust_load w)) k = dget (trust_load w) k"
    if "k \<in> {''server_bootstrapped'', ''last_confirmed_at'', ''entries''}" for k
    using that by (auto simp: f_def)
  have "cached_trust_entry T kind i (snd (trust_update f w)) = cached_trust_entry T kind i w"
    by (rule cached_entry_cong) (auto simp: l same)
  then show ?thesis using n by (simp add: m l a) (simp add: f_def)
qed

text \<open>
  After a confirmed policy the cache counts as current exactly when no revision beyond the
  confirmed one was advertised meanwhile; otherwise the nudge stays and the next reconciliation
  fetches again.
\<close>

theorem confirmed_is_current_iff:
  assumes "apply_confirmed_policy T payload etag w = (Inr r, w')" and "0 < tw_clock w"
  shows "has_current_state (trust_load w') \<longleftrightarrow>
    nonnegative_int (dget (trust_load w) ''pending_team_revision'') \<le> nonnegative_int (dget r ''team_revision'')
    \<and> nonnegative_int (dget (trust_load w) ''pending_silicon_revision'')
        \<le> nonnegative_int (dget r ''silicon_revision'')"
  using assms(1)
proof (rule apply_confirmed_Inr)
  fix v
  assume v: "validate_policy T payload = Inr v"
    and r: "r = (''changed_contacts'', PInt (int (fst (apply_glass_trust_policy T (dget v ''entries'') w)))) # v"
  note f = confirmed_load [OF assms(1) v] confirm_fields [OF v trust_load_wf]
  have "has_confirmed_state (trust_load w')"
    using assms(2) by (simp add: f has_confirmed_state_def nonnegative_float_def py_or_def)
  moreover have "pending_revision_is_newer (trust_load w')
      = pending_revision_is_newer (confirm v etag True (tw_clock w) (trust_load w))"
    by (rule pending_newer_cong) (auto simp: confirmed_load [OF assms(1) v])
  ultimately show ?thesis
    by (auto simp: has_current_state_def f r dget_Cons)
qed

theorem confirmed_is_current_iff_witness:
  "\<exists>r w'. apply_confirmed_policy exT ex_policy ''e'' ex_world = (Inr r, w')
     \<and> has_current_state (trust_load w')"
proof -
  have "case apply_confirmed_policy exT ex_policy ''e'' ex_world of (Inl e, w) \<Rightarrow> False
   | (Inr r, w) \<Rightarrow> dget r ''team_revision'' = PInt 3 \<and> dget r ''silicon_revision'' = PInt 2"
    by code_simp
  then obtain r w' where a: "apply_confirmed_policy exT ex_policy ''e'' ex_world = (Inr r, w')"
    and v: "dget r ''team_revision'' = PInt 3" "dget r ''silicon_revision'' = PInt 2"
    by (auto split: prod.splits sum.splits)
  have c: "0 < tw_clock ex_world" by (simp add: ex_world_def)
  have "nonnegative_int (dget (trust_load ex_world) ''pending_team_revision'') = 0"
    "nonnegative_int (dget (trust_load ex_world) ''pending_silicon_revision'') = 0"
    by code_simp+
  with confirmed_is_current_iff [OF a c] a v show ?thesis by auto
qed

lemma bootstrap_status:
  "bootstrap_policy T reason w = (Inr d, w') \<Longrightarrow> dget d ''status'' = PStr ''updated''"
  by (auto simp: bootstrap_policy_def Let_def dget_Cons split: sum.splits prod.splits if_splits)

lemma unchanged_policy_Inr:
  "unchanged_policy T reason w = (Inr d, w') \<Longrightarrow> \<not> pending_revision_is_newer (trust_load w)"
  by (auto simp: unchanged_policy_def Let_def split: if_splits)

lemma reconcile_try_unchanged:
  assumes "reconcile_try T force reason w = (Inr d, w')" and "dget d ''status'' = PStr ''unchanged''"
  shows "\<exists>resp w1. te_net T ''GET'' ''/api/v1/silicons/me/trust-policy''
       (conditional_headers force (trust_load w)) PNone w = (Inr resp, w1)
     \<and> rs_status resp = 304 \<and> unchanged_policy T reason w1 = (Inr d, w')"
  using assms bootstrap_status [of T reason w d w'] unfolding reconcile_try_def Let_def
  by (auto simp: dget_Cons split: sum.splits prod.splits if_splits)

text \<open>
  C12: an answer that the policy is unchanged is accepted only when no newer revision is pending
  at that moment, so a stale proxy cannot confirm an outdated policy.
\<close>

theorem unchanged_only_when_current:
  assumes "reconcile_trust_policy T force reason w = (r, w')" and "dget r ''status'' = PStr ''unchanged''"
  shows "\<exists>resp w1. te_net T ''GET'' ''/api/v1/silicons/me/trust-policy''
       (conditional_headers force (trust_load w)) PNone w = (Inr resp, w1)
     \<and> rs_status resp = 304 \<and> \<not> pending_revision_is_newer (trust_load w1)"
proof -
  have "reconcile_try T force reason w = (Inr r, w')"
    using assms by (auto simp: reconcile_trust_policy_def Let_def dget_Cons
        split: sum.splits prod.splits)
  from reconcile_try_unchanged [OF this assms(2)] unchanged_policy_Inr show ?thesis by blast
qed

definition exT304 :: tenv where
  "exT304 = exT\<lparr>te_net := (\<lambda>m p h b w.
     (Inr \<lparr>rs_status = (if m = ''GET'' then 304 else 200), rs_body = Inr PNone, rs_content = False,
           rs_etag = []\<rparr>, w))\<rparr>"

theorem unchanged_only_when_current_witness:
  "\<exists>r w' w1. reconcile_trust_policy exT304 False ''r'' (snd (apply_confirmed_policy exT ex_policy ''e'' ex_world))
       = (r, w') \<and> dget r ''status'' = PStr ''unchanged''
     \<and> \<not> pending_revision_is_newer (trust_load w1)"
proof -
  let ?w = "snd (apply_confirmed_policy exT ex_policy ''e'' ex_world)"
  have "dget (fst (reconcile_trust_policy exT304 False ''r'' ?w)) ''status'' = PStr ''unchanged''"
    by code_simp
  then obtain r w' where r: "reconcile_trust_policy exT304 False ''r'' ?w = (r, w')"
    and s: "dget r ''status'' = PStr ''unchanged''" by (metis prod.collapse)
  from unchanged_only_when_current [OF r s] r s show ?thesis by blast
qed

text \<open>
  When the cached policy is not current and Glass cannot be reached, a local change of a
  trust level is refused before any change is sent, and neither the contacts nor the cached
  levels change.
\<close>

theorem set_trust_refused_offline:
  assumes "kind \<in> set VALID_KINDS" and "valid_id i" and "set_option level \<subseteq> set VALID_LEVELS"
    and "\<not> has_current_state (trust_load w)"
    and "\<And>m p h b w. m \<noteq> ''PATCH'' \<Longrightarrow> te_net T m p h b w = (Inl (net_error m), w)"
  shows "fst (set_contact_trust T kind i level reason who w) = Inl not_current_error
    \<and> tw_contacts (snd (set_contact_trust T kind i level reason who w)) = tw_contacts w
    \<and> cached_trust_level T k j (snd (set_contact_trust T kind i level reason who w))
        = cached_trust_level T k j w"
proof -
  have net: "te_net T ''GET'' p h b w = (Inl (net_error ''GET''), w)"
    "te_net T ''POST'' p h b w = (Inl (net_error ''POST''), w)" for p h b w
    by (rule assms(5); simp)+
  have "\<exists>e. reconcile_try T True ''before-local-mutation'' w = (Inl e, w)"
    by (simp add: reconcile_try_def bootstrap_policy_def Let_def net)
  then obtain e where t: "reconcile_try T True ''before-local-mutation'' w = (Inl e, w)" ..
  define f where "f = dput ''last_error'' (PStr (take_cp 300 (te_text T e)))"
  have r: "\<exists>d. reconcile_trust_policy T True ''before-local-mutation'' w = (d, snd (trust_update f w))
      \<and> dget d ''status'' = PStr ''deferred''"
    by (simp add: reconcile_trust_policy_def t f_def dget_Cons Let_def split: prod.splits)
  have s: "set_contact_trust T kind i level reason who w
      = (Inl not_current_error, snd (trust_update f w))"
    using assms(1-4) r by (auto simp: set_contact_trust_def split: option.splits)
  have l: "dget (trust_load (snd (trust_update f w))) x = dget (f (trust_load w)) x"
    if "x \<noteq> ''version''" for x
    using that by (intro dget_load_update) (simp_all add: f_def trust_wf_dput)
  have same: "dget (f (trust_load w)) x = dget (trust_load w) x"
    if "x \<in> {''server_bootstrapped'', ''last_confirmed_at'', ''entries''}" for x
    using that by (auto simp: f_def)
  have "cached_trust_entry T k j (snd (trust_update f w)) = cached_trust_entry T k j w"
    by (rule cached_entry_cong) (auto simp: l same)
  then show ?thesis by (simp add: s cached_trust_level_def)
qed

definition exT_offline :: tenv where
  "exT_offline = exT\<lparr>te_net := (\<lambda>m p h b w. (Inl (OtherError ''ConnectionError'' m), w))\<rparr>"

theorem set_trust_refused_offline_witness:
  "fst (set_contact_trust exT_offline ''carbon'' ''c1'' (Some ''ultimate'') [] [] ex_world)
     = Inl not_current_error"
proof -
  have a: "''carbon'' \<in> set VALID_KINDS" by (simp add: VALID_KINDS_def)
  have b: "valid_id ''c1''" by code_simp
  have c: "set_option (Some ''ultimate'') \<subseteq> set VALID_LEVELS" by (simp add: VALID_LEVELS_def)
  have d: "\<not> has_current_state (trust_load ex_world)" by code_simp
  have e: "\<And>m p h b w. m \<noteq> ''PATCH'' \<Longrightarrow>
      te_net exT_offline m p h b w = (Inl (OtherError ''ConnectionError'' m), w)"
    by (simp add: exT_offline_def)
  show ?thesis
    using set_trust_refused_offline [OF a b c d e, where reason = "[]" and who = "[]"] by simp
qed

text \<open>
  C10: whatever the stored document holds, the level read from it is one of the six levels, and
  it is the lowest one unless a policy has been confirmed and the id is well formed.
\<close>

theorem cached_level_fails_closed:
  "cached_trust_level T kind i w \<in> set VALID_LEVELS
   \<and> (cached_trust_level T kind i w = ''very_low''
      \<or> has_confirmed_policy w \<and> kind \<in> set VALID_KINDS \<and> valid_id i)"
  by (auto simp: cached_trust_level_def cached_trust_entry_def has_confirmed_policy_def Let_def
      VALID_LEVELS_def)

end
