(* ===== verification/DateTime.thy ===== *)
theory DateTime
  imports PyValue
begin

text \<open>
  What the program uses of Python's \<open>datetime\<close>: the proleptic Gregorian calendar as the
  library computes it (\<open>_ymd2ord\<close>, \<open>_ord2ymd\<close>), the ISO text of a UTC instant and reading it
  back. An instant is the number of microseconds since 0001-01-01T00:00:00 UTC; the ordinal of
  that day is 1.

  \<open>fromisoformat\<close> is modelled on the extended format \<open>YYYY-MM-DD[*HH:MM[:SS[.fff[fff]]][+HH:MM]]\<close>
  that \<open>isoformat\<close> writes; the basic formats and week dates it also accepts read as invalid.
\<close>

section \<open>Calendar\<close>

definition is_leap :: "nat \<Rightarrow> bool" where
  "is_leap y \<longleftrightarrow> y mod 4 = 0 \<and> (y mod 100 \<noteq> 0 \<or> y mod 400 = 0)"

definition days_before_year :: "nat \<Rightarrow> nat" where
  "days_before_year y =
     (let p = y - 1 in p * 365 + p div 4 - p div 100 + p div 400)"

definition month_lengths :: "bool \<Rightarrow> nat list" where
  "month_lengths leap = [31, if leap then 29 else 28, 31, 30, 31, 30, 31, 31, 30, 31, 30, 31]"

definition days_in_month :: "nat \<Rightarrow> nat \<Rightarrow> nat" where
  "days_in_month y m = month_lengths (is_leap y) ! (m - 1)"

definition days_before_month :: "nat \<Rightarrow> nat \<Rightarrow> nat" where
  "days_before_month y m = sum_list (take (m - 1) (month_lengths (is_leap y)))"

definition ymd2ord :: "nat \<Rightarrow> nat \<Rightarrow> nat \<Rightarrow> nat" where
  "ymd2ord y m d = days_before_year y + days_before_month y m + d"

text \<open>The month and the day of the month of a day of the year, counted from 0.\<close>

fun month_day :: "nat list \<Rightarrow> nat \<Rightarrow> nat \<Rightarrow> nat \<times> nat" where
  "month_day [] m r = (m, r + 1)"
| "month_day [l] m r = (m, r + 1)"
| "month_day (l # ls) m r = (if r < l then (m, r + 1) else month_day ls (m + 1) (r - l))"

definition ord2ymd :: "nat \<Rightarrow> nat \<times> nat \<times> nat" where
  "ord2ymd n =
     (let r = n - 1;
          n400 = r div 146097; r1 = r mod 146097;
          n100 = r1 div 36524; r2 = r1 mod 36524;
          n4 = r2 div 1461; r3 = r2 mod 1461;
          n1 = r3 div 365; r4 = r3 mod 365;
          y = n400 * 400 + n100 * 100 + n4 * 4 + n1 + 1
      in if n1 = 4 \<or> n100 = 4 then (y - 1, 12, 31)
         else case month_day (month_lengths (is_leap y)) 1 r4 of (m, d) \<Rightarrow> (y, m, d))"

lemma length_month_lengths [simp]: "length (month_lengths b) = 12"
  by (simp add: month_lengths_def)

lemma sum_month_lengths: "sum_list (month_lengths b) = (if b then 366 else 365)"
  by (simp add: month_lengths_def)

lemma month_day_sum:
  assumes "month_day ls m r = (m', d)" and "r < sum_list ls"
  shows "m \<le> m' \<and> m' - m < length ls \<and> 1 \<le> d \<and> d \<le> ls ! (m' - m)
     \<and> sum_list (take (m' - m) ls) + d = r + 1"
  using assms
proof (induction ls m r arbitrary: m' d rule: month_day.induct)
  case (3 l l2 ls m r)
  show ?case
  proof (cases "r < l")
    case True
    with 3 show ?thesis by auto
  next
    case False
    with 3(2,3) have "month_day (l2 # ls) (m + 1) (r - l) = (m', d)" and "r - l < sum_list (l2 # ls)"
      by auto
    from 3(1) [OF False this] have
      h: "m + 1 \<le> m'" "m' - (m + 1) < length (l2 # ls)" "1 \<le> d" "d \<le> (l2 # ls) ! (m' - (m + 1))"
      "sum_list (take (m' - (m + 1)) (l2 # ls)) + d = r - l + 1" by auto
    then obtain k where k: "m' - m = Suc k" "m' - (m + 1) = k"
      by (metis Suc_diff_le add.commute diff_Suc_Suc plus_1_eq_Suc)
    with h False show ?thesis by auto
  qed
qed auto

lemma year_parts:
  fixes n400 n100 n4 n1 :: nat
  assumes "n100 < 4" and "n4 < 25" and "n1 < 4"
  defines "p \<equiv> n400 * 400 + n100 * 100 + n4 * 4 + n1"
  shows "p div 4 = n400 * 100 + n100 * 25 + n4" and "p div 100 = n400 * 4 + n100"
    and "p div 400 = n400"
  by (rule div_nat_eqI; use assms in simp)+

lemma days_before_year_parts:
  fixes n400 n100 n4 n1 :: nat
  assumes "n100 < 4" and "n4 < 25" and "n1 < 4"
  shows "days_before_year (n400 * 400 + n100 * 100 + n4 * 4 + n1 + 1)
     = n400 * 146097 + n100 * 36524 + n4 * 1461 + n1 * 365"
  using year_parts [OF assms, of n400] by (simp add: days_before_year_def Let_def)

lemma ord2ymd_inverse:
  assumes "1 \<le> n" and "ord2ymd n = (y, m, d)"
  shows "ymd2ord y m d = n \<and> 1 \<le> m \<and> m \<le> 12 \<and> 1 \<le> d \<and> d \<le> days_in_month y m \<and> 1 \<le> y"
proof -
  define r where "r = n - 1"
  define n400 r1 where "n400 = r div 146097" and "r1 = r mod 146097"
  define n100 r2 where "n100 = r1 div 36524" and "r2 = r1 mod 36524"
  define n4 r3 where "n4 = r2 div 1461" and "r3 = r2 mod 1461"
  define n1 r4 where "n1 = r3 div 365" and "r4 = r3 mod 365"
  define Y where "Y = n400 * 400 + n100 * 100 + n4 * 4 + n1 + 1"
  have b1: "r1 < 146097" "r2 < 36524" "r3 < 1461" "r4 < 365"
    by (simp_all add: r1_def r2_def r3_def r4_def)
  have e: "r = n400 * 146097 + r1" "r1 = n100 * 36524 + r2" "r2 = n4 * 1461 + r3" "r3 = n1 * 365 + r4"
    by (simp_all add: n400_def r1_def n100_def r2_def n4_def r3_def n1_def r4_def)
  have o: "(y, m, d) = (if n1 = 4 \<or> n100 = 4 then (Y - 1, 12, 31)
      else case month_day (month_lengths (is_leap Y)) 1 r4 of (m, d) \<Rightarrow> (Y, m, d))"
    unfolding assms(2) [symmetric] ord2ymd_def Let_def Y_def n1_def n100_def n4_def n400_def r4_def
      r3_def r2_def r1_def r_def by (rule refl)
  have le: "n100 \<le> 4" "n4 < 25" "n1 \<le> 4" using b1 e by linarith+
  show ?thesis
  proof (cases "n1 = 4 \<or> n100 = 4")
    case False
    then have lt: "n100 < 4" "n1 < 4" using le by auto
    obtain mm dd where md: "month_day (month_lengths (is_leap Y)) 1 r4 = (mm, dd)"
      by (metis prod.exhaust)
    with o False have y: "y = Y" "m = mm" "d = dd" by auto
    have "r4 < sum_list (month_lengths (is_leap Y))"
      using b1 by (simp add: sum_month_lengths)
    from month_day_sum [OF md this] have s: "1 \<le> mm" "mm \<le> 12" "1 \<le> dd"
      "dd \<le> month_lengths (is_leap Y) ! (mm - 1)"
      "sum_list (take (mm - 1) (month_lengths (is_leap Y))) + dd = r4 + 1" by auto
    have "days_before_year Y = n400 * 146097 + n100 * 36524 + n4 * 1461 + n1 * 365"
      unfolding Y_def by (rule days_before_year_parts [OF lt(1) le(2) lt(2)])
    with s e assms(1) show ?thesis
      by (auto simp: y ymd2ord_def days_before_month_def days_in_month_def r_def Y_def)
  next
    case True
    then have y: "y = Y - 1" "m = 12" "d = 31" using o by auto
    have dec: "days_before_month z 12 = 335" if "is_leap z" for z
      using that by (simp add: days_before_month_def month_lengths_def)
    have n: "n = r + 1" using assms(1) by (simp add: r_def)
    consider (a) "n100 = 4" "r2 = 0" "n4 = 0" "n1 = 0" | (b) "n1 = 4" "r4 = 0" "n100 < 4" "n4 < 24"
      using True b1 e le by linarith
    then show ?thesis
    proof cases
      case a
      then have Y: "Y - 1 = n400 * 400 + 3 * 100 + 24 * 4 + 3 + 1" by (simp add: Y_def)
      have "Y - 1 = 400 * (n400 + 1)" and "Y - 1 = 4 * (100 * (n400 + 1))" using Y by simp_all
      then have "(Y - 1) mod 400 = 0" and "(Y - 1) mod 4 = 0" by (metis mod_mult_self1_is_0)+
      then have l: "is_leap (Y - 1)" by (simp add: is_leap_def)
      have "days_before_year (Y - 1) = n400 * 146097 + 3 * 36524 + 24 * 1461 + 3 * 365"
        unfolding Y by (rule days_before_year_parts) simp_all
      then have "ymd2ord (Y - 1) 12 31 = n"
        unfolding ymd2ord_def dec [OF l] using a e n by linarith
      then show ?thesis using l Y by (simp add: y days_in_month_def month_lengths_def)
    next
      case b
      then have Y: "Y - 1 = n400 * 400 + n100 * 100 + n4 * 4 + 3 + 1" by (simp add: Y_def)
      have "Y - 1 = 4 * (100 * n400 + 25 * n100 + n4 + 1)" using Y by simp
      then have "(Y - 1) mod 4 = 0" by simp
      moreover have "Y - 1 = 4 * (n4 + 1) + (4 * n400 + n100) * 100" using Y by simp
      then have "(Y - 1) mod 100 = 4 * (n4 + 1)" using b by (simp only: mod_mult_self1) simp
      ultimately have l: "is_leap (Y - 1)" by (simp add: is_leap_def)
      have "days_before_year (Y - 1) = n400 * 146097 + n100 * 36524 + n4 * 1461 + 3 * 365"
        unfolding Y using b by (intro days_before_year_parts) simp_all
      then have "ymd2ord (Y - 1) 12 31 = n"
        unfolding ymd2ord_def dec [OF l] using b e n by linarith
      then show ?thesis using l Y by (simp add: y days_in_month_def month_lengths_def)
    qed
  qed
qed

section \<open>ISO text\<close>

text \<open>\<open>n\<close> in \<open>k\<close> decimal digits.\<close>

fun digits :: "nat \<Rightarrow> nat \<Rightarrow> string" where
  "digits 0 n = []"
| "digits (Suc k) n = digits k (n div 10) @ [char_of (48 + n mod 10)]"

text \<open>Exactly \<open>k\<close> digits at the front of a text.\<close>

definition take_num :: "nat \<Rightarrow> string \<Rightarrow> (nat \<times> string) option" where
  "take_num k s =
     (if length s < k \<or> \<not> list_all is_digit (take k s) then None
      else Some (dec_value (take k s), drop k s))"

fun take_char :: "char \<Rightarrow> string \<Rightarrow> string option" where
  "take_char c [] = None"
| "take_char c (d # s) = (if d = c then Some s else None)"

definition US_PER_SECOND :: int where "US_PER_SECOND = 1000000"
definition US_PER_DAY :: int where "US_PER_DAY = 86400000000"

definition MAX_ORDINAL :: nat where "MAX_ORDINAL = 3652059"

definition valid_instant :: "int \<Rightarrow> bool" where
  "valid_instant t \<longleftrightarrow> 0 \<le> t \<and> t < int MAX_ORDINAL * US_PER_DAY"

text \<open>\<open>isoformat()\<close> of a UTC instant; microseconds are written only when there are some.\<close>

definition iso :: "int \<Rightarrow> string" where
  "iso t =
     (let us = nat (t mod US_PER_SECOND);
          sec = nat (t div US_PER_SECOND);
          sod = sec mod 86400
      in case ord2ymd (sec div 86400 + 1) of
           (y, m, d) \<Rightarrow>
             digits 4 y @ ''-'' @ digits 2 m @ ''-'' @ digits 2 d @ ''T''
             @ digits 2 (sod div 3600) @ '':'' @ digits 2 (sod div 60 mod 60) @ '':''
             @ digits 2 (sod mod 60)
             @ (if us = 0 then [] else ''.'' @ digits 6 us) @ ''+00:00'')"

text \<open>The parts of \<open>fromisoformat\<close>; each returns its value and the rest of the text.\<close>

definition parse_date :: "string \<Rightarrow> (nat \<times> string) option" where
  "parse_date s =
     Option.bind (take_num 4 s) (\<lambda>(y, s1).
     Option.bind (take_char (CHR ''-'') s1) (\<lambda>s2.
     Option.bind (take_num 2 s2) (\<lambda>(m, s3).
     Option.bind (take_char (CHR ''-'') s3) (\<lambda>s4.
     Option.bind (take_num 2 s4) (\<lambda>(d, s5).
       if 1 \<le> y \<and> 1 \<le> m \<and> m \<le> 12 \<and> 1 \<le> d \<and> d \<le> days_in_month y m
       then Some (ymd2ord y m d, s5) else None)))))"

definition parse_clock :: "string \<Rightarrow> (nat \<times> string) option" where
  "parse_clock s =
     Option.bind (take_num 2 s) (\<lambda>(h, s1).
     Option.bind (take_char (CHR '':'') s1) (\<lambda>s2.
     Option.bind (take_num 2 s2) (\<lambda>(mi, s3).
       if h < 24 \<and> mi < 60 then Some (h * 3600 + mi * 60, s3) else None)))"

definition parse_seconds :: "string \<Rightarrow> (nat \<times> string) option" where
  "parse_seconds s =
     (case take_char (CHR '':'') s of
        None \<Rightarrow> Some (0, s)
      | Some s1 \<Rightarrow> Option.bind (take_num 2 s1) (\<lambda>(n, s2). if n < 60 then Some (n, s2) else None))"

definition parse_fraction :: "string \<Rightarrow> (nat \<times> string) option" where
  "parse_fraction s =
     (case take_char (CHR ''.'') s of
        None \<Rightarrow> Some (0, s)
      | Some s1 \<Rightarrow>
          (case take_num 6 s1 of
             Some r \<Rightarrow> Some r
           | None \<Rightarrow> map_option (\<lambda>(n, s2). (n * 1000, s2)) (take_num 3 s1)))"

text \<open>The offset in seconds; an absent one reads as UTC, which the program sets.\<close>

definition parse_offset :: "string \<Rightarrow> int option" where
  "parse_offset s =
     (case s of
        [] \<Rightarrow> Some 0
      | c # s1 \<Rightarrow>
          (if c = CHR ''+'' \<or> c = CHR ''-''
           then (case parse_clock s1 of
                   Some (n, []) \<Rightarrow> Some (if c = CHR ''+'' then int n else - int n)
                 | _ \<Rightarrow> None)
           else None))"

definition from_iso :: "string \<Rightarrow> int option" where
  "from_iso s =
     Option.bind (parse_date s) (\<lambda>(ordinal, s1).
       let day = int (ordinal - 1) * US_PER_DAY
       in case s1 of
            [] \<Rightarrow> Some day
          | sep # s2 \<Rightarrow>
              Option.bind (parse_clock s2) (\<lambda>(hm, s3).
              Option.bind (parse_seconds s3) (\<lambda>(sec, s4).
              Option.bind (parse_fraction s4) (\<lambda>(us, s5).
              Option.bind (parse_offset s5) (\<lambda>off.
                Some (day + (int (hm + sec) - off) * US_PER_SECOND + int us))))))"

lemma length_digits [simp]: "length (digits k n) = k"
  by (induction k arbitrary: n) simp_all

lemma of_char_digit: "d < 10 \<Longrightarrow> of_char (char_of (48 + d) :: char) = 48 + d"
  for d :: nat
  by (simp add: of_char_of)

lemma is_digit_char: "is_digit (char_of (48 + n mod 10))"
  for n :: nat
  by (simp add: is_digit_def of_char_digit)

lemma digits_are_digits: "list_all is_digit (digits k n)"
  by (induction k arbitrary: n) (simp_all add: is_digit_char)

lemma dec_value_digits: "dec_value (digits k n) = n mod 10 ^ k"
proof (induction k arbitrary: n)
  case 0
  then show ?case by (simp add: dec_value_def)
next
  case (Suc k)
  have "dec_value (digits (Suc k) n) = 10 * dec_value (digits k (n div 10)) + n mod 10"
    by (simp add: dec_value_def digit_val_def of_char_digit)
  also have "\<dots> = 10 * (n div 10 mod 10 ^ k) + n mod 10" by (simp add: Suc)
  also have "\<dots> = n mod 10 ^ Suc k" by (simp add: mod_mult2_eq)
  finally show ?case .
qed

lemma take_num_digits: "n < 10 ^ k \<Longrightarrow> take_num k (digits k n @ s) = Some (n, s)"
  by (simp add: take_num_def digits_are_digits dec_value_digits)

lemma ordinal_year_bound:
  assumes "1 \<le> n" and "n \<le> MAX_ORDINAL" and "ord2ymd n = (y, m, d)"
  shows "y < 10000"
proof (rule ccontr)
  assume "\<not> y < 10000"
  then have p: "9999 \<le> y - 1" by simp
  have "MAX_ORDINAL \<le> days_before_year y"
  proof (cases "y - 1 = 9999")
    case True
    then show ?thesis by (simp add: days_before_year_def Let_def MAX_ORDINAL_def)
  next
    case False
    define q where "q = y - 1"
    have "10000 \<le> q" using p False by (simp add: q_def)
    moreover have "q < 4 * (q div 4) + 4" and "100 * (q div 100) \<le> q" by simp_all
    ultimately have "MAX_ORDINAL + q div 100 \<le> q * 365 + q div 4"
      unfolding MAX_ORDINAL_def by linarith
    then show ?thesis unfolding days_before_year_def Let_def q_def [symmetric] by linarith
  qed
  moreover have "ymd2ord y m d = n" and "1 \<le> d"
    using ord2ymd_inverse [OF assms(1,3)] by auto
  ultimately show False using assms(2) by (simp add: ymd2ord_def)
qed

lemma parse_date_ymd:
  assumes "1 \<le> n" and "n \<le> MAX_ORDINAL" and "ord2ymd n = (y, m, d)"
  shows "parse_date (digits 4 y @ CHR ''-'' # digits 2 m @ CHR ''-'' # digits 2 d @ s) = Some (n, s)"
proof -
  note o = ord2ymd_inverse [OF assms(1,3)] and y = ordinal_year_bound [OF assms]
  have "days_in_month y m \<le> 31"
    using o by (auto simp: days_in_month_def month_lengths_def nth_Cons split: nat.splits)
  with o have "m < 10 ^ 2" "d < 10 ^ 2" by auto
  moreover have "y < 10 ^ 4" using y by simp
  ultimately show ?thesis using o by (simp add: parse_date_def take_num_digits)
qed

lemma parse_clock_digits:
  "h < 24 \<Longrightarrow> mi < 60 \<Longrightarrow>
     parse_clock (digits 2 h @ CHR '':'' # digits 2 mi @ s) = Some (h * 3600 + mi * 60, s)"
  by (simp add: parse_clock_def take_num_digits)

lemma parse_seconds_digits:
  "n < 60 \<Longrightarrow> parse_seconds (CHR '':'' # digits 2 n @ s) = Some (n, s)"
  by (simp add: parse_seconds_def take_num_digits)

lemma parse_fraction_digits:
  "n < 10 ^ 6 \<Longrightarrow> parse_fraction (CHR ''.'' # digits 6 n @ s) = Some (n, s)"
  by (simp add: parse_fraction_def take_num_digits del: power_numeral)

lemma parse_offset_utc: "parse_offset ''+00:00'' = Some 0"
  by code_simp

lemma clock_parts:
  fixes k :: nat
  shows "k div 3600 * 3600 + k div 60 mod 60 * 60 + k mod 60 = k"
proof -
  have "k div 3600 = k div 60 div 60" by (simp add: div_mult2_eq [symmetric])
  moreover have "k div 60 = k div 60 div 60 * 60 + k div 60 mod 60" by simp
  moreover have "k = k div 60 * 60 + k mod 60" by simp
  ultimately show ?thesis by linarith
qed

lemma from_iso_iso:
  assumes "valid_instant t"
  shows "from_iso (iso t) = Some t"
proof -
  define us sec where "us = nat (t mod US_PER_SECOND)" and "sec = nat (t div US_PER_SECOND)"
  define n k where "n = sec div 86400 + 1" and "k = sec mod 86400"
  have t0: "0 \<le> t" using assms by (simp add: valid_instant_def)
  have t: "t = int sec * US_PER_SECOND + int us"
    using t0 by (simp add: us_def sec_def US_PER_SECOND_def pos_imp_zdiv_nonneg_iff)
  have us: "us < 10 ^ 6" by (simp add: us_def US_PER_SECOND_def nat_less_iff)
  have "int sec < 3652059 * 86400"
    using assms t by (simp add: valid_instant_def MAX_ORDINAL_def US_PER_DAY_def US_PER_SECOND_def)
  then have "sec div 86400 < 3652059" by (simp add: less_mult_imp_div_less)
  then have n: "1 \<le> n" "n \<le> MAX_ORDINAL" by (simp_all add: n_def MAX_ORDINAL_def)
  obtain y m d where o: "ord2ymd n = (y, m, d)" by (cases "ord2ymd n")
  have k: "k div 3600 < 24" "k div 60 mod 60 < 60" "k mod 60 < 60"
    by (simp_all add: k_def less_mult_imp_div_less)
  let ?f = "if us = 0 then [] else CHR ''.'' # digits 6 us"
  have i: "iso t = digits 4 y @ CHR ''-'' # digits 2 m @ CHR ''-'' # digits 2 d
     @ CHR ''T'' # digits 2 (k div 3600) @ CHR '':'' # digits 2 (k div 60 mod 60)
     @ CHR '':'' # digits 2 (k mod 60) @ ?f @ ''+00:00''"
    unfolding iso_def Let_def us_def [symmetric] sec_def [symmetric] k_def [symmetric]
      n_def [symmetric] o by simp
  have f: "parse_fraction (?f @ ''+00:00'') = Some (us, ''+00:00'')"
    using parse_fraction_digits [OF us] by (simp add: parse_fraction_def)
  have "from_iso (iso t) = Some (int (n - 1) * US_PER_DAY
      + (int (k div 3600 * 3600 + k div 60 mod 60 * 60 + k mod 60) - 0) * US_PER_SECOND + int us)"
    by (simp only: i from_iso_def parse_date_ymd [OF n o] parse_clock_digits [OF k(1,2)]
        parse_seconds_digits [OF k(3)] f parse_offset_utc bind.bind_lunit case_prod_conv list.case Let_def)
  also have "int (n - 1) * US_PER_DAY
      + (int (k div 3600 * 3600 + k div 60 mod 60 * 60 + k mod 60) - 0) * US_PER_SECOND + int us = t"
  proof -
    have "int sec = int (sec div 86400) * 86400 + int k"
      unfolding k_def by (metis div_mult_mod_eq of_nat_add of_nat_mult of_nat_numeral)
    then show ?thesis
      unfolding clock_parts t by (simp add: n_def US_PER_DAY_def US_PER_SECOND_def)
  qed
  finally show ?thesis .
qed

end
