(* ===== verification/Cron.thy ===== *)
theory Cron
  imports Store DateTime
begin

text \<open>
  Scheduled work of \<open>core/cron/__init__.py\<close> and \<open>core/cron/checkback.py\<close>: matching of a cron
  expression, the fire times between two instants, the sweep that claims due fires by advancing
  a watermark per cron, the record cache, and the one-shot checkbacks of workers.

  Time zones are data outside the program: a zone is a pair of maps between UTC and local
  microseconds, and an unknown name gives UTC. \<open>croniter\<close>, an optional package, is a parameter;
  where it is absent or raises, the program's own loop over the minutes runs.
\<close>

section \<open>Records\<close>

text \<open>The comprehension runs over a list, the keys of an object or the characters of a text.\<close>

definition records_of :: "pyv \<Rightarrow> dict list result" where
  "records_of v =
     (case v of
        PList xs \<Rightarrow> Inr (map dict_items (filter is_dict xs))
      | PDict d \<Rightarrow> Inr []
      | PStr t \<Rightarrow> Inr []
      | _ \<Rightarrow> Inl (TypeError ''not iterable''))"

definition records_from_payload :: "pyv \<Rightarrow> dict list result" where
  "records_from_payload payload =
     records_of (case payload of
            PList xs \<Rightarrow> PList xs
          | PDict d \<Rightarrow> py_or (dget d ''crons'') (py_or (dget d ''data'')
                         (py_or (dget d ''results'') (PList [])))
          | _ \<Rightarrow> PList [])"

text \<open>\<open>str(a or b or "").strip()\<close> of the first field that is set.\<close>

definition first_field :: "(pyv \<Rightarrow> string) \<Rightarrow> dict \<Rightarrow> string list \<Rightarrow> string" where
  "first_field rp r keys =
     strip (str_or_empty rp (foldr (\<lambda>k v. py_or (dget r k) v) keys (PStr [])))"

definition cron_id :: "(pyv \<Rightarrow> string) \<Rightarrow> dict \<Rightarrow> string" where
  "cron_id rp r = first_field rp r [''cron_id'', ''id'']"

definition cron_trigger :: "(pyv \<Rightarrow> string) \<Rightarrow> dict \<Rightarrow> string" where
  "cron_trigger rp r = first_field rp r [''trigger'', ''schedule'']"

definition cron_task :: "(pyv \<Rightarrow> string) \<Rightarrow> dict \<Rightarrow> string" where
  "cron_task rp r = first_field rp r [''task'', ''body'', ''text'']"

definition cron_timezone :: "(pyv \<Rightarrow> string) \<Rightarrow> dict \<Rightarrow> string" where
  "cron_timezone rp r =
     (let z = strip (py_str rp (py_or (dget r ''timezone'') (py_or (dget r ''tz'') (PStr ''UTC''))))
      in if z = [] then ''UTC'' else z)"

definition cron_active :: "dict \<Rightarrow> bool" where
  "cron_active r = truthy (dget_or r ''active'' (PBool True))"

section \<open>Cron expressions\<close>

text \<open>\<open>s.split(c, 1)\<close> of a text that contains \<open>c\<close>.\<close>

fun split_once :: "char \<Rightarrow> string \<Rightarrow> string \<times> string" where
  "split_once c [] = ([], [])"
| "split_once c (d # s) = (if d = c then ([], s) else case split_once c s of (a, b) \<Rightarrow> (d # a, b))"

text \<open>
  The range and the step of one part of a field; \<open>None\<close> where a number does not read as one.
\<close>

definition part_step :: "string \<Rightarrow> (string \<times> int) option" where
  "part_step part =
     (if CHR ''/'' \<in> set part
      then (case split_once (CHR ''/'') part of
              (p, raw_step) \<Rightarrow> map_option (\<lambda>n. (p, max n 1)) (parse_int raw_step))
      else Some (part, 1))"

definition part_range :: "string \<Rightarrow> int \<Rightarrow> int \<Rightarrow> (int \<times> int) option" where
  "part_range part min_value max_value =
     (if part = ''*'' then Some (min_value, max_value)
      else if CHR ''-'' \<in> set part
      then (case split_once (CHR ''-'') part of
              (a, b) \<Rightarrow> (case (parse_int a, parse_int b) of
                          (Some x, Some y) \<Rightarrow> Some (x, y) | _ \<Rightarrow> None))
      else map_option (\<lambda>n. (n, n)) (parse_int part))"

fun match_parts :: "int \<Rightarrow> int \<Rightarrow> int \<Rightarrow> string list \<Rightarrow> bool" where
  "match_parts value min_value max_value [] = False"
| "match_parts value min_value max_value (raw # rest) =
     (let part = strip raw
      in if part = [] then match_parts value min_value max_value rest
         else (case part_step part of
                 None \<Rightarrow> False
               | Some (p, step) \<Rightarrow>
                   (case part_range p min_value max_value of
                      None \<Rightarrow> False
                    | Some (start, stop) \<Rightarrow>
                        (if start \<le> value \<and> value \<le> stop \<and> (value - start) mod step = 0 then True
                         else match_parts value min_value max_value rest))))"

definition match_part :: "int \<Rightarrow> string \<Rightarrow> int \<Rightarrow> int \<Rightarrow> bool" where
  "match_part value raw min_value max_value =
     (let expr = strip raw
      in if expr = ''*'' then True
         else match_parts value min_value max_value (split_on (CHR '','') expr))"

text \<open>
  The five fields of a local minute, counted from 0001-01-01T00:00, a Monday: minute, hour, day,
  month, and the day of the week with Sunday as 0.
\<close>

definition minute_fields :: "int \<Rightarrow> int \<times> int \<times> int \<times> int \<times> int" where
  "minute_fields m =
     (let day = nat (m div 1440)
      in case ord2ymd (day + 1) of
           (y, mo, d) \<Rightarrow> (m mod 60, m div 60 mod 24, int d, int mo, (int day mod 7 + 1) mod 7))"

definition minute_matches :: "string list \<Rightarrow> int \<Rightarrow> bool" where
  "minute_matches fields m =
     (case minute_fields m of
        (mi, h, d, mo, wd) \<Rightarrow>
          (let dom = fields ! 2; dow = fields ! 4;
               dom_match = match_part d dom 1 31;
               dow_match = match_part wd dow 0 7;
               day_ok = (if dow = ''*'' then dom_match else if dom = ''*'' then dow_match
                         else dom_match \<or> dow_match)
           in match_part mi (fields ! 0) 0 59 \<and> match_part h (fields ! 1) 0 23 \<and> day_ok
              \<and> match_part mo (fields ! 3) 1 12))"

definition US_PER_MINUTE :: int where "US_PER_MINUTE = 60000000"
definition MAX_CHECKED :: nat where "MAX_CHECKED = 600000"

function fallback_loop ::
  "string list \<Rightarrow> int \<Rightarrow> nat \<Rightarrow> int \<Rightarrow> nat \<Rightarrow> int list \<Rightarrow> int list" where
  "fallback_loop fields stop limit cursor checked fires =
     (if cursor * US_PER_MINUTE \<le> stop \<and> checked < MAX_CHECKED \<and> length fires < limit
      then fallback_loop fields stop limit (cursor + 1) (Suc checked)
             (if minute_matches fields cursor then fires @ [cursor * US_PER_MINUTE] else fires)
      else fires)"
  by pat_completeness auto
termination by (relation "measure (\<lambda>(fields, stop, limit, cursor, checked, fires). MAX_CHECKED - checked)") auto

declare fallback_loop.simps [simp del]

text \<open>\<open>_fallback_fire_times\<close>, on local microseconds.\<close>

definition fallback_fire_times :: "string \<Rightarrow> int \<Rightarrow> int \<Rightarrow> nat \<Rightarrow> int list" where
  "fallback_fire_times trigger start stop limit =
     (let fields = split_ws trigger
      in if length fields \<noteq> 5 then []
         else fallback_loop fields stop limit (start div US_PER_MINUTE + 1) 0 [])"

section \<open>Fire times\<close>

record zone =
  to_local :: "int \<Rightarrow> int"
  to_utc :: "int \<Rightarrow> int"

definition utc_zone :: zone where
  "utc_zone = \<lparr>to_local = (\<lambda>t. t), to_utc = (\<lambda>t. t)\<rparr>"

text \<open>
  \<open>ce_zone\<close> is \<open>ZoneInfo(name)\<close>, \<open>None\<close> where it raises. \<open>ce_croniter trigger zone start k\<close> is the
  \<open>k\<close>-th local fire time an iterator started at \<open>start\<close> returns, an exception in any place
  (the import and the constructor included) an \<open>Inl\<close>. \<open>ce_status\<close> is the status text of a
  worker, \<open>ce_text\<close> the text of an exception.
\<close>

record cron_env =
  ce_repr :: "pyv \<Rightarrow> string"
  ce_zone :: "string \<Rightarrow> zone option"
  ce_croniter :: "string \<Rightarrow> string \<Rightarrow> int \<Rightarrow> nat \<Rightarrow> int result"
  ce_status :: "string \<Rightarrow> pyv \<Rightarrow> string result"
  ce_text :: "pyerr \<Rightarrow> string"

definition zone_named :: "cron_env \<Rightarrow> string \<Rightarrow> zone" where
  "zone_named C name = (case ce_zone C name of None \<Rightarrow> utc_zone | Some z \<Rightarrow> z)"

text \<open>The iteration over \<open>croniter\<close>; \<open>n\<close> is what is left of the limit.\<close>

fun croniter_loop :: "(nat \<Rightarrow> int result) \<Rightarrow> int \<Rightarrow> nat \<Rightarrow> nat \<Rightarrow> int list result" where
  "croniter_loop nxt now k 0 = Inr []"
| "croniter_loop nxt now k (Suc n) =
     (case nxt k of
        Inl e \<Rightarrow> Inl e
      | Inr t \<Rightarrow> if t > now then Inr []
                 else map_sum id ((#) t) (croniter_loop nxt now (Suc k) n))"

definition fire_times_between ::
  "cron_env \<Rightarrow> string \<Rightarrow> int \<Rightarrow> int \<Rightarrow> string \<Rightarrow> nat \<Rightarrow> int list" where
  "fire_times_between C trigger watermark now timezone_name limit =
     (let z = zone_named C timezone_name;
          start_local = to_local z watermark;
          now_local = to_local z now
      in if now_local \<le> start_local then []
         else map (to_utc z)
                (case croniter_loop (ce_croniter C trigger timezone_name start_local) now_local 0 limit of
                   Inr fires \<Rightarrow> fires
                 | Inl e \<Rightarrow> fallback_fire_times trigger start_local now_local limit))"

section \<open>Targets and context\<close>

definition target_of :: "(pyv \<Rightarrow> string) \<Rightarrow> dict \<Rightarrow> (string \<times> string) option" where
  "target_of rp raw =
     (let kind = lower (py_str rp (py_or (dget raw ''kind'') (py_or (dget raw ''type'')
                   (py_or (dget raw ''contact_type'') (PStr ''carbon'')))));
          fixed_id = first_field rp raw [''id'', ''carbon_id'', ''silicon_id'']
      in if fixed_id = [] then None
         else Some (if py_contains ''silicon'' kind then ''silicon'' else ''carbon'', fixed_id))"

definition cron_targets :: "(pyv \<Rightarrow> string) \<Rightarrow> dict \<Rightarrow> (string \<times> string) list" where
  "cron_targets rp r =
     (let raw = py_or (dget r ''for_targets'') (py_or (dget r ''targets'') (PList []));
          raws = (case raw of PDict d \<Rightarrow> [PDict d] | PList xs \<Rightarrow> xs | _ \<Rightarrow> []);
          t1 = List.map_filter (target_of rp) (map dict_items (filter is_dict raws));
          t2 = (if t1 = [] \<and> truthy (dget r ''carbon_id'')
                then [(''carbon'', py_str rp (dget r ''carbon_id''))] else t1)
      in if t2 = [] \<and> truthy (dget r ''silicon_id'')
         then [(''silicon'', py_str rp (dget r ''silicon_id''))] else t2)"

definition newline :: string where "newline = [char_of (10::nat)]"

definition cron_context :: "(pyv \<Rightarrow> string) \<Rightarrow> dict \<Rightarrow> int \<Rightarrow> nat \<Rightarrow> string" where
  "cron_context rp r fire missed_count =
     py_join newline
       ([''Glass cron fired'', ''cron_id: '' @ cron_id rp r, ''trigger: '' @ cron_trigger rp r,
         ''glass_timezone: '' @ cron_timezone rp r,
         ''scheduled_fire_time_utc: '' @ iso fire,
         ''missed: '' @ (if missed_count > 1 then ''true'' else ''false'')]
        @ (if missed_count > 1
           then [''missed_run_count: '' @ show_nat missed_count, ''collapsed: true''] else [])
        @ [''task:'', cron_task rp r])"

section \<open>The sweep\<close>

definition parse_iso :: "(pyv \<Rightarrow> string) \<Rightarrow> pyv \<Rightarrow> int option" where
  "parse_iso rp v =
     (if \<not> truthy v then None
      else from_iso (replace_char (CHR ''Z'') ''+00:00'' (py_str rp v)))"

record due_cron =
  du_record :: dict
  du_latest :: int
  du_count :: nat
  du_context :: string

definition FIRE_LIMIT :: nat where "FIRE_LIMIT = 250"

text \<open>
  One record under the lock: the entries of the state document after it, and the due fire. An
  entry that is not an object makes the assignment into it raise.
\<close>

definition claim_entry ::
  "cron_env \<Rightarrow> int \<Rightarrow> dict \<Rightarrow> dict \<Rightarrow> (due_cron option \<times> dict) result" where
  "claim_entry C now r entry =
     (let e1 = dput ''last_checked_utc'' (PStr (iso now)) entry
      in if \<not> has_key e1 ''watermark_utc''
         then let e2 = dput ''watermark_utc'' (PStr (iso now)) e1
              in Inr (None, if has_key e2 ''missed_run_count'' then e2
                            else dput ''missed_run_count'' (PInt 0) e2)
         else if \<not> cron_active r then Inr (None, e1)
         else let watermark = (case parse_iso (ce_repr C) (dget e1 ''watermark_utc'') of
                                 None \<Rightarrow> now | Some t \<Rightarrow> t);
                  fires = fire_times_between C (cron_trigger (ce_repr C) r) watermark now
                            (cron_timezone (ce_repr C) r) FIRE_LIMIT
              in if fires = [] then Inr (None, e1)
                 else let latest = last fires;
                          e2 = dput ''last_run_utc'' (PStr (iso latest))
                                 (dput ''watermark_utc'' (PStr (iso latest)) e1);
                          finish = (\<lambda>e. (Some \<lparr>du_record = r, du_latest = latest,
                                        du_count = length fires,
                                        du_context = cron_context (ce_repr C) r latest (length fires)\<rparr>,
                                      dput ''last_result''
                                        (PDict [(''status'', PStr ''queued''),
                                                (''count'', PInt (int (length fires)))]) e))
                      in if length fires > 1
                         then (case py_int (py_or (dget e2 ''missed_run_count'') (PInt 0)) of
                                 Inl err \<Rightarrow> Inl err
                               | Inr n \<Rightarrow> Inr (finish (dput ''missed_run_count''
                                            (PInt (n + int (length fires))) e2)))
                         else Inr (finish e2))"

definition claim_record ::
  "cron_env \<Rightarrow> int \<Rightarrow> dict \<Rightarrow> dict \<Rightarrow> (due_cron option \<times> dict) result" where
  "claim_record C now r crons =
     (let i = cron_id (ce_repr C) r
      in if i = [] \<or> cron_trigger (ce_repr C) r = [] then Inr (None, crons)
         else (case dget_or crons i (PDict []) of
                 PDict entry \<Rightarrow>
                   (case claim_entry C now r entry of
                      Inl e \<Rightarrow> Inl e
                    | Inr (due, entry') \<Rightarrow> Inr (due, dput i (PDict entry') crons))
               | _ \<Rightarrow> Inl (TypeError ''item assignment'')))"

fun claim_records ::
  "cron_env \<Rightarrow> int \<Rightarrow> dict list \<Rightarrow> dict \<Rightarrow> (due_cron list \<times> dict) result" where
  "claim_records C now [] crons = Inr ([], crons)"
| "claim_records C now (r # rs) crons =
     (case claim_record C now r crons of
        Inl e \<Rightarrow> Inl e
      | Inr (due, crons1) \<Rightarrow>
          (case claim_records C now rs crons1 of
             Inl e \<Rightarrow> Inl e
           | Inr (dues, crons2) \<Rightarrow> Inr ((case due of None \<Rightarrow> dues | Some d \<Rightarrow> d # dues), crons2)))"

text \<open>
  The part of \<open>_check_glass_crons\<close> under the file lock, on the stored state document
  (\<open>None\<close>: no file). An exception leaves the document as it was.
\<close>

definition cron_state_doc :: "pyv option \<Rightarrow> pyv" where
  "cron_state_doc f =
     (case f of None \<Rightarrow> PDict [(''version'', PInt 1), (''crons'', PDict [])] | Some d \<Rightarrow> d)"

definition load_cron_state :: "pyv option \<Rightarrow> dict result" where
  "load_cron_state f =
     (case cron_state_doc f of
        PDict d \<Rightarrow>
          (let d1 = (if has_key d ''version'' then d else dput ''version'' (PInt 1) d)
           in Inr (if has_key d1 ''crons'' then d1 else dput ''crons'' (PDict []) d1))
      | _ \<Rightarrow> Inl (AttributeError ''setdefault''))"

definition sweep_glass_crons ::
  "cron_env \<Rightarrow> int \<Rightarrow> dict list \<Rightarrow> pyv option \<Rightarrow> (due_cron list \<times> pyv option) result" where
  "sweep_glass_crons C now records f =
     (case load_cron_state f of
        Inl e \<Rightarrow> Inl e
      | Inr d \<Rightarrow>
          (case dget d ''crons'' of
             PDict crons \<Rightarrow>
               (case claim_records C now records crons of
                  Inl e \<Rightarrow> Inl e
                | Inr (dues, crons') \<Rightarrow> Inr (dues, Some (PDict (dput ''crons'' (PDict crons') d))))
           | _ \<Rightarrow> (if list_ex (\<lambda>r. cron_id (ce_repr C) r \<noteq> [] \<and> cron_trigger (ce_repr C) r \<noteq> []) records
                   then Inl (AttributeError ''setdefault'') else Inr ([], Some (PDict d)))))"

text \<open>
  Delivery: every target of every due cron that resolves to a contact gets the context; the
  texts of one contact are joined. \<open>resolve\<close> is \<open>ensure_contact_for_target\<close>, \<open>None\<close> where it
  raises or names no contact.
\<close>

definition add_result :: "string \<Rightarrow> string \<Rightarrow> (string \<times> string list) list \<Rightarrow> (string \<times> string list) list" where
  "add_result contact text results =
     AList.update contact ((case map_of results contact of None \<Rightarrow> [] | Some ts \<Rightarrow> ts) @ [text]) results"

definition deliver_due ::
  "(pyv \<Rightarrow> string) \<Rightarrow> (string \<times> string \<Rightarrow> string option) \<Rightarrow> due_cron list \<Rightarrow> (string \<times> string list) list" where
  "deliver_due rp resolve dues =
     foldl (\<lambda>acc (contact, text). add_result contact text acc) []
       (concat (map (\<lambda>d. List.map_filter (\<lambda>t. map_option (\<lambda>c. (c, du_context d)) (resolve t))
                          (cron_targets rp (du_record d))) dues))"

definition join_results :: "(string \<times> string list) list \<Rightarrow> (string \<times> string) list" where
  "join_results results = map (\<lambda>(c, ts). (c, py_join (newline @ newline) ts)) results"

definition check_glass_crons ::
  "cron_env \<Rightarrow> int \<Rightarrow> (string \<times> string \<Rightarrow> string option) \<Rightarrow> dict list \<Rightarrow> pyv option
     \<Rightarrow> ((string \<times> string) list \<times> pyv option) result" where
  "check_glass_crons C now resolve records f =
     (case sweep_glass_crons C now records f of
        Inl e \<Rightarrow> Inl e
      | Inr (dues, f') \<Rightarrow> Inr (join_results (deliver_due (ce_repr C) resolve dues), f'))"

section \<open>The record cache\<close>

definition CRON_CACHE_FALLBACK_SECONDS :: rat where "CRON_CACHE_FALLBACK_SECONDS = 300"

definition cache_doc :: "rat \<Rightarrow> dict list \<Rightarrow> pyv" where
  "cache_doc now records =
     PDict [(''version'', PInt 1), (''fetched_at'', PFloat now),
            (''records'', PList (map PDict records))]"

text \<open>
  \<open>invalidated\<close> is the comparison of the two files' modification times; \<open>listing\<close> is the answer
  of \<open>crons_list\<close>, whose failures are \<open>InterfaceError\<close>. The cache file is \<open>None\<close> when absent.
\<close>

definition load_cached_cron_records ::
  "rat \<Rightarrow> bool \<Rightarrow> pyv result \<Rightarrow> pyv option \<Rightarrow> (dict list \<times> pyv option) result" where
  "load_cached_cron_records now invalidated listing cache =
     (let doc = (case cache of None \<Rightarrow> PDict [] | Some d \<Rightarrow> d)
      in case (if is_dict doc then records_from_payload (get doc ''records'') else Inr []) of
           Inl e \<Rightarrow> Inl e
         | Inr cached \<Rightarrow>
             (case (if is_dict doc then py_float (py_or (get doc ''fetched_at'') (PFloat 0)) else Inr 0) of
                Inl e \<Rightarrow> Inl e
              | Inr fetched_at \<Rightarrow>
                  if fetched_at > 0 \<and> now - fetched_at < CRON_CACHE_FALLBACK_SECONDS \<and> \<not> invalidated
                  then Inr (cached, cache)
                  else (case listing of
                          Inl e \<Rightarrow> Inr (cached, cache)
                        | Inr payload \<Rightarrow>
                            (case records_from_payload payload of
                               Inl e \<Rightarrow> Inl e
                             | Inr records \<Rightarrow> Inr (records, Some (cache_doc now records))))))"

section \<open>Checkbacks\<close>

text \<open>
  The checkback documents; \<open>update_json\<close> starts from an empty object when there is no file and
  leaves a document that is not an object alone.
\<close>

definition checkback_doc :: "pyv option \<Rightarrow> pyv" where
  "checkback_doc f = (case f of None \<Rightarrow> PDict [] | Some d \<Rightarrow> d)"

definition add_checkback :: "rat \<Rightarrow> string \<Rightarrow> pyv \<Rightarrow> rat \<Rightarrow> pyv option \<Rightarrow> pyv option" where
  "add_checkback now worker_id carbon_id minutes f =
     Some (put worker_id (PDict
       [(''carbon_id'', carbon_id), (''trigger_at'', PFloat (now + minutes * 60)),
        (''checkback_minutes'', PFloat minutes)]) (checkback_doc f))"

definition remove_checkback :: "string \<Rightarrow> pyv option \<Rightarrow> pyv option" where
  "remove_checkback worker_id f =
     Some (case checkback_doc f of PDict d \<Rightarrow> PDict (dpop worker_id d) | v \<Rightarrow> v)"

record checkback_job =
  cj_worker :: string
  cj_name :: string
  cj_carbon :: pyv
  cj_trigger_at :: pyv

definition checkback_name :: "string \<Rightarrow> string" where
  "checkback_name worker_id = ''checkback_'' @ worker_id"

fun checkback_jobs :: "dict \<Rightarrow> checkback_job list result" where
  "checkback_jobs [] = Inr []"
| "checkback_jobs ((worker_id, info) # rest) =
     (if \<not> is_dict info then Inl (TypeError ''subscript'')
      else if \<not> has_key (dict_items info) ''carbon_id'' then Inl (OtherError ''KeyError'' ''carbon_id'')
      else if \<not> has_key (dict_items info) ''trigger_at'' then Inl (OtherError ''KeyError'' ''trigger_at'')
      else map_sum id ((#) \<lparr>cj_worker = worker_id, cj_name = checkback_name worker_id,
                           cj_carbon = get info ''carbon_id'', cj_trigger_at = get info ''trigger_at''\<rparr>)
             (checkback_jobs rest))"

definition get_checkback_jobs :: "pyv option \<Rightarrow> checkback_job list result" where
  "get_checkback_jobs f = checkback_jobs (dict_items (checkback_doc f))"

text \<open>
  The trigger \<open>last is None and time.time() >= t\<close>; a time that cannot be compared raises, which
  counts as not due.
\<close>

definition checkback_due :: "rat \<Rightarrow> dict \<Rightarrow> checkback_job \<Rightarrow> bool" where
  "checkback_due now history j \<longleftrightarrow>
     dget history (cj_name j) = PNone
     \<and> (case py_num (cj_trigger_at j) of None \<Rightarrow> False | Some t \<Rightarrow> t \<le> now)"

definition checkback_text :: "cron_env \<Rightarrow> checkback_job \<Rightarrow> string \<Rightarrow> string" where
  "checkback_text C j status =
     py_join newline
       [''Checkback '' @ [CHR 0x27] @ cj_name j @ [CHR 0x27],
        ''Instructions: Worker '' @ [CHR 0x27] @ cj_worker j @ [CHR 0x27]
          @ '' checkback triggered. Here'' @ [CHR 0x27] @ ''s the status. Decide if you need to check again (use the checkback tool) or if the worker is done.'',
        ''Output: Checkback for worker '' @ [CHR 0x27] @ cj_worker j @ [CHR 0x27] @ '':'' @ newline @ status]"

text \<open>
  The loop over the jobs: the results per contact, the history and the checkbacks file. The
  claim that is saved before the execution is overwritten by the entry after it; \<open>on_error\<close> does
  nothing.
\<close>

fun run_checkbacks ::
  "cron_env \<Rightarrow> rat \<Rightarrow> checkback_job list \<Rightarrow> (pyv \<times> string list) list \<Rightarrow> dict \<Rightarrow> pyv option
     \<Rightarrow> (pyv \<times> string list) list \<times> dict \<times> pyv option" where
  "run_checkbacks C now [] results history f = (results, history, f)"
| "run_checkbacks C now (j # js) results history f =
     (if \<not> truthy (cj_carbon j) \<or> \<not> checkback_due now history j
      then run_checkbacks C now js results history f
      else (case ce_status C (cj_worker j) (cj_carbon j) of
              Inl e \<Rightarrow>
                run_checkbacks C now js results
                  (dput (cj_name j) (PDict [(''last_run'', PFloat now), (''error'', PStr (ce_text C e))])
                    history) f
            | Inr status \<Rightarrow>
                run_checkbacks C now js
                  (AList.update (cj_carbon j)
                    ((case map_of results (cj_carbon j) of None \<Rightarrow> [] | Some ts \<Rightarrow> ts)
                      @ [checkback_text C j status]) results)
                  (dput (cj_name j) (PDict [(''last_run'', PFloat now)]) history)
                  (remove_checkback (cj_worker j) f)))"

definition check_checkbacks ::
  "cron_env \<Rightarrow> rat \<Rightarrow> dict \<Rightarrow> pyv option \<Rightarrow> ((pyv \<times> string) list \<times> dict \<times> pyv option) result" where
  "check_checkbacks C now history f =
     (case get_checkback_jobs f of
        Inl e \<Rightarrow> Inl e
      | Inr jobs \<Rightarrow>
          (case run_checkbacks C now jobs [] history f of
             (results, history', f') \<Rightarrow>
               Inr (map (\<lambda>(c, ts). (c, py_join (newline @ newline) ts)) results, history', f')))"

section \<open>Tools\<close>

text \<open>The Glass client of the tools, and \<open>json.dumps\<close>.\<close>

record cron_client =
  cl_create :: "string \<Rightarrow> string \<Rightarrow> pyv \<Rightarrow> pyv result"
  cl_update :: "string \<Rightarrow> pyv \<Rightarrow> pyv \<Rightarrow> pyv \<Rightarrow> pyv result"
  cl_delete :: "string \<Rightarrow> pyv result"
  cl_list :: "pyv result"
  cl_dumps :: "pyv \<Rightarrow> string"

record cron_files =
  cf_state :: "pyv option"
  cf_cache :: "pyv option"
  cf_invalidated :: bool

definition remove_cron :: "string \<Rightarrow> pyv option \<Rightarrow> pyv option result" where
  "remove_cron i f =
     (case cron_state_doc f of
        PDict d \<Rightarrow>
          (case dget_or d ''crons'' (PDict []) of
             PDict crons \<Rightarrow> Inr (Some (PDict (dput ''crons'' (PDict (dpop i crons)) d)))
           | _ \<Rightarrow> Inl (AttributeError ''pop''))
      | v \<Rightarrow> Inr (Some v))"

definition tool_reply :: "cron_client \<Rightarrow> string \<Rightarrow> pyv \<Rightarrow> string" where
  "tool_reply K tool payload = ''Tool '' @ [CHR 0x27] @ tool @ [CHR 0x27] @ '': '' @ cl_dumps K payload"

definition tool_error :: "string \<Rightarrow> string \<Rightarrow> string" where
  "tool_error tool msg = ''Tool '' @ [CHR 0x27] @ tool @ [CHR 0x27] @ '': Error: '' @ msg"

definition execute_cron_tool ::
  "(pyv \<Rightarrow> string) \<Rightarrow> cron_client \<Rightarrow> rat \<Rightarrow> dict \<Rightarrow> cron_files \<Rightarrow> (string \<times> cron_files) result" where
  "execute_cron_tool rp K now spec files =
     (let tool = dget_or spec ''tool'' (PStr []);
          field = (\<lambda>k. strip (str_or_empty rp (dget spec k)))
      in if tool = PStr ''cron/create''
         then (let targets = py_or (dget spec ''targets'') (PList [])
               in if field ''trigger'' = [] \<or> field ''task'' = []
                  then Inr (tool_error ''cron/create'' ''trigger and task are required'', files)
                  else if \<not> is_list targets \<or> \<not> truthy targets
                  then Inr (tool_error ''cron/create'' ''targets is required'', files)
                  else (case cl_create K (field ''trigger'') (field ''task'') targets of
                          Inl e \<Rightarrow> Inl e
                        | Inr payload \<Rightarrow>
                            Inr (tool_reply K ''cron/create'' payload, files\<lparr>cf_invalidated := True\<rparr>)))
         else if tool = PStr ''cron/update''
         then (if field ''cron_id'' = []
               then Inr (tool_error ''cron/update'' ''cron_id is required'', files)
               else (case cl_update K (field ''cron_id'') (dget spec ''trigger'') (dget spec ''task'')
                            (dget spec ''active'') of
                       Inl e \<Rightarrow> Inl e
                     | Inr payload \<Rightarrow>
                         Inr (tool_reply K ''cron/update'' payload, files\<lparr>cf_invalidated := True\<rparr>)))
         else if tool = PStr ''cron/delete''
         then (if field ''cron_id'' = []
               then Inr (tool_error ''cron/delete'' ''cron_id is required'', files)
               else (case cl_delete K (field ''cron_id'') of
                       Inl e \<Rightarrow> Inl e
                     | Inr payload \<Rightarrow>
                         (case remove_cron (field ''cron_id'') (cf_state files) of
                            Inl e \<Rightarrow> Inl e
                          | Inr st \<Rightarrow>
                              Inr (tool_reply K ''cron/delete'' payload,
                                   files\<lparr>cf_state := st, cf_invalidated := True\<rparr>))))
         else if tool = PStr ''cron/list''
         then (case cl_list K of
                 Inl e \<Rightarrow> Inl e
               | Inr payload \<Rightarrow>
                   (case records_from_payload payload of
                      Inl e \<Rightarrow> Inl e
                    | Inr records \<Rightarrow>
                        Inr (tool_reply K ''cron/list'' payload,
                             files\<lparr>cf_cache := Some (cache_doc now records), cf_invalidated := False\<rparr>)))
         else Inr (''Unknown cron tool: '' @ [CHR 0x27] @ py_str rp tool @ [CHR 0x27], files))"

text \<open>\<open>check_crons\<close>: nothing is claimed while new roots are refused; the texts of both sources merge.\<close>

definition merge_results :: "(pyv \<times> string) list \<Rightarrow> (string \<times> string) list \<Rightarrow> (pyv \<times> string) list" where
  "merge_results a b =
     map (\<lambda>(c, ts). (c, py_join (newline @ newline) ts))
       (foldl (\<lambda>acc (c, text). if text = [] then acc
                 else AList.update c ((case map_of acc c of None \<Rightarrow> [] | Some ts \<Rightarrow> ts) @ [text]) acc)
          [] (a @ map (\<lambda>(c, text). (PStr c, text)) b))"

definition check_crons ::
  "cron_env \<Rightarrow> bool \<Rightarrow> rat \<Rightarrow> int \<Rightarrow> (string \<times> string \<Rightarrow> string option) \<Rightarrow> pyv result \<Rightarrow> dict \<Rightarrow> pyv option
     \<Rightarrow> cron_files \<Rightarrow> ((pyv \<times> string) list \<times> dict \<times> pyv option \<times> cron_files) result" where
  "check_crons C accepting now now_utc resolve listing history checkbacks files =
     (if \<not> accepting then Inr ([], history, checkbacks, files)
      else (case check_checkbacks C now history checkbacks of
              Inl e \<Rightarrow> Inl e
            | Inr (texts, history', checkbacks') \<Rightarrow>
                (case load_cached_cron_records now (cf_invalidated files) listing (cf_cache files) of
                   Inl e \<Rightarrow> Inl e
                 | Inr (records, cache') \<Rightarrow>
                     (case check_glass_crons C now_utc resolve records (cf_state files) of
                        Inl e \<Rightarrow> Inl e
                      | Inr (results, state') \<Rightarrow>
                          Inr (merge_results texts results, history', checkbacks',
                               files\<lparr>cf_state := state', cf_cache := cache',
                                     cf_invalidated := cf_invalidated files \<and> cache' = cf_cache files\<rparr>)))))"

end
