(* ===== verification/CronSpec.thy ===== *)
theory CronSpec
  imports Cron
begin

text \<open>
  Properties of scheduled work: the stored instants read back, the minute loop is the filter of
  the minutes in its window, a fire is claimed once, and what the sweep does with checkbacks.
\<close>

section \<open>Stored instants\<close>

lemma replace_char_notin: "c \<notin> set s \<Longrightarrow> replace_char c b s = s"
  by (induction s) (auto simp: replace_char_def)

lemma digits_not_letter: "\<not> is_digit c \<Longrightarrow> c \<notin> set (digits k n)"
  using digits_are_digits [of k n] by (auto simp: list_all_iff)

lemma not_digit_Z [simp]: "\<not> is_digit CHR ''Z''"
  by code_simp

lemma iso_no_Z: "CHR ''Z'' \<notin> set (iso t)"
  by (simp add: iso_def Let_def digits_not_letter split: prod.splits)

lemma iso_not_empty: "iso t \<noteq> []"
  by (simp add: iso_def Let_def split: prod.splits)

text \<open>
  An instant written into the state is read back as the same instant, to the microsecond,
  whatever the year, month and leap day it falls in.
\<close>

theorem stored_instant_roundtrip:
  assumes "valid_instant t"
  shows "parse_iso rp (PStr (iso t)) = Some t"
  using from_iso_iso [OF assms] by (simp add: parse_iso_def iso_not_empty replace_char_notin iso_no_Z)

theorem stored_instant_roundtrip_witness:
  "parse_iso (\<lambda>v. []) (PStr (iso 63844934400000123)) = Some 63844934400000123"
  by (rule stored_instant_roundtrip) (simp add: valid_instant_def MAX_ORDINAL_def US_PER_DAY_def)

section \<open>The minute loop\<close>

text \<open>The minutes the loop looks at: after the start, up to the end, at most 600000 of them.\<close>

definition window :: "int \<Rightarrow> nat \<Rightarrow> int \<Rightarrow> int list" where
  "window stop checked cursor =
     [cursor..min (stop div US_PER_MINUTE) (cursor + int (MAX_CHECKED - checked) - 1)]"

lemma us_per_minute_nz [simp]: "US_PER_MINUTE \<noteq> 0"
  by (simp add: US_PER_MINUTE_def)

lemma cursor_le_iff: "cursor * US_PER_MINUTE \<le> stop \<longleftrightarrow> cursor \<le> stop div US_PER_MINUTE"
proof
  assume "cursor * US_PER_MINUTE \<le> stop"
  then have "cursor * US_PER_MINUTE div US_PER_MINUTE \<le> stop div US_PER_MINUTE"
    by (rule zdiv_mono1) (simp add: US_PER_MINUTE_def)
  then show "cursor \<le> stop div US_PER_MINUTE" by (simp add: US_PER_MINUTE_def)
next
  assume c: "cursor \<le> stop div US_PER_MINUTE"
  have "stop div US_PER_MINUTE * US_PER_MINUTE \<le> stop"
    by (simp add: US_PER_MINUTE_def)
  moreover have "cursor * US_PER_MINUTE \<le> stop div US_PER_MINUTE * US_PER_MINUTE"
    using c by (intro mult_right_mono) (simp_all add: US_PER_MINUTE_def)
  ultimately show "cursor * US_PER_MINUTE \<le> stop" by linarith
qed

lemma window_Cons:
  assumes "cursor * US_PER_MINUTE \<le> stop" and "checked < MAX_CHECKED"
  shows "window stop checked cursor = cursor # window stop (Suc checked) (cursor + 1)"
proof -
  have "int (MAX_CHECKED - checked) = int (MAX_CHECKED - Suc checked) + 1" using assms(2) by simp
  moreover have "cursor \<le> stop div US_PER_MINUTE" using assms(1) by (simp add: cursor_le_iff)
  ultimately show ?thesis by (simp add: window_def upto_rec1)
qed

lemma window_nil:
  assumes "\<not> (cursor * US_PER_MINUTE \<le> stop \<and> checked < MAX_CHECKED)"
  shows "window stop checked cursor = []"
  using assms by (auto simp: window_def cursor_le_iff)

lemma fallback_loop_eq:
  "fallback_loop fs stop limit cursor checked fires =
    (if length fires < limit
     then take limit (fires @ map (\<lambda>m. m * US_PER_MINUTE)
            (filter (minute_matches fs) (window stop checked cursor)))
     else fires)"
proof (induction fs stop limit cursor checked fires rule: fallback_loop.induct)
  case (1 fs stop limit cursor checked fires)
  show ?case
  proof (cases "cursor * US_PER_MINUTE \<le> stop \<and> checked < MAX_CHECKED \<and> length fires < limit")
    case True
    then have w: "window stop checked cursor = cursor # window stop (Suc checked) (cursor + 1)"
      by (simp add: window_Cons)
    show ?thesis
      using True 1 [OF True] by (subst fallback_loop.simps) (auto simp: w take_Cons')
  next
    case False
    then show ?thesis
      using window_nil [of cursor stop checked] by (subst fallback_loop.simps) auto
  qed
qed

text \<open>
  C14: without \<open>croniter\<close>, the fire times are exactly the minutes after the watermark and up to
  now, of the next 600000, that match the expression, earliest first, as many as the limit
  allows: none is missed and none invented.
\<close>

theorem fallback_fire_times_eq:
  assumes "0 < limit"
  shows "fallback_fire_times trigger start stop limit =
    (if length (split_ws trigger) = 5
     then take limit (map (\<lambda>m. m * US_PER_MINUTE)
            (filter (minute_matches (split_ws trigger))
              [start div US_PER_MINUTE + 1..min (stop div US_PER_MINUTE) (600000 + start div US_PER_MINUTE)]))
     else [])"
  using assms
  by (simp add: fallback_fire_times_def Let_def fallback_loop_eq window_def MAX_CHECKED_def)

lemma ex_fields: "minute_fields 1063994955 = (15, 9, 1, 1, 1)"
  by (simp add: minute_fields_def ord2ymd_def month_lengths_def is_leap_def)

lemma ex_trigger: "split_ws ''*/15 9 * * 1-5'' = [''*/15'', ''9'', ''*'', ''*'', ''1-5'']"
  by code_simp

lemma ex_parts: "match_part 15 ''*/15'' 0 59" "match_part 9 ''9'' 0 23" "match_part 1 ''1-5'' 0 7"
  "match_part 1 ''*'' 1 12"
  by code_simp+

lemma ex_minute: "minute_matches (split_ws ''*/15 9 * * 1-5'') 1063994955"
  by (simp add: minute_matches_def ex_fields ex_trigger ex_parts Let_def)

theorem fallback_fire_times_eq_witness:
  "fallback_fire_times ''*/15 9 * * 1-5'' (1063994954 * US_PER_MINUTE) (1063994955 * US_PER_MINUTE) 250
   = [1063994955 * US_PER_MINUTE]"
proof -
  have l: "length (split_ws ''*/15 9 * * 1-5'') = 5" by (simp add: ex_trigger)
  have w: "[1063994954 + 1..min 1063994955 (600000 + 1063994954)] = [1063994955 :: int]" by simp
  show ?thesis
    unfolding fallback_fire_times_eq [OF zero_less_numeral] using l ex_minute
    by (simp only: nonzero_mult_div_cancel_right [OF us_per_minute_nz] w filter.simps if_True list.map
        refl) simp
qed

lemma fallback_bounds:
  assumes "f \<in> set (fallback_fire_times trigger start stop limit)"
  shows "start < f \<and> f \<le> stop"
proof -
  from assms obtain m where f: "f = m * US_PER_MINUTE" and m: "start div US_PER_MINUTE + 1 \<le> m"
    and s: "m \<le> stop div US_PER_MINUTE"
    by (auto simp: fallback_fire_times_def Let_def fallback_loop_eq window_def
        split: if_splits dest!: in_set_takeD)
  have "\<not> m * US_PER_MINUTE \<le> start" using m unfolding cursor_le_iff by linarith
  moreover have "m * US_PER_MINUTE \<le> stop" using s by (simp add: cursor_le_iff)
  ultimately show ?thesis using f by linarith
qed

section \<open>A fire is claimed once\<close>

text \<open>
  A zone whose offset from UTC does not change: UTC itself, which a cron has when it names no
  zone, and the zones without daylight saving.
\<close>

definition fixed_zone :: "int \<Rightarrow> zone" where
  "fixed_zone off = \<lparr>to_local = (\<lambda>t. t + off), to_utc = (\<lambda>l. l - off)\<rparr>"

lemma fixed_zone_simps [simp]:
  "to_local (fixed_zone off) t = t + off" "to_utc (fixed_zone off) = (\<lambda>l. l - off)"
  by (simp_all add: fixed_zone_def)

text \<open>
  What \<open>croniter\<close> documents of its iteration in such a zone: each time it returns comes after
  the one it started from.
\<close>

definition croniter_after_start :: "cron_env \<Rightarrow> string \<Rightarrow> bool" where
  "croniter_after_start C tz \<longleftrightarrow>
     (\<forall>trigger start k t. ce_croniter C trigger tz start k = Inr t \<longrightarrow> start < t)"

lemma croniter_loop_bounds:
  assumes "croniter_loop nxt now k n = Inr fires" and "\<And>k t. nxt k = Inr t \<Longrightarrow> start < t"
    and "f \<in> set fires"
  shows "start < f \<and> f \<le> now"
  using assms
proof (induction nxt now k n arbitrary: fires rule: croniter_loop.induct)
  case (2 nxt now k n)
  obtain t where t: "nxt k = Inr t" using 2(2) by (cases "nxt k") auto
  show ?case
  proof (cases "t > now")
    case True
    with 2 t show ?thesis by auto
  next
    case False
    with 2(2) t obtain fs where "croniter_loop nxt now (Suc k) n = Inr fs" and "fires = t # fs"
      by (cases "croniter_loop nxt now (Suc k) n") auto
    with 2(1) [OF t False] 2(3,4) t False show ?thesis by auto
  qed
qed auto

text \<open>Every fire time lies after the watermark and not after now.\<close>

lemma fire_times_bounds:
  assumes "croniter_after_start C tz" and "zone_named C tz = fixed_zone off"
    and "t \<in> set (fire_times_between C trigger watermark now tz limit)"
  shows "watermark < t \<and> t \<le> now"
proof -
  let ?c = "croniter_loop (ce_croniter C trigger tz (watermark + off)) (now + off) 0 limit"
  from assms(2,3) obtain l where t: "t = l - off"
    and l: "l \<in> set (case ?c of Inr fires \<Rightarrow> fires
              | Inl e \<Rightarrow> fallback_fire_times trigger (watermark + off) (now + off) limit)"
    by (auto simp: fire_times_between_def Let_def cong: sum.case_cong split: if_splits)
  have "watermark + off < l \<and> l \<le> now + off"
  proof (cases ?c)
    case (Inl e)
    with l show ?thesis using fallback_bounds by auto
  next
    case (Inr fires)
    show ?thesis
    proof (rule croniter_loop_bounds [OF Inr])
      show "l \<in> set fires" using l Inr by simp
    qed (use assms(1) in \<open>auto simp: croniter_after_start_def\<close>)
  qed
  then show ?thesis by (simp add: t)
qed

lemma dget_iso_parse:
  "valid_instant t \<Longrightarrow> parse_iso rp (PStr (iso t)) = Some t"
  using from_iso_iso [of t] by (simp add: parse_iso_def iso_not_empty replace_char_notin iso_no_Z)

text \<open>What a claim leaves in the entry: the watermark is the latest fire it delivers.\<close>

lemma claim_entry_due:
  assumes "claim_entry C now r entry = Inr (Some d, entry')"
  obtains w where "dget entry' ''watermark_utc'' = PStr (iso (du_latest d))"
    and "w = (case parse_iso (ce_repr C) (dget entry ''watermark_utc'') of None \<Rightarrow> now | Some t \<Rightarrow> t)"
    and "du_latest d \<in> set (fire_times_between C (cron_trigger (ce_repr C) r) w now
            (cron_timezone (ce_repr C) r) FIRE_LIMIT)"
    and "has_key entry ''watermark_utc''"
proof -
  let ?w = "case parse_iso (ce_repr C) (dget entry ''watermark_utc'') of None \<Rightarrow> now | Some t \<Rightarrow> t"
  let ?f = "fire_times_between C (cron_trigger (ce_repr C) r) ?w now (cron_timezone (ce_repr C) r) FIRE_LIMIT"
  have k: "has_key entry ''watermark_utc''"
    using assms by (auto simp: claim_entry_def Let_def split: if_splits)
  have f: "?f \<noteq> []"
    using assms k by (auto simp: claim_entry_def Let_def split: if_splits)
  have "dget entry' ''watermark_utc'' = PStr (iso (last ?f)) \<and> du_latest d = last ?f"
    using assms k f by (auto simp: claim_entry_def Let_def split: if_splits sum.splits)
  then show thesis using that f k by simp
qed

lemma claim_entry_record:
  "claim_entry C now r entry = Inr (Some d, entry') \<Longrightarrow> du_record d = r"
  by (auto simp: claim_entry_def Let_def split: if_splits sum.splits)

lemma claim_entry_keeps:
  assumes "claim_entry C now r entry = Inr (None, entry')" and "has_key entry ''watermark_utc''"
  shows "dget entry' ''watermark_utc'' = dget entry ''watermark_utc''"
  using assms by (auto simp: claim_entry_def Let_def split: if_splits sum.splits)

text \<open>The watermark of a cron stands at a time not before \<open>b\<close>.\<close>

definition passed :: "cron_env \<Rightarrow> string \<Rightarrow> int \<Rightarrow> dict \<Rightarrow> bool" where
  "passed C i b crons \<longleftrightarrow> (\<exists>entry w. dget_or crons i (PDict []) = PDict entry
     \<and> parse_iso (ce_repr C) (dget entry ''watermark_utc'') = Some w \<and> b \<le> w)"

text \<open>The claims of one cron among those of a sweep, or of many.\<close>

definition claims_of :: "cron_env \<Rightarrow> string \<Rightarrow> due_cron list \<Rightarrow> due_cron list" where
  "claims_of C i dues = filter (\<lambda>d. cron_id (ce_repr C) (du_record d) = i) dues"

lemma claims_of_simps [simp]:
  "claims_of C i [] = []" "claims_of C i (xs @ ys) = claims_of C i xs @ claims_of C i ys"
  "claims_of C i (d # ds) =
     (if cron_id (ce_repr C) (du_record d) = i then d # claims_of C i ds else claims_of C i ds)"
  by (simp_all add: claims_of_def)

lemma set_claims_of: "set (claims_of C i dues) \<subseteq> set dues"
  by (auto simp: claims_of_def)

definition steady :: "cron_env \<Rightarrow> dict \<Rightarrow> bool" where
  "steady C r \<longleftrightarrow> (\<exists>off. zone_named C (cron_timezone (ce_repr C) r) = fixed_zone off)
     \<and> croniter_after_start C (cron_timezone (ce_repr C) r)"

lemma parse_some_key:
  "parse_iso rp (dget e k) = Some w \<Longrightarrow> has_key e k"
  by (auto simp: parse_iso_def dget_def has_key_def split: option.splits if_splits)

lemma claim_record_due:
  assumes "claim_record C now r crons = Inr (Some d, crons')" and "valid_instant (du_latest d)"
  shows "du_record d = r" and "passed C (cron_id (ce_repr C) r) (du_latest d) crons'"
proof -
  from assms(1) obtain e1 e2 where c: "claim_entry C now r e1 = Inr (Some d, e2)"
    and g: "crons' = dput (cron_id (ce_repr C) r) (PDict e2) crons"
    by (auto simp: claim_record_def Let_def split: if_splits pyv.splits sum.splits)
  from c show "du_record d = r" by (rule claim_entry_record)
  from c have "dget e2 ''watermark_utc'' = PStr (iso (du_latest d))" by (rule claim_entry_due)
  then show "passed C (cron_id (ce_repr C) r) (du_latest d) crons'"
    by (simp add: passed_def g dget_or_def dget_iso_parse [OF assms(2)])
qed

lemma claim_record_passed:
  assumes "claim_record C now r crons = Inr (due, crons')" and "passed C i b crons"
    and "\<And>d. due = Some d \<Longrightarrow> valid_instant (du_latest d)"
    and "cron_id (ce_repr C) r = i \<Longrightarrow> steady C r"
  shows "passed C i b crons' \<and> (\<forall>d. due = Some d \<longrightarrow> cron_id (ce_repr C) r = i \<longrightarrow> b < du_latest d)"
proof (cases "cron_id (ce_repr C) r = i \<and> i \<noteq> [] \<and> cron_trigger (ce_repr C) r \<noteq> []")
  case False
  with assms(1,2) show ?thesis
    by (auto simp: claim_record_def passed_def Let_def dget_or_def
        split: if_splits pyv.splits sum.splits)
next
  case True
  from assms(2) obtain e1 w where e1: "dget_or crons i (PDict []) = PDict e1"
    and w: "parse_iso (ce_repr C) (dget e1 ''watermark_utc'') = Some w" "b \<le> w"
    by (auto simp: passed_def)
  from assms(1) True e1 obtain e2 where c: "claim_entry C now r e1 = Inr (due, e2)"
    and g: "crons' = dput i (PDict e2) crons"
    by (auto simp: claim_record_def Let_def split: if_splits sum.splits)
  show ?thesis
  proof (cases due)
    case None
    have "dget e2 ''watermark_utc'' = dget e1 ''watermark_utc''"
      using claim_entry_keeps [OF c [unfolded None] parse_some_key [OF w(1)]] .
    with w None show ?thesis by (auto simp: passed_def g dget_or_def)
  next
    case (Some d)
    from True assms(4) obtain off where z: "zone_named C (cron_timezone (ce_repr C) r) = fixed_zone off"
      and a: "croniter_after_start C (cron_timezone (ce_repr C) r)" by (auto simp: steady_def)
    from c Some have c': "claim_entry C now r e1 = Inr (Some d, e2)" by simp
    then have "du_latest d \<in> set (fire_times_between C (cron_trigger (ce_repr C) r) w now
        (cron_timezone (ce_repr C) r) FIRE_LIMIT)"
      by (rule claim_entry_due) (simp add: w)
    then have "w < du_latest d" using fire_times_bounds [OF a z] by blast
    moreover have "dget e2 ''watermark_utc'' = PStr (iso (du_latest d))"
      using c' by (rule claim_entry_due)
    ultimately show ?thesis
      using w(2) by (auto simp: passed_def g dget_or_def Some dget_iso_parse [OF assms(3) [OF Some]])
  qed
qed

text \<open>
  What a batch of claims keeps: they come in increasing order of their times, after every time
  the watermark had passed, and the watermark passes each of them.
\<close>

definition claims_ok :: "cron_env \<Rightarrow> string \<Rightarrow> (int \<Rightarrow> bool) \<Rightarrow> (int \<Rightarrow> bool) \<Rightarrow> due_cron list \<Rightarrow> bool" where
  "claims_ok C i P Q dues \<longleftrightarrow>
     sorted_wrt (\<lambda>d d'. du_latest d < du_latest d') (claims_of C i dues)
     \<and> (\<forall>b. P b \<longrightarrow> Q b \<and> (\<forall>d \<in> set (claims_of C i dues). b < du_latest d))
     \<and> (\<forall>d \<in> set (claims_of C i dues). Q (du_latest d))"

lemma claims_ok_append:
  assumes "claims_ok C i P Q xs" and "claims_ok C i Q R ys"
  shows "claims_ok C i P R (xs @ ys)"
  using assms by (auto simp: claims_ok_def sorted_wrt_append)

lemma claims_ok_nil: "(\<And>b. P b \<Longrightarrow> Q b) \<Longrightarrow> claims_ok C i P Q []"
  by (simp add: claims_ok_def)

lemma claim_record_ok:
  assumes "claim_record C now r crons = Inr (due, crons')"
    and "\<forall>d. due = Some d \<longrightarrow> valid_instant (du_latest d)"
    and "cron_id (ce_repr C) r = i \<longrightarrow> steady C r"
  shows "claims_ok C i (\<lambda>b. passed C i b crons) (\<lambda>b. passed C i b crons')
    (case due of None \<Rightarrow> [] | Some d \<Rightarrow> [d])"
proof (cases due)
  case None
  then show ?thesis using claim_record_passed [OF assms(1)] assms(2,3) by (simp add: claims_ok_nil)
next
  case (Some d)
  with assms(1,2) claim_record_due have "du_record d = r"
    and "passed C (cron_id (ce_repr C) r) (du_latest d) crons'" by blast+
  with Some show ?thesis
    using claim_record_passed [OF assms(1)] assms(2,3) by (auto simp: claims_ok_def)
qed

lemma claim_records_ok:
  assumes "claim_records C now rs crons = Inr (dues, crons')"
    and "\<forall>d \<in> set dues. valid_instant (du_latest d)"
    and "\<forall>r \<in> set rs. cron_id (ce_repr C) r = i \<longrightarrow> steady C r"
  shows "claims_ok C i (\<lambda>b. passed C i b crons) (\<lambda>b. passed C i b crons') dues"
  using assms
proof (induction rs arbitrary: crons dues)
  case (Cons r rs)
  from Cons.prems(1) obtain due crons1 dues1 where
    c: "claim_record C now r crons = Inr (due, crons1)"
    and cs: "claim_records C now rs crons1 = Inr (dues1, crons')"
    and d: "dues = (case due of None \<Rightarrow> [] | Some d \<Rightarrow> [d]) @ dues1"
    by (auto split: sum.splits option.splits)
  have "claims_ok C i (\<lambda>b. passed C i b crons) (\<lambda>b. passed C i b crons1)
      (case due of None \<Rightarrow> [] | Some d \<Rightarrow> [d])"
    by (rule claim_record_ok [OF c]) (use Cons.prems(2,3) d in auto)
  moreover have "claims_ok C i (\<lambda>b. passed C i b crons1) (\<lambda>b. passed C i b crons') dues1"
    by (rule Cons.IH [OF cs]) (use Cons.prems(2,3) d in auto)
  ultimately show ?case unfolding d by (rule claims_ok_append)
qed (simp add: claims_ok_def)

definition passed_doc :: "cron_env \<Rightarrow> string \<Rightarrow> pyv option \<Rightarrow> int \<Rightarrow> bool" where
  "passed_doc C i f b \<longleftrightarrow>
     (\<exists>d crons. load_cron_state f = Inr d \<and> dget d ''crons'' = PDict crons \<and> passed C i b crons)"

lemma load_stored:
  assumes "load_cron_state f = Inr d"
  shows "load_cron_state (Some (PDict (dput ''crons'' v d))) = Inr (dput ''crons'' v d)"
    and "load_cron_state (Some (PDict d)) = Inr d"
  using assms by (auto simp: load_cron_state_def cron_state_doc_def has_key_def Let_def
      split: option.splits pyv.splits if_splits)

lemma sweep_ok:
  assumes "sweep_glass_crons C now rs f = Inr (dues, f')"
    and "\<forall>d \<in> set dues. valid_instant (du_latest d)"
    and "\<forall>r \<in> set rs. cron_id (ce_repr C) r = i \<longrightarrow> steady C r"
  shows "claims_ok C i (passed_doc C i f) (passed_doc C i f') dues"
proof -
  from assms(1) obtain d where d: "load_cron_state f = Inr d"
    by (auto simp: sweep_glass_crons_def split: sum.splits)
  show ?thesis
  proof (cases "\<exists>crons. dget d ''crons'' = PDict crons")
    case False
    with assms(1) d have "dues = []" and f': "f' = Some (PDict d)"
      by (auto simp: sweep_glass_crons_def split: pyv.splits if_splits)
    with False d show ?thesis by (auto simp: passed_doc_def load_stored intro: claims_ok_nil)
  next
    case True
    then obtain crons where cr: "dget d ''crons'' = PDict crons" ..
    with assms(1) d obtain crons' where c: "claim_records C now rs crons = Inr (dues, crons')"
      and f': "f' = Some (PDict (dput ''crons'' (PDict crons') d))"
      by (auto simp: sweep_glass_crons_def split: sum.splits)
    have "passed_doc C i f = (\<lambda>b. passed C i b crons)"
      and "passed_doc C i f' = (\<lambda>b. passed C i b crons')"
      using d cr by (auto simp: passed_doc_def f' load_stored)
    with claim_records_ok [OF c assms(2,3)] show ?thesis by simp
  qed
qed

text \<open>
  The sweeps of any number of processes, one after the other under the file lock: each with its
  clock and the records it was given; one that raises leaves the document as it was.
\<close>

fun cron_sweeps ::
  "cron_env \<Rightarrow> (int \<times> dict list) list \<Rightarrow> pyv option \<Rightarrow> due_cron list \<times> pyv option" where
  "cron_sweeps C [] f = ([], f)"
| "cron_sweeps C ((now, rs) # ss) f =
     (case sweep_glass_crons C now rs f of
        Inl e \<Rightarrow> cron_sweeps C ss f
      | Inr (dues, f1) \<Rightarrow> (let (later, f') = cron_sweeps C ss f1 in (dues @ later, f')))"

lemma cron_sweeps_ok:
  assumes "cron_sweeps C ss f = (dues, f')"
    and "\<forall>d \<in> set dues. valid_instant (du_latest d)"
    and "\<forall>(now, rs) \<in> set ss. \<forall>r \<in> set rs. cron_id (ce_repr C) r = i \<longrightarrow> steady C r"
  shows "claims_ok C i (passed_doc C i f) (passed_doc C i f') dues"
  using assms
proof (induction C ss f arbitrary: dues rule: cron_sweeps.induct)
  case (2 C now rs ss f)
  show ?case
  proof (cases "sweep_glass_crons C now rs f")
    case (Inl e)
    with 2(1) 2(3-5) show ?thesis by simp
  next
    case (Inr r)
    obtain dues1 f1 where r: "r = (dues1, f1)" by (cases r)
    with Inr 2(3) obtain later where l: "cron_sweeps C ss f1 = (later, f')" and d: "dues = dues1 @ later"
      by (auto split: prod.splits)
    from Inr r have s: "sweep_glass_crons C now rs f = Inr (dues1, f1)" by simp
    have "claims_ok C i (passed_doc C i f) (passed_doc C i f1) dues1"
      by (rule sweep_ok [OF s]) (use 2(4,5) d in auto)
    moreover have "claims_ok C i (passed_doc C i f1) (passed_doc C i f') later"
      by (rule 2(2) [OF Inr r [symmetric] l]) (use 2(4,5) d in auto)
    ultimately show ?thesis unfolding d by (rule claims_ok_append)
  qed
qed (simp add: claims_ok_def)

text \<open>
  C13: in any run of sweeps no cron fires twice for one scheduled time: its claims, however many
  sweeps lie between them and however the clocks of the processes stand, are for strictly
  increasing times. The cron's records name zones of a fixed offset (UTC when they name none),
  its triggers may change between the sweeps, and the claimed times lie in the years
  \<open>datetime\<close> has.
\<close>

theorem no_double_fire:
  assumes "cron_sweeps C ss f = (dues, f')"
    and "\<forall>(now, rs) \<in> set ss. \<forall>r \<in> set rs. cron_id (ce_repr C) r = i \<longrightarrow>
           (\<exists>off. zone_named C (cron_timezone (ce_repr C) r) = fixed_zone off)
           \<and> croniter_after_start C (cron_timezone (ce_repr C) r)"
    and "\<forall>d \<in> set dues. valid_instant (du_latest d)"
  shows "sorted_wrt (\<lambda>d d'. du_latest d < du_latest d')
    (filter (\<lambda>d. cron_id (ce_repr C) (du_record d) = i) dues)"
  using cron_sweeps_ok [OF assms(1,3) assms(2) [folded steady_def]]
  by (simp add: claims_ok_def claims_of_def)

definition exC :: cron_env where
  "exC = \<lparr>ce_repr = (\<lambda>v. []), ce_zone = (\<lambda>n. None),
     ce_croniter = (\<lambda>trigger z start k. Inr (start + US_PER_MINUTE * (int k + 1))),
     ce_status = (\<lambda>w c. Inr ''done''), ce_text = (\<lambda>e. ''error'')\<rparr>"

definition ex_cron :: dict where
  "ex_cron = [(''cron_id'', PStr ''k''), (''trigger'', PStr ''* * * * *'')]"

definition ex_crons :: "int \<Rightarrow> dict" where
  "ex_crons t = [(''k'', PDict [(''watermark_utc'', PStr (iso t))])]"

lemma ex_cron_fields:
  "cron_id rp ex_cron = ''k''" "cron_trigger rp ex_cron = ''* * * * *''"
  "cron_timezone rp ex_cron = ''UTC''" "cron_active ex_cron"
  by (simp_all add: ex_cron_def cron_id_def cron_trigger_def cron_timezone_def first_field_def
      dget_Cons py_or_def cron_active_def dget_or_def strip_def)

lemma croniter_loop_one:
  "nxt k = Inr t \<Longrightarrow> nxt (Suc k) = Inr u \<Longrightarrow> t \<le> now \<Longrightarrow> now < u \<Longrightarrow>
     croniter_loop nxt now k (Suc (Suc n)) = Inr [t]"
  by simp

lemma ex_fires:
  "fire_times_between exC trigger t (t + US_PER_MINUTE) ''UTC'' FIRE_LIMIT = [t + US_PER_MINUTE]"
proof -
  have l: "FIRE_LIMIT = Suc (Suc 248)" by (simp add: FIRE_LIMIT_def)
  have "croniter_loop (ce_croniter exC trigger ''UTC'' t) (t + US_PER_MINUTE) 0 FIRE_LIMIT
      = Inr [t + US_PER_MINUTE]"
    unfolding l by (rule croniter_loop_one) (auto simp: exC_def US_PER_MINUTE_def)
  moreover have "zone_named exC ''UTC'' = utc_zone" by (simp add: exC_def zone_named_def)
  ultimately show ?thesis
    by (simp add: fire_times_between_def utc_zone_def US_PER_MINUTE_def)
qed

lemma ex_claim:
  assumes "valid_instant t" and "dget_or crons ''k'' (PDict []) = PDict entry"
    and "map_of entry ''watermark_utc'' = Some (PStr (iso t))"
  shows "\<exists>d crons' entry'. claim_record exC (t + US_PER_MINUTE) ex_cron crons = Inr (Some d, crons')
    \<and> du_latest d = t + US_PER_MINUTE \<and> dget_or crons' ''k'' (PDict []) = PDict entry'
    \<and> map_of entry' ''watermark_utc'' = Some (PStr (iso (t + US_PER_MINUTE)))"
  using assms(2,3)
  by (simp add: claim_record_def claim_entry_def ex_cron_fields dget_or_def [of _ "''k''" "PDict []"] Let_def
      dget_def [of entry] has_key_def dget_iso_parse [OF assms(1)] ex_fires)

definition ex_doc :: "int \<Rightarrow> pyv" where
  "ex_doc t = PDict [(''version'', PInt 1), (''crons'', PDict (ex_crons t))]"

lemma ex_sweep:
  assumes "load_cron_state f = Inr doc" and "dget doc ''crons'' = PDict crons"
    and "valid_instant t" and "dget_or crons ''k'' (PDict []) = PDict entry"
    and "map_of entry ''watermark_utc'' = Some (PStr (iso t))"
  shows "\<exists>d f' doc' crons' entry'. sweep_glass_crons exC (t + US_PER_MINUTE) [ex_cron] f = Inr ([d], f')
    \<and> du_latest d = t + US_PER_MINUTE \<and> du_record d = ex_cron \<and> load_cron_state f' = Inr doc'
    \<and> dget doc' ''crons'' = PDict crons' \<and> dget_or crons' ''k'' (PDict []) = PDict entry'
    \<and> map_of entry' ''watermark_utc'' = Some (PStr (iso (t + US_PER_MINUTE)))"
proof -
  obtain d crons' entry' where
    c: "claim_record exC (t + US_PER_MINUTE) ex_cron crons = Inr (Some d, crons')"
    and d: "du_latest d = t + US_PER_MINUTE" and e: "dget_or crons' ''k'' (PDict []) = PDict entry'"
      "map_of entry' ''watermark_utc'' = Some (PStr (iso (t + US_PER_MINUTE)))"
    using ex_claim [OF assms(3-5)] by blast
  have "du_record d = ex_cron"
    using c by (auto simp: claim_record_def Let_def claim_entry_record
        split: if_splits pyv.splits sum.splits)
  with c d e show ?thesis
    by (simp add: sweep_glass_crons_def assms(1,2) load_stored [OF assms(1)])
qed

theorem no_double_fire_witness:
  "\<exists>d d' f. cron_sweeps exC [(US_PER_MINUTE, [ex_cron]), (2 * US_PER_MINUTE, [ex_cron])] (Some (ex_doc 0))
       = ([d, d'], f) \<and> du_latest d < du_latest d'"
proof -
  have v: "valid_instant 0" "valid_instant US_PER_MINUTE" "valid_instant (2 * US_PER_MINUTE)"
    by (simp_all add: valid_instant_def MAX_ORDINAL_def US_PER_DAY_def US_PER_MINUTE_def)
  have l0: "load_cron_state (Some (ex_doc 0)) = Inr (dict_items (ex_doc 0))"
    "dget (dict_items (ex_doc 0)) ''crons'' = PDict (ex_crons 0)"
    "dget_or (ex_crons 0) ''k'' (PDict []) = PDict [(''watermark_utc'', PStr (iso 0))]"
    by (simp_all add: ex_doc_def ex_crons_def load_cron_state_def cron_state_doc_def has_key_def
        dget_or_def dget_Cons)
  from ex_sweep [OF l0(1,2) v(1) l0(3)] obtain d f1 doc crons e where
    s1: "sweep_glass_crons exC US_PER_MINUTE [ex_cron] (Some (ex_doc 0)) = Inr ([d], f1)"
    and d: "du_latest d = US_PER_MINUTE" "du_record d = ex_cron" and l1: "load_cron_state f1 = Inr doc"
      "dget doc ''crons'' = PDict crons" "dget_or crons ''k'' (PDict []) = PDict e"
      "map_of e ''watermark_utc'' = Some (PStr (iso US_PER_MINUTE))" by auto
  from ex_sweep [OF l1(1,2) v(2) l1(3,4)] obtain d' f2 where
    s2: "sweep_glass_crons exC (2 * US_PER_MINUTE) [ex_cron] f1 = Inr ([d'], f2)"
    and d': "du_latest d' = 2 * US_PER_MINUTE" "du_record d' = ex_cron" by auto
  have run: "cron_sweeps exC [(US_PER_MINUTE, [ex_cron]), (2 * US_PER_MINUTE, [ex_cron])] (Some (ex_doc 0))
      = ([d, d'], f2)"
    by (simp add: s1 s2)
  have z: "zone_named exC tz = fixed_zone 0" for tz
    by (simp add: zone_named_def exC_def fixed_zone_def utc_zone_def)
  have a: "croniter_after_start exC tz" for tz
    by (auto simp: croniter_after_start_def exC_def US_PER_MINUTE_def)
  have "sorted_wrt (\<lambda>d d'. du_latest d < du_latest d')
      (filter (\<lambda>d. cron_id (ce_repr exC) (du_record d) = ''k'') [d, d'])"
    by (rule no_double_fire [OF run]) (use z a v d d' in auto)
  with run show ?thesis by (simp add: d(2) d'(2) ex_cron_fields)
qed

section \<open>Sunday\<close>

lemma match_seven: "match_part v ''7'' lo hi \<longleftrightarrow> v = 7"
proof -
  have "strip ''7'' = ''7''" "split_on (CHR '','') ''7'' = [''7'']" "part_step ''7'' = Some (''7'', 1)"
    "part_range ''7'' lo hi = Some (7, 7)"
    by (code_simp, code_simp, code_simp, simp add: part_range_def parse_int_def strip_def is_digit_def
        dec_value_def digit_val_def)
  then show ?thesis by (auto simp: match_part_def)
qed

text \<open>
  The minute loop accepts 7 as a day of the week but numbers Sunday 0, so a cron that names
  Sunday as 7 and leaves the day of the month open never fires from it.
\<close>

theorem sunday_as_seven_never_fires:
  assumes "split_ws trigger = [mi, h, ''*'', mo, ''7'']"
  shows "fallback_fire_times trigger start stop limit = []"
proof -
  have "\<not> minute_matches (split_ws trigger) m" for m
  proof -
    obtain y mo' d where o: "ord2ymd (nat (m div 1440) + 1) = (y, mo', d)" by (metis prod_cases3)
    obtain mi' h' wd where f: "minute_fields m = (mi', h', int d, int mo', wd)"
      and wd: "wd = (int (nat (m div 1440)) mod 7 + 1) mod 7"
      by (simp only: minute_fields_def Let_def o prod.case)
    have "wd < 7" unfolding wd by (rule pos_mod_bound) simp
    then have "\<not> match_part wd ''7'' 0 7" by (simp only: match_seven)
    then show ?thesis by (simp add: minute_matches_def assms f)
  qed
  then show ?thesis by (simp add: fallback_fire_times_def Let_def fallback_loop_eq)
qed

theorem sunday_as_seven_never_fires_witness:
  "fallback_fire_times ''0 9 * * 7'' 0 (10080 * US_PER_MINUTE) 250 = []"
  by (rule sunday_as_seven_never_fires) code_simp

section \<open>Checkbacks\<close>

lemma checkbacks_skip:
  assumes "\<forall>j \<in> set js. dget history (cj_name j) \<noteq> PNone"
  shows "run_checkbacks C now js results history f = (results, history, f)"
  using assms by (induction js) (simp_all add: checkback_due_def)

lemma checkback_jobs_names:
  "checkback_jobs d = Inr js \<Longrightarrow> j \<in> set js \<Longrightarrow> cj_name j = checkback_name (cj_worker j) \<and> cj_worker j \<in> fst ` set d"
proof (induction d arbitrary: js)
  case (Cons kv d)
  obtain k info where kv: "kv = (k, info)" by (cases kv)
  with Cons.prems(1) obtain js' where "checkback_jobs d = Inr js'"
    and "js = \<lparr>cj_worker = k, cj_name = checkback_name k, cj_carbon = get info ''carbon_id'',
            cj_trigger_at = get info ''trigger_at''\<rparr> # js'"
    by (auto split: if_splits) (cases "checkback_jobs d"; auto)+
  with Cons kv show ?case by auto
qed simp

text \<open>
  A worker gets at most one checkback in its life. Once one has run, a checkback added again
  for the same worker, as the message it delivers invites, is never run at any later time: its
  name stays in the history, which nothing clears.
\<close>

theorem checkback_never_runs_again:
  assumes "dget history (checkback_name worker) \<noteq> PNone"
    and "check_checkbacks C later history (add_checkback now worker contact minutes None)
      = Inr (texts, history', f')"
  shows "texts = [] \<and> history' = history \<and> f' = add_checkback now worker contact minutes None"
proof -
  let ?f = "add_checkback now worker contact minutes None"
  from assms(2) obtain js where js: "get_checkback_jobs ?f = Inr js"
    and r: "\<And>a b c. run_checkbacks C later js [] history ?f = (a, b, c) \<Longrightarrow>
       texts = map (\<lambda>(c, ts). (c, py_join (newline @ newline) ts)) a \<and> history' = b \<and> f' = c"
    by (auto simp: check_checkbacks_def split: sum.splits prod.splits)
  obtain info where d: "dict_items (checkback_doc ?f) = [(worker, info)]"
    by (simp add: add_checkback_def checkback_doc_def dput_def)
  have "dget history (cj_name j) \<noteq> PNone" if "j \<in> set js" for j
  proof -
    have "checkback_jobs [(worker, info)] = Inr js" using js by (simp only: get_checkback_jobs_def d)
    from checkback_jobs_names [OF this that] assms(1) show ?thesis by auto
  qed
  then have "run_checkbacks C later js [] history ?f = ([], history, ?f)"
    by (intro checkbacks_skip) blast
  from r [OF this] show ?thesis by simp
qed

lemma ex_checkback:
  "check_checkbacks exC 1000 [] (add_checkback 0 ''w'' (PStr ''c1'') 5 None)
     = Inr ([(PStr ''c1'', checkback_text exC \<lparr>cj_worker = ''w'', cj_name = checkback_name ''w'',
               cj_carbon = PStr ''c1'', cj_trigger_at = PFloat 300\<rparr> ''done'')],
            [(checkback_name ''w'', PDict [(''last_run'', PFloat 1000)])], Some (PDict []))"
  by code_simp

theorem checkback_never_runs_again_witness:
  "\<exists>history f'. check_checkbacks exC 1000 [] (add_checkback 0 ''w'' (PStr ''c1'') 5 None)
       = Inr ([(PStr ''c1'', checkback_text exC \<lparr>cj_worker = ''w'', cj_name = checkback_name ''w'',
               cj_carbon = PStr ''c1'', cj_trigger_at = PFloat 300\<rparr> ''done'')], history, Some (PDict []))
     \<and> check_checkbacks exC 9000 history (add_checkback 2000 ''w'' (PStr ''c1'') 5 None)
       = Inr ([], history, f')"
proof -
  let ?h = "[(checkback_name ''w'', PDict [(''last_run'', PFloat 1000)])]"
  have h: "dget ?h (checkback_name ''w'') \<noteq> PNone" by (simp add: dget_Cons)
  have "case check_checkbacks exC 9000 ?h (add_checkback 2000 ''w'' (PStr ''c1'') 5 None) of
      Inl e \<Rightarrow> False | Inr r \<Rightarrow> True" by code_simp
  then obtain t h' f' where
    c: "check_checkbacks exC 9000 ?h (add_checkback 2000 ''w'' (PStr ''c1'') 5 None) = Inr (t, h', f')"
    by (auto split: sum.splits)
  from checkback_never_runs_again [OF h c] c ex_checkback show ?thesis by blast
qed

end
