(* ===== verification/SnapFs.thy ===== *)
theory SnapFs
  imports Store Outcome "HOL-Library.List_Lexorder" "HOL-Library.Char_ord"
begin

text \<open>
  What the snapshot modules of \<open>core/backup\<close> stand on: their errors, the files of an
  instance, the path rules of \<open>core/data_policy.py\<close> and the content-addressed object
  store (\<open>core/backup/store.py\<close>).

  A file system is an association list from paths, relative to the resolved instance root, to
  nodes; a path is the list of its components. A link is a node that is never followed: the code
  looks at every entry with \<open>lstat\<close> before it uses it. Every call runs under the
  snapshot lock, so nothing else changes the files while it runs; failures of the operating
  system other than a missing entry or an entry of the wrong type are not modelled. SHA-256
  and the JSON parser are parameters.
\<close>

section \<open>Errors\<close>

datatype snap_error =
    SnapshotErr string
  | SnapshotLimitErr string
  | SnapshotIntegrityErr string
  | DataPolicyErr string
  | UnsafePathErr string
  | PyErr pyerr

type_synonym 'a outcome = "snap_error + 'a"

fun is_SnapshotError :: "snap_error \<Rightarrow> bool" where
  "is_SnapshotError (SnapshotErr m) = True"
| "is_SnapshotError (SnapshotLimitErr m) = True"
| "is_SnapshotError (SnapshotIntegrityErr m) = True"
| "is_SnapshotError e = False"

fun is_DataPolicyError :: "snap_error \<Rightarrow> bool" where
  "is_DataPolicyError (DataPolicyErr m) = True"
| "is_DataPolicyError (UnsafePathErr m) = True"
| "is_DataPolicyError e = False"

text \<open>\<open>x in {...}\<close>: a list or dictionary is not hashable.\<close>

fun hashable :: "pyv \<Rightarrow> bool" where
  "hashable (PList xs) = False"
| "hashable (PDict d) = False"
| "hashable v = True"

definition py_in_set :: "pyv \<Rightarrow> pyv list \<Rightarrow> bool outcome" where
  "py_in_set v xs =
     (if hashable v then Inr (\<exists>x\<in>set xs. py_eq x v) else Inl (PyErr (TypeError ''unhashable'')))"

section \<open>Regular expressions\<close>

definition is_lower_hex :: "char \<Rightarrow> bool" where
  "is_lower_hex c \<longleftrightarrow>
     (let b = (of_char c :: int) in (48 \<le> b \<and> b \<le> 57) \<or> (97 \<le> b \<and> b \<le> 102))"

definition hex_string :: "nat \<Rightarrow> string \<Rightarrow> bool" where
  "hex_string n s \<longleftrightarrow> length s = n \<and> list_all is_lower_hex s"

abbreviation is_digest :: "string \<Rightarrow> bool" where "is_digest s \<equiv> hex_string 64 s"

text \<open>\<open>_MANIFEST_FILE_RE\<close>: the digest of a name \<open><digest>.json\<close>.\<close>

definition manifest_file_name :: "string \<Rightarrow> string option" where
  "manifest_file_name s =
     (if length s = 69 \<and> is_digest (take 64 s) \<and> drop 64 s = ''.json'' then Some (take 64 s)
      else None)"

lemma manifest_file_name_Some:
  "manifest_file_name s = Some d \<longleftrightarrow> s = d @ ''.json'' \<and> is_digest d"
proof
  assume "manifest_file_name s = Some d"
  then show "s = d @ ''.json'' \<and> is_digest d"
    by (auto simp: manifest_file_name_def split: if_splits) (metis append_take_drop_id)
next
  assume "s = d @ ''.json'' \<and> is_digest d"
  then show "manifest_file_name s = Some d"
    by (simp add: manifest_file_name_def hex_string_def)
qed

section \<open>Files\<close>

type_synonym path = "string list"

text \<open>A regular file has its bytes, permission bits and modification time.\<close>

datatype node = NFile string int int | NDir | NLink | NSock | NOther

type_synonym files = "(path \<times> node) list"

definition lstat :: "files \<Rightarrow> path \<Rightarrow> node option" where
  "lstat fs p = (if p = [] then Some NDir else map_of fs p)"

text \<open>\<open>sorted(os.scandir(d))\<close>, the names of the entries of a directory.\<close>

definition scandir :: "files \<Rightarrow> path \<Rightarrow> string list" where
  "scandir fs d = sort (remdups (map last (filter (\<lambda>p. p \<noteq> [] \<and> butlast p = d) (map fst fs))))"

definition unlink :: "path \<Rightarrow> files \<Rightarrow> files" where
  "unlink p fs = AList.delete p fs"

definition set_node :: "path \<Rightarrow> node \<Rightarrow> files \<Rightarrow> files" where
  "set_node p n fs = AList.update p n fs"

lemma lstat_unlink [simp]: "lstat (unlink p fs) q = (if q = p \<and> q \<noteq> [] then None else lstat fs q)"
  by (auto simp: lstat_def unlink_def delete_conv')

lemma lstat_set_node [simp]:
  "lstat (set_node p n fs) q = (if q = p \<and> q \<noteq> [] then Some n else lstat fs q)"
  by (auto simp: lstat_def set_node_def update_conv')

lemma set_scandir: "n \<in> set (scandir fs d) \<longleftrightarrow> lstat fs (d @ [n]) \<noteq> None"
proof -
  have "n \<in> set (scandir fs d) \<longleftrightarrow> d @ [n] \<in> fst ` set fs"
    by (force simp: scandir_def image_iff append_butlast_last_id)
  then show ?thesis by (simp add: lstat_def map_of_eq_None_iff)
qed

lemma sorted_scandir: "sorted (scandir fs d)" "distinct (scandir fs d)"
  by (simp_all add: scandir_def)

text \<open>The listing of a directory depends on which of its entries exist only.\<close>

lemma scandir_cong:
  assumes "\<And>n. lstat fs (d @ [n]) \<noteq> None \<longleftrightarrow> lstat fs' (d @ [n]) \<noteq> None"
  shows "scandir fs d = scandir fs' d"
  using assms by (intro sorted_distinct_set_unique) (auto simp: sorted_scandir set_scandir)

lemma scandir_filter:
  assumes "\<And>n. lstat fs' (d @ [n]) \<noteq> None \<longleftrightarrow> lstat fs (d @ [n]) \<noteq> None \<and> P n"
  shows "scandir fs' d = filter P (scandir fs d)"
  using assms
  by (intro sorted_distinct_set_unique) (auto simp: sorted_scandir sorted_wrt_filter set_scandir)

end
