(* ===== verification/SnapPath.thy ===== *)
theory SnapPath
  imports SnapFs
begin

text \<open>
  The path rules of \<open>core/data_policy.py\<close>: which relative patterns and paths are accepted, and
  which name credentials or the snapshot store. The lexical part of \<open>pathlib\<close> that the code
  uses is written out: \<open>PurePosixPath(s).parts\<close> and \<open>PurePosixPath(*parts).as_posix()\<close>.
\<close>

section \<open>Paths of the standard library\<close>

text \<open>\<open>PurePosixPath(s).parts\<close>: the root, if any, then the components other than a dot.\<close>

definition posix_root :: "string \<Rightarrow> string" where
  "posix_root s =
     (if is_prefix ''//'' s \<and> \<not> is_prefix ''///'' s then ''//''
      else if is_prefix ''/'' s then ''/'' else [])"

definition posix_names :: "string \<Rightarrow> string list" where
  "posix_names s = filter (\<lambda>w. w \<noteq> [] \<and> w \<noteq> ''.'') (split_on (CHR ''/'') s)"

definition posix_parts :: "string \<Rightarrow> string list" where
  "posix_parts s = (if posix_root s = [] then posix_names s else posix_root s # posix_names s)"

text \<open>\<open>PurePosixPath(*parts).as_posix()\<close>, for parts that come from a path.\<close>

definition posix_join :: "string list \<Rightarrow> string" where
  "posix_join parts =
     (case parts of
        [] \<Rightarrow> ''.''
      | p # ps \<Rightarrow> if p = ''/'' \<or> p = ''//'' then p @ py_join ''/'' ps else py_join ''/'' parts)"

text \<open>\<open>PurePosixPath(s).name\<close>.\<close>

definition posix_name :: "string \<Rightarrow> string" where
  "posix_name s = (case rev (posix_names s) of [] \<Rightarrow> [] | w # ws \<Rightarrow> w)"

section \<open>Accepted patterns\<close>

fun strip_dot_slash :: "string \<Rightarrow> string" where
  "strip_dot_slash (a # b # s) =
     (if a = CHR ''.'' \<and> b = CHR ''/'' then strip_dot_slash s else a # b # s)"
| "strip_dot_slash s = s"

text \<open>
  An absolute Windows path that is not an absolute POSIX path and has no backslash starts with a
  drive, a character and a colon.
\<close>

definition has_drive :: "string \<Rightarrow> bool" where
  "has_drive s \<longleftrightarrow> s \<noteq> [] \<and> is_prefix '':'' (drop_cp 1 s)"

definition validate_relative_pattern :: "string \<Rightarrow> string outcome" where
  "validate_relative_pattern pattern =
     (let value = strip pattern in
      if value = [] \<or> CHR 0x00 \<in> set value then Inl (DataPolicyErr ''empty'')
      else if CHR 0x5C \<in> set value then Inl (DataPolicyErr ''separators'')
      else if is_prefix ''/'' value then Inl (DataPolicyErr ''relative'')
      else if has_drive value then Inl (DataPolicyErr ''drive'')
      else
        (let parts = posix_parts (strip_dot_slash value) in
         if parts = [] \<or> (\<exists>p\<in>set parts. p = [] \<or> p = ''.'' \<or> p = ''..'')
         then Inl (DataPolicyErr ''traversal'')
         else
           (let canonical = posix_join parts in
            if canonical = ''..'' \<or> is_prefix ''../'' canonical
            then Inl (DataPolicyErr ''traversal'')
            else Inr canonical)))"

definition has_magic :: "string \<Rightarrow> bool" where
  "has_magic s \<longleftrightarrow> (\<exists>c\<in>set s. c \<in> set ''*?['')"

definition validate_relative_path :: "string \<Rightarrow> string outcome" where
  "validate_relative_path p =
     bindE (validate_relative_pattern p) (\<lambda>value.
       if \<exists>w\<in>set (posix_parts value). has_magic w \<or> w = ''**'' then Inl (DataPolicyErr ''globs'')
       else Inr value)"

section \<open>Credentials and internal stores\<close>

text \<open>
  \<open>s.casefold()\<close>, up to characters that no case folding maps to ASCII text: ASCII capitals, and the
  long s, the Kelvin sign, sharp s and the Latin ligatures.
\<close>

fun fold_code :: "int list \<Rightarrow> (string \<times> nat) option" where
  "fold_code (a # b # c # r) =
     (if a = 197 \<and> b = 191 then Some (''s'', 2)
      else if a = 195 \<and> b = 159 then Some (''ss'', 2)
      else if a = 225 \<and> b = 186 \<and> c = 158 then Some (''ss'', 3)
      else if a = 226 \<and> b = 132 \<and> c = 170 then Some (''k'', 3)
      else if a = 239 \<and> b = 172 \<and> 128 \<le> c \<and> c \<le> 134
        then Some ([''ff'', ''fi'', ''fl'', ''ffi'', ''ffl'', ''st'', ''st''] ! nat (c - 128), 3)
      else None)"
| "fold_code [a, b] =
     (if a = 197 \<and> b = 191 then Some (''s'', 2)
      else if a = 195 \<and> b = 159 then Some (''ss'', 2) else None)"
| "fold_code r = None"

text \<open>The first argument counts the bytes of a folded character still to be skipped.\<close>

fun casefold_from :: "nat \<Rightarrow> string \<Rightarrow> string" where
  "casefold_from n [] = []"
| "casefold_from (Suc n) (c # cs) = casefold_from n cs"
| "casefold_from 0 (c # cs) =
     (case fold_code (map of_char (take 3 (c # cs))) of
        None \<Rightarrow> lower_char c # casefold_from 0 cs
      | Some (s, n) \<Rightarrow> s @ casefold_from (n - 1) cs)"

definition casefold :: "string \<Rightarrow> string" where
  "casefold s = casefold_from 0 s"

definition is_suffix :: "string \<Rightarrow> string \<Rightarrow> bool" where
  "is_suffix p s \<longleftrightarrow> is_prefix (rev p) (rev s)"

definition FORBIDDEN_PREFIXES :: "string list" where
  "FORBIDDEN_PREFIXES = [''.git'', ''.silicon/snapshots'']"

definition KNOWN_SECRET_NAMES :: "string list" where
  "KNOWN_SECRET_NAMES =
     [''.glass.json'', ''.env'', ''id_rsa'', ''id_dsa'', ''id_ecdsa'', ''id_ed25519'']"

definition KNOWN_SECRET_SUFFIXES :: "string list" where
  "KNOWN_SECRET_SUFFIXES = [''.pem'', ''.key'', ''.p12'', ''.pfx'']"

definition is_forbidden_relative :: "string \<Rightarrow> bool" where
  "is_forbidden_relative p \<longleftrightarrow>
     (let lowered = casefold p; name = casefold (posix_name p) in
      (\<exists>prefix\<in>set FORBIDDEN_PREFIXES.
         lowered = casefold prefix \<or> is_prefix (casefold prefix @ ''/'') lowered)
      \<or> name \<in> set KNOWN_SECRET_NAMES \<or> is_prefix ''.env.'' name
      \<or> (\<exists>s\<in>set KNOWN_SECRET_SUFFIXES. is_suffix s name))"

definition is_known_secret :: "string \<Rightarrow> bool outcome" where
  "is_known_secret p =
     bindE (validate_relative_path p) (\<lambda>value. Inr (is_forbidden_relative value))"

section \<open>What the rules give\<close>

lemma is_prefix_append: "is_prefix p (p @ s)"
  by (induction p) auto

lemma is_prefix_iff: "is_prefix p s \<longleftrightarrow> (\<exists>r. s = p @ r)"
  by (induction p s rule: is_prefix.induct) auto

lemma split_on_not_Nil [simp]: "split_on c s \<noteq> []"
  by (induction s) (auto split: list.splits)

lemma split_on_no_sep: "w \<in> set (split_on c s) \<Longrightarrow> c \<notin> set w"
  by (induction s arbitrary: w) (auto split: list.splits if_splits)

lemma split_on_id: "c \<notin> set s \<Longrightarrow> split_on c s = [s]"
  by (induction s) auto

lemma split_on_append: "c \<notin> set w \<Longrightarrow> split_on c (w @ c # s) = w # split_on c s"
  by (induction w) (auto split: list.splits)

lemma split_on_join:
  "\<forall>w\<in>set ws. c \<notin> set w \<Longrightarrow> ws \<noteq> [] \<Longrightarrow> split_on c (py_join [c] ws) = ws"
  by (induction ws rule: induct_list012) (auto simp: split_on_id split_on_append)

lemma posix_names_clean: "w \<in> set (posix_names s) \<Longrightarrow> w \<noteq> [] \<and> w \<noteq> ''.'' \<and> CHR ''/'' \<notin> set w"
  using split_on_no_sep by (auto simp: posix_names_def)

text \<open>Joined components are the components of the joined path.\<close>

lemma hd_join_noslash:
  assumes "ws \<noteq> []" and "\<forall>w\<in>set ws. w \<noteq> [] \<and> CHR ''/'' \<notin> set w"
  shows "\<not> is_prefix ''/'' (py_join ''/'' ws)"
  using assms
  by (cases ws rule: py_join.cases [of "(''/'', ws)" for ws, simplified])
     (auto simp: is_prefix_iff append_eq_Cons_conv Cons_eq_append_conv)

lemma join_noslash_root:
  assumes "ws \<noteq> []" and "\<forall>w\<in>set ws. w \<noteq> [] \<and> w \<noteq> ''.'' \<and> CHR ''/'' \<notin> set w"
  shows "posix_names (py_join ''/'' ws) = ws" and "posix_root (py_join ''/'' ws) = []"
proof -
  show "posix_names (py_join ''/'' ws) = ws"
    using assms by (simp add: posix_names_def split_on_join filter_id_conv)
  have "\<not> is_prefix ''/'' (py_join ''/'' ws)"
    by (rule hd_join_noslash) (use assms in auto)
  then show "posix_root (py_join ''/'' ws) = []"
    by (cases "py_join ''/'' ws") (auto simp: posix_root_def)
qed

lemma posix_root_Nil_iff: "posix_root s = [] \<longleftrightarrow> \<not> is_prefix ''/'' s"
  by (cases s) (auto simp: posix_root_def)

lemma posix_parts_root: "posix_root s = [] \<Longrightarrow> posix_parts s = posix_names s"
  by (simp add: posix_parts_def)

lemma posix_join_names:
  assumes "\<forall>w\<in>set ws. CHR ''/'' \<notin> set w" and "ws \<noteq> []"
  shows "posix_join ws = py_join ''/'' ws"
  using assms by (cases ws) (auto simp: posix_join_def)

lemma strip_dot_slash_other: "\<not> is_prefix ''./'' s \<Longrightarrow> strip_dot_slash s = s"
  by (cases s rule: strip_dot_slash.cases) auto

lemma join_nil_names: "posix_names (py_join ''/'' []) = []"
  by (simp add: posix_names_def)

text \<open>The components of an accepted pattern, read from the pattern itself.\<close>

lemma validate_relative_pattern_Inr:
  assumes "validate_relative_pattern s = Inr q"
  defines "v \<equiv> strip_dot_slash (strip s)"
  shows "q = posix_join (posix_parts v)" and "posix_parts v \<noteq> []"
    and "\<forall>w\<in>set (posix_parts v). w \<noteq> [] \<and> w \<noteq> ''.'' \<and> w \<noteq> ''..''"
    and "\<not> is_prefix ''/'' (strip s)" and "strip s \<noteq> []" and "\<not> has_drive (strip s)"
    and "CHR 0x00 \<notin> set (strip s)" and "CHR 0x5C \<notin> set (strip s)"
  using assms(1) unfolding v_def
  by (simp_all add: validate_relative_pattern_def Let_def split: if_split_asm del: is_prefix.simps)

lemma posix_names_slash [simp]: "posix_names (CHR ''/'' # s) = posix_names s"
  by (simp add: posix_names_def)

lemma names_of_accepted:
  assumes "validate_relative_pattern s = Inr q"
  shows "posix_names q = posix_names (strip_dot_slash (strip s))"
    and "w \<in> set (posix_names q) \<Longrightarrow> w \<noteq> [] \<and> w \<noteq> ''.'' \<and> w \<noteq> ''..'' \<and> CHR ''/'' \<notin> set w"
proof -
  let ?v = "strip_dot_slash (strip s)"
  note acc = validate_relative_pattern_Inr [OF assms]
  have clean: "\<forall>w\<in>set (posix_names ?v). w \<noteq> [] \<and> w \<noteq> ''.'' \<and> CHR ''/'' \<notin> set w"
    using posix_names_clean by blast
  show names: "posix_names q = posix_names ?v"
  proof (cases "posix_root ?v = []")
    case True
    with acc(1,2) clean show ?thesis
      by (simp add: posix_parts_root posix_join_names join_noslash_root)
  next
    case False
    then have "posix_root ?v = ''/'' \<or> posix_root ?v = ''//''"
      by (simp add: posix_root_def split: if_splits)
    then have "posix_names (posix_join (posix_root ?v # ws)) = posix_names (py_join ''/'' ws)" for ws
      by (elim disjE) (simp_all add: posix_join_def)
    with False acc(1) have "posix_names q = posix_names (py_join ''/'' (posix_names ?v))"
      by (simp add: posix_parts_def)
    also have "\<dots> = posix_names ?v"
    proof (cases "posix_names ?v = []")
      case True
      then show ?thesis by (simp only: join_nil_names)
    next
      case False
      then show ?thesis using clean by (rule join_noslash_root(1))
    qed
    finally show ?thesis .
  qed
  have sub: "set (posix_names ?v) \<subseteq> set (posix_parts ?v)"
    by (simp add: posix_parts_def subset_insertI)
  show "w \<in> set (posix_names q) \<Longrightarrow> w \<noteq> [] \<and> w \<noteq> ''.'' \<and> w \<noteq> ''..'' \<and> CHR ''/'' \<notin> set w"
    using subsetD [OF sub] bspec [OF clean] bspec [OF acc(3)] unfolding names by blast
qed

text \<open>A pattern that does not start with a dot and a slash is accepted as a relative path.\<close>

lemma accepted_relative:
  assumes "validate_relative_pattern s = Inr q" and "\<not> is_prefix ''./'' (strip s)"
  shows "posix_root q = []" and "q = py_join ''/'' (posix_names q)" and "posix_names q \<noteq> []"
proof -
  note acc = validate_relative_pattern_Inr [OF assms(1)]
  have v: "strip_dot_slash (strip s) = strip s" using assms(2) by (rule strip_dot_slash_other)
  then have "posix_parts (strip s) = posix_names (strip s)"
    using acc(4) by (simp add: posix_parts_root posix_root_Nil_iff)
  moreover have clean: "\<forall>w\<in>set (posix_names (strip s)). w \<noteq> [] \<and> w \<noteq> ''.'' \<and> CHR ''/'' \<notin> set w"
    using posix_names_clean by blast
  ultimately have q: "q = py_join ''/'' (posix_names (strip s))" and ne: "posix_names (strip s) \<noteq> []"
    using acc(1,2) v by (auto simp: posix_join_names)
  show "posix_root q = []" "q = py_join ''/'' (posix_names q)" "posix_names q \<noteq> []"
    unfolding q using ne clean by (simp_all add: join_noslash_root)
qed

lemma validate_relative_path_Inr:
  "validate_relative_path s = Inr q \<longleftrightarrow>
     validate_relative_pattern s = Inr q \<and> (\<forall>w\<in>set (posix_parts q). \<not> has_magic w \<and> w \<noteq> ''**'')"
  by (auto simp: validate_relative_path_def outcome_simps split: if_splits)

lemma length_lstrip: "length (lstrip s) \<le> length s"
proof (induction s rule: lstrip.induct)
  case (2 c cs)
  have "length (drop (ws_len (c # cs) - 1) cs) \<le> length cs" by simp
  moreover have "length (lstrip (drop (ws_len (c # cs) - 1) cs)) \<le> length (drop (ws_len (c # cs) - 1) cs)"
    if "ws_len (c # cs) \<noteq> 0" using 2 that by blast
  ultimately have "length (lstrip (drop (ws_len (c # cs) - 1) cs)) \<le> Suc (length cs)"
    if "ws_len (c # cs) \<noteq> 0" using that by (meson le_SucI order_trans)
  then show ?case by (simp del: ws_len.simps)
qed simp

lemma length_rstrip: "length (rstrip s) \<le> length s"
  by (induction s) (simp_all del: lstrip.simps)

lemma lstrip_eq_self: "length (lstrip s) = length s \<Longrightarrow> lstrip s = s"
proof (cases s)
  case (Cons c cs)
  assume len: "length (lstrip s) = length s"
  have "length (lstrip (drop (ws_len (c # cs) - 1) cs)) \<le> length cs"
    using length_lstrip [of "drop (ws_len (c # cs) - 1) cs"] by (simp del: ws_len.simps)
  with len Cons show ?thesis by (simp split: if_splits del: ws_len.simps)
qed simp

lemma strip_fix_rstrip:
  assumes "strip s = s"
  shows "rstrip s = s"
proof -
  have "length s = length (rstrip (lstrip s))" using assms by (simp only: strip_def)
  then have "length (lstrip s) = length s"
    using length_lstrip [of s] length_rstrip [of "lstrip s"] by linarith
  then have "lstrip s = s" by (rule lstrip_eq_self)
  with assms show ?thesis by (simp only: strip_def)
qed

end
