(* ===== verification/Glob.thy ===== *)
theory Glob
  imports SnapPath
begin

text \<open>
  What the standard library does for the policy of \<open>core/data_policy.py\<close>: shell patterns
  (\<open>fnmatch.fnmatchcase\<close>), the lines of a text file, and \<open>dict.fromkeys\<close>. Patterns and names are
  matched by characters.
\<close>

section \<open>Lines\<close>

text \<open>\<open>bytes.decode("utf-8")\<close>: whether it succeeds.\<close>

definition cont_in :: "int \<Rightarrow> int \<Rightarrow> string \<Rightarrow> nat \<Rightarrow> bool" where
  "cont_in lo hi cs n \<longleftrightarrow>
     length cs \<ge> n \<and> lo \<le> (of_char (hd cs) :: int) \<and> (of_char (hd cs) :: int) \<le> hi
     \<and> list_all is_cont (take n cs)"

fun utf8_ok :: "string \<Rightarrow> bool" where
  "utf8_ok [] = True"
| "utf8_ok (c # cs) =
     (let b = (of_char c :: int) in
      if b < 128 then utf8_ok cs
      else if 194 \<le> b \<and> b \<le> 223 then cont_in 128 191 cs 1 \<and> utf8_ok (drop 1 cs)
      else if b = 224 then cont_in 160 191 cs 2 \<and> utf8_ok (drop 2 cs)
      else if b = 237 then cont_in 128 159 cs 2 \<and> utf8_ok (drop 2 cs)
      else if 225 \<le> b \<and> b \<le> 239 then cont_in 128 191 cs 2 \<and> utf8_ok (drop 2 cs)
      else if b = 240 then cont_in 144 191 cs 3 \<and> utf8_ok (drop 3 cs)
      else if 241 \<le> b \<and> b \<le> 243 then cont_in 128 191 cs 3 \<and> utf8_ok (drop 3 cs)
      else if b = 244 then cont_in 128 143 cs 3 \<and> utf8_ok (drop 3 cs)
      else False)"

text \<open>\<open>text.splitlines()\<close>: the bytes of the line end a text starts with, 0 if none.\<close>

fun line_end :: "string \<Rightarrow> nat" where
  "line_end [] = 0"
| "line_end (c # cs) =
     (let b = (of_char c :: int);
          n1 = (case cs of [] \<Rightarrow> 0 | d # _ \<Rightarrow> (of_char d :: int));
          n2 = (case cs of _ # d # _ \<Rightarrow> (of_char d :: int) | _ \<Rightarrow> 0)
      in if b = 13 then (if n1 = 10 then 2 else 1)
         else if (10 \<le> b \<and> b \<le> 12) \<or> (28 \<le> b \<and> b \<le> 30) then 1
         else if b = 194 \<and> n1 = 133 then 2
         else if b = 226 \<and> n1 = 128 \<and> (n2 = 168 \<or> n2 = 169) then 3
         else 0)"

fun splitlines_acc :: "string \<Rightarrow> string \<Rightarrow> string list" where
  "splitlines_acc acc [] = (if acc = [] then [] else [rev acc])"
| "splitlines_acc acc (c # cs) =
     (if line_end (c # cs) = 0 then splitlines_acc (c # acc) cs
      else rev acc # splitlines_acc [] (drop (line_end (c # cs) - 1) cs))"

definition splitlines :: "string \<Rightarrow> string list" where
  "splitlines s = splitlines_acc [] s"

text \<open>\<open>list(dict.fromkeys(xs))\<close>: the first occurrences, in order.\<close>

definition fromkeys :: "'a list \<Rightarrow> 'a list" where
  "fromkeys xs = rev (remdups (rev xs))"

lemma set_fromkeys [simp]: "set (fromkeys xs) = set xs"
  by (simp add: fromkeys_def)

lemma distinct_fromkeys [simp]: "distinct (fromkeys xs)"
  by (simp add: fromkeys_def)

section \<open>Shell patterns\<close>

text \<open>
  A bracket expression is a sequence of single characters and ranges; an empty range is dropped.
  The expression is negated when what is left starts with an exclamation mark.
\<close>

datatype class_item = Single string | Span string string

datatype glob_token = Star | AnyChar | Literal string | CharClass bool "class_item list"

fun class_items :: "string list \<Rightarrow> class_item list" where
  "class_items (x # d # y # r) =
     (if d = ''-'' then (if y < x then [] else [Span x y]) @ class_items r
      else Single x # class_items (d # y # r))"
| "class_items (x # r) = Single x # class_items r"
| "class_items [] = []"

text \<open>The first hyphen of a negated expression is read after the exclamation mark.\<close>

definition char_class :: "string list \<Rightarrow> glob_token" where
  "char_class stuff =
     (if stuff \<noteq> [] \<and> hd stuff = ''!'' then CharClass True (class_items (tl stuff))
      else
        (case class_items stuff of
           Single x # items \<Rightarrow>
             if x = ''!'' then CharClass True items else CharClass False (Single x # items)
         | Span x y # items \<Rightarrow>
             if x = ''!'' then CharClass True (Single ''-'' # Single y # items)
             else CharClass False (Span x y # items)
         | [] \<Rightarrow> CharClass False []))"

text \<open>The characters of a bracket expression after the opening bracket, and what follows it.\<close>

fun bracket_end :: "string list \<Rightarrow> (string list \<times> string list) option" where
  "bracket_end [] = None"
| "bracket_end (c # cs) =
     (if c = '']'' then Some ([], cs)
      else map_option (\<lambda>p. (c # fst p, snd p)) (bracket_end cs))"

definition bracket :: "string list \<Rightarrow> (string list \<times> string list) option" where
  "bracket cs =
     (let neg = (if cs \<noteq> [] \<and> hd cs = ''!'' then [''!''] else []);
          r = drop (length neg) cs;
          close = (if r \<noteq> [] \<and> hd r = '']'' then ['']''] else [])
      in map_option (\<lambda>p. (neg @ close @ fst p, snd p)) (bracket_end (drop (length close) r)))"

lemma bracket_end_length: "bracket_end cs = Some (a, b) \<Longrightarrow> length b < length cs"
  by (induction cs arbitrary: a b) (auto split: if_split_asm)

lemma bracket_length: "bracket cs = Some (a, b) \<Longrightarrow> length b < length cs"
  by (auto simp: bracket_def Let_def split: if_split_asm dest!: bracket_end_length)

function (sequential) glob_tokens :: "string list \<Rightarrow> glob_token list" where
  "glob_tokens [] = []"
| "glob_tokens (c # cs) =
     (if c = ''*'' then Star # glob_tokens cs
      else if c = ''?'' then AnyChar # glob_tokens cs
      else if c = ''['' then
        (case bracket cs of
           None \<Rightarrow> Literal c # glob_tokens cs
         | Some (stuff, rest) \<Rightarrow> char_class stuff # glob_tokens rest)
      else Literal c # glob_tokens cs)"
  by pat_completeness auto
termination
  by (relation "measure length") (auto dest: bracket_length)

fun in_item :: "string \<Rightarrow> class_item \<Rightarrow> bool" where
  "in_item x (Single y) = (x = y)"
| "in_item x (Span a b) = (a \<le> x \<and> x \<le> b)"

fun glob_match :: "glob_token list \<Rightarrow> string list \<Rightarrow> bool" where
  "glob_match [] xs = (xs = [])"
| "glob_match (Star # ts) [] = glob_match ts []"
| "glob_match (Star # ts) (x # xs) = (glob_match ts (x # xs) \<or> glob_match (Star # ts) xs)"
| "glob_match (AnyChar # ts) (x # xs) = glob_match ts xs"
| "glob_match (Literal c # ts) (x # xs) = (c = x \<and> glob_match ts xs)"
| "glob_match (CharClass neg items # ts) (x # xs) =
     ((neg \<noteq> list_ex (in_item x) items) \<and> glob_match ts xs)"
| "glob_match (t # ts) [] = False"

definition fnmatchcase :: "string \<Rightarrow> string \<Rightarrow> bool" where
  "fnmatchcase name pat = glob_match (glob_tokens (chars_of pat)) (chars_of name)"

end
