(* ===== verification/SnapStore.thy ===== *)
theory SnapStore
  imports SnapPath
begin

text \<open>
  The content-addressed objects and the bounded JSON documents of \<open>core/backup\<close>: the limits of
  \<open>_common.py\<close>, the object checks of \<open>store.py\<close> and the readers and the canonical JSON of
  \<open>manifest.py\<close>.
\<close>

section \<open>Parameters and limits\<close>

text \<open>
  What the standard library and the caller provide: the hexadecimal SHA-256 of a byte string,
  \<open>json.loads\<close> of the decoded bytes (\<open>None\<close> where decoding or parsing raises), \<open>repr\<close>, the
  place a path text means, the readings of the clock, the modification time of the files
  the call writes and the time stamp of an archived file name.
\<close>

record snap_env =
  se_sha :: "string \<Rightarrow> string"
  se_loads :: "string \<Rightarrow> pyv option"
  se_repr :: "pyv \<Rightarrow> string"
  se_path :: "string \<Rightarrow> path"
  se_clock :: "nat \<Rightarrow> rat"
  se_mtime :: int
  se_stamp :: string

record snap_limits =
  sl_max_files :: int
  sl_max_file_size :: int
  sl_max_total_size :: int
  sl_chunk_size :: int
  sl_source_retries :: int

definition default_limits :: snap_limits where
  "default_limits =
     \<lparr>sl_max_files = 250000, sl_max_file_size = 8 * 1024 * 1024 * 1024,
      sl_max_total_size = 64 * 1024 * 1024 * 1024, sl_chunk_size = 1024 * 1024,
      sl_source_retries = 5\<rparr>"

definition validate_limits :: "snap_limits \<Rightarrow> unit outcome" where
  "validate_limits l =
     raise_if (sl_max_files l < 1 \<or> sl_max_file_size l < 0 \<or> sl_max_total_size l < 0
               \<or> sl_chunk_size l < 4096 \<or> sl_source_retries l < 1)
       (PyErr (ValueError ''limits''))"

record gc_limits =
  gl_max_manifests :: int
  gl_max_objects :: int
  gl_max_unexpected :: int

definition default_gc_limits :: gc_limits where
  "default_gc_limits =
     \<lparr>gl_max_manifests = 100000, gl_max_objects = 2000000, gl_max_unexpected = 100000\<rparr>"

definition validate_gc_limits :: "gc_limits \<Rightarrow> unit outcome" where
  "validate_gc_limits l =
     raise_if (gl_max_manifests l < 1 \<or> gl_max_objects l < 1 \<or> gl_max_unexpected l < 0)
       (PyErr (ValueError ''gc limits''))"

definition MAX_MANIFEST_BYTES :: int where "MAX_MANIFEST_BYTES = 256 * 1024 * 1024"
definition MAX_RESTORE_JOURNAL_BYTES :: int where "MAX_RESTORE_JOURNAL_BYTES = 1024 * 1024"
definition MAX_UPDATE_JOURNAL_BYTES :: int where "MAX_UPDATE_JOURNAL_BYTES = 8 * 1024 * 1024"
definition MAX_FLOOR_BYTES :: int where "MAX_FLOOR_BYTES = 4096"

definition IN_PLACE_RESTORE_JOURNAL :: path where
  "IN_PLACE_RESTORE_JOURNAL = [''.silicon'', ''restore-in-place.json'']"

definition IN_PLACE_RESTORE_LATEST :: path where
  "IN_PLACE_RESTORE_LATEST = [''.silicon'', ''last-restored-snapshot.json'']"

definition RELEASE_SEQUENCE_FLOOR :: string where
  "RELEASE_SEQUENCE_FLOOR = ''.silicon/release-sequence-floor.json''"

definition FLOOR_PATH :: path where
  "FLOOR_PATH = [''.silicon'', ''release-sequence-floor.json'']"

section \<open>Objects\<close>

definition object_path :: "path \<Rightarrow> string \<Rightarrow> path outcome" where
  "object_path store digest =
     (if is_digest digest
      then Inr (store @ [''objects'', ''sha256'', take 2 digest, drop 2 digest])
      else Inl (SnapshotIntegrityErr ''digest''))"

text \<open>\<open>_hash_file\<close>: the digest and the size of a regular file; a link is refused.\<close>

definition hash_file :: "snap_env \<Rightarrow> files \<Rightarrow> path \<Rightarrow> (string \<times> int) outcome" where
  "hash_file env fs p =
     (case lstat fs p of
        Some NLink \<Rightarrow> Inl (SnapshotIntegrityErr ''link'')
      | None \<Rightarrow> Inl (SnapshotIntegrityErr ''missing'')
      | Some (NFile c m t) \<Rightarrow> Inr (se_sha env c, int (length c))
      | Some n \<Rightarrow> Inl (SnapshotIntegrityErr ''regular''))"

definition verify_object :: "snap_env \<Rightarrow> files \<Rightarrow> path \<Rightarrow> string \<Rightarrow> int \<Rightarrow> path outcome" where
  "verify_object env fs store digest sz =
     bindE (object_path store digest) (\<lambda>p.
     bindE (hash_file env fs p) (\<lambda>(actual_digest, actual_size).
     bindE (raise_if (actual_digest \<noteq> digest \<or> actual_size \<noteq> sz)
              (SnapshotIntegrityErr ''check'')) (\<lambda>_.
     Inr p)))"

text \<open>\<open>_open_verified_object\<close>: the bytes the handle reads.\<close>

definition open_verified_object ::
  "snap_env \<Rightarrow> files \<Rightarrow> path \<Rightarrow> string \<Rightarrow> int \<Rightarrow> string outcome" where
  "open_verified_object env fs store digest sz =
     bindE (object_path store digest) (\<lambda>p.
     (case lstat fs p of
        Some NLink \<Rightarrow> Inl (SnapshotIntegrityErr ''link'')
      | None \<Rightarrow> Inl (SnapshotIntegrityErr ''missing'')
      | Some (NFile c m t) \<Rightarrow>
          if int (length c) \<noteq> sz then Inl (SnapshotIntegrityErr ''changed'')
          else if se_sha env c \<noteq> digest then Inl (SnapshotIntegrityErr ''check'')
          else Inr c
      | Some n \<Rightarrow> Inl (SnapshotIntegrityErr ''regular'')))"

definition SNAPSHOT_STORE :: path where
  "SNAPSHOT_STORE = [''.silicon'', ''snapshots'']"

text \<open>An object is intact when its file holds bytes of that digest and size.\<close>

definition object_ok :: "snap_env \<Rightarrow> files \<Rightarrow> path \<Rightarrow> string \<Rightarrow> int \<Rightarrow> bool" where
  "object_ok env fs store digest sz \<longleftrightarrow>
     is_digest digest
     \<and> (\<exists>c m t. lstat fs (store @ [''objects'', ''sha256'', take 2 digest, drop 2 digest])
                = Some (NFile c m t)
          \<and> se_sha env c = digest \<and> int (length c) = sz)"

lemma verify_object_iff:
  "verify_object env fs store digest sz = Inr p \<longleftrightarrow>
     object_ok env fs store digest sz
     \<and> p = store @ [''objects'', ''sha256'', take 2 digest, drop 2 digest]"
  by (auto simp: verify_object_def object_ok_def object_path_def hash_file_def outcome_simps
      split: if_splits option.splits node.splits)

lemma open_verified_object_iff:
  "open_verified_object env fs store digest sz = Inr c \<longleftrightarrow>
     is_digest digest
     \<and> (\<exists>m t. lstat fs (store @ [''objects'', ''sha256'', take 2 digest, drop 2 digest])
              = Some (NFile c m t))
     \<and> se_sha env c = digest \<and> int (length c) = sz"
  by (auto simp: open_verified_object_def object_path_def outcome_simps
      split: if_splits option.splits node.splits)

lemma object_ok_open:
  "object_ok env fs store digest sz \<Longrightarrow> \<exists>c. open_verified_object env fs store digest sz = Inr c"
  by (auto simp: object_ok_def open_verified_object_iff)

section \<open>JSON documents\<close>

text \<open>\<open>_read_bounded_json_object\<close>.\<close>

definition read_bounded_json_object ::
  "snap_env \<Rightarrow> files \<Rightarrow> path \<Rightarrow> int \<Rightarrow> dict outcome" where
  "read_bounded_json_object env fs p max_bytes =
     (case lstat fs p of
        Some (NFile c m t) \<Rightarrow>
          if length c = 0 \<or> int (length c) > max_bytes
          then Inl (SnapshotIntegrityErr ''bounded regular file'')
          else
            (case se_loads env c of
               None \<Rightarrow> Inl (SnapshotIntegrityErr ''read'')
             | Some (PDict d) \<Rightarrow> Inr d
             | Some v \<Rightarrow> Inl (SnapshotIntegrityErr ''object''))
      | _ \<Rightarrow> Inl (SnapshotIntegrityErr ''bounded regular file''))"

text \<open>\<open>_read_manifest_json\<close>: any value, and an empty file reaches the parser.\<close>

definition read_manifest_json :: "snap_env \<Rightarrow> files \<Rightarrow> path \<Rightarrow> pyv outcome" where
  "read_manifest_json env fs p =
     (case lstat fs p of
        Some (NFile c m t) \<Rightarrow>
          if int (length c) > MAX_MANIFEST_BYTES then Inl (SnapshotIntegrityErr ''read limit'')
          else
            (case se_loads env c of
               None \<Rightarrow> Inl (SnapshotIntegrityErr ''read'')
             | Some v \<Rightarrow> Inr v)
      | _ \<Rightarrow> Inl (SnapshotIntegrityErr ''regular file''))"

text \<open>\<open>json.dumps(value, ensure_ascii=False, sort_keys=True, separators=(",", ":"))\<close>.\<close>

definition hex_digit :: "int \<Rightarrow> char" where
  "hex_digit n = (if n < 10 then char_of (48 + n) else char_of (87 + n))"

definition json_char :: "char \<Rightarrow> string" where
  "json_char c =
     (let b = (of_char c :: int) in
      if b = 34 then [CHR 0x5C, CHR 0x22]
      else if b = 92 then [CHR 0x5C, CHR 0x5C]
      else if b = 10 then [CHR 0x5C, CHR ''n'']
      else if b = 13 then [CHR 0x5C, CHR ''r'']
      else if b = 9 then [CHR 0x5C, CHR ''t'']
      else if b = 8 then [CHR 0x5C, CHR ''b'']
      else if b = 12 then [CHR 0x5C, CHR ''f'']
      else if b < 32 then [CHR 0x5C] @ ''u00'' @ [hex_digit (b div 16), hex_digit (b mod 16)]
      else [c])"

definition json_string :: "string \<Rightarrow> string" where
  "json_string s = CHR 0x22 # concat (map json_char s) @ [CHR 0x22]"

fun canonical_json :: "(pyv \<Rightarrow> string) \<Rightarrow> pyv \<Rightarrow> string" where
  "canonical_json rp PNone = ''null''"
| "canonical_json rp (PBool b) = (if b then ''true'' else ''false'')"
| "canonical_json rp (PInt i) = show_int i"
| "canonical_json rp (PFloat r) = rp (PFloat r)"
| "canonical_json rp (PStr s) = json_string s"
| "canonical_json rp (PList xs) = ''['' @ py_join '','' (map (canonical_json rp) xs) @ '']''"
| "canonical_json rp (PDict d) =
     ''{'' @ py_join '',''
       (map (\<lambda>kv. json_string (fst kv) @ '':'' @ snd kv)
         (sort_key fst (map (map_prod id (canonical_json rp)) d))) @ ''}''"

end
