(* ===== verification/Policy.thy ===== *)
theory Policy
  imports Glob SnapStore
begin

text \<open>
  The recovery policy of \<open>core/data_policy.py\<close>: the mandatory classes, the additions an instance
  may make, the expansion of patterns over the files of the instance, and the protected files
  the policy selects. The path rules it starts from are in \<open>SnapPath\<close>.

  A generator of the code is the list of what it yields with the error it ends in, if any: its
  consumer sees what was yielded before the error. An absolute path, which a pattern can name
  (\<open>SnapPath\<close>), lies outside the instance.
\<close>

section \<open>The mandatory classes\<close>

record ownership_class =
  oc_name :: string
  oc_patterns :: "string list"
  oc_snapshot :: bool

definition MANDATORY_CLASSES :: "ownership_class list" where
  "MANDATORY_CLASSES =
     [\<lparr>oc_name = ''security_state'', oc_patterns = [''.silicon/release-sequence-floor.json''],
       oc_snapshot = True\<rparr>,
      \<lparr>oc_name = ''critical_living'',
       oc_patterns = [''prompts/MEMORY.md'', ''prompts/memory/**'', ''prompts/LORE.md'',
         ''prompts/CONTACTS.md'', ''silicon.json'', ''.backupsilicon'', ''.silicon/data-policy.json''],
       oc_snapshot = True\<rparr>,
      \<lparr>oc_name = ''task_delivery'',
       oc_patterns = [''core/interface_state/**'', ''core/cron/checkbacks.json'',
         ''core/cron/history.json'', ''.silicon-interface/**'', ''sessions/**'', ''worker/sessions/**''],
       oc_snapshot = True\<rparr>,
      \<lparr>oc_name = ''self_customization'',
       oc_patterns = [''prompts/**/*.md'', ''extensions/**'', ''skills/**'', ''.silicon/overlays/**''],
       oc_snapshot = True\<rparr>,
      \<lparr>oc_name = ''artifacts'', oc_patterns = [''logs/**'', ''worker/outputs/**''], oc_snapshot = True\<rparr>,
      \<lparr>oc_name = ''credentials'', oc_patterns = [''.glass.json'', ''.env'', ''.env.*''],
       oc_snapshot = False\<rparr>]"

definition class_by_name :: "string \<Rightarrow> ownership_class option" where
  "class_by_name name = find (\<lambda>c. oc_name c = name) MANDATORY_CLASSES"

definition POLICY_SCHEMA :: int where "POLICY_SCHEMA = 1"
definition POLICY_FILE :: path where "POLICY_FILE = [''.silicon'', ''data-policy.json'']"
definition LEGACY_POLICY_FILE :: path where "LEGACY_POLICY_FILE = [''.backupsilicon'']"

definition RUNTIME_EPHEMERAL_SOCKET :: path where
  "RUNTIME_EPHEMERAL_SOCKET = [''.silicon-interface'', ''daemon.sock'']"

section \<open>Entries\<close>

text \<open>\<open>_ATOMIC_WRITE_TEMP_RE\<close>: the name of a temporary of an atomic write.\<close>

definition nonce_char :: "char \<Rightarrow> bool" where
  "nonce_char c \<longleftrightarrow> is_alnum c \<or> c = CHR ''_'' \<or> c = CHR ''-''"

definition all_digits :: "string \<Rightarrow> bool" where
  "all_digits s \<longleftrightarrow> s \<noteq> [] \<and> list_all is_digit s"

definition atomic_write_temp :: "string \<Rightarrow> bool" where
  "atomic_write_temp name \<longleftrightarrow>
     is_prefix ''.'' name \<and> is_suffix ''.tmp'' name \<and> length name \<ge> 5
     \<and> (let ws = split_on (CHR ''.'') (take (length name - 5) (tl name));
            stem_ok = (\<lambda>stem. py_join ''.'' stem \<noteq> [] \<and> CHR 0x0A \<notin> set (py_join ''.'' stem)) in
        (length ws \<ge> 2 \<and> stem_ok (butlast ws) \<and> length (last ws) = 8 \<and> list_all nonce_char (last ws))
        \<or> (length ws \<ge> 3 \<and> stem_ok (butlast (butlast ws)) \<and> all_digits (last ws)
           \<and> all_digits (last (butlast ws))))"

definition ensure_entry_type :: "files \<Rightarrow> path \<Rightarrow> node outcome" where
  "ensure_entry_type fs p =
     (case lstat fs p of
        None \<Rightarrow> Inl (PyErr (OtherError ''FileNotFoundError'' []))
      | Some NLink \<Rightarrow> Inl (UnsafePathErr ''link'')
      | Some NSock \<Rightarrow> Inl (UnsafePathErr ''special'')
      | Some NOther \<Rightarrow> Inl (UnsafePathErr ''special'')
      | Some n \<Rightarrow> Inr n)"

definition is_runtime_ephemeral_socket :: "files \<Rightarrow> path \<Rightarrow> bool" where
  "is_runtime_ephemeral_socket fs p \<longleftrightarrow> p = RUNTIME_EPHEMERAL_SOCKET \<and> lstat fs p = Some NSock"

definition sorted_children :: "files \<Rightarrow> path \<Rightarrow> path list" where
  "sorted_children fs d = map (\<lambda>n. d @ [n]) (filter (\<lambda>n. \<not> atomic_write_temp n) (scandir fs d))"

section \<open>Generators\<close>

type_synonym 'a gen = "'a list \<times> snap_error option"

definition gen_app :: "'a gen \<Rightarrow> 'a gen \<Rightarrow> 'a gen" where
  "gen_app a b = (case snd a of Some e \<Rightarrow> a | None \<Rightarrow> (fst a @ fst b, snd b))"

definition gen_concat :: "'a gen list \<Rightarrow> 'a gen" where
  "gen_concat gs = foldr gen_app gs ([], None)"

text \<open>\<open>for x in generator\<close> with a loop body that may raise.\<close>

definition consume :: "('s \<Rightarrow> 'a \<Rightarrow> 's outcome) \<Rightarrow> 's \<Rightarrow> 'a gen \<Rightarrow> 's outcome" where
  "consume f s g =
     bindE (foldE f s (fst g)) (\<lambda>s'. case snd g of Some e \<Rightarrow> Inl e | None \<Rightarrow> Inr s')"

text \<open>The entries strictly below a path: what a recursion into a directory makes smaller.\<close>

definition below :: "files \<Rightarrow> path \<Rightarrow> path set" where
  "below fs p = {q \<in> fst ` set fs. \<exists>r. r \<noteq> [] \<and> q = p @ r}"

lemma below_child:
  assumes "c \<in> set (sorted_children fs p)"
  shows "card (below fs c) < card (below fs p)"
proof (rule psubset_card_mono)
  show "finite (below fs p)" by (simp add: below_def)
  from assms obtain n where c: "c = p @ [n]" and "n \<in> set (scandir fs p)"
    by (auto simp: sorted_children_def)
  then have "c \<in> fst ` set fs" by (auto simp: set_scandir lstat_def map_of_eq_None_iff)
  with c have "c \<in> below fs p" and "c \<notin> below fs c" by (auto simp: below_def)
  moreover have "below fs c \<subseteq> below fs p" using c by (auto simp: below_def)
  ultimately show "below fs c \<subset> below fs p" by blast
qed

section \<open>Expansion of a pattern\<close>

function safe_tree :: "files \<Rightarrow> path \<Rightarrow> path gen" where
  "safe_tree fs p =
     (if is_runtime_ephemeral_socket fs p then ([], None)
      else
        (case ensure_entry_type fs p of
           Inl e \<Rightarrow> ([], Some e)
         | Inr n \<Rightarrow>
             gen_app ([p], None)
               (if n = NDir then gen_concat (map (safe_tree fs) (sorted_children fs p))
                else ([], None))))"
  by pat_completeness auto
termination
  by (relation "measure (\<lambda>(fs, p). card (below fs p))") (auto intro: below_child)

declare safe_tree.simps [simp del]

text \<open>\<open>current / segment\<close>: an absolute segment replaces the path before it.\<close>

definition path_child :: "path \<Rightarrow> string \<Rightarrow> path" where
  "path_child p seg = (if is_prefix ''/'' seg then [seg] else p @ [seg])"

definition candidates :: "files \<Rightarrow> path \<Rightarrow> string \<Rightarrow> path list" where
  "candidates fs current seg =
     (if has_magic seg
      then filter (\<lambda>c. fnmatchcase (last c) seg) (sorted_children fs current)
      else [path_child current seg])"

function expand_parts :: "files \<Rightarrow> path \<Rightarrow> string list \<Rightarrow> path gen" where
  "expand_parts fs current [] =
     ((if lstat fs current \<noteq> None then [current] else []), None)"
| "expand_parts fs current (seg # rest) =
     (if seg = ''**'' \<and> rest = [] then
        (if lstat fs current \<noteq> None then safe_tree fs current else ([], None))
      else if seg = ''**'' then
        gen_app (expand_parts fs current rest)
          (if lstat fs current = None then ([], None)
           else
             (case ensure_entry_type fs current of
                Inl e \<Rightarrow> ([], Some e)
              | Inr n \<Rightarrow>
                  if n \<noteq> NDir then ([], None)
                  else
                    gen_concat (map (\<lambda>child.
                      if is_runtime_ephemeral_socket fs child then ([], None)
                      else
                        (case ensure_entry_type fs child of
                           Inl e \<Rightarrow> ([], Some e)
                         | Inr m \<Rightarrow>
                             if m = NDir then expand_parts fs child (seg # rest) else ([], None)))
                      (sorted_children fs current))))
      else if lstat fs current = None then ([], None)
      else
        (case ensure_entry_type fs current of
           Inl e \<Rightarrow> ([], Some e)
         | Inr n \<Rightarrow>
             if n \<noteq> NDir then ([], None)
             else
               gen_concat (map (\<lambda>child.
                 if lstat fs child = None \<or> is_runtime_ephemeral_socket fs child then ([], None)
                 else
                   (case ensure_entry_type fs child of
                      Inl e \<Rightarrow> ([], Some e)
                    | Inr m \<Rightarrow>
                        if rest = [] then ([child], None)
                        else if m = NDir then expand_parts fs child rest else ([], None)))
                 (candidates fs current seg))))"
  by pat_completeness auto
termination
  by (relation "measures [\<lambda>(fs, p, parts). length parts, \<lambda>(fs, p, parts). card (below fs p)]")
     (auto intro: below_child)

declare expand_parts.simps [simp del]

text \<open>\<open>candidate.relative_to(root).as_posix()\<close>.\<close>

definition relative_text :: "path \<Rightarrow> string outcome" where
  "relative_text p =
     (if p \<noteq> [] \<and> is_prefix ''/'' (hd p) then Inl (UnsafePathErr ''escaped'')
      else Inr (if p = [] then ''.'' else py_join ''/'' p))"

definition add_match :: "files \<Rightarrow> (string \<times> path) list \<Rightarrow> path \<Rightarrow> (string \<times> path) list outcome" where
  "add_match fs acc p =
     bindE (ensure_entry_type fs p) (\<lambda>_.
     bindE (relative_text p) (\<lambda>rel.
       if is_forbidden_relative rel then Inl (UnsafePathErr ''credential'')
       else Inr (AList.update rel p acc)))"

definition expand_pattern :: "files \<Rightarrow> string \<Rightarrow> (string \<times> path) list outcome" where
  "expand_pattern fs pattern =
     bindE (validate_relative_pattern pattern) (\<lambda>canonical.
     bindE (consume (add_match fs) [] (expand_parts fs [] (posix_parts canonical))) (\<lambda>matches.
     Inr (sort_key fst matches)))"

definition add_file :: "files \<Rightarrow> (string \<times> path) list \<Rightarrow> path \<Rightarrow> (string \<times> path) list outcome" where
  "add_file fs acc p =
     bindE (ensure_entry_type fs p) (\<lambda>n.
       if n = NDir then Inr acc
       else bindE (relative_text p) (\<lambda>rel.
         if is_forbidden_relative rel then Inl (UnsafePathErr ''credential'')
         else Inr (AList.update rel p acc)))"

definition expand_pattern_files :: "files \<Rightarrow> string \<Rightarrow> (string \<times> path) list outcome" where
  "expand_pattern_files fs pattern =
     bindE (expand_pattern fs pattern) (\<lambda>found.
     bindE (foldE (\<lambda>acc c. consume (add_file fs) acc (safe_tree fs (snd c))) [] found) (\<lambda>matches.
     Inr (sort_key fst matches)))"

section \<open>Additions\<close>

definition read_text :: "string \<Rightarrow> string outcome" where
  "read_text c = (if utf8_ok c then Inr c else Inl (PyErr (ValueError ''utf-8'')))"

definition read_legacy_additions :: "files \<Rightarrow> string list outcome" where
  "read_legacy_additions fs =
     (if lstat fs LEGACY_POLICY_FILE = None then Inr []
      else bindE (ensure_entry_type fs LEGACY_POLICY_FILE) (\<lambda>n.
        (case n of
           NFile c m t \<Rightarrow>
             bindE (read_text c) (\<lambda>text.
             bindE (mapE validate_relative_pattern
               (filter (\<lambda>v. v \<noteq> [] \<and> \<not> is_prefix ''#'' v) (map strip (splitlines text))))
             (\<lambda>additions. Inr (fromkeys additions)))
         | _ \<Rightarrow> Inl (DataPolicyErr ''regular file''))))"

definition read_addition :: "string \<times> pyv \<Rightarrow> (string \<times> string list) outcome" where
  "read_addition kv =
     (case class_by_name (fst kv) of
        None \<Rightarrow> Inl (DataPolicyErr ''unknown class'')
      | Some c \<Rightarrow>
          if \<not> oc_snapshot c then Inl (DataPolicyErr ''non-snapshot class'')
          else
            (case snd kv of
               PList items \<Rightarrow>
                 if list_all (\<lambda>v. case v of PStr s \<Rightarrow> True | _ \<Rightarrow> False) items
                 then bindE (mapE (\<lambda>v. validate_relative_pattern (case v of PStr s \<Rightarrow> s | _ \<Rightarrow> []))
                        items) (\<lambda>ps. Inr (oc_name c, fromkeys ps))
                 else Inl (DataPolicyErr ''list of paths'')
             | _ \<Rightarrow> Inl (DataPolicyErr ''list of paths'')))"

definition read_local_additions :: "snap_env \<Rightarrow> files \<Rightarrow> (string \<times> string list) list outcome" where
  "read_local_additions env fs =
     (if lstat fs POLICY_FILE = None then Inr []
      else bindE (ensure_entry_type fs POLICY_FILE) (\<lambda>n.
        (case n of
           NFile c m t \<Rightarrow>
             (case se_loads env c of
                Some (PDict raw) \<Rightarrow>
                  if \<not> py_eq (dget raw ''schema'') (PInt POLICY_SCHEMA)
                  then Inl (DataPolicyErr ''schema'')
                  else if \<exists>kv\<in>set raw. fst kv \<noteq> ''schema'' \<and> fst kv \<noteq> ''additive''
                  then Inl (DataPolicyErr ''only schema and additive'')
                  else
                    (case dget_or raw ''additive'' (PDict []) of
                       PDict adds \<Rightarrow> mapE read_addition adds
                     | _ \<Rightarrow> Inl (DataPolicyErr ''object''))
              | Some v \<Rightarrow> Inl (DataPolicyErr ''schema'')
              | None \<Rightarrow> Inl (DataPolicyErr ''invalid''))
         | _ \<Rightarrow> Inl (DataPolicyErr ''regular file''))))"

section \<open>The policy\<close>

record data_policy =
  dp_classes :: "(string \<times> string list) list"
  dp_additive :: "(string \<times> string list) list"

definition lookup_patterns :: "(string \<times> string list) list \<Rightarrow> string \<Rightarrow> string list" where
  "lookup_patterns al k = (case map_of al k of None \<Rightarrow> [] | Some ps \<Rightarrow> ps)"

definition snapshot_classes :: "ownership_class list" where
  "snapshot_classes = filter oc_snapshot MANDATORY_CLASSES"

definition load_data_policy :: "snap_env \<Rightarrow> files \<Rightarrow> string list option \<Rightarrow> data_policy outcome" where
  "load_data_policy env fs legacy_patterns =
     bindE (read_local_additions env fs) (\<lambda>local_adds.
     (let classes = map (\<lambda>c. (oc_name c,
            fromkeys (oc_patterns c @ lookup_patterns local_adds (oc_name c)))) snapshot_classes in
      bindE (case legacy_patterns of
               None \<Rightarrow> read_legacy_additions fs
             | Some ps \<Rightarrow> bindE (mapE validate_relative_pattern ps) (\<lambda>qs. Inr (fromkeys qs)))
        (\<lambda>legacy0.
      (let legacy = filter (\<lambda>p. p \<notin> set (concat (map snd classes))) legacy0;
           adds = filter (\<lambda>kv. snd kv \<noteq> []) local_adds in
       Inr \<lparr>dp_classes = classes,
            dp_additive = (if legacy = [] then adds
                           else adds @ [(''legacy_additive'', legacy)])\<rparr>))))"

definition snapshot_patterns :: "data_policy \<Rightarrow> (string \<times> string) list" where
  "snapshot_patterns dp =
     concat (map (\<lambda>c. map (\<lambda>p. (oc_name c, p)) (lookup_patterns (dp_classes dp) (oc_name c)))
       snapshot_classes)
     @ map (\<lambda>p. (''legacy_additive'', p)) (lookup_patterns (dp_additive dp) ''legacy_additive'')"

text \<open>\<open>DataPolicy.as_dict\<close>.\<close>

definition policy_doc :: "data_policy \<Rightarrow> dict" where
  "policy_doc dp =
     (let strs = (\<lambda>ps. PList (map PStr ps)) in
      [(''schema'', PInt POLICY_SCHEMA),
       (''mandatory'', PDict (map (\<lambda>c. (oc_name c, strs (oc_patterns c))) snapshot_classes)),
       (''additive'', PDict (map (\<lambda>kv. (fst kv, strs (snd kv)))
          (filter (\<lambda>kv. snd kv \<noteq> []) (sort_key fst (dp_additive dp))))),
       (''excluded_credentials'',
        strs (case class_by_name ''credentials'' of None \<Rightarrow> [] | Some c \<Rightarrow> oc_patterns c))])"

section \<open>The protected files\<close>

record protected_file =
  pf_path :: path
  pf_relative :: string
  pf_classes :: "string list"

type_synonym selection = "(string \<times> path \<times> string list) list"

definition select_file :: "string \<Rightarrow> string \<times> path \<Rightarrow> selection \<Rightarrow> selection" where
  "select_file cls m acc =
     (case map_of acc (fst m) of
        None \<Rightarrow> acc @ [(fst m, snd m, [cls])]
      | Some (p, cs) \<Rightarrow> AList.update (fst m) (p, List.insert cls cs) acc)"

definition select_pattern :: "files \<Rightarrow> selection \<Rightarrow> string \<times> string \<Rightarrow> selection outcome" where
  "select_pattern fs acc cp =
     bindE (expand_pattern_files fs (snd cp)) (\<lambda>ms. Inr (fold (select_file (fst cp)) ms acc))"

definition resolve_policy :: "files \<Rightarrow> data_policy \<Rightarrow> protected_file list outcome" where
  "resolve_policy fs dp =
     bindE (foldE (select_pattern fs) [] (snapshot_patterns dp)) (\<lambda>selected.
     Inr (map (\<lambda>s. \<lparr>pf_path = fst (snd s), pf_relative = fst s, pf_classes = sort (snd (snd s))\<rparr>)
       (sort_key fst selected)))"

end
