(* ===== verification/Manifest.thy ===== *)
theory Manifest
  imports SnapStore
begin

text \<open>
  Snapshot manifests (\<open>core/backup/manifest.py\<close>): the canonical body, its validation, loading
  from a reference, and \<open>verify_local_snapshot\<close> of \<open>core/backup/snapshot.py\<close> up to the release
  floor. A validated manifest is a record: the code builds it from checked fields only.
\<close>

section \<open>Data\<close>

record file_entry =
  fe_path :: string
  fe_sha256 :: string
  fe_size :: int
  fe_mode :: int
  fe_classes :: "string list"

record manifest =
  mf_release_id :: string
  mf_files :: "file_entry list"
  mf_tombstones :: "string list"
  mf_root_hash :: string

definition SNAPSHOT_SCHEMA :: int where "SNAPSHOT_SCHEMA = 1"

definition entry_doc :: "file_entry \<Rightarrow> pyv" where
  "entry_doc e =
     PDict [(''path'', PStr (fe_path e)), (''sha256'', PStr (fe_sha256 e)),
            (''size'', PInt (fe_size e)), (''mode'', PInt (fe_mode e)),
            (''classes'', PList (map PStr (fe_classes e)))]"

definition body_doc :: "string \<Rightarrow> file_entry list \<Rightarrow> string list \<Rightarrow> dict" where
  "body_doc rid entries stones =
     [(''schema'', PInt SNAPSHOT_SCHEMA), (''release_id'', PStr rid),
      (''files'', PList (map entry_doc entries)), (''tombstones'', PList (map PStr stones))]"

definition manifest_doc :: "manifest \<Rightarrow> dict" where
  "manifest_doc m =
     body_doc (mf_release_id m) (mf_files m) (mf_tombstones m)
     @ [(''root_hash'', PStr (mf_root_hash m))]"

section \<open>Validation\<close>

definition normalise_release_id :: "string \<Rightarrow> string outcome" where
  "normalise_release_id release_id =
     (let value = strip release_id in
      if value = [] \<or> py_len value > 512 \<or> (\<exists>c\<in>set value. (of_char c :: int) < 32)
      then Inl (SnapshotErr ''release_id'') else Inr value)"

text \<open>\<open>sorted(set(xs))\<close>.\<close>

definition sorted_set :: "string list \<Rightarrow> string list" where
  "sorted_set xs = sort (remdups xs)"

text \<open>\<open>_manifest_body\<close>: the release id and the tombstones of the body; the entries are kept.\<close>

definition manifest_body :: "string \<Rightarrow> string list \<Rightarrow> (string \<times> string list) outcome" where
  "manifest_body release_id tombstones =
     bindE (normalise_release_id release_id) (\<lambda>rid.
     bindE (mapE validate_relative_path tombstones) (\<lambda>paths.
     Inr (rid, sorted_set paths)))"

text \<open>\<open>except ... as exc: raise SnapshotIntegrityError(str(exc))\<close> for one class of errors.\<close>

definition as_integrity :: "(snap_error \<Rightarrow> bool) \<Rightarrow> 'a outcome \<Rightarrow> 'a outcome" where
  "as_integrity caught m =
     (case m of Inl e \<Rightarrow> if caught e then Inl (SnapshotIntegrityErr ''reraised'') else Inl e
      | Inr x \<Rightarrow> Inr x)"

fun str_items :: "pyv list \<Rightarrow> string list option" where
  "str_items [] = Some []"
| "str_items (PStr s # vs) = map_option (\<lambda>ss. s # ss) (str_items vs)"
| "str_items (v # vs) = None"

definition valid_classes :: "pyv \<Rightarrow> string list option" where
  "valid_classes v =
     (case v of
        PList items \<Rightarrow>
          (case str_items items of
             None \<Rightarrow> None
           | Some cs \<Rightarrow>
               if cs = [] \<or> [] \<in> set cs \<or> cs \<noteq> sorted_set cs then None else Some cs)
      | _ \<Rightarrow> None)"

definition has_keys :: "dict \<Rightarrow> string list \<Rightarrow> bool" where
  "has_keys d ks \<longleftrightarrow> set (map fst d) = set ks"

text \<open>One element of \<open>files\<close>, given the paths seen before it.\<close>

definition validate_file_entry :: "snap_env \<Rightarrow> string list \<Rightarrow> pyv \<Rightarrow> file_entry outcome" where
  "validate_file_entry env seen e =
     bindE (raise_if
       (\<not> is_dict e
        \<or> \<not> has_keys (dict_items e) [''path'', ''sha256'', ''size'', ''mode'', ''classes''])
       (SnapshotIntegrityErr ''invalid fields'')) (\<lambda>_.
     bindE (as_integrity is_DataPolicyError
       (validate_relative_path (py_str (se_repr env) (get e ''path'')))) (\<lambda>relative.
     bindE (if relative \<in> set seen then Inr True else is_known_secret relative) (\<lambda>bad.
     bindE (raise_if bad (SnapshotIntegrityErr ''duplicate or forbidden'')) (\<lambda>_.
     (let digest = py_str (se_repr env) (get e ''sha256'') in
     bindE (raise_if (\<not> is_digest digest) (SnapshotIntegrityErr ''sha256'')) (\<lambda>_.
     (case get e ''size'' of
        PInt sz \<Rightarrow>
          if sz < 0 then Inl (SnapshotIntegrityErr ''size'')
          else
            (case get e ''mode'' of
               PInt md \<Rightarrow>
                 if md < 0 \<or> md > 511 then Inl (SnapshotIntegrityErr ''mode'')
                 else
                   (case valid_classes (get e ''classes'') of
                      None \<Rightarrow> Inl (SnapshotIntegrityErr ''classes'')
                    | Some cs \<Rightarrow>
                        Inr \<lparr>fe_path = relative, fe_sha256 = digest, fe_size = sz, fe_mode = md,
                             fe_classes = cs\<rparr>)
             | _ \<Rightarrow> Inl (SnapshotIntegrityErr ''mode''))
      | _ \<Rightarrow> Inl (SnapshotIntegrityErr ''size''))))))))"

definition validate_file_entries :: "snap_env \<Rightarrow> pyv list \<Rightarrow> file_entry list outcome" where
  "validate_file_entries env raws =
     foldE (\<lambda>acc e. bindE (validate_file_entry env (map fe_path acc) e) (\<lambda>x. Inr (acc @ [x]))) [] raws"

definition validate_tombstone :: "string list \<Rightarrow> pyv \<Rightarrow> string outcome" where
  "validate_tombstone seen v =
     (case v of
        PStr s \<Rightarrow>
          bindE (as_integrity is_DataPolicyError (validate_relative_path s)) (\<lambda>relative.
            if relative \<in> set seen then Inl (SnapshotIntegrityErr ''live and tombstoned'')
            else Inr relative)
      | _ \<Rightarrow> Inl (SnapshotIntegrityErr ''strings''))"

definition manifest_hash :: "snap_env \<Rightarrow> string \<Rightarrow> file_entry list \<Rightarrow> string list \<Rightarrow> string" where
  "manifest_hash env rid entries stones =
     se_sha env (canonical_json (se_repr env) (PDict (body_doc rid entries stones)))"

definition validate_manifest :: "snap_env \<Rightarrow> pyv \<Rightarrow> manifest outcome" where
  "validate_manifest env raw =
     bindE (raise_if (\<not> is_dict raw) (SnapshotIntegrityErr ''object'')) (\<lambda>_.
     bindE (raise_if (\<not> has_keys (dict_items raw)
              [''schema'', ''release_id'', ''files'', ''tombstones'', ''root_hash''])
       (SnapshotIntegrityErr ''unknown or missing fields'')) (\<lambda>_.
     bindE (raise_if (\<not> py_eq (get raw ''schema'') (PInt SNAPSHOT_SCHEMA))
       (SnapshotIntegrityErr ''schema'')) (\<lambda>_.
     bindE (as_integrity is_SnapshotError
       (normalise_release_id (py_str (se_repr env) (get raw ''release_id'')))) (\<lambda>rid.
     bindE (raise_if (\<not> is_list (get raw ''files'') \<or> \<not> is_list (get raw ''tombstones''))
       (SnapshotIntegrityErr ''arrays'')) (\<lambda>_.
     bindE (validate_file_entries env (list_items (get raw ''files''))) (\<lambda>entries.
     bindE (raise_if (map fe_path entries \<noteq> sorted_set (map fe_path entries))
       (SnapshotIntegrityErr ''canonically sorted'')) (\<lambda>_.
     bindE (mapE (validate_tombstone (map fe_path entries)) (list_items (get raw ''tombstones'')))
       (\<lambda>stones.
     bindE (raise_if (stones \<noteq> sorted_set stones) (SnapshotIntegrityErr ''tombstones'')) (\<lambda>_.
     bindE (manifest_body rid stones) (\<lambda>(body_rid, body_stones).
     (let root_hash = py_str (se_repr env) (get raw ''root_hash'') in
      if \<not> is_digest root_hash \<or> root_hash \<noteq> manifest_hash env body_rid entries body_stones
      then Inl (SnapshotIntegrityErr ''root hash'')
      else Inr \<lparr>mf_release_id = body_rid, mf_files = entries, mf_tombstones = body_stones,
                mf_root_hash = root_hash\<rparr>)))))))))))"

section \<open>Loading\<close>

text \<open>A snapshot is named by its document, by a text or by a path.\<close>

datatype snapshot_ref = RefDoc dict | RefText string | RefPath path

definition manifest_path :: "path \<Rightarrow> string \<Rightarrow> path outcome" where
  "manifest_path store root_hash =
     (if is_digest root_hash then Inr (store @ [''manifests'', root_hash @ ''.json''])
      else Inl (SnapshotIntegrityErr ''root hash''))"

definition load_manifest_file :: "snap_env \<Rightarrow> files \<Rightarrow> path \<Rightarrow> manifest outcome" where
  "load_manifest_file env fs p =
     bindE (read_manifest_json env fs p) (\<lambda>raw.
     bindE (validate_manifest env raw) (\<lambda>m.
       (case (if p = [] then None else manifest_file_name (last p)) of
          None \<Rightarrow> Inr m
        | Some digest \<Rightarrow>
            if digest \<noteq> mf_root_hash m
            then Inl (SnapshotIntegrityErr ''filename and root hash'') else Inr m)))"

definition load_manifest :: "snap_env \<Rightarrow> files \<Rightarrow> path \<Rightarrow> snapshot_ref \<Rightarrow> manifest outcome" where
  "load_manifest env fs store ref =
     (case ref of
        RefDoc d \<Rightarrow> validate_manifest env (PDict d)
      | RefText s \<Rightarrow>
          bindE (if is_digest s then manifest_path store s else Inr (se_path env s))
            (load_manifest_file env fs)
      | RefPath p \<Rightarrow> load_manifest_file env fs p)"

section \<open>Canonical manifests\<close>

text \<open>
  What validation guarantees: entries strictly sorted by path, tombstones strictly sorted,
  checked fields, and the root hash of the canonical body.
\<close>

definition canonical_manifest :: "snap_env \<Rightarrow> manifest \<Rightarrow> bool" where
  "canonical_manifest env m \<longleftrightarrow>
     sorted_wrt (<) (map fe_path (mf_files m)) \<and> sorted_wrt (<) (mf_tombstones m)
     \<and> (\<forall>e\<in>set (mf_files m). is_digest (fe_sha256 e) \<and> 0 \<le> fe_size e \<and> 0 \<le> fe_mode e
          \<and> fe_mode e \<le> 511 \<and> is_known_secret (fe_path e) = Inr False)
     \<and> is_digest (mf_root_hash m)
     \<and> mf_root_hash m = manifest_hash env (mf_release_id m) (mf_files m) (mf_tombstones m)"

lemma sorted_set_props [simp]:
  "set (sorted_set xs) = set xs" "sorted (sorted_set xs)" "distinct (sorted_set xs)"
  by (simp_all add: sorted_set_def)

lemma sorted_set_id: "sorted xs \<Longrightarrow> distinct xs \<Longrightarrow> sorted_set xs = xs"
  by (simp add: sorted_set_def sorted_sort_id)

lemma strict_sorted_sorted_set: "sorted_wrt (<) (sorted_set xs)"
  by (simp add: strict_sorted_iff)

lemma validate_file_entry_props:
  assumes "validate_file_entry env seen e = Inr x"
  shows "fe_path x \<notin> set seen" "is_digest (fe_sha256 x)" "0 \<le> fe_size x" "0 \<le> fe_mode x"
    "fe_mode x \<le> 511" "is_known_secret (fe_path x) = Inr False"
  using assms
  by (auto simp: validate_file_entry_def outcome_simps Let_def
      split: if_split_asm pyv.splits option.splits)

lemma validate_file_entries_props:
  assumes "validate_file_entries env raws = Inr xs"
  shows "\<forall>x\<in>set xs. is_digest (fe_sha256 x) \<and> 0 \<le> fe_size x \<and> 0 \<le> fe_mode x
    \<and> fe_mode x \<le> 511 \<and> is_known_secret (fe_path x) = Inr False"
  by (rule foldE_invariant [OF assms [unfolded validate_file_entries_def]])
     (auto simp: outcome_simps dest: validate_file_entry_props)

lemma manifest_body_stones: "manifest_body r ts = Inr (rid, stones) \<Longrightarrow> sorted_wrt (<) stones"
  by (auto simp: manifest_body_def outcome_simps strict_sorted_sorted_set)

lemma validate_manifest_canonical:
  assumes "validate_manifest env raw = Inr m"
  shows "canonical_manifest env m"
proof -
  from assms obtain entries stones rid root where
    entries: "validate_file_entries env (list_items (get raw ''files'')) = Inr entries"
    and srt: "map fe_path entries = sorted_set (map fe_path entries)"
    and body: "manifest_body rid stones = Inr (mf_release_id m, mf_tombstones m)"
    and m: "mf_files m = entries" "mf_root_hash m = root" "is_digest root"
      "root = manifest_hash env (mf_release_id m) entries (mf_tombstones m)"
    by (auto simp: validate_manifest_def outcome_simps Let_def split: if_split_asm)
  have "sorted_wrt (<) (map fe_path entries)"
    by (subst srt) (rule strict_sorted_sorted_set)
  with validate_file_entries_props [OF entries] manifest_body_stones [OF body] m show ?thesis
    by (simp add: canonical_manifest_def)
qed

lemma load_manifest_canonical:
  "load_manifest env fs store ref = Inr m \<Longrightarrow> canonical_manifest env m"
  by (auto simp: load_manifest_def load_manifest_file_def outcome_simps
      split: snapshot_ref.splits if_split_asm option.splits dest: validate_manifest_canonical)

text \<open>A manifest file of the store names its manifest.\<close>

lemma load_manifest_file_root:
  assumes "load_manifest_file env fs (d @ [h @ ''.json'']) = Inr m" and "is_digest h"
  shows "mf_root_hash m = h"
proof -
  have "manifest_file_name (h @ ''.json'') = Some h"
    using assms(2) by (simp add: manifest_file_name_Some)
  with assms(1) show ?thesis
    by (auto simp: load_manifest_file_def outcome_simps split: if_split_asm)
qed

text \<open>Loading reads one file only.\<close>

lemma load_manifest_file_cong:
  "lstat fs p = lstat fs' p \<Longrightarrow> load_manifest_file env fs p = load_manifest_file env fs' p"
  by (simp add: load_manifest_file_def read_manifest_json_def)

end
