(* ===== verification/ReleaseFloor.thy ===== *)
theory ReleaseFloor
  imports Manifest
begin

text \<open>
  The anti-rollback floor (\<open>core/backup/release_floor.py\<close>): the record of the newest release an
  instance has accepted, read from the instance and from a snapshot, and the plan an in-place
  restore must keep. \<open>verify_local_snapshot\<close> of \<open>core/backup/snapshot.py\<close> is here because it
  reads the floor of a snapshot.
\<close>

section \<open>Floor records\<close>

text \<open>\<open>float(x)\<close> of a number: an integer beyond the largest double raises.\<close>

definition float_of_num :: "pyv \<Rightarrow> rat outcome" where
  "float_of_num v =
     (case v of
        PInt i \<Rightarrow>
          if \<bar>i\<bar> \<ge> 2 ^ 1024 - 2 ^ 970 then Inl (PyErr (OtherError ''OverflowError'' []))
          else Inr (of_int i)
      | PFloat r \<Rightarrow> Inr r
      | _ \<Rightarrow> Inl (PyErr (TypeError ''float'')))"

text \<open>One group of \<open>_GIT_RELEASE_VERSION_RE\<close>: a number below 1000 without leading zeros.\<close>

definition version_part :: "string \<Rightarrow> bool" where
  "version_part s \<longleftrightarrow>
     s = ''0'' \<or> (s \<noteq> [] \<and> length s \<le> 3 \<and> list_all is_digit s \<and> hd s \<noteq> CHR ''0'')"

definition git_version :: "string \<Rightarrow> (nat \<times> nat \<times> nat) option" where
  "git_version s =
     (case split_on (CHR ''.'') s of
        [a, b, c] \<Rightarrow>
          if version_part a \<and> version_part b \<and> version_part c
          then Some (dec_value a, dec_value b, dec_value c) else None
      | _ \<Rightarrow> None)"

definition git_sequence :: "nat \<times> nat \<times> nat \<Rightarrow> int" where
  "git_sequence v = (case v of (major, minor, patch) \<Rightarrow>
     int major * 1000000 + int minor * 1000 + int patch + 1)"

definition RELEASE_FLOOR_TRUST :: "string list" where
  "RELEASE_FLOOR_TRUST = [''git-semver-tag'', ''signed-ed25519'']"

definition FLOOR_KEYS :: "string list" where
  "FLOOR_KEYS = [''schema'', ''sequence'', ''tree_sha256'', ''recorded_at'']"

text \<open>The part of the check for schema 2.\<close>

definition validate_floor_version :: "dict \<Rightarrow> int \<Rightarrow> unit outcome" where
  "validate_floor_version d sq =
     (case dget d ''version'' of
        PStr version \<Rightarrow>
          if version = [] \<or> py_len version > 64 \<or> CHR 0x00 \<in> set version
          then Inl (SnapshotIntegrityErr ''floor'')
          else bindE (py_in_set (dget d ''trust'') (map PStr RELEASE_FLOOR_TRUST)) (\<lambda>known.
            if \<not> known then Inl (SnapshotIntegrityErr ''floor'')
            else if dget d ''trust'' = PStr ''git-semver-tag''
            then (case git_version version of
                    None \<Rightarrow> Inl (SnapshotIntegrityErr ''floor'')
                  | Some v \<Rightarrow> raise_if (sq \<noteq> git_sequence v) (SnapshotIntegrityErr ''floor''))
            else Inr ())
      | _ \<Rightarrow> Inl (SnapshotIntegrityErr ''floor''))"

text \<open>The common part: the sequence and the tree digest of a well-formed record.\<close>

definition floor_identity :: "dict \<Rightarrow> (int \<times> string) outcome" where
  "floor_identity d =
     (case (dget d ''sequence'', dget d ''tree_sha256'') of
        (PInt sq, PStr tree) \<Rightarrow>
          if sq \<le> 0 \<or> \<not> is_digest tree then Inl (SnapshotIntegrityErr ''floor'')
          else
            (case dget d ''recorded_at'' of
               PInt i \<Rightarrow> bindE (float_of_num (PInt i)) (\<lambda>r.
                 if r \<le> 0 then Inl (SnapshotIntegrityErr ''floor'') else Inr (sq, tree))
             | PFloat r \<Rightarrow>
                 if r \<le> 0 then Inl (SnapshotIntegrityErr ''floor'') else Inr (sq, tree)
             | _ \<Rightarrow> Inl (SnapshotIntegrityErr ''floor''))
      | _ \<Rightarrow> Inl (SnapshotIntegrityErr ''floor''))"

definition validate_floor :: "dict \<Rightarrow> (int \<times> string) outcome" where
  "validate_floor d =
     (let schema = dget d ''schema'';
          keys = (if py_eq schema (PInt 1) then FLOOR_KEYS
                  else FLOOR_KEYS @ [''version'', ''trust'']) in
      bindE (py_in_set schema [PInt 1, PInt 2]) (\<lambda>known.
      if \<not> known \<or> \<not> has_keys d keys then Inl (SnapshotIntegrityErr ''floor'')
      else bindE (floor_identity d) (\<lambda>(sq, tree).
        if py_eq schema (PInt 2)
        then bindE (validate_floor_version d sq) (\<lambda>_. Inr (sq, tree))
        else Inr (sq, tree))))"

section \<open>Reading floors\<close>

definition read_local_floor :: "snap_env \<Rightarrow> files \<Rightarrow> (int \<times> string) option outcome" where
  "read_local_floor env fs =
     (case lstat fs FLOOR_PATH of
        None \<Rightarrow> Inr None
      | Some n \<Rightarrow>
          bindE (read_bounded_json_object env fs FLOOR_PATH MAX_FLOOR_BYTES) (\<lambda>d.
          bindE (validate_floor d) (\<lambda>f. Inr (Some f))))"

definition read_snapshot_floor ::
  "snap_env \<Rightarrow> files \<Rightarrow> path \<Rightarrow> string \<Rightarrow> int \<Rightarrow> (int \<times> string) outcome" where
  "read_snapshot_floor env fs store digest sz =
     (if sz \<le> 0 \<or> sz > MAX_FLOOR_BYTES then Inl (SnapshotIntegrityErr ''safety bound'')
      else bindE (open_verified_object env fs store digest sz) (\<lambda>payload.
        (case se_loads env payload of
           None \<Rightarrow> Inl (SnapshotIntegrityErr ''corrupt'')
         | Some (PDict d) \<Rightarrow> validate_floor d
         | Some v \<Rightarrow> Inl (SnapshotIntegrityErr ''object''))))"

section \<open>Verification of a snapshot\<close>

definition verify_entry ::
  "snap_env \<Rightarrow> files \<Rightarrow> path \<Rightarrow> snap_limits \<Rightarrow> int \<Rightarrow> file_entry \<Rightarrow> int outcome" where
  "verify_entry env fs store l acc e =
     (if fe_size e > sl_max_file_size l then Inl (SnapshotLimitErr ''max_file_size'')
      else if acc + fe_size e > sl_max_total_size l then Inl (SnapshotLimitErr ''max_total_size'')
      else bindE (verify_object env fs store (fe_sha256 e) (fe_size e)) (\<lambda>_.
        if fe_path e = RELEASE_SEQUENCE_FLOOR
        then bindE (read_snapshot_floor env fs store (fe_sha256 e) (fe_size e))
               (\<lambda>_. Inr (acc + fe_size e))
        else Inr (acc + fe_size e)))"

definition verify_local_snapshot ::
  "snap_env \<Rightarrow> files \<Rightarrow> snapshot_ref \<Rightarrow> path \<Rightarrow> snap_limits \<Rightarrow> manifest outcome" where
  "verify_local_snapshot env fs snapshot store l =
     bindE (validate_limits l) (\<lambda>_.
     bindE (load_manifest env fs store snapshot) (\<lambda>m.
     bindE (raise_if (int (length (mf_files m)) > sl_max_files l) (SnapshotLimitErr ''max_files''))
       (\<lambda>_.
     bindE (foldE (verify_entry env fs store l) 0 (mf_files m)) (\<lambda>_.
     Inr m))))"

section \<open>The plan of a restore\<close>

record floor_plan =
  fp_entry :: "file_entry option"
  fp_snapshot :: "(int \<times> string) option"
  fp_minimum :: "int \<times> string"

definition plan_floor_restore ::
  "snap_env \<Rightarrow> files \<Rightarrow> path \<Rightarrow> manifest \<Rightarrow> floor_plan option outcome" where
  "plan_floor_restore env fs store m =
     bindE (read_local_floor env fs) (\<lambda>current.
     (let entry = find (\<lambda>e. fe_path e = RELEASE_SEQUENCE_FLOOR) (mf_files m) in
      bindE (case entry of
               None \<Rightarrow> Inr None
             | Some e \<Rightarrow> bindE (read_snapshot_floor env fs store (fe_sha256 e) (fe_size e))
                          (\<lambda>f. Inr (Some f))) (\<lambda>snapshot.
      (case (current, snapshot) of
         (None, None) \<Rightarrow> Inr None
       | (Some c, None) \<Rightarrow>
           Inr (Some \<lparr>fp_entry = entry, fp_snapshot = None, fp_minimum = c\<rparr>)
       | (None, Some s) \<Rightarrow>
           Inr (Some \<lparr>fp_entry = entry, fp_snapshot = Some s, fp_minimum = s\<rparr>)
       | (Some c, Some s) \<Rightarrow>
           if fst c = fst s \<and> snd c \<noteq> snd s
           then Inl (SnapshotIntegrityErr ''reuses one sequence'')
           else Inr (Some \<lparr>fp_entry = entry, fp_snapshot = Some s,
                           fp_minimum = (if fst s > fst c then s else c)\<rparr>)))))"

definition verify_floor :: "snap_env \<Rightarrow> files \<Rightarrow> floor_plan \<Rightarrow> unit outcome" where
  "verify_floor env fs plan =
     bindE (read_local_floor env fs) (\<lambda>current.
       (case current of
          None \<Rightarrow> Inl (SnapshotIntegrityErr ''lowered or removed'')
        | Some c \<Rightarrow>
            if fst c < fst (fp_minimum plan) then Inl (SnapshotIntegrityErr ''lowered or removed'')
            else if fst c = fst (fp_minimum plan) \<and> snd c \<noteq> snd (fp_minimum plan)
            then Inl (SnapshotIntegrityErr ''changed'') else Inr ()))"

section \<open>Floors and versions\<close>

text \<open>A floor \<open>b\<close> is at least \<open>a\<close>: a higher sequence, or the same release.\<close>

definition floor_le :: "int \<times> string \<Rightarrow> int \<times> string \<Rightarrow> bool" where
  "floor_le a b \<longleftrightarrow> fst a < fst b \<or> a = b"

lemma floor_le_refl [simp]: "floor_le a a"
  by (simp add: floor_le_def)

lemma floor_le_trans: "floor_le a b \<Longrightarrow> floor_le b c \<Longrightarrow> floor_le a c"
  by (auto simp: floor_le_def)

lemma floor_leI: "fst a \<le> fst b \<Longrightarrow> (fst a = fst b \<Longrightarrow> snd a = snd b) \<Longrightarrow> floor_le a b"
  by (cases a; cases b) (auto simp: floor_le_def)

lemma plan_minimum:
  assumes plan: "plan_floor_restore env fs store m = Inr plan"
    and c: "read_local_floor env fs = Inr (Some c)"
  shows "\<exists>p. plan = Some p \<and> floor_le c (fp_minimum p)"
proof (cases "find (\<lambda>e. fe_path e = RELEASE_SEQUENCE_FLOOR) (mf_files m)")
  case None
  with plan c show ?thesis by (auto simp: plan_floor_restore_def)
next
  case (Some e)
  with plan c show ?thesis
    by (cases "read_snapshot_floor env fs store (fe_sha256 e) (fe_size e)")
       (auto simp: plan_floor_restore_def floor_le_def split: if_split_asm)
qed

lemma verify_floor_le:
  assumes "verify_floor env fs p = Inr u"
  shows "\<exists>c. read_local_floor env fs = Inr (Some c) \<and> floor_le (fp_minimum p) c"
proof (cases "read_local_floor env fs")
  case (Inr f)
  with assms show ?thesis
    by (cases f) (auto simp: verify_floor_def split: if_split_asm intro!: floor_leI)
qed (use assms in \<open>simp add: verify_floor_def\<close>)

lemma dec_value_le: "list_all is_digit s \<Longrightarrow> dec_value s < 10 ^ length s"
proof (induction s rule: rev_induct)
  case (snoc c s)
  then have "dec_value s < 10 ^ length s" and "digit_val c \<le> 9"
    by (auto simp: digit_val_def is_digit_def)
  then show ?case by (simp add: dec_value_def)
qed (simp add: dec_value_def)

lemma version_part_bound: "version_part s \<Longrightarrow> dec_value s < 1000"
proof (cases "s = ''0''")
  case True
  then show ?thesis by (simp add: dec_value_def digit_val_def)
next
  case False
  assume "version_part s"
  with False have "list_all is_digit s" "length s \<le> 3" by (auto simp: version_part_def)
  then have "dec_value s < 10 ^ length s" by (simp add: dec_value_le)
  also have "(10::nat) ^ length s \<le> 10 ^ 3"
    by (rule power_increasing) (use \<open>length s \<le> 3\<close> in simp_all)
  finally show ?thesis by simp
qed

lemma git_version_bound:
  assumes "git_version s = Some (a, b, c)"
  shows "a < 1000 \<and> b < 1000 \<and> c < 1000"
  using assms by (auto simp: git_version_def version_part_bound split: list.splits if_split_asm)

lemma git_sequence_less:
  assumes "git_version s = Some (a, b, c)" and "git_version t = Some (a', b', c')"
  shows "git_sequence (a, b, c) < git_sequence (a', b', c') \<longleftrightarrow>
    a < a' \<or> a = a' \<and> (b < b' \<or> b = b' \<and> c < c')"
  using git_version_bound [OF assms(1)] git_version_bound [OF assms(2)]
  unfolding git_sequence_def by auto

text \<open>What an accepted record says about its fields.\<close>

lemma validate_floor_git:
  assumes "validate_floor d = Inr (sq, tree)" and "dget d ''schema'' = PInt 2"
    and "dget d ''trust'' = PStr ''git-semver-tag''"
  shows "\<exists>version v. dget d ''version'' = PStr version \<and> git_version version = Some v
    \<and> sq = git_sequence v"
proof -
  from assms(1,2) have "validate_floor_version d sq = Inr ()"
    by (auto simp: validate_floor_def Let_def bindE_eq_Inr py_in_set_def split: if_split_asm)
  with assms(3) show ?thesis
    by (auto simp: validate_floor_version_def py_in_set_def RELEASE_FLOOR_TRUST_def outcome_simps
        split: pyv.splits if_split_asm option.splits)
qed

lemma validate_floor_pos: "validate_floor d = Inr (sq, tree) \<Longrightarrow> 0 < sq \<and> is_digest tree"
  by (auto simp: validate_floor_def floor_identity_def Let_def bindE_eq_Inr
      split: if_split_asm pyv.splits)

section \<open>Verified snapshots\<close>

text \<open>
  The files of the store a verified snapshot rests on are its objects; verification succeeds
  again wherever they and the manifest are the same.
\<close>

lemma foldE_cong:
  assumes "\<And>s x. x \<in> set xs \<Longrightarrow> f s x = g s x"
  shows "foldE f s xs = foldE g s xs"
  using assms
proof (induction xs arbitrary: s)
  case (Cons x xs)
  have "f s x = g s x" using Cons.prems by simp
  then show ?case using Cons by (auto split: sum.splits)
qed simp

lemma object_read_cong:
  assumes "lstat fs (store @ [''objects'', ''sha256'', take 2 digest, drop 2 digest])
    = lstat fs' (store @ [''objects'', ''sha256'', take 2 digest, drop 2 digest])"
  shows "verify_object env fs store digest sz = verify_object env fs' store digest sz"
    and "open_verified_object env fs store digest sz = open_verified_object env fs' store digest sz"
  using assms
  by (cases "is_digest digest";
      simp add: verify_object_def object_path_def hash_file_def open_verified_object_def)+

lemma verify_entry_cong:
  assumes "lstat fs (store @ [''objects'', ''sha256'', take 2 (fe_sha256 e), drop 2 (fe_sha256 e)])
    = lstat fs' (store @ [''objects'', ''sha256'', take 2 (fe_sha256 e), drop 2 (fe_sha256 e)])"
  shows "verify_entry env fs store l acc e = verify_entry env fs' store l acc e"
  unfolding verify_entry_def read_snapshot_floor_def by (simp only: object_read_cong [OF assms])

lemma verify_entries_objects:
  assumes "foldE (verify_entry env fs store l) acc es = Inr r" and "e \<in> set es"
  shows "object_ok env fs store (fe_sha256 e) (fe_size e) \<and> fe_size e \<le> sl_max_file_size l"
  using assms
proof (induction es arbitrary: acc)
  case (Cons x es)
  show ?case
  proof (cases "e = x")
    case True
    with Cons.prems(1) show ?thesis
      by (auto simp: verify_entry_def outcome_simps verify_object_iff split: sum.splits if_split_asm)
  next
    case False
    with Cons show ?thesis by (auto split: sum.splits)
  qed
qed simp

end
