(* ===== verification/SnapRoots.thy ===== *)
theory SnapRoots
  imports ReleaseFloor
begin

text \<open>
  The durable references to snapshots (\<open>discover_protected_snapshot_roots\<close> of
  \<open>core/backup/snapshot.py\<close>): the checkpoints named by the update transaction journals, the
  journal of an in-place restore and the record of the last restore.
\<close>

section \<open>Update journals\<close>

definition UPDATE_STATES :: "string list" where
  "UPDATE_STATES =
     [''CREATED'', ''RESOLVED'', ''STAGED'', ''PLANNED'', ''DEPENDENCIES_READY'',
      ''DRAIN_REQUESTED'', ''QUIESCENT'', ''CHECKPOINTED'', ''STOPPING'', ''STOPPED'',
      ''ACTIVATED'', ''STARTED'', ''VALIDATED'', ''COMMITTED'', ''CANCELLED'', ''ROLLED_BACK'',
      ''FAILED'']"

text \<open>\<open>_UPDATE_TRANSACTION_ID_RE\<close>.\<close>

definition transaction_id_ok :: "string \<Rightarrow> bool" where
  "transaction_id_ok s \<longleftrightarrow>
     (case s of
        [] \<Rightarrow> False
      | c # cs \<Rightarrow> is_alnum c \<and> length cs \<le> 127
          \<and> list_all (\<lambda>d. is_alnum d \<or> d \<in> set ''._-'') cs)"

definition is_json_name :: "string \<Rightarrow> bool" where
  "is_json_name name \<longleftrightarrow> is_suffix ''.json'' name"

text \<open>\<open>path.stem\<close> of a name that ends in \<open>.json\<close>.\<close>

definition json_stem :: "string \<Rightarrow> string" where
  "json_stem name = (if length name = 5 then name else take (length name - 5) name)"

text \<open>\<open>_add_checkpoint_root\<close>.\<close>

definition add_checkpoint_root ::
  "snap_env \<Rightarrow> bool \<Rightarrow> pyv \<Rightarrow> string list \<Rightarrow> string list outcome" where
  "add_checkpoint_root env required v protected =
     (if v = PNone \<and> \<not> required then Inr protected
      else if \<not> is_dict v then Inl (SnapshotIntegrityErr ''object'')
      else if get v ''root_hash'' = PNone \<and> \<not> required then Inr protected
      else
        (let h = str_or_empty (se_repr env) (get v ''root_hash'') in
         if \<not> is_digest h then Inl (SnapshotIntegrityErr ''root hash'')
         else Inr (List.insert h protected)))"

definition check_event :: "pyv \<Rightarrow> bool outcome" where
  "check_event ev =
     (if \<not> is_dict ev \<or> \<not> has_keys (dict_items ev) [''state'', ''at'', ''detail''] then Inr False
      else bindE (py_in_set (get ev ''state'') (map PStr UPDATE_STATES)) (\<lambda>known.
        Inr (known \<and> (case get ev ''detail'' of PStr s \<Rightarrow> True | _ \<Rightarrow> False))))"

text \<open>\<open>all(...)\<close> over the events, in order.\<close>

fun check_events :: "pyv list \<Rightarrow> bool outcome" where
  "check_events [] = Inr True"
| "check_events (ev # evs) =
     bindE (check_event ev) (\<lambda>ok. if ok then check_events evs else Inr False)"

definition journal_fields_ok :: "dict \<Rightarrow> string \<Rightarrow> bool outcome" where
  "journal_fields_ok d name =
     (if \<not> has_keys d [''schema'', ''transaction_id'', ''state'', ''created_at'', ''updated_at'',
                      ''metadata'', ''events'']
         \<or> \<not> py_eq (dget d ''schema'') (PInt 1)
         \<or> (case dget d ''transaction_id'' of
              PStr s \<Rightarrow> \<not> transaction_id_ok s \<or> s \<noteq> json_stem name
            | _ \<Rightarrow> True)
      then Inr False
      else bindE (py_in_set (dget d ''state'') (map PStr UPDATE_STATES)) (\<lambda>known.
        Inr (known \<and> is_dict (dget d ''metadata'') \<and> is_list (dget d ''events'')
             \<and> list_items (dget d ''events'') \<noteq> [])))"

definition candidate_root ::
  "snap_env \<Rightarrow> dict \<Rightarrow> string list \<Rightarrow> string list outcome" where
  "candidate_root env meta protected =
     (if \<not> has_key meta ''candidate_era_preservation'' then Inr protected
      else
        (let c = dget meta ''candidate_era_preservation'' in
         if \<not> is_dict c then Inl (SnapshotIntegrityErr ''candidate'')
         else
           bindE (py_in_set (get c ''state'')
             (map PStr [''capturing'', ''failed'', ''verified'', ''not_available''])) (\<lambda>known.
           if \<not> known then Inl (SnapshotIntegrityErr ''candidate state'')
           else if has_key (dict_items c) ''checkpoint'' \<or> get c ''state'' = PStr ''verified''
           then add_checkpoint_root env True (get c ''checkpoint'') protected
           else Inr protected)))"

definition checkpoint_key ::
  "snap_env \<Rightarrow> dict \<Rightarrow> string \<Rightarrow> string list \<Rightarrow> string list outcome" where
  "checkpoint_key env meta k protected =
     (if has_key meta k then add_checkpoint_root env True (dget meta k) protected
      else Inr protected)"

definition roots_of_update_journal :: "snap_env \<Rightarrow> files \<Rightarrow> path \<Rightarrow> string list outcome" where
  "roots_of_update_journal env fs p =
     bindE (read_bounded_json_object env fs p MAX_UPDATE_JOURNAL_BYTES) (\<lambda>d.
     bindE (journal_fields_ok d (last p)) (\<lambda>ok.
     if \<not> ok then Inl (SnapshotIntegrityErr ''invalid fields'')
     else
       (let events = list_items (dget d ''events'') in
       bindE (check_events events) (\<lambda>evs_ok.
       if \<not> evs_ok \<or> get (hd events) ''state'' \<noteq> PStr ''CREATED''
          \<or> \<not> py_eq (get (last events) ''state'') (dget d ''state'')
       then Inl (SnapshotIntegrityErr ''event history'')
       else
         (let meta = dict_items (dget d ''metadata'') in
         bindE (checkpoint_key env meta ''recovery_checkpoint'' []) (\<lambda>p1.
         bindE (checkpoint_key env meta ''checkpoint_recovery'' p1) (\<lambda>p2.
         candidate_root env meta p2)))))))"

section \<open>All references\<close>

definition TRANSACTIONS :: path where "TRANSACTIONS = [''.silicon'', ''transactions'']"

definition transaction_roots :: "snap_env \<Rightarrow> files \<Rightarrow> string list outcome" where
  "transaction_roots env fs =
     (case lstat fs TRANSACTIONS of
        None \<Rightarrow> Inr []
      | Some NDir \<Rightarrow>
          foldE (\<lambda>acc name. bindE (roots_of_update_journal env fs (TRANSACTIONS @ [name]))
                   (\<lambda>hs. Inr (acc @ hs)))
            [] (filter is_json_name (scandir fs TRANSACTIONS))
      | Some n \<Rightarrow> Inl (SnapshotIntegrityErr ''real directory''))"

text \<open>The journal (\<open>is_journal\<close>) or the record of the last restore.\<close>

definition restore_reference ::
  "snap_env \<Rightarrow> files \<Rightarrow> bool \<Rightarrow> path \<Rightarrow> string list \<Rightarrow> string list outcome" where
  "restore_reference env fs is_journal p protected =
     (if lstat fs p = None then Inr protected
      else
        bindE (read_bounded_json_object env fs p MAX_RESTORE_JOURNAL_BYTES) (\<lambda>d.
        (let h = str_or_empty (se_repr env) (dget d ''root_hash'');
             unverified = \<not> py_eq (dget d ''verified_root_hash'') (PStr h) in
         if \<not> py_eq (dget d ''schema'') (PInt 1) then Inl (SnapshotIntegrityErr ''schema'')
         else if is_journal
         then bindE (py_in_set (dget d ''state'') [PStr ''APPLYING'', PStr ''COMMITTED'']) (\<lambda>known.
           if \<not> known then Inl (SnapshotIntegrityErr ''state'')
           else if dget d ''state'' = PStr ''COMMITTED'' \<and> unverified
           then Inl (SnapshotIntegrityErr ''not verified'')
           else add_checkpoint_root env True (PDict d) protected)
         else if unverified then Inl (SnapshotIntegrityErr ''not verified'')
         else add_checkpoint_root env True (PDict d) protected)))"

definition discover_protected_snapshot_roots :: "snap_env \<Rightarrow> files \<Rightarrow> string list outcome" where
  "discover_protected_snapshot_roots env fs =
     bindE (transaction_roots env fs) (\<lambda>p1.
     bindE (restore_reference env fs True IN_PLACE_RESTORE_JOURNAL p1) (\<lambda>p2.
     bindE (restore_reference env fs False IN_PLACE_RESTORE_LATEST p2) (\<lambda>p3.
     Inr (sorted_set p3))))"

section \<open>Lemmas\<close>

lemma add_checkpoint_root_mono:
  "add_checkpoint_root env req v ps = Inr qs \<Longrightarrow> set ps \<subseteq> set qs"
  by (auto simp: add_checkpoint_root_def Let_def split: if_split_asm)

lemma add_checkpoint_root_required:
  "add_checkpoint_root env True v ps = Inr qs \<Longrightarrow>
     str_or_empty (se_repr env) (get v ''root_hash'') \<in> set qs"
  by (auto simp: add_checkpoint_root_def Let_def split: if_split_asm)

lemma checkpoint_key_mono: "checkpoint_key env meta k ps = Inr qs \<Longrightarrow> set ps \<subseteq> set qs"
  by (auto simp: checkpoint_key_def split: if_split_asm dest: add_checkpoint_root_mono)

lemma checkpoint_key_root:
  "checkpoint_key env meta k ps = Inr qs \<Longrightarrow> has_key meta k \<Longrightarrow>
     str_or_empty (se_repr env) (get (dget meta k) ''root_hash'') \<in> set qs"
  by (simp add: checkpoint_key_def add_checkpoint_root_required)

lemma candidate_root_mono: "candidate_root env meta ps = Inr qs \<Longrightarrow> set ps \<subseteq> set qs"
  by (auto simp: candidate_root_def Let_def outcome_simps split: if_split_asm
      dest: add_checkpoint_root_mono)

lemma restore_reference_mono: "restore_reference env fs j p ps = Inr qs \<Longrightarrow> set ps \<subseteq> set qs"
  by (auto simp: restore_reference_def Let_def outcome_simps split: if_split_asm
      dest: add_checkpoint_root_mono)

text \<open>A recovery checkpoint named by a journal is among the roots.\<close>

lemma journal_recovery_root:
  assumes "roots_of_update_journal env fs p = Inr hs"
    and "lstat fs p = Some (NFile c m t)" and "se_loads env c = Some (PDict d)"
    and "k = ''recovery_checkpoint'' \<or> k = ''checkpoint_recovery''"
    and "has_key (dict_items (dget d ''metadata'')) k"
  shows "str_or_empty (se_repr env) (get (dget (dict_items (dget d ''metadata'')) k) ''root_hash'')
    \<in> set hs"
proof -
  let ?meta = "dict_items (dget d ''metadata'')"
  from assms(1-3) obtain p1 p2 where
    p1: "checkpoint_key env ?meta ''recovery_checkpoint'' [] = Inr p1"
    and p2: "checkpoint_key env ?meta ''checkpoint_recovery'' p1 = Inr p2"
    and hs: "candidate_root env ?meta p2 = Inr hs"
    by (auto simp: roots_of_update_journal_def read_bounded_json_object_def outcome_simps Let_def
        split: if_split_asm)
  note mono = checkpoint_key_mono [OF p2] candidate_root_mono [OF hs]
  show ?thesis
    using assms(4,5) checkpoint_key_root [OF p1] checkpoint_key_root [OF p2] mono by blast
qed

lemma foldE_append_acc:
  assumes "foldE (\<lambda>acc x. bindE (f x) (\<lambda>ys. Inr (acc @ ys))) acc xs = Inr zs"
  shows "set acc \<subseteq> set zs \<and> (\<forall>x\<in>set xs. \<exists>ys. f x = Inr ys \<and> set ys \<subseteq> set zs)"
  using assms
proof (induction xs arbitrary: acc)
  case (Cons x xs)
  then obtain ys where ys: "f x = Inr ys" by (auto split: sum.splits simp: bindE_eq_Inr)
  with Cons.prems have "foldE (\<lambda>acc x. bindE (f x) (\<lambda>ys. Inr (acc @ ys))) (acc @ ys) xs = Inr zs"
    by simp
  from Cons.IH [OF this] ys show ?case by auto
qed simp

lemma discover_transaction:
  assumes "discover_protected_snapshot_roots env fs = Inr hs"
    and "lstat fs TRANSACTIONS = Some NDir" and "is_json_name name"
    and "lstat fs (TRANSACTIONS @ [name]) \<noteq> None"
  shows "\<exists>rs. roots_of_update_journal env fs (TRANSACTIONS @ [name]) = Inr rs \<and> set rs \<subseteq> set hs"
proof -
  from assms(1,2) obtain p1 p2 p3 where
    p1: "foldE (\<lambda>acc name. bindE (roots_of_update_journal env fs (TRANSACTIONS @ [name]))
          (\<lambda>hs. Inr (acc @ hs))) [] (filter is_json_name (scandir fs TRANSACTIONS)) = Inr p1"
    and p2: "restore_reference env fs True IN_PLACE_RESTORE_JOURNAL p1 = Inr p2"
    and p3: "restore_reference env fs False IN_PLACE_RESTORE_LATEST p2 = Inr p3"
    and hs: "hs = sorted_set p3"
    by (auto simp: discover_protected_snapshot_roots_def transaction_roots_def outcome_simps)
  have "name \<in> set (filter is_json_name (scandir fs TRANSACTIONS))"
    using assms(3,4) by (simp add: set_scandir)
  with foldE_append_acc [OF p1] obtain rs where
    "roots_of_update_journal env fs (TRANSACTIONS @ [name]) = Inr rs" "set rs \<subseteq> set p1"
    by blast
  with restore_reference_mono [OF p2] restore_reference_mono [OF p3] hs show ?thesis by auto
qed

end
