(* ===== verification/SnapGC.thy ===== *)
theory SnapGC
  imports SnapRoots "HOL-Library.Product_Lexorder"
begin

text \<open>
  The garbage collector of the snapshot store (\<open>core/backup/gc.py\<close>): the scan of the store, the
  plan and the deletion. A collection returns the files it leaves and its plan or the error it
  raises.
\<close>

section \<open>Parameters\<close>

text \<open>\<open>_normalise_gc_parameters\<close>.\<close>

definition check_root_hash :: "snap_env \<Rightarrow> pyv \<Rightarrow> string outcome" where
  "check_root_hash env v =
     (let h = py_str (se_repr env) v in
      if is_digest h then Inr h else Inl (SnapshotIntegrityErr ''root hash''))"

definition normalise_gc_parameters ::
  "snap_env \<Rightarrow> pyv \<Rightarrow> pyv list \<Rightarrow> gc_limits option
     \<Rightarrow> (nat \<times> string list \<times> gc_limits) outcome" where
  "normalise_gc_parameters env retain protected gl =
     (case retain of
        PInt n \<Rightarrow>
          if n < 0 then Inl (PyErr (ValueError ''retain_latest''))
          else
            bindE (mapE (check_root_hash env) protected) (\<lambda>hs.
            (let l = (case gl of None \<Rightarrow> default_gc_limits | Some l \<Rightarrow> l) in
             bindE (validate_gc_limits l) (\<lambda>_. Inr (nat n, sorted_set hs, l))))
      | _ \<Rightarrow> Inl (PyErr (ValueError ''retain_latest'')))"

section \<open>The store\<close>

definition canonical_store_if_present :: "files \<Rightarrow> (path \<times> bool) outcome" where
  "canonical_store_if_present fs =
     (case lstat fs [''.silicon''] of
        None \<Rightarrow> Inr (SNAPSHOT_STORE, False)
      | Some NDir \<Rightarrow>
          (case lstat fs SNAPSHOT_STORE of
             None \<Rightarrow> Inr (SNAPSHOT_STORE, False)
           | Some NDir \<Rightarrow> Inr (SNAPSHOT_STORE, True)
           | Some n \<Rightarrow> Inl (UnsafePathErr ''snapshot store''))
      | Some n \<Rightarrow> Inl (UnsafePathErr ''state directory''))"

definition require_store_subdirectory :: "files \<Rightarrow> path \<Rightarrow> bool outcome" where
  "require_store_subdirectory fs p =
     (case lstat fs p of
        None \<Rightarrow> Inr False
      | Some NDir \<Rightarrow> Inr True
      | Some n \<Rightarrow> Inl (SnapshotIntegrityErr ''real directory''))"

text \<open>\<open>_snapshot_store_lock\<close>: what taking the lock does to the files.\<close>

definition SNAPSHOT_LOCK :: path where
  "SNAPSHOT_LOCK = [''.silicon'', ''.snapshots.lock'']"

definition open_lock_file :: "snap_env \<Rightarrow> path \<Rightarrow> files \<Rightarrow> files \<times> unit outcome" where
  "open_lock_file env p fs =
     (case lstat fs p of
        None \<Rightarrow> (set_node p (NFile [] 384 (se_mtime env)) fs, Inr ())
      | Some (NFile c m t) \<Rightarrow> (set_node p (NFile c 384 t) fs, Inr ())
      | Some n \<Rightarrow> (fs, Inl (SnapshotIntegrityErr ''lock'')))"

definition snapshot_store_lock :: "snap_env \<Rightarrow> files \<Rightarrow> files \<times> unit outcome" where
  "snapshot_store_lock env fs =
     (case lstat fs [''.silicon''] of
        None \<Rightarrow> open_lock_file env SNAPSHOT_LOCK (set_node [''.silicon''] NDir fs)
      | Some NDir \<Rightarrow> open_lock_file env SNAPSHOT_LOCK fs
      | Some NLink \<Rightarrow> (fs, Inl (UnsafePathErr ''state directory''))
      | Some n \<Rightarrow> (fs, Inl (PyErr (OtherError ''FileExistsError'' []))))"

section \<open>Scanning\<close>

record man_record =
  mr_root :: string
  mr_path :: path
  mr_mtime :: int
  mr_size :: int

type_synonym obj_record = "string \<times> path \<times> int"

definition note_unexpected :: "gc_limits \<Rightarrow> path list \<Rightarrow> path \<Rightarrow> path list outcome" where
  "note_unexpected gl un p =
     (if int (length un) + 1 > gl_max_unexpected gl then Inl (SnapshotLimitErr ''unexpected'')
      else Inr (un @ [p]))"

definition scan_manifest_entry ::
  "files \<Rightarrow> gc_limits \<Rightarrow> man_record list \<times> path list \<Rightarrow> string
     \<Rightarrow> (man_record list \<times> path list) outcome" where
  "scan_manifest_entry fs gl acc name =
     (let p = SNAPSHOT_STORE @ [''manifests'', name] in
      (case (manifest_file_name name, lstat fs p) of
         (Some h, Some (NFile c m t)) \<Rightarrow>
           if int (length (fst acc)) + 1 > gl_max_manifests gl
           then Inl (SnapshotLimitErr ''max_manifests'')
           else Inr (fst acc @ [\<lparr>mr_root = h, mr_path = p, mr_mtime = t,
                                 mr_size = int (length c)\<rparr>], snd acc)
       | _ \<Rightarrow> bindE (note_unexpected gl (snd acc) p) (\<lambda>un. Inr (fst acc, un))))"

definition scan_manifest_records ::
  "files \<Rightarrow> gc_limits \<Rightarrow> (man_record list \<times> path list) outcome" where
  "scan_manifest_records fs gl =
     bindE (require_store_subdirectory fs (SNAPSHOT_STORE @ [''manifests''])) (\<lambda>present.
       if \<not> present then Inr ([], [])
       else foldE (scan_manifest_entry fs gl) ([], [])
              (scandir fs (SNAPSHOT_STORE @ [''manifests''])))"

definition OBJECTS :: path where "OBJECTS = SNAPSHOT_STORE @ [''objects'']"

definition scan_object_entry ::
  "files \<Rightarrow> gc_limits \<Rightarrow> string \<Rightarrow> obj_record list \<times> path list \<Rightarrow> string
     \<Rightarrow> (obj_record list \<times> path list) outcome" where
  "scan_object_entry fs gl prefix acc name =
     (let p = OBJECTS @ [''sha256'', prefix, name] in
      (case (hex_string 62 name, lstat fs p) of
         (True, Some (NFile c m t)) \<Rightarrow>
           if int (length (fst acc)) + 1 > gl_max_objects gl
           then Inl (SnapshotLimitErr ''max_objects'')
           else Inr (fst acc @ [(prefix @ name, p, int (length c))], snd acc)
       | _ \<Rightarrow> bindE (note_unexpected gl (snd acc) p) (\<lambda>un. Inr (fst acc, un))))"

definition scan_object_prefix ::
  "files \<Rightarrow> gc_limits \<Rightarrow> obj_record list \<times> path list \<Rightarrow> string
     \<Rightarrow> (obj_record list \<times> path list) outcome" where
  "scan_object_prefix fs gl acc prefix =
     (let p = OBJECTS @ [''sha256'', prefix] in
      if hex_string 2 prefix \<and> lstat fs p = Some NDir
      then foldE (scan_object_entry fs gl prefix) acc (scandir fs p)
      else bindE (note_unexpected gl (snd acc) p) (\<lambda>un. Inr (fst acc, un)))"

text \<open>The entries of \<open>objects\<close> beside \<open>sha256\<close>.\<close>

definition scan_other_entry ::
  "files \<Rightarrow> gc_limits \<Rightarrow> path list \<Rightarrow> string \<Rightarrow> path list outcome" where
  "scan_other_entry fs gl un name =
     (let p = OBJECTS @ [name] in
      if name = ''sha256'' then Inr un
      else if name = ''.tmp'' \<and> lstat fs p = Some NDir
      then foldE (\<lambda>un t. note_unexpected gl un (p @ [t])) un (scandir fs p)
      else if p \<in> set un then Inr un
      else note_unexpected gl un p)"

definition scan_object_records ::
  "files \<Rightarrow> gc_limits \<Rightarrow> path list \<Rightarrow> (obj_record list \<times> path list) outcome" where
  "scan_object_records fs gl un =
     bindE (require_store_subdirectory fs OBJECTS) (\<lambda>present.
       if \<not> present then Inr ([], un)
       else
         bindE (require_store_subdirectory fs (OBJECTS @ [''sha256''])) (\<lambda>sha_present.
           if \<not> sha_present
           then bindE (foldE (\<lambda>un n. note_unexpected gl un (OBJECTS @ [n])) un (scandir fs OBJECTS))
                  (\<lambda>un'. Inr ([], un'))
           else
             bindE (foldE (scan_object_prefix fs gl) ([], un) (scandir fs (OBJECTS @ [''sha256''])))
               (\<lambda>(records, un1).
             bindE (foldE (scan_other_entry fs gl) un1 (scandir fs OBJECTS)) (\<lambda>un2.
               Inr (records, un2)))))"

section \<open>Reachable objects\<close>

definition reference_entry ::
  "snap_limits \<Rightarrow> int \<times> (string \<times> int) list \<Rightarrow> file_entry
     \<Rightarrow> (int \<times> (string \<times> int) list) outcome" where
  "reference_entry l acc e =
     (let tot = fst acc + fe_size e; refs = snd acc in
      if fe_size e > sl_max_file_size l then Inl (SnapshotLimitErr ''max_file_size'')
      else if tot > sl_max_total_size l then Inl (SnapshotLimitErr ''max_total_size'')
      else
        (case map_of refs (fe_sha256 e) of
           None \<Rightarrow> Inr (tot, refs @ [(fe_sha256 e, fe_size e)])
         | Some previous \<Rightarrow>
             if previous \<noteq> fe_size e then Inl (SnapshotIntegrityErr ''disagree'')
             else Inr (tot, refs)))"

definition reference_manifest ::
  "snap_limits \<Rightarrow> (string \<times> int) list \<Rightarrow> manifest \<Rightarrow> (string \<times> int) list outcome" where
  "reference_manifest l refs m =
     (if int (length (mf_files m)) > sl_max_files l then Inl (SnapshotLimitErr ''max_files'')
      else bindE (foldE (reference_entry l) (0, refs) (mf_files m)) (\<lambda>acc. Inr (snd acc)))"

text \<open>\<open>_verify_retained_manifests\<close>: the manifests in the order of their root hashes.\<close>

definition verify_retained_manifests ::
  "snap_env \<Rightarrow> files \<Rightarrow> snap_limits \<Rightarrow> manifest list \<Rightarrow> string list outcome" where
  "verify_retained_manifests env fs l ms =
     bindE (foldE (reference_manifest l) [] ms) (\<lambda>refs.
     bindE (mapE (\<lambda>r. verify_object env fs SNAPSHOT_STORE (fst r) (snd r)) (sort_key fst refs)) (\<lambda>_.
     Inr (map fst refs)))"

section \<open>The plan\<close>

record gc_plan =
  gp_store :: path
  gp_retain :: nat
  gp_protected :: "string list"
  gp_retained :: "string list"
  gp_delete_manifests :: "path list"
  gp_delete_objects :: "path list"
  gp_unexpected :: "path list"
  gp_reclaimable :: int
  gp_dry_run :: bool

definition empty_gc_plan :: "path \<Rightarrow> nat \<Rightarrow> string list \<Rightarrow> gc_plan outcome" where
  "empty_gc_plan store retain protected =
     (if protected \<noteq> [] then Inl (SnapshotIntegrityErr ''protected root is absent'')
      else Inr \<lparr>gp_store = store, gp_retain = retain, gp_protected = protected, gp_retained = [],
                gp_delete_manifests = [], gp_delete_objects = [], gp_unexpected = [],
                gp_reclaimable = 0, gp_dry_run = True\<rparr>)"

text \<open>The newest records first; equal times by root hash.\<close>

definition newest_first :: "man_record list \<Rightarrow> man_record list" where
  "newest_first records = sort_key (\<lambda>r. (- mr_mtime r, mr_root r)) records"

definition retained_roots :: "nat \<Rightarrow> string list \<Rightarrow> man_record list \<Rightarrow> string list" where
  "retained_roots retain protected records =
     sorted_set (map mr_root (take retain (newest_first records)) @ protected)"

text \<open>Every manifest is parsed; one that is corrupt stops the collection.\<close>

definition parse_records ::
  "snap_env \<Rightarrow> files \<Rightarrow> man_record list \<Rightarrow> (string \<times> manifest) list outcome" where
  "parse_records env fs records =
     mapE (\<lambda>r. bindE (as_integrity is_SnapshotError (load_manifest_file env fs (mr_path r)))
                 (\<lambda>m. Inr (mr_root r, m)))
       (sort_key mr_root records)"

definition plan_snapshot_gc_locked ::
  "snap_env \<Rightarrow> files \<Rightarrow> nat \<Rightarrow> string list \<Rightarrow> snap_limits \<Rightarrow> gc_limits \<Rightarrow> gc_plan outcome" where
  "plan_snapshot_gc_locked env fs retain protected l gl =
     bindE (canonical_store_if_present fs) (\<lambda>(store, present).
     if \<not> present then empty_gc_plan store retain protected
     else
       bindE (scan_manifest_records fs gl) (\<lambda>(records, un).
       (let retained = retained_roots retain protected records in
       bindE (raise_if (\<exists>h\<in>set protected. h \<notin> mr_root ` set records)
         (SnapshotIntegrityErr ''protected root is absent'')) (\<lambda>_.
       bindE (parse_records env fs records) (\<lambda>parsed.
       bindE (verify_retained_manifests env fs l (map (\<lambda>h. the (map_of parsed h)) retained))
         (\<lambda>referenced.
       bindE (scan_object_records fs gl un) (\<lambda>(objects, un').
       (let drop_records = filter (\<lambda>r. mr_root r \<notin> set retained)
                             (sort_key (\<lambda>r. last (mr_path r)) records);
            drop_objects = filter (\<lambda>ob. fst ob \<notin> set referenced) objects in
        Inr \<lparr>gp_store = store, gp_retain = retain, gp_protected = protected,
             gp_retained = retained,
             gp_delete_manifests = map mr_path drop_records,
             gp_delete_objects = map (\<lambda>ob. fst (snd ob)) drop_objects,
             gp_unexpected = sort un',
             gp_reclaimable = sum_list (map mr_size drop_records)
               + sum_list (map (\<lambda>ob. snd (snd ob)) drop_objects),
             gp_dry_run = True\<rparr>))))))))"

section \<open>Deletion\<close>

text \<open>\<open>_assert_canonical_delete_path\<close>.\<close>

definition regular_file :: "files \<Rightarrow> path \<Rightarrow> bool" where
  "regular_file fs p = (case lstat fs p of Some (NFile c m t) \<Rightarrow> True | _ \<Rightarrow> False)"

lemma regular_file_iff: "regular_file fs p \<longleftrightarrow> (\<exists>c m t. lstat fs p = Some (NFile c m t))"
  by (auto simp: regular_file_def split: option.splits node.splits)

definition delete_path_ok :: "files \<Rightarrow> path \<Rightarrow> bool \<Rightarrow> path \<Rightarrow> bool" where
  "delete_path_ok fs store is_manifest p \<longleftrightarrow>
     p \<noteq> []
     \<and> (if is_manifest
        then butlast p = store @ [''manifests''] \<and> manifest_file_name (last p) \<noteq> None
        else butlast p \<noteq> [] \<and> butlast p = store @ [''objects'', ''sha256'', last (butlast p)]
             \<and> hex_string 2 (last (butlast p)) \<and> hex_string 62 (last p))
     \<and> regular_file fs p"

definition apply_snapshot_gc_plan :: "files \<Rightarrow> gc_plan \<Rightarrow> files \<times> gc_plan outcome" where
  "apply_snapshot_gc_plan fs plan =
     (if gp_unexpected plan \<noteq> [] then (fs, Inl (SnapshotIntegrityErr ''unexpected''))
      else if \<exists>p\<in>set (gp_delete_manifests plan). \<not> delete_path_ok fs (gp_store plan) True p
      then (fs, Inl (SnapshotIntegrityErr ''manifest deletion''))
      else if \<exists>p\<in>set (gp_delete_objects plan). \<not> delete_path_ok fs (gp_store plan) False p
      then (fs, Inl (SnapshotIntegrityErr ''object deletion''))
      else (fold unlink (gp_delete_objects plan) (fold unlink (gp_delete_manifests plan) fs),
            Inr (plan\<lparr>gp_dry_run := False\<rparr>)))"

definition under_store_lock ::
  "snap_env \<Rightarrow> files \<Rightarrow> (files \<Rightarrow> files \<times> 'a outcome) \<Rightarrow> files \<times> 'a outcome" where
  "under_store_lock env fs body =
     (case snapshot_store_lock env fs of
        (fs1, Inl e) \<Rightarrow> (fs1, Inl e)
      | (fs1, Inr u) \<Rightarrow> body fs1)"

definition collect_locked ::
  "snap_env \<Rightarrow> files \<Rightarrow> nat \<Rightarrow> string list \<Rightarrow> bool \<Rightarrow> snap_limits \<Rightarrow> gc_limits
     \<Rightarrow> files \<times> gc_plan outcome" where
  "collect_locked env fs retain protected dry_run l gl =
     (case plan_snapshot_gc_locked env fs retain protected l gl of
        Inl e \<Rightarrow> (fs, Inl e)
      | Inr plan \<Rightarrow> if dry_run then (fs, Inr plan) else apply_snapshot_gc_plan fs plan)"

definition some_limits :: "snap_limits option \<Rightarrow> snap_limits outcome" where
  "some_limits l =
     (let l' = (case l of None \<Rightarrow> default_limits | Some x \<Rightarrow> x) in
      bindE (validate_limits l') (\<lambda>_. Inr l'))"

definition plan_snapshot_gc ::
  "snap_env \<Rightarrow> files \<Rightarrow> pyv \<Rightarrow> pyv list \<Rightarrow> snap_limits option \<Rightarrow> gc_limits option
     \<Rightarrow> files \<times> gc_plan outcome" where
  "plan_snapshot_gc env fs retain protected l gl =
     (case bindE (normalise_gc_parameters env retain protected gl) (\<lambda>ps.
           bindE (some_limits l) (\<lambda>l'.
           bindE (canonical_store_if_present fs) (\<lambda>sp. Inr (ps, l', sp)))) of
        Inl e \<Rightarrow> (fs, Inl e)
      | Inr ((n, hs, gl'), l', (store, present)) \<Rightarrow>
          if \<not> present then (fs, empty_gc_plan store n hs)
          else under_store_lock env fs (\<lambda>fs1. (fs1, plan_snapshot_gc_locked env fs1 n hs l' gl')))"

definition garbage_collect_snapshots ::
  "snap_env \<Rightarrow> files \<Rightarrow> pyv \<Rightarrow> pyv list \<Rightarrow> bool \<Rightarrow> snap_limits option \<Rightarrow> gc_limits option
     \<Rightarrow> files \<times> gc_plan outcome" where
  "garbage_collect_snapshots env fs retain protected dry_run l gl =
     (case bindE (normalise_gc_parameters env retain protected gl) (\<lambda>ps.
           bindE (some_limits l) (\<lambda>l'.
           bindE (canonical_store_if_present fs) (\<lambda>sp. Inr (ps, l', sp)))) of
        Inl e \<Rightarrow> (fs, Inl e)
      | Inr ((n, hs, gl'), l', (store, present)) \<Rightarrow>
          if \<not> present then (fs, empty_gc_plan store n hs)
          else under_store_lock env fs (\<lambda>fs1. collect_locked env fs1 n hs dry_run l' gl'))"

definition garbage_collect_referenced_snapshots ::
  "snap_env \<Rightarrow> files \<Rightarrow> pyv \<Rightarrow> pyv list \<Rightarrow> bool \<Rightarrow> snap_limits option \<Rightarrow> gc_limits option
     \<Rightarrow> files \<times> gc_plan outcome" where
  "garbage_collect_referenced_snapshots env fs retain additional dry_run l gl =
     (case bindE (normalise_gc_parameters env retain additional gl) (\<lambda>ps.
           bindE (some_limits l) (\<lambda>l'. Inr (ps, l'))) of
        Inl e \<Rightarrow> (fs, Inl e)
      | Inr ((n, hs, gl'), l') \<Rightarrow>
          under_store_lock env fs (\<lambda>fs1.
            (case bindE (discover_protected_snapshot_roots env fs1) (\<lambda>found.
                  bindE (canonical_store_if_present fs1) (\<lambda>sp.
                  Inr (sorted_set (hs @ found), sp))) of
               Inl e \<Rightarrow> (fs1, Inl e)
             | Inr (protected, (store, present)) \<Rightarrow>
                 if \<not> present then (fs1, empty_gc_plan store n protected)
                 else collect_locked env fs1 n protected dry_run l' gl')))"

end
