(* ===== verification/Restore.thy ===== *)
theory Restore
  imports SnapGC
begin

text \<open>
  Restoring protected data: the file operations of \<open>core/backup/fileops.py\<close>, the part of
  \<open>core/backup/release_floor.py\<close> that writes, and the journalled in-place restore of
  \<open>core/backup/restore.py\<close>. Every operation returns the files it leaves and its result or the
  error it raises, so what a failed restore leaves behind is part of the model.
\<close>

section \<open>Paths a restore may own\<close>

definition validate_in_place_restore_path :: "string \<Rightarrow> string outcome" where
  "validate_in_place_restore_path relative =
     bindE (validate_relative_path relative) (\<lambda>value.
       if is_prefix ''.silicon/'' value
          \<and> \<not> (value = ''.silicon/data-policy.json'' \<or> value = RELEASE_SEQUENCE_FLOOR
               \<or> is_prefix ''.silicon/overlays/'' value)
       then Inl (SnapshotIntegrityErr ''updater state'') else Inr value)"

section \<open>Restoring one file\<close>

fun make_parents :: "path \<Rightarrow> string list \<Rightarrow> files \<Rightarrow> files \<times> path outcome" where
  "make_parents parent [] fs = (fs, Inr parent)"
| "make_parents parent (c # cs) fs =
     (let candidate = parent @ [c] in
      (case lstat fs candidate of
         None \<Rightarrow> make_parents candidate cs (set_node candidate NDir fs)
       | Some NDir \<Rightarrow> make_parents candidate cs fs
       | Some n \<Rightarrow> (fs, Inl (UnsafePathErr ''parent''))))"

text \<open>\<open>_restore_parent\<close>: the parent, created if missing, and the destination.\<close>

definition restore_parent :: "files \<Rightarrow> string \<Rightarrow> files \<times> (path \<times> path) outcome" where
  "restore_parent fs relative =
     (case validate_in_place_restore_path relative of
        Inl e \<Rightarrow> (fs, Inl e)
      | Inr value \<Rightarrow>
          (let dest = posix_parts value in
           bindS (make_parents [] (butlast dest) fs) (\<lambda>fs1 parent.
             (case lstat fs1 dest of
                None \<Rightarrow> (fs1, Inr (parent, dest))
              | Some (NFile c m t) \<Rightarrow> (fs1, Inr (parent, dest))
              | Some n \<Rightarrow> (fs1, Inl (UnsafePathErr ''destination''))))))"

definition temporary_name :: "string \<Rightarrow> string \<Rightarrow> string" where
  "temporary_name name root_hash =
     ''.'' @ name @ ''.silicon-restore-'' @ take_cp 16 root_hash @ ''.partial''"

text \<open>The temporary: absent, or a complete copy left by an earlier attempt.\<close>

definition reusable_temporary :: "snap_env \<Rightarrow> files \<Rightarrow> path \<Rightarrow> file_entry \<Rightarrow> bool outcome" where
  "reusable_temporary env fs tmp e =
     (case lstat fs tmp of
        None \<Rightarrow> Inr False
      | Some (NFile c m t) \<Rightarrow>
          if se_sha env c \<noteq> fe_sha256 e \<or> int (length c) \<noteq> fe_size e
          then Inl (SnapshotIntegrityErr ''unknown restore temporary'') else Inr True
      | Some n \<Rightarrow> Inl (UnsafePathErr ''temporary''))"

text \<open>The commit: permissions, the second look at the destination, and the rename.\<close>

definition commit_temporary ::
  "files \<Rightarrow> string \<Rightarrow> path \<Rightarrow> path \<Rightarrow> path \<Rightarrow> file_entry \<Rightarrow> files \<times> unit outcome" where
  "commit_temporary fs relative parent dest tmp e =
     (case lstat fs tmp of
        Some (NFile c m t) \<Rightarrow>
          (let node = NFile c (fe_mode e mod 512) t in
           (case restore_parent (set_node tmp node fs) relative of
              (fs2, Inl err) \<Rightarrow> (unlink tmp fs2, Inl err)
            | (fs2, Inr pd) \<Rightarrow>
                if pd \<noteq> (parent, dest)
                then (unlink tmp fs2, Inl (UnsafePathErr ''changed during commit''))
                else (set_node dest node (unlink tmp fs2), Inr ())))
      | _ \<Rightarrow> (fs, Inl (PyErr (OtherError ''FileNotFoundError'' []))))"

definition check_restored :: "snap_env \<Rightarrow> files \<Rightarrow> path \<Rightarrow> file_entry \<Rightarrow> unit outcome" where
  "check_restored env fs dest e =
     bindE (hash_file env fs dest) (\<lambda>ds.
     bindE (raise_if (ds \<noteq> (fe_sha256 e, fe_size e)) (SnapshotIntegrityErr ''verification'')) (\<lambda>_.
       raise_if (\<not> (case lstat fs dest of Some (NFile c m t) \<Rightarrow> m = fe_mode e | _ \<Rightarrow> False))
         (SnapshotIntegrityErr ''mode verification'')))"

definition restore_manifest_file ::
  "snap_env \<Rightarrow> path \<Rightarrow> file_entry \<Rightarrow> string \<Rightarrow> files \<Rightarrow> files \<times> unit outcome" where
  "restore_manifest_file env store e root_hash fs =
     (case validate_in_place_restore_path (fe_path e) of
        Inl err \<Rightarrow> (fs, Inl err)
      | Inr relative \<Rightarrow>
          bindS (restore_parent fs relative) (\<lambda>fs1 (parent, dest).
          (let tmp = parent @ [temporary_name (last dest) root_hash] in
           (case reusable_temporary env fs1 tmp e of
              Inl err \<Rightarrow> (fs1, Inl err)
            | Inr reusable \<Rightarrow>
                bindS
                  (if reusable then commit_temporary fs1 relative parent dest tmp e
                   else
                     (case open_verified_object env fs1 store (fe_sha256 e) (fe_size e) of
                        Inl err \<Rightarrow> (fs1, Inl err)
                      | Inr c \<Rightarrow>
                          commit_temporary (set_node tmp (NFile c 384 (se_mtime env)) fs1)
                            relative parent dest tmp e))
                  (\<lambda>fs2 _. (fs2, check_restored env fs2 dest e))))))"

section \<open>Tombstones\<close>

fun walk_parents :: "path \<Rightarrow> string list \<Rightarrow> files \<Rightarrow> bool outcome" where
  "walk_parents parent [] fs = Inr True"
| "walk_parents parent (c # cs) fs =
     (case lstat fs (parent @ [c]) of
        None \<Rightarrow> Inr False
      | Some NDir \<Rightarrow> walk_parents (parent @ [c]) cs fs
      | Some n \<Rightarrow> Inl (UnsafePathErr ''tombstone parent''))"

definition tombstone_destination :: "files \<Rightarrow> string \<Rightarrow> path option outcome" where
  "tombstone_destination fs relative =
     bindE (validate_in_place_restore_path relative) (\<lambda>value.
     bindE (walk_parents [] (butlast (posix_parts value)) fs) (\<lambda>present.
       Inr (if present then Some (posix_parts value) else None)))"

definition restore_manifest_tombstone :: "string \<Rightarrow> files \<Rightarrow> files \<times> unit outcome" where
  "restore_manifest_tombstone relative fs =
     (case tombstone_destination fs relative of
        Inl e \<Rightarrow> (fs, Inl e)
      | Inr None \<Rightarrow> (fs, Inr ())
      | Inr (Some dest) \<Rightarrow>
          (case lstat fs dest of
             None \<Rightarrow> (fs, Inr ())
           | Some (NFile c m t) \<Rightarrow> (unlink dest fs, Inr ())
           | Some n \<Rightarrow> (fs, Inl (UnsafePathErr ''tombstone''))))"

section \<open>The release floor\<close>

definition restore_floor ::
  "snap_env \<Rightarrow> path \<Rightarrow> floor_plan \<Rightarrow> string \<Rightarrow> files \<Rightarrow> files \<times> unit outcome" where
  "restore_floor env store plan root_hash fs =
     (case (fp_entry plan, fp_snapshot plan) of
        (None, _) \<Rightarrow> (fs, Inr ())
      | (Some e, None) \<Rightarrow> (fs, Inl (PyErr (OtherError ''AssertionError'' [])))
      | (Some e, Some s) \<Rightarrow>
          (case read_local_floor env fs of
             Inl err \<Rightarrow> (fs, Inl err)
           | Inr None \<Rightarrow> restore_manifest_file env store e root_hash fs
           | Inr (Some c) \<Rightarrow>
               if fst c = fst s \<and> snd c \<noteq> snd s
               then (fs, Inl (SnapshotIntegrityErr ''reuses one sequence''))
               else if fst c \<ge> fst s then (fs, Inr ())
               else restore_manifest_file env store e root_hash fs))"

section \<open>The journal\<close>

definition read_restore_journal :: "snap_env \<Rightarrow> files \<Rightarrow> dict option outcome" where
  "read_restore_journal env fs =
     (case lstat fs IN_PLACE_RESTORE_JOURNAL of
        None \<Rightarrow> Inr None
      | Some (NFile c m t) \<Rightarrow>
          if int (length c) > MAX_RESTORE_JOURNAL_BYTES
          then Inl (SnapshotIntegrityErr ''bounded regular file'')
          else
            (case se_loads env c of
               None \<Rightarrow> Inl (SnapshotIntegrityErr ''read'')
             | Some (PDict d) \<Rightarrow> Inr (Some d)
             | Some v \<Rightarrow> Inl (SnapshotIntegrityErr ''object''))
      | Some n \<Rightarrow> Inl (SnapshotIntegrityErr ''bounded regular file''))"

text \<open>\<open>_write_restore_journal\<close>: an atomic replacement; a directory cannot be replaced.\<close>

definition write_restore_journal :: "snap_env \<Rightarrow> path \<Rightarrow> dict \<Rightarrow> files \<Rightarrow> files \<times> unit outcome" where
  "write_restore_journal env p d fs =
     (if lstat fs p = Some NDir then (fs, Inl (PyErr (OtherError ''IsADirectoryError'' [])))
      else (set_node p (NFile (canonical_json (se_repr env) (PDict d) @ [CHR 0x0A]) 384 (se_mtime env)) fs,
            Inr ()))"

record restore_plan =
  rp_root_hash :: string
  rp_release_id :: string
  rp_files :: "string list"
  rp_tombstones :: "string list"
  rp_total_size :: int
  rp_dry_run :: bool

definition plan_of_manifest :: "manifest \<Rightarrow> bool \<Rightarrow> restore_plan" where
  "plan_of_manifest m dry_run =
     \<lparr>rp_root_hash = mf_root_hash m, rp_release_id = mf_release_id m,
      rp_files = map fe_path (mf_files m), rp_tombstones = mf_tombstones m,
      rp_total_size = sum_list (map fe_size (mf_files m)), rp_dry_run = dry_run\<rparr>"

definition operation_count :: "manifest \<Rightarrow> int" where
  "operation_count m = int (length (mf_files m) + length (mf_tombstones m))"

text \<open>A number that is not a Boolean, as a float.\<close>

definition plain_number :: "pyv \<Rightarrow> rat outcome option" where
  "plain_number v =
     (case v of PInt i \<Rightarrow> Some (float_of_num v) | PFloat r \<Rightarrow> Some (Inr r) | _ \<Rightarrow> None)"

definition positive_number :: "pyv \<Rightarrow> bool outcome" where
  "positive_number v =
     (case plain_number v of
        None \<Rightarrow> Inr False
      | Some (Inl e) \<Rightarrow> Inl e
      | Some (Inr r) \<Rightarrow> Inr (r > 0))"

text \<open>The fields of an existing journal, in the order the code looks at them.\<close>

definition journal_valid :: "snap_env \<Rightarrow> dict \<Rightarrow> bool outcome" where
  "journal_valid env d =
     (if \<not> py_eq (dget d ''schema'') (PInt 1) then Inr False
      else bindE (py_in_set (dget d ''state'') [PStr ''APPLYING'', PStr ''COMMITTED'']) (\<lambda>known.
        if \<not> known \<or> \<not> is_digest (str_or_empty (se_repr env) (dget d ''root_hash''))
           \<or> str_or_empty (se_repr env) (dget d ''release_id'') = [] then Inr False
        else
          (case (dget d ''operation_count'', dget d ''next_operation'') of
             (PInt count, PInt next_op) \<Rightarrow>
               if count < 0 \<or> \<not> (0 \<le> next_op \<and> next_op \<le> count) then Inr False
               else positive_number (dget d ''created_at'')
           | _ \<Rightarrow> Inr False)))"

definition committed_valid :: "dict \<Rightarrow> bool outcome" where
  "committed_valid d =
     (if \<not> py_eq (dget d ''verified_root_hash'') (dget d ''root_hash'')
         \<or> dget d ''next_operation'' \<noteq> dget d ''operation_count'' then Inr False
      else positive_number (dget d ''committed_at''))"

text \<open>Where to continue and when the restore began, from the journal.\<close>

definition resume_point :: "snap_env \<Rightarrow> manifest \<Rightarrow> dict option \<Rightarrow> (nat \<times> rat) outcome" where
  "resume_point env m existing =
     (case existing of
        None \<Rightarrow> Inr (0, se_clock env 0)
      | Some [] \<Rightarrow> Inr (0, se_clock env 0)
      | Some d \<Rightarrow>
          bindE (journal_valid env d) (\<lambda>ok.
          if \<not> ok then Inl (SnapshotIntegrityErr ''invalid fields'')
          else
            bindE (if dget d ''state'' = PStr ''COMMITTED'' then committed_valid d else Inr True)
              (\<lambda>committed_ok.
            if \<not> committed_ok then Inl (SnapshotIntegrityErr ''committed journal'')
            else
              (let same_root = py_eq (dget d ''root_hash'') (PStr (mf_root_hash m));
                   matches = py_eq (dget d ''release_id'') (PStr (mf_release_id m))
                     \<and> dget d ''operation_count'' = PInt (operation_count m) in
               if same_root \<and> \<not> matches then Inl (SnapshotIntegrityErr ''does not match'')
               else if dget d ''state'' = PStr ''APPLYING''
               then
                 (if \<not> same_root then Inl (SnapshotErr ''different restore is incomplete'')
                  else
                    (case (dget d ''next_operation'', plain_number (dget d ''created_at'')) of
                       (PInt next_op, Some (Inr created)) \<Rightarrow>
                         Inr (if next_op = operation_count m then 0 else nat next_op, created)
                     | _ \<Rightarrow> Inl (SnapshotIntegrityErr ''invalid fields'')))
               else Inr (0, se_clock env 0)))))"

definition journal_doc :: "manifest \<Rightarrow> string \<Rightarrow> nat \<Rightarrow> rat \<Rightarrow> rat \<Rightarrow> dict" where
  "journal_doc m state next_op created updated =
     [(''schema'', PInt 1), (''root_hash'', PStr (mf_root_hash m)),
      (''release_id'', PStr (mf_release_id m)), (''state'', PStr state),
      (''operation_count'', PInt (operation_count m)), (''next_operation'', PInt (int next_op)),
      (''created_at'', PFloat created), (''updated_at'', PFloat updated)]"

section \<open>The operations\<close>

datatype restore_op = OpFile file_entry | OpTombstone string

definition restore_ops :: "manifest \<Rightarrow> restore_op list" where
  "restore_ops m = map OpFile (mf_files m) @ map OpTombstone (mf_tombstones m)"

definition apply_op ::
  "snap_env \<Rightarrow> path \<Rightarrow> string \<Rightarrow> floor_plan option \<Rightarrow> restore_op \<Rightarrow> files \<Rightarrow> files \<times> unit outcome" where
  "apply_op env store root_hash plan op fs =
     (case op of
        OpFile e \<Rightarrow>
          if fe_path e = RELEASE_SEQUENCE_FLOOR
          then (case plan of
                  None \<Rightarrow> (fs, Inl (SnapshotIntegrityErr ''restore plan is missing''))
                | Some p \<Rightarrow> restore_floor env store p root_hash fs)
          else restore_manifest_file env store e root_hash fs
      | OpTombstone t \<Rightarrow>
          if t \<noteq> RELEASE_SEQUENCE_FLOOR then restore_manifest_tombstone t fs else (fs, Inr ()))"

text \<open>The loop from operation \<open>i\<close> on; the journal is written after every operation.\<close>

fun run_restore ::
  "snap_env \<Rightarrow> path \<Rightarrow> manifest \<Rightarrow> floor_plan option \<Rightarrow> rat \<Rightarrow> nat \<Rightarrow> restore_op list \<Rightarrow> files
     \<Rightarrow> files \<times> unit outcome" where
  "run_restore env store m plan created i [] fs = (fs, Inr ())"
| "run_restore env store m plan created i (op # ops) fs =
     bindS (apply_op env store (mf_root_hash m) plan op fs) (\<lambda>fs1 _.
     bindS (write_restore_journal env IN_PLACE_RESTORE_JOURNAL
              (journal_doc m ''APPLYING'' (i + 1) created (se_clock env (i + 2))) fs1) (\<lambda>fs2 _.
     run_restore env store m plan created (i + 1) ops fs2))"

section \<open>Verification\<close>

definition verify_restored_file :: "snap_env \<Rightarrow> file_entry \<Rightarrow> files \<Rightarrow> files \<times> unit outcome" where
  "verify_restored_file env e fs =
     (case validate_in_place_restore_path (fe_path e) of
        Inl err \<Rightarrow> (fs, Inl err)
      | Inr relative \<Rightarrow>
          if relative = RELEASE_SEQUENCE_FLOOR then (fs, Inr ())
          else bindS (restore_parent fs relative) (\<lambda>fs1 (parent, dest).
            (case lstat fs1 dest of
               Some (NFile c md t) \<Rightarrow>
                 if se_sha env c \<noteq> fe_sha256 e \<or> int (length c) \<noteq> fe_size e \<or> md \<noteq> fe_mode e
                 then (fs1, Inl (SnapshotIntegrityErr ''verification''))
                 else (fs1, Inr ())
             | None \<Rightarrow> (fs1, Inl (SnapshotIntegrityErr ''missing''))
             | Some n \<Rightarrow> (fs1, Inl (SnapshotIntegrityErr ''unsafe path'')))))"

definition verify_tombstone :: "files \<Rightarrow> string \<Rightarrow> unit outcome" where
  "verify_tombstone fs relative =
     bindE (validate_in_place_restore_path relative) (\<lambda>value.
       if value = RELEASE_SEQUENCE_FLOOR then Inr ()
       else
         bindE (tombstone_destination fs value) (\<lambda>dest.
           (case dest of
              None \<Rightarrow> Inr ()
            | Some p \<Rightarrow> raise_if (lstat fs p \<noteq> None) (SnapshotIntegrityErr ''tombstone still exists''))))"

fun verify_files :: "snap_env \<Rightarrow> file_entry list \<Rightarrow> files \<Rightarrow> files \<times> unit outcome" where
  "verify_files env [] fs = (fs, Inr ())"
| "verify_files env (e # es) fs = bindS (verify_restored_file env e fs) (\<lambda>fs1 _. verify_files env es fs1)"

definition verify_in_place_restore ::
  "snap_env \<Rightarrow> manifest \<Rightarrow> floor_plan option \<Rightarrow> files \<Rightarrow> files \<times> unit outcome" where
  "verify_in_place_restore env m plan fs =
     bindS (verify_files env (mf_files m) fs) (\<lambda>fs1 _.
       (fs1,
        bindE (mapE (verify_tombstone fs1) (mf_tombstones m)) (\<lambda>_.
          (case plan of None \<Rightarrow> Inr () | Some p \<Rightarrow> verify_floor env fs1 p))))"

section \<open>The in-place restore\<close>

definition latest_doc :: "manifest \<Rightarrow> rat \<Rightarrow> dict" where
  "latest_doc m committed =
     [(''schema'', PInt 1), (''root_hash'', PStr (mf_root_hash m)),
      (''verified_root_hash'', PStr (mf_root_hash m)), (''release_id'', PStr (mf_release_id m)),
      (''file_count'', PInt (int (length (mf_files m)))),
      (''tombstone_count'', PInt (int (length (mf_tombstones m)))),
      (''committed_at'', PFloat committed)]"

text \<open>After verification: back to the first operation, or the commit and its record.\<close>

definition finish_restore ::
  "snap_env \<Rightarrow> manifest \<Rightarrow> rat \<Rightarrow> files \<times> unit outcome \<Rightarrow> files \<times> restore_plan outcome" where
  "finish_restore env m created verified =
     (let n = length (mf_files m) + length (mf_tombstones m);
          write = write_restore_journal env IN_PLACE_RESTORE_JOURNAL in
      case verified of
        (fs3, Inl e) \<Rightarrow>
          bindS (write (journal_doc m ''APPLYING'' 0 created (se_clock env (n + 2))) fs3)
            (\<lambda>fs4 _. (fs4, Inl e))
      | (fs3, Inr u) \<Rightarrow>
          bindS (write (journal_doc m ''COMMITTED'' n created (se_clock env (n + 2))
                        @ [(''verified_root_hash'', PStr (mf_root_hash m)),
                           (''committed_at'', PFloat (se_clock env (n + 2)))]) fs3) (\<lambda>fs4 _.
          bindS (write_restore_journal env IN_PLACE_RESTORE_LATEST
                   (latest_doc m (se_clock env (n + 2))) fs4) (\<lambda>fs5 _.
          (fs5, Inr (plan_of_manifest m False)))))"

text \<open>From the resume point to the commit.\<close>

definition apply_restore ::
  "snap_env \<Rightarrow> manifest \<Rightarrow> floor_plan option \<Rightarrow> nat \<Rightarrow> rat \<Rightarrow> files \<Rightarrow> files \<times> restore_plan outcome" where
  "apply_restore env m plan next_op created fs =
     bindS (write_restore_journal env IN_PLACE_RESTORE_JOURNAL
              (journal_doc m ''APPLYING'' next_op created (se_clock env 1)) fs) (\<lambda>fs1 _.
     bindS (run_restore env SNAPSHOT_STORE m plan created next_op (drop next_op (restore_ops m)) fs1)
       (\<lambda>fs2 _. finish_restore env m created (verify_in_place_restore env m plan fs2)))"

definition restore_locked ::
  "snap_env \<Rightarrow> snapshot_ref \<Rightarrow> path \<Rightarrow> bool \<Rightarrow> snap_limits \<Rightarrow> files \<Rightarrow> files \<times> restore_plan outcome" where
  "restore_locked env snapshot store dry_run l fs =
     (case bindE (canonical_store_if_present fs) (\<lambda>sp.
           bindE (raise_if (\<not> snd sp) (SnapshotIntegrityErr ''store does not exist'')) (\<lambda>_.
           bindE (raise_if (store \<noteq> SNAPSHOT_STORE) (UnsafePathErr ''canonical store'')) (\<lambda>_.
           bindE (verify_local_snapshot env fs snapshot store l) (\<lambda>m.
           bindE (mapE validate_in_place_restore_path (map fe_path (mf_files m) @ mf_tombstones m))
             (\<lambda>_.
           bindE (plan_floor_restore env fs store m) (\<lambda>plan. Inr (m, plan))))))) of
        Inl e \<Rightarrow> (fs, Inl e)
      | Inr (m, plan) \<Rightarrow>
          if dry_run then (fs, Inr (plan_of_manifest m True))
          else
            (case bindE (read_restore_journal env fs) (resume_point env m) of
               Inl e \<Rightarrow> (fs, Inl e)
             | Inr (next_op, created) \<Rightarrow> apply_restore env m plan next_op created fs))"

definition RELEASE_FLOOR_LOCK :: path where
  "RELEASE_FLOOR_LOCK = [''.silicon'', ''release-sequence-floor.lock'']"

text \<open>\<open>_release_floor_lock\<close>: what taking it does to the files.\<close>

definition release_floor_lock :: "snap_env \<Rightarrow> files \<Rightarrow> files \<times> unit outcome" where
  "release_floor_lock env fs =
     (case lstat fs [''.silicon''] of
        None \<Rightarrow> open_lock_file env RELEASE_FLOOR_LOCK (set_node [''.silicon''] NDir fs)
      | Some NDir \<Rightarrow> open_lock_file env RELEASE_FLOOR_LOCK fs
      | Some NLink \<Rightarrow> (fs, Inl (UnsafePathErr ''state directory''))
      | Some n \<Rightarrow> (fs, Inl (PyErr (OtherError ''FileExistsError'' []))))"

definition restore_local_snapshot_in_place ::
  "snap_env \<Rightarrow> snapshot_ref \<Rightarrow> path \<Rightarrow> bool \<Rightarrow> snap_limits option \<Rightarrow> files
     \<Rightarrow> files \<times> restore_plan outcome" where
  "restore_local_snapshot_in_place env snapshot store dry_run l fs =
     bindS (release_floor_lock env fs) (\<lambda>fs1 _.
       (case some_limits l of
          Inl e \<Rightarrow> (fs1, Inl e)
        | Inr l' \<Rightarrow> under_store_lock env fs1 (restore_locked env snapshot store dry_run l')))"

end
