(* ===== verification/Snapshot.thy ===== *)
theory Snapshot
  imports Policy Restore
begin

text \<open>
  Taking a snapshot and restoring one into a new directory: the legacy path list and the policy
  (\<open>core/backup/manifest.py\<close>), the copy of a live source into the object store
  (\<open>core/backup/store.py\<close>), \<open>create_local_snapshot\<close> (\<open>core/backup/snapshot.py\<close>) and
  \<open>restore_snapshot\<close> (\<open>core/backup/restore.py\<close>).
\<close>

section \<open>Directories\<close>

text \<open>\<open>p.mkdir(parents=True, exist_ok=True)\<close>; the prefix \<open>q\<close> exists.\<close>

fun mkdirs_from :: "path \<Rightarrow> string list \<Rightarrow> files \<Rightarrow> files \<times> unit outcome" where
  "mkdirs_from q [] fs = (fs, Inr ())"
| "mkdirs_from q (c # cs) fs =
     (case lstat fs (q @ [c]) of
        None \<Rightarrow> mkdirs_from (q @ [c]) cs (set_node (q @ [c]) NDir fs)
      | Some NDir \<Rightarrow> mkdirs_from (q @ [c]) cs fs
      | Some n \<Rightarrow>
          (fs, Inl (PyErr (OtherError (if cs = [] then ''FileExistsError'' else ''NotADirectoryError'') []))))"

definition mkdirs :: "path \<Rightarrow> files \<Rightarrow> files \<times> unit outcome" where
  "mkdirs p fs = mkdirs_from [] p fs"

text \<open>The subclasses of \<open>OSError\<close> that the model raises.\<close>

fun is_OSError :: "snap_error \<Rightarrow> bool" where
  "is_OSError (PyErr (OtherError n m)) =
     (n \<in> set [''FileExistsError'', ''NotADirectoryError'', ''IsADirectoryError'', ''FileNotFoundError''])"
| "is_OSError e = False"

fun is_SnapshotIntegrityError :: "snap_error \<Rightarrow> bool" where
  "is_SnapshotIntegrityError (SnapshotIntegrityErr m) = True"
| "is_SnapshotIntegrityError e = False"

section \<open>The legacy path list\<close>

definition MANIFEST_NAME :: path where "MANIFEST_NAME = [''.backupsilicon'']"

definition MANIFEST_ARCHIVE_PREFIX :: string where
  "MANIFEST_ARCHIVE_PREFIX = ''.backupsilicon.archive''"

definition LEGACY_DEFAULT_MANIFEST :: "string list" where
  "LEGACY_DEFAULT_MANIFEST =
     [''prompts/MEMORY.md'', ''prompts/memory/**'', ''prompts/LORE.md'', ''prompts/CONTACTS.md'',
      ''core/interface_state/contacts.json'', ''logs/**'']"

definition MANIFEST_HEADER :: string where
  "MANIFEST_HEADER =
     ''# Optional additive backup paths. Mandatory protection is defined by core/data_policy.py.''"

text \<open>The loop of \<open>_unique_manifest_archive_path\<close>: the first index whose name is free.\<close>

definition archive_candidate :: "string \<Rightarrow> nat \<Rightarrow> string" where
  "archive_candidate base i = (if i = 1 then base else base @ ''.'' @ show_nat i)"

partial_function (option) unique_archive :: "files \<Rightarrow> string \<Rightarrow> nat \<Rightarrow> string option" where
  "unique_archive fs base i =
     (if lstat fs [archive_candidate base i] = None then Some (archive_candidate base i)
      else unique_archive fs base (i + 1))"

declare unique_archive.simps [code]

definition unique_manifest_archive_path :: "snap_env \<Rightarrow> files \<Rightarrow> string option" where
  "unique_manifest_archive_path env fs =
     unique_archive fs (MANIFEST_ARCHIVE_PREFIX @ ''.'' @ se_stamp env) 1"

text \<open>\<open>path.rename(target)\<close>: the entry and all below it.\<close>

definition rename_tree :: "path \<Rightarrow> path \<Rightarrow> files \<Rightarrow> files" where
  "rename_tree p q fs =
     map (\<lambda>(r, n). (if take (length p) r = p then q @ drop (length p) r else r, n)) fs"

definition join_lines :: "string list \<Rightarrow> string" where
  "join_lines ls = py_join [CHR 0x0A] ls @ [CHR 0x0A]"

definition ensure_manifest_file :: "snap_env \<Rightarrow> files \<Rightarrow> files \<times> string list outcome" where
  "ensure_manifest_file env fs =
     (let fresh = NFile (join_lines [MANIFEST_HEADER]) 384 (se_mtime env) in
      case lstat fs MANIFEST_NAME of
        Some NLink \<Rightarrow> (fs, Inl (UnsafePathErr ''legacy manifest''))
      | Some (NFile c m t) \<Rightarrow> (fs, Inr [])
      | None \<Rightarrow> (set_node MANIFEST_NAME fresh fs, Inr [])
      | Some n \<Rightarrow>
          (case unique_manifest_archive_path env fs of
             None \<Rightarrow> (fs, Inl (PyErr (OtherError ''no free name'' [])))
           | Some a \<Rightarrow>
               (set_node MANIFEST_NAME fresh (rename_tree MANIFEST_NAME [a] fs), Inr [a])))"

text \<open>One line: a comment or blank line has no pattern.\<close>

definition parse_manifest_line :: "string \<Rightarrow> (string \<times> string option) outcome" where
  "parse_manifest_line raw =
     (let line = strip raw in
      if line = [] \<or> is_prefix ''#'' line then Inr (line, None)
      else bindE (validate_relative_pattern line) (\<lambda>pattern. Inr (pattern, Some pattern)))"

definition migrated_manifest :: "(string \<times> string option) list \<Rightarrow> bool" where
  "migrated_manifest parsed \<longleftrightarrow>
     (\<forall>p\<in>set LEGACY_DEFAULT_MANIFEST. Some p \<in> snd ` set parsed)"

definition kept_line :: "bool \<Rightarrow> string \<times> string option \<Rightarrow> bool" where
  "kept_line migrated lp =
     (case snd lp of
        None \<Rightarrow> fst lp \<noteq> [] \<and> fst lp \<noteq> MANIFEST_HEADER
      | Some p \<Rightarrow> \<not> (migrated \<and> p \<in> set LEGACY_DEFAULT_MANIFEST))"

definition read_manifest :: "snap_env \<Rightarrow> files \<Rightarrow> files \<times> string list outcome" where
  "read_manifest env fs =
     bindS (ensure_manifest_file env fs) (\<lambda>fs1 _.
       (case lstat fs1 MANIFEST_NAME of
          Some (NFile c m t) \<Rightarrow>
            (case bindE (read_text c) (\<lambda>text. mapE parse_manifest_line (splitlines text)) of
               Inl e \<Rightarrow> (fs1, Inl e)
             | Inr parsed \<Rightarrow>
                 (let migrated = migrated_manifest parsed;
                      kept = filter (kept_line migrated) parsed;
                      patterns = map fst (filter (\<lambda>lp. snd lp \<noteq> None) kept);
                      fs2 = (if migrated
                             then set_node MANIFEST_NAME
                                    (NFile (join_lines (MANIFEST_HEADER # map fst kept)) 384 (se_mtime env)) fs1
                             else fs1) in
                  (fs2, Inr (fromkeys patterns))))
        | _ \<Rightarrow> (fs1, Inl (PyErr (OtherError ''FileNotFoundError'' [])))))"

definition load_policy :: "snap_env \<Rightarrow> files \<Rightarrow> files \<times> data_policy outcome" where
  "load_policy env fs =
     bindS (read_manifest env fs) (\<lambda>fs1 ps. (fs1, load_data_policy env fs1 (Some ps)))"

definition installed_release_id :: "snap_env \<Rightarrow> files \<Rightarrow> string outcome" where
  "installed_release_id env fs =
     (case lstat fs [''.silicon'', ''current.json''] of
        None \<Rightarrow> Inr ''legacy-unversioned''
      | Some NLink \<Rightarrow> Inl (UnsafePathErr ''release pointer'')
      | Some (NFile c m t) \<Rightarrow>
          (case se_loads env c of
             Some (PDict d) \<Rightarrow>
               (case filter truthy
                       [dget d ''generation_id'',
                        (if is_dict (dget d ''release'') then get (dget d ''release'') ''tree_sha256''
                         else PNone),
                        dget d ''upstream_tree_sha256''] of
                  [] \<Rightarrow> Inr ''legacy-unversioned''
                | v # vs \<Rightarrow> normalise_release_id (py_str (se_repr env) v))
           | _ \<Rightarrow> Inl (SnapshotIntegrityErr ''release pointer''))
      | Some n \<Rightarrow> Inl (SnapshotIntegrityErr ''release pointer''))"

section \<open>Copying a live source\<close>

text \<open>
  A writer may change a source while it is copied. A \<open>live\<close> view says, for an attempt, what the
  source held when it was opened, while it was read and after the copy; \<open>None\<close> is a source
  nobody writes to.
\<close>

type_synonym live_view = "path \<Rightarrow> nat \<Rightarrow> (string \<times> string \<times> string) option"

definition MAINTENANCE_STATE :: string where
  "MAINTENANCE_STATE = ''core/interface_state/maintenance.json''"

fun source_chain :: "files \<Rightarrow> path \<Rightarrow> string list \<Rightarrow> unit outcome" where
  "source_chain fs q [] = Inr ()"
| "source_chain fs q (c # cs) =
     (case lstat fs (q @ [c]) of
        None \<Rightarrow> Inl (SnapshotIntegrityErr ''disappeared'')
      | Some NLink \<Rightarrow> Inl (UnsafePathErr ''link'')
      | Some n \<Rightarrow> source_chain fs (q @ [c]) cs)"

text \<open>\<open>_safe_source_open\<close>: the place, the bytes and the permissions of the source.\<close>

definition safe_source_open :: "files \<Rightarrow> string \<Rightarrow> (path \<times> string \<times> int) outcome" where
  "safe_source_open fs relative =
     bindE (validate_relative_path relative) (\<lambda>value.
     (let p = posix_parts value in
      bindE (source_chain fs [] p) (\<lambda>_.
        (case lstat fs p of
           Some (NFile c m t) \<Rightarrow> Inr (p, c, m)
         | Some NSock \<Rightarrow> Inl (SnapshotIntegrityErr ''open'')
         | _ \<Rightarrow> Inl (UnsafePathErr ''non-regular'')))))"

text \<open>The device, the inode and the size of the source before and after.\<close>

definition source_only_appended :: "int \<times> int \<times> int \<Rightarrow> int \<times> int \<times> int \<Rightarrow> bool" where
  "source_only_appended old new \<longleftrightarrow>
     (case (old, new) of ((d, i, s), (d', i', s')) \<Rightarrow> (d, i) = (d', i') \<and> s' \<ge> s)"

text \<open>\<open>file_lock(path)\<close> of \<open>core/state_store.py\<close>: the lock file it leaves beside the path.\<close>

definition state_file_lock :: "snap_env \<Rightarrow> path \<Rightarrow> files \<Rightarrow> files \<times> unit outcome" where
  "state_file_lock env p fs =
     bindS (mkdirs (butlast p) fs) (\<lambda>fs1 _.
       (let q = butlast p @ [last p @ ''.lock''] in
        case lstat fs1 q of
          None \<Rightarrow> (set_node q (NFile [] 420 (se_mtime env)) fs1, Inr ())
        | Some NDir \<Rightarrow> (fs1, Inl (PyErr (OtherError ''IsADirectoryError'' [])))
        | Some n \<Rightarrow> (fs1, Inr ())))"

text \<open>The bytes a stable copy stores under their digest.\<close>

definition store_bytes ::
  "snap_env \<Rightarrow> path \<Rightarrow> string \<Rightarrow> files \<Rightarrow> files \<times> string outcome" where
  "store_bytes env store bytes fs =
     (let h = se_sha env bytes in
      case object_path store h of
        Inl e \<Rightarrow> (fs, Inl e)
      | Inr p \<Rightarrow>
          bindS (mkdirs (butlast p) fs) (\<lambda>fs1 _.
            if lstat fs1 p \<noteq> None
            then (fs1, bindE (verify_object env fs1 store h (int (length bytes))) (\<lambda>_. Inr h))
            else (set_node p (NFile bytes 256 (se_mtime env)) fs1, Inr h)))"

text \<open>One attempt: \<open>None\<close> when the source changed while it was copied.\<close>

definition copy_attempt ::
  "snap_env \<Rightarrow> live_view \<Rightarrow> path \<Rightarrow> snap_limits \<Rightarrow> string \<Rightarrow> nat \<Rightarrow> files
     \<Rightarrow> files \<times> (string \<times> int \<times> int) option outcome" where
  "copy_attempt env live store l relative n fs =
     bindS (if relative = MAINTENANCE_STATE then state_file_lock env (posix_parts relative) fs
            else (fs, Inr ())) (\<lambda>fs1 _.
       (case safe_source_open fs1 relative of
          Inl e \<Rightarrow> (fs1, Inl e)
        | Inr (p, c, md) \<Rightarrow>
            (let (opened, reading, after) = (case live p n of None \<Rightarrow> (c, c, c) | Some v \<Rightarrow> v);
                 bytes = take (length opened) reading in
             if int (length opened) > sl_max_file_size l
             then (fs1, Inl (SnapshotLimitErr ''max_file_size''))
             else if length bytes \<noteq> length opened
                  \<or> \<not> source_only_appended (0, 0, int (length opened)) (0, 0, int (length after))
             then (fs1, Inr None)
             else bindS (store_bytes env store bytes fs1) (\<lambda>fs2 h.
               (fs2, Inr (Some (h, int (length bytes), md mod 512)))))))"

fun copy_attempts ::
  "snap_env \<Rightarrow> live_view \<Rightarrow> path \<Rightarrow> snap_limits \<Rightarrow> string \<Rightarrow> nat \<Rightarrow> nat \<Rightarrow> files
     \<Rightarrow> files \<times> (string \<times> int \<times> int) outcome" where
  "copy_attempts env live store l relative n 0 fs = (fs, Inl (SnapshotIntegrityErr ''stable snapshot''))"
| "copy_attempts env live store l relative n (Suc k) fs =
     (case copy_attempt env live store l relative n fs of
        (fs1, Inr (Some r)) \<Rightarrow> (fs1, Inr r)
      | (fs1, Inr None) \<Rightarrow> copy_attempts env live store l relative (n + 1) k fs1
      | (fs1, Inl e) \<Rightarrow>
          if is_OSError e \<or> is_SnapshotIntegrityError e
          then copy_attempts env live store l relative (n + 1) k fs1
          else (fs1, Inl e))"

definition copy_source_to_object ::
  "snap_env \<Rightarrow> live_view \<Rightarrow> path \<Rightarrow> snap_limits \<Rightarrow> string \<Rightarrow> files \<Rightarrow> files \<times> (string \<times> int \<times> int) outcome" where
  "copy_source_to_object env live store l relative fs =
     bindS (mkdirs (store @ [''objects'', ''.tmp'']) fs) (\<lambda>fs1 _.
       copy_attempts env live store l relative 0 (nat (sl_source_retries l)) fs1)"

section \<open>Creating a snapshot\<close>

text \<open>A requested store is given as its resolved path.\<close>

definition prepare_store :: "path option \<Rightarrow> files \<Rightarrow> files \<times> path outcome" where
  "prepare_store requested fs =
     (case requested of
        Some p \<Rightarrow> bindS (mkdirs p fs) (\<lambda>fs1 _. (fs1, Inr p))
      | None \<Rightarrow>
          if lstat fs [''.silicon''] = Some NLink then (fs, Inl (UnsafePathErr ''state directory''))
          else bindS (mkdirs [''.silicon''] fs) (\<lambda>fs1 _.
            if lstat fs1 SNAPSHOT_STORE = Some NLink then (fs1, Inl (UnsafePathErr ''snapshot store''))
            else bindS (mkdirs SNAPSHOT_STORE fs1) (\<lambda>fs2 _. (fs2, Inr SNAPSHOT_STORE))))"

fun copy_protected ::
  "snap_env \<Rightarrow> live_view \<Rightarrow> path \<Rightarrow> snap_limits \<Rightarrow> int \<Rightarrow> file_entry list \<Rightarrow> protected_file list \<Rightarrow> files
     \<Rightarrow> files \<times> file_entry list outcome" where
  "copy_protected env live store l tot acc [] fs = (fs, Inr acc)"
| "copy_protected env live store l tot acc (f # pfs) fs =
     bindS (copy_source_to_object env live store l (pf_relative f) fs) (\<lambda>fs1 (digest, sz, md).
     bindS (fs1, if pf_relative f = RELEASE_SEQUENCE_FLOOR
                 then bindE (read_snapshot_floor env fs1 store digest sz) (\<lambda>_. Inr ())
                 else Inr ()) (\<lambda>fs2 _.
       if tot + sz > sl_max_total_size l then (fs2, Inl (SnapshotLimitErr ''max_total_size''))
       else copy_protected env live store l (tot + sz)
              (acc @ [\<lparr>fe_path = pf_relative f, fe_sha256 = digest, fe_size = sz, fe_mode = md,
                       fe_classes = pf_classes f\<rparr>]) pfs fs2))"

definition previous_paths ::
  "snap_env \<Rightarrow> files \<Rightarrow> path \<Rightarrow> snapshot_ref option \<Rightarrow> string list outcome" where
  "previous_paths env fs store previous =
     (case previous of
        None \<Rightarrow> Inr []
      | Some ref \<Rightarrow> bindE (load_manifest env fs store ref) (\<lambda>m. Inr (map fe_path (mf_files m))))"

text \<open>The manifest of the copied entries; \<open>_validate_manifest\<close> reads it back.\<close>

definition build_manifest ::
  "snap_env \<Rightarrow> string \<Rightarrow> file_entry list \<Rightarrow> string list \<Rightarrow> manifest outcome" where
  "build_manifest env release_id entries previous =
     bindE (manifest_body release_id (filter (\<lambda>p. p \<notin> fe_path ` set entries) previous))
       (\<lambda>(rid, stones).
     validate_manifest env (PDict (manifest_doc
       \<lparr>mf_release_id = rid, mf_files = entries, mf_tombstones = stones,
        mf_root_hash = manifest_hash env rid entries stones\<rparr>)))"

definition write_manifest :: "snap_env \<Rightarrow> path \<Rightarrow> manifest \<Rightarrow> files \<Rightarrow> files \<times> path outcome" where
  "write_manifest env store m fs =
     (case manifest_path store (mf_root_hash m) of
        Inl e \<Rightarrow> (fs, Inl e)
      | Inr p \<Rightarrow>
          (let text = (\<lambda>m. canonical_json (se_repr env) (PDict (manifest_doc m))) in
           if lstat fs p \<noteq> None
           then (fs, bindE (load_manifest env fs store (RefPath p)) (\<lambda>existing.
                  if text existing \<noteq> text m then Inl (SnapshotIntegrityErr ''different content'')
                  else Inr p))
           else bindS (mkdirs (butlast p) fs) (\<lambda>fs1 _.
             (set_node p (NFile (text m @ [CHR 0x0A]) 256 (se_mtime env)) fs1, Inr p))))"

record snapshot_result =
  sr_root_hash :: string
  sr_manifest_path :: path
  sr_manifest :: manifest

text \<open>From the protected files to the verified snapshot.\<close>

definition snapshot_protected ::
  "snap_env \<Rightarrow> live_view \<Rightarrow> string \<Rightarrow> path \<Rightarrow> snapshot_ref option \<Rightarrow> snap_limits \<Rightarrow> protected_file list
     \<Rightarrow> files \<Rightarrow> files \<times> snapshot_result outcome" where
  "snapshot_protected env live release_id store previous l protected fs =
     bindS (copy_protected env live store l 0 [] protected fs) (\<lambda>fs1 entries.
     bindS (fs1, bindE (previous_paths env fs1 store previous) (build_manifest env release_id entries))
       (\<lambda>fs2 m.
     bindS (write_manifest env store m fs2) (\<lambda>fs3 p.
       (fs3, bindE (verify_local_snapshot env fs3 (RefDoc (manifest_doc m)) store l) (\<lambda>_.
         Inr \<lparr>sr_root_hash = mf_root_hash m, sr_manifest_path = p, sr_manifest = m\<rparr>)))))"

definition create_local_snapshot_locked ::
  "snap_env \<Rightarrow> live_view \<Rightarrow> string \<Rightarrow> data_policy option \<Rightarrow> path option \<Rightarrow> snapshot_ref option
     \<Rightarrow> snap_limits option \<Rightarrow> files \<Rightarrow> files \<times> snapshot_result outcome" where
  "create_local_snapshot_locked env live release_id policy requested previous l fs =
     bindS (prepare_store requested fs) (\<lambda>fs1 store.
     bindS (fs1, some_limits l) (\<lambda>fs2 l'.
     bindS (mkdirs store fs2) (\<lambda>fs3 _.
     bindS (case policy of None \<Rightarrow> load_policy env fs3 | Some dp \<Rightarrow> (fs3, Inr dp)) (\<lambda>fs4 dp.
     bindS (fs4, resolve_policy fs4 dp) (\<lambda>fs5 protected.
       if int (length protected) > sl_max_files l' then (fs5, Inl (SnapshotLimitErr ''max_files''))
       else snapshot_protected env live release_id store previous l' protected fs5)))))"

definition create_local_snapshot ::
  "snap_env \<Rightarrow> live_view \<Rightarrow> string \<Rightarrow> data_policy option \<Rightarrow> path option \<Rightarrow> snapshot_ref option
     \<Rightarrow> snap_limits option \<Rightarrow> files \<Rightarrow> files \<times> snapshot_result outcome" where
  "create_local_snapshot env live release_id policy requested previous l fs =
     under_store_lock env fs
       (create_local_snapshot_locked env live release_id policy requested previous l)"

section \<open>Restoring into a new directory\<close>

definition plan_restore ::
  "snap_env \<Rightarrow> files \<Rightarrow> snapshot_ref \<Rightarrow> path \<Rightarrow> path \<Rightarrow> snap_limits option \<Rightarrow> restore_plan outcome" where
  "plan_restore env fs snapshot target store l =
     (if lstat fs target \<noteq> None then Inl (SnapshotErr ''nonexistent directory'')
      else bindE (some_limits l) (\<lambda>l'.
           bindE (verify_local_snapshot env fs snapshot store l') (\<lambda>m. Inr (plan_of_manifest m True))))"

text \<open>
  The staging directory is a tree of its own: it has a fresh name beside the target and is gone
  when the call ends.
\<close>

definition stage_file :: "snap_env \<Rightarrow> files \<Rightarrow> path \<Rightarrow> file_entry \<Rightarrow> files \<Rightarrow> files \<times> unit outcome" where
  "stage_file env fs store e staging =
     (case validate_relative_path (fe_path e) of
        Inl err \<Rightarrow> (staging, Inl err)
      | Inr relative \<Rightarrow>
          (let dest = posix_parts relative;
               tmp = butlast dest @ [''.'' @ last dest @ ''.partial''] in
           bindS (mkdirs (butlast dest) staging) (\<lambda>st1 _.
             (case open_verified_object env fs store (fe_sha256 e) (fe_size e) of
                Inl err \<Rightarrow> (st1, Inl err)
              | Inr c \<Rightarrow>
                  if lstat st1 tmp \<noteq> None
                  then (st1, Inl (PyErr (OtherError ''FileExistsError'' [])))
                  else if lstat st1 dest = Some NDir
                  then (st1, Inl (PyErr (OtherError ''IsADirectoryError'' [])))
                  else
                    (let st2 = set_node dest (NFile c (fe_mode e mod 512) (se_mtime env)) st1 in
                     (st2, bindE (hash_file env st2 dest) (\<lambda>ds.
                        raise_if (ds \<noteq> (fe_sha256 e, fe_size e))
                          (SnapshotIntegrityErr ''verification''))))))))"

fun stage_files :: "snap_env \<Rightarrow> files \<Rightarrow> path \<Rightarrow> file_entry list \<Rightarrow> files \<Rightarrow> files \<times> unit outcome" where
  "stage_files env fs store [] staging = (staging, Inr ())"
| "stage_files env fs store (e # es) staging =
     bindS (stage_file env fs store e staging) (\<lambda>st1 _. stage_files env fs store es st1)"

text \<open>\<open>os.replace(staging, target)\<close>.\<close>

definition graft :: "path \<Rightarrow> files \<Rightarrow> files \<Rightarrow> files" where
  "graft target staging fs =
     (target, NDir) # map (\<lambda>(p, n). (target @ p, n)) staging @ fs"

definition restore_snapshot ::
  "snap_env \<Rightarrow> snapshot_ref \<Rightarrow> path \<Rightarrow> path \<Rightarrow> bool \<Rightarrow> snap_limits option \<Rightarrow> files
     \<Rightarrow> files \<times> restore_plan outcome" where
  "restore_snapshot env snapshot target store dry_run l fs =
     (case plan_restore env fs snapshot target store l of
        Inl e \<Rightarrow> (fs, Inl e)
      | Inr plan \<Rightarrow>
          if dry_run then (fs, Inr plan)
          else
            (case load_manifest env fs store snapshot of
               Inl e \<Rightarrow> (fs, Inl e)
             | Inr m \<Rightarrow>
                 bindS (mkdirs (butlast target) fs) (\<lambda>fs1 _.
                   (case stage_files env fs1 store (mf_files m) [] of
                      (st, Inl e) \<Rightarrow> (fs1, Inl e)
                    | (st, Inr u) \<Rightarrow>
                        if lstat fs1 target \<noteq> None then (fs1, Inl (SnapshotErr ''appeared''))
                        else (graft target st fs1, Inr (plan\<lparr>rp_dry_run := False\<rparr>))))))"

end
