(* ===== verification/PolicySafe.thy ===== *)
theory PolicySafe
  imports Policy SnapGC
begin

text \<open>
  What the policy selects: every selected file is a regular file that is reached through real
  directories and is neither a credential nor part of the snapshot store, and every regular file
  below a protected directory is selected.
\<close>

section \<open>Generators\<close>

lemma gen_app_set: "q \<in> set (fst (gen_app a b)) \<Longrightarrow> q \<in> set (fst a) \<or> q \<in> set (fst b)"
  by (auto simp: gen_app_def split: option.splits)

lemma gen_app_None:
  "snd (gen_app a b) = None \<longleftrightarrow> snd a = None \<and> snd b = None"
  "snd (gen_app a b) = None \<Longrightarrow> fst (gen_app a b) = fst a @ fst b"
  by (auto simp: gen_app_def split: option.splits)

lemma gen_concat_Nil [simp]: "gen_concat [] = ([], None)"
  by (simp add: gen_concat_def)

lemma gen_concat_Cons: "gen_concat (g # gs) = gen_app g (gen_concat gs)"
  by (simp add: gen_concat_def)

lemma gen_concat_set: "q \<in> set (fst (gen_concat gs)) \<Longrightarrow> \<exists>g\<in>set gs. q \<in> set (fst g)"
  by (induction gs) (use gen_app_set in \<open>fastforce simp: gen_concat_Cons\<close>)+

lemma gen_concat_None:
  assumes "snd (gen_concat gs) = None"
  shows "\<forall>g\<in>set gs. snd g = None" and "g \<in> set gs \<Longrightarrow> set (fst g) \<subseteq> set (fst (gen_concat gs))"
  using assms by (induction gs) (auto simp: gen_concat_Cons gen_app_None)

lemma consume_Inr: "consume f s g = Inr r \<longleftrightarrow> snd g = None \<and> foldE f s (fst g) = Inr r"
  by (auto simp: consume_def bindE_eq_Inr split: option.splits)

section \<open>Entries reached without following a link\<close>

text \<open>Every proper prefix of the path is a real directory.\<close>

definition under_dirs :: "files \<Rightarrow> path \<Rightarrow> bool" where
  "under_dirs fs p \<longleftrightarrow> (\<forall>k<length p. lstat fs (take k p) = Some NDir)"

definition real_entry :: "files \<Rightarrow> path \<Rightarrow> bool" where
  "real_entry fs p \<longleftrightarrow> under_dirs fs p \<and> (lstat fs p = Some NDir \<or> regular_file fs p)"

lemma under_dirs_child:
  "under_dirs fs p \<Longrightarrow> lstat fs p = Some NDir \<Longrightarrow> under_dirs fs (p @ [n])"
  by (auto simp: under_dirs_def less_Suc_eq)

lemma under_dirs_path_child:
  "under_dirs fs p \<Longrightarrow> lstat fs p = Some NDir \<Longrightarrow> under_dirs fs (path_child p seg)"
  by (auto simp: path_child_def under_dirs_child) (simp add: under_dirs_def lstat_def)

lemma ensure_entry_type_Inr:
  "ensure_entry_type fs p = Inr n \<Longrightarrow>
     lstat fs p = Some n \<and> (n = NDir \<or> regular_file fs p) \<and> (n \<noteq> NDir \<longrightarrow> regular_file fs p)"
  by (auto simp: ensure_entry_type_def regular_file_def split: option.splits node.splits)

lemma sorted_children_child: "c \<in> set (sorted_children fs p) \<Longrightarrow> \<exists>n. c = p @ [n]"
  by (auto simp: sorted_children_def)

lemma under_dirs_children:
  "c \<in> set (sorted_children fs p) \<Longrightarrow> under_dirs fs p \<Longrightarrow> lstat fs p = Some NDir \<Longrightarrow> under_dirs fs c"
  by (auto simp: sorted_children_def under_dirs_child)

lemma under_dirs_candidates:
  "c \<in> set (candidates fs p seg) \<Longrightarrow> under_dirs fs p \<Longrightarrow> lstat fs p = Some NDir \<Longrightarrow> under_dirs fs c"
  by (auto simp: candidates_def under_dirs_path_child dest: under_dirs_children split: if_split_asm)

lemma gen_concat_map_set:
  "q \<in> set (fst (gen_concat (map f xs))) \<Longrightarrow> \<exists>x\<in>set xs. q \<in> set (fst (f x))"
  by (drule gen_concat_set) simp

lemma safe_tree_yields:
  assumes "q \<in> set (fst (safe_tree fs p))"
  shows "\<exists>n. \<not> is_runtime_ephemeral_socket fs p \<and> ensure_entry_type fs p = Inr n
    \<and> (q = p \<or> n = NDir \<and> (\<exists>c\<in>set (sorted_children fs p). q \<in> set (fst (safe_tree fs c))))"
proof (cases "is_runtime_ephemeral_socket fs p")
  case True
  with assms show ?thesis by (simp add: safe_tree.simps [of fs p])
next
  case sock: False
  show ?thesis
  proof (cases "ensure_entry_type fs p")
    case (Inl e)
    with assms sock show ?thesis by (simp add: safe_tree.simps [of fs p])
  next
    case (Inr n)
    with assms sock have "q \<in> set (fst (gen_app ([p], None)
        (if n = NDir then gen_concat (map (safe_tree fs) (sorted_children fs p)) else ([], None))))"
      by (simp add: safe_tree.simps [of fs p])
    from gen_app_set [OF this] show ?thesis
      using sock Inr by (auto split: if_split_asm dest: gen_concat_map_set)
  qed
qed

lemma safe_tree_sound:
  "under_dirs fs p \<Longrightarrow> q \<in> set (fst (safe_tree fs p)) \<Longrightarrow> real_entry fs q"
proof (induction fs p rule: safe_tree.induct)
  case (1 fs p)
  obtain n where sock: "\<not> is_runtime_ephemeral_socket fs p" and ty: "ensure_entry_type fs p = Inr n"
    and q: "q = p \<or> n = NDir \<and> (\<exists>c\<in>set (sorted_children fs p). q \<in> set (fst (safe_tree fs c)))"
    using safe_tree_yields [OF 1(3)] by blast
  note node = ensure_entry_type_Inr [OF ty]
  from q show ?case
  proof (elim disjE conjE bexE)
    assume "q = p"
    with node 1(2) show ?thesis by (auto simp: real_entry_def)
  next
    fix c assume c: "n = NDir" "c \<in> set (sorted_children fs p)" "q \<in> set (fst (safe_tree fs c))"
    have "under_dirs fs c" using c node 1(2) by (auto intro: under_dirs_children)
    with 1(1) [OF sock ty c(1,2)] c(3) show ?thesis by blast
  qed
qed

lemma expand_parts_sound:
  "under_dirs fs p \<Longrightarrow> q \<in> set (fst (expand_parts fs p parts)) \<Longrightarrow> under_dirs fs q"
proof (induction fs p parts rule: expand_parts.induct)
  case (1 fs p)
  then show ?case by (simp add: expand_parts.simps split: if_split_asm)
next
  case (2 fs p seg rest)
  consider (tree) "seg = ''**''" "rest = []" | (deep) "seg = ''**''" "rest \<noteq> []" | (plain) "seg \<noteq> ''**''"
    by blast
  then show ?case
  proof cases
    case tree
    with 2(4,5) show ?thesis
      by (auto simp: expand_parts.simps real_entry_def dest!: safe_tree_sound split: if_split_asm)
  next
    case deep
    let ?sub = "\<lambda>c. if is_runtime_ephemeral_socket fs c then ([], None)
      else (case ensure_entry_type fs c of Inl e \<Rightarrow> ([], Some e)
            | Inr m \<Rightarrow> if m = NDir then expand_parts fs c (seg # rest) else ([], None))"
    let ?all = "gen_concat (map ?sub (sorted_children fs p))"
    have "expand_parts fs p (seg # rest) = gen_app (expand_parts fs p rest)
        (if lstat fs p = None then ([], None)
         else (case ensure_entry_type fs p of Inl e \<Rightarrow> ([], Some e)
               | Inr n \<Rightarrow> if n \<noteq> NDir then ([], None) else ?all))"
      using deep by (subst expand_parts.simps(2)) (simp only: simp_thms if_False if_True)
    from gen_app_set [OF 2(5) [unfolded this]]
    have "q \<in> set (fst (expand_parts fs p rest)) \<or> lstat fs p = Some NDir \<and> q \<in> set (fst ?all)"
    proof (rule disj_forward)
      assume "q \<in> set (fst (if lstat fs p = None then ([], None)
         else (case ensure_entry_type fs p of Inl e \<Rightarrow> ([], Some e)
               | Inr n \<Rightarrow> if n \<noteq> NDir then ([], None) else ?all)))"
      then show "lstat fs p = Some NDir \<and> q \<in> set (fst ?all)"
        by (cases "ensure_entry_type fs p") (auto dest: ensure_entry_type_Inr split: if_split_asm)
    qed
    then show ?thesis
    proof (elim disjE conjE)
      assume "q \<in> set (fst (expand_parts fs p rest))"
      with 2(1) 2(4) deep show ?thesis by blast
    next
      assume dir: "lstat fs p = Some NDir" and sub: "q \<in> set (fst ?all)"
      from gen_concat_map_set [OF sub]
      obtain c where c: "c \<in> set (sorted_children fs p)" "q \<in> set (fst (?sub c))" ..
      then have "\<not> is_runtime_ephemeral_socket fs c" "ensure_entry_type fs c = Inr NDir"
        and q: "q \<in> set (fst (expand_parts fs c (seg # rest)))"
        by (auto split: if_split_asm sum.splits)
      moreover have "ensure_entry_type fs p = Inr NDir" using dir by (simp add: ensure_entry_type_def)
      moreover have "under_dirs fs c" using c(1) dir 2(4) by (auto intro: under_dirs_children)
      ultimately show ?thesis using 2(2) deep c(1) dir by auto
    qed
  next
    case plain
    let ?sub = "\<lambda>c. if lstat fs c = None \<or> is_runtime_ephemeral_socket fs c then ([], None)
      else (case ensure_entry_type fs c of Inl e \<Rightarrow> ([], Some e)
            | Inr m \<Rightarrow> if rest = [] then ([c], None)
                else if m = NDir then expand_parts fs c rest else ([], None))"
    let ?all = "gen_concat (map ?sub (candidates fs p seg))"
    have "expand_parts fs p (seg # rest) =
        (if lstat fs p = None then ([], None)
         else (case ensure_entry_type fs p of Inl e \<Rightarrow> ([], Some e)
               | Inr n \<Rightarrow> if n \<noteq> NDir then ([], None) else ?all))"
      using plain by (subst expand_parts.simps(2)) (simp only: simp_thms if_False if_True)
    from 2(5) [unfolded this] have dir: "lstat fs p = Some NDir" and sub: "q \<in> set (fst ?all)"
      by (cases "ensure_entry_type fs p"; auto dest: ensure_entry_type_Inr split: if_split_asm)+
    from gen_concat_map_set [OF sub]
    obtain c where c: "c \<in> set (candidates fs p seg)" "q \<in> set (fst (?sub c))" ..
    have under: "under_dirs fs c" using c(1) dir 2(4) by (auto intro: under_dirs_candidates)
    have ty: "ensure_entry_type fs p = Inr NDir" using dir by (simp add: ensure_entry_type_def)
    from c(2) have "q = c \<or> rest \<noteq> [] \<and> lstat fs c \<noteq> None \<and> \<not> is_runtime_ephemeral_socket fs c
        \<and> ensure_entry_type fs c = Inr NDir \<and> q \<in> set (fst (expand_parts fs c rest))"
      by (auto split: if_split_asm sum.splits)
    then show ?thesis using under 2(3) plain ty c(1) dir by auto
  qed
qed

section \<open>Nothing below a directory is left out\<close>

lemma safe_tree_complete_step:
  assumes "snd (safe_tree fs p) = None" and "\<not> is_runtime_ephemeral_socket fs p"
  shows "p \<in> set (fst (safe_tree fs p))"
    and "lstat fs p = Some NDir \<Longrightarrow> c \<in> set (sorted_children fs p) \<Longrightarrow>
      snd (safe_tree fs c) = None \<and> set (fst (safe_tree fs c)) \<subseteq> set (fst (safe_tree fs p))"
proof -
  let ?all = "gen_concat (map (safe_tree fs) (sorted_children fs p))"
  obtain n where ty: "ensure_entry_type fs p = Inr n"
    using assms by (cases "ensure_entry_type fs p") (auto simp: safe_tree.simps [of fs p])
  then have eq: "safe_tree fs p = gen_app ([p], None) (if n = NDir then ?all else ([], None))"
    using assms(2) by (simp add: safe_tree.simps [of fs p])
  note none = gen_app_None(1) [THEN iffD1, OF assms(1) [unfolded eq]]
  note app = gen_app_None(2) [OF assms(1) [unfolded eq]]
  show "p \<in> set (fst (safe_tree fs p))" unfolding eq app by simp
  assume dir: "lstat fs p = Some NDir" and c: "c \<in> set (sorted_children fs p)"
  have n: "n = NDir" using ty dir by (simp add: ensure_entry_type_def)
  have all: "snd ?all = None" using none n by simp
  have "set (fst ?all) \<subseteq> set (fst (safe_tree fs p))" unfolding eq app using n by auto
  then show "snd (safe_tree fs c) = None \<and> set (fst (safe_tree fs c)) \<subseteq> set (fst (safe_tree fs p))"
    using gen_concat_None(1) [OF all] gen_concat_None(2) [OF all, of "safe_tree fs c"] c by auto
qed

lemma safe_tree_complete:
  assumes "snd (safe_tree fs p) = None" and "regular_file fs (p @ r)"
    and "\<forall>k<length r. lstat fs (p @ take k r) = Some NDir"
    and "\<forall>w\<in>set r. \<not> atomic_write_temp w"
  shows "p @ r \<in> set (fst (safe_tree fs p))"
  using assms
proof (induction r arbitrary: p)
  case Nil
  then have "\<not> is_runtime_ephemeral_socket fs p"
    by (auto simp: is_runtime_ephemeral_socket_def regular_file_def)
  with safe_tree_complete_step(1) [OF Nil(1)] show ?case by simp
next
  case (Cons w r)
  have dir: "lstat fs p = Some NDir" using Cons.prems(3) [rule_format, of 0] by simp
  then have sock: "\<not> is_runtime_ephemeral_socket fs p" by (simp add: is_runtime_ephemeral_socket_def)
  have dirs: "\<forall>k<length r. lstat fs ((p @ [w]) @ take k r) = Some NDir"
  proof (intro allI impI)
    fix k assume "k < length r"
    then show "lstat fs ((p @ [w]) @ take k r) = Some NDir"
      using Cons.prems(3) [rule_format, of "Suc k"] by simp
  qed
  have reg: "regular_file fs ((p @ [w]) @ r)" using Cons.prems(2) by simp
  have "lstat fs (p @ [w]) \<noteq> None"
  proof (cases r)
    case Nil
    with reg show ?thesis by (auto simp: regular_file_iff)
  next
    case (Cons v vs)
    then show ?thesis using dirs [rule_format, of 0] by simp
  qed
  then have c: "p @ [w] \<in> set (sorted_children fs p)"
    using Cons.prems(4) by (simp add: sorted_children_def set_scandir)
  note step = safe_tree_complete_step(2) [OF Cons.prems(1) sock dir c]
  have "(p @ [w]) @ r \<in> set (fst (safe_tree fs (p @ [w])))"
    by (rule Cons.IH) (use step reg dirs Cons.prems(4) in auto)
  with step show ?case by auto
qed

text \<open>Literal segments lead straight to the rest of the pattern.\<close>

definition literal :: "string \<Rightarrow> bool" where
  "literal seg \<longleftrightarrow> \<not> has_magic seg \<and> \<not> is_prefix ''/'' seg"

lemma gen_concat_single [simp]: "gen_concat [g] = g"
  by (cases g) (auto simp: gen_concat_Cons gen_app_def split: option.splits)

lemma has_magic_star [simp]: "has_magic ''**''"
  by (simp add: has_magic_def)

lemma expand_literal_step:
  assumes "literal seg" and "lstat fs p = Some NDir"
  shows "rest \<noteq> [] \<Longrightarrow> lstat fs (p @ [seg]) = Some NDir \<Longrightarrow>
      expand_parts fs p (seg # rest) = expand_parts fs (p @ [seg]) rest"
    and "regular_file fs (p @ [seg]) \<Longrightarrow> expand_parts fs p [seg] = ([p @ [seg]], None)"
proof -
  have seg: "seg \<noteq> ''**''" "candidates fs p seg = [p @ [seg]]"
    using assms(1) by (auto simp: literal_def candidates_def path_child_def)
  have ty: "ensure_entry_type fs p = Inr NDir" using assms(2) by (simp add: ensure_entry_type_def)
  show "rest \<noteq> [] \<Longrightarrow> lstat fs (p @ [seg]) = Some NDir \<Longrightarrow>
      expand_parts fs p (seg # rest) = expand_parts fs (p @ [seg]) rest"
    using seg ty assms(2)
    by (simp add: expand_parts.simps(2) [of fs p] is_runtime_ephemeral_socket_def ensure_entry_type_def)
  show "regular_file fs (p @ [seg]) \<Longrightarrow> expand_parts fs p [seg] = ([p @ [seg]], None)"
    using seg ty assms(2)
    by (auto simp: expand_parts.simps(2) [of fs p] is_runtime_ephemeral_socket_def
        ensure_entry_type_def regular_file_def split: option.splits node.splits)
qed

lemma expand_literal:
  assumes "\<forall>w\<in>set ds. literal w" and "tail \<noteq> []"
    and "\<forall>k\<le>length ds. lstat fs (p @ take k ds) = Some NDir"
  shows "expand_parts fs p (ds @ tail) = expand_parts fs (p @ ds) tail"
  using assms
proof (induction ds arbitrary: p)
  case (Cons w ds)
  have p: "lstat fs p = Some NDir" using Cons.prems(3) [rule_format, of 0] by simp
  have c: "lstat fs (p @ [w]) = Some NDir" using Cons.prems(3) [rule_format, of 1] by simp
  have "expand_parts fs p (w # (ds @ tail)) = expand_parts fs (p @ [w]) (ds @ tail)"
    by (rule expand_literal_step(1)) (use Cons.prems p c in auto)
  also have "\<dots> = expand_parts fs ((p @ [w]) @ ds) tail"
  proof (rule Cons.IH)
    show "\<forall>k\<le>length ds. lstat fs ((p @ [w]) @ take k ds) = Some NDir"
      using Cons.prems(3) by (auto dest: spec [of _ "Suc k" for k])
  qed (use Cons.prems in auto)
  finally show ?case by simp
qed simp

section \<open>Matches\<close>

definition clean_path :: "path \<Rightarrow> bool" where
  "clean_path p \<longleftrightarrow> (\<forall>w\<in>set p. w \<noteq> [] \<and> w \<noteq> ''.'' \<and> CHR ''/'' \<notin> set w)"

text \<open>What a file system guarantees of its names.\<close>

definition clean_names :: "files \<Rightarrow> bool" where
  "clean_names fs \<longleftrightarrow> (\<forall>q\<in>fst ` set fs. clean_path q)"

lemma clean_lstat: "clean_names fs \<Longrightarrow> lstat fs p \<noteq> None \<Longrightarrow> clean_path p"
  by (cases "p = []") (auto simp: clean_names_def lstat_def clean_path_def map_of_eq_None_iff)

definition path_text :: "path \<Rightarrow> string" where
  "path_text p = (if p = [] then ''.'' else py_join ''/'' p)"

lemma posix_names_text:
  assumes "clean_path p"
  shows "posix_names (path_text p) = p"
proof (cases "p = []")
  case True
  then show ?thesis by (simp add: path_text_def posix_names_def)
next
  case False
  then show ?thesis
    using join_noslash_root(1) [OF False] assms by (simp add: path_text_def clean_path_def)
qed

lemma path_text_inj: "clean_path p \<Longrightarrow> clean_path q \<Longrightarrow> path_text p = path_text q \<Longrightarrow> p = q"
  using posix_names_text by metis

lemma relative_text_clean:
  assumes "clean_path p"
  shows "relative_text p = Inr (path_text p)"
proof (cases p)
  case (Cons w ws)
  then have "w \<noteq> []" and "CHR ''/'' \<notin> set w" using assms by (auto simp: clean_path_def)
  then have "\<not> is_prefix ''/'' w" by (cases w) auto
  with Cons show ?thesis by (simp add: relative_text_def path_text_def)
qed (simp add: relative_text_def path_text_def)

text \<open>The pairs a match list holds.\<close>

definition matched :: "files \<Rightarrow> string \<times> path \<Rightarrow> bool" where
  "matched fs m \<longleftrightarrow> clean_path (snd m) \<and> fst m = path_text (snd m) \<and> \<not> is_forbidden_relative (fst m)"

lemma update_matched:
  assumes "\<forall>x\<in>set acc. matched fs x" and "matched fs (t, p)"
  shows "set (AList.update t p acc) = insert (t, p) (set acc)"
  using assms
proof (induction acc)
  case (Cons x acc)
  have "x = (t, p)" if "fst x = t"
    using Cons.prems that path_text_inj by (cases x) (auto simp: matched_def)
  with Cons show ?case by (cases x) auto
qed simp

lemma add_match_fold:
  assumes "foldE (add_match fs) acc ps = Inr m" and "clean_names fs" and "\<forall>x\<in>set acc. matched fs x"
  shows "set m = set acc \<union> (\<lambda>p. (path_text p, p)) ` set ps \<and> (\<forall>x\<in>set m. matched fs x)
    \<and> (\<forall>p\<in>set ps. lstat fs p = Some NDir \<or> regular_file fs p)"
  using assms
proof (induction ps arbitrary: acc)
  case (Cons p ps)
  from Cons.prems(1) obtain acc1 where step: "add_match fs acc p = Inr acc1"
    and rest: "foldE (add_match fs) acc1 ps = Inr m" unfolding foldE_Cons_Inr by blast
  from step obtain n where ty: "ensure_entry_type fs p = Inr n"
    unfolding add_match_def bindE_eq_Inr by blast
  note node = ensure_entry_type_Inr [OF ty]
  have cl: "clean_path p" by (rule clean_lstat [OF Cons.prems(2)]) (use node in auto)
  with step ty have acc1: "acc1 = AList.update (path_text p) p acc" and m: "matched fs (path_text p, p)"
    by (auto simp: add_match_def relative_text_clean matched_def split: if_split_asm)
  note upd = update_matched [OF Cons.prems(3) m]
  have "set m = set acc1 \<union> (\<lambda>p. (path_text p, p)) ` set ps \<and> (\<forall>x\<in>set m. matched fs x)
      \<and> (\<forall>p\<in>set ps. lstat fs p = Some NDir \<or> regular_file fs p)"
    by (rule Cons.IH [OF rest Cons.prems(2)]) (use Cons.prems(3) upd acc1 m in auto)
  with upd acc1 node show ?case by auto
qed simp

lemma add_file_fold:
  assumes "foldE (add_file fs) acc ps = Inr m" and "clean_names fs" and "\<forall>x\<in>set acc. matched fs x"
  shows "set m = set acc \<union> (\<lambda>p. (path_text p, p)) ` {p \<in> set ps. regular_file fs p}
    \<and> (\<forall>x\<in>set m. matched fs x)"
  using assms
proof (induction ps arbitrary: acc)
  case (Cons p ps)
  from Cons.prems(1) obtain acc1 where step: "add_file fs acc p = Inr acc1"
    and rest: "foldE (add_file fs) acc1 ps = Inr m" unfolding foldE_Cons_Inr by blast
  from step obtain n where ty: "ensure_entry_type fs p = Inr n"
    unfolding add_file_def bindE_eq_Inr by blast
  note node = ensure_entry_type_Inr [OF ty]
  show ?case
  proof (cases "n = NDir")
    case True
    with step ty have "acc1 = acc" by (simp add: add_file_def)
    moreover have "\<not> regular_file fs p" using node True by (simp add: regular_file_def)
    ultimately show ?thesis using Cons.IH [OF rest Cons.prems(2)] Cons.prems(3) by auto
  next
    case False
    then have reg: "regular_file fs p" using node by blast
    have cl: "clean_path p" by (rule clean_lstat [OF Cons.prems(2)]) (use node in auto)
    with step ty False have acc1: "acc1 = AList.update (path_text p) p acc"
      and m: "matched fs (path_text p, p)"
      by (auto simp: add_file_def relative_text_clean matched_def split: if_split_asm)
    note upd = update_matched [OF Cons.prems(3) m]
    have "set m = set acc1 \<union> (\<lambda>p. (path_text p, p)) ` {p \<in> set ps. regular_file fs p}
        \<and> (\<forall>x\<in>set m. matched fs x)"
      by (rule Cons.IH [OF rest Cons.prems(2)]) (use Cons.prems(3) upd acc1 m in auto)
    with upd acc1 reg show ?thesis by auto
  qed
qed simp

section \<open>The files of one pattern\<close>

lemma expand_pattern_set:
  assumes "expand_pattern fs pat = Inr ms" and "clean_names fs"
  shows "\<exists>c. validate_relative_pattern pat = Inr c \<and> snd (expand_parts fs [] (posix_parts c)) = None
    \<and> set ms = (\<lambda>p. (path_text p, p)) ` set (fst (expand_parts fs [] (posix_parts c)))
    \<and> (\<forall>x\<in>set ms. matched fs x)"
proof -
  from assms(1) obtain c m where c: "validate_relative_pattern pat = Inr c"
    and "consume (add_match fs) [] (expand_parts fs [] (posix_parts c)) = Inr m" and ms: "ms = sort_key fst m"
    unfolding expand_pattern_def bindE_eq_Inr by auto
  then have none: "snd (expand_parts fs [] (posix_parts c)) = None"
    and fold: "foldE (add_match fs) [] (fst (expand_parts fs [] (posix_parts c))) = Inr m"
    by (simp_all add: consume_Inr)
  show ?thesis using c none add_match_fold [OF fold assms(2)] ms by simp
qed

text \<open>The trees of the matches, file by file.\<close>

lemma add_trees_fold:
  assumes "foldE (\<lambda>acc c. consume (add_file fs) acc (safe_tree fs (snd c))) acc found = Inr m"
    and "clean_names fs" and "\<forall>x\<in>set acc. matched fs x"
  shows "set m = set acc \<union> {(path_text q, q) | q c. c \<in> set found \<and> q \<in> set (fst (safe_tree fs (snd c)))
            \<and> regular_file fs q}
    \<and> (\<forall>x\<in>set m. matched fs x) \<and> (\<forall>c\<in>set found. snd (safe_tree fs (snd c)) = None)"
  using assms
proof (induction found arbitrary: acc)
  case (Cons c found)
  from Cons.prems(1) obtain acc1 where step: "consume (add_file fs) acc (safe_tree fs (snd c)) = Inr acc1"
    and rest: "foldE (\<lambda>acc c. consume (add_file fs) acc (safe_tree fs (snd c))) acc1 found = Inr m"
    unfolding foldE_Cons_Inr by blast
  from step have none: "snd (safe_tree fs (snd c)) = None"
    and fold: "foldE (add_file fs) acc (fst (safe_tree fs (snd c))) = Inr acc1"
    by (simp_all add: consume_Inr)
  note here = add_file_fold [OF fold Cons.prems(2,3)]
  note there = Cons.IH [OF rest Cons.prems(2) here [THEN conjunct2]]
  have "set m = set acc
      \<union> (\<lambda>p. (path_text p, p)) ` {p \<in> set (fst (safe_tree fs (snd c))). regular_file fs p}
      \<union> {(path_text q, q) | q c. c \<in> set found \<and> q \<in> set (fst (safe_tree fs (snd c))) \<and> regular_file fs q}"
    using here there by simp
  then have "set m = set acc \<union> {(path_text q, q) | q d. d \<in> set (c # found)
      \<and> q \<in> set (fst (safe_tree fs (snd d))) \<and> regular_file fs q}"
    by (cases c) auto
  with none there show ?case by simp
qed simp

lemma pattern_files_set:
  assumes "expand_pattern_files fs pat = Inr ms" and "clean_names fs"
  shows "\<exists>c. validate_relative_pattern pat = Inr c \<and> snd (expand_parts fs [] (posix_parts c)) = None
    \<and> set ms = {(path_text q, q) | q p. p \<in> set (fst (expand_parts fs [] (posix_parts c)))
                 \<and> q \<in> set (fst (safe_tree fs p)) \<and> regular_file fs q}
    \<and> (\<forall>x\<in>set ms. matched fs x)
    \<and> (\<forall>p\<in>set (fst (expand_parts fs [] (posix_parts c))). snd (safe_tree fs p) = None)"
proof -
  from assms(1) obtain found m where found: "expand_pattern fs pat = Inr found"
    and trees: "foldE (\<lambda>acc c. consume (add_file fs) acc (safe_tree fs (snd c))) [] found = Inr m"
    and ms: "ms = sort_key fst m"
    unfolding expand_pattern_files_def bindE_eq_Inr by auto
  obtain c where c: "validate_relative_pattern pat = Inr c" "snd (expand_parts fs [] (posix_parts c)) = None"
    and set: "set found = (\<lambda>p. (path_text p, p)) ` set (fst (expand_parts fs [] (posix_parts c)))"
    using expand_pattern_set [OF found assms(2)] by blast
  note add = add_trees_fold [OF trees assms(2)]
  have "set m = {(path_text q, q) | q p. p \<in> set (fst (expand_parts fs [] (posix_parts c)))
                 \<and> q \<in> set (fst (safe_tree fs p)) \<and> regular_file fs q}" (is "_ = ?files")
    using add set by auto
  moreover have "set ms = set m" using ms by simp
  ultimately have files: "set ms = ?files" by (rule trans [rotated])
  have ok: "\<forall>x\<in>set ms. matched fs x" using add \<open>set ms = set m\<close> by simp
  have none: "\<forall>p\<in>set (fst (expand_parts fs [] (posix_parts c))). snd (safe_tree fs p) = None"
    using add set by auto
  show ?thesis by (intro exI [of _ c] conjI c files ok none)
qed

section \<open>The selection\<close>

text \<open>What a selection holds, and that it only grows.\<close>

definition selected_ok :: "files \<Rightarrow> selection \<Rightarrow> bool" where
  "selected_ok fs sel \<longleftrightarrow>
     (\<forall>(t, p, cs)\<in>set sel. matched fs (t, p) \<and> real_entry fs p \<and> regular_file fs p)"

definition selects :: "selection \<Rightarrow> string \<Rightarrow> string \<Rightarrow> bool" where
  "selects sel t cls \<longleftrightarrow> (\<exists>p cs. map_of sel t = Some (p, cs) \<and> cls \<in> set cs)"

lemma select_file_selects:
  "selects (select_file cls m acc) t k \<longleftrightarrow> selects acc t k \<or> t = fst m \<and> k = cls"
  by (cases "map_of acc (fst m)")
     (auto simp: selects_def select_file_def map_add_def update_conv' split: option.splits if_split_asm)

lemma select_files_selects:
  "selects (fold (select_file cls) ms acc) t k \<longleftrightarrow> selects acc t k \<or> t \<in> fst ` set ms \<and> k = cls"
  by (induction ms arbitrary: acc) (auto simp: select_file_selects)

lemma select_file_ok:
  assumes "selected_ok fs acc" and "matched fs m" "real_entry fs (snd m)" "regular_file fs (snd m)"
  shows "selected_ok fs (select_file cls m acc)"
proof (cases "map_of acc (fst m)")
  case None
  with assms show ?thesis by (auto simp: selected_ok_def select_file_def)
next
  case (Some pc)
  obtain p cs where pc: "pc = (p, cs)" by (cases pc)
  with Some have "(fst m, p, cs) \<in> set acc" by (simp add: map_of_SomeD)
  then have ok: "matched fs (fst m, p)" "real_entry fs p" "regular_file fs p"
    using assms(1) by (auto simp: selected_ok_def)
  have "set (AList.update (fst m) (p, List.insert cls cs) acc)
      \<subseteq> insert (fst m, p, List.insert cls cs) (set acc)"
    using set_dput_subset [of "fst m"] by (induction acc) auto
  with ok assms(1) Some pc show ?thesis
    by (auto simp: selected_ok_def select_file_def split: prod.splits)
qed

lemma select_files_ok:
  "selected_ok fs acc \<Longrightarrow> \<forall>m\<in>set ms. matched fs m \<and> real_entry fs (snd m) \<and> regular_file fs (snd m) \<Longrightarrow>
     selected_ok fs (fold (select_file cls) ms acc)"
  by (induction ms arbitrary: acc) (auto intro: select_file_ok)

lemma pattern_files_real:
  assumes "expand_pattern_files fs pat = Inr ms" and "clean_names fs" and "m \<in> set ms"
  shows "matched fs m \<and> real_entry fs (snd m) \<and> regular_file fs (snd m)"
proof -
  obtain c where set: "set ms = {(path_text q, q) | q p. p \<in> set (fst (expand_parts fs [] (posix_parts c)))
                 \<and> q \<in> set (fst (safe_tree fs p)) \<and> regular_file fs q}"
    and ok: "\<forall>x\<in>set ms. matched fs x"
    using pattern_files_set [OF assms(1,2)] by blast
  have root: "under_dirs fs []" by (simp add: under_dirs_def)
  from assms(3) set obtain q p where m: "m = (path_text q, q)" and reg: "regular_file fs q"
    and p: "p \<in> set (fst (expand_parts fs [] (posix_parts c)))" and q: "q \<in> set (fst (safe_tree fs p))"
    by blast
  have "real_entry fs q" by (rule safe_tree_sound [OF expand_parts_sound [OF root p] q])
  with assms(3) ok reg m show ?thesis by auto
qed

lemma select_patterns:
  assumes "foldE (select_pattern fs) acc cps = Inr sel" and "clean_names fs" and "selected_ok fs acc"
  shows "selected_ok fs sel \<and> (\<forall>t k. selects acc t k \<longrightarrow> selects sel t k)
    \<and> (\<forall>(cls, pat)\<in>set cps. \<exists>ms. expand_pattern_files fs pat = Inr ms
         \<and> (\<forall>t\<in>fst ` set ms. selects sel t cls))"
  using assms
proof (induction cps arbitrary: acc)
  case (Cons cp cps)
  obtain cls pat where cp: "cp = (cls, pat)" by (cases cp)
  from Cons.prems(1) obtain acc1 where "select_pattern fs acc cp = Inr acc1"
    and rest: "foldE (select_pattern fs) acc1 cps = Inr sel" unfolding foldE_Cons_Inr by blast
  then obtain ms where ms: "expand_pattern_files fs pat = Inr ms" and acc1: "acc1 = fold (select_file cls) ms acc"
    by (auto simp: select_pattern_def bindE_eq_Inr cp)
  have "selected_ok fs acc1"
    unfolding acc1 using pattern_files_real [OF ms Cons.prems(2)] Cons.prems(3)
    by (intro select_files_ok) auto
  note IH = Cons.IH [OF rest Cons.prems(2) this]
  have "\<forall>t\<in>fst ` set ms. selects acc1 t cls" by (simp add: acc1 select_files_selects)
  with IH have "\<forall>t\<in>fst ` set ms. selects sel t cls" by blast
  moreover have "\<forall>t k. selects acc t k \<longrightarrow> selects acc1 t k" by (simp add: acc1 select_files_selects)
  ultimately show ?case using IH ms cp by auto
qed simp

lemma resolve_policy_files:
  assumes "resolve_policy fs dp = Inr pfs" and "clean_names fs"
  shows "f \<in> set pfs \<Longrightarrow> pf_relative f = path_text (pf_path f) \<and> \<not> is_forbidden_relative (pf_relative f)
      \<and> real_entry fs (pf_path f) \<and> regular_file fs (pf_path f)"
    and "(cls, pat) \<in> set (snapshot_patterns dp) \<Longrightarrow> \<exists>ms. expand_pattern_files fs pat = Inr ms
      \<and> (\<forall>t\<in>fst ` set ms. \<exists>f\<in>set pfs. pf_relative f = t \<and> cls \<in> set (pf_classes f))"
proof -
  obtain sel where fold: "foldE (select_pattern fs) [] (snapshot_patterns dp) = Inr sel"
    and pfs: "pfs = map (\<lambda>s. \<lparr>pf_path = fst (snd s), pf_relative = fst s, pf_classes = sort (snd (snd s))\<rparr>)
       (sort_key fst sel)"
    using assms(1) by (auto simp: resolve_policy_def bindE_eq_Inr)
  have "selected_ok fs []" by (simp add: selected_ok_def)
  note sel = select_patterns [OF fold assms(2) this]
  show "f \<in> set pfs \<Longrightarrow> pf_relative f = path_text (pf_path f) \<and> \<not> is_forbidden_relative (pf_relative f)
      \<and> real_entry fs (pf_path f) \<and> regular_file fs (pf_path f)"
    using sel [THEN conjunct1] by (auto simp: pfs selected_ok_def matched_def)
  assume "(cls, pat) \<in> set (snapshot_patterns dp)"
  with sel obtain ms where ms: "expand_pattern_files fs pat = Inr ms" and all: "\<forall>t\<in>fst ` set ms. selects sel t cls"
    by blast
  have "\<exists>f\<in>set pfs. pf_relative f = t \<and> cls \<in> set (pf_classes f)" if t: "selects sel t cls" for t
  proof -
    from t obtain p cs where "map_of sel t = Some (p, cs)" and cls: "cls \<in> set cs"
      by (auto simp: selects_def)
    then have "(t, p, cs) \<in> set (sort_key fst sel)" by (simp add: map_of_SomeD)
    from imageI [OF this, of "\<lambda>s. \<lparr>pf_path = fst (snd s), pf_relative = fst s, pf_classes = sort (snd (snd s))\<rparr>"]
    show ?thesis using cls unfolding pfs by (intro bexI) auto
  qed
  with ms all show "\<exists>ms. expand_pattern_files fs pat = Inr ms
      \<and> (\<forall>t\<in>fst ` set ms. \<exists>f\<in>set pfs. pf_relative f = t \<and> cls \<in> set (pf_classes f))"
    by blast
qed

text \<open>A loaded policy has every mandatory pattern, whatever the instance adds.\<close>

lemma mandatory_patterns_kept:
  assumes "load_data_policy env fs legacy = Inr dp" and "c \<in> set MANDATORY_CLASSES" and "oc_snapshot c"
    and "pat \<in> set (oc_patterns c)"
  shows "(oc_name c, pat) \<in> set (snapshot_patterns dp)"
proof -
  obtain adds where classes: "dp_classes dp = map (\<lambda>c. (oc_name c,
      fromkeys (oc_patterns c @ lookup_patterns adds (oc_name c)))) snapshot_classes"
  proof -
    from assms(1) obtain adds where "\<exists>leg. dp = \<lparr>dp_classes = map (\<lambda>c. (oc_name c,
        fromkeys (oc_patterns c @ lookup_patterns adds (oc_name c)))) snapshot_classes,
        dp_additive = leg\<rparr>"
      unfolding load_data_policy_def bindE_eq_Inr Let_def by blast
    then show thesis by (intro that [of adds]) auto
  qed
  have names: "distinct (map oc_name snapshot_classes)" by code_simp
  have c: "c \<in> set snapshot_classes" using assms(2,3) by (simp add: snapshot_classes_def)
  have "map_of (dp_classes dp) (oc_name c)
      = Some (fromkeys (oc_patterns c @ lookup_patterns adds (oc_name c)))"
    by (rule map_of_is_SomeI) (use names c in \<open>auto simp: classes comp_def\<close>)
  then have "pat \<in> set (lookup_patterns (dp_classes dp) (oc_name c))"
    using assms(4) by (simp add: lookup_patterns_def)
  with c show ?thesis by (auto simp: snapshot_patterns_def)
qed

end
