(* ===== verification/SnapGCSafe.thy ===== *)
theory SnapGCSafe
  imports SnapGC
begin

text \<open>
  What a collection keeps: the scans written as maps over the directory listings, the objects a
  plan refers to, and the files a collection leaves alone.
\<close>

section \<open>Bounded scans\<close>

text \<open>
  Both scans go over the names of a directory: a name that makes a record is counted against a
  bound, any other is noted as unexpected.
\<close>

locale bounded_scan =
  fixes step :: "'r list \<times> path list \<Rightarrow> string \<Rightarrow> ('r list \<times> path list) outcome"
    and record_of :: "string \<Rightarrow> 'r option"
    and path_of :: "string \<Rightarrow> path"
    and bound :: int
    and gl :: gc_limits
    and full :: string
  assumes step_record: "record_of n = Some r \<Longrightarrow>
      step acc n = (if int (length (fst acc)) + 1 > bound then Inl (SnapshotLimitErr full)
                    else Inr (fst acc @ [r], snd acc))"
    and step_other: "record_of n = None \<Longrightarrow>
      step acc n = bindE (note_unexpected gl (snd acc) (path_of n)) (\<lambda>un. Inr (fst acc, un))"
begin

lemma step_Inr:
  "step acc n = Inr acc' \<longleftrightarrow>
     (case record_of n of
        Some r \<Rightarrow> int (length (fst acc)) + 1 \<le> bound \<and> acc' = (fst acc @ [r], snd acc)
      | None \<Rightarrow> int (length (snd acc)) + 1 \<le> gl_max_unexpected gl
          \<and> acc' = (fst acc, snd acc @ [path_of n]))"
proof (cases "record_of n")
  case None
  then show ?thesis
    by (auto simp: step_other [OF None] note_unexpected_def bindE_eq_Inr)
next
  case (Some r)
  then show ?thesis by (auto simp: step_record [OF Some])
qed

text \<open>What a finished scan has found.\<close>

lemma scan_result:
  "foldE step acc names = Inr (rs, un) \<Longrightarrow>
     rs = fst acc @ List.map_filter record_of names
     \<and> un = snd acc @ map path_of (filter (\<lambda>n. record_of n = None) names)"
proof (induction names arbitrary: acc)
  case Nil
  then show ?case by (cases acc) (simp add: List.map_filter_def)
next
  case (Cons n names)
  from Cons.prems obtain acc1 where "step acc n = Inr acc1" and "foldE step acc1 names = Inr (rs, un)"
    unfolding foldE_Cons_Inr by blast
  with Cons.IH show ?case
    by (fastforce simp: step_Inr List.map_filter_def split: option.splits)
qed

text \<open>A scan of names that all make records ends, within the bound.\<close>

lemma scan_records:
  assumes "\<forall>n\<in>set names. record_of n \<noteq> None"
    and "int (length (fst acc) + length names) \<le> bound"
  shows "foldE step acc names = Inr (fst acc @ List.map_filter record_of names, snd acc)"
  using assms
proof (induction names arbitrary: acc)
  case Nil
  then show ?case by (cases acc) (simp add: List.map_filter_def)
next
  case (Cons n names)
  then obtain r where r: "record_of n = Some r" by auto
  with Cons.prems have "step acc n = Inr (fst acc @ [r], snd acc)" by (simp add: step_Inr)
  with Cons.IH [of "(fst acc @ [r], snd acc)"] Cons.prems r show ?case
    by (simp add: List.map_filter_def)
qed

lemma scan_bound:
  assumes "foldE step acc names = Inr (rs, un)" and "int (length (fst acc)) \<le> bound"
  shows "int (length rs) \<le> bound"
proof -
  have "int (length (fst (rs, un))) \<le> bound"
    by (rule foldE_invariant [OF assms(1), where P = "\<lambda>a. int (length (fst a)) \<le> bound"])
       (use assms(2) in \<open>auto simp: step_Inr split: option.splits\<close>)
  then show ?thesis by simp
qed

end

section \<open>Scans of the store\<close>

definition man_of :: "files \<Rightarrow> string \<Rightarrow> man_record option" where
  "man_of fs name =
     (case (manifest_file_name name, lstat fs (SNAPSHOT_STORE @ [''manifests'', name])) of
        (Some h, Some (NFile c m t)) \<Rightarrow>
          Some \<lparr>mr_root = h, mr_path = SNAPSHOT_STORE @ [''manifests'', name], mr_mtime = t,
                mr_size = int (length c)\<rparr>
      | _ \<Rightarrow> None)"

definition obj_of :: "files \<Rightarrow> string \<Rightarrow> string \<Rightarrow> obj_record option" where
  "obj_of fs prefix name =
     (case (hex_string 62 name, lstat fs (OBJECTS @ [''sha256'', prefix, name])) of
        (True, Some (NFile c m t)) \<Rightarrow>
          Some (prefix @ name, OBJECTS @ [''sha256'', prefix, name], int (length c))
      | _ \<Rightarrow> None)"

interpretation man_scan: bounded_scan "scan_manifest_entry fs gl" "man_of fs"
  "\<lambda>n. SNAPSHOT_STORE @ [''manifests'', n]" "gl_max_manifests gl" gl "''max_manifests''"
  for fs gl
  by unfold_locales
     (auto simp: scan_manifest_entry_def man_of_def Let_def split: option.splits node.splits)

interpretation obj_scan: bounded_scan "scan_object_entry fs gl prefix" "obj_of fs prefix"
  "\<lambda>n. OBJECTS @ [''sha256'', prefix, n]" "gl_max_objects gl" gl "''max_objects''"
  for fs gl prefix
  by unfold_locales
     (auto simp: scan_object_entry_def obj_of_def Let_def split: option.splits node.splits bool.splits)

lemma man_of_Some:
  assumes "man_of fs name = Some r"
  shows "name = mr_root r @ ''.json''" "is_digest (mr_root r)"
    "mr_path r = SNAPSHOT_STORE @ [''manifests'', mr_root r @ ''.json'']"
    "\<exists>c m. lstat fs (mr_path r) = Some (NFile c m (mr_mtime r)) \<and> mr_size r = int (length c)"
  using assms
  by (auto simp: man_of_def manifest_file_name_Some split: option.splits node.splits)

lemma obj_of_Some:
  assumes "obj_of fs prefix name = Some ob"
  shows "ob = (prefix @ name, OBJECTS @ [''sha256'', prefix, name], snd (snd ob))"
    "hex_string 62 name"
    "\<exists>c m t. lstat fs (OBJECTS @ [''sha256'', prefix, name]) = Some (NFile c m t)
      \<and> snd (snd ob) = int (length c)"
  using assms by (auto simp: obj_of_def split: option.splits node.splits bool.splits)

lemma hex_stringD: "hex_string n s \<Longrightarrow> length s = n"
  by (simp add: hex_string_def)

text \<open>The records of one prefix directory and of all of them.\<close>

definition prefix_ok :: "files \<Rightarrow> string \<Rightarrow> bool" where
  "prefix_ok fs prefix \<longleftrightarrow>
     hex_string 2 prefix \<and> lstat fs (OBJECTS @ [''sha256'', prefix]) = Some NDir"

definition objects_of :: "files \<Rightarrow> string \<Rightarrow> obj_record list" where
  "objects_of fs prefix =
     (if prefix_ok fs prefix
      then List.map_filter (obj_of fs prefix) (scandir fs (OBJECTS @ [''sha256'', prefix]))
      else [])"

definition all_objects :: "files \<Rightarrow> obj_record list" where
  "all_objects fs = concat (map (objects_of fs) (scandir fs (OBJECTS @ [''sha256''])))"

definition prefix_clean :: "files \<Rightarrow> string \<Rightarrow> bool" where
  "prefix_clean fs prefix \<longleftrightarrow>
     prefix_ok fs prefix
     \<and> (\<forall>n\<in>set (scandir fs (OBJECTS @ [''sha256'', prefix])). obj_of fs prefix n \<noteq> None)"

lemma scan_prefix_result:
  assumes "scan_object_prefix fs gl acc prefix = Inr (rs, un)"
  shows "rs = fst acc @ objects_of fs prefix \<and> (un = [] \<longrightarrow> snd acc = [] \<and> prefix_clean fs prefix)"
proof (cases "prefix_ok fs prefix")
  case True
  with assms obj_scan.scan_result [of fs gl prefix acc _ rs un] show ?thesis
    by (auto simp: scan_object_prefix_def prefix_ok_def objects_of_def prefix_clean_def Let_def
        filter_empty_conv)
next
  case False
  with assms show ?thesis
    by (auto simp: scan_object_prefix_def prefix_ok_def objects_of_def Let_def bindE_eq_Inr
        note_unexpected_def split: if_split_asm)
qed

lemma scan_prefixes_result:
  assumes "foldE (scan_object_prefix fs gl) acc ps = Inr (rs, un)"
  shows "rs = fst acc @ concat (map (objects_of fs) ps)
    \<and> (un = [] \<longrightarrow> snd acc = [] \<and> (\<forall>p\<in>set ps. prefix_clean fs p))"
  using assms
proof (induction ps arbitrary: acc)
  case Nil
  then show ?case by (cases acc) simp
next
  case (Cons p ps)
  from Cons.prems obtain rs1 un1 where
    1: "scan_object_prefix fs gl acc p = Inr (rs1, un1)" and
    2: "foldE (scan_object_prefix fs gl) (rs1, un1) ps = Inr (rs, un)"
    unfolding foldE_Cons_Inr by (metis prod.exhaust)
  from scan_prefix_result [OF 1] Cons.IH [OF 2] show ?case by simp
qed

lemma scan_prefixes_records:
  assumes "\<forall>p\<in>set ps. prefix_clean fs p"
    and "int (length (fst acc) + length (concat (map (objects_of fs) ps))) \<le> gl_max_objects gl"
  shows "foldE (scan_object_prefix fs gl) acc ps
    = Inr (fst acc @ concat (map (objects_of fs) ps), snd acc)"
  using assms
proof (induction ps arbitrary: acc)
  case Nil
  then show ?case by (cases acc) simp
next
  case (Cons p ps)
  let ?names = "scandir fs (OBJECTS @ [''sha256'', p])"
  have clean: "\<forall>n\<in>set ?names. obj_of fs p n \<noteq> None" and ok: "prefix_ok fs p"
    using Cons.prems(1) by (simp_all add: prefix_clean_def)
  have "length (List.map_filter (obj_of fs p) ?names) = length ?names"
    using clean by (simp add: List.map_filter_def filter_id_conv)
  then have "foldE (scan_object_entry fs gl p) acc ?names = Inr (fst acc @ objects_of fs p, snd acc)"
    using Cons.prems(2) ok by (subst obj_scan.scan_records [OF clean]) (auto simp: objects_of_def)
  then have "scan_object_prefix fs gl acc p = Inr (fst acc @ objects_of fs p, snd acc)"
    using ok by (simp add: scan_object_prefix_def prefix_ok_def Let_def)
  with Cons.IH [of "(fst acc @ objects_of fs p, snd acc)"] Cons.prems show ?case by simp
qed

lemma length_scan_bound:
  assumes "foldE (scan_object_prefix fs gl) acc ps = Inr (rs, un)"
    and "int (length (fst acc)) \<le> gl_max_objects gl"
  shows "int (length rs) \<le> gl_max_objects gl"
proof -
  have "int (length (fst (rs, un))) \<le> gl_max_objects gl"
  proof (rule foldE_invariant [OF assms(1), where P = "\<lambda>a. int (length (fst a)) \<le> gl_max_objects gl"])
    fix a p a'
    assume "int (length (fst a)) \<le> gl_max_objects gl" and "scan_object_prefix fs gl a p = Inr a'"
    then show "int (length (fst a')) \<le> gl_max_objects gl"
      by (cases a') (auto simp: scan_object_prefix_def Let_def bindE_eq_Inr split: if_split_asm
          dest: obj_scan.scan_bound)
  qed (rule assms(2))
  then show ?thesis by simp
qed

section \<open>Records and objects of a store\<close>

definition all_records :: "files \<Rightarrow> man_record list" where
  "all_records fs =
     (if lstat fs (SNAPSHOT_STORE @ [''manifests'']) = Some NDir
      then List.map_filter (man_of fs) (scandir fs (SNAPSHOT_STORE @ [''manifests''])) else [])"

definition stored_objects :: "files \<Rightarrow> obj_record list" where
  "stored_objects fs =
     (if lstat fs OBJECTS = Some NDir \<and> lstat fs (OBJECTS @ [''sha256'']) = Some NDir
      then all_objects fs else [])"

lemma require_Inr:
  "require_store_subdirectory fs p = Inr b \<longleftrightarrow>
     (b \<and> lstat fs p = Some NDir) \<or> (\<not> b \<and> lstat fs p = None)"
  by (auto simp: require_store_subdirectory_def split: option.splits node.splits)

lemma scan_manifest_records_result:
  assumes "scan_manifest_records fs gl = Inr (rs, un)"
  shows "rs = all_records fs
    \<and> (un = [] \<and> lstat fs (SNAPSHOT_STORE @ [''manifests'']) = Some NDir \<longrightarrow>
        (\<forall>n\<in>set (scandir fs (SNAPSHOT_STORE @ [''manifests''])). man_of fs n \<noteq> None))"
  using assms man_scan.scan_result [of fs gl "([], [])" _ rs un]
  by (auto simp: scan_manifest_records_def all_records_def bindE_eq_Inr require_Inr filter_empty_conv
      split: if_split_asm)

lemma note_unexpected_Inr: "note_unexpected gl un p = Inr un' \<Longrightarrow> un' = un @ [p]"
  by (simp add: note_unexpected_def split: if_split_asm)

lemma notes_grow:
  assumes "foldE (\<lambda>un t. note_unexpected gl un (f t)) un ts = Inr un'"
  shows "un' = un @ map f ts"
  using assms
proof (induction ts arbitrary: un)
  case (Cons t ts)
  then obtain un1 where "note_unexpected gl un (f t) = Inr un1"
    and "foldE (\<lambda>un t. note_unexpected gl un (f t)) un1 ts = Inr un'"
    unfolding foldE_Cons_Inr by blast
  with Cons.IH note_unexpected_Inr show ?case by fastforce
qed simp

lemma scan_other_entry_grow: "scan_other_entry fs gl un n = Inr un' \<Longrightarrow> \<exists>xs. un' = un @ xs"
  unfolding scan_other_entry_def Let_def
  by (auto split: if_split_asm dest: notes_grow note_unexpected_Inr)

lemma scan_other_grow:
  "foldE (scan_other_entry fs gl) un ns = Inr un' \<Longrightarrow> \<exists>xs. un' = un @ xs"
proof (induction ns arbitrary: un)
  case (Cons n ns)
  then obtain un1 where "scan_other_entry fs gl un n = Inr un1"
    and "foldE (scan_other_entry fs gl) un1 ns = Inr un'"
    unfolding foldE_Cons_Inr by blast
  with Cons.IH scan_other_entry_grow show ?case by (metis append.assoc)
qed simp

lemma scan_object_records_result:
  assumes "scan_object_records fs gl un = Inr (obs, un')"
  shows "obs = stored_objects fs \<and> (un' = [] \<longrightarrow> un = [])
    \<and> (un' = [] \<and> lstat fs OBJECTS = Some NDir \<and> lstat fs (OBJECTS @ [''sha256'']) = Some NDir \<longrightarrow>
        (\<forall>p\<in>set (scandir fs (OBJECTS @ [''sha256''])). prefix_clean fs p))"
proof (cases "lstat fs OBJECTS = Some NDir \<and> lstat fs (OBJECTS @ [''sha256'']) = Some NDir")
  case True
  with assms obtain un1 where
    1: "foldE (scan_object_prefix fs gl) ([], un) (scandir fs (OBJECTS @ [''sha256''])) = Inr (obs, un1)"
    and 2: "foldE (scan_other_entry fs gl) un1 (scandir fs OBJECTS) = Inr un'"
    by (auto simp: scan_object_records_def bindE_eq_Inr require_Inr)
  from scan_prefixes_result [OF 1] scan_other_grow [OF 2] True show ?thesis
    by (auto simp: stored_objects_def all_objects_def)
next
  case False
  with assms have "obs = [] \<and> (\<exists>xs. un' = un @ xs)"
    by (auto simp: scan_object_records_def bindE_eq_Inr require_Inr dest: notes_grow split: if_split_asm)
  with False show ?thesis by (auto simp: stored_objects_def)
qed

lemma all_records_props:
  assumes "r \<in> set (all_records fs)"
  shows "is_digest (mr_root r)"
    "mr_path r = SNAPSHOT_STORE @ [''manifests'', mr_root r @ ''.json'']"
    "\<exists>c m. lstat fs (mr_path r) = Some (NFile c m (mr_mtime r)) \<and> mr_size r = int (length c)"
proof -
  from assms obtain n where "man_of fs n = Some r"
    by (auto simp: all_records_def List.map_filter_def split: if_split_asm)
  from man_of_Some [OF this] show "is_digest (mr_root r)"
    "mr_path r = SNAPSHOT_STORE @ [''manifests'', mr_root r @ ''.json'']"
    "\<exists>c m. lstat fs (mr_path r) = Some (NFile c m (mr_mtime r)) \<and> mr_size r = int (length c)"
    by simp_all
qed

lemma stored_objects_props:
  assumes "ob \<in> set (stored_objects fs)"
  shows "length (fst ob) = 64"
    "fst (snd ob) = OBJECTS @ [''sha256'', take 2 (fst ob), drop 2 (fst ob)]"
    "\<exists>c m t. lstat fs (fst (snd ob)) = Some (NFile c m t) \<and> snd (snd ob) = int (length c)"
    "hex_string 2 (take 2 (fst ob)) \<and> hex_string 62 (drop 2 (fst ob))"
proof -
  from assms obtain prefix n where ob: "obj_of fs prefix n = Some ob" and 2: "hex_string 2 prefix"
    by (auto simp: stored_objects_def all_objects_def objects_of_def prefix_ok_def
        List.map_filter_def split: if_split_asm)
  note props = obj_of_Some [OF ob]
  have fst: "fst ob = prefix @ n" and path: "fst (snd ob) = OBJECTS @ [''sha256'', prefix, n]"
    by (subst props(1), simp)+
  have len: "length prefix = 2" "length n = 62" using hex_stringD 2 props(2) by blast+
  show "length (fst ob) = 64" "fst (snd ob) = OBJECTS @ [''sha256'', take 2 (fst ob), drop 2 (fst ob)]"
    "\<exists>c m t. lstat fs (fst (snd ob)) = Some (NFile c m t) \<and> snd (snd ob) = int (length c)"
    "hex_string 2 (take 2 (fst ob)) \<and> hex_string 62 (drop 2 (fst ob))"
    using fst path len 2 props by simp_all
qed

section \<open>What a plan refers to\<close>

lemma retained_subset:
  assumes "\<not> (\<exists>h\<in>set protected. h \<notin> mr_root ` set records)"
  shows "set (retained_roots n protected records) \<subseteq> mr_root ` set records"
    and "set protected \<subseteq> set (retained_roots n protected records)"
proof -
  have "set (take n (newest_first records)) \<subseteq> set records"
    using set_take_subset [of n "newest_first records"] by (simp add: newest_first_def)
  then show "set (retained_roots n protected records) \<subseteq> mr_root ` set records"
    using assms by (auto simp: retained_roots_def)
qed (auto simp: retained_roots_def)

lemma parse_records_Inr:
  assumes "parse_records env fs records = Inr parsed" and "r \<in> set records"
    and "\<forall>r\<in>set records. mr_path r = pth (mr_root r)"
  shows "\<exists>m. load_manifest_file env fs (mr_path r) = Inr m \<and> map_of parsed (mr_root r) = Some m"
proof -
  let ?f = "\<lambda>r. bindE (as_integrity is_SnapshotError (load_manifest_file env fs (mr_path r)))
                 (\<lambda>m. Inr (mr_root r, m))"
  have map: "map fst parsed = map mr_root (sort_key mr_root records)"
    by (rule mapE_Inr_map [OF assms(1) [unfolded parse_records_def]]) (auto simp: bindE_eq_Inr)
  have "mr_root r \<in> set (map fst parsed)" unfolding map using assms(2) by simp
  then obtain m where m: "map_of parsed (mr_root r) = Some m"
    by (metis map_of_eq_None_iff list.set_map option.exhaust)
  then have "(mr_root r, m) \<in> set parsed" by (rule map_of_SomeD)
  then obtain r' where "r' \<in> set (sort_key mr_root records)" "?f r' = Inr (mr_root r, m)"
    using mapE_Inr_set [OF assms(1) [unfolded parse_records_def]] by blast
  then have "load_manifest_file env fs (mr_path r') = Inr m" "mr_path r' = mr_path r"
    using assms(2,3) by (auto simp: bindE_eq_Inr as_integrity_def split: sum.splits if_split_asm)
  with m show ?thesis by auto
qed

lemma reference_entry_Inr:
  assumes "reference_entry l acc e = Inr acc'"
  shows "set (snd acc') = insert (fe_sha256 e, fe_size e) (set (snd acc))"
proof (cases "map_of (snd acc) (fe_sha256 e)")
  case None
  with assms show ?thesis
    by (auto simp: reference_entry_def Let_def split: if_split_asm)
next
  case (Some previous)
  with assms have "previous = fe_size e" "snd acc' = snd acc"
    by (auto simp: reference_entry_def Let_def split: if_split_asm)
  with map_of_SomeD [OF Some] show ?thesis by auto
qed

lemma reference_entries_Inr:
  "foldE (reference_entry l) acc es = Inr acc' \<Longrightarrow>
     set (snd acc') = set (snd acc) \<union> (\<lambda>e. (fe_sha256 e, fe_size e)) ` set es"
proof (induction es arbitrary: acc)
  case (Cons e es)
  then obtain acc1 where 1: "reference_entry l acc e = Inr acc1"
    and 2: "foldE (reference_entry l) acc1 es = Inr acc'"
    unfolding foldE_Cons_Inr by blast
  from Cons.IH [OF 2] reference_entry_Inr [OF 1] show ?case by simp
qed simp

lemma reference_manifests_Inr:
  assumes "foldE (reference_manifest l) refs ms = Inr refs'"
  shows "set refs' = set refs \<union> (\<Union>m\<in>set ms. (\<lambda>e. (fe_sha256 e, fe_size e)) ` set (mf_files m))"
  using assms
proof (induction ms arbitrary: refs)
  case (Cons m ms)
  then obtain refs1 where 1: "reference_manifest l refs m = Inr refs1"
    and 2: "foldE (reference_manifest l) refs1 ms = Inr refs'"
    unfolding foldE_Cons_Inr by blast
  from 1 have "set refs1 = set refs \<union> (\<lambda>e. (fe_sha256 e, fe_size e)) ` set (mf_files m)"
    by (auto simp: reference_manifest_def bindE_eq_Inr split: if_split_asm
        dest!: reference_entries_Inr)
  with Cons.IH [OF 2] show ?case by auto
qed simp

lemma mapE_all_Inr: "mapE f xs = Inr ys \<Longrightarrow> x \<in> set xs \<Longrightarrow> \<exists>y. f x = Inr y"
  by (induction xs arbitrary: ys) (auto split: sum.splits)

lemma verify_retained_Inr:
  assumes "verify_retained_manifests env fs l ms = Inr referenced"
    and "m \<in> set ms" and "e \<in> set (mf_files m)"
  shows "fe_sha256 e \<in> set referenced \<and> object_ok env fs SNAPSHOT_STORE (fe_sha256 e) (fe_size e)"
proof -
  from assms(1) obtain refs ps where refs: "foldE (reference_manifest l) [] ms = Inr refs"
    and ps: "mapE (\<lambda>r. verify_object env fs SNAPSHOT_STORE (fst r) (snd r)) (sort_key fst refs) = Inr ps"
    and "referenced = map fst refs"
    by (auto simp: verify_retained_manifests_def bindE_eq_Inr)
  moreover have "(fe_sha256 e, fe_size e) \<in> set refs"
    using reference_manifests_Inr [OF refs] assms(2,3) by auto
  ultimately have "fe_sha256 e \<in> set referenced"
    and "\<exists>p. verify_object env fs SNAPSHOT_STORE (fe_sha256 e) (fe_size e) = Inr p"
    using mapE_all_Inr [OF ps, of "(fe_sha256 e, fe_size e)"] by force+
  then show ?thesis by (auto simp only: verify_object_iff)
qed

text \<open>The parts of a plan over a store that is present.\<close>

definition planned ::
  "snap_env \<Rightarrow> files \<Rightarrow> nat \<Rightarrow> string list \<Rightarrow> snap_limits \<Rightarrow> (string \<times> manifest) list
     \<Rightarrow> string list \<Rightarrow> path list \<Rightarrow> gc_plan" where
  "planned env fs n protected l parsed referenced un =
     (let retained = retained_roots n protected (all_records fs);
          drop_records = filter (\<lambda>r. mr_root r \<notin> set retained)
                           (sort_key (\<lambda>r. last (mr_path r)) (all_records fs));
          drop_objects = filter (\<lambda>ob. fst ob \<notin> set referenced) (stored_objects fs) in
      \<lparr>gp_store = SNAPSHOT_STORE, gp_retain = n, gp_protected = protected, gp_retained = retained,
       gp_delete_manifests = map mr_path drop_records,
       gp_delete_objects = map (\<lambda>ob. fst (snd ob)) drop_objects, gp_unexpected = sort un,
       gp_reclaimable = sum_list (map mr_size drop_records)
         + sum_list (map (\<lambda>ob. snd (snd ob)) drop_objects),
       gp_dry_run = True\<rparr>)"

lemma plan_parts:
  assumes "plan_snapshot_gc_locked env fs n protected l gl = Inr plan"
    and "lstat fs [''.silicon''] = Some NDir" and "lstat fs SNAPSHOT_STORE = Some NDir"
  obtains un0 parsed referenced un where
    "scan_manifest_records fs gl = Inr (all_records fs, un0)"
    "\<not> (\<exists>h\<in>set protected. h \<notin> mr_root ` set (all_records fs))"
    "parse_records env fs (all_records fs) = Inr parsed"
    "verify_retained_manifests env fs l
       (map (\<lambda>h. the (map_of parsed h)) (retained_roots n protected (all_records fs))) = Inr referenced"
    "scan_object_records fs gl un0 = Inr (stored_objects fs, un)"
    "plan = planned env fs n protected l parsed referenced un"
proof -
  have store: "canonical_store_if_present fs = Inr (SNAPSHOT_STORE, True)"
    using assms(2,3) by (simp add: canonical_store_if_present_def)
  from assms(1) obtain records un0 parsed referenced objects un where
    1: "scan_manifest_records fs gl = Inr (records, un0)"
    and 2: "\<not> (\<exists>h\<in>set protected. h \<notin> mr_root ` set records)"
    and 3: "parse_records env fs records = Inr parsed"
    and 4: "verify_retained_manifests env fs l
       (map (\<lambda>h. the (map_of parsed h)) (retained_roots n protected records)) = Inr referenced"
    and 5: "scan_object_records fs gl un0 = Inr (objects, un)"
    and 6: "plan = (let retained = retained_roots n protected records;
          drop_records = filter (\<lambda>r. mr_root r \<notin> set retained)
                           (sort_key (\<lambda>r. last (mr_path r)) records);
          drop_objects = filter (\<lambda>ob. fst ob \<notin> set referenced) objects in
      \<lparr>gp_store = SNAPSHOT_STORE, gp_retain = n, gp_protected = protected, gp_retained = retained,
       gp_delete_manifests = map mr_path drop_records,
       gp_delete_objects = map (\<lambda>ob. fst (snd ob)) drop_objects, gp_unexpected = sort un,
       gp_reclaimable = sum_list (map mr_size drop_records)
         + sum_list (map (\<lambda>ob. snd (snd ob)) drop_objects),
       gp_dry_run = True\<rparr>)"
    unfolding plan_snapshot_gc_locked_def store bindE_Inr bindE_eq_Inr raise_if_eq_Inr Let_def
      prod.case if_not_P [of "\<not> True", simplified]
    by (auto simp: bindE_eq_Inr raise_if_eq_Inr)
  have records: "records = all_records fs" using scan_manifest_records_result [OF 1] by simp
  have objects: "objects = stored_objects fs" using scan_object_records_result [OF 5] by simp
  show thesis
    by (rule that [of un0 parsed referenced un])
       (use 1 2 3 4 5 6 in \<open>simp_all add: records objects planned_def\<close>)
qed

end
