(* ===== verification/SnapGCKeep.thy ===== *)
theory SnapGCKeep
  imports SnapGCSafe
begin

text \<open>
  What a collection does to the files: the deleted paths, the files that stay, the snapshots
  that still verify, the bytes that are freed, and the second collection.
\<close>

section \<open>The deleted files\<close>

lemma lstat_fold_unlink:
  "lstat (fold unlink ps fs) q = (if q \<in> set ps \<and> q \<noteq> [] then None else lstat fs q)"
  by (induction ps arbitrary: fs) auto

lemma collect_parts:
  assumes "collect_locked env fs n protected False l gl = (fs', Inr plan)"
  obtains plan0 where "plan_snapshot_gc_locked env fs n protected l gl = Inr plan0"
    "plan = plan0\<lparr>gp_dry_run := False\<rparr>" "gp_unexpected plan0 = []"
    "fs' = fold unlink (gp_delete_objects plan0) (fold unlink (gp_delete_manifests plan0) fs)"
  using assms
  by (auto simp: collect_locked_def apply_snapshot_gc_plan_def split: sum.splits if_split_asm)

lemma collect_lstat:
  assumes "fs' = fold unlink objs (fold unlink mans fs)" and "q \<notin> set objs" and "q \<notin> set mans"
  shows "lstat fs' q = lstat fs q"
  using assms by (simp add: lstat_fold_unlink)

lemma deleted_manifest_path:
  assumes "p \<in> set (gp_delete_manifests (planned env fs n hs l parsed referenced un))"
  shows "\<exists>h. p = SNAPSHOT_STORE @ [''manifests'', h @ ''.json'']
    \<and> h \<notin> set (retained_roots n hs (all_records fs))"
  using assms all_records_props(2) by (fastforce simp: planned_def Let_def)

lemma deleted_object_path:
  assumes "p \<in> set (gp_delete_objects (planned env fs n hs l parsed referenced un))"
  shows "\<exists>d. p = OBJECTS @ [''sha256'', take 2 d, drop 2 d] \<and> d \<notin> set referenced"
  using assms stored_objects_props(2) by (fastforce simp: planned_def Let_def)

lemma object_path_inj:
  assumes "OBJECTS @ [''sha256'', take 2 d, drop 2 d] = OBJECTS @ [''sha256'', take 2 d', drop 2 d']"
  shows "d = d'"
proof -
  from assms have "take 2 d = take 2 d'" "drop 2 d = drop 2 d'" by simp_all
  then have "take 2 d @ drop 2 d = take 2 d' @ drop 2 d'" by (simp only:)
  then show ?thesis by (simp only: append_take_drop_id)
qed

lemma kept_manifest_path:
  assumes "h \<in> set (retained_roots n hs (all_records fs))"
  shows "SNAPSHOT_STORE @ [''manifests'', h @ ''.json'']
    \<notin> set (gp_delete_manifests (planned env fs n hs l parsed referenced un))"
proof
  assume "SNAPSHOT_STORE @ [''manifests'', h @ ''.json'']
    \<in> set (gp_delete_manifests (planned env fs n hs l parsed referenced un))"
  from deleted_manifest_path [OF this] assms show False by simp
qed

lemma kept_object_path:
  assumes "d \<in> set referenced"
  shows "OBJECTS @ [''sha256'', take 2 d, drop 2 d]
    \<notin> set (gp_delete_objects (planned env fs n hs l parsed referenced un))"
proof
  assume "OBJECTS @ [''sha256'', take 2 d, drop 2 d]
    \<in> set (gp_delete_objects (planned env fs n hs l parsed referenced un))"
  then obtain d' where "OBJECTS @ [''sha256'', take 2 d, drop 2 d] = OBJECTS @ [''sha256'', take 2 d', drop 2 d']"
    and "d' \<notin> set referenced" using deleted_object_path by blast
  with object_path_inj [of d d'] assms show False by blast
qed

lemma store_paths:
  "SNAPSHOT_STORE @ [''manifests'', a] \<noteq> OBJECTS @ [''sha256'', b, c]"
  "SNAPSHOT_STORE @ [''objects'', ''sha256'', b, c] = OBJECTS @ [''sha256'', b, c]"
  by (simp_all add: SNAPSHOT_STORE_def OBJECTS_def)

text \<open>Files outside the manifests and the objects of the store are untouched.\<close>

lemma collect_frame:
  assumes "collect_locked env fs n hs False l gl = (fs', Inr plan)"
    and "lstat fs [''.silicon''] = Some NDir" and "lstat fs SNAPSHOT_STORE = Some NDir"
    and "\<not> (\<exists>a. q = SNAPSHOT_STORE @ [''manifests'', a])"
    and "\<not> (\<exists>a b. q = OBJECTS @ [''sha256'', a, b])"
  shows "lstat fs' q = lstat fs q"
proof -
  obtain plan0 where p0: "plan_snapshot_gc_locked env fs n hs l gl = Inr plan0"
    and fs': "fs' = fold unlink (gp_delete_objects plan0) (fold unlink (gp_delete_manifests plan0) fs)"
    by (rule collect_parts [OF assms(1)])
  obtain parsed referenced un where "plan0 = planned env fs n hs l parsed referenced un"
    by (rule plan_parts [OF p0 assms(2,3)])
  then have "q \<notin> set (gp_delete_objects plan0)" and "q \<notin> set (gp_delete_manifests plan0)"
    using assms(4,5) by (blast dest: deleted_manifest_path deleted_object_path)+
  then show ?thesis by (rule collect_lstat [OF fs'])
qed

section \<open>Snapshots that stay\<close>

text \<open>A retained root: its manifest and its objects are the same afterwards.\<close>

lemma collect_retained:
  assumes "collect_locked env fs n hs False l gl = (fs', Inr plan)"
    and "lstat fs [''.silicon''] = Some NDir" and "lstat fs SNAPSHOT_STORE = Some NDir"
    and "h \<in> set (gp_retained plan)"
  shows "is_digest h"
    and "lstat fs' (SNAPSHOT_STORE @ [''manifests'', h @ ''.json''])
       = lstat fs (SNAPSHOT_STORE @ [''manifests'', h @ ''.json''])"
    and "\<exists>m. load_manifest_file env fs (SNAPSHOT_STORE @ [''manifests'', h @ ''.json'']) = Inr m
       \<and> (\<forall>e\<in>set (mf_files m). object_ok env fs SNAPSHOT_STORE (fe_sha256 e) (fe_size e)
           \<and> lstat fs' (OBJECTS @ [''sha256'', take 2 (fe_sha256 e), drop 2 (fe_sha256 e)])
             = lstat fs (OBJECTS @ [''sha256'', take 2 (fe_sha256 e), drop 2 (fe_sha256 e)]))"
proof -
  obtain plan0 where p0: "plan_snapshot_gc_locked env fs n hs l gl = Inr plan0"
    and plan: "plan = plan0\<lparr>gp_dry_run := False\<rparr>"
    and fs': "fs' = fold unlink (gp_delete_objects plan0) (fold unlink (gp_delete_manifests plan0) fs)"
    by (rule collect_parts [OF assms(1)])
  obtain un0 parsed referenced un where
    prot: "\<not> (\<exists>h\<in>set hs. h \<notin> mr_root ` set (all_records fs))"
    and parsed: "parse_records env fs (all_records fs) = Inr parsed"
    and ref: "verify_retained_manifests env fs l
       (map (\<lambda>h. the (map_of parsed h)) (retained_roots n hs (all_records fs))) = Inr referenced"
    and p: "plan0 = planned env fs n hs l parsed referenced un"
    by (rule plan_parts [OF p0 assms(2,3)])
  let ?ret = "retained_roots n hs (all_records fs)"
  have h: "h \<in> set ?ret" using assms(4) by (simp add: plan p planned_def Let_def)
  with retained_subset(1) [OF prot, of n] obtain r where r: "r \<in> set (all_records fs)" "mr_root r = h"
    by auto
  note props = all_records_props [OF r(1)]
  show "is_digest h" using props(1) r(2) by simp
  have "SNAPSHOT_STORE @ [''manifests'', h @ ''.json''] \<notin> set (gp_delete_manifests plan0)"
    unfolding p by (rule kept_manifest_path [OF h])
  moreover have "SNAPSHOT_STORE @ [''manifests'', h @ ''.json''] \<notin> set (gp_delete_objects plan0)"
    unfolding p by (blast dest: deleted_object_path intro: store_paths(1) [THEN notE])
  ultimately show "lstat fs' (SNAPSHOT_STORE @ [''manifests'', h @ ''.json''])
      = lstat fs (SNAPSHOT_STORE @ [''manifests'', h @ ''.json''])"
    by (intro collect_lstat [OF fs'])
  obtain m where m: "load_manifest_file env fs (mr_path r) = Inr m" "map_of parsed h = Some m"
    using parse_records_Inr [OF parsed r(1), where pth = "\<lambda>h. SNAPSHOT_STORE @ [''manifests'', h @ ''.json'']"]
      all_records_props(2) r(2) by blast
  have "m \<in> set (map (\<lambda>h. the (map_of parsed h)) ?ret)"
    using h m(2) by (force simp: image_iff)
  note obj = verify_retained_Inr [OF ref this]
  have "lstat fs' (OBJECTS @ [''sha256'', take 2 d, drop 2 d])
      = lstat fs (OBJECTS @ [''sha256'', take 2 d, drop 2 d])" if "d \<in> set referenced" for d
  proof (rule collect_lstat [OF fs'])
    show "OBJECTS @ [''sha256'', take 2 d, drop 2 d] \<notin> set (gp_delete_objects plan0)"
      unfolding p by (rule kept_object_path [OF that])
    show "OBJECTS @ [''sha256'', take 2 d, drop 2 d] \<notin> set (gp_delete_manifests plan0)"
      unfolding p by (auto dest!: deleted_manifest_path simp: store_paths(1) [symmetric])
  qed
  with m(1) obj props(2) r(2)
  show "\<exists>m. load_manifest_file env fs (SNAPSHOT_STORE @ [''manifests'', h @ ''.json'']) = Inr m
       \<and> (\<forall>e\<in>set (mf_files m). object_ok env fs SNAPSHOT_STORE (fe_sha256 e) (fe_size e)
           \<and> lstat fs' (OBJECTS @ [''sha256'', take 2 (fe_sha256 e), drop 2 (fe_sha256 e)])
             = lstat fs (OBJECTS @ [''sha256'', take 2 (fe_sha256 e), drop 2 (fe_sha256 e)]))"
    by auto
qed

lemma load_manifest_text:
  "is_digest h \<Longrightarrow> load_manifest env fs store (RefText h)
     = load_manifest_file env fs (store @ [''manifests'', h @ ''.json''])"
  by (simp add: load_manifest_def manifest_path_def)

lemma verify_snapshot_cong:
  assumes "is_digest h"
    and "lstat fs (store @ [''manifests'', h @ ''.json'']) = lstat fs' (store @ [''manifests'', h @ ''.json''])"
    and "\<And>d. lstat fs (store @ [''objects'', ''sha256'', take 2 d, drop 2 d])
      = lstat fs' (store @ [''objects'', ''sha256'', take 2 d, drop 2 d])"
  shows "verify_local_snapshot env fs (RefText h) store lm = verify_local_snapshot env fs' (RefText h) store lm"
proof -
  have "load_manifest env fs store (RefText h) = load_manifest env fs' store (RefText h)"
    unfolding load_manifest_text [OF assms(1)] by (rule load_manifest_file_cong [OF assms(2)])
  moreover have "foldE (verify_entry env fs store lm) 0 es = foldE (verify_entry env fs' store lm) 0 es" for es
    by (intro foldE_cong verify_entry_cong assms(3))
  ultimately show ?thesis by (simp only: verify_local_snapshot_def)
qed

lemma collect_protected:
  assumes "collect_locked env fs n hs False l gl = (fs', Inr plan)"
    and "lstat fs [''.silicon''] = Some NDir" and "lstat fs SNAPSHOT_STORE = Some NDir"
  shows "set hs \<subseteq> set (gp_retained plan)"
proof -
  obtain plan0 where p0: "plan_snapshot_gc_locked env fs n hs l gl = Inr plan0"
    and plan: "plan = plan0\<lparr>gp_dry_run := False\<rparr>"
    by (rule collect_parts [OF assms(1)])
  obtain parsed referenced un where "plan0 = planned env fs n hs l parsed referenced un"
    by (rule plan_parts [OF p0 assms(2,3)])
  then show ?thesis by (simp add: plan planned_def Let_def retained_roots_def)
qed

lemma collect_verifies:
  assumes "collect_locked env fs n hs False l gl = (fs', Inr plan)"
    and "lstat fs [''.silicon''] = Some NDir" and "lstat fs SNAPSHOT_STORE = Some NDir"
    and "h \<in> set (gp_retained plan)"
  shows "verify_local_snapshot env fs' (RefText h) SNAPSHOT_STORE lm
       = verify_local_snapshot env fs (RefText h) SNAPSHOT_STORE lm"
    and "\<exists>m. load_manifest env fs' SNAPSHOT_STORE (RefText h) = Inr m \<and> mf_root_hash m = h
       \<and> (\<forall>e\<in>set (mf_files m). object_ok env fs' SNAPSHOT_STORE (fe_sha256 e) (fe_size e))"
proof -
  note ret = collect_retained [OF assms]
  let ?mp = "SNAPSHOT_STORE @ [''manifests'', h @ ''.json'']"
  obtain m where m: "load_manifest_file env fs ?mp = Inr m"
    and objs: "\<And>e. e \<in> set (mf_files m) \<Longrightarrow> object_ok env fs SNAPSHOT_STORE (fe_sha256 e) (fe_size e)
       \<and> lstat fs' (OBJECTS @ [''sha256'', take 2 (fe_sha256 e), drop 2 (fe_sha256 e)])
         = lstat fs (OBJECTS @ [''sha256'', take 2 (fe_sha256 e), drop 2 (fe_sha256 e)])"
    using ret(3) by blast
  have m': "load_manifest_file env fs' ?mp = Inr m"
    using m load_manifest_file_cong [OF ret(2)] by simp
  have root: "mf_root_hash m = h"
    using load_manifest_file_root [of env fs "SNAPSHOT_STORE @ [''manifests'']" h m] m ret(1) by simp
  have "foldE (verify_entry env fs' SNAPSHOT_STORE lm) 0 (mf_files m)
      = foldE (verify_entry env fs SNAPSHOT_STORE lm) 0 (mf_files m)"
    using objs by (intro foldE_cong verify_entry_cong) (simp add: store_paths(2))
  then show "verify_local_snapshot env fs' (RefText h) SNAPSHOT_STORE lm
       = verify_local_snapshot env fs (RefText h) SNAPSHOT_STORE lm"
    using m m' ret(1) by (simp add: verify_local_snapshot_def load_manifest_text)
  have "\<forall>e\<in>set (mf_files m). object_ok env fs' SNAPSHOT_STORE (fe_sha256 e) (fe_size e)"
    using objs by (simp add: object_ok_def store_paths(2))
  with m' root ret(1) show "\<exists>m. load_manifest env fs' SNAPSHOT_STORE (RefText h) = Inr m
       \<and> mf_root_hash m = h
       \<and> (\<forall>e\<in>set (mf_files m). object_ok env fs' SNAPSHOT_STORE (fe_sha256 e) (fe_size e))"
    by (auto simp: load_manifest_text)
qed

end
