(* ===== verification/SnapGCAgain.thy ===== *)
theory SnapGCAgain
  imports SnapGCKeep
begin

text \<open>
  The bytes a collection frees and the second collection: a store that has been collected is
  scanned as its retained part and nothing more is deleted.
\<close>

section \<open>Bytes\<close>

fun node_bytes :: "node \<Rightarrow> int" where
  "node_bytes (NFile c m t) = int (length c)"
| "node_bytes n = 0"

definition file_bytes :: "files \<Rightarrow> int" where
  "file_bytes fs = sum_list (map (\<lambda>e. node_bytes (snd e)) fs)"

lemma unlink_keys: "distinct (map fst fs) \<Longrightarrow> distinct (map fst (unlink p fs))"
  by (simp add: unlink_def distinct_delete)

lemma file_bytes_unlink:
  assumes "distinct (map fst fs)" and "map_of fs p = Some n"
  shows "file_bytes fs = node_bytes n + file_bytes (unlink p fs)"
  using assms
proof (induction fs)
  case (Cons e fs)
  show ?case
  proof (cases "fst e = p")
    case True
    with Cons.prems have "p \<notin> fst ` set fs" "snd e = n" by (auto split: if_split_asm)
    then show ?thesis
      using True by (simp add: file_bytes_def unlink_def delete_idem)
  next
    case False
    with Cons show ?thesis by (cases e) (simp add: file_bytes_def unlink_def)
  qed
qed simp

lemma file_bytes_fold_unlink:
  assumes "distinct (map fst fs)" and "distinct ps" and "[] \<notin> set ps"
    and "\<And>p. p \<in> set ps \<Longrightarrow> \<exists>n. lstat fs p = Some n \<and> node_bytes n = f p"
  shows "file_bytes fs = sum_list (map f ps) + file_bytes (fold unlink ps fs)"
  using assms
proof (induction ps arbitrary: fs)
  case (Cons p ps)
  then obtain n where n: "map_of fs p = Some n" "node_bytes n = f p" by (force simp: lstat_def)
  have "file_bytes (unlink p fs) = sum_list (map f ps) + file_bytes (fold unlink ps (unlink p fs))"
  proof (rule Cons.IH)
    fix q assume q: "q \<in> set ps"
    then have "q \<noteq> p" using Cons.prems(2) by auto
    with Cons.prems(4) [of q] q show "\<exists>n. lstat (unlink p fs) q = Some n \<and> node_bytes n = f q"
      by simp
  qed (use Cons.prems in \<open>simp_all add: unlink_keys\<close>)
  with file_bytes_unlink [OF Cons.prems(1) n(1)] n(2) show ?case by simp
qed simp

lemma map_filter_key:
  assumes "\<And>n r. f n = Some r \<Longrightarrow> g r = h n"
  shows "map g (List.map_filter f ns) = map h (filter (\<lambda>n. f n \<noteq> None) ns)"
  by (induction ns) (auto simp: List.map_filter_def assms)

lemma distinct_map_filter_key:
  assumes key: "\<And>n r. f n = Some r \<Longrightarrow> g r = h n" and "inj h" and "distinct ns"
  shows "distinct (map g (List.map_filter f ns))"
proof -
  have "map g (List.map_filter f ns) = map h (filter (\<lambda>n. f n \<noteq> None) ns)"
    by (rule map_filter_key) (rule key)
  moreover have "distinct (map h (filter (\<lambda>n. f n \<noteq> None) ns))"
    using assms(2,3) by (simp add: distinct_map inj_on_def)
  ultimately show ?thesis by (simp only:)
qed

lemma man_of_path: "man_of fs n = Some r \<Longrightarrow> mr_path r = SNAPSHOT_STORE @ [''manifests'', n]"
  by (simp add: man_of_Some(3)) (simp add: man_of_Some(1) [symmetric])

lemma distinct_records: "distinct (map mr_path (all_records fs))"
  unfolding all_records_def
  by (auto intro!: distinct_map_filter_key [where h = "\<lambda>n. SNAPSHOT_STORE @ [''manifests'', n]"]
      simp: sorted_scandir inj_def dest: man_of_path simp del: distinct_map)

lemma obj_of_path: "obj_of fs p n = Some ob \<Longrightarrow> fst (snd ob) = OBJECTS @ [''sha256'', p, n]"
  by (subst obj_of_Some(1), assumption) simp

lemma distinct_objects: "distinct (map (\<lambda>ob. fst (snd ob)) (stored_objects fs))"
proof -
  let ?path = "\<lambda>ob :: obj_record. fst (snd ob)"
  have one: "distinct (map ?path (objects_of fs p))" for p
    unfolding objects_of_def
    by (auto intro!: distinct_map_filter_key [where h = "\<lambda>n. OBJECTS @ [''sha256'', p, n]"]
        simp: sorted_scandir inj_def dest!: obj_of_path simp del: distinct_map)
  have at: "\<exists>n. q = OBJECTS @ [''sha256'', p, n]" if "q \<in> ?path ` set (objects_of fs p)" for p q
  proof -
    from that obtain n ob where "obj_of fs p n = Some ob" "q = ?path ob"
      by (auto simp: objects_of_def List.map_filter_def simp del: split_paired_Ex split: if_split_asm)
    with obj_of_path show ?thesis by blast
  qed
  have "distinct (map (\<lambda>ob. fst (snd ob)) (concat (map (objects_of fs) ps)))" if "distinct ps" for ps
    using that
  proof (induction ps)
    case (Cons p ps)
    have "set (map (\<lambda>ob. fst (snd ob)) (objects_of fs p))
        \<inter> set (map (\<lambda>ob. fst (snd ob)) (concat (map (objects_of fs) ps))) = {}"
    proof (rule ccontr)
      assume "\<not> ?thesis"
      then obtain q p' where q: "q \<in> ?path ` set (objects_of fs p)"
        and p': "p' \<in> set ps" "q \<in> ?path ` set (objects_of fs p')"
        by auto
      from at [OF q] at [OF p'(2)] have "p = p'" by auto
      with p'(1) Cons.prems show False by simp
    qed
    with Cons one [of p] show ?case by (simp only: map_append list.map concat.simps distinct_append distinct.simps)
  qed simp
  then show ?thesis by (simp add: stored_objects_def all_objects_def sorted_scandir)
qed

text \<open>What the plan calls reclaimable is what the deletion frees.\<close>

lemma collect_bytes:
  assumes "collect_locked env fs n hs False l gl = (fs', Inr plan)"
    and "lstat fs [''.silicon''] = Some NDir" and "lstat fs SNAPSHOT_STORE = Some NDir"
    and "distinct (map fst fs)"
  shows "file_bytes fs = gp_reclaimable plan + file_bytes fs'"
proof -
  obtain plan0 where p0: "plan_snapshot_gc_locked env fs n hs l gl = Inr plan0"
    and plan: "plan = plan0\<lparr>gp_dry_run := False\<rparr>"
    and fs': "fs' = fold unlink (gp_delete_objects plan0) (fold unlink (gp_delete_manifests plan0) fs)"
    by (rule collect_parts [OF assms(1)])
  obtain un0 parsed referenced un where p: "plan0 = planned env fs n hs l parsed referenced un"
    by (rule plan_parts [OF p0 assms(2,3)])
  define rs where "rs = filter (\<lambda>r. mr_root r \<notin> set (retained_roots n hs (all_records fs)))
    (sort_key (\<lambda>r. last (mr_path r)) (all_records fs))"
  define obs where "obs = filter (\<lambda>ob. fst ob \<notin> set referenced) (stored_objects fs)"
  let ?f = "\<lambda>p. case lstat fs p of Some n \<Rightarrow> node_bytes n | None \<Rightarrow> 0"
  have parts: "gp_delete_manifests plan0 = map mr_path rs"
    "gp_delete_objects plan0 = map (\<lambda>ob. fst (snd ob)) obs"
    "gp_reclaimable plan = sum_list (map mr_size rs) + sum_list (map (\<lambda>ob. snd (snd ob)) obs)"
    by (simp_all add: plan p planned_def Let_def rs_def obs_def)
  have rs: "\<exists>c m. lstat fs (mr_path r) = Some (NFile c m (mr_mtime r)) \<and> mr_size r = int (length c)"
    and rsp: "mr_path r = SNAPSHOT_STORE @ [''manifests'', mr_root r @ ''.json'']" if "r \<in> set rs" for r
    using that all_records_props(2,3) [of r fs] by (simp_all add: rs_def)
  have obs: "\<exists>c m t. lstat fs (fst (snd ob)) = Some (NFile c m t) \<and> snd (snd ob) = int (length c)"
    and obsp: "fst (snd ob) = OBJECTS @ [''sha256'', take 2 (fst ob), drop 2 (fst ob)]"
    if "ob \<in> set obs" for ob
    using that stored_objects_props(2,3) [of ob fs] by (simp_all add: obs_def del: split_paired_Ex)
  let ?fs1 = "fold unlink (map mr_path rs) fs"
  have "file_bytes fs = sum_list (map ?f (map mr_path rs)) + file_bytes ?fs1"
  proof (rule file_bytes_fold_unlink [OF assms(4)])
    show "distinct (map mr_path rs)"
    proof -
      have "distinct (map mr_path (sort_key (\<lambda>r. last (mr_path r)) (all_records fs)))"
        using distinct_records [of fs] by (simp add: distinct_map)
      then show ?thesis unfolding rs_def by (rule distinct_map_filter)
    qed
    fix p assume "p \<in> set (map mr_path rs)"
    then obtain r where "r \<in> set rs" "p = mr_path r" by auto
    with rs [of r] show "\<exists>n. lstat fs p = Some n \<and> node_bytes n = ?f p" by auto
  qed (use rsp in \<open>auto simp: SNAPSHOT_STORE_def\<close>)
  moreover have size1: "?f (mr_path r) = mr_size r" if "r \<in> set rs" for r
    using rs [OF that] by auto
  have eq1: "map ?f (map mr_path rs) = map mr_size rs" by (simp add: size1)
  moreover have keys: "distinct (map fst (fold unlink ps fs))" for ps
    using assms(4) by (induction ps arbitrary: fs) (simp_all add: unlink_keys)
  have "file_bytes ?fs1 = sum_list (map ?f (map (\<lambda>ob. fst (snd ob)) obs)) + file_bytes fs'"
    unfolding fs' parts
  proof (rule file_bytes_fold_unlink [OF keys])
    show "distinct (map (\<lambda>ob. fst (snd ob)) obs)"
      unfolding obs_def by (rule distinct_map_filter) (rule distinct_objects)
    fix p assume "p \<in> set (map (\<lambda>ob. fst (snd ob)) obs)"
    then obtain ob where ob: "ob \<in> set obs" "p = fst (snd ob)" by auto
    then have "p \<notin> set (map mr_path rs)" using obsp rsp store_paths(1) by fastforce
    then show "\<exists>n. lstat ?fs1 p = Some n \<and> node_bytes n = ?f p"
      using obs [OF ob(1)] ob(2) by (auto simp: lstat_fold_unlink)
  qed (use obsp in \<open>auto simp: OBJECTS_def SNAPSHOT_STORE_def\<close>)
  moreover have size2: "?f (fst (snd ob)) = snd (snd ob)" if "ob \<in> set obs" for ob
    using obs [OF that] by auto
  have eq2: "map ?f (map (\<lambda>ob. fst (snd ob)) obs) = map (\<lambda>ob. snd (snd ob)) obs"
    by (simp add: size2 del: split_paired_All)
  ultimately show ?thesis unfolding eq1 eq2 parts(3) by simp
qed

section \<open>The second collection\<close>

lemma map_filter_keep:
  assumes "\<forall>n\<in>set ns. \<exists>r. f n = Some r \<and> (K n \<longleftrightarrow> P r) \<and> (K n \<longrightarrow> f' n = f n)"
  shows "List.map_filter f' (filter K ns) = filter P (List.map_filter f ns)"
  using assms by (induction ns) (auto simp: List.map_filter_def)

lemma mapE_cong:
  assumes "\<And>x. x \<in> set xs \<Longrightarrow> f x = g x"
  shows "mapE f xs = mapE g xs"
  using assms
proof (induction xs)
  case (Cons x xs)
  then show ?case by (auto split: sum.splits)
qed simp

text \<open>Taking the first records of a sorted list that keeps them.\<close>

lemma take_filter_sort:
  assumes "\<And>r. r \<in> set (take n (sort_key f rs)) \<Longrightarrow> P r"
  shows "take n (sort_key f (filter P rs)) = take n (sort_key f rs)"
proof -
  let ?xs = "sort_key f rs"
  have "sort_key f (filter P rs) = filter P ?xs" by (simp add: filter_sort)
  also have "\<dots> = filter P (take n ?xs) @ filter P (drop n ?xs)"
    by (simp only: filter_append [symmetric] append_take_drop_id)
  also have "filter P (take n ?xs) = take n ?xs" using assms by (intro filter_True) simp
  finally show ?thesis by (cases "n \<le> length ?xs") simp_all
qed

lemma retained_roots_again:
  "retained_roots n hs (filter (\<lambda>r. mr_root r \<in> set (retained_roots n hs rs)) rs) = retained_roots n hs rs"
proof -
  have "take n (newest_first (filter (\<lambda>r. mr_root r \<in> set (retained_roots n hs rs)) rs))
      = take n (newest_first rs)"
    unfolding newest_first_def
    by (rule take_filter_sort) (auto simp: retained_roots_def newest_first_def)
  then show ?thesis unfolding retained_roots_def by simp
qed

text \<open>Two states of the files, the second with exactly the unreferenced part deleted.\<close>

definition collected ::
  "files \<Rightarrow> files \<Rightarrow> string list \<Rightarrow> string list \<Rightarrow> bool" where
  "collected fs fs' retained referenced \<longleftrightarrow>
     (\<forall>q. lstat fs' q =
        (if (\<exists>r\<in>set (all_records fs). q = mr_path r \<and> mr_root r \<notin> set retained)
            \<or> (\<exists>ob\<in>set (stored_objects fs). q = fst (snd ob) \<and> fst ob \<notin> set referenced)
         then None else lstat fs q))"

lemma collected_other:
  assumes "collected fs fs' retained referenced"
    and "\<And>a. q \<noteq> SNAPSHOT_STORE @ [''manifests'', a]"
    and "\<And>a b. q \<noteq> OBJECTS @ [''sha256'', a, b]"
  shows "lstat fs' q = lstat fs q"
proof -
  have "q \<noteq> mr_path r" if "r \<in> set (all_records fs)" for r
    using all_records_props(2) [OF that] assms(2) by simp
  moreover have "q \<noteq> fst (snd ob)" if "ob \<in> set (stored_objects fs)" for ob
    using stored_objects_props(2) [OF that] assms(3) by simp
  ultimately show ?thesis using assms(1) unfolding collected_def by auto
qed

lemma record_not_object:
  assumes "r \<in> set (all_records fs)" and "ob \<in> set (stored_objects fs)"
  shows "mr_path r \<noteq> fst (snd ob)"
  using all_records_props(2) [OF assms(1)] stored_objects_props(2) [OF assms(2)]
  by (simp add: SNAPSHOT_STORE_def OBJECTS_def)

lemma collected_manifest:
  assumes "collected fs fs' retained referenced" and "r \<in> set (all_records fs)"
  shows "lstat fs' (mr_path r) = (if mr_root r \<in> set retained then lstat fs (mr_path r) else None)"
proof -
  have "mr_root r' = mr_root r" if "r' \<in> set (all_records fs)" "mr_path r = mr_path r'" for r'
    using that all_records_props(2) [OF assms(2)] all_records_props(2) [OF that(1)] by simp
  moreover note record_not_object [OF assms(2)]
  ultimately have "(\<exists>r'\<in>set (all_records fs). mr_path r = mr_path r' \<and> mr_root r' \<notin> set retained)
      \<or> (\<exists>ob\<in>set (stored_objects fs). mr_path r = fst (snd ob) \<and> fst ob \<notin> set referenced)
    \<longleftrightarrow> mr_root r \<notin> set retained"
    using assms(2) by metis
  then show ?thesis using assms(1) unfolding collected_def by presburger
qed

lemma collected_object:
  assumes "collected fs fs' retained referenced" and "ob \<in> set (stored_objects fs)"
  shows "lstat fs' (fst (snd ob)) = (if fst ob \<in> set referenced then lstat fs (fst (snd ob)) else None)"
proof -
  have "fst ob' = fst ob" if "ob' \<in> set (stored_objects fs)" "fst (snd ob) = fst (snd ob')" for ob'
  proof (rule object_path_inj)
    show "OBJECTS @ [''sha256'', take 2 (fst ob'), drop 2 (fst ob')]
        = OBJECTS @ [''sha256'', take 2 (fst ob), drop 2 (fst ob)]"
      unfolding stored_objects_props(2) [OF assms(2), symmetric]
        stored_objects_props(2) [OF that(1), symmetric] by (rule that(2) [symmetric])
  qed
  moreover have "fst (snd ob) \<noteq> mr_path r" if "r \<in> set (all_records fs)" for r
    using record_not_object [OF that assms(2)] by simp
  ultimately have "(\<exists>r\<in>set (all_records fs). fst (snd ob) = mr_path r \<and> mr_root r \<notin> set retained)
      \<or> (\<exists>ob'\<in>set (stored_objects fs). fst (snd ob) = fst (snd ob') \<and> fst ob' \<notin> set referenced)
    \<longleftrightarrow> fst ob \<notin> set referenced"
    using assms(2) by metis
  then show ?thesis using assms(1) unfolding collected_def by presburger
qed

lemma collected_dirs:
  assumes "collected fs fs' retained referenced"
  shows "lstat fs' [''.silicon''] = lstat fs [''.silicon'']"
    "lstat fs' SNAPSHOT_STORE = lstat fs SNAPSHOT_STORE"
    "lstat fs' (SNAPSHOT_STORE @ [''manifests'']) = lstat fs (SNAPSHOT_STORE @ [''manifests''])"
    "lstat fs' OBJECTS = lstat fs OBJECTS"
    "lstat fs' (OBJECTS @ [n]) = lstat fs (OBJECTS @ [n])"
    "lstat fs' (OBJECTS @ [n, t]) = lstat fs (OBJECTS @ [n, t])"
  by (rule collected_other [OF assms]; simp add: SNAPSHOT_STORE_def OBJECTS_def)+

lemma collect_collected:
  assumes "plan = planned env fs n hs l parsed referenced un"
    and "fs' = fold unlink (gp_delete_objects plan) (fold unlink (gp_delete_manifests plan) fs)"
  shows "collected fs fs' (retained_roots n hs (all_records fs)) referenced"
proof -
  have "p \<noteq> []" if "p \<in> mr_path ` set (all_records fs) \<union> (\<lambda>ob. fst (snd ob)) ` set (stored_objects fs)" for p
    using that all_records_props(2) stored_objects_props(2)
    by (fastforce simp: OBJECTS_def SNAPSHOT_STORE_def simp del: split_paired_Ex split_paired_All)
  then show ?thesis
    unfolding collected_def assms
    by (auto simp: planned_def Let_def lstat_fold_unlink simp del: split_paired_Ex split_paired_All)
qed

text \<open>The listings of a collected store.\<close>

lemma all_records_again:
  assumes c: "collected fs fs' retained referenced"
    and clean: "lstat fs (SNAPSHOT_STORE @ [''manifests'']) = Some NDir \<Longrightarrow>
      \<forall>n\<in>set (scandir fs (SNAPSHOT_STORE @ [''manifests''])). man_of fs n \<noteq> None"
  shows "all_records fs' = filter (\<lambda>r. mr_root r \<in> set retained) (all_records fs)"
    and "lstat fs' (SNAPSHOT_STORE @ [''manifests'']) = Some NDir \<Longrightarrow>
      \<forall>n\<in>set (scandir fs' (SNAPSHOT_STORE @ [''manifests''])). man_of fs' n \<noteq> None"
proof -
  let ?d = "SNAPSHOT_STORE @ [''manifests'']"
  let ?K = "\<lambda>n. lstat fs' (?d @ [n]) \<noteq> None"
  have dir: "lstat fs' ?d = lstat fs ?d" by (rule collected_dirs(3) [OF c])
  have rec: "\<exists>r. man_of fs n = Some r \<and> (?K n \<longleftrightarrow> mr_root r \<in> set retained)
      \<and> (?K n \<longrightarrow> man_of fs' n = man_of fs n)"
    if d: "lstat fs ?d = Some NDir" and n: "n \<in> set (scandir fs ?d)" for n
  proof -
    obtain r where r: "man_of fs n = Some r" using clean [OF d] n by auto
    then have "r \<in> set (all_records fs)"
      using d n by (force simp: all_records_def List.map_filter_def)
    from collected_manifest [OF c this] all_records_props(3) [OF this]
    have "lstat fs' (mr_path r) = (if mr_root r \<in> set retained then lstat fs (mr_path r) else None)"
      and "lstat fs (mr_path r) \<noteq> None" by auto
    moreover have "mr_path r = ?d @ [n]" using man_of_path [OF r] by simp
    ultimately have K: "?K n \<longleftrightarrow> mr_root r \<in> set retained"
      and "?K n \<longrightarrow> lstat fs' (?d @ [n]) = lstat fs (?d @ [n])" by (simp_all split: if_splits)
    then have "?K n \<longrightarrow> man_of fs' n = man_of fs n" by (auto simp: man_of_def)
    with r K show ?thesis by blast
  qed
  have names: "scandir fs' ?d = filter ?K (scandir fs ?d)" if "lstat fs ?d = Some NDir"
  proof (rule scandir_filter)
    fix n
    have "lstat fs (?d @ [n]) \<noteq> None" if "lstat fs' (?d @ [n]) \<noteq> None"
      using that c unfolding collected_def by metis
    then show "lstat fs' (?d @ [n]) \<noteq> None \<longleftrightarrow> lstat fs (?d @ [n]) \<noteq> None \<and> ?K n" by blast
  qed
  show "all_records fs' = filter (\<lambda>r. mr_root r \<in> set retained) (all_records fs)"
  proof (cases "lstat fs ?d = Some NDir")
    case True
    have "List.map_filter (man_of fs') (filter ?K (scandir fs ?d))
        = filter (\<lambda>r. mr_root r \<in> set retained) (List.map_filter (man_of fs) (scandir fs ?d))"
      by (rule map_filter_keep) (use rec [OF True] in blast)
    with True dir names [OF True] show ?thesis by (simp add: all_records_def)
  qed (use dir in \<open>simp add: all_records_def\<close>)
  show "\<forall>n\<in>set (scandir fs' ?d). man_of fs' n \<noteq> None" if "lstat fs' ?d = Some NDir"
    using names rec that dir by fastforce
qed

lemma objects_again:
  assumes c: "collected fs fs' retained referenced"
    and d: "lstat fs OBJECTS = Some NDir" "lstat fs (OBJECTS @ [''sha256'']) = Some NDir"
    and p: "p \<in> set (scandir fs (OBJECTS @ [''sha256'']))" and clean: "prefix_clean fs p"
  shows "objects_of fs' p = filter (\<lambda>ob. fst ob \<in> set referenced) (objects_of fs p)"
    and "prefix_clean fs' p"
proof -
  let ?d = "OBJECTS @ [''sha256'', p]"
  let ?K = "\<lambda>n. lstat fs' (?d @ [n]) \<noteq> None"
  have ok: "prefix_ok fs p" using clean by (simp add: prefix_clean_def)
  then have ok': "prefix_ok fs' p" by (simp add: prefix_ok_def collected_dirs(6) [OF c])
  have rec: "\<exists>ob. obj_of fs p n = Some ob \<and> (?K n \<longleftrightarrow> fst ob \<in> set referenced)
      \<and> (?K n \<longrightarrow> obj_of fs' p n = obj_of fs p n)" if n: "n \<in> set (scandir fs ?d)" for n
  proof -
    obtain ob where ob: "obj_of fs p n = Some ob" using clean n by (auto simp: prefix_clean_def)
    then have "ob \<in> set (objects_of fs p)"
      using ok n by (force simp: objects_of_def List.map_filter_def simp del: split_paired_Ex)
    then have "ob \<in> set (stored_objects fs)"
      using d p by (auto simp: stored_objects_def all_objects_def)
    from collected_object [OF c this] stored_objects_props(3) [OF this]
    have "lstat fs' (fst (snd ob)) = (if fst ob \<in> set referenced then lstat fs (fst (snd ob)) else None)"
      and "lstat fs (fst (snd ob)) \<noteq> None" by auto
    moreover have "fst (snd ob) = ?d @ [n]" using obj_of_path [OF ob] by simp
    ultimately have K: "?K n \<longleftrightarrow> fst ob \<in> set referenced"
      and "?K n \<longrightarrow> lstat fs' (?d @ [n]) = lstat fs (?d @ [n])" by (simp_all split: if_splits)
    then have "?K n \<longrightarrow> obj_of fs' p n = obj_of fs p n" by (auto simp: obj_of_def)
    with ob K show ?thesis by blast
  qed
  have names: "scandir fs' ?d = filter ?K (scandir fs ?d)"
  proof (rule scandir_filter)
    fix n
    have "lstat fs (?d @ [n]) \<noteq> None" if "lstat fs' (?d @ [n]) \<noteq> None"
      using that c unfolding collected_def by metis
    then show "lstat fs' (?d @ [n]) \<noteq> None \<longleftrightarrow> lstat fs (?d @ [n]) \<noteq> None \<and> ?K n" by blast
  qed
  have "List.map_filter (obj_of fs' p) (filter ?K (scandir fs ?d))
      = filter (\<lambda>ob. fst ob \<in> set referenced) (List.map_filter (obj_of fs p) (scandir fs ?d))"
    by (rule map_filter_keep) (use rec in blast)
  then show "objects_of fs' p = filter (\<lambda>ob. fst ob \<in> set referenced) (objects_of fs p)"
    using ok ok' by (simp only: objects_of_def if_True names)
  show "prefix_clean fs' p"
    unfolding prefix_clean_def names using ok' rec by fastforce
qed

lemma filter_concat_map:
  "(\<And>p. p \<in> set ps \<Longrightarrow> g p = filter P (f p)) \<Longrightarrow> concat (map g ps) = filter P (concat (map f ps))"
  by (induction ps) auto

lemma other_again:
  assumes c: "collected fs fs' retained referenced"
  shows "scandir fs' OBJECTS = scandir fs OBJECTS"
    "scandir fs' (OBJECTS @ [''sha256'']) = scandir fs (OBJECTS @ [''sha256''])"
    "scan_other_entry fs' gl un n = scan_other_entry fs gl un n"
proof -
  show "scandir fs' OBJECTS = scandir fs OBJECTS"
    by (rule scandir_cong) (simp add: collected_dirs(5) [OF c])
  have two: "scandir fs' (OBJECTS @ [a]) = scandir fs (OBJECTS @ [a])" for a
    by (rule scandir_cong) (simp add: collected_dirs(6) [OF c])
  then show "scandir fs' (OBJECTS @ [''sha256'']) = scandir fs (OBJECTS @ [''sha256''])" .
  show "scan_other_entry fs' gl un n = scan_other_entry fs gl un n"
    by (simp only: scan_other_entry_def Let_def two collected_dirs(5) [OF c])
qed

lemma scan_objects_again:
  assumes c: "collected fs fs' retained referenced"
    and scan: "scan_object_records fs gl [] = Inr (stored_objects fs, [])"
    and bound: "0 \<le> gl_max_objects gl"
  shows "scan_object_records fs' gl [] = Inr (stored_objects fs', [])"
    and "stored_objects fs' = filter (\<lambda>ob. fst ob \<in> set referenced) (stored_objects fs)"
proof -
  note dirs = collected_dirs(4,5) [OF c]
  let ?ps = "scandir fs (OBJECTS @ [''sha256''])"
  have "scan_object_records fs' gl [] = Inr (stored_objects fs', [])
      \<and> stored_objects fs' = filter (\<lambda>ob. fst ob \<in> set referenced) (stored_objects fs)"
  proof (cases "lstat fs OBJECTS = Some NDir \<and> lstat fs (OBJECTS @ [''sha256'']) = Some NDir")
    case False
    then have empty: "stored_objects fs = []" "stored_objects fs' = []"
      unfolding stored_objects_def dirs by (simp_all only: if_False)
    from scan False have "scan_object_records fs' gl [] = scan_object_records fs gl []"
      unfolding scan_object_records_def require_store_subdirectory_def dirs other_again [OF c]
      by (auto split: option.splits node.splits)
    with scan empty show ?thesis by simp
  next
    case True
    from scan True obtain un1 where
      1: "foldE (scan_object_prefix fs gl) ([], []) ?ps = Inr (stored_objects fs, un1)" and
      2: "foldE (scan_other_entry fs gl) un1 (scandir fs OBJECTS) = Inr []"
      by (auto simp: scan_object_records_def bindE_eq_Inr require_Inr)
    have un1: "un1 = []" using scan_other_grow [OF 2] by simp
    have clean: "\<forall>p\<in>set ?ps. prefix_clean fs p" using scan_prefixes_result [OF 1] un1 by simp
    have objs: "stored_objects fs' = filter (\<lambda>ob. fst ob \<in> set referenced) (stored_objects fs)"
      using True clean unfolding stored_objects_def all_objects_def dirs other_again [OF c]
      by (simp add: filter_concat_map [OF objects_again(1) [OF c]])
    have "foldE (scan_object_prefix fs' gl) ([], []) ?ps = Inr (stored_objects fs', [])"
    proof -
      have eq: "concat (map (objects_of fs') ?ps) = stored_objects fs'"
        using True by (simp add: stored_objects_def all_objects_def dirs other_again [OF c])
      have "length (stored_objects fs') \<le> length (stored_objects fs)" by (simp add: objs)
      then have "int (length (stored_objects fs')) \<le> gl_max_objects gl"
        using length_scan_bound [OF 1] bound by simp
      then show ?thesis
        using scan_prefixes_records [of ?ps fs' "([], [])" gl] clean True objects_again(2) [OF c]
        by (simp add: eq)
    qed
    moreover have "foldE (scan_other_entry fs' gl) [] (scandir fs OBJECTS) = Inr []"
      using 2 un1 foldE_cong [of _ "scan_other_entry fs' gl" "scan_other_entry fs gl"] other_again(3) [OF c]
      by simp
    ultimately show ?thesis
      using True objs by (simp add: scan_object_records_def require_store_subdirectory_def dirs
          other_again [OF c])
  qed
  then show "scan_object_records fs' gl [] = Inr (stored_objects fs', [])"
    and "stored_objects fs' = filter (\<lambda>ob. fst ob \<in> set referenced) (stored_objects fs)" by simp_all
qed

lemma scan_manifests_again:
  assumes c: "collected fs fs' retained referenced"
    and scan: "scan_manifest_records fs gl = Inr (all_records fs, [])"
    and bound: "0 \<le> gl_max_manifests gl"
  shows "scan_manifest_records fs' gl = Inr (all_records fs', [])"
proof -
  let ?d = "SNAPSHOT_STORE @ [''manifests'']"
  have clean: "\<forall>n\<in>set (scandir fs ?d). man_of fs n \<noteq> None" if "lstat fs ?d = Some NDir"
    using scan_manifest_records_result [OF scan] that by simp
  note again = all_records_again [OF c clean]
  note dir = collected_dirs(3) [OF c]
  show ?thesis
  proof (cases "lstat fs ?d = Some NDir")
    case True
    from scan True have fs: "foldE (scan_manifest_entry fs gl) ([], []) (scandir fs ?d)
        = Inr (all_records fs, [])"
      by (auto simp: scan_manifest_records_def bindE_eq_Inr require_Inr)
    have all': "all_records fs' = List.map_filter (man_of fs') (scandir fs' ?d)"
      and clean': "\<forall>n\<in>set (scandir fs' ?d). man_of fs' n \<noteq> None"
      using True dir again(2) by (simp_all add: all_records_def)
    have "length (scandir fs' ?d) = length (all_records fs')"
      unfolding all' using clean' by (simp add: List.map_filter_def filter_id_conv)
    also have "\<dots> \<le> length (all_records fs)" by (simp add: again(1))
    finally have "int (length (scandir fs' ?d)) \<le> gl_max_manifests gl"
      using man_scan.scan_bound [OF fs] bound by simp
    then have "foldE (scan_manifest_entry fs' gl) ([], []) (scandir fs' ?d) = Inr (all_records fs', [])"
      using man_scan.scan_records [OF clean', of "([], [])" gl] by (simp add: all')
    then show ?thesis
      using True dir by (simp add: scan_manifest_records_def require_store_subdirectory_def)
  next
    case False
    with scan have "lstat fs ?d = None"
      by (auto simp: scan_manifest_records_def bindE_eq_Inr require_Inr)
    then show ?thesis
      using dir by (simp add: scan_manifest_records_def require_store_subdirectory_def all_records_def)
  qed
qed

lemma parse_again:
  assumes parsed: "parse_records env fs records = Inr parsed"
    and path: "\<forall>r\<in>set records. mr_path r = pth (mr_root r)"
    and same: "\<And>r. r \<in> set records \<Longrightarrow> P r \<Longrightarrow> lstat fs' (mr_path r) = lstat fs (mr_path r)"
  shows "\<exists>parsed'. parse_records env fs' (filter P records) = Inr parsed'
    \<and> (\<forall>r\<in>set records. P r \<longrightarrow> map_of parsed' (mr_root r) = map_of parsed (mr_root r))"
proof -
  let ?rs = "sort_key mr_root (filter P records)"
  let ?g = "\<lambda>r. (mr_root r, the (map_of parsed (mr_root r)))"
  have "parse_records env fs' (filter P records) = Inr (map ?g ?rs)"
    unfolding parse_records_def
  proof (rule mapE_cong_Inr)
    fix r assume "r \<in> set ?rs"
    then have r: "r \<in> set records" "P r" by simp_all
    from parse_records_Inr [OF parsed r(1) path] obtain m where
      m: "load_manifest_file env fs (mr_path r) = Inr m" "map_of parsed (mr_root r) = Some m" by blast
    have "load_manifest_file env fs' (mr_path r) = Inr m"
      using m(1) load_manifest_file_cong [OF same [OF r]] by simp
    with m(2) show "bindE (as_integrity is_SnapshotError (load_manifest_file env fs' (mr_path r)))
        (\<lambda>m. Inr (mr_root r, m)) = Inr (?g r)"
      by (simp add: as_integrity_def)
  qed
  moreover have "map_of (map ?g ?rs) (mr_root r) = map_of parsed (mr_root r)"
    if "r \<in> set records" "P r" for r
  proof -
    have "map_of (map ?g ?rs) (mr_root r) = Some (the (map_of parsed (mr_root r)))"
    proof -
      have "mr_root r \<in> fst ` set (map ?g ?rs)" using that by force
      then obtain m where "map_of (map ?g ?rs) (mr_root r) = Some m"
        by (metis map_of_eq_None_iff option.exhaust)
      with map_of_SomeD [OF this] show ?thesis by auto
    qed
    then show ?thesis using parse_records_Inr [OF parsed that(1) path] by auto
  qed
  ultimately show ?thesis by blast
qed

lemma collect_again:
  assumes run: "collect_locked env fs n hs False l gl = (fs', Inr plan)"
    and store: "lstat fs [''.silicon''] = Some NDir" "lstat fs SNAPSHOT_STORE = Some NDir"
    and gl: "validate_gc_limits gl = Inr u"
  shows "\<exists>plan2. collect_locked env fs' n hs False l gl = (fs', Inr plan2)
    \<and> gp_retained plan2 = gp_retained plan \<and> gp_delete_manifests plan2 = []
    \<and> gp_delete_objects plan2 = [] \<and> gp_reclaimable plan2 = 0"
proof -
  obtain plan0 where p0: "plan_snapshot_gc_locked env fs n hs l gl = Inr plan0"
    and plan: "plan = plan0\<lparr>gp_dry_run := False\<rparr>" and clean: "gp_unexpected plan0 = []"
    and fs': "fs' = fold unlink (gp_delete_objects plan0) (fold unlink (gp_delete_manifests plan0) fs)"
    by (rule collect_parts [OF run])
  obtain un0 parsed referenced un where
    sm: "scan_manifest_records fs gl = Inr (all_records fs, un0)"
    and prot: "\<not> (\<exists>h\<in>set hs. h \<notin> mr_root ` set (all_records fs))"
    and parsed: "parse_records env fs (all_records fs) = Inr parsed"
    and ref: "verify_retained_manifests env fs l
       (map (\<lambda>h. the (map_of parsed h)) (retained_roots n hs (all_records fs))) = Inr referenced"
    and so: "scan_object_records fs gl un0 = Inr (stored_objects fs, un)"
    and p: "plan0 = planned env fs n hs l parsed referenced un"
    by (rule plan_parts [OF p0 store])
  define ret where "ret = retained_roots n hs (all_records fs)"
  have "un = []" using clean length_sort [of "\<lambda>x. x" un] by (simp add: p planned_def Let_def)
  with scan_object_records_result [OF so] have un: "un0 = []" "un = []" by simp_all
  have bounds: "0 \<le> gl_max_manifests gl" "0 \<le> gl_max_objects gl"
    using gl by (simp_all add: validate_gc_limits_def raise_if_eq_Inr)
  have c: "collected fs fs' ret referenced"
    unfolding ret_def by (rule collect_collected [OF p fs'])
  have recs: "all_records fs' = filter (\<lambda>r. mr_root r \<in> set ret) (all_records fs)"
    using all_records_again(1) [OF c] scan_manifest_records_result [OF sm] un by simp
  have ret': "retained_roots n hs (all_records fs') = ret"
    unfolding recs ret_def by (rule retained_roots_again)
  obtain parsed' where parsed': "parse_records env fs' (all_records fs') = Inr parsed'"
    and same: "\<And>r. r \<in> set (all_records fs) \<Longrightarrow> mr_root r \<in> set ret \<Longrightarrow>
      map_of parsed' (mr_root r) = map_of parsed (mr_root r)"
    using parse_again [OF parsed, of "\<lambda>h. SNAPSHOT_STORE @ [''manifests'', h @ ''.json'']"
        "\<lambda>r. mr_root r \<in> set ret" fs'] all_records_props(2) collected_manifest [OF c] recs
    by auto
  have in_ret: "set ret \<subseteq> mr_root ` set (all_records fs)" "set hs \<subseteq> set ret"
    using retained_subset [OF prot, of n] by (simp_all add: ret_def)
  have maps: "map (\<lambda>h. the (map_of parsed' h)) ret = map (\<lambda>h. the (map_of parsed h)) ret"
  proof (rule map_cong [OF refl])
    fix h assume h: "h \<in> set ret"
    with in_ret(1) obtain r where "r \<in> set (all_records fs)" "mr_root r = h" by auto
    with same [of r] h show "the (map_of parsed' h) = the (map_of parsed h)" by simp
  qed
  have "verify_retained_manifests env fs' l (map (\<lambda>h. the (map_of parsed h)) ret) = Inr referenced"
  proof -
    let ?ms = "map (\<lambda>h. the (map_of parsed h)) ret"
    obtain refs ps where refs: "foldE (reference_manifest l) [] ?ms = Inr refs"
      and ps: "mapE (\<lambda>r. verify_object env fs SNAPSHOT_STORE (fst r) (snd r)) (sort_key fst refs) = Inr ps"
      and rd: "referenced = map fst refs"
      using ref by (auto simp: verify_retained_manifests_def bindE_eq_Inr ret_def)
    have "mapE (\<lambda>r. verify_object env fs' SNAPSHOT_STORE (fst r) (snd r)) (sort_key fst refs) = Inr ps"
      unfolding ps [symmetric]
    proof (rule mapE_cong)
      fix r assume "r \<in> set (sort_key fst refs)"
      then have d: "fst r \<in> set referenced" by (simp add: rd)
      have "lstat fs' (OBJECTS @ [''sha256'', take 2 (fst r), drop 2 (fst r)])
          = lstat fs (OBJECTS @ [''sha256'', take 2 (fst r), drop 2 (fst r)])"
      proof (rule collect_lstat [OF fs'])
        show "OBJECTS @ [''sha256'', take 2 (fst r), drop 2 (fst r)] \<notin> set (gp_delete_objects plan0)"
          unfolding p by (rule kept_object_path [OF d])
        show "OBJECTS @ [''sha256'', take 2 (fst r), drop 2 (fst r)] \<notin> set (gp_delete_manifests plan0)"
          unfolding p by (auto dest!: deleted_manifest_path simp: store_paths(1) [symmetric])
      qed
      then show "verify_object env fs' SNAPSHOT_STORE (fst r) (snd r)
          = verify_object env fs SNAPSHOT_STORE (fst r) (snd r)"
        by (intro object_read_cong(1)) (simp only: store_paths(2))
    qed
    with refs rd show ?thesis by (simp add: verify_retained_manifests_def)
  qed
  then have ver: "verify_retained_manifests env fs' l
      (map (\<lambda>h. the (map_of parsed' h)) (retained_roots n hs (all_records fs'))) = Inr referenced"
    by (simp add: ret' maps)
  have prot': "\<not> (\<exists>h\<in>set hs. h \<notin> mr_root ` set (all_records fs'))"
    using in_ret unfolding recs by auto
  note objs = scan_objects_again [OF c so [unfolded un] bounds(2)]
  have store': "canonical_store_if_present fs' = Inr (SNAPSHOT_STORE, True)"
    using store by (simp add: canonical_store_if_present_def collected_dirs [OF c])
  have "plan_snapshot_gc_locked env fs' n hs l gl = Inr (planned env fs' n hs l parsed' referenced [])"
    unfolding plan_snapshot_gc_locked_def planned_def Let_def
    using store' scan_manifests_again [OF c sm [unfolded un] bounds(1)] prot' parsed' ver objs(1)
    by (simp add: raise_if_def)
  moreover have parts: "gp_retained (planned env fs' n hs l parsed' referenced []) = ret"
    "gp_delete_manifests (planned env fs' n hs l parsed' referenced []) = []"
    "gp_delete_objects (planned env fs' n hs l parsed' referenced []) = []"
    "gp_unexpected (planned env fs' n hs l parsed' referenced []) = []"
    "gp_reclaimable (planned env fs' n hs l parsed' referenced []) = 0"
    unfolding planned_def Let_def ret'
    by (simp_all add: recs objs(2) filter_sort [symmetric] filter_empty_conv del: split_paired_All)
  moreover have "gp_retained plan = ret" by (simp add: plan p planned_def Let_def ret_def)
  ultimately show ?thesis
    by (simp add: collect_locked_def apply_snapshot_gc_plan_def)
qed

end
