(* ===== verification/SnapForeign.thy ===== *)
theory SnapForeign
  imports SnapGCSafe
begin

text \<open>
  Entries of the snapshot store that are none of its own, said of the files alone, and why a
  collection that meets one deletes nothing.
\<close>

section \<open>Foreign entries\<close>

text \<open>
  The layout of a store: \<open>manifests\<close> holds regular files named by a root hash, \<open>objects\<close>
  holds the directory \<open>sha256\<close> of directories named by two hexadecimal digits, which hold
  regular files named by the other 62, and a directory \<open>.tmp\<close> that is empty between writes.
  An entry that exists beside this layout is foreign.
\<close>

definition hex_name :: "nat \<Rightarrow> string \<Rightarrow> bool" where
  "hex_name n s \<longleftrightarrow> length s = n \<and> set s \<subseteq> set ''0123456789abcdef''"

inductive foreign :: "files \<Rightarrow> path \<Rightarrow> bool" for fs where
  in_manifests: "foreign fs [''.silicon'', ''snapshots'', ''manifests'', n]"
    if "\<nexists>h c m t. hex_name 64 h \<and> n = h @ ''.json''
      \<and> lstat fs [''.silicon'', ''snapshots'', ''manifests'', n] = Some (NFile c m t)"
| in_objects: "foreign fs [''.silicon'', ''snapshots'', ''objects'', n]"
    if "n \<noteq> ''sha256''" and "n \<noteq> ''.tmp''
      \<or> lstat fs [''.silicon'', ''snapshots'', ''objects'', n] \<noteq> Some NDir"
| in_tmp: "foreign fs [''.silicon'', ''snapshots'', ''objects'', ''.tmp'', n]"
| in_sha256: "foreign fs [''.silicon'', ''snapshots'', ''objects'', ''sha256'', n]"
    if "\<not> hex_name 2 n
      \<or> lstat fs [''.silicon'', ''snapshots'', ''objects'', ''sha256'', n] \<noteq> Some NDir"
| in_prefix: "foreign fs [''.silicon'', ''snapshots'', ''objects'', ''sha256'', d, n]"
    if "\<nexists>c m t. hex_name 62 n
      \<and> lstat fs [''.silicon'', ''snapshots'', ''objects'', ''sha256'', d, n] = Some (NFile c m t)"

text \<open>An entry that exists, with every directory above it.\<close>

definition entry_at :: "files \<Rightarrow> path \<Rightarrow> bool" where
  "entry_at fs p \<longleftrightarrow> lstat fs p \<noteq> None \<and> (\<forall>k < length p. 0 < k \<longrightarrow> lstat fs (take k p) = Some NDir)"

lemma entry_above: "entry_at fs p \<Longrightarrow> p = q @ x # xs \<Longrightarrow> q \<noteq> [] \<Longrightarrow> lstat fs q = Some NDir"
  by (auto simp: entry_at_def dest: spec [of _ "length q"])

lemma lower_hex_chars:
  "list_all (\<lambda>n. char_of n \<in> set ''0123456789abcdef'') ([48..57] @ [97..102 :: int])"
  by code_simp

lemma is_lower_hex_char: "is_lower_hex c \<Longrightarrow> c \<in> set ''0123456789abcdef''"
proof -
  assume "is_lower_hex c"
  then have "(of_char c :: int) \<in> set ([48..57] @ [97..102])"
    unfolding set_append set_upto by (auto simp: is_lower_hex_def Let_def)
  with lower_hex_chars have "char_of (of_char c :: int) \<in> set ''0123456789abcdef''"
    unfolding list_all_iff by blast
  then show ?thesis by (simp only: char_of_char)
qed

lemma hex_string_name: "hex_string n s \<Longrightarrow> hex_name n s"
  unfolding hex_string_def hex_name_def list_all_iff using is_lower_hex_char by blast

lemma sort_nil [simp]: "sort xs = [] \<longleftrightarrow> xs = []"
  by (metis set_empty set_sort)

lemma notes_nil: "foldE (\<lambda>un t. note_unexpected gl un (f t)) un ts = Inr [] \<Longrightarrow> un = [] \<and> ts = []"
  using notes_grow by fastforce

lemma scan_others_nil:
  assumes "foldE (scan_other_entry fs gl) un ns = Inr []" and "n \<in> set ns"
  shows "n = ''sha256'' \<or> n = ''.tmp'' \<and> lstat fs (OBJECTS @ [n]) = Some NDir
    \<and> scandir fs (OBJECTS @ [n]) = []"
  using assms
proof (induction ns arbitrary: un)
  case (Cons m ns)
  then obtain un1 where 1: "scan_other_entry fs gl un m = Inr un1"
    and 2: "foldE (scan_other_entry fs gl) un1 ns = Inr []"
    unfolding foldE_Cons_Inr by blast
  from scan_other_grow [OF 2] have "un1 = []" by simp
  with 1 have "m = ''sha256'' \<or> m = ''.tmp'' \<and> lstat fs (OBJECTS @ [m]) = Some NDir
      \<and> scandir fs (OBJECTS @ [m]) = []"
    using notes_nil [of gl "\<lambda>t. (OBJECTS @ [m]) @ [t]"] scan_other_entry_grow [OF 1]
      note_unexpected_Inr [of gl un "OBJECTS @ [m]" "[]"]
    unfolding scan_other_entry_def Let_def by (auto simp del: append_assoc split: if_split_asm)
  with Cons.IH [OF 2] Cons.prems(2) show ?case by auto
qed simp

text \<open>A scan that notes nothing has met no foreign entry.\<close>

lemma manifests_clean:
  assumes "scan_manifest_records fs gl = Inr (rs, [])"
    and "lstat fs (SNAPSHOT_STORE @ [''manifests'']) = Some NDir"
    and "lstat fs (SNAPSHOT_STORE @ [''manifests'', n]) \<noteq> None"
  shows "\<exists>h c m t. hex_name 64 h \<and> n = h @ ''.json''
    \<and> lstat fs (SNAPSHOT_STORE @ [''manifests'', n]) = Some (NFile c m t)"
proof -
  have "n \<in> set (scandir fs (SNAPSHOT_STORE @ [''manifests'']))"
    using assms(3) by (simp add: set_scandir)
  with scan_manifest_records_result [OF assms(1)] assms(2) obtain r where "man_of fs n = Some r"
    by auto
  from man_of_Some [OF this] show ?thesis by (auto simp: hex_string_name)
qed

lemma objects_clean:
  assumes "scan_object_records fs gl un = Inr (obs, [])" and "lstat fs OBJECTS = Some NDir"
    and "lstat fs (OBJECTS @ [n]) \<noteq> None"
  shows "n = ''sha256'' \<or> n = ''.tmp'' \<and> lstat fs (OBJECTS @ [n]) = Some NDir
    \<and> scandir fs (OBJECTS @ [n]) = []"
proof -
  have n: "n \<in> set (scandir fs OBJECTS)" using assms(3) by (simp add: set_scandir)
  show ?thesis
  proof (cases "lstat fs (OBJECTS @ [''sha256'']) = Some NDir")
    case True
    with assms(1,2) obtain un1 where "foldE (scan_other_entry fs gl) un1 (scandir fs OBJECTS) = Inr []"
      by (auto simp: scan_object_records_def bindE_eq_Inr require_Inr)
    from scan_others_nil [OF this n] show ?thesis .
  next
    case False
    with assms(1,2) have "foldE (\<lambda>un n. note_unexpected gl un (OBJECTS @ [n])) un (scandir fs OBJECTS)
        = Inr []"
      by (auto simp: scan_object_records_def bindE_eq_Inr require_Inr)
    from notes_nil [OF this] n show ?thesis by simp
  qed
qed

lemma foreign_noted:
  assumes "foreign fs p" and "entry_at fs p"
    and "scan_manifest_records fs gl = Inr (rs, un)" and "scan_object_records fs gl un = Inr (obs, un')"
  shows "un' \<noteq> []"
proof
  assume "un' = []"
  with assms(4) have o: "scan_object_records fs gl un = Inr (obs, [])" by simp
  note res = scan_object_records_result [OF o]
  with assms(3) have m: "scan_manifest_records fs gl = Inr (rs, [])" by simp
  note here = entry_above [OF assms(2)]
  have p: "lstat fs p \<noteq> None" using assms(2) by (simp add: entry_at_def)
  from assms(1) show False
  proof cases
    case (in_manifests n)
    with manifests_clean [OF m, of n] p here [of "[''.silicon'', ''snapshots'', ''manifests'']"]
    show False by (auto simp: SNAPSHOT_STORE_def)
  next
    case (in_objects n)
    with objects_clean [OF o, of n] p here [of "[''.silicon'', ''snapshots'', ''objects'']"]
    show False by (auto simp: OBJECTS_def SNAPSHOT_STORE_def)
  next
    case (in_tmp n)
    with objects_clean [OF o, of "''.tmp''"] here [of "[''.silicon'', ''snapshots'', ''objects'']"]
      here [of "[''.silicon'', ''snapshots'', ''objects'', ''.tmp'']"]
    have "scandir fs (OBJECTS @ [''.tmp'']) = []" by (auto simp: OBJECTS_def SNAPSHOT_STORE_def)
    with in_tmp p set_scandir [of n fs "OBJECTS @ [''.tmp'']"] show False
      by (auto simp: OBJECTS_def SNAPSHOT_STORE_def)
  next
    case (in_sha256 n)
    then have d: "lstat fs OBJECTS = Some NDir" "lstat fs (OBJECTS @ [''sha256'']) = Some NDir"
      using here [of "[''.silicon'', ''snapshots'', ''objects'']"]
        here [of "[''.silicon'', ''snapshots'', ''objects'', ''sha256'']"]
      by (auto simp: OBJECTS_def SNAPSHOT_STORE_def)
    have "n \<in> set (scandir fs (OBJECTS @ [''sha256'']))"
      using in_sha256 p by (simp add: set_scandir OBJECTS_def SNAPSHOT_STORE_def)
    with res d have "prefix_clean fs n" by blast
    with in_sha256 show False
      by (auto simp: prefix_clean_def prefix_ok_def hex_string_name OBJECTS_def SNAPSHOT_STORE_def)
  next
    case (in_prefix n d)
    then have dirs: "lstat fs OBJECTS = Some NDir" "lstat fs (OBJECTS @ [''sha256'']) = Some NDir"
      "lstat fs (OBJECTS @ [''sha256'', d]) = Some NDir"
      using here [of "[''.silicon'', ''snapshots'', ''objects'']"]
        here [of "[''.silicon'', ''snapshots'', ''objects'', ''sha256'']"]
        here [of "[''.silicon'', ''snapshots'', ''objects'', ''sha256'', d]"]
      by (auto simp: OBJECTS_def SNAPSHOT_STORE_def)
    then have "d \<in> set (scandir fs (OBJECTS @ [''sha256'']))" by (simp add: set_scandir)
    with res dirs have "prefix_clean fs d" by blast
    moreover have "n \<in> set (scandir fs (OBJECTS @ [''sha256'', d]))"
      using in_prefix p by (simp add: set_scandir OBJECTS_def SNAPSHOT_STORE_def)
    ultimately obtain ob where "obj_of fs d n = Some ob" by (auto simp: prefix_clean_def)
    from obj_of_Some [OF this] in_prefix show False
      by (auto simp: hex_string_name OBJECTS_def SNAPSHOT_STORE_def)
  qed
qed

lemma foreign_in_store:
  assumes "foreign fs p" and "entry_at fs p"
  shows "canonical_store_if_present fs = Inr (SNAPSHOT_STORE, True)"
  using assms(1) entry_above [OF assms(2), of "[''.silicon'']"]
    entry_above [OF assms(2), of "[''.silicon'', ''snapshots'']"]
  by cases (auto simp: canonical_store_if_present_def SNAPSHOT_STORE_def)

lemma foreign_collect:
  assumes "foreign fs p" and "entry_at fs p"
  shows "\<exists>e. collect_locked env fs n hs False l gl = (fs, Inl e)"
proof (cases "plan_snapshot_gc_locked env fs n hs l gl")
  case (Inr plan)
  then have "gp_unexpected plan \<noteq> []"
    using foreign_noted [OF assms] foreign_in_store [OF assms]
    by (auto simp: plan_snapshot_gc_locked_def bindE_eq_Inr Let_def)
  with Inr show ?thesis by (simp add: collect_locked_def apply_snapshot_gc_plan_def)
qed (simp add: collect_locked_def)

text \<open>Taking the lock changes nothing but the lock file, and keeps the entry foreign.\<close>

lemma lock_keeps:
  assumes "snapshot_store_lock env fs = (fs1, r)" and "lstat fs [''.silicon''] = Some NDir"
    and "q \<noteq> SNAPSHOT_LOCK"
  shows "lstat fs1 q = lstat fs q"
  using assms by (auto simp: snapshot_store_lock_def open_lock_file_def split: option.splits node.splits)

lemma foreign_paths:
  assumes "foreign fs p"
  obtains xs where "p = ''.silicon'' # ''snapshots'' # xs"
  using assms by cases auto

lemma foreign_under_lock:
  assumes "snapshot_store_lock env fs = (fs1, r)" and "foreign fs p" and "entry_at fs p"
  shows "foreign fs1 p \<and> entry_at fs1 p \<and> (\<forall>q. q \<noteq> SNAPSHOT_LOCK \<longrightarrow> lstat fs1 q = lstat fs q)"
proof -
  obtain xs where p: "p = ''.silicon'' # ''snapshots'' # xs" using foreign_paths [OF assms(2)] .
  have "lstat fs [''.silicon''] = Some NDir"
    using entry_above [OF assms(3), of "[''.silicon'']"] p by simp
  note keep = lock_keeps [OF assms(1) this]
  have k: "lstat fs1 (''.silicon'' # ''snapshots'' # ys) = lstat fs (''.silicon'' # ''snapshots'' # ys)"
    for ys by (rule keep) (simp add: SNAPSHOT_LOCK_def)
  have "lstat fs1 (take k p) = lstat fs (take k p)" for k
    by (rule keep) (auto simp: SNAPSHOT_LOCK_def p take_Cons split: nat.splits)
  then have "entry_at fs1 p" using assms(3) k by (simp add: entry_at_def p)
  moreover have "foreign fs1 p" using assms(2)
    by cases (auto simp: k intro: foreign.intros)
  ultimately show ?thesis using keep by blast
qed

end
