(* ===== verification/SnapSpec.thy ===== *)
theory SnapSpec
  imports SnapGCAgain SnapForeign
begin

text \<open>
  The properties of the snapshot store: what a collection keeps, frees and refuses, and what
  the manifests, paths and release floors it works with guarantee.
\<close>

section \<open>The entry points of the collector\<close>

lemma store_lock_frame:
  assumes "snapshot_store_lock env fs = (fs1, Inr u)"
  shows "q \<noteq> [''.silicon''] \<Longrightarrow> q \<noteq> SNAPSHOT_LOCK \<Longrightarrow> lstat fs1 q = lstat fs q"
    and "lstat fs1 [''.silicon''] = Some NDir"
    and "\<exists>c t. lstat fs1 SNAPSHOT_LOCK = Some (NFile c 384 t)"
  using assms
  by (auto simp: snapshot_store_lock_def open_lock_file_def SNAPSHOT_LOCK_def
      split: option.splits node.splits)

lemma set_node_bytes:
  assumes "distinct (map fst fs)"
  shows "file_bytes (set_node p n fs)
    = file_bytes fs + node_bytes n - (case map_of fs p of None \<Rightarrow> 0 | Some n' \<Rightarrow> node_bytes n')"
    and "distinct (map fst (set_node p n fs))"
proof -
  show "file_bytes (set_node p n fs)
    = file_bytes fs + node_bytes n - (case map_of fs p of None \<Rightarrow> 0 | Some n' \<Rightarrow> node_bytes n')"
    using assms
  proof (induction fs)
    case (Cons e fs)
    then show ?case by (cases e) (auto simp: file_bytes_def set_node_def)
  qed (simp add: file_bytes_def set_node_def)
  show "distinct (map fst (set_node p n fs))"
    using assms by (simp add: set_node_def distinct_update)
qed

lemma store_lock_bytes:
  assumes "snapshot_store_lock env fs = (fs1, Inr u)" and "distinct (map fst fs)"
  shows "file_bytes fs1 = file_bytes fs \<and> distinct (map fst fs1)"
  using assms
  by (auto simp: snapshot_store_lock_def open_lock_file_def lstat_def set_node_bytes SNAPSHOT_LOCK_def
      split: option.splits node.splits if_split_asm)

lemma store_lock_again:
  assumes "snapshot_store_lock env fs = (fs1, Inr u)"
    and "lstat fs2 [''.silicon''] = lstat fs1 [''.silicon'']"
    and "lstat fs2 SNAPSHOT_LOCK = lstat fs1 SNAPSHOT_LOCK"
  shows "\<exists>c t. snapshot_store_lock env fs2 = (set_node SNAPSHOT_LOCK (NFile c 384 t) fs2, Inr ())
    \<and> lstat fs2 SNAPSHOT_LOCK = Some (NFile c 384 t)"
  using store_lock_frame(2,3) [OF assms(1)] assms(2,3)
  by (auto simp: snapshot_store_lock_def open_lock_file_def)

lemma normalise_parts:
  assumes "normalise_gc_parameters env retain protected gl = Inr (n, hs, gl')"
  shows "set hs = py_str (se_repr env) ` set protected" and "validate_gc_limits gl' = Inr ()"
    and "\<forall>h\<in>set hs. is_digest h"
proof -
  from assms obtain xs where xs: "mapE (check_root_hash env) protected = Inr xs"
    and hs: "hs = sorted_set xs" and v: "validate_gc_limits gl' = Inr ()"
    by (auto simp: normalise_gc_parameters_def Let_def bindE_eq_Inr split: pyv.splits if_split_asm)
  have "map (\<lambda>x. x) xs = map (py_str (se_repr env)) protected"
    by (rule mapE_Inr_map [OF xs]) (auto simp: check_root_hash_def Let_def split: if_split_asm)
  then show "set hs = py_str (se_repr env) ` set protected" by (simp add: hs)
  show "validate_gc_limits gl' = Inr ()" by (rule v)
  show "\<forall>h\<in>set hs. is_digest h"
  proof
    fix h assume "h \<in> set hs"
    then obtain x where "check_root_hash env x = Inr h" using mapE_Inr_set [OF xs, of h] hs by auto
    then show "is_digest h" by (auto simp: check_root_hash_def Let_def split: if_split_asm)
  qed
qed

text \<open>A collection that returns either finds no store or collects under the lock.\<close>

lemma gc_cases:
  assumes "garbage_collect_snapshots env fs retain protected dry l gl = (fs', Inr plan)"
  obtains (absent) store n where "fs' = fs" "protected = []"
      "plan = \<lparr>gp_store = store, gp_retain = n, gp_protected = [], gp_retained = [],
        gp_delete_manifests = [], gp_delete_objects = [], gp_unexpected = [], gp_reclaimable = 0,
        gp_dry_run = True\<rparr>"
      "canonical_store_if_present fs = Inr (store, False)"
  | (present) n hs l' gl' fs1 u where "normalise_gc_parameters env retain protected gl = Inr (n, hs, gl')"
      "some_limits l = Inr l'" "canonical_store_if_present fs = Inr (SNAPSHOT_STORE, True)"
      "snapshot_store_lock env fs = (fs1, Inr u)"
      "collect_locked env fs1 n hs dry l' gl' = (fs', Inr plan)"
proof -
  from assms obtain n hs gl' l' store present where
    ps: "normalise_gc_parameters env retain protected gl = Inr (n, hs, gl')"
    and l: "some_limits l = Inr l'"
    and st: "canonical_store_if_present fs = Inr (store, present)"
    by (auto simp: garbage_collect_snapshots_def bindE_eq_Inr split: sum.splits)
  show thesis
  proof (cases present)
    case False
    have "protected = []" if "hs = []"
      using normalise_parts(1) [OF ps] that by simp
    then show thesis using assms ps l st False
      by (intro absent) (auto simp: garbage_collect_snapshots_def empty_gc_plan_def split: if_split_asm)
  next
    case True
    then have "store = SNAPSHOT_STORE"
      using st by (auto simp: canonical_store_if_present_def split: option.splits node.splits)
    obtain fs1 r where lock: "snapshot_store_lock env fs = (fs1, r)" by fastforce
    with \<open>store = SNAPSHOT_STORE\<close> show thesis using assms ps l st True
      by (intro present [of n hs gl' l' fs1]) (auto simp: garbage_collect_snapshots_def
          under_store_lock_def split: sum.splits)
  qed
qed

lemma present_dirs:
  assumes "canonical_store_if_present fs = Inr (SNAPSHOT_STORE, True)"
    and "snapshot_store_lock env fs = (fs1, Inr u)"
  shows "lstat fs1 [''.silicon''] = Some NDir" "lstat fs1 SNAPSHOT_STORE = Some NDir"
proof -
  show "lstat fs1 [''.silicon''] = Some NDir" by (rule store_lock_frame(2) [OF assms(2)])
  have "lstat fs1 SNAPSHOT_STORE = lstat fs SNAPSHOT_STORE"
    by (rule store_lock_frame(1) [OF assms(2)]) (simp_all add: SNAPSHOT_STORE_def SNAPSHOT_LOCK_def)
  with assms(1) show "lstat fs1 SNAPSHOT_STORE = Some NDir"
    by (auto simp: canonical_store_if_present_def split: option.splits node.splits)
qed

section \<open>A store for the witnesses\<close>

text \<open>
  Two manifests, the newer with one file, its object, and an object no manifest names. The
  digests of the model instance tell the contents apart.
\<close>

definition dA :: string where "dA = replicate 64 CHR ''a''"
definition dB :: string where "dB = replicate 64 CHR ''b''"
definition dC :: string where "dC = replicate 64 CHR ''c''"
definition dD :: string where "dD = replicate 64 CHR ''d''"

definition dE :: string where "dE = replicate 64 CHR ''e''"

definition floor_w :: "int \<Rightarrow> string \<Rightarrow> dict" where
  "floor_w sq tree =
     [(''schema'', PInt 1), (''sequence'', PInt sq), (''tree_sha256'', PStr tree), (''recorded_at'', PInt 1)]"

definition journal_w :: dict where
  "journal_w =
     [(''schema'', PInt 1), (''transaction_id'', PStr ''t1''), (''state'', PStr ''CREATED''),
      (''created_at'', PInt 1), (''updated_at'', PInt 1),
      (''metadata'', PDict [(''recovery_checkpoint'', PDict [(''root_hash'', PStr dB)])]),
      (''events'', PList [PDict [(''state'', PStr ''CREATED''), (''at'', PInt 1), (''detail'', PStr [])]])]"

definition restore_journal_w :: dict where
  "restore_journal_w =
     [(''schema'', PInt 1), (''root_hash'', PStr dC), (''release_id'', PStr ''r''),
      (''state'', PStr ''APPLYING''), (''operation_count'', PInt 1), (''next_operation'', PInt 0),
      (''created_at'', PFloat 1), (''updated_at'', PFloat 4)]"

definition env_w :: snap_env where
  "env_w =
     \<lparr>se_sha = (\<lambda>s. if s = ''x'' then dA else if s = ''yy'' then dD else if s = ''G'' then dE
               else if py_contains ''path'' s then dC else dB),
      se_loads = (\<lambda>s.
        if s = ''B'' then Some (PDict (manifest_doc
          \<lparr>mf_release_id = ''r'', mf_files = [], mf_tombstones = [], mf_root_hash = dB\<rparr>))
        else if s = ''C'' then Some (PDict (manifest_doc
          \<lparr>mf_release_id = ''r'', mf_files =
             [\<lparr>fe_path = ''p'', fe_sha256 = dA, fe_size = 1, fe_mode = 384, fe_classes = [''k'']\<rparr>],
           mf_tombstones = [], mf_root_hash = dC\<rparr>))
        else if s = ''J'' then Some (PDict journal_w)
        else if s = ''F'' then Some (PDict (floor_w 5 dD))
        else if s = ''G'' then Some (PDict (floor_w 1 dB))
        else if s = ''K'' then Some (PDict (manifest_doc
          \<lparr>mf_release_id = ''r'', mf_files =
             [\<lparr>fe_path = ''./ .silicon/release-sequence-floor.json'', fe_sha256 = dE, fe_size = 1,
               fe_mode = 384, fe_classes = [''k'']\<rparr>],
           mf_tombstones = [], mf_root_hash = dC\<rparr>))
        else if py_contains ''APPLYING'' s then Some (PDict restore_journal_w)
        else None),
      se_repr = (\<lambda>v. []), se_path = (\<lambda>s. [s]), se_clock = (\<lambda>n. of_nat n + 1), se_mtime = 9, se_stamp = ''s''\<rparr>"

definition fs_w :: files where
  "fs_w =
     [([''.silicon''], NDir), (SNAPSHOT_STORE, NDir),
      (SNAPSHOT_STORE @ [''manifests''], NDir),
      (SNAPSHOT_STORE @ [''manifests'', dB @ ''.json''], NFile ''B'' 256 1),
      (SNAPSHOT_STORE @ [''manifests'', dC @ ''.json''], NFile ''C'' 256 2),
      (OBJECTS, NDir), (OBJECTS @ [''sha256''], NDir),
      (OBJECTS @ [''sha256'', ''aa''], NDir),
      (OBJECTS @ [''sha256'', ''aa'', drop 2 dA], NFile ''x'' 256 0),
      (OBJECTS @ [''sha256'', ''dd''], NDir),
      (OBJECTS @ [''sha256'', ''dd'', drop 2 dD], NFile ''yy'' 256 0)]"

lemma collect_w:
  "case garbage_collect_snapshots env_w fs_w (PInt 1) [] False None None of
     (fs', Inr plan) \<Rightarrow> gp_retained plan = [dC] \<and> gp_delete_manifests plan \<noteq> []
       \<and> gp_delete_objects plan \<noteq> [] \<and> gp_reclaimable plan = 3
   | _ \<Rightarrow> False"
  by code_simp

section \<open>Collection\<close>

text \<open>
  C17: A collection keeps every snapshot it retains: the caller's protected roots are among the
  retained ones, and each retained root still has its manifest, with every object it names
  present and intact, and verifies exactly as it did before.
\<close>

theorem gc_retained_snapshots_verify:
  assumes "garbage_collect_snapshots env fs retain protected False l gl = (fs', Inr plan)"
  shows "py_str (se_repr env) ` set protected \<subseteq> set (gp_retained plan)
    \<and> (\<forall>h\<in>set (gp_retained plan).
         verify_local_snapshot env fs' (RefText h) SNAPSHOT_STORE lm
           = verify_local_snapshot env fs (RefText h) SNAPSHOT_STORE lm
         \<and> (\<exists>m. load_manifest env fs' SNAPSHOT_STORE (RefText h) = Inr m \<and> mf_root_hash m = h
             \<and> (\<forall>e\<in>set (mf_files m). object_ok env fs' SNAPSHOT_STORE (fe_sha256 e) (fe_size e))))"
  using assms
proof (cases rule: gc_cases)
  case (present n hs l' gl' fs1 u)
  note dirs = present_dirs [OF present(3,4)]
  have same: "lstat fs1 q = lstat fs q" if "q = SNAPSHOT_STORE @ r" "r \<noteq> []" for q r
    using that by (intro store_lock_frame(1) [OF present(4)])
      (auto simp: SNAPSHOT_STORE_def SNAPSHOT_LOCK_def)
  have "verify_local_snapshot env fs1 (RefText h) SNAPSHOT_STORE lm
      = verify_local_snapshot env fs (RefText h) SNAPSHOT_STORE lm" if "is_digest h" for h
    using that by (intro verify_snapshot_cong) (simp_all add: same)
  then show ?thesis
    using normalise_parts(1) [OF present(1)] collect_protected [OF present(5) dirs]
      collect_verifies [OF present(5) dirs] collect_retained(1) [OF present(5) dirs] by auto
qed simp

lemma collect_w_run:
  "\<exists>fs' plan. garbage_collect_snapshots env_w fs_w (PInt 1) [] False None None = (fs', Inr plan)
    \<and> gp_retained plan = [dC] \<and> gp_delete_manifests plan \<noteq> [] \<and> gp_delete_objects plan \<noteq> []
    \<and> gp_reclaimable plan = 3"
  using collect_w by (auto split: prod.splits sum.splits)

theorem gc_retained_snapshots_verify_witness:
  "\<exists>fs' plan m. garbage_collect_snapshots env_w fs_w (PInt 1) [] False None None = (fs', Inr plan)
    \<and> gp_delete_manifests plan \<noteq> [] \<and> gp_delete_objects plan \<noteq> []
    \<and> load_manifest env_w fs' SNAPSHOT_STORE (RefText dC) = Inr m
    \<and> (\<forall>e\<in>set (mf_files m). object_ok env_w fs' SNAPSHOT_STORE (fe_sha256 e) (fe_size e))"
proof -
  obtain fs' plan where run: "garbage_collect_snapshots env_w fs_w (PInt 1) [] False None None = (fs', Inr plan)"
    and props: "gp_retained plan = [dC]" "gp_delete_manifests plan \<noteq> []" "gp_delete_objects plan \<noteq> []"
    using collect_w_run by blast
  from gc_retained_snapshots_verify [OF run] props show ?thesis using run by auto
qed

text \<open>
  C22: An entry in the directories of the store that is neither a manifest nor an object nor one
  of the directories that hold them (a note, a link, a left-over temporary file, a file under a
  wrong name) makes every collection end in an error, whatever its parameters: both entry points
  refuse, and no file but the lock is changed.
\<close>

theorem gc_foreign_entry_refused:
  assumes "foreign fs p" and "entry_at fs p"
  shows "(\<exists>fs1 e. garbage_collect_snapshots env fs retain protected False l gl = (fs1, Inl e)
      \<and> (\<forall>q. q \<noteq> SNAPSHOT_LOCK \<longrightarrow> lstat fs1 q = lstat fs q))
    \<and> (\<exists>fs1 e. garbage_collect_referenced_snapshots env fs retain protected False l gl = (fs1, Inl e)
      \<and> (\<forall>q. q \<noteq> SNAPSHOT_LOCK \<longrightarrow> lstat fs1 q = lstat fs q))"
proof -
  obtain fs1 r where lock: "snapshot_store_lock env fs = (fs1, r)" by fastforce
  from foreign_under_lock [OF lock assms] have f: "foreign fs1 p" "entry_at fs1 p"
    and same: "\<And>q. q \<noteq> SNAPSHOT_LOCK \<Longrightarrow> lstat fs1 q = lstat fs q" by blast+
  note refused = foreign_collect [OF f]
  have "\<exists>fs2 e. garbage_collect_snapshots env fs retain protected False l gl = (fs2, Inl e)
      \<and> (fs2 = fs \<or> fs2 = fs1)"
    using foreign_in_store [OF assms] lock
    by (auto simp: garbage_collect_snapshots_def under_store_lock_def bindE_def split: sum.splits)
      (use refused in blast)
  moreover have "\<exists>fs2 e. garbage_collect_referenced_snapshots env fs retain protected False l gl
      = (fs2, Inl e) \<and> (fs2 = fs \<or> fs2 = fs1)"
    using foreign_in_store [OF f] lock
    by (auto simp: garbage_collect_referenced_snapshots_def under_store_lock_def bindE_def
        split: sum.splits) (use refused in blast)+
  ultimately show ?thesis using same by fastforce
qed

definition fs_unexpected_w :: files where
  "fs_unexpected_w =
     [([''.silicon''], NDir), (SNAPSHOT_STORE, NDir), (SNAPSHOT_STORE @ [''manifests''], NDir),
      (SNAPSHOT_STORE @ [''manifests'', dB @ ''.json''], NFile ''B'' 256 1),
      (SNAPSHOT_STORE @ [''manifests'', ''note.txt''], NFile ''n'' 256 1)]"

theorem gc_foreign_entry_refused_witness:
  "(\<exists>fs1 e. garbage_collect_snapshots env_w fs_unexpected_w (PInt 0) [] False None None = (fs1, Inl e))
    \<and> lstat fs_unexpected_w (SNAPSHOT_STORE @ [''manifests'', ''note.txt'']) \<noteq> None"
proof -
  let ?p = "[''.silicon'', ''snapshots'', ''manifests'', ''note.txt'']"
  have "foreign fs_unexpected_w ?p"
    by (rule foreign.in_manifests) (auto simp: hex_name_def dest!: arg_cong [where f = length])
  moreover have e: "entry_at fs_unexpected_w ?p"
    by (auto simp: entry_at_def fs_unexpected_w_def lstat_def SNAPSHOT_STORE_def less_Suc_eq
        numeral_eq_Suc)
  ultimately show ?thesis
    using gc_foreign_entry_refused [of fs_unexpected_w ?p env_w "PInt 0" "[]" None None]
    by (auto simp: entry_at_def SNAPSHOT_STORE_def)
qed

lemma update_same: "map_of al k = Some v \<Longrightarrow> AList.update k v al = al"
  by (induction al) (auto split: if_split_asm)

text \<open>
  Collecting again with the same parameters deletes nothing: the second run returns the same
  retained roots, an empty list of deletions, and leaves every file as it is.
\<close>

theorem gc_second_run_deletes_nothing:
  assumes "garbage_collect_snapshots env fs retain protected False l gl = (fs', Inr plan)"
  shows "\<exists>plan2. garbage_collect_snapshots env fs' retain protected False l gl = (fs', Inr plan2)
    \<and> gp_retained plan2 = gp_retained plan \<and> gp_delete_manifests plan2 = []
    \<and> gp_delete_objects plan2 = [] \<and> gp_reclaimable plan2 = 0"
  using assms
proof (cases rule: gc_cases)
  case (absent store n)
  with assms show ?thesis by auto
next
  case (present n hs l' gl' fs1 u)
  note dirs = present_dirs [OF present(3,4)]
  have keep: "lstat fs' q = lstat fs1 q" if "length q = 1 \<or> length q = 2" for q
    using that by (intro collect_frame [OF present(5) dirs]) (auto simp: SNAPSHOT_STORE_def OBJECTS_def)
  obtain c t where lock: "snapshot_store_lock env fs' = (set_node SNAPSHOT_LOCK (NFile c 384 t) fs', Inr ())"
    and node: "lstat fs' SNAPSHOT_LOCK = Some (NFile c 384 t)"
    using store_lock_again [OF present(4) keep keep] by (auto simp: SNAPSHOT_LOCK_def)
  have "set_node SNAPSHOT_LOCK (NFile c 384 t) fs' = fs'"
    using node by (simp add: set_node_def lstat_def SNAPSHOT_LOCK_def update_same)
  then have lock': "snapshot_store_lock env fs' = (fs', Inr ())" using lock by simp
  have store: "canonical_store_if_present fs' = Inr (SNAPSHOT_STORE, True)"
    using dirs keep by (simp add: canonical_store_if_present_def SNAPSHOT_STORE_def)
  obtain plan2 where run2: "collect_locked env fs' n hs False l' gl' = (fs', Inr plan2)"
    and props: "gp_retained plan2 = gp_retained plan" "gp_delete_manifests plan2 = []"
      "gp_delete_objects plan2 = []" "gp_reclaimable plan2 = 0"
    using collect_again [OF present(5) dirs normalise_parts(2) [OF present(1)]] by blast
  have "garbage_collect_snapshots env fs' retain protected False l gl = (fs', Inr plan2)"
    using present(1,2) store lock' run2
    by (simp add: garbage_collect_snapshots_def under_store_lock_def)
  with props show ?thesis by blast
qed

theorem gc_second_run_deletes_nothing_witness:
  "\<exists>fs' plan2. garbage_collect_snapshots env_w fs' (PInt 1) [] False None None = (fs', Inr plan2)
    \<and> gp_retained plan2 = [dC] \<and> gp_delete_objects plan2 = []"
proof -
  obtain fs' plan where run: "garbage_collect_snapshots env_w fs_w (PInt 1) [] False None None = (fs', Inr plan)"
    and "gp_retained plan = [dC]"
    using collect_w_run by blast
  with gc_second_run_deletes_nothing [OF run] show ?thesis by metis
qed

text \<open>
  C21: The bytes a collection reports as reclaimable are exactly the bytes of the files it
  removes: what the instance held before is that number more than what it holds after.
\<close>

theorem gc_frees_reclaimable_bytes:
  assumes "garbage_collect_snapshots env fs retain protected False l gl = (fs', Inr plan)"
    and "distinct (map fst fs)"
  shows "file_bytes fs = gp_reclaimable plan + file_bytes fs'"
  using assms(1)
proof (cases rule: gc_cases)
  case (present n hs l' gl' fs1 u)
  with collect_bytes [OF present(5) present_dirs [OF present(3,4)]]
    store_lock_bytes [OF present(4) assms(2)]
  show ?thesis by simp
qed simp

theorem gc_frees_reclaimable_bytes_witness:
  "\<exists>fs' plan. garbage_collect_snapshots env_w fs_w (PInt 1) [] False None None = (fs', Inr plan)
    \<and> file_bytes fs_w = 3 + file_bytes fs'"
proof -
  obtain fs' plan where run: "garbage_collect_snapshots env_w fs_w (PInt 1) [] False None None = (fs', Inr plan)"
    and "gp_reclaimable plan = 3"
    using collect_w_run by blast
  moreover have "distinct (map fst fs_w)"
    by (simp add: fs_w_def SNAPSHOT_STORE_def OBJECTS_def dB_def dC_def)
  ultimately show ?thesis using gc_frees_reclaimable_bytes [OF run] by auto
qed

text \<open>
  C18: Collecting with discovered references keeps every recovery checkpoint an update journal
  names: its root is retained, and its manifest loads with all its objects intact afterwards.
\<close>

theorem journal_checkpoint_survives_gc:
  assumes "garbage_collect_referenced_snapshots env fs retain additional False l gl = (fs', Inr plan)"
    and "lstat fs TRANSACTIONS = Some NDir" and "is_json_name name"
    and "lstat fs (TRANSACTIONS @ [name]) = Some (NFile c md t)" and "se_loads env c = Some (PDict d)"
    and "key = ''recovery_checkpoint'' \<or> key = ''checkpoint_recovery''"
    and "has_key (dict_items (dget d ''metadata'')) key"
    and "h = str_or_empty (se_repr env)
               (get (dget (dict_items (dget d ''metadata'')) key) ''root_hash'')"
  shows "h \<in> set (gp_retained plan)
    \<and> (\<exists>m. load_manifest env fs' SNAPSHOT_STORE (RefText h) = Inr m \<and> mf_root_hash m = h
        \<and> (\<forall>e\<in>set (mf_files m). object_ok env fs' SNAPSHOT_STORE (fe_sha256 e) (fe_size e)))"
proof -
  from assms(1) obtain n hs gl' l' where
    ps: "normalise_gc_parameters env retain additional gl = Inr (n, hs, gl')"
    and l: "some_limits l = Inr l'"
    by (auto simp: garbage_collect_referenced_snapshots_def bindE_eq_Inr split: sum.splits)
  obtain fs1 r where lock0: "snapshot_store_lock env fs = (fs1, r)" by fastforce
  from assms(1) ps l lock0 obtain u found store present where r: "r = Inr u"
    and found: "discover_protected_snapshot_roots env fs1 = Inr found"
    and st: "canonical_store_if_present fs1 = Inr (store, present)"
    and body: "(if \<not> present then (fs1, empty_gc_plan store n (sorted_set (hs @ found)))
      else collect_locked env fs1 n (sorted_set (hs @ found)) False l' gl') = (fs', Inr plan)"
    by (auto simp: garbage_collect_referenced_snapshots_def under_store_lock_def bindE_eq_Inr
        split: sum.splits)
  note lock = lock0 [unfolded r]
  have same: "lstat fs1 q = lstat fs q" if "q = TRANSACTIONS @ xs" for q xs
    using that by (intro store_lock_frame(1) [OF lock]) (simp_all add: TRANSACTIONS_def SNAPSHOT_LOCK_def)
  obtain rs where rs: "roots_of_update_journal env fs1 (TRANSACTIONS @ [name]) = Inr rs"
    and "set rs \<subseteq> set found"
    using discover_transaction [OF found _ assms(3)] assms(2,4) same by force
  have "h \<in> set rs"
    unfolding assms(8)
    by (rule journal_recovery_root [OF rs _ assms(5,6,7)]) (use assms(4) same in simp)
  with \<open>set rs \<subseteq> set found\<close> have h: "h \<in> set (sorted_set (hs @ found))" by auto
  then have "sorted_set (hs @ found) \<noteq> []" by (metis empty_iff list.set(1))
  then have present using body by (cases present) (simp_all add: empty_gc_plan_def)
  with body have run: "collect_locked env fs1 n (sorted_set (hs @ found)) False l' gl' = (fs', Inr plan)"
    by simp
  have dirs: "lstat fs1 [''.silicon''] = Some NDir" "lstat fs1 SNAPSHOT_STORE = Some NDir"
    using st \<open>present\<close> by (auto simp: canonical_store_if_present_def split: option.splits node.splits)
  from h collect_protected [OF run dirs] have "h \<in> set (gp_retained plan)" by blast
  with collect_verifies(2) [OF run dirs] show ?thesis by blast
qed

definition fs_journal_w :: files where
  "fs_journal_w =
     [([''.silicon''], NDir), (SNAPSHOT_STORE, NDir), (SNAPSHOT_STORE @ [''manifests''], NDir),
      (SNAPSHOT_STORE @ [''manifests'', dB @ ''.json''], NFile ''B'' 256 1),
      (TRANSACTIONS, NDir), (TRANSACTIONS @ [''t1.json''], NFile ''J'' 384 1)]"

theorem journal_checkpoint_survives_gc_witness:
  "\<exists>fs' plan m.
     garbage_collect_referenced_snapshots env_w fs_journal_w (PInt 0) [] False None None = (fs', Inr plan)
     \<and> dB \<in> set (gp_retained plan) \<and> load_manifest env_w fs' SNAPSHOT_STORE (RefText dB) = Inr m"
proof -
  have "case garbage_collect_referenced_snapshots env_w fs_journal_w (PInt 0) [] False None None of
     (fs', Inr plan) \<Rightarrow> True | _ \<Rightarrow> False"
    by code_simp
  then obtain fs' plan where
    run: "garbage_collect_referenced_snapshots env_w fs_journal_w (PInt 0) [] False None None = (fs', Inr plan)"
    by (auto split: prod.splits sum.splits)
  have "dB \<in> set (gp_retained plan)
    \<and> (\<exists>m. load_manifest env_w fs' SNAPSHOT_STORE (RefText dB) = Inr m \<and> mf_root_hash m = dB
        \<and> (\<forall>e\<in>set (mf_files m). object_ok env_w fs' SNAPSHOT_STORE (fe_sha256 e) (fe_size e)))"
  proof (rule journal_checkpoint_survives_gc [OF run, where name = "''t1.json''" and d = journal_w
        and key = "''recovery_checkpoint''" and c = "''J''" and md = 384 and t = 1])
    show "lstat fs_journal_w TRANSACTIONS = Some NDir"
      "lstat fs_journal_w (TRANSACTIONS @ [''t1.json'']) = Some (NFile ''J'' 384 1)"
      "is_json_name ''t1.json''"
      by code_simp+
    show "se_loads env_w ''J'' = Some (PDict journal_w)" by (simp add: env_w_def)
    show "has_key (dict_items (dget journal_w ''metadata'')) ''recovery_checkpoint''"
      "dB = str_or_empty (se_repr env_w)
        (get (dget (dict_items (dget journal_w ''metadata'')) ''recovery_checkpoint'') ''root_hash'')"
      by (simp_all add: journal_w_def dget_def has_key_def)
  qed simp
  with run show ?thesis by blast
qed

end
