(* ===== verification/PolicySpec.thy ===== *)
theory PolicySpec
  imports PolicySafe SnapSpec
begin

text \<open>
  The properties of the recovery policy: what it selects is safe to copy, and nothing below a
  mandatory directory is left out, whatever the instance adds.
\<close>

text \<open>
  C16: Every file the policy selects is a regular file of the instance that is reached through
  real directories, with no link on the way, and is neither a credential nor part of the
  snapshot store.
\<close>

theorem protected_files_safe:
  assumes "resolve_policy fs dp = Inr pfs" and "clean_names fs" and "f \<in> set pfs"
  shows "regular_file fs (pf_path f) \<and> (\<forall>k<length (pf_path f). lstat fs (take k (pf_path f)) = Some NDir)
    \<and> pf_relative f = path_text (pf_path f) \<and> \<not> is_forbidden_relative (pf_relative f)"
  using resolve_policy_files(1) [OF assms] by (auto simp: real_entry_def under_dirs_def)

text \<open>The files a mandatory pattern names: one file, or everything below a directory.\<close>

definition covers :: "string \<Rightarrow> path \<Rightarrow> bool" where
  "covers pat q \<longleftrightarrow>
     (let ds = posix_parts pat in
      if ds \<noteq> [] \<and> last ds = ''**''
      then list_all literal (butlast ds) \<and> take (length ds - 1) q = butlast ds \<and> length ds \<le> length q
           \<and> list_all (\<lambda>w. \<not> atomic_write_temp w) (drop (length ds - 1) q)
      else ds \<noteq> [] \<and> list_all literal ds \<and> q = ds)"

lemma mandatory_patterns_canonical:
  "\<forall>c\<in>set MANDATORY_CLASSES. \<forall>pat\<in>set (oc_patterns c). validate_relative_pattern pat = Inr pat"
  by code_simp

lemma covers_expand:
  assumes "covers pat q" and "regular_file fs q" and "under_dirs fs q"
    and "snd (expand_parts fs [] (posix_parts pat)) = None"
    and "\<forall>p\<in>set (fst (expand_parts fs [] (posix_parts pat))). snd (safe_tree fs p) = None"
  shows "\<exists>p\<in>set (fst (expand_parts fs [] (posix_parts pat))). q \<in> set (fst (safe_tree fs p))"
proof -
  let ?ds = "posix_parts pat" let ?g = "expand_parts fs [] ?ds"
  have ne: "?ds \<noteq> []" using assms(1) by (auto simp: covers_def Let_def split: if_split_asm)
  have self: "q \<in> set (fst (safe_tree fs q))" if "q \<in> set (fst ?g)"
    using safe_tree_complete [of fs q "[]"] assms(2,5) that by simp
  show ?thesis
  proof (cases "last ?ds = ''**''")
    case False
    let ?b = "butlast ?ds"
    have lit: "\<forall>w\<in>set ?ds. literal w" and q: "q = ?ds"
      using assms(1) False by (auto simp: covers_def Let_def list_all_iff split: if_split_asm)
    have ds: "?ds = ?b @ [last ?ds]" using ne by simp
    have lb: "\<forall>w\<in>set ?b. literal w" using lit by (auto dest: in_set_butlastD)
    have dirs: "\<forall>k\<le>length ?b. lstat fs ([] @ take k ?b) = Some NDir"
    proof (intro allI impI)
      fix k assume "k \<le> length ?b"
      then have "k \<le> length ?ds - 1" by simp
      moreover have "0 < length ?ds" using ne by simp
      ultimately have less: "k < length ?ds" by linarith
      then have "take k ?b = take k q" "k < length q" using q by (simp_all add: take_butlast)
      then show "lstat fs ([] @ take k ?b) = Some NDir" using assms(3) by (simp add: under_dirs_def)
    qed
    have "?g = expand_parts fs [] (?b @ [last ?ds])" using ds by simp
    also have "\<dots> = expand_parts fs ([] @ ?b) [last ?ds]"
      by (rule expand_literal [OF lb _ dirs]) simp
    also have "\<dots> = ([[] @ ?b @ [last ?ds]], None)"
      using expand_literal_step(2) [of "last ?ds" fs ?b] lit ne dirs assms(2) q ds
      by (auto dest: spec [of _ "length ?b"])
    finally have "q \<in> set (fst ?g)" using q ds by simp
    with self show ?thesis by blast
  next
    case True
    let ?b = "butlast ?ds" let ?r = "drop (length ?b) q"
    have lb: "\<forall>w\<in>set ?b. literal w" and b: "take (length ?b) q = ?b" and le: "length ?ds \<le> length q"
      and temp: "\<forall>w\<in>set ?r. \<not> atomic_write_temp w"
      using assms(1) True ne by (auto simp: covers_def Let_def list_all_iff split: if_split_asm)
    have "0 < length ?ds" using ne by simp
    with le have len: "length ?b < length q" by (simp add: less_eq_Suc_le)
    have q: "q = ?b @ ?r" using b by (metis append_take_drop_id)
    have dirs: "\<forall>k\<le>length ?b. lstat fs ([] @ take k ?b) = Some NDir"
    proof (intro allI impI)
      fix k assume "k \<le> length ?b"
      then have "take k ?b = take k q" "k < length q" using b len by (metis min.absorb1 take_take, simp)
      then show "lstat fs ([] @ take k ?b) = Some NDir" using assms(3) by (simp add: under_dirs_def)
    qed
    have root: "lstat fs ?b = Some NDir" using dirs [rule_format, of "length ?b"] by simp
    have "?g = expand_parts fs [] (?b @ [''**''])" using True ne by (metis append_butlast_last_id)
    also have "\<dots> = expand_parts fs ([] @ ?b) [''**'']"
      by (rule expand_literal [OF lb _ dirs]) simp
    also have "\<dots> = safe_tree fs ?b" using root by (simp add: expand_parts.simps)
    finally have g: "?g = safe_tree fs ?b" .
    have "?b @ ?r \<in> set (fst (safe_tree fs ?b))"
    proof (rule safe_tree_complete)
      show "snd (safe_tree fs ?b) = None" using assms(4) g by simp
      show "regular_file fs (?b @ ?r)" using assms(2) q by simp
      show "\<forall>k<length ?r. lstat fs (?b @ take k ?r) = Some NDir"
      proof (intro allI impI)
        fix k assume "k < length ?r"
        then have "?b @ take k ?r = take (length ?b + k) q" "length ?b + k < length q"
          using b by (metis take_add, simp)
        then show "lstat fs (?b @ take k ?r) = Some NDir" using assms(3) by (simp add: under_dirs_def)
      qed
    qed (rule temp)
    then have "q \<in> set (fst ?g)" using q g by simp
    with self show ?thesis by blast
  qed
qed

lemma mandatory_selected:
  assumes "load_data_policy env fs legacy = Inr dp" and "resolve_policy fs dp = Inr pfs"
    and "clean_names fs" and "c \<in> set MANDATORY_CLASSES" and "oc_snapshot c"
    and "pat \<in> set (oc_patterns c)" and "covers pat q" and "regular_file fs q"
    and "\<forall>k<length q. lstat fs (take k q) = Some NDir"
  shows "\<exists>f\<in>set pfs. pf_relative f = path_text q \<and> oc_name c \<in> set (pf_classes f)"
proof -
  have "(oc_name c, pat) \<in> set (snapshot_patterns dp)"
    by (rule mandatory_patterns_kept [OF assms(1,4,5,6)])
  from resolve_policy_files(2) [OF assms(2,3) this] obtain ms
    where ms: "expand_pattern_files fs pat = Inr ms"
    and sel: "\<forall>t\<in>fst ` set ms. \<exists>f\<in>set pfs. pf_relative f = t \<and> oc_name c \<in> set (pf_classes f)"
    by blast
  have canon: "validate_relative_pattern pat = Inr pat"
    using mandatory_patterns_canonical assms(4,6) by blast
  from pattern_files_set [OF ms assms(3)] canon
  have none: "snd (expand_parts fs [] (posix_parts pat)) = None"
    and set: "set ms = {(path_text q, q) | q p. p \<in> set (fst (expand_parts fs [] (posix_parts pat)))
                 \<and> q \<in> set (fst (safe_tree fs p)) \<and> regular_file fs q}"
    and trees: "\<forall>p\<in>set (fst (expand_parts fs [] (posix_parts pat))). snd (safe_tree fs p) = None"
    by auto
  have "under_dirs fs q" using assms(9) by (simp add: under_dirs_def)
  from covers_expand [OF assms(7,8) this none trees] assms(8) set
  have "(path_text q, q) \<in> set ms" by blast
  then have "path_text q \<in> fst ` set ms" by force
  with sel show ?thesis by blast
qed

text \<open>
  No file below a mandatory directory, and no file a mandatory class names, is left out of
  the selection, whatever the instance adds to the policy: the file is selected with that class.
  The exceptions are the temporaries of atomic writes.
\<close>

theorem mandatory_files_protected:
  assumes "load_data_policy env fs legacy = Inr dp" and "resolve_policy fs dp = Inr pfs"
    and "clean_names fs" and "c \<in> set MANDATORY_CLASSES" and "oc_snapshot c"
    and "pat \<in> set (oc_patterns c)" and "covers pat q" and "regular_file fs q"
    and "\<forall>k<length q. lstat fs (take k q) = Some NDir"
  shows "\<exists>f\<in>set pfs. pf_relative f = path_text q \<and> oc_name c \<in> set (pf_classes f)"
  by (rule mandatory_selected [OF assms])

section \<open>Witnesses\<close>

text \<open>An instance with memory, a delivery queue and an addition of its own.\<close>

definition fs_policy_w :: files where
  "fs_policy_w =
     [([''prompts''], NDir), ([''prompts'', ''memory''], NDir),
      ([''prompts'', ''memory'', ''a.txt''], NFile ''x'' 384 1),
      ([''prompts'', ''MEMORY.md''], NFile ''yy'' 384 1),
      ([''.glass.json''], NFile ''s'' 384 1),
      ([''.silicon-interface''], NDir), ([''.silicon-interface'', ''daemon.sock''], NSock),
      ([''custom''], NDir), ([''custom'', ''n.txt''], NFile ''x'' 384 1)]"

definition policy_w :: "protected_file list outcome" where
  "policy_w = bindE (load_data_policy env_w fs_policy_w (Some [''custom/**''])) (resolve_policy fs_policy_w)"

lemma policy_w_files:
  "case policy_w of
     Inr pfs \<Rightarrow> map pf_relative pfs = [''custom/n.txt'', ''prompts/MEMORY.md'', ''prompts/memory/a.txt'']
   | Inl e \<Rightarrow> False"
  by code_simp

lemma policy_w_run:
  "\<exists>dp pfs. load_data_policy env_w fs_policy_w (Some [''custom/**'']) = Inr dp
    \<and> resolve_policy fs_policy_w dp = Inr pfs
    \<and> map pf_relative pfs = [''custom/n.txt'', ''prompts/MEMORY.md'', ''prompts/memory/a.txt'']"
  using policy_w_files by (auto simp: policy_w_def bindE_def split: sum.splits)

lemma clean_policy_w: "clean_names fs_policy_w"
  by code_simp

theorem protected_files_safe_witness:
  "\<exists>dp pfs f. resolve_policy fs_policy_w dp = Inr pfs \<and> f \<in> set pfs
    \<and> regular_file fs_policy_w (pf_path f) \<and> \<not> is_forbidden_relative (pf_relative f)"
proof -
  obtain dp pfs where run: "resolve_policy fs_policy_w dp = Inr pfs"
    and fs: "map pf_relative pfs = [''custom/n.txt'', ''prompts/MEMORY.md'', ''prompts/memory/a.txt'']"
    using policy_w_run by (elim exE conjE) (rule that)
  have f: "hd pfs \<in> set pfs" using fs by (cases pfs) simp_all
  from protected_files_safe [OF run clean_policy_w f] run f show ?thesis by blast
qed

theorem mandatory_files_protected_witness:
  "\<exists>dp pfs. resolve_policy fs_policy_w dp = Inr pfs
    \<and> (\<exists>f\<in>set pfs. pf_relative f = ''prompts/memory/a.txt'' \<and> ''critical_living'' \<in> set (pf_classes f))"
proof -
  obtain dp pfs where load: "load_data_policy env_w fs_policy_w (Some [''custom/**'']) = Inr dp"
    and run: "resolve_policy fs_policy_w dp = Inr pfs"
    using policy_w_run by (elim exE conjE) (rule that)
  let ?c = "MANDATORY_CLASSES ! 1" and ?q = "[''prompts'', ''memory'', ''a.txt'']"
  have c: "?c \<in> set MANDATORY_CLASSES" "oc_snapshot ?c" "''prompts/memory/**'' \<in> set (oc_patterns ?c)"
    and name: "oc_name ?c = ''critical_living''"
    by (simp_all add: MANDATORY_CLASSES_def)
  have cov: "covers ''prompts/memory/**'' ?q" by code_simp
  have reg: "regular_file fs_policy_w ?q" by code_simp
  have dirs: "\<forall>k<length ?q. lstat fs_policy_w (take k ?q) = Some NDir" by code_simp
  have joined: "path_text ?q = ''prompts/memory/a.txt''" by code_simp
  from mandatory_files_protected [OF load run clean_policy_w c cov reg dirs] run show ?thesis
    unfolding name joined by blast
qed

end
