(* ===== verification/RestoreSpec.thy ===== *)
theory RestoreSpec
  imports Restore SnapSpec
begin

text \<open>
  The properties of the in-place restore: what a successful restore has put in place, the
  release floor it leaves, and two ways it goes wrong: a partial temporary that stops every
  later attempt, and a path that reaches the floor file under another spelling.
\<close>

section \<open>Frames\<close>

text \<open>An accepted path is the joined form of its parts.\<close>

lemma accepted_join:
  assumes "validate_relative_pattern s = Inr q" and "posix_root q = []"
  shows "q = py_join ''/'' (posix_names q)"
proof -
  let ?v = "strip_dot_slash (strip s)"
  note acc = validate_relative_pattern_Inr [OF assms(1)]
  have clean: "\<forall>w\<in>set (posix_names ?v). w \<noteq> [] \<and> w \<noteq> ''.'' \<and> CHR ''/'' \<notin> set w"
    using posix_names_clean by blast
  have "posix_root ?v = []"
  proof (rule ccontr)
    assume "posix_root ?v \<noteq> []"
    then have "posix_root ?v = ''/'' \<or> posix_root ?v = ''//''"
      by (simp add: posix_root_def split: if_split_asm)
    then have "is_prefix ''/'' (posix_join (posix_root ?v # ws))" for ws
      by (elim disjE) (simp_all add: posix_join_def)
    with acc(1) \<open>posix_root ?v \<noteq> []\<close> have "is_prefix ''/'' q" by (simp add: posix_parts_def)
    with assms(2) show False by (simp add: posix_root_Nil_iff)
  qed
  with acc(1,2) clean have "q = py_join ''/'' (posix_names ?v)"
    by (simp add: posix_parts_root posix_join_names)
  then show ?thesis unfolding names_of_accepted(1) [OF assms(1)] .
qed

text \<open>The state files of the updater are not restore destinations.\<close>

definition updater_file :: "path \<Rightarrow> bool" where
  "updater_file p \<longleftrightarrow>
     (\<exists>name. p = [''.silicon'', name] \<and> name \<noteq> ''data-policy.json''
        \<and> name \<noteq> ''release-sequence-floor.json'')"

lemma restore_path_not_updater:
  assumes "validate_in_place_restore_path s = Inr v"
  shows "\<not> updater_file (posix_parts v)"
proof
  assume "updater_file (posix_parts v)"
  then obtain name where name: "posix_parts v = [''.silicon'', name]"
    "name \<noteq> ''data-policy.json''" "name \<noteq> ''release-sequence-floor.json''"
    by (auto simp: updater_file_def)
  have val: "validate_relative_pattern s = Inr v"
    using assms by (auto simp: validate_in_place_restore_path_def bindE_eq_Inr validate_relative_path_Inr
        split: if_split_asm)
  have root: "posix_root v = []" using name(1) by (auto simp: posix_parts_def posix_root_def split: if_split_asm)
  then have names: "posix_names v = [''.silicon'', name]" using name(1) by (simp add: posix_parts_root)
  then have v: "v = ''.silicon/'' @ name" using accepted_join [OF val root] by simp
  have "CHR ''/'' \<notin> set name" using names_of_accepted(2) [OF val, of name] names by simp
  then have "\<not> is_prefix ''.silicon/overlays/'' v" by (auto simp: v is_prefix_iff)
  then show False
    using assms v name(2,3)
    by (auto simp: validate_in_place_restore_path_def bindE_eq_Inr is_prefix_append RELEASE_SEQUENCE_FLOOR_def
        split: if_split_asm)
qed

lemma make_parents_keeps:
  "lstat fs q = Some n \<Longrightarrow> lstat (fst (make_parents parent cs fs)) q = Some n"
proof (induction parent cs fs rule: make_parents.induct)
  case (2 parent c cs fs)
  let ?p = "parent @ [c]"
  show ?case
  proof (cases "lstat fs ?p")
    case None
    with 2(3) have "lstat (set_node ?p NDir fs) q = Some n" by auto
    with 2(1) [OF refl None] None show ?thesis by (simp add: Let_def)
  next
    case (Some m)
    with 2(2) [OF refl Some] 2(3) show ?thesis by (cases m) (simp_all add: Let_def)
  qed
qed simp

text \<open>What an operation that raises or returns leaves of an existing entry.\<close>

lemma bindS_keeps:
  assumes "lstat (fst m) q = Some n"
    and "\<And>fs x. m = (fs, Inr x) \<Longrightarrow> lstat fs q = Some n \<Longrightarrow> lstat (fst (f fs x)) q = Some n"
  shows "lstat (fst (bindS m f)) q = Some n"
  using assms by (cases m; cases "snd m") (auto simp: bindS_def)

lemma restore_parent_keeps:
  assumes "lstat fs q = Some n"
  shows "lstat (fst (restore_parent fs rel)) q = Some n"
proof (cases "validate_in_place_restore_path rel")
  case (Inr v)
  show ?thesis
    unfolding restore_parent_def Inr sum.case Let_def
    by (rule bindS_keeps [OF make_parents_keeps [OF assms]])
       (simp split: option.split node.split)
qed (simp add: restore_parent_def assms)

lemma verify_restored_file_keeps:
  assumes "lstat fs q = Some n"
  shows "lstat (fst (verify_restored_file env e fs)) q = Some n"
proof (cases "validate_in_place_restore_path (fe_path e)")
  case (Inr rel)
  show ?thesis
  proof (cases "rel = RELEASE_SEQUENCE_FLOOR")
    case False
    show ?thesis
      unfolding verify_restored_file_def Inr sum.case if_not_P [OF False]
      by (rule bindS_keeps [OF restore_parent_keeps [OF assms]])
         (simp split: option.split node.split prod.split)
  qed (use Inr assms in \<open>simp add: verify_restored_file_def\<close>)
qed (simp add: verify_restored_file_def assms)

lemma verify_files_keeps:
  "lstat fs q = Some n \<Longrightarrow> lstat (fst (verify_files env es fs)) q = Some n"
proof (induction es arbitrary: fs)
  case (Cons e es)
  show ?case
    unfolding verify_files.simps
    by (rule bindS_keeps [OF verify_restored_file_keeps [OF Cons.prems] Cons.IH])
qed simp

section \<open>What the operations leave alone\<close>

text \<open>
  The places a manifest path leads to: the path is validated when the operation starts and again
  when its parents are prepared.
\<close>

definition leads_to :: "string \<Rightarrow> path \<Rightarrow> bool" where
  "leads_to p d \<longleftrightarrow>
     (\<exists>rel. validate_in_place_restore_path p = Inr rel
        \<and> (d = posix_parts rel
           \<or> (\<exists>v. validate_in_place_restore_path rel = Inr v \<and> d = posix_parts v)))"

text \<open>The destinations of a manifest and the temporaries beside them.\<close>

definition owned :: "manifest \<Rightarrow> path \<Rightarrow> bool" where
  "owned m q \<longleftrightarrow>
     (\<exists>p\<in>set (map fe_path (mf_files m) @ mf_tombstones m). \<exists>d. leads_to p d
        \<and> (q = d \<or> q = butlast d @ [temporary_name (last d) (mf_root_hash m)]))"

lemma make_parents_parent: "make_parents parent cs fs = (fs', Inr p) \<Longrightarrow> p = parent @ cs"
  by (induction parent cs fs rule: make_parents.induct)
     (auto simp: Let_def split: option.splits node.splits)

lemma restore_parent_Inr:
  assumes "restore_parent fs rel = (fs1, Inr (parent, dest))"
  shows "\<exists>v. validate_in_place_restore_path rel = Inr v \<and> dest = posix_parts v \<and> parent = butlast dest"
proof (cases "validate_in_place_restore_path rel")
  case (Inr v)
  from assms obtain fs0 p where mp: "make_parents [] (butlast (posix_parts v)) fs = (fs0, Inr p)"
    and "(case lstat fs0 (posix_parts v) of
            None \<Rightarrow> (fs0, Inr (p, posix_parts v))
          | Some (NFile c m t) \<Rightarrow> (fs0, Inr (p, posix_parts v))
          | Some n \<Rightarrow> (fs0, Inl (UnsafePathErr ''destination''))) = (fs1, Inr (parent, dest))"
    unfolding restore_parent_def Inr sum.case Let_def bindS_eq_Inr by blast
  then have "p = parent" "dest = posix_parts v" by (simp_all split: option.splits node.splits)
  with make_parents_parent [OF mp] Inr show ?thesis by simp
qed (use assms in \<open>simp add: restore_parent_def\<close>)

lemma commit_temporary_keeps:
  assumes "lstat fs q = Some n" and "q \<noteq> tmp" and "q \<noteq> dest"
  shows "lstat (fst (commit_temporary fs rel parent dest tmp e)) q = Some n"
proof (cases "lstat fs tmp")
  case (Some nd)
  show ?thesis
  proof (cases nd)
    case (NFile c md t)
    let ?node = "NFile c (fe_mode e mod 512) t"
    have "lstat (set_node tmp ?node fs) q = Some n" using assms(1,2) by simp
    then have "lstat (fst (restore_parent (set_node tmp ?node fs) rel)) q = Some n"
      by (rule restore_parent_keeps)
    with assms(2,3) Some NFile show ?thesis
      by (auto simp: commit_temporary_def Let_def split: prod.splits sum.splits)
  qed (use assms Some in \<open>simp_all add: commit_temporary_def\<close>)
qed (use assms in \<open>simp add: commit_temporary_def\<close>)

lemma restore_manifest_file_keeps:
  assumes "lstat fs q = Some n"
    and "\<And>d. leads_to (fe_path e) d \<Longrightarrow> q \<noteq> d \<and> q \<noteq> butlast d @ [temporary_name (last d) h]"
  shows "lstat (fst (restore_manifest_file env store e h fs)) q = Some n"
proof (cases "validate_in_place_restore_path (fe_path e)")
  case (Inr rel)
  show ?thesis
    unfolding restore_manifest_file_def Inr sum.case
  proof (rule bindS_keeps [OF restore_parent_keeps [OF assms(1)]])
    fix fs1 pd assume rp: "restore_parent fs rel = (fs1, Inr pd)" and keep: "lstat fs1 q = Some n"
    obtain parent dest where pd: "pd = (parent, dest)" by fastforce
    from restore_parent_Inr [OF rp [unfolded pd]] Inr have "leads_to (fe_path e) dest" "parent = butlast dest"
      by (auto simp: leads_to_def)
    with assms(2) have q: "q \<noteq> dest" "q \<noteq> parent @ [temporary_name (last dest) h]" by blast+
    let ?tmp = "parent @ [temporary_name (last dest) h]"
    let ?body = "\<lambda>reusable. if reusable then commit_temporary fs1 rel parent dest ?tmp e
       else (case open_verified_object env fs1 store (fe_sha256 e) (fe_size e) of
               Inl err \<Rightarrow> (fs1, Inl err)
             | Inr c \<Rightarrow> commit_temporary (set_node ?tmp (NFile c 384 (se_mtime env)) fs1) rel parent dest ?tmp e)"
    have body: "lstat (fst (?body r)) q = Some n" for r
      using commit_temporary_keeps [OF keep q(2,1)] keep q(2)
        commit_temporary_keeps [OF _ q(2,1), of "set_node ?tmp (NFile c 384 (se_mtime env)) fs1" n for c]
      by (auto split: sum.split)
    show "lstat (fst (case pd of (parent, dest) \<Rightarrow>
        let tmp = parent @ [temporary_name (last dest) h]
        in (case reusable_temporary env fs1 tmp e of Inl err \<Rightarrow> (fs1, Inl err)
            | Inr reusable \<Rightarrow> bindS
                (if reusable then commit_temporary fs1 rel parent dest tmp e
                 else (case open_verified_object env fs1 store (fe_sha256 e) (fe_size e) of
                         Inl err \<Rightarrow> (fs1, Inl err)
                       | Inr c \<Rightarrow> commit_temporary (set_node tmp (NFile c 384 (se_mtime env)) fs1)
                                   rel parent dest tmp e))
                (\<lambda>fs2 _. (fs2, check_restored env fs2 dest e))))) q = Some n"
    proof (cases "reusable_temporary env fs1 ?tmp e")
      case (Inl err)
      then show ?thesis by (simp add: pd keep)
    next
      case (Inr r)
      show ?thesis
        unfolding pd prod.case Let_def Inr sum.case
        by (rule bindS_keeps [OF body]) simp
    qed
  qed
qed (simp add: restore_manifest_file_def assms(1))

lemma tombstone_keeps:
  assumes "lstat fs q = Some n" and "\<And>d. leads_to t d \<Longrightarrow> q \<noteq> d"
  shows "lstat (fst (restore_manifest_tombstone t fs)) q = Some n"
proof (cases "tombstone_destination fs t")
  case (Inr r)
  have "leads_to t d" if "r = Some d" for d
    using Inr that by (auto simp: tombstone_destination_def bindE_eq_Inr leads_to_def split: if_split_asm)
  with assms Inr show ?thesis
    by (cases r) (auto simp: restore_manifest_tombstone_def split: option.splits node.splits)
qed (simp add: restore_manifest_tombstone_def assms)

lemma restore_floor_keeps:
  assumes "lstat fs q = Some n"
    and "\<And>e d. fp_entry p = Some e \<Longrightarrow> leads_to (fe_path e) d \<Longrightarrow>
      q \<noteq> d \<and> q \<noteq> butlast d @ [temporary_name (last d) h]"
  shows "lstat (fst (restore_floor env store p h fs)) q = Some n"
proof (cases "fp_entry p")
  case (Some e)
  have "lstat (fst (restore_manifest_file env store e h fs)) q = Some n"
    by (rule restore_manifest_file_keeps [OF assms(1) assms(2) [OF Some]])
  with assms(1) Some show ?thesis
    by (auto simp: restore_floor_def split: option.splits sum.splits)
qed (simp add: restore_floor_def assms(1))

text \<open>The plan of the floor names an entry of the manifest.\<close>

lemma plan_entry:
  assumes "plan_floor_restore env fs store m = Inr (Some p)" and "fp_entry p = Some e"
  shows "e \<in> set (mf_files m)"
proof -
  let ?entry = "find (\<lambda>e. fe_path e = RELEASE_SEQUENCE_FLOOR) (mf_files m)"
  have "fp_entry p = ?entry"
  proof (cases ?entry)
    case None
    with assms(1) show ?thesis by (auto simp: plan_floor_restore_def bindE_eq_Inr split: option.splits)
  next
    case (Some x)
    with assms(1) show ?thesis
      by (cases "read_snapshot_floor env fs store (fe_sha256 x) (fe_size x)";
          cases "read_local_floor env fs")
         (auto simp: plan_floor_restore_def Let_def split: option.splits if_split_asm)
  qed
  with assms(2) show ?thesis by (metis find_Some_iff nth_mem)
qed

lemma apply_op_keeps:
  assumes "lstat fs q = Some n" and "\<not> owned m q" and "op \<in> set (restore_ops m)"
    and "\<And>p e. plan = Some p \<Longrightarrow> fp_entry p = Some e \<Longrightarrow> e \<in> set (mf_files m)"
  shows "lstat (fst (apply_op env store (mf_root_hash m) plan op fs)) q = Some n"
proof (cases op)
  case (OpFile e)
  have own: "q \<noteq> d \<and> q \<noteq> butlast d @ [temporary_name (last d) (mf_root_hash m)]"
    if "x \<in> set (mf_files m)" "leads_to (fe_path x) d" for x d
    using assms(2) that by (auto simp: owned_def)
  have e: "e \<in> set (mf_files m)" using assms(3) OpFile by (auto simp: restore_ops_def)
  show ?thesis
  proof (cases "fe_path e = RELEASE_SEQUENCE_FLOOR")
    case True
    show ?thesis
    proof (cases plan)
      case (Some p)
      have "lstat (fst (restore_floor env store p (mf_root_hash m) fs)) q = Some n"
        by (rule restore_floor_keeps [OF assms(1)]) (use assms(4) [OF Some] own in blast)
      with True OpFile Some show ?thesis by (simp add: apply_op_def)
    qed (use True OpFile assms(1) in \<open>simp add: apply_op_def\<close>)
  next
    case False
    have "lstat (fst (restore_manifest_file env store e (mf_root_hash m) fs)) q = Some n"
      by (rule restore_manifest_file_keeps [OF assms(1) own [OF e]])
    with False OpFile show ?thesis by (simp add: apply_op_def)
  qed
next
  case (OpTombstone t)
  then have "t \<in> set (mf_tombstones m)" using assms(3) by (auto simp: restore_ops_def)
  then have "q \<noteq> d" if "leads_to t d" for d using assms(2) that by (auto simp: owned_def)
  from tombstone_keeps [OF assms(1) this] OpTombstone assms(1) show ?thesis
    by (simp add: apply_op_def)
qed

lemma write_journal_lstat:
  assumes "write_restore_journal env p d fs = (fs', r)" and "q \<noteq> p"
  shows "lstat fs' q = lstat fs q"
  using assms by (auto simp: write_restore_journal_def split: if_split_asm)

lemma run_restore_keeps:
  assumes "lstat fs q = Some n" and "\<not> owned m q" and "set ops \<subseteq> set (restore_ops m)"
    and "\<And>p e. plan = Some p \<Longrightarrow> fp_entry p = Some e \<Longrightarrow> e \<in> set (mf_files m)"
    and "q \<noteq> IN_PLACE_RESTORE_JOURNAL"
  shows "lstat (fst (run_restore env store m plan created i ops fs)) q = Some n"
  using assms(1,3)
proof (induction ops arbitrary: i fs)
  case (Cons op ops)
  have op: "op \<in> set (restore_ops m)" and ops: "set ops \<subseteq> set (restore_ops m)" using Cons.prems(2) by auto
  show ?case
    unfolding run_restore.simps
  proof (rule bindS_keeps [OF apply_op_keeps [OF Cons.prems(1) assms(2) op assms(4)]])
    fix fs1 x assume "lstat fs1 q = Some n"
    then show "lstat (fst (bindS (write_restore_journal env IN_PLACE_RESTORE_JOURNAL
        (journal_doc m ''APPLYING'' (i + 1) created (se_clock env (i + 2))) fs1)
        (\<lambda>fs2 _. run_restore env store m plan created (i + 1) ops fs2))) q = Some n"
      by (intro bindS_keeps Cons.IH ops)
         (metis write_journal_lstat assms(5) prod.collapse)+
  qed
qed simp

section \<open>A successful restore\<close>

lemma floor_lock_frame:
  assumes "release_floor_lock env fs = (fs1, Inr u)"
  shows "q \<noteq> [''.silicon''] \<Longrightarrow> q \<noteq> RELEASE_FLOOR_LOCK \<Longrightarrow> lstat fs1 q = lstat fs q"
    and "lstat fs1 [''.silicon''] = Some NDir"
  using assms
  by (auto simp: release_floor_lock_def open_lock_file_def RELEASE_FLOOR_LOCK_def
      split: option.splits node.splits)

lemma updater_files:
  "updater_file RELEASE_FLOOR_LOCK" "updater_file SNAPSHOT_LOCK"
  "updater_file IN_PLACE_RESTORE_JOURNAL" "updater_file IN_PLACE_RESTORE_LATEST"
  "\<not> updater_file FLOOR_PATH"
  by (simp_all add: updater_file_def RELEASE_FLOOR_LOCK_def SNAPSHOT_LOCK_def
      IN_PLACE_RESTORE_JOURNAL_def IN_PLACE_RESTORE_LATEST_def FLOOR_PATH_def)

lemma write_journal_frame:
  assumes "write_restore_journal env p d fs = (fs', r)" and "updater_file p" and "\<not> updater_file q"
  shows "lstat fs' q = lstat fs q"
  by (rule write_journal_lstat [OF assms(1)]) (use assms(2,3) in blast)

text \<open>The parts of a restore that returned.\<close>

lemma apply_restore_parts:
  assumes "apply_restore env m fplan next_op created fs = (fs', Inr plan)"
  obtains fs1 fs2 fs3 u v where
    "\<forall>q. \<not> updater_file q \<longrightarrow> lstat fs1 q = lstat fs q"
    "run_restore env SNAPSHOT_STORE m fplan created next_op (drop next_op (restore_ops m)) fs1 = (fs2, Inr u)"
    "verify_in_place_restore env m fplan fs2 = (fs3, Inr v)"
    "\<forall>q. \<not> updater_file q \<longrightarrow> lstat fs' q = lstat fs3 q"
    "plan = plan_of_manifest m False"
proof -
  obtain fs1 w fs2 u where
    1: "write_restore_journal env IN_PLACE_RESTORE_JOURNAL
          (journal_doc m ''APPLYING'' next_op created (se_clock env 1)) fs = (fs1, Inr w)"
    and 2: "run_restore env SNAPSHOT_STORE m fplan created next_op (drop next_op (restore_ops m)) fs1
          = (fs2, Inr u)"
    and fin: "finish_restore env m created (verify_in_place_restore env m fplan fs2) = (fs', Inr plan)"
    using assms unfolding apply_restore_def bindS_eq_Inr by blast
  obtain fs3 r where 3: "verify_in_place_restore env m fplan fs2 = (fs3, r)" by fastforce
  from fin obtain v where r: "r = Inr v"
    unfolding 3 by (cases r) (auto simp: finish_restore_def Let_def bindS_eq_Inr)
  from fin obtain d4 d5 fs4 w4 w5 where
    4: "write_restore_journal env IN_PLACE_RESTORE_JOURNAL d4 fs3 = (fs4, Inr w4)"
    and 5: "write_restore_journal env IN_PLACE_RESTORE_LATEST d5 fs4 = (fs', Inr w5)"
    and 6: "plan = plan_of_manifest m False"
    unfolding 3 r finish_restore_def Let_def prod.case sum.case bindS_eq_Inr by auto
  show thesis
  proof (rule that [OF _ 2 3 [unfolded r] _ 6])
    show "\<forall>q. \<not> updater_file q \<longrightarrow> lstat fs1 q = lstat fs q"
      using write_journal_frame [OF 1 updater_files(3)] by blast
    show "\<forall>q. \<not> updater_file q \<longrightarrow> lstat fs' q = lstat fs3 q"
      using write_journal_frame [OF 4 updater_files(3)] write_journal_frame [OF 5 updater_files(4)]
      by simp
  qed
qed

lemma restore_parts:
  assumes "restore_local_snapshot_in_place env snapshot store False l fs = (fs', Inr plan)"
  obtains fs0 fs1 fs2 fs3 m fplan l' created i u v where
    "\<forall>q. \<not> updater_file q \<and> q \<noteq> [''.silicon''] \<longrightarrow> lstat fs0 q = lstat fs q"
    "verify_local_snapshot env fs0 snapshot SNAPSHOT_STORE l' = Inr m"
    "plan_floor_restore env fs0 SNAPSHOT_STORE m = Inr fplan"
    "\<forall>q. \<not> updater_file q \<longrightarrow> lstat fs1 q = lstat fs0 q"
    "run_restore env SNAPSHOT_STORE m fplan created i (drop i (restore_ops m)) fs1 = (fs2, Inr u)"
    "verify_in_place_restore env m fplan fs2 = (fs3, Inr v)"
    "\<forall>q. \<not> updater_file q \<longrightarrow> lstat fs' q = lstat fs3 q"
    "plan = plan_of_manifest m False"
proof -
  from assms obtain fsa w where a: "release_floor_lock env fs = (fsa, Inr w)"
    and "(case some_limits l of Inl e \<Rightarrow> (fsa, Inl e)
        | Inr l' \<Rightarrow> under_store_lock env fsa (restore_locked env snapshot store False l')) = (fs', Inr plan)"
    unfolding restore_local_snapshot_in_place_def bindS_eq_Inr by blast
  then obtain l' where b: "under_store_lock env fsa (restore_locked env snapshot store False l') = (fs', Inr plan)"
    by (auto split: sum.splits)
  then obtain fs0 w2 where c: "snapshot_store_lock env fsa = (fs0, Inr w2)"
    and run: "restore_locked env snapshot store False l' fs0 = (fs', Inr plan)"
    by (auto simp: under_store_lock_def split: prod.splits sum.splits)
  from run obtain m fplan i created where
    store: "store = SNAPSHOT_STORE" and
    d: "verify_local_snapshot env fs0 snapshot SNAPSHOT_STORE l' = Inr m"
      "plan_floor_restore env fs0 SNAPSHOT_STORE m = Inr fplan" and
    e: "apply_restore env m fplan i created fs0 = (fs', Inr plan)"
    by (auto simp: restore_locked_def bindE_eq_Inr raise_if_eq_Inr split: sum.splits)
  have frame: "\<forall>q. \<not> updater_file q \<and> q \<noteq> [''.silicon''] \<longrightarrow> lstat fs0 q = lstat fs q"
    using floor_lock_frame(1) [OF a] store_lock_frame(1) [OF c] updater_files(1,2) by metis
  show thesis
    by (rule apply_restore_parts [OF e]) (rule that [OF frame d]; assumption)
qed

lemma read_local_floor_cong:
  "lstat fs FLOOR_PATH = lstat fs' FLOOR_PATH \<Longrightarrow> read_local_floor env fs = read_local_floor env fs'"
  by (simp only: read_local_floor_def read_bounded_json_object_def)

lemma verify_in_place_parts:
  assumes "verify_in_place_restore env m plan fs = (fs', Inr v)"
  shows "\<exists>u. verify_files env (mf_files m) fs = (fs', Inr u)"
    and "t \<in> set (mf_tombstones m) \<Longrightarrow> verify_tombstone fs' t = Inr ()"
    and "plan = Some p \<Longrightarrow> verify_floor env fs' p = Inr ()"
proof -
  from assms obtain u where u: "verify_files env (mf_files m) fs = (fs', Inr u)"
    and rest: "bindE (mapE (verify_tombstone fs') (mf_tombstones m)) (\<lambda>_.
          (case plan of None \<Rightarrow> Inr () | Some p \<Rightarrow> verify_floor env fs' p)) = Inr v"
    by (auto simp: verify_in_place_restore_def bindS_eq_Inr)
  show "\<exists>u. verify_files env (mf_files m) fs = (fs', Inr u)" using u by blast
  show "t \<in> set (mf_tombstones m) \<Longrightarrow> verify_tombstone fs' t = Inr ()"
    using rest by (auto simp: bindE_eq_Inr dest: mapE_all_Inr)
  show "plan = Some p \<Longrightarrow> verify_floor env fs' p = Inr ()"
    using rest by (auto simp: bindE_eq_Inr)
qed

text \<open>
  C19: A restore that returns has not lowered the release floor: the floor the instance had before
  is still there, or a higher one, and an equal sequence still names the same release tree.
\<close>

theorem restore_never_lowers_floor:
  assumes "restore_local_snapshot_in_place env snapshot store False l fs = (fs', Inr plan)"
    and "read_local_floor env fs = Inr (Some c)"
  shows "\<exists>c'. read_local_floor env fs' = Inr (Some c') \<and> fst c \<le> fst c'
    \<and> (fst c' = fst c \<longrightarrow> snd c' = snd c)"
  using assms(1)
proof (rule restore_parts)
  fix fs0 fs1 fs2 fs3 m fplan l' created i u v
  assume frame: "\<forall>q. \<not> updater_file q \<and> q \<noteq> [''.silicon''] \<longrightarrow> lstat fs0 q = lstat fs q"
    and plan: "plan_floor_restore env fs0 SNAPSHOT_STORE m = Inr fplan"
    and ver: "verify_in_place_restore env m fplan fs2 = (fs3, Inr v)"
    and frame': "\<forall>q. \<not> updater_file q \<longrightarrow> lstat fs' q = lstat fs3 q"
  have "read_local_floor env fs0 = Inr (Some c)"
    using assms(2) frame updater_files(5) read_local_floor_cong [of fs0 fs]
    by (simp add: FLOOR_PATH_def)
  from plan_minimum [OF plan this] obtain p where p: "fplan = Some p" "floor_le c (fp_minimum p)"
    by blast
  from verify_floor_le [OF verify_in_place_parts(3) [OF ver p(1)]] obtain c' where
    "read_local_floor env fs3 = Inr (Some c')" "floor_le (fp_minimum p) c'" by blast
  moreover have "read_local_floor env fs' = read_local_floor env fs3"
    using frame' updater_files(5) by (intro read_local_floor_cong) simp
  ultimately show ?thesis using p(2) floor_le_trans by (auto simp: floor_le_def)
qed

section \<open>Restored content\<close>

text \<open>The place of an entry holds its bytes and permissions; a tombstone is gone.\<close>

definition entry_restored :: "snap_env \<Rightarrow> files \<Rightarrow> file_entry \<Rightarrow> bool" where
  "entry_restored env fs e \<longleftrightarrow>
     (\<exists>rel v c t. validate_in_place_restore_path (fe_path e) = Inr rel
        \<and> validate_in_place_restore_path rel = Inr v
        \<and> lstat fs (posix_parts v) = Some (NFile c (fe_mode e) t)
        \<and> se_sha env c = fe_sha256 e \<and> int (length c) = fe_size e)"

definition floor_path_text :: "string \<Rightarrow> bool" where
  "floor_path_text p \<longleftrightarrow> validate_in_place_restore_path p = Inr RELEASE_SEQUENCE_FLOOR"

lemma verify_restored_file_holds:
  assumes "verify_restored_file env e fs = (fs', Inr u)" and "\<not> floor_path_text (fe_path e)"
  shows "entry_restored env fs' e"
proof -
  from assms obtain rel where rel: "validate_in_place_restore_path (fe_path e) = Inr rel"
    "rel \<noteq> RELEASE_SEQUENCE_FLOOR"
    and run: "bindS (restore_parent fs rel) (\<lambda>fs1 (parent, dest).
            (case lstat fs1 dest of
               Some (NFile c md t) \<Rightarrow>
                 if se_sha env c \<noteq> fe_sha256 e \<or> int (length c) \<noteq> fe_size e \<or> md \<noteq> fe_mode e
                 then (fs1, Inl (SnapshotIntegrityErr ''verification''))
                 else (fs1, Inr ())
             | None \<Rightarrow> (fs1, Inl (SnapshotIntegrityErr ''missing''))
             | Some n \<Rightarrow> (fs1, Inl (SnapshotIntegrityErr ''unsafe path'')))) = (fs', Inr u)"
    by (auto simp: verify_restored_file_def floor_path_text_def split: sum.splits if_split_asm)
  from run obtain fs1 parent dest where rp: "restore_parent fs rel = (fs1, Inr (parent, dest))"
    and check: "(case lstat fs1 dest of
               Some (NFile c md t) \<Rightarrow>
                 if se_sha env c \<noteq> fe_sha256 e \<or> int (length c) \<noteq> fe_size e \<or> md \<noteq> fe_mode e
                 then (fs1, Inl (SnapshotIntegrityErr ''verification''))
                 else (fs1, Inr ())
             | None \<Rightarrow> (fs1, Inl (SnapshotIntegrityErr ''missing''))
             | Some n \<Rightarrow> (fs1, Inl (SnapshotIntegrityErr ''unsafe path''))) = (fs', Inr u)"
    unfolding bindS_eq_Inr by (auto split: prod.splits)
  from check obtain c t where "lstat fs1 dest = Some (NFile c (fe_mode e) t)"
    "se_sha env c = fe_sha256 e" "int (length c) = fe_size e" "fs' = fs1"
    by (auto split: option.splits node.splits if_split_asm)
  with restore_parent_Inr [OF rp] rel show ?thesis by (auto simp: entry_restored_def)
qed

lemma entry_restored_keeps:
  assumes "entry_restored env fs e" and "\<And>q n. lstat fs q = Some n \<Longrightarrow> lstat fs' q = Some n"
  shows "entry_restored env fs' e"
  using assms by (auto simp: entry_restored_def)

lemma verify_files_hold:
  assumes "verify_files env es fs = (fs', Inr u)" and "e \<in> set es" and "\<not> floor_path_text (fe_path e)"
  shows "entry_restored env fs' e"
  using assms(1,2)
proof (induction es arbitrary: fs)
  case (Cons x es)
  from Cons.prems(1) obtain fs1 w where 1: "verify_restored_file env x fs = (fs1, Inr w)"
    and 2: "verify_files env es fs1 = (fs', Inr u)"
    unfolding verify_files.simps bindS_eq_Inr by blast
  show ?case
  proof (cases "e = x")
    case True
    have "lstat fs' q = Some n" if "lstat fs1 q = Some n" for q n
      using verify_files_keeps [OF that, of env es] 2 by simp
    with verify_restored_file_holds [OF 1] assms(3) True show ?thesis by (blast intro: entry_restored_keeps)
  next
    case False
    with Cons.IH [OF 2] Cons.prems(2) show ?thesis by simp
  qed
qed simp

lemma entry_restored_frame:
  assumes "entry_restored env fs e" and "\<forall>q. \<not> updater_file q \<longrightarrow> lstat fs' q = lstat fs q"
  shows "entry_restored env fs' e"
  using assms restore_path_not_updater by (auto simp: entry_restored_def)

lemma verify_tombstone_gone:
  assumes "verify_tombstone fs t = Inr ()" and "\<not> floor_path_text t"
    and "validate_in_place_restore_path t = Inr rel"
  shows "\<forall>d. tombstone_destination fs rel = Inr (Some d) \<longrightarrow> lstat fs d = None"
  using assms by (auto simp: verify_tombstone_def floor_path_text_def outcome_simps split: if_split_asm)

text \<open>
  C20: A restore that returns has put every file of the manifest in place with its recorded bytes
  and permissions, apart from the release floor, and has left alone every other entry: one that
  is neither a destination of the manifest, nor its temporary, nor updater state.
\<close>

theorem restore_puts_files_in_place:
  assumes "restore_local_snapshot_in_place env snapshot store False l fs = (fs', Inr plan)"
  shows "\<exists>m. rp_root_hash plan = mf_root_hash m \<and> rp_files plan = map fe_path (mf_files m)
    \<and> canonical_manifest env m
    \<and> (\<forall>e\<in>set (mf_files m). \<not> floor_path_text (fe_path e) \<longrightarrow> entry_restored env fs' e)
    \<and> (\<forall>q n. lstat fs q = Some n \<and> q \<noteq> [''.silicon''] \<and> \<not> updater_file q \<and> \<not> owned m q \<longrightarrow>
         lstat fs' q = Some n)"
  using assms
proof (rule restore_parts)
  fix fs0 fs1 fs2 fs3 m fplan l' created i u v
  assume frame: "\<forall>q. \<not> updater_file q \<and> q \<noteq> [''.silicon''] \<longrightarrow> lstat fs0 q = lstat fs q"
    and m: "verify_local_snapshot env fs0 snapshot SNAPSHOT_STORE l' = Inr m"
    and fplan: "plan_floor_restore env fs0 SNAPSHOT_STORE m = Inr fplan"
    and frame1: "\<forall>q. \<not> updater_file q \<longrightarrow> lstat fs1 q = lstat fs0 q"
    and run: "run_restore env SNAPSHOT_STORE m fplan created i (drop i (restore_ops m)) fs1 = (fs2, Inr u)"
    and ver: "verify_in_place_restore env m fplan fs2 = (fs3, Inr v)"
    and frame': "\<forall>q. \<not> updater_file q \<longrightarrow> lstat fs' q = lstat fs3 q"
    and plan: "plan = plan_of_manifest m False"
  from verify_in_place_parts(1) [OF ver] obtain w where
    vf: "verify_files env (mf_files m) fs2 = (fs3, Inr w)" by blast
  have "load_manifest env fs0 SNAPSHOT_STORE snapshot = Inr m"
    using m by (auto simp: verify_local_snapshot_def bindE_eq_Inr)
  then have canon: "canonical_manifest env m" by (rule load_manifest_canonical)
  have files: "entry_restored env fs' e" if "e \<in> set (mf_files m)" "\<not> floor_path_text (fe_path e)" for e
    using verify_files_hold [OF vf that] frame' by (rule entry_restored_frame)
  have keep: "lstat fs' q = Some n"
    if q: "lstat fs q = Some n" "q \<noteq> [''.silicon'']" "\<not> updater_file q" "\<not> owned m q" for q n
  proof -
    have "lstat fs1 q = Some n" using frame frame1 q by simp
    moreover have "q \<noteq> IN_PLACE_RESTORE_JOURNAL" using q(3) updater_files(3) by blast
    moreover have "e \<in> set (mf_files m)" if "fplan = Some p" "fp_entry p = Some e" for p e
      using plan_entry fplan that by blast
    ultimately have "lstat (fst (run_restore env SNAPSHOT_STORE m fplan created i
        (drop i (restore_ops m)) fs1)) q = Some n"
      by (intro run_restore_keeps q(4) set_drop_subset)
    with run have "lstat fs2 q = Some n" by simp
    from verify_files_keeps [OF this, of env "mf_files m"] vf have "lstat fs3 q = Some n" by simp
    with frame' q(3) show ?thesis by simp
  qed
  show ?thesis
    by (intro exI [of _ m]) (use plan canon files keep in \<open>simp add: plan_of_manifest_def\<close>)
qed

section \<open>A copy cut short\<close>

lemma make_parents_again:
  assumes "make_parents parent cs fs = (fs1, Inr p)"
  shows "make_parents parent cs fs1 = (fs1, Inr p)"
  using assms
proof (induction parent cs fs rule: make_parents.induct)
  case (2 parent c cs fs)
  let ?p = "parent @ [c]"
  show ?case
  proof (cases "lstat fs ?p")
    case None
    with 2(3) have run: "make_parents ?p cs (set_node ?p NDir fs) = (fs1, Inr p)" by (simp add: Let_def)
    have "lstat (set_node ?p NDir fs) ?p = Some NDir" by simp
    with make_parents_keeps [of "set_node ?p NDir fs" ?p NDir ?p cs] run have "lstat fs1 ?p = Some NDir" by simp
    with 2(1) [OF refl None run] show ?thesis by (simp add: Let_def)
  next
    case (Some nd)
    with 2(3) have nd: "nd = NDir" and run: "make_parents ?p cs fs = (fs1, Inr p)"
      by (cases nd; simp add: Let_def)+
    have "lstat fs1 ?p = Some NDir" using make_parents_keeps [of fs ?p NDir ?p cs] run Some nd by simp
    with 2(2) [OF refl Some nd run] show ?thesis by (simp add: Let_def)
  qed
qed simp

lemma restore_parent_again:
  assumes "restore_parent fs rel = (fs1, Inr pd)"
  shows "restore_parent fs1 rel = (fs1, Inr pd)"
proof (cases "validate_in_place_restore_path rel")
  case (Inr v)
  from assms obtain fs0 p where mp: "make_parents [] (butlast (posix_parts v)) fs = (fs0, Inr p)"
    and c: "(case lstat fs0 (posix_parts v) of
            None \<Rightarrow> (fs0, Inr (p, posix_parts v))
          | Some (NFile c m t) \<Rightarrow> (fs0, Inr (p, posix_parts v))
          | Some n \<Rightarrow> (fs0, Inl (UnsafePathErr ''destination''))) = (fs1, Inr pd)"
    unfolding restore_parent_def Inr sum.case Let_def bindS_eq_Inr by blast
  then have eq: "fs0 = fs1" by (simp split: option.splits node.splits)
  from make_parents_again [OF mp [unfolded eq]] show ?thesis
    unfolding restore_parent_def Inr sum.case Let_def by (simp only: bindS_Inr c [unfolded eq])
qed (use assms in \<open>simp add: restore_parent_def\<close>)

text \<open>
  A temporary that a crash left with part of an entry's bytes stops every later attempt to
  restore that entry: the attempt raises, leaves the temporary where it is, and the next attempt
  meets the same files and raises again.
\<close>

theorem partial_temporary_blocks_restore:
  assumes "validate_in_place_restore_path (fe_path e) = Inr rel"
    and "restore_parent fs rel = (fs1, Inr (parent, dest))"
    and "lstat fs (parent @ [temporary_name (last dest) h]) = Some (NFile (take k content) md t)"
    and "int (length content) = fe_size e" and "k < length content"
  shows "restore_manifest_file env store e h fs
       = (fs1, Inl (SnapshotIntegrityErr ''unknown restore temporary''))
    \<and> lstat fs1 (parent @ [temporary_name (last dest) h]) = Some (NFile (take k content) md t)
    \<and> restore_manifest_file env store e h fs1
       = (fs1, Inl (SnapshotIntegrityErr ''unknown restore temporary''))"
proof -
  let ?tmp = "parent @ [temporary_name (last dest) h]"
  have keep: "lstat fs1 ?tmp = Some (NFile (take k content) md t)"
    using restore_parent_keeps [OF assms(3), of rel] assms(2) by simp
  have "int (length (take k content)) \<noteq> fe_size e" using assms(4,5) by simp
  with keep have bad: "reusable_temporary env fs1 ?tmp e
      = Inl (SnapshotIntegrityErr ''unknown restore temporary'')"
    by (simp add: reusable_temporary_def)
  from assms(1,2) bad restore_parent_again [OF assms(2)] keep show ?thesis
    by (simp add: restore_manifest_file_def Let_def)
qed

section \<open>Witnesses\<close>

definition fs_restore_w :: files where
  "fs_restore_w =
     [([''.silicon''], NDir), (SNAPSHOT_STORE, NDir), (SNAPSHOT_STORE @ [''manifests''], NDir),
      (SNAPSHOT_STORE @ [''manifests'', dC @ ''.json''], NFile ''C'' 256 2),
      (OBJECTS, NDir), (OBJECTS @ [''sha256''], NDir), (OBJECTS @ [''sha256'', ''aa''], NDir),
      (OBJECTS @ [''sha256'', ''aa'', drop 2 dA], NFile ''x'' 256 0),
      (FLOOR_PATH, NFile ''F'' 384 0), ([''p''], NFile ''old'' 420 0), ([''q''], NFile ''mine'' 420 0)]"

lemma restore_w:
  "case restore_local_snapshot_in_place env_w (RefText dC) SNAPSHOT_STORE False None fs_restore_w of
     (fs', Inr plan) \<Rightarrow> True | _ \<Rightarrow> False"
  by code_simp

lemma restore_w_run:
  "\<exists>fs' plan. restore_local_snapshot_in_place env_w (RefText dC) SNAPSHOT_STORE False None fs_restore_w
     = (fs', Inr plan)"
  using restore_w by (auto split: prod.splits sum.splits)

lemma floor_restore_w: "read_local_floor env_w fs_restore_w = Inr (Some (5, dD))"
  by code_simp

theorem restore_never_lowers_floor_witness:
  "\<exists>fs' plan c'. restore_local_snapshot_in_place env_w (RefText dC) SNAPSHOT_STORE False None fs_restore_w
     = (fs', Inr plan) \<and> read_local_floor env_w fs' = Inr (Some c') \<and> 5 \<le> fst c'"
proof -
  obtain fs' plan where run: "restore_local_snapshot_in_place env_w (RefText dC) SNAPSHOT_STORE False None
     fs_restore_w = (fs', Inr plan)" using restore_w_run by blast
  from restore_never_lowers_floor [OF run floor_restore_w] run show ?thesis by auto
qed

theorem restore_puts_files_in_place_witness:
  "\<exists>fs' plan (m :: manifest). restore_local_snapshot_in_place env_w (RefText dC) SNAPSHOT_STORE False None fs_restore_w
     = (fs', Inr plan) \<and> rp_root_hash plan = mf_root_hash m
     \<and> (\<forall>e\<in>set (mf_files m). \<not> floor_path_text (fe_path e) \<longrightarrow> entry_restored env_w fs' e)"
proof -
  obtain fs' plan where run: "restore_local_snapshot_in_place env_w (RefText dC) SNAPSHOT_STORE False None
     fs_restore_w = (fs', Inr plan)" using restore_w_run by blast
  from restore_puts_files_in_place [OF run] show ?thesis
  proof (elim exE conjE)
    fix m :: manifest
    assume m: "rp_root_hash plan = mf_root_hash m"
      "\<forall>e\<in>set (mf_files m). \<not> floor_path_text (fe_path e) \<longrightarrow> entry_restored env_w fs' e"
    show ?thesis by (rule exI [of _ fs'], rule exI [of _ plan], rule exI [of _ m]) (intro conjI run m)
  qed
qed

definition entry_w :: file_entry where
  "entry_w = \<lparr>fe_path = ''p'', fe_sha256 = dA, fe_size = 1, fe_mode = 384, fe_classes = [''k'']\<rparr>"

definition fs_partial_w :: files where
  "fs_partial_w = ([temporary_name ''p'' dC], NFile [] 384 0) # fs_restore_w"

theorem partial_temporary_blocks_restore_witness:
  "restore_manifest_file env_w SNAPSHOT_STORE entry_w dC fs_partial_w
     = (fs_partial_w, Inl (SnapshotIntegrityErr ''unknown restore temporary''))"
proof -
  have "validate_in_place_restore_path (fe_path entry_w) = Inr ''p''" by code_simp
  moreover have "restore_parent fs_partial_w ''p'' = (fs_partial_w, Inr ([], [''p'']))"
    by code_simp
  moreover have "lstat fs_partial_w ([] @ [temporary_name (last [''p'']) dC])
      = Some (NFile (take 0 ''x'') 384 0)"
    by (simp add: fs_partial_w_def lstat_def)
  ultimately show ?thesis
    using partial_temporary_blocks_restore [of entry_w "''p''" fs_partial_w fs_partial_w "[]" "[''p'']"
        dC 0 "''x''" 384 0 env_w SNAPSHOT_STORE]
    by (simp add: entry_w_def)
qed

section \<open>The floor under another spelling\<close>

text \<open>
  A validated manifest whose file path starts with a space and otherwise spells the floor file,
  and an object with a lower floor.
\<close>

definition fs_alias_w :: files where
  "fs_alias_w =
     [([''.silicon''], NDir), (SNAPSHOT_STORE, NDir), (SNAPSHOT_STORE @ [''manifests''], NDir),
      (SNAPSHOT_STORE @ [''manifests'', dC @ ''.json''], NFile ''K'' 256 2),
      (OBJECTS, NDir), (OBJECTS @ [''sha256''], NDir), (OBJECTS @ [''sha256'', ''ee''], NDir),
      (OBJECTS @ [''sha256'', ''ee'', drop 2 dE], NFile ''G'' 256 0),
      (FLOOR_PATH, NFile ''F'' 384 0)]"

text \<open>
  The floor can be lowered through a path that is only trimmed when it is used: a restore of
  such a manifest raises, but the floor on disk has gone from sequence 5 to sequence 1, and the
  same call made again then succeeds.
\<close>

theorem restore_alias_lowers_floor:
  "\<exists>fs1 err fs2 plan.
     read_local_floor env_w fs_alias_w = Inr (Some (5, dD))
     \<and> restore_local_snapshot_in_place env_w (RefText dC) SNAPSHOT_STORE False None fs_alias_w
        = (fs1, Inl err)
     \<and> read_local_floor env_w fs1 = Inr (Some (1, dB))
     \<and> restore_local_snapshot_in_place env_w (RefText dC) SNAPSHOT_STORE False None fs1
        = (fs2, Inr plan)"
proof -
  have "case restore_local_snapshot_in_place env_w (RefText dC) SNAPSHOT_STORE False None fs_alias_w of
      (fs1, Inl err) \<Rightarrow> read_local_floor env_w fs1 = Inr (Some (1, dB))
        \<and> (case restore_local_snapshot_in_place env_w (RefText dC) SNAPSHOT_STORE False None fs1 of
             (fs2, Inr plan) \<Rightarrow> True | _ \<Rightarrow> False)
    | _ \<Rightarrow> False"
    by code_simp
  moreover have "read_local_floor env_w fs_alias_w = Inr (Some (5, dD))" by code_simp
  ultimately show ?thesis by (auto split: prod.splits sum.splits)
qed

end
