(* ===== verification/SnapshotSpec.thy ===== *)
theory SnapshotSpec
  imports Snapshot PolicySpec RestoreSpec
begin

text \<open>
  The properties of taking a snapshot: what a successful one holds, how a live source is copied,
  what stops one, and that mandatory data survives a snapshot and its restore.
\<close>

section \<open>What the operations leave alone\<close>

lemma mkdirs_keeps: "lstat fs q = Some n \<Longrightarrow> lstat (fst (mkdirs_from p cs fs)) q = Some n"
  by (induction p cs fs rule: mkdirs_from.induct) (auto split: option.split node.split)

lemma mkdirs_keeps' [intro]: "lstat fs q = Some n \<Longrightarrow> lstat (fst (mkdirs p fs)) q = Some n"
  by (simp add: mkdirs_def mkdirs_keeps)

lemma state_file_lock_keeps:
  "lstat fs q = Some n \<Longrightarrow> lstat (fst (state_file_lock env p fs)) q = Some n"
  unfolding state_file_lock_def Let_def
  by (rule bindS_keeps) (auto split: option.split node.split)

lemma store_bytes_keeps:
  "lstat fs q = Some n \<Longrightarrow> lstat (fst (store_bytes env store bytes fs)) q = Some n"
  by (cases "object_path store (se_sha env bytes)")
     (auto simp: store_bytes_def Let_def intro!: bindS_keeps)

lemma copy_attempt_keeps:
  assumes "lstat fs q = Some n"
  shows "lstat (fst (copy_attempt env live store l rel k fs)) q = Some n"
  unfolding copy_attempt_def
proof (rule bindS_keeps)
  show "lstat (fst (if rel = MAINTENANCE_STATE then state_file_lock env (posix_parts rel) fs
      else (fs, Inr ()))) q = Some n"
    using assms by (auto intro: state_file_lock_keeps)
next
  fix fs1 u assume q: "lstat fs1 q = Some n"
  show "lstat (fst (case safe_source_open fs1 rel of
          Inl e \<Rightarrow> (fs1, Inl e)
        | Inr (p, c, md) \<Rightarrow>
            (let (opened, reading, after) = (case live p k of None \<Rightarrow> (c, c, c) | Some v \<Rightarrow> v);
                 bytes = take (length opened) reading in
             if int (length opened) > sl_max_file_size l
             then (fs1, Inl (SnapshotLimitErr ''max_file_size''))
             else if length bytes \<noteq> length opened
                  \<or> \<not> source_only_appended (0, 0, int (length opened)) (0, 0, int (length after))
             then (fs1, Inr None)
             else bindS (store_bytes env store bytes fs1) (\<lambda>fs2 h.
               (fs2, Inr (Some (h, int (length bytes), md mod 512))))))) q = Some n"
    using q by (auto simp: Let_def split: sum.split prod.split
        intro!: bindS_keeps store_bytes_keeps)
qed

lemma copy_attempts_keeps:
  "lstat fs q = Some n \<Longrightarrow> lstat (fst (copy_attempts env live store l rel i k fs)) q = Some n"
proof (induction env live store l rel i k fs rule: copy_attempts.induct)
  case (2 env live store l rel i k fs)
  obtain fs1 r where at: "copy_attempt env live store l rel i fs = (fs1, r)" by fastforce
  have "lstat fs1 q = Some n" using copy_attempt_keeps [OF 2(3), of env live store l rel i] at by simp
  with 2(1) [OF at [symmetric]] 2(2) [OF at [symmetric]] at show ?case
    by (auto split: sum.split option.split)
qed simp

lemma copy_source_keeps:
  "lstat fs q = Some n \<Longrightarrow> lstat (fst (copy_source_to_object env live store l rel fs)) q = Some n"
  unfolding copy_source_to_object_def by (auto intro!: bindS_keeps copy_attempts_keeps)

section \<open>What a copy holds\<close>

text \<open>A source nobody writes to, and the bytes an attempt may store of a source that is written to.\<close>

abbreviation quiet :: live_view where "quiet \<equiv> \<lambda>p n. None"

definition bytes_seen :: "live_view \<Rightarrow> path \<Rightarrow> nat \<Rightarrow> string \<Rightarrow> string \<Rightarrow> bool" where
  "bytes_seen live p k c b \<longleftrightarrow>
     (case live p k of
        None \<Rightarrow> b = c
      | Some (opened, reading, after) \<Rightarrow>
          b = take (length opened) reading \<and> length b = length opened \<and> length opened \<le> length after)"

definition source_copied :: "snap_env \<Rightarrow> live_view \<Rightarrow> files \<Rightarrow> string \<Rightarrow> string \<times> int \<times> int \<Rightarrow> bool" where
  "source_copied env live fs rel r \<longleftrightarrow>
     (\<exists>v fs' c m t k b. validate_relative_path rel = Inr v
        \<and> (\<forall>q n. lstat fs q = Some n \<longrightarrow> lstat fs' q = Some n)
        \<and> lstat fs' (posix_parts v) = Some (NFile c m t) \<and> bytes_seen live (posix_parts v) k c b
        \<and> r = (se_sha env b, int (length b), m mod 512))"

lemma safe_source_open_Inr:
  assumes "safe_source_open fs rel = Inr (p, c, m)"
  shows "\<exists>v t. validate_relative_path rel = Inr v \<and> p = posix_parts v \<and> lstat fs p = Some (NFile c m t)"
proof -
  from assms obtain v where v: "validate_relative_path rel = Inr v"
    and node: "(case lstat fs (posix_parts v) of
         Some (NFile c m t) \<Rightarrow> Inr (posix_parts v, c, m)
       | Some NSock \<Rightarrow> Inl (SnapshotIntegrityErr ''open'')
       | _ \<Rightarrow> Inl (UnsafePathErr ''non-regular'')) = Inr (p, c, m)"
    unfolding safe_source_open_def Let_def bindE_eq_Inr by blast
  show ?thesis
  proof (cases "lstat fs (posix_parts v)")
    case (Some n)
    with node v show ?thesis by (cases n) auto
  qed (use node in simp)
qed

lemma store_bytes_Inr: "store_bytes env store bytes fs = (fs', Inr h) \<Longrightarrow> h = se_sha env bytes"
  by (auto simp: store_bytes_def Let_def bindS_eq_Inr bindE_eq_Inr split: sum.splits if_split_asm)

lemma copy_attempt_copied:
  assumes "copy_attempt env live store l rel k fs = (fs', Inr (Some r))"
  shows "source_copied env live fs rel r"
proof -
  obtain fs1 u where lock: "(if rel = MAINTENANCE_STATE then state_file_lock env (posix_parts rel) fs
      else (fs, Inr ())) = (fs1, Inr u)"
    and rest: "(case safe_source_open fs1 rel of
          Inl e \<Rightarrow> (fs1, Inl e)
        | Inr (p, c, md) \<Rightarrow>
            (let (opened, reading, after) = (case live p k of None \<Rightarrow> (c, c, c) | Some v \<Rightarrow> v);
                 bytes = take (length opened) reading in
             if int (length opened) > sl_max_file_size l
             then (fs1, Inl (SnapshotLimitErr ''max_file_size''))
             else if length bytes \<noteq> length opened
                  \<or> \<not> source_only_appended (0, 0, int (length opened)) (0, 0, int (length after))
             then (fs1, Inr None)
             else bindS (store_bytes env store bytes fs1) (\<lambda>fs2 h.
               (fs2, Inr (Some (h, int (length bytes), md mod 512)))))) = (fs', Inr (Some r))"
    using assms unfolding copy_attempt_def bindS_eq_Inr by blast
  have keeps: "\<forall>q n. lstat fs q = Some n \<longrightarrow> lstat fs1 q = Some n"
  proof (intro allI impI)
    fix q n assume "lstat fs q = Some n"
    then have "lstat (fst (if rel = MAINTENANCE_STATE then state_file_lock env (posix_parts rel) fs
        else (fs, Inr ()))) q = Some n" by (simp add: state_file_lock_keeps)
    then show "lstat fs1 q = Some n" unfolding lock by simp
  qed
  from rest obtain p c md where src: "safe_source_open fs1 rel = Inr (p, c, md)"
    by (cases "safe_source_open fs1 rel") auto
  from rest obtain h b where st: "store_bytes env store b fs1 = (fs', Inr h)"
    and r: "r = (h, int (length b), md mod 512)" and b: "bytes_seen live p k c b"
    unfolding src
    by (cases "live p k") (auto simp: bindS_eq_Inr bytes_seen_def source_only_appended_def Let_def split: if_split_asm)
  from safe_source_open_Inr [OF src] obtain v t where
    v: "validate_relative_path rel = Inr v" "p = posix_parts v" "lstat fs1 p = Some (NFile c md t)" by blast
  have "r = (se_sha env b, int (length b), md mod 512)" using r store_bytes_Inr [OF st] by simp
  with v b keeps show ?thesis unfolding source_copied_def by blast
qed

lemma source_copied_earlier:
  assumes "source_copied env live fs1 rel r" and "\<forall>q n. lstat fs q = Some n \<longrightarrow> lstat fs1 q = Some n"
  shows "source_copied env live fs rel r"
proof -
  from assms(1) obtain v fs' c m t k b where v: "validate_relative_path rel = Inr v"
    and keeps: "\<forall>q n. lstat fs1 q = Some n \<longrightarrow> lstat fs' q = Some n"
    and c: "lstat fs' (posix_parts v) = Some (NFile c m t)" and b: "bytes_seen live (posix_parts v) k c b"
    and r: "r = (se_sha env b, int (length b), m mod 512)"
    unfolding source_copied_def by blast
  have "\<forall>q n. lstat fs q = Some n \<longrightarrow> lstat fs' q = Some n" using keeps assms(2) by blast
  with v c b r show ?thesis unfolding source_copied_def by blast
qed

lemma copy_attempts_copied:
  "copy_attempts env live store l rel i k fs = (fs', Inr r) \<Longrightarrow> source_copied env live fs rel r"
proof (induction env live store l rel i k fs rule: copy_attempts.induct)
  case (2 env live store l rel i k fs)
  obtain fs1 a where at: "copy_attempt env live store l rel i fs = (fs1, a)" by fastforce
  have keeps: "\<forall>q n. lstat fs q = Some n \<longrightarrow> lstat fs1 q = Some n"
    using copy_attempt_keeps [of fs _ _ env live store l rel i] at by auto
  show ?case
  proof (cases a)
    case (Inl e)
    with 2(3) at have "is_OSError e \<or> is_SnapshotIntegrityError e"
      and "copy_attempts env live store l rel (i + 1) k fs1 = (fs', Inr r)"
      by (auto split: if_split_asm)
    then have "source_copied env live fs1 rel r" using 2(1) [OF at [symmetric] Inl] by simp
    then show ?thesis using keeps by (rule source_copied_earlier)
  next
    case (Inr x)
    show ?thesis
    proof (cases x)
      case None
      with 2(3) at Inr have "copy_attempts env live store l rel (i + 1) k fs1 = (fs', Inr r)" by simp
      then have "source_copied env live fs1 rel r" using 2(2) [OF at [symmetric] Inr None] by simp
      then show ?thesis using keeps by (rule source_copied_earlier)
    next
      case (Some y)
      with 2(3) at Inr have "a = Inr (Some r)" "fs1 = fs'" by simp_all
      with at show ?thesis by (auto intro: copy_attempt_copied)
    qed
  qed
qed simp

lemma copy_source_copied:
  assumes "copy_source_to_object env live store l rel fs = (fs', Inr r)"
  shows "source_copied env live fs rel r"
proof -
  obtain fs1 u where dirs: "mkdirs (store @ [''objects'', ''.tmp'']) fs = (fs1, Inr u)"
    and copy: "copy_attempts env live store l rel 0 (nat (sl_source_retries l)) fs1 = (fs', Inr r)"
    using assms unfolding copy_source_to_object_def bindS_eq_Inr by blast
  have "\<forall>q n. lstat fs q = Some n \<longrightarrow> lstat fs1 q = Some n"
    using mkdirs_keeps' [of fs _ _ "store @ [''objects'', ''.tmp'']"] dirs by auto
  with copy_attempts_copied [OF copy] show ?thesis by (rule source_copied_earlier)
qed

definition entry_copied :: "snap_env \<Rightarrow> live_view \<Rightarrow> files \<Rightarrow> file_entry \<Rightarrow> bool" where
  "entry_copied env live fs e \<longleftrightarrow> source_copied env live fs (fe_path e) (fe_sha256 e, fe_size e, fe_mode e)"

lemma copy_protected_entries:
  assumes "copy_protected env live store l tot acc pfs fs = (fs', Inr es)"
  shows "map fe_path es = map fe_path acc @ map pf_relative pfs
    \<and> (\<forall>e\<in>set es. e \<in> set acc \<or> entry_copied env live fs e)"
  using assms
proof (induction pfs arbitrary: tot acc fs)
  case (Cons f pfs)
  from Cons.prems obtain fs1 r where copy: "copy_source_to_object env live store l (pf_relative f) fs = (fs1, Inr r)"
    and rest: "(case r of (digest, sz, md) \<Rightarrow>
      bindS (fs1, if pf_relative f = RELEASE_SEQUENCE_FLOOR
                 then bindE (read_snapshot_floor env fs1 store digest sz) (\<lambda>_. Inr ())
                 else Inr ()) (\<lambda>fs2 _.
       if tot + sz > sl_max_total_size l then (fs2, Inl (SnapshotLimitErr ''max_total_size''))
       else copy_protected env live store l (tot + sz)
              (acc @ [\<lparr>fe_path = pf_relative f, fe_sha256 = digest, fe_size = sz, fe_mode = md,
                       fe_classes = pf_classes f\<rparr>]) pfs fs2)) = (fs', Inr es)"
    unfolding copy_protected.simps bindS_eq_Inr by blast
  obtain digest sz md where r: "r = (digest, sz, md)" by (cases r)
  let ?e = "\<lparr>fe_path = pf_relative f, fe_sha256 = digest, fe_size = sz, fe_mode = md,
                       fe_classes = pf_classes f\<rparr>"
  have "copy_protected env live store l (tot + sz) (acc @ [?e]) pfs fs1 = (fs', Inr es)"
    using rest unfolding r prod.case bindS_eq_Inr by (auto split: if_split_asm)
  note IH = Cons.IH [OF this]
  have keeps: "\<forall>q n. lstat fs q = Some n \<longrightarrow> lstat fs1 q = Some n"
    using copy_source_keeps [of fs _ _ env live store l "pf_relative f"] copy by auto
  have "entry_copied env live fs ?e"
    using copy_source_copied [OF copy] r by (simp add: entry_copied_def)
  moreover have "entry_copied env live fs e" if "entry_copied env live fs1 e" for e
    using that keeps unfolding entry_copied_def by (rule source_copied_earlier)
  ultimately show ?case using IH by auto
qed simp

section \<open>From the entries to the manifest\<close>

text \<open>Validation keeps an entry, apart from the spelling of its path.\<close>

definition same_entry :: "file_entry \<Rightarrow> file_entry \<Rightarrow> bool" where
  "same_entry e e' \<longleftrightarrow> validate_relative_path (fe_path e) = Inr (fe_path e')
     \<and> fe_sha256 e' = fe_sha256 e \<and> fe_size e' = fe_size e \<and> fe_mode e' = fe_mode e"

lemma entry_doc_fields:
  "get (entry_doc e) ''path'' = PStr (fe_path e)" "get (entry_doc e) ''sha256'' = PStr (fe_sha256 e)"
  "get (entry_doc e) ''size'' = PInt (fe_size e)" "get (entry_doc e) ''mode'' = PInt (fe_mode e)"
  by (simp_all add: entry_doc_def dict_simps)

lemma as_integrity_Inr: "as_integrity caught m = Inr x \<longleftrightarrow> m = Inr x"
  by (cases m) (auto simp: as_integrity_def)

lemma validate_entry_doc:
  "validate_file_entry env seen (entry_doc e) = Inr x \<Longrightarrow> same_entry e x"
  unfolding validate_file_entry_def Let_def entry_doc_fields
  by (auto simp: outcome_simps as_integrity_Inr same_entry_def split: if_split_asm option.splits)

lemma validate_entries_docs:
  assumes "foldE (\<lambda>acc e. bindE (validate_file_entry env (map fe_path acc) e) (\<lambda>x. Inr (acc @ [x])))
      acc (map entry_doc es) = Inr xs"
  shows "\<exists>ys. xs = acc @ ys \<and> list_all2 same_entry es ys"
  using assms
proof (induction es arbitrary: acc)
  case (Cons e es)
  from Cons.prems obtain x where x: "validate_file_entry env (map fe_path acc) (entry_doc e) = Inr x"
    and rest: "foldE (\<lambda>acc e. bindE (validate_file_entry env (map fe_path acc) e) (\<lambda>x. Inr (acc @ [x])))
      (acc @ [x]) (map entry_doc es) = Inr xs"
    unfolding list.map foldE_Cons_Inr bindE_eq_Inr by auto
  obtain ys where "xs = (acc @ [x]) @ ys" "list_all2 same_entry es ys" using Cons.IH [OF rest] by blast
  with validate_entry_doc [OF x] show ?case by (intro exI [of _ "x # ys"]) simp
qed simp

lemma manifest_doc_files:
  "get (PDict (manifest_doc m)) ''files'' = PList (map entry_doc (mf_files m))"
  by (simp add: manifest_doc_def body_doc_def dict_simps)

lemma validate_manifest_doc:
  assumes "validate_manifest env (PDict (manifest_doc m0)) = Inr m"
  shows "list_all2 same_entry (mf_files m0) (mf_files m)"
proof -
  from assms obtain entries where
    "validate_file_entries env (list_items (get (PDict (manifest_doc m0)) ''files'')) = Inr entries"
    and "mf_files m = entries"
    by (auto simp: validate_manifest_def outcome_simps Let_def split: if_split_asm)
  then show ?thesis
    using validate_entries_docs [of env "[]" "mf_files m0"]
    by (simp add: validate_file_entries_def manifest_doc_files [simplified])
qed

lemma build_manifest_entries:
  assumes "build_manifest env rid es prev = Inr m"
  shows "list_all2 same_entry es (mf_files m)"
  using assms validate_manifest_doc by (fastforce simp: build_manifest_def bindE_eq_Inr)

section \<open>The parts of a snapshot that was taken\<close>

lemma snapshot_protected_parts:
  assumes "snapshot_protected env live rid store previous l pfs fs = (fs', Inr r)"
  obtains fs1 es prev m' where
    "copy_protected env live store l 0 [] pfs fs = (fs1, Inr es)"
    "build_manifest env rid es prev = Inr (sr_manifest r)"
    "verify_local_snapshot env fs' (RefDoc (manifest_doc (sr_manifest r))) store l = Inr m'"
    "sr_root_hash r = mf_root_hash (sr_manifest r)"
  using assms unfolding snapshot_protected_def bindS_eq_Inr by (auto simp: bindE_eq_Inr)

lemma create_parts:
  assumes "create_local_snapshot env live rid None None previous l fs = (fs', Inr r)"
  obtains fs1 fs2 fs3 l' dp pfs u v where
    "snapshot_store_lock env fs = (fs1, Inr u)"
    "prepare_store None fs1 = (fs2, Inr SNAPSHOT_STORE)"
    "mkdirs SNAPSHOT_STORE fs2 = (fs3, Inr v)"
    "\<exists>fs4. load_policy env fs3 = (fs4, Inr dp) \<and> resolve_policy fs4 dp = Inr pfs
      \<and> snapshot_protected env live rid SNAPSHOT_STORE previous l' pfs fs4 = (fs', Inr r)"
proof -
  from assms obtain fs1 u where lock: "snapshot_store_lock env fs = (fs1, Inr u)"
    and run: "create_local_snapshot_locked env live rid None None previous l fs1 = (fs', Inr r)"
    by (auto simp: create_local_snapshot_def under_store_lock_def split: prod.splits sum.splits)
  from run obtain fs2 store fs3 v l' fs4 dp pfs where
    prep: "prepare_store None fs1 = (fs2, Inr store)" and dirs: "mkdirs store fs2 = (fs3, Inr v)"
    and rest: "load_policy env fs3 = (fs4, Inr dp)" "resolve_policy fs4 dp = Inr pfs"
      "snapshot_protected env live rid store previous l' pfs fs4 = (fs', Inr r)"
    unfolding create_local_snapshot_locked_def bindS_eq_Inr
    by (auto split: if_split_asm)
  have "store = SNAPSHOT_STORE"
    using prep by (auto simp: prepare_store_def bindS_eq_Inr split: if_split_asm)
  with lock prep dirs rest show thesis by (intro that) auto
qed

section \<open>Before the first copy\<close>

text \<open>The legacy path list is absent or a regular file.\<close>

definition legacy_list_ok :: "files \<Rightarrow> bool" where
  "legacy_list_ok fs \<longleftrightarrow> lstat fs MANIFEST_NAME = None \<or> regular_file fs MANIFEST_NAME"

lemma store_lock_keeps:
  assumes "snapshot_store_lock env fs = (fs1, Inr u)" and "lstat fs q = Some n" and "q \<noteq> SNAPSHOT_LOCK"
  shows "lstat fs1 q = Some n"
proof (cases "q = [''.silicon'']")
  case True
  with assms have "n = NDir"
    by (auto simp: snapshot_store_lock_def split: option.splits node.splits)
  with True store_lock_frame(2) [OF assms(1)] show ?thesis by simp
next
  case False
  with store_lock_frame(1) [OF assms(1)] assms(2,3) show ?thesis by simp
qed

lemma read_manifest_legacy:
  assumes "legacy_list_ok fs" and "read_manifest env fs = (fs', Inr ps)"
  shows "\<exists>c. fs' = fs \<or> fs' = set_node MANIFEST_NAME (NFile c 384 (se_mtime env)) fs
    \<or> (\<exists>c'. fs' = set_node MANIFEST_NAME (NFile c' 384 (se_mtime env))
                    (set_node MANIFEST_NAME (NFile c 384 (se_mtime env)) fs))"
proof -
  obtain fs1 as where en: "ensure_manifest_file env fs = (fs1, Inr as)"
    and rest: "(case lstat fs1 MANIFEST_NAME of
          Some (NFile c m t) \<Rightarrow>
            (case bindE (read_text c) (\<lambda>text. mapE parse_manifest_line (splitlines text)) of
               Inl e \<Rightarrow> (fs1, Inl e)
             | Inr parsed \<Rightarrow>
                 (let migrated = migrated_manifest parsed;
                      kept = filter (kept_line migrated) parsed;
                      patterns = map fst (filter (\<lambda>lp. snd lp \<noteq> None) kept);
                      fs2 = (if migrated
                             then set_node MANIFEST_NAME
                                    (NFile (join_lines (MANIFEST_HEADER # map fst kept)) 384 (se_mtime env)) fs1
                             else fs1) in
                  (fs2, Inr (fromkeys patterns))))
        | _ \<Rightarrow> (fs1, Inl (PyErr (OtherError ''FileNotFoundError'' [])))) = (fs', Inr ps)"
    using assms(2) unfolding read_manifest_def bindS_eq_Inr by blast
  have 1: "fs1 = fs \<or> (\<exists>c. fs1 = set_node MANIFEST_NAME (NFile c 384 (se_mtime env)) fs)"
    using en assms(1)
    by (auto simp: ensure_manifest_file_def legacy_list_ok_def regular_file_iff split: option.splits node.splits)
  have 2: "fs' = fs1 \<or> (\<exists>c. fs' = set_node MANIFEST_NAME (NFile c 384 (se_mtime env)) fs1)"
    using rest by (auto simp: Let_def split: option.splits node.splits sum.splits if_split_asm)
  from 1 2 show ?thesis by blast
qed

lemma clean_set_node: "clean_path p \<Longrightarrow> clean_names fs \<Longrightarrow> clean_names (set_node p n fs)"
  by (simp add: clean_names_def set_node_def dom_update)

lemma load_policy_keeps:
  assumes "legacy_list_ok fs" and "load_policy env fs = (fs', Inr dp)"
  shows "lstat fs q = Some n \<Longrightarrow> q \<noteq> MANIFEST_NAME \<Longrightarrow> lstat fs' q = Some n"
    and "clean_names fs \<Longrightarrow> clean_names fs'"
    and "\<exists>ps. load_data_policy env fs' (Some ps) = Inr dp"
proof -
  obtain ps where rm: "read_manifest env fs = (fs', Inr ps)" and ld: "load_data_policy env fs' (Some ps) = Inr dp"
    using assms(2) by (auto simp: load_policy_def bindS_eq_Inr)
  note cases = read_manifest_legacy [OF assms(1) rm]
  show "lstat fs q = Some n \<Longrightarrow> q \<noteq> MANIFEST_NAME \<Longrightarrow> lstat fs' q = Some n" using cases by auto
  have "clean_path MANIFEST_NAME" by (simp add: MANIFEST_NAME_def clean_path_def)
  then show "clean_names fs \<Longrightarrow> clean_names fs'" using cases clean_set_node by auto
  show "\<exists>ps. load_data_policy env fs' (Some ps) = Inr dp" using ld by blast
qed

text \<open>Making directories adds entries with clean names below the first component only.\<close>

lemma mkdirs_from_clean:
  "clean_path (p @ cs) \<Longrightarrow> clean_names fs \<Longrightarrow> clean_names (fst (mkdirs_from p cs fs))"
proof (induction p cs fs rule: mkdirs_from.induct)
  case (2 q c cs fs)
  have "clean_path (q @ [c])" using 2(3) by (simp add: clean_path_def)
  then have "clean_names (set_node (q @ [c]) NDir fs)" using 2(4) by (rule clean_set_node)
  with 2 show ?case by (auto split: option.split node.split)
qed simp

lemma mkdirs_from_other:
  "q \<noteq> [] \<Longrightarrow> hd q \<noteq> hd (p @ cs) \<Longrightarrow> lstat (fst (mkdirs_from p cs fs)) q = lstat fs q"
proof (induction p cs fs rule: mkdirs_from.induct)
  case (2 p c cs fs)
  have "q \<noteq> p @ [c]" using 2(4) by (cases p) auto
  with 2 show ?case by (auto split: option.split node.split)
qed simp

lemma store_lock_keeps_dir:
  assumes "snapshot_store_lock env fs = (fs1, Inr u)" and "lstat fs q = Some NDir"
  shows "lstat fs1 q = Some NDir"
proof (cases "q = SNAPSHOT_LOCK")
  case True
  with assms show ?thesis
    by (auto simp: snapshot_store_lock_def open_lock_file_def SNAPSHOT_LOCK_def split: option.splits node.splits)
qed (use store_lock_keeps [OF assms] in blast)

lemma store_lock_clean:
  assumes "snapshot_store_lock env fs = (fs1, Inr u)" and "clean_names fs"
  shows "clean_names fs1"
proof -
  have "clean_path [''.silicon'']" "clean_path SNAPSHOT_LOCK" by (simp_all add: clean_path_def SNAPSHOT_LOCK_def)
  with assms show ?thesis
    by (auto simp: snapshot_store_lock_def open_lock_file_def clean_set_node split: option.splits node.splits)
qed

text \<open>From the start of a call to the policy: the lock and the directories of the store.\<close>

lemma before_policy:
  assumes "snapshot_store_lock env fs = (fs1, Inr u)" and "prepare_store None fs1 = (fs2, Inr SNAPSHOT_STORE)"
    and "mkdirs SNAPSHOT_STORE fs2 = (fs3, Inr v)"
  shows "lstat fs q = Some n \<Longrightarrow> q \<noteq> SNAPSHOT_LOCK \<or> n = NDir \<Longrightarrow> lstat fs3 q = Some n"
    and "clean_names fs \<Longrightarrow> clean_names fs3" and "legacy_list_ok fs \<Longrightarrow> legacy_list_ok fs3"
proof -
  from assms(2) obtain fsa w w2 where a: "mkdirs [''.silicon''] fs1 = (fsa, Inr w)"
    and b: "mkdirs SNAPSHOT_STORE fsa = (fs2, Inr w2)"
    by (auto simp: prepare_store_def bindS_eq_Inr split: if_split_asm)
  show "lstat fs3 q = Some n" if "lstat fs q = Some n" "q \<noteq> SNAPSHOT_LOCK \<or> n = NDir"
  proof -
    have "lstat fs1 q = Some n" using that store_lock_keeps [OF assms(1)] store_lock_keeps_dir [OF assms(1)] by blast
    then have "lstat fsa q = Some n" using mkdirs_keeps' [of fs1 q n "[''.silicon'']"] a by simp
    then have "lstat fs2 q = Some n" using mkdirs_keeps' [of fsa q n SNAPSHOT_STORE] b by simp
    then show ?thesis using mkdirs_keeps' [of fs2 q n SNAPSHOT_STORE] assms(3) by simp
  qed
  have paths: "clean_path [''.silicon'']" "clean_path SNAPSHOT_STORE"
    by (simp_all add: clean_path_def SNAPSHOT_STORE_def)
  show "clean_names fs3" if "clean_names fs"
  proof -
    have "clean_names fsa"
      using mkdirs_from_clean [of "[]" "[''.silicon'']" fs1] paths(1) store_lock_clean [OF assms(1) that] a
      by (simp add: mkdirs_def)
    then have "clean_names fs2" using mkdirs_from_clean [of "[]" SNAPSHOT_STORE fsa] paths(2) b by (simp add: mkdirs_def)
    then show ?thesis using mkdirs_from_clean [of "[]" SNAPSHOT_STORE fs2] paths(2) assms(3) by (simp add: mkdirs_def)
  qed
  have same: "lstat (fst (mkdirs p g)) MANIFEST_NAME = lstat g MANIFEST_NAME" if "hd p = ''.silicon''" for p g
    using mkdirs_from_other [of MANIFEST_NAME "[]" p g] that by (simp add: mkdirs_def MANIFEST_NAME_def)
  have "lstat fsa MANIFEST_NAME = lstat fs1 MANIFEST_NAME" using same [of "[''.silicon'']" fs1] a by simp
  moreover have "lstat fs2 MANIFEST_NAME = lstat fsa MANIFEST_NAME"
    using same [of SNAPSHOT_STORE fsa] b by (simp add: SNAPSHOT_STORE_def)
  moreover have "lstat fs3 MANIFEST_NAME = lstat fs2 MANIFEST_NAME"
    using same [of SNAPSHOT_STORE fs2] assms(3) by (simp add: SNAPSHOT_STORE_def)
  moreover have "lstat fs1 MANIFEST_NAME = lstat fs MANIFEST_NAME"
    by (rule store_lock_frame(1) [OF assms(1)]) (simp_all add: MANIFEST_NAME_def SNAPSHOT_LOCK_def)
  ultimately show "legacy_list_ok fs3" if "legacy_list_ok fs"
    using that by (simp add: legacy_list_ok_def regular_file_def)
qed

section \<open>Mandatory data survives\<close>

text \<open>A path of the instance, written out, is accepted as itself or not at all.\<close>

lemma path_text_accepted:
  assumes "clean_path q" and "q \<noteq> []" and "strip (path_text q) = path_text q"
    and "validate_relative_pattern (path_text q) = Inr r"
  shows "r = path_text q" and "posix_parts (path_text q) = q"
proof -
  have joined: "path_text q = py_join ''/'' q" using assms(2) by (simp add: path_text_def)
  have split: "split_on (CHR ''/'') (path_text q) = q"
    using assms(1,2) split_on_join [of q "CHR ''/''"] by (simp add: joined clean_path_def)
  have nd: "\<not> is_prefix ''./'' (strip (path_text q))"
  proof
    assume "is_prefix ''./'' (strip (path_text q))"
    then obtain s where "path_text q = ''.'' @ CHR ''/'' # s"
      unfolding assms(3) is_prefix_iff by auto
    then have "split_on (CHR ''/'') (path_text q) = ''.'' # split_on (CHR ''/'') s"
      by (simp only:) (rule split_on_append, simp)
    then have "''.'' \<in> set q" using split by simp
    with assms(1) show False by (auto simp: clean_path_def)
  qed
  from accepted_relative(2) [OF assms(4) nd] names_of_accepted(1) [OF assms(4)]
  have "r = py_join ''/'' (posix_names (path_text q))"
    using strip_dot_slash_other [OF nd] assms(3) by simp
  then show "r = path_text q" using posix_names_text [OF assms(1)] joined by simp
  have "posix_root (path_text q) = []"
    using join_noslash_root(2) [of q] assms(1,2) by (simp add: joined clean_path_def)
  then show "posix_parts (path_text q) = q" using posix_names_text [OF assms(1)] by (simp add: posix_parts_root)
qed

lemma restore_path_pattern:
  "validate_in_place_restore_path s = Inr v \<Longrightarrow> validate_relative_pattern s = Inr v"
  by (auto simp: validate_in_place_restore_path_def bindE_eq_Inr validate_relative_path_Inr split: if_split_asm)

text \<open>A restore that returns has restored every entry of the manifest it was given.\<close>

lemma restored_entries:
  assumes "restore_local_snapshot_in_place env (RefDoc d) store False l fs = (fs', Inr plan)"
  obtains m where "validate_manifest env (PDict d) = Inr m"
    "\<forall>e\<in>set (mf_files m). \<not> floor_path_text (fe_path e) \<longrightarrow> entry_restored env fs' e"
  using assms
proof (rule restore_parts)
  fix fs0 fs1 fs2 fs3 m fplan l' created i u v
  assume m: "verify_local_snapshot env fs0 (RefDoc d) SNAPSHOT_STORE l' = Inr m"
    and ver: "verify_in_place_restore env m fplan fs2 = (fs3, Inr v)"
    and frame': "\<forall>q. \<not> updater_file q \<longrightarrow> lstat fs' q = lstat fs3 q"
  from verify_in_place_parts(1) [OF ver] obtain w where
    vf: "verify_files env (mf_files m) fs2 = (fs3, Inr w)" by blast
  have "validate_manifest env (PDict d) = Inr m"
    using m by (auto simp: verify_local_snapshot_def bindE_eq_Inr load_manifest_def)
  moreover have "entry_restored env fs' e" if "e \<in> set (mf_files m)" "\<not> floor_path_text (fe_path e)" for e
    using verify_files_hold [OF vf that] frame' by (rule entry_restored_frame)
  ultimately show thesis using that by blast
qed

lemma list_all2_pick: "list_all2 P xs ys \<Longrightarrow> x \<in> set xs \<Longrightarrow> \<exists>y\<in>set ys. P x y"
  by (auto simp: list_all2_conv_all_nth in_set_conv_nth) (metis nth_mem)

text \<open>What a snapshot has copied of a mandatory file.\<close>

lemma mandatory_file_copied:
  assumes "create_local_snapshot env live rid None None previous l fs = (fs1, Inr r)"
    and "clean_names fs" and "legacy_list_ok fs"
    and "c \<in> set MANDATORY_CLASSES" "oc_snapshot c" "pat \<in> set (oc_patterns c)" "covers pat q"
    and "lstat fs q = Some (NFile c0 md t)" and "\<forall>k<length q. lstat fs (take k q) = Some NDir"
    and "q \<noteq> MANIFEST_NAME" "q \<noteq> SNAPSHOT_LOCK"
  obtains e e' fsd where "e' \<in> set (mf_files (sr_manifest r))" "same_entry e e'" "fe_path e = path_text q"
    "entry_copied env live fsd e" "lstat fsd q = Some (NFile c0 md t)"
proof -
  from assms(1) obtain fsa fsb fsc l' dp pfs u v fsd where
    start: "snapshot_store_lock env fs = (fsa, Inr u)" "prepare_store None fsa = (fsb, Inr SNAPSHOT_STORE)"
      "mkdirs SNAPSHOT_STORE fsb = (fsc, Inr v)"
    and lp: "load_policy env fsc = (fsd, Inr dp)" and res: "resolve_policy fsd dp = Inr pfs"
    and sp: "snapshot_protected env live rid SNAPSHOT_STORE previous l' pfs fsd = (fs1, Inr r)"
    by (elim create_parts exE conjE)
  note bp = before_policy [OF start]
  note lk = load_policy_keeps [OF bp(3) [OF assms(3)] lp]
  have keep: "lstat fsd p = Some n" if "lstat fs p = Some n" "p \<noteq> MANIFEST_NAME" "p \<noteq> SNAPSHOT_LOCK \<or> n = NDir" for p n
    using that bp(1) lk(1) by blast
  have clean: "clean_names fsd" using assms(2) bp(2) lk(2) by blast
  have node: "lstat fsd q = Some (NFile c0 md t)" using keep assms(8,10,11) by blast
  have no_dir: "lstat fs MANIFEST_NAME \<noteq> Some NDir"
    using assms(3) by (auto simp: legacy_list_ok_def regular_file_iff)
  have dirs: "\<forall>k<length q. lstat fsd (take k q) = Some NDir" using keep assms(9) no_dir by (metis)
  obtain ps where ld: "load_data_policy env fsd (Some ps) = Inr dp" using lk(3) by blast
  have reg: "regular_file fsd q" using node by (auto simp: regular_file_iff)
  from mandatory_selected [OF ld res clean assms(4-7) reg dirs] obtain f where
    f: "f \<in> set pfs" "pf_relative f = path_text q" by blast
  from sp obtain fse es prev m' where
    cp: "copy_protected env live SNAPSHOT_STORE l' 0 [] pfs fsd = (fse, Inr es)"
    and bm: "build_manifest env rid es prev = Inr (sr_manifest r)"
    by (rule snapshot_protected_parts)
  note ce = copy_protected_entries [OF cp]
  from ce f have "path_text q \<in> set (map fe_path es)" by (metis append_Nil imageI list.map(1) list.set_map)
  then obtain e where e: "e \<in> set es" "fe_path e = path_text q" by auto
  have "entry_copied env live fsd e" using ce e(1) by auto
  moreover from list_all2_pick [OF build_manifest_entries [OF bm] e(1)] obtain e' where
    "e' \<in> set (mf_files (sr_manifest r))" "same_entry e e'" by blast
  ultimately show thesis using that e(2) node by blast
qed

text \<open>What the manifest then records: bytes that one attempt saw.\<close>

lemma mandatory_file_seen:
  assumes "create_local_snapshot env live rid None None previous l fs = (fs1, Inr r)"
    and "clean_names fs" and "legacy_list_ok fs"
    and "c \<in> set MANDATORY_CLASSES" "oc_snapshot c" "pat \<in> set (oc_patterns c)" "covers pat q"
    and "lstat fs q = Some (NFile c0 md t)" and "\<forall>k<length q. lstat fs (take k q) = Some NDir"
    and "q \<noteq> MANIFEST_NAME" "q \<noteq> SNAPSHOT_LOCK" and "strip (path_text q) = path_text q"
  obtains e k b where "e \<in> set (mf_files (sr_manifest r))" "fe_path e = path_text q"
    "bytes_seen live q k c0 b" "fe_sha256 e = se_sha env b" "fe_size e = int (length b)" "fe_mode e = md mod 512"
proof -
  from mandatory_file_copied [OF assms(1-11)] obtain e e' fsd where
    e': "e' \<in> set (mf_files (sr_manifest r))" "same_entry e e'" and e: "fe_path e = path_text q"
    and copied: "entry_copied env live fsd e" and node: "lstat fsd q = Some (NFile c0 md t)"
    by blast
  from copied obtain v fs' c' m' t' k b where v: "validate_relative_path (path_text q) = Inr v"
    and keeps: "\<forall>q n. lstat fsd q = Some n \<longrightarrow> lstat fs' q = Some n"
    and c': "lstat fs' (posix_parts v) = Some (NFile c' m' t')"
    and b: "bytes_seen live (posix_parts v) k c' b"
    and r: "(fe_sha256 e, fe_size e, fe_mode e) = (se_sha env b, int (length b), m' mod 512)"
    unfolding entry_copied_def source_copied_def e by blast
  have cq: "clean_path q" using clean_lstat [OF assms(2), of q] assms(8) by simp
  have ne: "q \<noteq> []" using assms(8) by (auto simp: lstat_def)
  from v have pat: "validate_relative_pattern (path_text q) = Inr v" by (simp add: validate_relative_path_Inr)
  note acc = path_text_accepted [OF cq ne assms(12)]
  have q: "posix_parts v = q" using acc(1) [OF pat] acc(2) [OF pat] by simp
  with c' keeps node have "c' = c0" "m' = md" by (metis node.inject(1) option.inject)+
  from e'(2) e have "validate_relative_pattern (path_text q) = Inr (fe_path e')"
    by (simp add: same_entry_def validate_relative_path_Inr)
  then have "fe_path e' = path_text q" by (rule acc(1))
  with e' r b q \<open>c' = c0\<close> \<open>m' = md\<close> show thesis by (intro that [of e' k b]) (simp_all add: same_entry_def)
qed

text \<open>
  C15: Mandatory data survives: once a snapshot of the instance has been taken and, after whatever
  happened to the instance in between, restored, every file that a mandatory class covers holds
  the bytes and permissions it had when the snapshot was taken. Excepted are the release floor,
  which never goes back, and the legacy path list; SHA-256 is assumed not to collide on the
  bytes of the file.
\<close>

theorem mandatory_data_survives:
  assumes "create_local_snapshot env quiet rid None None previous l fs = (fs1, Inr r)"
    and "restore_local_snapshot_in_place env (RefDoc (manifest_doc (sr_manifest r))) SNAPSHOT_STORE False l' fs2
      = (fs3, Inr plan)"
    and "clean_names fs" and "legacy_list_ok fs"
    and "c \<in> set MANDATORY_CLASSES" "oc_snapshot c" "pat \<in> set (oc_patterns c)" "covers pat q"
    and "lstat fs q = Some (NFile c0 md t)" and "\<forall>k<length q. lstat fs (take k q) = Some NDir"
    and "q \<noteq> MANIFEST_NAME" "q \<noteq> SNAPSHOT_LOCK" "q \<noteq> FLOOR_PATH" and "strip (path_text q) = path_text q"
    and "\<And>c'. se_sha env c' = se_sha env c0 \<Longrightarrow> c' = c0"
  shows "\<exists>t'. lstat fs3 q = Some (NFile c0 (md mod 512) t')"
proof -
  from mandatory_file_seen [OF assms(1,3-12,14)] obtain e where
    e: "e \<in> set (mf_files (sr_manifest r))" "fe_path e = path_text q" "fe_sha256 e = se_sha env c0"
      "fe_mode e = md mod 512" unfolding bytes_seen_def by auto
  from assms(2) obtain m where m: "validate_manifest env (PDict (manifest_doc (sr_manifest r))) = Inr m"
    and restored: "\<forall>e\<in>set (mf_files m). \<not> floor_path_text (fe_path e) \<longrightarrow> entry_restored env fs3 e"
    by (rule restored_entries)
  from list_all2_pick [OF validate_manifest_doc [OF m] e(1)] obtain e' where
    e': "e' \<in> set (mf_files m)" "same_entry e e'" by blast
  have cq: "clean_path q" using clean_lstat [OF assms(3), of q] assms(9) by simp
  have ne: "q \<noteq> []" using assms(9) by (auto simp: lstat_def)
  note acc = path_text_accepted [OF cq ne assms(14)]
  from e' e(2) have pat: "validate_relative_pattern (path_text q) = Inr (fe_path e')"
    by (simp add: same_entry_def validate_relative_path_Inr)
  then have path: "fe_path e' = path_text q" by (rule acc(1))
  have "\<not> floor_path_text (fe_path e')"
  proof
    assume "floor_path_text (fe_path e')"
    then have "validate_relative_pattern (path_text q) = Inr RELEASE_SEQUENCE_FLOOR"
      unfolding floor_path_text_def path by (rule restore_path_pattern)
    then have "posix_parts RELEASE_SEQUENCE_FLOOR = q" using acc by fastforce
    moreover have "posix_parts RELEASE_SEQUENCE_FLOOR = FLOOR_PATH" by code_simp
    ultimately show False using assms(13) by simp
  qed
  with restored e'(1) have "entry_restored env fs3 e'" by blast
  then obtain rel v c' t' where v: "validate_in_place_restore_path (path_text q) = Inr rel"
      "validate_in_place_restore_path rel = Inr v"
    and c': "lstat fs3 (posix_parts v) = Some (NFile c' (fe_mode e') t')" "se_sha env c' = fe_sha256 e'"
    unfolding entry_restored_def path by blast
  from acc(1) [OF restore_path_pattern [OF v(1)]] v(2) have "validate_relative_pattern (path_text q) = Inr v"
    by (simp add: restore_path_pattern)
  with acc have "posix_parts v = q" by fastforce
  moreover have "c' = c0" using c'(2) e'(2) e(3) assms(15) by (simp add: same_entry_def)
  ultimately show ?thesis using c'(1) e'(2) e(4) by (auto simp: same_entry_def)
qed

section \<open>Live sources\<close>

text \<open>A writer that only appends: what was there when the file was opened is a prefix of the rest.\<close>

definition append_only :: "live_view \<Rightarrow> bool" where
  "append_only live \<longleftrightarrow>
     (\<forall>p k opened reading after. live p k = Some (opened, reading, after) \<longrightarrow> (\<exists>x. reading = opened @ x))"

lemma bytes_seen_append_only:
  assumes "bytes_seen live p k c b" and "append_only live"
  shows "b = (case live p k of None \<Rightarrow> c | Some (opened, reading, after) \<Rightarrow> opened)"
proof (cases "live p k")
  case (Some v)
  obtain opened reading after where v: "v = (opened, reading, after)" by (cases v)
  with assms(2) Some obtain x where "reading = opened @ x" unfolding append_only_def by blast
  with assms(1) Some v show ?thesis by (simp add: bytes_seen_def)
qed (use assms(1) in \<open>simp add: bytes_seen_def\<close>)

text \<open>
  A mandatory file that other processes append to while it is copied, as they do to a log, is
  recorded with the bytes it held at one moment, when an attempt opened it, never with a
  torn mixture.
\<close>

theorem appended_file_recorded_as_opened:
  assumes "create_local_snapshot env live rid None None previous l fs = (fs1, Inr r)"
    and "append_only live" and "clean_names fs" and "legacy_list_ok fs"
    and "c \<in> set MANDATORY_CLASSES" "oc_snapshot c" "pat \<in> set (oc_patterns c)" "covers pat q"
    and "lstat fs q = Some (NFile c0 md t)" and "\<forall>k<length q. lstat fs (take k q) = Some NDir"
    and "q \<noteq> MANIFEST_NAME" "q \<noteq> SNAPSHOT_LOCK" and "strip (path_text q) = path_text q"
  shows "\<exists>e\<in>set (mf_files (sr_manifest r)). \<exists>k b. fe_path e = path_text q
    \<and> b = (case live q k of None \<Rightarrow> c0 | Some (opened, reading, after) \<Rightarrow> opened)
    \<and> fe_sha256 e = se_sha env b \<and> fe_size e = int (length b) \<and> fe_mode e = md mod 512"
proof -
  from mandatory_file_seen [OF assms(1,3-13)] obtain e k b where
    e: "e \<in> set (mf_files (sr_manifest r))" "fe_path e = path_text q" "bytes_seen live q k c0 b"
      "fe_sha256 e = se_sha env b" "fe_size e = int (length b)" "fe_mode e = md mod 512"
    by blast
  from e bytes_seen_append_only [OF e(3) assms(2)] show ?thesis by blast
qed

section \<open>Names that stop every snapshot\<close>

text \<open>
  A mandatory file whose name the path rules refuse, for example one with a star, a question
  mark or a bracket in it, is not skipped: it stops every snapshot of the instance.
\<close>

theorem refused_name_stops_snapshots:
  assumes "clean_names fs" and "legacy_list_ok fs"
    and "c \<in> set MANDATORY_CLASSES" "oc_snapshot c" "pat \<in> set (oc_patterns c)" "covers pat q"
    and "lstat fs q = Some (NFile c0 md t)" and "\<forall>k<length q. lstat fs (take k q) = Some NDir"
    and "q \<noteq> MANIFEST_NAME" "q \<noteq> SNAPSHOT_LOCK"
    and "validate_relative_path (path_text q) = Inl err"
  shows "\<exists>e. snd (create_local_snapshot env live rid None None previous l fs) = Inl e"
proof (rule ccontr)
  assume "\<not> ?thesis"
  then obtain fs1 r where "create_local_snapshot env live rid None None previous l fs = (fs1, Inr r)"
    by (metis old.sum.exhaust prod.collapse)
  from mandatory_file_copied [OF this assms(1-10)] obtain e fsd where
    "fe_path e = path_text q" "entry_copied env live fsd e" by blast
  with assms(11) show False by (simp add: entry_copied_def source_copied_def)
qed

section \<open>The archive of a legacy directory\<close>

lemma char_of_digit: "(char_of (48 + m) :: char) = char_of (48 + n) \<Longrightarrow> m < 10 \<Longrightarrow> n < 10 \<Longrightarrow> m = (n :: nat)"
  by (drule arg_cong [of _ _ "of_char :: char \<Rightarrow> nat"]) simp

lemma show_nat_not_Nil: "show_nat n \<noteq> []"
  by (subst show_nat.simps) simp

lemma show_nat_cases:
  "n < 10 \<Longrightarrow> show_nat n = [char_of (48 + n)]"
  "\<not> n < 10 \<Longrightarrow> show_nat n = show_nat (n div 10) @ [char_of (48 + n mod 10)]"
  by (simp_all add: show_nat.simps [of n])

lemma show_nat_inj: "show_nat m = show_nat n \<Longrightarrow> m = n"
proof (induction m arbitrary: n rule: less_induct)
  case (less m)
  show ?case
  proof (cases "m < 10")
    case m: True
    show ?thesis
    proof (cases "n < 10")
      case True
      with m less(2) have "(char_of (48 + m) :: char) = char_of (48 + n)" by (simp add: show_nat_cases(1))
      then show ?thesis using m True by (rule char_of_digit)
    next
      case False
      with m less(2) show ?thesis
        using show_nat_not_Nil [of "n div 10"] by (simp add: show_nat_cases(1) [OF m] show_nat_cases(2) [OF False])
    qed
  next
    case m: False
    show ?thesis
    proof (cases "n < 10")
      case True
      with m less(2) show ?thesis
        using show_nat_not_Nil [of "m div 10"] by (simp add: show_nat_cases(2) [OF m] show_nat_cases(1) [OF True])
    next
      case False
      from less(2) have "show_nat (m div 10) = show_nat (n div 10)"
        and c: "(char_of (48 + m mod 10) :: char) = char_of (48 + n mod 10)"
        by (simp_all only: show_nat_cases(2) [OF m] show_nat_cases(2) [OF False] append1_eq_conv)
      with less(1) [of "m div 10"] m have "m div 10 = n div 10" by simp
      moreover have "m mod 10 = n mod 10" by (rule char_of_digit [OF c]) simp_all
      ultimately show ?thesis by (metis div_mult_mod_eq)
    qed
  qed
qed

lemma archive_candidate_inj: "archive_candidate base (i + 2) = archive_candidate base (j + 2) \<Longrightarrow> i = j"
  using show_nat_inj [of "Suc (Suc i)" "Suc (Suc j)"] by (simp add: archive_candidate_def)

lemma archive_free: "\<exists>k. lstat fs [archive_candidate base (k + 2)] = None"
proof (rule ccontr)
  let ?f = "\<lambda>k. [archive_candidate base (k + 2)]"
  assume "\<nexists>k. lstat fs [archive_candidate base (k + 2)] = None"
  then have "range ?f \<subseteq> fst ` set fs" by (force simp: lstat_def map_of_eq_None_iff)
  then have "finite (range ?f)" by (rule finite_subset) simp
  moreover have "inj ?f" by (rule injI) (use archive_candidate_inj in \<open>simp only: list.inject, blast\<close>)
  ultimately show False using finite_imageD infinite_UNIV_nat by blast
qed

lemma unique_archive_finds:
  "lstat fs [archive_candidate base (i + k)] = None \<Longrightarrow>
     \<exists>a. unique_archive fs base i = Some a \<and> lstat fs [a] = None"
proof (induction k arbitrary: i)
  case 0
  then show ?case by (simp add: unique_archive.simps)
next
  case (Suc k)
  then have "\<exists>a. unique_archive fs base (i + 1) = Some a \<and> lstat fs [a] = None" by simp
  then show ?case by (subst unique_archive.simps) auto
qed

lemma unique_manifest_archive_found:
  "\<exists>a. unique_manifest_archive_path env fs = Some a \<and> lstat fs [a] = None"
proof -
  let ?base = "MANIFEST_ARCHIVE_PREFIX @ ''.'' @ se_stamp env"
  obtain k where "lstat fs [archive_candidate ?base (k + 2)] = None" using archive_free by blast
  then have "lstat fs [archive_candidate ?base (1 + (k + 1))] = None" by (simp add: add.commute)
  from unique_archive_finds [OF this] show ?thesis by (simp add: unique_manifest_archive_path_def)
qed

lemma map_of_rename:
  assumes "\<forall>r\<in>fst ` set fs. g r = q \<longleftrightarrow> r = p"
  shows "map_of (map (\<lambda>(r, n). (g r, n)) fs) q = map_of fs p"
  using assms by (induction fs) auto

text \<open>Every entry lies in a directory.\<close>

definition tree_files :: "files \<Rightarrow> bool" where
  "tree_files fs \<longleftrightarrow> (\<forall>p\<in>fst ` set fs. \<forall>k<length p. lstat fs (take k p) = Some NDir)"

text \<open>
  A directory or other non-file in the place of the legacy path list is always moved out of the
  way: the search for a free archive name ends, whatever names are taken, nothing is overwritten, what
  was below the old name is below the new one, and a fresh list stands in its place.
\<close>

theorem legacy_directory_archived:
  assumes "lstat fs MANIFEST_NAME = Some n" and "n \<noteq> NLink" and "\<not> regular_file fs MANIFEST_NAME"
    and "tree_files fs"
  shows "\<exists>a fs'. ensure_manifest_file env fs = (fs', Inr [a]) \<and> lstat fs [a] = None
    \<and> (\<forall>p. lstat fs' (a # p) = lstat fs (''.backupsilicon'' # p))
    \<and> (\<forall>p w. w \<noteq> a \<and> w \<noteq> ''.backupsilicon'' \<longrightarrow> lstat fs' (w # p) = lstat fs (w # p))
    \<and> lstat fs' MANIFEST_NAME = Some (NFile (join_lines [MANIFEST_HEADER]) 384 (se_mtime env))"
proof -
  obtain a where a: "unique_manifest_archive_path env fs = Some a" "lstat fs [a] = None"
    using unique_manifest_archive_found by blast
  let ?fs' = "set_node MANIFEST_NAME (NFile (join_lines [MANIFEST_HEADER]) 384 (se_mtime env))
      (rename_tree MANIFEST_NAME [a] fs)"
  let ?g = "\<lambda>r. if take (length MANIFEST_NAME) r = MANIFEST_NAME then [a] @ drop (length MANIFEST_NAME) r else r"
  have ren: "rename_tree MANIFEST_NAME [a] fs = map (\<lambda>(r, n). (?g r, n)) fs"
    by (simp add: rename_tree_def)
  have ne: "a \<noteq> ''.backupsilicon''" using a(2) assms(1) by (auto simp: MANIFEST_NAME_def)
  have free: "a # p \<notin> fst ` set fs" for p
  proof
    assume "a # p \<in> fst ` set fs"
    with assms(4) have "\<forall>k<length (a # p). lstat fs (take k (a # p)) = Some NDir"
      unfolding tree_files_def by blast
    then have "p \<noteq> [] \<Longrightarrow> lstat fs [a] = Some NDir" by (auto dest: spec [of _ 1])
    with a(2) have "p = []" by auto
    with \<open>a # p \<in> fst ` set fs\<close> a(2) show False by (force simp: lstat_def map_of_eq_None_iff)
  qed
  have keys: "take (length MANIFEST_NAME) r = MANIFEST_NAME \<longleftrightarrow> (\<exists>p. r = ''.backupsilicon'' # p)" for r
    by (cases r) (auto simp: MANIFEST_NAME_def)
  have run: "ensure_manifest_file env fs = (?fs', Inr [a])"
    using assms(1-3) a(1)
    by (cases n) (simp_all add: ensure_manifest_file_def regular_file_iff)
  have moved: "lstat ?fs' (a # p) = lstat fs (''.backupsilicon'' # p)" for p
  proof -
    have m: "map_of (rename_tree MANIFEST_NAME [a] fs) (a # p) = map_of fs (''.backupsilicon'' # p)"
      unfolding ren
    proof (rule map_of_rename, rule ballI)
      fix r assume r: "r \<in> fst ` set fs"
      then have "r \<noteq> a # p" using free by blast
      then show "?g r = a # p \<longleftrightarrow> r = ''.backupsilicon'' # p"
        using keys [of r] by (auto simp: MANIFEST_NAME_def)
    qed
    have "a # p \<noteq> MANIFEST_NAME" using ne by (simp add: MANIFEST_NAME_def)
    then have "lstat ?fs' (a # p) = lstat (rename_tree MANIFEST_NAME [a] fs) (a # p)" by simp
    with m show ?thesis by (simp only: lstat_def list.distinct if_False)
  qed
  have other: "lstat ?fs' (w # p) = lstat fs (w # p)" if w: "w \<noteq> a" "w \<noteq> ''.backupsilicon''" for w p
  proof -
    have m: "map_of (rename_tree MANIFEST_NAME [a] fs) (w # p) = map_of fs (w # p)"
      unfolding ren
    proof (rule map_of_rename, rule ballI)
      fix r assume "r \<in> fst ` set fs"
      show "?g r = w # p \<longleftrightarrow> r = w # p" using keys [of r] w by (auto simp: MANIFEST_NAME_def)
    qed
    have "w # p \<noteq> MANIFEST_NAME" using w by (simp add: MANIFEST_NAME_def)
    then have "lstat ?fs' (w # p) = lstat (rename_tree MANIFEST_NAME [a] fs) (w # p)" by simp
    with m show ?thesis by (simp only: lstat_def list.distinct if_False)
  qed
  show ?thesis using run a(2) moved other by (intro exI conjI) (auto simp: MANIFEST_NAME_def)
qed

section \<open>Witnesses\<close>

definition fs_survive_w :: files where
  "fs_survive_w =
     [([''prompts''], NDir), ([''prompts'', ''memory''], NDir),
      ([''prompts'', ''memory'', ''a.txt''], NFile ''x'' 33152 1), (MANIFEST_NAME, NFile [] 384 1),
      ([''.silicon''], NDir), (SNAPSHOT_LOCK, NFile [] 384 1), (SNAPSHOT_STORE, NDir)]"

definition memory_w :: path where "memory_w = [''prompts'', ''memory'', ''a.txt'']"

definition protected_w :: "protected_file list" where
  "protected_w =
     [\<lparr>pf_path = MANIFEST_NAME, pf_relative = ''.backupsilicon'', pf_classes = [''critical_living'']\<rparr>,
      \<lparr>pf_path = memory_w, pf_relative = ''prompts/memory/a.txt'', pf_classes = [''critical_living'']\<rparr>]"

definition manifest_w :: manifest where
  "manifest_w =
     \<lparr>mf_release_id = ''r'', mf_files =
        [\<lparr>fe_path = ''.backupsilicon'', fe_sha256 = dB, fe_size = 0, fe_mode = 384, fe_classes = [''critical_living'']\<rparr>,
         \<lparr>fe_path = ''prompts/memory/a.txt'', fe_sha256 = dA, fe_size = 1, fe_mode = 384,
          fe_classes = [''critical_living'']\<rparr>],
      mf_tombstones = [], mf_root_hash = dC\<rparr>"

text \<open>A later instance: the object store is left, the memory is lost.\<close>

definition fs_lost_w :: files where
  "fs_lost_w =
     [([''.silicon''], NDir), (SNAPSHOT_LOCK, NFile [] 384 1), (SNAPSHOT_STORE, NDir),
      (OBJECTS, NDir), (OBJECTS @ [''sha256''], NDir),
      (OBJECTS @ [''sha256'', ''aa''], NDir), (OBJECTS @ [''sha256'', ''aa'', drop 2 dA], NFile ''x'' 256 0),
      (OBJECTS @ [''sha256'', ''bb''], NDir), (OBJECTS @ [''sha256'', ''bb'', drop 2 dB], NFile [] 256 0)]"

lemma policy_survive_w:
  "case load_policy env_w fs_survive_w of
     (fs', Inr dp) \<Rightarrow> fs' = fs_survive_w \<and> resolve_policy fs_survive_w dp = Inr protected_w | _ \<Rightarrow> False"
  by code_simp

lemma snapshot_survive_w:
  "case snapshot_protected env_w quiet ''r'' SNAPSHOT_STORE None default_limits protected_w fs_survive_w of
     (fs', Inr r) \<Rightarrow> sr_manifest r = manifest_w | _ \<Rightarrow> False"
  by code_simp

lemma restore_survive_w:
  "case restore_local_snapshot_in_place env_w (RefDoc (manifest_doc manifest_w)) SNAPSHOT_STORE False None fs_lost_w of
     (fs', Inr plan) \<Rightarrow> True | _ \<Rightarrow> False"
  by code_simp

lemma start_survive_w:
  "snapshot_store_lock env_w fs_survive_w = (fs_survive_w, Inr ())"
  "prepare_store None fs_survive_w = (fs_survive_w, Inr SNAPSHOT_STORE)"
  "mkdirs SNAPSHOT_STORE fs_survive_w = (fs_survive_w, Inr ())"
  "some_limits None = Inr default_limits"
  "\<not> int (length protected_w) > sl_max_files default_limits"
  by code_simp+

text \<open>A writer appends to the memory while it is copied; the copies do not depend on it.\<close>

definition live_w :: live_view where
  "live_w p k = (if p = memory_w then Some (''x'', ''x and more'', ''x and more'') else None)"

lemma copies_survive_w:
  "copy_protected env_w live_w SNAPSHOT_STORE default_limits 0 [] protected_w fs_survive_w
   = copy_protected env_w quiet SNAPSHOT_STORE default_limits 0 [] protected_w fs_survive_w"
  by code_simp

lemma create_survive_w:
  assumes "copy_protected env_w live SNAPSHOT_STORE default_limits 0 [] protected_w fs_survive_w
    = copy_protected env_w quiet SNAPSHOT_STORE default_limits 0 [] protected_w fs_survive_w"
  shows "\<exists>fs1 r. create_local_snapshot env_w live ''r'' None None None None fs_survive_w = (fs1, Inr r)
    \<and> sr_manifest r = manifest_w"
proof -
  obtain fs' x where lp: "load_policy env_w fs_survive_w = (fs', x)" by fastforce
  from policy_survive_w obtain dp where dp: "x = Inr dp" and fs': "fs' = fs_survive_w"
    and res: "resolve_policy fs_survive_w dp = Inr protected_w"
    unfolding lp by (cases x) auto
  obtain fs1 y where sp: "snapshot_protected env_w quiet ''r'' SNAPSHOT_STORE None default_limits protected_w fs_survive_w
      = (fs1, y)" by fastforce
  from snapshot_survive_w obtain r where r: "y = Inr r" "sr_manifest r = manifest_w"
    unfolding sp by (cases y) auto
  have "snapshot_protected env_w live ''r'' SNAPSHOT_STORE None default_limits protected_w fs_survive_w = (fs1, y)"
    unfolding sp [symmetric] by (simp only: snapshot_protected_def assms)
  then have "create_local_snapshot env_w live ''r'' None None None None fs_survive_w = (fs1, Inr r)"
    using start_survive_w lp res unfolding dp fs' r(1)
    by (simp add: create_local_snapshot_def under_store_lock_def create_local_snapshot_locked_def)
  with r(2) show ?thesis by blast
qed

lemma memory_survive_w:
  "clean_names fs_survive_w" "legacy_list_ok fs_survive_w" "covers ''prompts/memory/**'' memory_w"
  "lstat fs_survive_w memory_w = Some (NFile ''x'' 33152 1)"
  "\<forall>k<length memory_w. lstat fs_survive_w (take k memory_w) = Some NDir"
  "strip (path_text memory_w) = path_text memory_w"
  by code_simp+

lemma memory_class_w:
  "MANDATORY_CLASSES ! 1 \<in> set MANDATORY_CLASSES" "oc_snapshot (MANDATORY_CLASSES ! 1)"
  "''prompts/memory/**'' \<in> set (oc_patterns (MANDATORY_CLASSES ! 1))"
  by (simp_all add: MANDATORY_CLASSES_def)

lemma memory_path_w: "memory_w \<noteq> MANIFEST_NAME" "memory_w \<noteq> SNAPSHOT_LOCK" "memory_w \<noteq> FLOOR_PATH"
  by (simp_all add: memory_w_def MANIFEST_NAME_def SNAPSHOT_LOCK_def FLOOR_PATH_def)

lemma restore_survive_w_run:
  "\<exists>fs3 plan. restore_local_snapshot_in_place env_w (RefDoc (manifest_doc manifest_w)) SNAPSHOT_STORE False None fs_lost_w
    = (fs3, Inr plan)"
  using restore_survive_w by (auto split: prod.splits sum.splits)

lemma sha_x_unique: "se_sha env_w c' = se_sha env_w ''x'' \<Longrightarrow> c' = ''x''"
  by (simp add: env_w_def dA_def dB_def dC_def dD_def dE_def split: if_split_asm)

theorem mandatory_data_survives_witness:
  "\<exists>fs1 r fs3 plan t'. create_local_snapshot env_w quiet ''r'' None None None None fs_survive_w = (fs1, Inr r)
    \<and> restore_local_snapshot_in_place env_w (RefDoc (manifest_doc (sr_manifest r))) SNAPSHOT_STORE False None
        fs_lost_w = (fs3, Inr plan)
    \<and> lstat fs_lost_w memory_w = None \<and> lstat fs3 memory_w = Some (NFile ''x'' 384 t')"
proof -
  obtain fs1 r where
    create: "create_local_snapshot env_w quiet ''r'' None None None None fs_survive_w = (fs1, Inr r)"
    and r: "sr_manifest r = manifest_w"
    using create_survive_w [OF refl] by (elim exE conjE) (rule that)
  obtain fs3 plan where
    restore: "restore_local_snapshot_in_place env_w (RefDoc (manifest_doc (sr_manifest r))) SNAPSHOT_STORE False None
        fs_lost_w = (fs3, Inr plan)"
    using restore_survive_w_run unfolding r by blast
  have "lstat fs_lost_w memory_w = None" by code_simp
  moreover from mandatory_data_survives [OF create restore memory_survive_w(1,2) memory_class_w
      memory_survive_w(3-5) memory_path_w memory_survive_w(6) sha_x_unique]
  obtain t' where "lstat fs3 memory_w = Some (NFile ''x'' 384 t')" by auto
  ultimately show ?thesis using create restore by blast
qed

theorem appended_file_recorded_as_opened_witness:
  "\<exists>fs1 r. create_local_snapshot env_w live_w ''r'' None None None None fs_survive_w = (fs1, Inr r)
    \<and> (\<exists>e\<in>set (mf_files (sr_manifest r)). fe_path e = path_text memory_w \<and> fe_size e = 1)"
proof -
  obtain fs1 r where
    create: "create_local_snapshot env_w live_w ''r'' None None None None fs_survive_w = (fs1, Inr r)"
    using create_survive_w [OF copies_survive_w] by (elim exE conjE) (rule that)
  have "append_only live_w" by (auto simp: append_only_def live_w_def)
  from appended_file_recorded_as_opened [OF create this memory_survive_w(1,2) memory_class_w
      memory_survive_w(3-5) memory_path_w(1,2) memory_survive_w(6)] create
  show ?thesis by (auto simp: live_w_def)
qed

definition fs_refused_w :: files where
  "fs_refused_w =
     [([''prompts''], NDir), ([''prompts'', ''memory''], NDir),
      ([''prompts'', ''memory'', ''notes[1].md''], NFile ''x'' 384 1)]"

theorem refused_name_stops_snapshots_witness:
  "\<exists>e. snd (create_local_snapshot env_w live_w ''r'' None None None None fs_refused_w) = Inl e"
proof -
  let ?q = "[''prompts'', ''memory'', ''notes[1].md'']"
  have facts: "clean_names fs_refused_w" "legacy_list_ok fs_refused_w" "covers ''prompts/memory/**'' ?q"
    "lstat fs_refused_w ?q = Some (NFile ''x'' 384 1)"
    "\<forall>k<length ?q. lstat fs_refused_w (take k ?q) = Some NDir" "?q \<noteq> MANIFEST_NAME" "?q \<noteq> SNAPSHOT_LOCK"
    "validate_relative_path (path_text ?q) = Inl (DataPolicyErr ''globs'')"
    by code_simp+
  from refused_name_stops_snapshots [OF facts(1,2) memory_class_w facts(3-8)] show ?thesis by blast
qed

definition fs_legacy_w :: files where
  "fs_legacy_w =
     [([''.backupsilicon''], NDir), ([''.backupsilicon'', ''old''], NFile ''o'' 420 1),
      ([''.backupsilicon.archive.s''], NDir)]"

theorem legacy_directory_archived_witness:
  "\<exists>a fs'. ensure_manifest_file env_w fs_legacy_w = (fs', Inr [a])
    \<and> lstat fs' [a, ''old''] = Some (NFile ''o'' 420 1) \<and> lstat fs' [''.backupsilicon.archive.s''] = Some NDir"
proof -
  have facts: "lstat fs_legacy_w MANIFEST_NAME = Some NDir" "\<not> regular_file fs_legacy_w MANIFEST_NAME"
    "lstat fs_legacy_w [''.backupsilicon'', ''old''] = Some (NFile ''o'' 420 1)"
    "lstat fs_legacy_w [''.backupsilicon.archive.s''] = Some NDir"
    by (simp_all add: fs_legacy_w_def lstat_def MANIFEST_NAME_def regular_file_def)
  have tree: "tree_files fs_legacy_w"
    by (auto simp: tree_files_def fs_legacy_w_def lstat_def less_Suc_eq)
  from legacy_directory_archived [OF facts(1) _ facts(2) tree] obtain a fs' where
    run: "ensure_manifest_file env_w fs_legacy_w = (fs', Inr [a])" and free: "lstat fs_legacy_w [a] = None"
    and moved: "\<forall>p. lstat fs' (a # p) = lstat fs_legacy_w (''.backupsilicon'' # p)"
    and others: "\<forall>p w. w \<noteq> a \<and> w \<noteq> ''.backupsilicon'' \<longrightarrow> lstat fs' (w # p) = lstat fs_legacy_w (w # p)"
    by blast
  have "''.backupsilicon.archive.s'' \<noteq> a" using facts(4) free by auto
  then have "lstat fs' [''.backupsilicon.archive.s''] = Some NDir"
    using others facts(4) by simp
  moreover have "lstat fs' [a, ''old''] = Some (NFile ''o'' 420 1)" using moved facts(3) by simp
  ultimately show ?thesis using run by blast
qed

end
