(* ===== verification/Event.thy ===== *)
theory Event
  imports SnapStore Glob
begin

text \<open>
  Reading the events of the messaging interface (\<open>core/interface.py\<close>): an event is a JSON object
  whose fields have had several spellings, at the top or below \<open>content\<close>. Each reader returns the
  first spelling that has a text. Identifiers are compared after lowering ASCII letters.
\<close>

section \<open>Text of fields\<close>

fun first_text :: "(pyv \<Rightarrow> string) \<Rightarrow> pyv list \<Rightarrow> string" where
  "first_text rp [] = []"
| "first_text rp (v # vs) =
     (if v \<noteq> PNone \<and> py_str rp v \<noteq> [] then py_str rp v else first_text rp vs)"

text \<open>The first of several keys of an object.\<close>

definition field :: "(pyv \<Rightarrow> string) \<Rightarrow> pyv \<Rightarrow> string list \<Rightarrow> string" where
  "field rp obj ks = first_text rp (map (get obj) ks)"

definition event_content :: "pyv \<Rightarrow> pyv" where
  "event_content event = (if is_dict (get event ''content'') then get event ''content'' else PDict [])"

definition event_type :: "(pyv \<Rightarrow> string) \<Rightarrow> pyv \<Rightarrow> string" where
  "event_type rp event =
     first_text rp (map (get event) [''type'', ''event_type'', ''eventType'']
       @ map (get (event_content event)) [''msgtype'', ''type''])"

definition event_id :: "(pyv \<Rightarrow> string) \<Rightarrow> pyv \<Rightarrow> string" where
  "event_id rp event =
     first_text rp (map (get event) [''event_id'', ''eventId'', ''id'']
       @ map (get (event_content event)) [''event_id'', ''id''])"

definition event_room_id :: "(pyv \<Rightarrow> string) \<Rightarrow> pyv \<Rightarrow> string" where
  "event_room_id rp event =
     (let room_id = first_text rp [get event ''room_id'', get event ''roomId'',
                                   get (event_content event) ''room_id''] in
      if room_id \<noteq> [] then room_id
      else (case get event ''room'' of PStr s \<Rightarrow> s | _ \<Rightarrow> []))"

section \<open>Senders\<close>

definition event_sender_candidates :: "(pyv \<Rightarrow> string) \<Rightarrow> pyv \<Rightarrow> string list" where
  "event_sender_candidates rp event =
     (let content = event_content event;
          sender = get event ''sender'';
          first = (if is_dict sender
                   then map (get sender)
                     [''id'', ''carbon_id'', ''carbonId'', ''silicon_id'', ''siliconId'', ''username'',
                      ''handle'', ''public_id'', ''publicId'', ''name'']
                   else [sender]);
          rest = map (get event)
              [''sender_id'', ''senderId'', ''sender_handle'', ''senderHandle'', ''sender_username'',
               ''senderUsername'', ''sender_public_id'', ''senderPublicId'', ''carbon_id'', ''carbonId'',
               ''silicon_id'', ''siliconId'']
            @ map (get content)
              [''sender'', ''sender_id'', ''senderId'', ''sender_handle'', ''senderHandle'',
               ''sender_username'', ''senderUsername'', ''carbon_id'', ''carbonId'', ''silicon_id'',
               ''siliconId''] in
      fromkeys (filter (\<lambda>t. t \<noteq> []) (map (\<lambda>v. strip (str_or_empty rp v)) (first @ rest))))"

definition identity_set :: "(pyv \<Rightarrow> string) \<Rightarrow> pyv list \<Rightarrow> string set" where
  "identity_set rp vs =
     set (concat (map (\<lambda>v. let t = strip (str_or_empty rp v) in if t = [] then [] else [t, lower t]) vs))"

definition event_is_self :: "(pyv \<Rightarrow> string) \<Rightarrow> pyv \<Rightarrow> dict \<Rightarrow> bool" where
  "event_is_self rp event state \<longleftrightarrow>
     truthy (get event ''is_self'') \<or> truthy (get event ''self'') \<or> truthy (get event ''sender_is_self'')
     \<or> identity_set rp (map PStr (event_sender_candidates rp event))
        \<inter> identity_set rp (list_items (dget state ''own_ids'')) \<noteq> {}"

section \<open>Body and attachments\<close>

definition event_body :: "(pyv \<Rightarrow> string) \<Rightarrow> pyv \<Rightarrow> string" where
  "event_body rp event =
     (let keys = [''body'', ''text'', ''message'', ''caption''] in
      strip (first_text rp (map (get event) keys @ map (get (event_content event)) keys)))"

definition event_display_time :: "(pyv \<Rightarrow> string) \<Rightarrow> pyv \<Rightarrow> string" where
  "event_display_time rp event =
     first_text rp [get event ''display_time'', get event ''displayTime'',
       get (event_content event) ''display_time'', get event ''created_at'', get event ''createdAt'']"

text \<open>The objects an attachment may be described in.\<close>

definition attachment_objects :: "pyv \<Rightarrow> pyv list" where
  "attachment_objects event =
     (let content = event_content event in
      filter is_dict [event, content, get event ''file'', get event ''attachment'',
                      get content ''file'', get content ''attachment''])"

definition first_nonempty :: "string list \<Rightarrow> string" where
  "first_nonempty ts = (case filter (\<lambda>t. t \<noteq> []) ts of [] \<Rightarrow> [] | t # _ \<Rightarrow> t)"

definition event_media_id :: "(pyv \<Rightarrow> string) \<Rightarrow> pyv \<Rightarrow> string" where
  "event_media_id rp event =
     first_nonempty (map (\<lambda>o1. field rp o1 [''media_id'', ''mediaId'', ''id'']) (attachment_objects event))"

definition event_filename :: "(pyv \<Rightarrow> string) \<Rightarrow> pyv \<Rightarrow> string \<Rightarrow> string" where
  "event_filename rp event media_id =
     (let value = first_nonempty
            (map (\<lambda>o1. field rp o1 [''filename'', ''file_name'', ''name'']) (attachment_objects event)) in
      if value \<noteq> [] then posix_name value
      else if media_id \<noteq> [] then media_id else ''media'')"

definition add_album_item ::
  "(pyv \<Rightarrow> string) \<Rightarrow> pyv \<Rightarrow> (string \<times> string) list \<Rightarrow> (string \<times> string) list" where
  "add_album_item rp item refs =
     (let media_id = field rp item [''media_id'', ''mediaId'', ''id''];
          filename = field rp item [''filename'', ''file_name'', ''name''] in
      if \<not> is_dict item \<or> media_id = [] \<or> media_id \<in> fst ` set refs then refs
      else refs @ [(media_id, if filename \<noteq> [] then posix_name filename else media_id)])"

definition event_media_references :: "(pyv \<Rightarrow> string) \<Rightarrow> pyv \<Rightarrow> (string \<times> string) list" where
  "event_media_references rp event =
     (let content = event_content event;
          media_id = event_media_id rp event;
          single = (if media_id \<noteq> [] then [(media_id, event_filename rp event media_id)] else []) in
      if event_type rp event \<noteq> ''m.album'' then single
      else (let refs = fold (add_album_item rp)
                  (concat (map list_items [get content ''items'', get event ''media_items'',
                                           get content ''media_items'', get event ''items''])) [] in
            if refs \<noteq> [] then refs else single))"

section \<open>References to other events\<close>

definition reply_of :: "(pyv \<Rightarrow> string) \<Rightarrow> pyv \<Rightarrow> string" where
  "reply_of rp obj =
     first_nonempty
       [field rp obj [''reply_to'', ''reply_to_event_id'', ''replyToEventId''],
        field rp (get obj ''reply'') [''event_id'', ''eventId'', ''id'', ''body'', ''text'']]"

definition event_reply_to :: "(pyv \<Rightarrow> string) \<Rightarrow> pyv \<Rightarrow> string" where
  "event_reply_to rp event =
     (let content = event_content event;
          relates_to = py_or (get content ''m.relates_to'') (get content ''relates_to'') in
      first_nonempty
        [reply_of rp event, reply_of rp content,
         first_text rp [get (get relates_to ''m.in_reply_to'') ''event_id'', get relates_to ''event_id'']])"

definition take_back_of :: "(pyv \<Rightarrow> string) \<Rightarrow> pyv \<Rightarrow> string" where
  "take_back_of rp obj =
     first_nonempty
       [field rp obj [''take_back_request_id'', ''takeBackRequestId'', ''take_back_id''],
        field rp (py_or (get obj ''take_back'') (get obj ''takeBack'')) [''request_id'', ''requestId'', ''id'']]"

definition event_take_back_request_id :: "(pyv \<Rightarrow> string) \<Rightarrow> pyv \<Rightarrow> string" where
  "event_take_back_request_id rp event =
     first_nonempty [take_back_of rp event, take_back_of rp (event_content event)]"

section \<open>Frames of the inbox\<close>

definition frame_room_id :: "(pyv \<Rightarrow> string) \<Rightarrow> pyv \<Rightarrow> string" where
  "frame_room_id rp room =
     strip (str_or_empty rp (py_or (get room ''room_id'') (py_or (get room ''roomId'') (get room ''id''))))"

text \<open>An event gets the room of its frame unless it names one.\<close>

definition with_room :: "pyv \<Rightarrow> pyv \<Rightarrow> pyv" where
  "with_room room event =
     (if truthy room \<and> \<not> truthy (get event ''room_id'') \<and> \<not> truthy (get event ''roomId'')
      then put ''room_id'' room event else event)"

definition event_from_frame :: "pyv \<Rightarrow> pyv option" where
  "event_from_frame frame =
     (if get frame ''type'' \<noteq> PStr ''event'' \<or> \<not> is_dict (get frame ''event'') then None
      else Some (with_room (get frame ''room_id'') (get frame ''event'')))"

definition room_events :: "(pyv \<Rightarrow> string) \<Rightarrow> pyv \<Rightarrow> pyv list result" where
  "room_events rp room =
     (if \<not> is_dict room \<or> \<not> is_dict (get room ''timeline'') then Inr []
      else bindE (py_iter (py_or (get (get room ''timeline'') ''events'') (PList []))) (\<lambda>raws.
        Inr (map (with_room (PStr (frame_room_id rp room))) (filter is_dict raws))))"

definition events_from_durable_frame :: "(pyv \<Rightarrow> string) \<Rightarrow> pyv \<Rightarrow> pyv list result" where
  "events_from_durable_frame rp frame =
     (case event_from_frame frame of
        Some event \<Rightarrow> Inr [event]
      | None \<Rightarrow>
          if get frame ''type'' \<noteq> PStr ''initial.snapshot'' then Inr []
          else bindE (py_iter (py_or (get frame ''rooms'') (PList []))) (\<lambda>rooms.
               bindE (mapE (room_events rp) rooms) (\<lambda>ess. Inr (concat ess))))"

section \<open>Canonical text with ASCII letters only\<close>

text \<open>\<open>json.dumps\<close> with its default \<open>ensure_ascii\<close>: every other character is escaped.\<close>

fun code_point :: "int list \<Rightarrow> int" where
  "code_point [a] = a"
| "code_point [a, b] = (a - 192) * 64 + (b - 128)"
| "code_point [a, b, c] = ((a - 224) * 64 + (b - 128)) * 64 + (c - 128)"
| "code_point [a, b, c, d] = (((a - 240) * 64 + (b - 128)) * 64 + (c - 128)) * 64 + (d - 128)"
| "code_point bs = 0"

definition unicode_escape :: "int \<Rightarrow> string" where
  "unicode_escape n =
     CHR 0x5C # ''u'' @ map hex_digit [n div 4096, n div 256 mod 16, n div 16 mod 16, n mod 16]"

definition ascii_escape :: "string \<Rightarrow> string" where
  "ascii_escape c =
     (let n = code_point (map of_char c) in
      if n < 127 then c
      else if n < 65536 then unicode_escape n
      else unicode_escape (55296 + (n - 65536) div 1024) @ unicode_escape (56320 + (n - 65536) mod 1024))"

definition ascii_json :: "(pyv \<Rightarrow> string) \<Rightarrow> pyv \<Rightarrow> string" where
  "ascii_json rp v = concat (map ascii_escape (chars_of (canonical_json rp v)))"

end
