(* ===== verification/JsonFile.thy ===== *)
theory JsonFile
  imports Store Outcome "HOL-Library.List_Lexorder" "HOL-Library.Char_ord"
begin

text \<open>
  JSON documents on disk as \<open>core/state_store.py\<close> keeps them: read with a default, written with
  sorted keys, changed in one step under the lock of the file.
\<close>

section \<open>Reading and writing\<close>

text \<open>A JSON file as \<open>read_json\<close> and \<open>write_json\<close> of \<open>core/state_store.py\<close> see it.\<close>

datatype json_file = Missing | Broken | Doc pyv

definition read_json :: "json_file \<Rightarrow> pyv \<Rightarrow> pyv" where
  "read_json f fallback = (case f of Doc v \<Rightarrow> v | _ \<Rightarrow> fallback)"

fun sort_keys :: "pyv \<Rightarrow> pyv" where
  "sort_keys (PList xs) = PList (map sort_keys xs)"
| "sort_keys (PDict d) = PDict (sort_key fst (map (map_prod id sort_keys) d))"
| "sort_keys v = v"

definition write_json :: "pyv \<Rightarrow> json_file" where
  "write_json v = Doc (sort_keys v)"

text \<open>Sorting the keys of a document changes no lookup.\<close>

lemma map_of_filter_key: "map_of d k = (case filter (\<lambda>kv. fst kv = k) d of [] \<Rightarrow> None | kv # _ \<Rightarrow> Some (snd kv))"
  by (induction d) auto

lemma map_of_sort_key: "map_of (sort_key fst d) k = map_of d k"
  by (simp add: map_of_filter_key sort_key_stable)

lemma map_of_sorted: "map_of (sort_key fst (map (map_prod id sort_keys) d)) k = map_option sort_keys (map_of d k)"
proof -
  have "map_of (map (map_prod id sort_keys) d) k = map_option sort_keys (map_of d k)"
    by (induction d) auto
  then show ?thesis by (simp add: map_of_sort_key)
qed

lemma dget_sort [simp]: "dget (sort_key fst (map (map_prod id sort_keys) d)) k = sort_keys (dget d k)"
  by (simp add: dget_def map_of_sorted split: option.split)

lemma get_sort_keys [simp]: "get (sort_keys v) k = sort_keys (get v k)"
  by (cases v) (simp_all add: get_def)

lemma is_dict_sort_keys [simp]: "is_dict (sort_keys v) = is_dict v"
  by (cases v) simp_all

lemma has_key_sort [simp]:
  "has_key (sort_key fst (map (map_prod id sort_keys) d)) k = has_key d k"
  by (simp add: has_key_def map_of_sorted)

lemma sort_keys_PStr [simp]: "sort_keys v = PStr s \<longleftrightarrow> v = PStr s"
  by (cases v) auto

lemma sort_key_map: "(\<And>x. f (g x) = f x) \<Longrightarrow> sort_key f (map g xs) = map g (sort_key f xs)"
proof (induction xs)
  case (Cons x xs)
  have "insort_key f (g x) (map g ys) = map g (insort_key f x ys)" for ys
    by (induction ys) (simp_all add: Cons.prems)
  then show ?case using Cons by simp
qed simp

lemma sort_keys_again [simp]: "sort_keys (sort_keys v) = sort_keys v"
proof (induction v rule: sort_keys.induct)
  case (2 d)
  let ?g = "map_prod id sort_keys"
  have twice: "map ?g (map ?g d) = map ?g d"
    using 2 by (auto simp: prod.map_comp)
  have "map ?g (sort_key fst (map ?g d)) = sort_key fst (map ?g d)"
    unfolding sort_key_map [of fst ?g "map ?g d", symmetric, simplified fst_map_prod id_apply, OF refl] twice ..
  then show ?case by (simp add: sort_key_id_if_sorted)
qed (auto simp: map_idI)

text \<open>A document is a store: what was saved is read back, up to the order of keys.\<close>

interpretation json_store: document_store
  "\<lambda>f. dict_items (read_json f (PDict []))" "\<lambda>d f. write_json (PDict d)"
  "\<lambda>d. True" "\<lambda>d k. sort_keys (dget d k)"
  by unfold_locales (simp_all add: write_json_def read_json_def)

section \<open>Changing a document\<close>

text \<open>An exception of the change leaves the file as it was.\<close>

definition update_json ::
  "dict \<Rightarrow> (dict \<Rightarrow> ('r \<times> dict) result) \<Rightarrow> json_file \<Rightarrow> json_file \<times> 'r result" where
  "update_json fallback upd f =
     (case read_json f (PDict fallback) of
        PDict d \<Rightarrow> (case upd d of
                     Inl e \<Rightarrow> (f, Inl e)
                   | Inr (r, d') \<Rightarrow> (write_json (PDict d'), Inr r))
      | _ \<Rightarrow> (f, Inl (AttributeError ''setdefault'')))"

text \<open>\<open>state.setdefault(k, {})\<close>, used as a dictionary.\<close>

definition section_of :: "string \<Rightarrow> dict \<Rightarrow> dict result" where
  "section_of k d =
     (case dget_or d k (PDict []) of PDict x \<Rightarrow> Inr x | _ \<Rightarrow> Inl (AttributeError k))"

text \<open>A section that was written is read back.\<close>

lemma section_written:
  "section_of k (sort_key fst (map (map_prod id sort_keys) (dput k (PDict x) d)))
     = Inr (sort_key fst (map (map_prod id sort_keys) x))"
  by (simp add: section_of_def dget_or_def map_of_sorted)

text \<open>\<open>xs[-n:]\<close> for a positive \<open>n\<close>.\<close>

definition last_of :: "nat \<Rightarrow> 'a list \<Rightarrow> 'a list" where
  "last_of n xs = drop (length xs - n) xs"

lemma last_of_map: "last_of n (map f xs) = map f (last_of n xs)"
  by (simp add: last_of_def drop_map)

lemma list_all_last_of: "list_all P xs \<Longrightarrow> list_all P (last_of n xs)"
  by (auto simp: last_of_def list_all_iff dest: in_set_dropD)

section \<open>Bounded dictionaries\<close>

definition age_key :: "string \<Rightarrow> string \<times> pyv \<Rightarrow> rat result" where
  "age_key field kv = py_float (py_or (get (snd kv) field) (PFloat 0))"

text \<open>
  All but the newest \<open>n\<close> entries by a time field; equal times keep the order of the dictionary.
\<close>

definition keep_newest :: "string \<Rightarrow> nat \<Rightarrow> dict \<Rightarrow> dict result" where
  "keep_newest field n d =
     (if length d \<le> n then Inr d
      else bindE (mapE (age_key field) d) (\<lambda>ages.
             (let doomed = take (length d - n) (map fst (sort_key snd (zip (map fst d) ages))) in
              Inr (filter (\<lambda>kv. fst kv \<notin> set doomed) d))))"

lemma insort_key_snoc: "f y \<le> f x \<Longrightarrow> insort_key f y (ys @ [x]) = insort_key f y ys @ [x]"
  by (induction ys) auto

lemma sort_key_snoc: "(\<And>y. y \<in> set xs \<Longrightarrow> f y \<le> f x) \<Longrightarrow> sort_key f (xs @ [x]) = sort_key f xs @ [x]"
  by (induction xs) (simp_all add: insort_key_snoc)

lemma map_of_filter_keys:
  "map_of (filter (\<lambda>kv. fst kv \<notin> S) d) k = (if k \<in> S then None else map_of d k)"
  by (induction d) auto

lemma keep_newest_filter:
  assumes "keep_newest field n d = Inr d'"
  obtains S where "d' = filter (\<lambda>kv. fst kv \<notin> S) d"
  using assms that [of "{}"] by (auto simp: keep_newest_def bindE_eq_Inr Let_def split: if_splits)

text \<open>The entry added last stays when no other is younger.\<close>

lemma keep_newest_last:
  assumes k: "keep_newest field n (d @ [(tok, v)]) = Inr d'" and n: "0 < n" and new: "tok \<notin> fst ` set d"
    and age: "age_key field (tok, v) = Inr a" and old: "\<And>kv b. kv \<in> set d \<Longrightarrow> age_key field kv = Inr b \<Longrightarrow> b \<le> a"
  shows "(tok, v) \<in> set d'"
proof (cases "length (d @ [(tok, v)]) \<le> n")
  case False
  with k obtain ages where ages: "mapE (age_key field) (d @ [(tok, v)]) = Inr ages"
    and d': "d' = filter (\<lambda>kv. fst kv \<notin> set (take (length (d @ [(tok, v)]) - n)
                (map fst (sort_key snd (zip (map fst (d @ [(tok, v)])) ages))))) (d @ [(tok, v)])"
    by (auto simp: keep_newest_def bindE_eq_Inr Let_def)
  have split: "\<exists>as. mapE (age_key field) d = Inr as \<and> ages = as @ [a] \<and> length as = length d"
    using ages age
  proof (induction d arbitrary: ages)
    case (Cons kv d)
    then show ?case by (auto split: sum.splits)
  qed simp
  then obtain as where as: "mapE (age_key field) d = Inr as" "ages = as @ [a]" "length as = length d" by blast
  have le: "snd p \<le> snd (tok, a)" if "p \<in> set (zip (map fst d) as)" for p
  proof -
    from that have "(fst p, snd p) \<in> set (zip (map fst d) as)" by simp
    then have "snd p \<in> set as" by (rule set_zip_rightD)
    then obtain kv where "kv \<in> set d" "age_key field kv = Inr (snd p)"
      using mapE_Inr_set [OF as(1)] by blast
    then show ?thesis using old by simp
  qed
  have z: "zip (map fst (d @ [(tok, v)])) ages = zip (map fst d) as @ [(tok, a)]"
    using as by simp
  have "take (length (d @ [(tok, v)]) - n) (map fst (sort_key snd (zip (map fst (d @ [(tok, v)])) ages)))
      = take (length (d @ [(tok, v)]) - n) (map fst (sort_key snd (zip (map fst d) as)))"
  proof -
    have "sort_key snd (zip (map fst d) as @ [(tok, a)]) = sort_key snd (zip (map fst d) as) @ [(tok, a)]"
      by (rule sort_key_snoc) (rule le)
    then show ?thesis unfolding z using n as(3) by simp
  qed
  moreover have "tok \<notin> set (take m (map fst (sort_key snd (zip (map fst d) as))))" for m
    using new by (auto dest!: in_set_takeD set_zip_leftD)
  ultimately show ?thesis by (simp add: d')
qed (use k in \<open>auto simp: keep_newest_def\<close>)

end
