(* ===== verification/Contacts.thy ===== *)
theory Contacts
  imports Event Trust JsonFile
begin

text \<open>
  The contacts document of \<open>core/interface.py\<close> and the operations on it: loading with the
  migration of a legacy file, room discovery, the marks of handled events. Every operation runs
  under the lock of the document, so it is one step; it loads the document, changes it and
  writes it back with its keys sorted. The containers of the document have the types the module
  writes; the document itself may be anything.

  The clock, the answers of the Interface client and the trust policy in force are parameters.
\<close>

section \<open>Files\<close>

record cenv =
  ce_repr :: "pyv \<Rightarrow> string"
  ce_iso :: string
  ce_now :: rat
  ce_tenv :: tenv
  ce_trust :: tworld
  ce_whoami :: "pyv result"
  ce_rooms :: "pyv result"
  ce_members :: "string \<Rightarrow> pyv result"

record cfiles =
  cf_contacts :: json_file
  cf_legacy :: json_file

section \<open>Loading\<close>

definition default_contacts_state :: dict where
  "default_contacts_state =
     [(''version'', PInt 1), (''contacts'', PDict []), (''rooms'', PDict []),
      (''processed_events'', PDict []), (''work_event_refs'', PDict []), (''own_ids'', PList []),
      (''last_room_sync'', PInt 0), (''last_seen_event_id'', PStr [])]"

definition setdefault :: "string \<Rightarrow> pyv \<Rightarrow> dict \<Rightarrow> dict" where
  "setdefault k v d = (if has_key d k then d else dput k v d)"

definition normalize_contact_type :: "(pyv \<Rightarrow> string) \<Rightarrow> pyv \<Rightarrow> string" where
  "normalize_contact_type rp v =
     (if py_contains ''silicon'' (lower (str_or_empty rp v)) then ''silicon'' else ''carbon'')"

definition typed_id :: "string \<Rightarrow> string \<Rightarrow> string \<Rightarrow> pyv" where
  "typed_id kind contact_type fixed_id = PStr (if contact_type = kind then fixed_id else [])"

definition migrate_contact :: "cenv \<Rightarrow> string \<times> pyv \<Rightarrow> dict \<Rightarrow> dict" where
  "migrate_contact E kv state =
     (let rp = ce_repr E; key = fst kv; info = snd kv;
          contact_type = normalize_contact_type rp (dget_or (dict_items info) ''contact_type'' (PStr ''carbon''));
          fixed_id = strip (py_str rp (if contact_type = ''silicon'' then get info ''silicon_id''
                                       else py_or (get info ''carbon_id'') (PStr key)));
          text = (\<lambda>k. dget_or (dict_items info) k (PStr []));
          contact = PDict
            [(''contact_type'', PStr contact_type), (''carbon_id'', typed_id ''carbon'' contact_type fixed_id),
             (''silicon_id'', typed_id ''silicon'' contact_type fixed_id), (''fixed_id'', PStr fixed_id),
             (''room_id'', PStr (str_or_empty rp (get info ''room_id''))), (''trust_level'', PStr ''very_low''),
             (''is_central_carbon'', PBool False), (''local_notes'', text ''local_notes''),
             (''relation'', text ''relation''), (''description'', text ''description''),
             (''timezone'', text ''timezone''),
             (''display_name'', py_or (get info ''display_name'') (py_or (get info ''name'') (PStr fixed_id))),
             (''name'', py_or (get info ''name'') (py_or (get info ''display_name'') (PStr fixed_id))),
             (''last_processed_event_ids'', PList []), (''last_processed_event_id'', PStr []),
             (''last_polled_event_id'', PStr []), (''created_at'', PStr (ce_iso E)),
             (''updated_at'', PStr (ce_iso E)),
             (''metadata'', PDict [(''migrated_from'', PStr ''core/telegram/contacts.json'')])];
          state1 = dput ''contacts'' (put fixed_id contact (dget state ''contacts'')) state in
      if \<not> is_dict info \<or> fixed_id = [] then state
      else if truthy (get info ''room_id'')
      then dput ''rooms'' (put (py_str rp (get info ''room_id'')) (PStr fixed_id) (dget state1 ''rooms'')) state1
      else state1)"

definition migrate_legacy_contacts :: "cenv \<Rightarrow> json_file \<Rightarrow> dict option" where
  "migrate_legacy_contacts E legacy =
     (if legacy = Missing then None
      else (case get (read_json legacy (PDict [])) ''contacts'' of
              PDict d \<Rightarrow> Some (fold (migrate_contact E) d default_contacts_state)
            | _ \<Rightarrow> None))"

definition save_state :: "dict \<Rightarrow> cfiles \<Rightarrow> cfiles" where
  "save_state s fs = fs\<lparr>cf_contacts := write_json (PDict s)\<rparr>"

definition load_state :: "cenv \<Rightarrow> cfiles \<Rightarrow> cfiles \<times> dict result" where
  "load_state E fs =
     (let fs1 = (if cf_contacts fs = Missing
                 then (case migrate_legacy_contacts E (cf_legacy fs) of
                         None \<Rightarrow> fs | Some s \<Rightarrow> save_state s fs)
                 else fs) in
      case read_json (cf_contacts fs1) (PDict default_contacts_state) of
        PDict d \<Rightarrow> (fs1, Inr (fold (\<lambda>(k, v). setdefault k v) default_contacts_state d))
      | _ \<Rightarrow> (fs1, Inl (AttributeError ''setdefault'')))"

section \<open>Contacts and rooms\<close>

definition display_name :: "(pyv \<Rightarrow> string) \<Rightarrow> pyv \<Rightarrow> string \<Rightarrow> string" where
  "display_name rp obj fallback =
     py_str rp (py_or (get obj ''display_name'') (py_or (get obj ''displayName'')
       (py_or (get obj ''name'') (py_or (get obj ''username'') (PStr fallback)))))"

definition contact_metadata :: "pyv \<Rightarrow> dict" where
  "contact_metadata obj =
     filter (\<lambda>kv. fst kv \<notin> set [''members'', ''events'', ''content''] \<and> \<not> is_prefix ''_'' (fst kv))
       (dict_items obj)"

definition member_fixed_id :: "(pyv \<Rightarrow> string) \<Rightarrow> pyv \<Rightarrow> string \<Rightarrow> string" where
  "member_fixed_id rp member contact_type =
     (let fixed = (if contact_type = ''silicon''
                   then py_or (get member ''silicon_id'') (py_or (get member ''siliconId'') (get member ''username''))
                   else py_or (get member ''carbon_id'') (py_or (get member ''carbonId'') (get member ''public_id''))) in
      if truthy fixed then strip (py_str rp fixed)
      else if has_key (dict_items member) ''member_kind'' then []
      else strip (str_or_empty rp (get member ''id'')))"

text \<open>A contact the cache has no confirmed entry for starts with the lowest level.\<close>

definition new_contact ::
  "cenv \<Rightarrow> string \<Rightarrow> string \<Rightarrow> string \<Rightarrow> string \<Rightarrow> string \<Rightarrow> dict \<Rightarrow> dict" where
  "new_contact E contact_type fixed_id room_id name timezone metadata =
     (let rp = ce_repr E;
          entry = cached_trust_entry (ce_tenv E) contact_type fixed_id (ce_trust E);
          glass_trust = py_str rp (py_or (dget entry ''level'') (PStr ''very_low''));
          shown = (if name \<noteq> [] then name else fixed_id) in
      [(''contact_type'', PStr contact_type), (''carbon_id'', typed_id ''carbon'' contact_type fixed_id),
       (''silicon_id'', typed_id ''silicon'' contact_type fixed_id), (''fixed_id'', PStr fixed_id),
       (''room_id'', PStr room_id),
       (''trust_level'', PStr (if glass_trust \<in> set VALID_LEVELS then glass_trust else ''very_low'')),
       (''trust_source'', PStr (py_str rp (py_or (dget entry ''source'') (PStr ''glass_default'')))),
       (''is_central_carbon'', PBool (contact_type = ''carbon'' \<and> truthy (dget entry ''central_carbon''))),
       (''local_notes'', PStr []), (''relation'', PStr []), (''description'', PStr []),
       (''timezone'', PStr timezone), (''display_name'', PStr shown), (''name'', PStr shown),
       (''last_processed_event_ids'', PList []), (''last_processed_event_id'', PStr []),
       (''last_polled_event_id'', PStr []), (''created_at'', PStr (ce_iso E)),
       (''updated_at'', PStr (ce_iso E)), (''metadata'', PDict metadata)])"

definition old_contact ::
  "cenv \<Rightarrow> string \<Rightarrow> string \<Rightarrow> string \<Rightarrow> string \<Rightarrow> string \<Rightarrow> dict \<Rightarrow> dict \<Rightarrow> dict result" where
  "old_contact E contact_type fixed_id room_id name timezone metadata contact =
     (let expected = dget contact (if contact_type = ''silicon'' then ''silicon_id'' else ''carbon_id'') in
      if dget contact ''contact_type'' \<noteq> PStr contact_type then Inl (ValueError ''already exists'')
      else if truthy expected \<and> expected \<noteq> PStr fixed_id then Inl (ValueError ''immutable'')
      else
        (let c1 = fold (\<lambda>(k, v). setdefault k v)
               [(''fixed_id'', PStr fixed_id), (''carbon_id'', typed_id ''carbon'' contact_type fixed_id),
                (''silicon_id'', typed_id ''silicon'' contact_type fixed_id), (''trust_level'', PStr ''very_low''),
                (''is_central_carbon'', PBool False), (''local_notes'', PStr []),
                (''last_processed_event_ids'', PList []), (''metadata'', PDict [])] contact;
             c2 = (if room_id \<noteq> [] then dput ''room_id'' (PStr room_id) c1 else c1);
             c3 = (if name \<noteq> [] then dput ''name'' (PStr name) (dput ''display_name'' (PStr name) c2) else c2);
             c4 = (if timezone \<noteq> [] then dput ''timezone'' (PStr timezone) c3 else c3);
             c5 = (if metadata \<noteq> []
                   then dput ''metadata'' (PDict (dict_update (dict_items (dget c4 ''metadata'')) metadata)) c4
                   else c4) in
         Inr (dput ''updated_at'' (PStr (ce_iso E)) c5)))"

definition upsert_contact ::
  "cenv \<Rightarrow> string \<Rightarrow> string \<Rightarrow> string \<Rightarrow> string \<Rightarrow> string \<Rightarrow> dict \<Rightarrow> cfiles \<Rightarrow> cfiles \<times> (dict \<times> bool) result" where
  "upsert_contact E contact_type0 fixed_id0 room_id name timezone metadata fs =
     (let contact_type = normalize_contact_type (ce_repr E) (PStr contact_type0);
          fixed_id = strip fixed_id0 in
      if fixed_id = [] then (fs, Inl (ValueError ''fixed contact id is required''))
      else bindS (load_state E fs) (\<lambda>fs1 state.
        (let contacts = dget state ''contacts'';
             is_new = (\<not> has_key (dict_items contacts) fixed_id) in
         bindS (fs1, if is_new then Inr (new_contact E contact_type fixed_id room_id name timezone metadata)
                     else old_contact E contact_type fixed_id room_id name timezone metadata
                            (dict_items (get contacts fixed_id)))
           (\<lambda>fs2 contact.
             (let s1 = dput ''contacts'' (put fixed_id (PDict contact) contacts) state;
                  s2 = (if room_id \<noteq> []
                        then dput ''rooms'' (put room_id (PStr fixed_id) (dget s1 ''rooms'')) s1 else s1) in
              (save_state s2 fs2, Inr (contact, is_new)))))))"

section \<open>Room discovery\<close>

definition as_list :: "pyv \<Rightarrow> string list \<Rightarrow> pyv list" where
  "as_list payload ks =
     (if is_list payload then list_items payload
      else (case filter is_list (map (get payload) ks) of [] \<Rightarrow> [] | v # _ \<Rightarrow> list_items v))"

text \<open>\<open>set(xs)\<close> made sorted again.\<close>

definition sorted_texts :: "string list \<Rightarrow> string list" where
  "sorted_texts ts = sort (remdups ts)"

lemma size_get: "size (get v k) \<le> size v"
proof (cases v)
  case (PDict d)
  show ?thesis
  proof (cases "map_of d k")
    case (Some w)
    then have "(k, w) \<in> set d" by (rule map_of_SomeD)
    then have "size w \<le> size_list (size_prod (\<lambda>x. 0) size) d"
      by (induction d) auto
    with Some PDict show ?thesis by (simp add: get_def dget_def)
  qed (use PDict in \<open>simp add: get_def dget_def\<close>)
qed (simp_all add: get_def dget_def)

lemma size_as_list:
  assumes "v \<in> set (as_list payload ks)" and "\<not> is_list payload"
  shows "size v < size payload"
proof -
  have "filter is_list (map (get payload) ks) \<noteq> []" using assms by (auto simp: as_list_def)
  then obtain w ws where f: "filter is_list (map (get payload) ks) = w # ws" by (cases "filter is_list (map (get payload) ks)") simp
  then have "w \<in> set (filter is_list (map (get payload) ks))" by simp
  moreover have v: "v \<in> set (list_items w)" using assms f by (simp add: as_list_def)
  ultimately have w: "w \<in> get payload ` set ks" "is_list w" "v \<in> set (list_items w)" by auto
  have "size v < size w" using w by (cases w) (auto dest: size_list_estimation' [of v _ "size v" size])
  also have "size w \<le> size payload" using w(1) size_get by blast
  finally show ?thesis .
qed

definition OWN_ID_KEYS :: "string list" where
  "OWN_ID_KEYS =
     [''id'', ''carbon_id'', ''carbonId'', ''carbon_username'', ''carbonUsername'', ''silicon_id'', ''siliconId'',
      ''silicon_username'', ''siliconUsername'', ''username'', ''handle'', ''public_id'', ''publicId'', ''name'']"

function extract_own_ids :: "(pyv \<Rightarrow> string) \<Rightarrow> pyv \<Rightarrow> string list" where
  "extract_own_ids rp payload =
     (if \<not> is_dict payload then []
      else sorted_texts
        (map (py_str rp) (filter truthy (map (get payload) OWN_ID_KEYS))
         @ concat (map (\<lambda>item. if is_dict item then extract_own_ids rp item
                                else if truthy item then [py_str rp item] else [])
             (as_list payload [''ids'', ''own_ids'', ''identities'']))))"
  by pat_completeness auto
termination
  by (relation "measure (\<lambda>(rp, v). size v)") (auto intro!: size_as_list elim: is_list.elims)

declare extract_own_ids.simps [simp del]

definition room_is_direct :: "(pyv \<Rightarrow> string) \<Rightarrow> pyv \<Rightarrow> bool" where
  "room_is_direct rp room \<longleftrightarrow>
     (let d = dict_items room in
      if has_key d ''is_direct'' then truthy (dget d ''is_direct'')
      else if has_key d ''direct'' then truthy (dget d ''direct'')
      else lower (str_or_empty rp (py_or (dget d ''kind'') (dget d ''type''))) = ''direct''
        \<or> is_list (dget d ''members'') \<and> length (list_items (dget d ''members'')) \<le> 2)"

definition is_other_member :: "(pyv \<Rightarrow> string) \<Rightarrow> pyv list \<Rightarrow> pyv \<Rightarrow> bool" where
  "is_other_member rp own_ids raw \<longleftrightarrow>
     is_dict raw \<and> \<not> truthy (get raw ''is_self'') \<and> \<not> truthy (get raw ''self'')
     \<and> \<not> (\<exists>i\<in>set (extract_own_ids rp raw). PStr i \<in> set own_ids)"

definition other_member :: "(pyv \<Rightarrow> string) \<Rightarrow> pyv list \<Rightarrow> pyv list \<Rightarrow> pyv option" where
  "other_member rp members own_ids = List.find (is_other_member rp own_ids) members"

definition described_contact :: "(pyv \<Rightarrow> string) \<Rightarrow> pyv \<Rightarrow> pyv list \<Rightarrow> string \<Rightarrow> pyv option" where
  "described_contact rp room own_ids contact_type =
     (let fixed_id = strip (str_or_empty rp
            (if contact_type = ''silicon''
             then py_or (get room ''silicon_id'') (py_or (get room ''siliconId'') (get room ''username''))
             else py_or (get room ''carbon_id'') (py_or (get room ''carbonId'') (get room ''public_id'')))) in
      if fixed_id = [] \<or> PStr fixed_id \<in> set own_ids then None
      else Some (PDict
        [(''contact_type'', PStr contact_type), (''carbon_id'', typed_id ''carbon'' contact_type fixed_id),
         (''silicon_id'', typed_id ''silicon'' contact_type fixed_id),
         (''display_name'', PStr (display_name rp room fixed_id))]))"

definition direct_contact_from_room ::
  "(pyv \<Rightarrow> string) \<Rightarrow> pyv \<Rightarrow> pyv list \<Rightarrow> pyv list \<Rightarrow> pyv option" where
  "direct_contact_from_room rp room members own_ids =
     (let peers = list_items (get room ''peers'');
          named = filter is_dict (map (get room) [''contact'', ''other'', ''peer'', ''target'', ''direct_contact'']);
          kind = py_or (get room ''contact_type'') (py_or (get room ''kind'') (get room ''type''));
          kinds = (if truthy kind then [normalize_contact_type rp kind] else [''carbon'', ''silicon'']) in
      case filter (\<lambda>x. x \<noteq> None)
             ([other_member rp peers own_ids, other_member rp members own_ids] @ map Some named
              @ map (described_contact rp room own_ids) kinds) of
        [] \<Rightarrow> None | x # _ \<Rightarrow> x)"

definition cache_own_ids :: "cenv \<Rightarrow> string list \<Rightarrow> cfiles \<Rightarrow> cfiles \<times> pyv list result" where
  "cache_own_ids E own_ids fs =
     (let normalized = map PStr (sorted_texts (filter (\<lambda>t. t \<noteq> []) own_ids)) in
      if normalized = [] then (fs, Inr [])
      else bindS (load_state E fs) (\<lambda>fs1 state.
             (save_state (dput ''own_ids'' (PList normalized) state) fs1, Inr normalized)))"

definition sync_profile_from_glass :: "cenv \<Rightarrow> pyv \<Rightarrow> cfiles \<Rightarrow> cfiles \<times> unit result" where
  "sync_profile_from_glass E payload fs =
     (if \<not> is_dict payload then (fs, Inr ())
      else bindS (load_state E fs) (\<lambda>fs1 state.
        (let given = has_key (dict_items payload);
             text = (\<lambda>k. PStr (str_or_empty (ce_repr E) (get payload k)));
             p1 = fold (\<lambda>k p. if given k then dput k (text k) p else p)
               [''silicon_id'', ''name'', ''tagline'', ''description'', ''architecture_node_id'', ''job_description'',
                ''advertising_memory_path''] (dict_items (dget state ''profile''));
             p2 = (case filter given [''owner_team_slug'', ''team_slug'', ''team''] of
                     [] \<Rightarrow> p1
                   | k # _ \<Rightarrow> dput ''team'' (text k) (dput ''owner_team_slug'' (text k) p1));
             p3 = (if given ''central_carbon''
                   then dput ''central_carbon''
                          (if is_dict (get payload ''central_carbon'') then get payload ''central_carbon'' else PNone) p2
                   else p2) in
         (save_state (dput ''profile'' (PDict p3) state) fs1, Inr ()))))"

definition finish_room_sync :: "cenv \<Rightarrow> cfiles \<Rightarrow> cfiles \<times> dict result" where
  "finish_room_sync E fs =
     bindS (load_state E fs) (\<lambda>fs1 state.
       (let s1 = dput ''last_room_sync'' (PFloat (ce_now E)) state in (save_state s1 fs1, Inr s1)))"

definition discover_room :: "cenv \<Rightarrow> pyv list \<Rightarrow> pyv \<Rightarrow> cfiles \<Rightarrow> cfiles \<times> unit result" where
  "discover_room E own_ids room fs =
     (let rp = ce_repr E; room_id = frame_room_id rp room;
          members = (if is_list (get room ''members'') then list_items (get room ''members'')
                     else (case ce_members E room_id of
                             Inl e \<Rightarrow> [] | Inr v \<Rightarrow> as_list v [''members'', ''data'', ''results''])) in
      if \<not> is_dict room \<or> \<not> room_is_direct rp room \<or> room_id = [] then (fs, Inr ())
      else (case direct_contact_from_room rp room members own_ids of
              None \<Rightarrow> (fs, Inr ())
            | Some other \<Rightarrow>
                (let contact_type = normalize_contact_type rp
                       (py_or (get other ''contact_type'') (py_or (get other ''kind'') (get other ''type'')));
                     fixed_id = member_fixed_id rp other contact_type in
                 if fixed_id = [] then (fs, Inr ())
                 else bindS (upsert_contact E contact_type fixed_id room_id (display_name rp other fixed_id)
                        (str_or_empty rp (py_or (get other ''timezone'') (get room ''timezone'')))
                        (dict_update (contact_metadata room) (contact_metadata other)) fs)
                      (\<lambda>fs1 _. (fs1, Inr ())))))"

fun discover_each :: "cenv \<Rightarrow> pyv list \<Rightarrow> pyv list \<Rightarrow> cfiles \<Rightarrow> cfiles \<times> unit result" where
  "discover_each E own_ids [] fs = (fs, Inr ())"
| "discover_each E own_ids (room # rooms) fs =
     bindS (discover_room E own_ids room fs) (\<lambda>fs1 _. discover_each E own_ids rooms fs1)"

text \<open>The identity lookup: the ids to go on with and what \<open>whoami\<close> answered.\<close>

definition look_up_own_ids :: "cenv \<Rightarrow> pyv list \<Rightarrow> cfiles \<Rightarrow> cfiles \<times> (pyv list \<times> pyv) result" where
  "look_up_own_ids E own_ids fs =
     (if own_ids \<noteq> [] then (fs, Inr (own_ids, PNone))
      else (case ce_whoami E of
              Inr me \<Rightarrow>
                (case cache_own_ids E (extract_own_ids (ce_repr E) me) fs of
                   (fs1, Inr ids) \<Rightarrow> (fs1, Inr (ids, me))
                 | (fs1, Inl e) \<Rightarrow>
                     bindS (load_state E fs1) (\<lambda>fs2 state. (fs2, Inr (list_items (dget state ''own_ids''), me))))
            | Inl e \<Rightarrow>
                bindS (load_state E fs) (\<lambda>fs1 state.
                  (fs1, Inr (list_items (dget state ''own_ids''), PNone)))))"

definition ROOM_SYNC_FALLBACK_SECONDS :: rat where "ROOM_SYNC_FALLBACK_SECONDS = 15 * 60"

definition discover_rooms :: "cenv \<Rightarrow> bool \<Rightarrow> cfiles \<Rightarrow> cfiles \<times> dict result" where
  "discover_rooms E force fs =
     bindS (load_state E fs) (\<lambda>fs1 state.
     bindS (fs1, if force then Inr True
                 else bindE (py_float (py_or (dget state ''last_room_sync'') (PInt 0))) (\<lambda>last.
                        Inr (ce_now E - last \<ge> ROOM_SYNC_FALLBACK_SECONDS))) (\<lambda>fs2 due.
       if \<not> due then (fs2, Inr state)
       else
         bindS (look_up_own_ids E (list_items (dget state ''own_ids'')) fs2) (\<lambda>fs3 (own_ids, me).
         bindS (fs3, ce_rooms E) (\<lambda>fs4 payload.
         bindS (discover_each E own_ids (as_list payload [''rooms'', ''data'', ''results'']) fs4) (\<lambda>fs5 _.
         bindS (sync_profile_from_glass E me fs5) (\<lambda>fs6 _. finish_room_sync E fs6))))))"

section \<open>Marks of handled events\<close>

definition last_items :: "nat \<Rightarrow> 'a list \<Rightarrow> 'a list" where
  "last_items n xs = drop (length xs - n) xs"

definition add_id :: "string \<Rightarrow> nat \<Rightarrow> pyv \<Rightarrow> pyv" where
  "add_id eid n ids =
     (let xs = list_items ids in
      PList (last_items n (if PStr eid \<in> set xs then xs else xs @ [PStr eid])))"

definition advance_event_cursor :: "cenv \<Rightarrow> string \<Rightarrow> dict \<Rightarrow> dict" where
  "advance_event_cursor E eid state =
     dput ''last_seen_event_updated_at'' (PStr (ce_iso E)) (dput ''last_seen_event_id'' (PStr eid) state)"

definition mark_room :: "string \<Rightarrow> string \<Rightarrow> dict \<Rightarrow> dict" where
  "mark_room room_id eid state =
     (let rooms = dget state ''processed_events'' in
      dput ''processed_events'' (put room_id (add_id eid 500 (get rooms room_id)) rooms) state)"

definition put_contact :: "string \<Rightarrow> pyv \<Rightarrow> dict \<Rightarrow> dict" where
  "put_contact contact_id contact state =
     dput ''contacts'' (put contact_id contact (dget state ''contacts'')) state"

definition remember_processed ::
  "cenv \<Rightarrow> string \<Rightarrow> string \<Rightarrow> string \<Rightarrow> cfiles \<Rightarrow> cfiles \<times> unit result" where
  "remember_processed E contact_id eid room_id fs =
     (if eid = [] then (fs, Inr ())
      else bindS (load_state E fs) (\<lambda>fs1 state.
        (let s1 = advance_event_cursor E eid state;
             contact = get (dget s1 ''contacts'') contact_id;
             c1 = put ''last_processed_event_id'' (PStr eid)
                    (put ''last_processed_event_ids''
                       (add_id eid 200 (get contact ''last_processed_event_ids'')) contact);
             c2 = (if room_id \<noteq> [] then put ''last_polled_event_id'' (PStr eid) c1 else c1);
             s2 = (if truthy contact then put_contact contact_id c2 s1 else s1);
             s3 = (if room_id \<noteq> [] then mark_room room_id eid s2 else s2) in
         (save_state s3 fs1, Inr ()))))"

text \<open>The contact id a room maps to; it is empty where there is none.\<close>

definition room_contact :: "string \<Rightarrow> dict \<Rightarrow> string" where
  "room_contact room_id state =
     (case get (dget state ''rooms'') room_id of PStr s \<Rightarrow> s | _ \<Rightarrow> [])"

definition remember_seen_event :: "cenv \<Rightarrow> string \<Rightarrow> string \<Rightarrow> cfiles \<Rightarrow> cfiles \<times> unit result" where
  "remember_seen_event E room_id eid fs =
     (if eid = [] then (fs, Inr ())
      else bindS (load_state E fs) (\<lambda>fs1 state.
        (let s1 = advance_event_cursor E eid state;
             contact_id = room_contact room_id s1;
             contact = (if contact_id = [] then PNone else get (dget s1 ''contacts'') contact_id);
             s2 = (if truthy contact
                   then put_contact contact_id (put ''last_polled_event_id'' (PStr eid) contact) s1 else s1) in
         (save_state (if room_id = [] then s1 else mark_room room_id eid s2) fs1, Inr ()))))"

definition already_processed ::
  "cenv \<Rightarrow> pyv \<Rightarrow> string \<Rightarrow> string \<Rightarrow> cfiles \<Rightarrow> cfiles \<times> bool result" where
  "already_processed E contact room_id eid fs =
     (if eid = [] then (fs, Inr False)
      else if truthy contact \<and> PStr eid \<in> set (list_items (get contact ''last_processed_event_ids''))
      then (fs, Inr True)
      else bindS (load_state E fs) (\<lambda>fs1 state.
        (fs1, Inr (PStr eid \<in> set (list_items (get (dget state ''processed_events'') room_id))))))"

definition work_reference_of :: "(pyv \<Rightarrow> string) \<Rightarrow> pyv \<Rightarrow> dict" where
  "work_reference_of rp event =
     (let content = event_content event; both = (\<lambda>k. first_text rp [get content k, get event k]) in
      [(''kind'', PStr (both ''kind'')), (''work_event_id'', PStr (both ''work_event_id''))]
      @ (if both ''task_id'' \<noteq> [] then [(''task_id'', PStr (both ''task_id''))] else [])
      @ concat (map (\<lambda>k. if both k \<noteq> [] then [(k, PStr (both k))] else [])
          [''blocker_id'', ''group_id'', ''call_id'']))"

definition remember_work_event_reference :: "cenv \<Rightarrow> pyv \<Rightarrow> cfiles \<Rightarrow> cfiles \<times> unit result" where
  "remember_work_event_reference E event fs =
     (let rp = ce_repr E; eid = event_id rp event; room_id = event_room_id rp event;
          reference = work_reference_of rp event in
      if event_type rp event \<noteq> ''m.work_event'' \<or> eid = [] \<or> room_id = []
         \<or> dget reference ''kind'' = PStr [] then (fs, Inr ())
      else bindS (load_state E fs) (\<lambda>fs1 state.
        (let all_refs = dget state ''work_event_refs'';
             room_refs = dput eid (PDict reference) (dict_items (get all_refs room_id)) in
         (save_state (dput ''work_event_refs''
             (put room_id (PDict (last_items 500 room_refs)) all_refs) state) fs1, Inr ()))))"

definition work_event_reference :: "cenv \<Rightarrow> string \<Rightarrow> string \<Rightarrow> cfiles \<Rightarrow> cfiles \<times> pyv result" where
  "work_event_reference E room_id eid fs =
     (if room_id = [] \<or> eid = [] then (fs, Inr (PDict []))
      else bindS (load_state E fs) (\<lambda>fs1 state.
        (let v = get (get (dget state ''work_event_refs'') room_id) eid in
         (fs1, Inr (if is_dict v then v else PDict [])))))"

definition remove_room_mapping :: "cenv \<Rightarrow> string \<Rightarrow> cfiles \<Rightarrow> cfiles \<times> unit result" where
  "remove_room_mapping E room_id fs =
     (if room_id = [] then (fs, Inr ())
      else bindS (load_state E fs) (\<lambda>fs1 state.
        (let contact_id = room_contact room_id state;
             s1 = dput ''rooms'' (PDict (dpop room_id (dict_items (dget state ''rooms'')))) state;
             contact = (if contact_id = [] then PNone else get (dget s1 ''contacts'') contact_id) in
         (save_state
            (if truthy contact \<and> get contact ''room_id'' = PStr room_id
             then put_contact contact_id (put ''updated_at'' (PStr (ce_iso E)) (put ''room_id'' (PStr []) contact)) s1
             else s1) fs1, Inr ()))))"

text \<open>The contact of a room; an unknown room is looked up once more in Glass.\<close>

definition contact_for_room :: "cenv \<Rightarrow> string \<Rightarrow> cfiles \<Rightarrow> cfiles \<times> (string \<times> pyv) result" where
  "contact_for_room E room_id fs =
     bindS (load_state E fs) (\<lambda>fs1 state.
       if room_contact room_id state \<noteq> []
       then (fs1, Inr (room_contact room_id state, get (dget state ''contacts'') (room_contact room_id state)))
       else bindS (load_state E (fst (discover_rooms E True fs1))) (\<lambda>fs2 state.
         (fs2, Inr (if room_contact room_id state \<noteq> []
                    then (room_contact room_id state, get (dget state ''contacts'') (room_contact room_id state))
                    else ([], PNone)))))"

end
