(* ===== verification/Ingest.thy ===== *)
theory Ingest
  imports Contacts MaintCoord
begin

text \<open>
  From the durable inbox to the queue of manager roots (\<open>core/interface.py\<close>): reading complete
  lines of the inbox file behind a committed cursor, interpreting their events, handing each
  message over to the maintenance coordinator, and only then moving the cursor.

  The daemon that appends to the inbox, downloads, transcriptions, the journal of calls between
  Silicons and \<open>json.loads\<close> are parameters. Diagnostics, receipts and background jobs have no effect
  on this state and are left out.
\<close>

section \<open>State\<close>

text \<open>One complete inbox line and its commit boundary.\<close>

record inbox_record =
  ir_frame :: pyv
  ir_path :: string
  ir_file_id :: string
  ir_end_offset :: int
  ir_anchor_start :: int
  ir_anchor_sha256 :: string

record cursor =
  cu_path :: string
  cu_file_id :: string
  cu_offset :: int
  cu_anchor_start :: int
  cu_anchor_sha256 :: string

text \<open>
  The files of the interface, the maintenance file, the inbox as the daemon leaves it (its
  identity and bytes), and what the process keeps in memory: the scan position and two queues.
\<close>

record iworld =
  iw_files :: cfiles
  iw_maint :: "pyv option"
  iw_cursor :: json_file
  iw_inbox :: "(string \<times> string) option"
  iw_scan :: "(string \<times> string \<times> int) option"
  iw_queue :: "inbox_record list"
  iw_retry :: "inbox_record list"

text \<open>
  \<open>ie_handoff\<close> gives the environment and the time of the coordinator call for an ingress identity;
  \<open>ie_sent_call\<close> and \<open>ie_received_call\<close> say whether the call journal committed.
\<close>

record ienv =
  ie_contacts :: cenv
  ie_sha :: "string \<Rightarrow> string"
  ie_loads :: "string \<Rightarrow> pyv option"
  ie_path :: string
  ie_download :: "string \<Rightarrow> string \<Rightarrow> string \<Rightarrow> string result"
  ie_text :: "pyerr \<Rightarrow> string"
  ie_stt :: "string \<Rightarrow> pyv result"
  ie_sent_call :: "string \<Rightarrow> string \<Rightarrow> string \<Rightarrow> bool"
  ie_received_call :: "string \<Rightarrow> string \<Rightarrow> string \<Rightarrow> bool"
  ie_handoff :: "string \<Rightarrow> env \<times> rat"

abbreviation ie_repr :: "ienv \<Rightarrow> pyv \<Rightarrow> string" where
  "ie_repr E \<equiv> ce_repr (ie_contacts E)"

section \<open>The cursor\<close>

definition INBOX_CURSOR_ANCHOR_BYTES :: int where "INBOX_CURSOR_ANCHOR_BYTES = 64 * 1024"
definition INBOX_READ_CHUNK_BYTES :: int where "INBOX_READ_CHUNK_BYTES = 4 * 1024 * 1024"

definition natural_field :: "pyv \<Rightarrow> int" where
  "natural_field v = (case py_int (py_or v (PInt 0)) of Inl e \<Rightarrow> 0 | Inr i \<Rightarrow> max 0 i)"

text \<open>An anchor that cannot be right is dropped.\<close>

definition anchor_ok :: "int \<Rightarrow> int \<Rightarrow> string \<Rightarrow> bool" where
  "anchor_ok offset start sha \<longleftrightarrow>
     is_digest sha \<and> start < offset \<and> offset - start \<le> INBOX_CURSOR_ANCHOR_BYTES"

definition load_inbox_consumer :: "ienv \<Rightarrow> json_file \<Rightarrow> cursor" where
  "load_inbox_consumer E f =
     (let state = read_json f (PDict []) in
      if \<not> is_dict state \<or> \<not> py_eq (get state ''version'') (PInt 1)
      then \<lparr>cu_path = [], cu_file_id = [], cu_offset = 0, cu_anchor_start = 0, cu_anchor_sha256 = []\<rparr>
      else
        (let offset = natural_field (get state ''offset'');
             start = natural_field (get state ''anchor_start'');
             sha = lower (str_or_empty (ie_repr E) (get state ''anchor_sha256''));
             ok = anchor_ok offset start sha in
         \<lparr>cu_path = str_or_empty (ie_repr E) (get state ''path''),
          cu_file_id = str_or_empty (ie_repr E) (get state ''file_id''),
          cu_offset = offset, cu_anchor_start = (if ok then start else 0),
          cu_anchor_sha256 = (if ok then sha else [])\<rparr>))"

definition save_inbox_consumer :: "ienv \<Rightarrow> string \<Rightarrow> string \<Rightarrow> int \<Rightarrow> int \<Rightarrow> string \<Rightarrow> iworld \<Rightarrow> iworld" where
  "save_inbox_consumer E path file_id offset0 start0 sha0 w =
     (let offset = max 0 offset0; start = max 0 start0; sha = lower sha0;
          ok = anchor_ok offset start sha in
      w\<lparr>iw_cursor := write_json (PDict
        [(''version'', PInt 1), (''path'', PStr path), (''file_id'', PStr file_id), (''offset'', PInt offset),
         (''anchor_start'', PInt (if ok then start else 0)), (''anchor_sha256'', PStr (if ok then sha else [])),
         (''updated_at'', PStr (ce_iso (ie_contacts E)))])\<rparr>)"

text \<open>\<open>bytes[a:b]\<close> for \<open>0 \<le> a\<close>.\<close>

definition slice :: "int \<Rightarrow> int \<Rightarrow> string \<Rightarrow> string" where
  "slice a b s = take (nat (b - a)) (drop (nat a) s)"

definition inbox_cursor_continues_file :: "ienv \<Rightarrow> cursor \<Rightarrow> string \<Rightarrow> string \<Rightarrow> bool" where
  "inbox_cursor_continues_file E c file_id bytes \<longleftrightarrow>
     cu_offset c \<le> int (length bytes)
     \<and> (cu_path c = ie_path E \<and> cu_file_id c = file_id
        \<or> cu_anchor_sha256 c \<noteq> [] \<and> 0 \<le> cu_anchor_start c \<and> cu_anchor_start c < cu_offset c
          \<and> cu_offset c - cu_anchor_start c \<le> INBOX_CURSOR_ANCHOR_BYTES
          \<and> (let anchor = slice (cu_anchor_start c) (cu_offset c) bytes in
             int (length anchor) = cu_offset c - cu_anchor_start c
             \<and> ie_sha E anchor = cu_anchor_sha256 c))"

section \<open>Reading lines\<close>

text \<open>The line up to its newline, and the rest; \<open>None\<close> while the last line is not complete.\<close>

fun next_line :: "string \<Rightarrow> (string \<times> string) option" where
  "next_line [] = None"
| "next_line (c # cs) =
     (if c = CHR 0x0A then Some ([c], cs)
      else (case next_line cs of None \<Rightarrow> None | Some (l, r) \<Rightarrow> Some (c # l, r)))"

lemma next_line_Some: "next_line s = Some (l, r) \<Longrightarrow> s = l @ r \<and> l \<noteq> [] \<and> last l = CHR 0x0A"
proof (induction s arbitrary: l)
  case (Cons c s)
  show ?case
  proof (cases "c = CHR 0x0A")
    case False
    then obtain m where m: "next_line s = Some (m, r)" "l = c # m"
      using Cons.prems by (cases "next_line s") (simp_all split: prod.splits)
    then show ?thesis using Cons.IH [OF m(1)] by simp
  qed (use Cons.prems in \<open>clarsimp\<close>)
qed simp

definition line_frame :: "ienv \<Rightarrow> string \<Rightarrow> pyv" where
  "line_frame E line =
     (case (if utf8_ok line then ie_loads E line else None) of
        Some (PDict d) \<Rightarrow> PDict d
      | _ \<Rightarrow> PDict [(''type'', PStr ''_invalid_inbox_line'')])"

definition line_record :: "ienv \<Rightarrow> string \<Rightarrow> int \<Rightarrow> string \<Rightarrow> inbox_record" where
  "line_record E file_id start line =
     (let finish = start + int (length line) in
      \<lparr>ir_frame = line_frame E line, ir_path = ie_path E, ir_file_id = file_id, ir_end_offset = finish,
       ir_anchor_start = max start (finish - INBOX_CURSOR_ANCHOR_BYTES),
       ir_anchor_sha256 = ie_sha E (drop (nat (int (length line) - INBOX_CURSOR_ANCHOR_BYTES)) line)\<rparr>)"

function scan_lines ::
  "ienv \<Rightarrow> string \<Rightarrow> int \<Rightarrow> int \<Rightarrow> int \<Rightarrow> string \<Rightarrow> inbox_record list \<times> int" where
  "scan_lines E file_id count bytes_read start s =
     (if count \<le> 0 \<or> bytes_read \<ge> INBOX_READ_CHUNK_BYTES then ([], start)
      else
        (case next_line s of
           None \<Rightarrow> ([], start)
         | Some (line, rest) \<Rightarrow>
             (let (records, finish) = scan_lines E file_id (count - 1) (bytes_read + int (length line))
                                        (start + int (length line)) rest in
              (line_record E file_id start line # records, finish))))"
  by pat_completeness auto
termination
  by (relation "measure (\<lambda>(E, f, n, b, o1, s). length s)") (auto dest!: next_line_Some)

declare scan_lines.simps [simp del]

text \<open>Where a pass starts that has no scan of this file: the cursor, if the file continues it.\<close>

definition cursor_start :: "ienv \<Rightarrow> string \<Rightarrow> string \<Rightarrow> iworld \<Rightarrow> iworld \<times> int" where
  "cursor_start E file_id bytes w =
     (let c = load_inbox_consumer E (iw_cursor w) in
      if \<not> inbox_cursor_continues_file E c file_id bytes then (w, 0)
      else (if cu_path c \<noteq> ie_path E \<or> cu_file_id c \<noteq> file_id
            then save_inbox_consumer E (ie_path E) file_id (cu_offset c) (cu_anchor_start c)
                   (cu_anchor_sha256 c) w
            else w, cu_offset c))"

definition scan_start :: "ienv \<Rightarrow> string \<Rightarrow> string \<Rightarrow> iworld \<Rightarrow> iworld \<times> int" where
  "scan_start E file_id bytes w =
     (case iw_scan w of
        Some (p, f, offset) \<Rightarrow>
          if p = ie_path E \<and> f = file_id \<and> offset \<le> int (length bytes) then (w, offset)
          else cursor_start E file_id bytes w
      | None \<Rightarrow> cursor_start E file_id bytes w)"

definition read_new_inbox_records :: "ienv \<Rightarrow> int \<Rightarrow> iworld \<Rightarrow> iworld \<times> inbox_record list" where
  "read_new_inbox_records E max_records w =
     (case iw_inbox w of
        None \<Rightarrow> (w, [])
      | Some (file_id, bytes) \<Rightarrow>
          (let (w1, offset) = scan_start E file_id bytes w;
               (records, finish) = scan_lines E file_id max_records 0 offset (drop (nat offset) bytes) in
           (w1\<lparr>iw_scan := Some (ie_path E, file_id, finish)\<rparr>, records)))"

definition commit_inbox_record :: "ienv \<Rightarrow> inbox_record \<Rightarrow> iworld \<Rightarrow> iworld" where
  "commit_inbox_record E r w =
     (if ir_path r = [] \<or> ir_file_id r = [] \<or> ir_end_offset r \<le> 0 then w
      else
        (let c = load_inbox_consumer E (iw_cursor w) in
         if cu_path c = ir_path r \<and> cu_file_id c = ir_file_id r \<and> cu_offset c \<ge> ir_end_offset r then w
         else save_inbox_consumer E (ir_path r) (ir_file_id r) (ir_end_offset r) (ir_anchor_start r)
                (ir_anchor_sha256 r) w))"

section \<open>The queues of the process\<close>

definition queue_inbox_records :: "inbox_record list \<Rightarrow> iworld \<Rightarrow> iworld" where
  "queue_inbox_records records w = w\<lparr>iw_queue := iw_queue w @ records\<rparr>"

definition MAX_DRAIN :: nat where "MAX_DRAIN = 500"

definition drain_listener_events :: "iworld \<Rightarrow> iworld \<times> inbox_record list" where
  "drain_listener_events w =
     (let again = take MAX_DRAIN (iw_retry w);
          fresh = take (MAX_DRAIN - length again) (iw_queue w) in
      (w\<lparr>iw_retry := drop MAX_DRAIN (iw_retry w), iw_queue := drop (length fresh) (iw_queue w)\<rparr>,
       again @ fresh))"

definition retry_inbox_batch :: "inbox_record list \<Rightarrow> iworld \<Rightarrow> iworld" where
  "retry_inbox_batch records w = w\<lparr>iw_retry := records @ iw_retry w\<rparr>"

text \<open>Whether a record can still be read again after a restart.\<close>

definition inbox_record_restart_safe :: "ienv \<Rightarrow> iworld \<Rightarrow> inbox_record \<Rightarrow> bool" where
  "inbox_record_restart_safe E w r \<longleftrightarrow>
     ir_path r \<noteq> [] \<and> ir_file_id r \<noteq> [] \<and> ir_end_offset r > 0
     \<and> (case iw_inbox w of
          Some (file_id, bytes) \<Rightarrow>
            ir_path r = ie_path E \<and> file_id = ir_file_id r \<and> int (length bytes) \<ge> ir_end_offset r
        | None \<Rightarrow> False)"

definition maintenance_inbox_quiescent :: "ienv \<Rightarrow> bool \<Rightarrow> iworld \<Rightarrow> bool" where
  "maintenance_inbox_quiescent E listener_running w \<longleftrightarrow>
     \<not> listener_running \<and> list_all (inbox_record_restart_safe E w) (iw_retry w)
     \<and> list_all (inbox_record_restart_safe E w) (iw_queue w)"

section \<open>One event\<close>

text \<open>What the two errors that keep a record uncommitted are, and every other exception.\<close>

datatype ingest_error = CallBookkeepingError | DurableHandoffError | OtherIngestError pyerr

definition raising :: "'s \<times> 'a result \<Rightarrow> 's \<times> (ingest_error + 'a)" where
  "raising m = (fst m, map_sum OtherIngestError id (snd m))"

text \<open>The name of a downloaded item carries its place when there are several.\<close>

definition item_event_id :: "ienv \<Rightarrow> string \<Rightarrow> nat \<Rightarrow> nat \<Rightarrow> string" where
  "item_event_id E eid count index =
     (let number = py_str (ie_repr E) (PInt (int index + 1)) in
      if count \<le> 1 then eid
      else if eid \<noteq> [] then eid @ ''_'' @ number else number)"

text \<open>The path of the last download that ended, and the lines for the manager.\<close>

fun download_all ::
  "ienv \<Rightarrow> string \<Rightarrow> nat \<Rightarrow> nat \<Rightarrow> (string \<times> string) list \<Rightarrow> string \<Rightarrow> string \<times> string list" where
  "download_all E eid count index [] local_path = (local_path, [])"
| "download_all E eid count index ((media_id, filename) # refs) local_path =
     (case ie_download E media_id (item_event_id E eid count index) filename of
        Inr path \<Rightarrow>
          (let (final, paths) = download_all E eid count (Suc index) refs path in
           (final, if path \<noteq> [] then path # paths else paths))
      | Inl e \<Rightarrow>
          (let (final, paths) = download_all E eid count (Suc index) refs local_path in
           (final, (''download failed for media_id '' @ media_id @ '': '' @ ie_text E e) # paths)))"

definition transcript_for_event :: "ienv \<Rightarrow> pyv \<Rightarrow> string \<Rightarrow> string \<Rightarrow> string" where
  "transcript_for_event E event local_path media_id =
     (let rp = ie_repr E;
          given = first_text rp [get event ''transcript'', get (event_content event) ''transcript''];
          value = (if local_path \<noteq> [] then local_path else media_id) in
      if given \<noteq> [] then strip given
      else if value = [] then []
      else (case ie_stt E value of
              Inl e \<Rightarrow> []
            | Inr payload \<Rightarrow>
                strip (if is_dict payload then field rp payload [''text'', ''transcript'', ''body'']
                       else str_or_empty rp payload)))"

definition labelled :: "string \<Rightarrow> string \<Rightarrow> string list" where
  "labelled label text = (if text = [] then [] else [label @ text])"

definition headed :: "string \<Rightarrow> string list \<Rightarrow> string list" where
  "headed head ls = (if ls = [] then [] else head # ls)"

definition context_name :: "(pyv \<Rightarrow> string) \<Rightarrow> pyv \<Rightarrow> string \<Rightarrow> string" where
  "context_name rp contact contact_id =
     py_str rp (py_or (get contact ''display_name'') (py_or (get contact ''name'') (PStr contact_id)))"

text \<open>The room of the event, or the one of its contact.\<close>

definition context_room :: "(pyv \<Rightarrow> string) \<Rightarrow> pyv \<Rightarrow> pyv \<Rightarrow> pyv" where
  "context_room rp contact event =
     (if event_room_id rp event \<noteq> [] then PStr (event_room_id rp event)
      else dget_or (dict_items contact) ''room_id'' (PStr []))"

definition context_lines ::
  "(pyv \<Rightarrow> string) \<Rightarrow> string \<Rightarrow> pyv \<Rightarrow> pyv \<Rightarrow> string list \<Rightarrow> string \<Rightarrow> pyv \<Rightarrow> string list" where
  "context_lines rp contact_id contact event local_paths transcript work_reference =
     [''Interface event from '' @ context_name rp contact contact_id @ '' (''
        @ (if get contact ''contact_type'' = PStr ''silicon'' then ''silicon_id'' else ''carbon_id'')
        @ '': '' @ contact_id @ '')'',
      ''contact_type: '' @ py_str rp (dget_or (dict_items contact) ''contact_type'' (PStr ''carbon'')),
      ''room_id: '' @ py_str rp (context_room rp contact event),
      ''event_id: '' @ event_id rp event,
      ''event_type: '' @ event_type rp event]
     @ labelled ''display_time: '' (event_display_time rp event)
     @ labelled ''reply_to: '' (event_reply_to rp event)
     @ (if truthy work_reference then [''reply_to_work_update: '' @ canonical_json rp work_reference] else [])
     @ labelled ''take_back_request_id: '' (event_take_back_request_id rp event)
     @ headed ''message:'' (labelled [] (event_body rp event))
     @ headed ''transcript:'' (labelled [] transcript)
     @ headed ''downloaded_files:'' (map (\<lambda>path. ''- '' @ path) local_paths)"

definition format_event_context ::
  "ienv \<Rightarrow> string \<Rightarrow> pyv \<Rightarrow> pyv \<Rightarrow> string list \<Rightarrow> string \<Rightarrow> cfiles \<Rightarrow> cfiles \<times> string result" where
  "format_event_context E contact_id contact event local_paths transcript fs =
     (let rp = ie_repr E; reply_to = event_reply_to rp event in
      bindS (case context_room rp contact event of
               PStr room_id \<Rightarrow>
                 if reply_to = [] then (fs, Inr (PDict []))
                 else work_event_reference (ie_contacts E) room_id reply_to fs
             | _ \<Rightarrow> (fs, Inr (PDict [])))
        (\<lambda>fs1 work_reference.
          (fs1, Inr (py_join [CHR 0x0A]
             (context_lines rp contact_id contact event local_paths transcript work_reference)))))"

definition record_incoming_call :: "ienv \<Rightarrow> string \<Rightarrow> pyv \<Rightarrow> string \<Rightarrow> string \<Rightarrow> ingest_error + unit" where
  "record_incoming_call E contact_id contact body eid =
     (if get contact ''contact_type'' \<noteq> PStr ''silicon'' \<or> body = [] \<or> eid = [] then Inr ()
      else if ie_received_call E contact_id body eid then Inr () else Inl CallBookkeepingError)"

definition record_sent_call :: "ienv \<Rightarrow> string \<Rightarrow> string \<Rightarrow> string \<Rightarrow> ingest_error + unit" where
  "record_sent_call E contact_id message eid =
     (if eid = [] \<or> message = [] then Inr ()
      else if ie_sent_call E contact_id message eid then Inr () else Inl CallBookkeepingError)"

definition USER_VISIBLE_EVENT_TYPES :: "string list" where
  "USER_VISIBLE_EVENT_TYPES = [''m.text'', ''m.image'', ''m.file'', ''m.album'', ''m.voice'', ''m.tts'']"

definition IGNORED_EVENT_TYPES :: "string list" where
  "IGNORED_EVENT_TYPES = [''m.progress'', ''m.reaction'', ''m.session_marker'', ''m.system'']"

text \<open>An event of this Silicon itself is only noted, with a call to another Silicon journalled.\<close>

definition process_own_event :: "ienv \<Rightarrow> pyv \<Rightarrow> cfiles \<Rightarrow> cfiles \<times> (ingest_error + unit)" where
  "process_own_event E event fs =
     (let rp = ie_repr E; C = ie_contacts E; eid = event_id rp event; room_id = event_room_id rp event in
      bindS
        (if event_type rp event = ''m.text'' \<and> eid \<noteq> []
         then bindS (raising (contact_for_room C room_id fs)) (\<lambda>fs1 (contact_id, contact).
                (fs1, if contact_id \<noteq> [] \<and> is_dict contact \<and> get contact ''contact_type'' = PStr ''silicon''
                      then record_sent_call E contact_id (event_body rp event) eid else Inr ()))
         else (fs, Inr ()))
        (\<lambda>fs2 _. raising (remember_seen_event C room_id eid fs2)))"

text \<open>The context a manager gets for an event of a known contact.\<close>

definition message_context ::
  "ienv \<Rightarrow> string \<Rightarrow> pyv \<Rightarrow> pyv \<Rightarrow> cfiles \<Rightarrow> cfiles \<times> string result" where
  "message_context E contact_id contact event fs =
     (let rp = ie_repr E; eid = event_id rp event;
          refs = event_media_references rp event;
          media_id = (case refs of [] \<Rightarrow> [] | (m, _) # _ \<Rightarrow> m);
          (local_path, local_paths) = download_all E eid (length refs) 0 refs [];
          transcript = (if event_type rp event \<in> set [''m.voice'', ''m.tts'']
                        then transcript_for_event E event local_path media_id else []) in
      if event_type rp event = ''m.text'' \<and> event_body rp event = ''/new'' then (fs, Inr ''[COMMAND: NEW_SESSION]'')
      else if event_type rp event = ''m.text'' \<and> event_body rp event = ''/start'' then (fs, Inr ''[COMMAND: START]'')
      else format_event_context E contact_id contact event local_paths transcript fs)"

definition process_incoming_event ::
  "ienv \<Rightarrow> pyv \<Rightarrow> bool \<Rightarrow> cfiles \<Rightarrow> cfiles \<times> (ingest_error + (string \<times> string) option)" where
  "process_incoming_event E event defer_watermark fs =
     (let rp = ie_repr E; C = ie_contacts E; eid = event_id rp event; room_id = event_room_id rp event;
          kind = event_type rp event;
          seen = (\<lambda>fs. bindS (raising (remember_seen_event C room_id eid fs)) (\<lambda>fs _. (fs, Inr None))) in
      bindS (raising (load_state C fs)) (\<lambda>fs1 state.
        (let fs2 = (if kind = ''m.work_event'' then fst (remember_work_event_reference C event fs1) else fs1) in
         if event_is_self rp event state
         then bindS (process_own_event E event fs2) (\<lambda>fs3 _. (fs3, Inr None))
         else if kind \<in> set IGNORED_EVENT_TYPES \<or> kind \<notin> set USER_VISIBLE_EVENT_TYPES then seen fs2
         else
           bindS (raising (contact_for_room C room_id fs2)) (\<lambda>fs3 (contact_id, contact).
             if contact_id = [] \<or> \<not> truthy contact then seen fs3
             else
               bindS (raising (already_processed C contact room_id eid fs3)) (\<lambda>fs4 old.
                 if old then seen fs4
                 else
                   bindS (raising (message_context E contact_id contact event fs4)) (\<lambda>fs5 context.
                   bindS (fs5, record_incoming_call E contact_id contact (event_body rp event) eid) (\<lambda>fs6 _.
                   bindS (if defer_watermark then (fs6, Inr ())
                          else raising (remember_processed C contact_id eid room_id fs6)) (\<lambda>fs7 _.
                     (fs7, Inr (Some (contact_id, context)))))))))))"

section \<open>One record\<close>

definition reconcile_durable_frame :: "ienv \<Rightarrow> pyv \<Rightarrow> cfiles \<Rightarrow> cfiles \<times> unit result" where
  "reconcile_durable_frame E frame fs =
     (let rp = ie_repr E; C = ie_contacts E;
          frame_type = str_or_empty rp (get frame ''type'');
          room_id = str_or_empty rp (get frame ''room_id'');
          data_room = (if room_id \<noteq> [] then room_id
                       else str_or_empty rp (get (get frame ''data'') ''room_id'')) in
      if frame_type = ''room.removed'' then remove_room_mapping C room_id fs
      else if frame_type = ''account.state'' \<and> str_or_empty rp (get frame ''kind'') = ''room.remove''
      then remove_room_mapping C data_room fs
      else (fs, Inr ()))"

definition ingress_id :: "ienv \<Rightarrow> inbox_record \<Rightarrow> nat \<Rightarrow> pyv \<Rightarrow> string" where
  "ingress_id E r index event =
     (let rp = ie_repr E; eid = event_id rp event in
      if eid \<noteq> [] then ''interface:'' @ event_room_id rp event @ '':'' @ eid
      else if ir_file_id r \<noteq> [] \<and> ir_end_offset r > 0
      then ''interface-record:'' @ ir_file_id r @ '':'' @ show_int (ir_end_offset r) @ '':'' @ show_int (int index)
      else ''interface-event:'' @ ie_sha E (ascii_json rp event))"

text \<open>Ownership first, then the mark; whatever goes wrong is one error.\<close>

definition hand_over ::
  "ienv \<Rightarrow> inbox_record \<Rightarrow> nat \<Rightarrow> pyv \<Rightarrow> string \<Rightarrow> string \<Rightarrow> iworld \<Rightarrow> iworld \<times> (ingest_error + unit)" where
  "hand_over E r index event contact_id context w =
     (let iid = ingress_id E r index event; (ME, now) = ie_handoff E iid in
      case enqueue_ingress_root ME now contact_id context iid (iw_maint w) of
        Inl e \<Rightarrow> (w, Inl DurableHandoffError)
      | Inr (accepted, file) \<Rightarrow>
          (let w1 = w\<lparr>iw_maint := file\<rparr> in
           if \<not> accepted then (w1, Inl DurableHandoffError)
           else (case remember_processed (ie_contacts E) contact_id (event_id (ie_repr E) event)
                        (event_room_id (ie_repr E) event) (iw_files w1) of
                   (fs, Inl e) \<Rightarrow> (w1\<lparr>iw_files := fs\<rparr>, Inl DurableHandoffError)
                 | (fs, Inr _) \<Rightarrow> (w1\<lparr>iw_files := fs\<rparr>, Inr ()))))"

text \<open>An event: whether its record must be kept, and its context unless it was handed over.\<close>

definition handle_event ::
  "ienv \<Rightarrow> bool \<Rightarrow> inbox_record \<Rightarrow> nat \<Rightarrow> pyv \<Rightarrow> iworld \<Rightarrow> iworld \<times> bool \<times> (string \<times> string) list" where
  "handle_event E durable r index event w =
     (case process_incoming_event E event durable (iw_files w) of
        (fs, Inl (OtherIngestError e)) \<Rightarrow> (w\<lparr>iw_files := fs\<rparr>, False, [])
      | (fs, Inl _) \<Rightarrow> (w\<lparr>iw_files := fs\<rparr>, True, [])
      | (fs, Inr None) \<Rightarrow> (w\<lparr>iw_files := fs\<rparr>, False, [])
      | (fs, Inr (Some (contact_id, context))) \<Rightarrow>
          if \<not> durable then (w\<lparr>iw_files := fs\<rparr>, False, [(contact_id, context)])
          else (case hand_over E r index event contact_id context (w\<lparr>iw_files := fs\<rparr>) of
                  (w1, Inl e) \<Rightarrow> (w1, True, [])
                | (w1, Inr _) \<Rightarrow> (w1, False, [])))"

fun handle_events ::
  "ienv \<Rightarrow> bool \<Rightarrow> inbox_record \<Rightarrow> nat \<Rightarrow> pyv list \<Rightarrow> iworld \<Rightarrow> iworld \<times> bool \<times> (string \<times> string) list" where
  "handle_events E durable r index [] w = (w, False, [])"
| "handle_events E durable r index (event # events) w =
     (case handle_event E durable r index event w of
        (w1, True, contexts) \<Rightarrow> (w1, True, contexts)
      | (w1, False, contexts) \<Rightarrow>
          (let (w2, retry, later) = handle_events E durable r (Suc index) events w1 in
           (w2, retry, contexts @ later)))"

definition handle_record ::
  "ienv \<Rightarrow> bool \<Rightarrow> inbox_record \<Rightarrow> iworld \<Rightarrow> iworld \<times> bool \<times> (string \<times> string) list" where
  "handle_record E durable r w =
     (case reconcile_durable_frame E (ir_frame r) (iw_files w) of
        (fs, Inl e) \<Rightarrow> (w\<lparr>iw_files := fs\<rparr>, False, [])
      | (fs, Inr _) \<Rightarrow>
          (case events_from_durable_frame (ie_repr E) (ir_frame r) of
             Inl e \<Rightarrow> (w\<lparr>iw_files := fs\<rparr>, False, [])
           | Inr events \<Rightarrow> handle_events E durable r 0 events (w\<lparr>iw_files := fs\<rparr>)))"

text \<open>A record that must be kept goes back with everything behind it.\<close>

fun process_records ::
  "ienv \<Rightarrow> bool \<Rightarrow> inbox_record list \<Rightarrow> iworld \<Rightarrow> iworld \<times> (string \<times> string) list" where
  "process_records E durable [] w = (w, [])"
| "process_records E durable (r # rs) w =
     (case handle_record E durable r w of
        (w1, True, contexts) \<Rightarrow> (retry_inbox_batch (r # rs) w1, contexts)
      | (w1, False, contexts) \<Rightarrow>
          (let (w2, later) = process_records E durable rs (commit_inbox_record E r w1) in
           (w2, contexts @ later)))"

text \<open>The contexts by contact, in the order the contacts first appear.\<close>

definition joined_contexts :: "(string \<times> string) list \<Rightarrow> (string \<times> string) list" where
  "joined_contexts ps =
     map (\<lambda>c. (c, py_join (CHR 0x0A # ''---'' @ [CHR 0x0A]) (map snd (filter (\<lambda>p. fst p = c) ps))))
       (fromkeys (map fst ps))"

definition get_unread_events :: "ienv \<Rightarrow> bool \<Rightarrow> iworld \<Rightarrow> iworld \<times> (string \<times> string) list" where
  "get_unread_events E durable w =
     (let fs = fst (discover_rooms (ie_contacts E) False (iw_files w));
          (w1, records) = drain_listener_events (w\<lparr>iw_files := fs\<rparr>);
          (w2, contexts) = process_records E durable records w1 in
      (w2, joined_contexts contexts))"

end
