(* ===== verification/InboxScan.thy ===== *)
theory InboxScan
  imports Ingest
begin

text \<open>
  The durable inbox is an append-only sequence of lines. \<open>line_records\<close> is the reference reading
  of it: one record per complete line. \<open>inbox_window\<close> says that the records a process holds are
  the complete lines between the committed cursor and its scan position, each once and in order.
  A pass of the daemon, a commit and a restart keep it; \<open>InboxTurn\<close> shows it for the consumer.
\<close>

section \<open>Lines\<close>

function line_records :: "ienv \<Rightarrow> string \<Rightarrow> int \<Rightarrow> string \<Rightarrow> inbox_record list" where
  "line_records E file_id start s =
     (case next_line s of
        None \<Rightarrow> []
      | Some (line, rest) \<Rightarrow>
          line_record E file_id start line # line_records E file_id (start + int (length line)) rest)"
  by pat_completeness auto
termination
  by (relation "measure (\<lambda>(E, f, n, s). length s)") (auto dest!: next_line_Some)

declare line_records.simps [simp del]

lemma line_records_None: "next_line s = None \<Longrightarrow> line_records E f a s = []"
  by (simp add: line_records.simps)

lemma line_records_Some:
  "next_line s = Some (l, r) \<Longrightarrow>
     line_records E f a s = line_record E f a l # line_records E f (a + int (length l)) r"
  by (simp add: line_records.simps [of E f a s])

lemma line_records_Nil [simp]: "line_records E f a [] = []"
  by (simp add: line_records_None)

text \<open>A text of complete lines only.\<close>

definition whole_lines :: "string \<Rightarrow> bool" where
  "whole_lines s \<longleftrightarrow> s = [] \<or> last s = CHR 0x0A"

lemma whole_Nil [simp]: "whole_lines []"
  by (simp add: whole_lines_def)

lemma whole_append [intro]: "whole_lines s \<Longrightarrow> whole_lines t \<Longrightarrow> whole_lines (s @ t)"
  by (cases "t = []") (simp_all add: whole_lines_def)

lemma next_line_append: "next_line s = Some (l, r) \<Longrightarrow> next_line (s @ t) = Some (l, r @ t)"
proof (induction s arbitrary: l)
  case (Cons c s)
  show ?case
  proof (cases "c = CHR 0x0A")
    case False
    then obtain m where m: "next_line s = Some (m, r)" "l = c # m"
      using Cons.prems by (cases "next_line s") (simp_all split: prod.splits)
    then show ?thesis using Cons.IH [OF m(1)] False by simp
  qed (use Cons.prems in \<open>clarsimp\<close>)
qed simp

lemma next_line_single: "next_line s = Some (l, r) \<Longrightarrow> next_line l = Some (l, [])"
proof (induction s arbitrary: l)
  case (Cons c s)
  show ?case
  proof (cases "c = CHR 0x0A")
    case False
    then obtain m where m: "next_line s = Some (m, r)" "l = c # m"
      using Cons.prems by (cases "next_line s") (simp_all split: prod.splits)
    then show ?thesis using Cons.IH [OF m(1)] False by simp
  qed (use Cons.prems in \<open>clarsimp\<close>)
qed simp

lemma next_line_whole: "whole_lines s \<Longrightarrow> s \<noteq> [] \<Longrightarrow> \<exists>l r. next_line s = Some (l, r)"
proof (induction s)
  case (Cons c s)
  show ?case
  proof (cases "c = CHR 0x0A")
    case False
    then have ne: "s \<noteq> []" using Cons.prems by (cases s) (simp_all add: whole_lines_def)
    then have "whole_lines s" using Cons.prems by (simp add: whole_lines_def)
    with ne obtain l r where "next_line s = Some (l, r)" using Cons.IH by blast
    then show ?thesis using False by simp
  qed simp
qed simp

lemma next_line_rest: "next_line s = Some (l, r) \<Longrightarrow> whole_lines s \<Longrightarrow> whole_lines r"
  using next_line_Some [of s l r] by (cases "r = []") (simp_all add: whole_lines_def)

lemma next_line_line: "next_line s = Some (l, r) \<Longrightarrow> whole_lines l"
  using next_line_Some [of s l r] by (simp add: whole_lines_def)

lemma line_records_append:
  "whole_lines s \<Longrightarrow>
     line_records E f a (s @ t) = line_records E f a s @ line_records E f (a + int (length s)) t"
proof (induction E f a s rule: line_records.induct)
  case (1 E f a s)
  show ?case
  proof (cases "s = []")
    case False
    then obtain l r where n: "next_line s = Some (l, r)" using next_line_whole 1(2) by blast
    then have "line_records E f (a + int (length l)) (r @ t)
        = line_records E f (a + int (length l)) r @ line_records E f (a + int (length l) + int (length r)) t"
      using 1(1) [OF n] next_line_rest [OF n 1(2)] by simp
    moreover have "length s = length l + length r" using next_line_Some [OF n] by simp
    ultimately show ?thesis
      using n by (simp add: line_records_Some next_line_append algebra_simps)
  qed simp
qed

lemma line_records_more:
  "whole_lines s \<Longrightarrow> next_line t = None \<Longrightarrow> line_records E f a (s @ t) = line_records E f a s"
  by (simp add: line_records_append line_records_None)

text \<open>A pass reads some of the complete lines ahead of it, and at least one if it may.\<close>

lemma scan_lines_prefix:
  "scan_lines E f n b a s = (rs, fin) \<Longrightarrow>
     \<exists>pre post. s = pre @ post \<and> whole_lines pre \<and> rs = line_records E f a pre \<and> fin = a + int (length pre)"
proof (induction E f n b a s arbitrary: rs fin rule: scan_lines.induct)
  case (1 E f n b a s)
  consider (stop) "n \<le> 0 \<or> b \<ge> INBOX_READ_CHUNK_BYTES \<or> next_line s = None"
    | (go) l r where "\<not> (n \<le> 0 \<or> b \<ge> INBOX_READ_CHUNK_BYTES)" "next_line s = Some (l, r)"
    by (cases "next_line s") auto
  then show ?case
  proof cases
    case stop
    then have "rs = []" "fin = a"
      using 1(2) by (auto simp: scan_lines.simps [of E f n b a s] split: if_splits)
    then show ?thesis by (intro exI [of _ "[]"] exI [of _ s]) simp
  next
    case go
    obtain rs1 fin1 where sc:
      "scan_lines E f (n - 1) (b + int (length l)) (a + int (length l)) r = (rs1, fin1)"
      by fastforce
    from 1(1) [OF go(1,2) refl sc] obtain pre post where p:
      "r = pre @ post" "whole_lines pre" "rs1 = line_records E f (a + int (length l)) pre"
      "fin1 = a + int (length l) + int (length pre)" by blast
    have s: "s = l @ r" "whole_lines l" "l \<noteq> []"
      using next_line_Some [OF go(2)] next_line_line [OF go(2)] by auto
    have "rs = line_record E f a l # rs1" "fin = fin1"
      using 1(2) go sc by (auto simp: scan_lines.simps [of E f n b a s])
    moreover have l: "next_line l = Some (l, [])"
      using go(2) by (rule next_line_single)
    ultimately have "rs = line_records E f a (l @ pre)" "fin = a + int (length (l @ pre))"
      using p s by (simp_all add: line_records_append line_records_Some [OF l])
    then show ?thesis using s p by (intro exI [of _ "l @ pre"] exI [of _ post]) auto
  qed
qed

lemma scan_lines_progress:
  assumes "next_line s \<noteq> None" and "0 < n"
  shows "fst (scan_lines E f n 0 a s) \<noteq> []"
  using assms
  by (auto simp: scan_lines.simps [of E f n 0 a s] INBOX_READ_CHUNK_BYTES_def split: prod.splits)

section \<open>The cursor file\<close>

lemma natural_field_PInt: "natural_field (PInt n) = max 0 n"
  by (simp add: natural_field_def py_or_def)

definition known_cursor :: "json_file \<Rightarrow> bool" where
  "known_cursor f \<longleftrightarrow> is_dict (read_json f (PDict [])) \<and> py_eq (get (read_json f (PDict [])) ''version'') (PInt 1)"

lemma load_cursor_fields:
  assumes "known_cursor f"
  shows "cu_path (load_inbox_consumer E f) = str_or_empty (ie_repr E) (get (read_json f (PDict [])) ''path'')"
    and "cu_file_id (load_inbox_consumer E f) = str_or_empty (ie_repr E) (get (read_json f (PDict [])) ''file_id'')"
    and "cu_offset (load_inbox_consumer E f) = natural_field (get (read_json f (PDict [])) ''offset'')"
  using assms by (simp_all add: load_inbox_consumer_def known_cursor_def Let_def)

lemma saved_cursor_fields:
  assumes "v = read_json (iw_cursor (save_inbox_consumer E path file_id offset start sha w)) (PDict [])"
  shows "is_dict v" and "get v ''version'' = PInt 1" and "get v ''path'' = PStr path"
    and "get v ''file_id'' = PStr file_id" and "get v ''offset'' = PInt (max 0 offset)"
  unfolding assms save_inbox_consumer_def Let_def write_json_def
  by (simp_all add: read_json_def dget_Cons del: sort_keys.simps(2))

lemma load_saved_cursor:
  assumes "c = load_inbox_consumer E (iw_cursor (save_inbox_consumer E' path file_id offset start sha w))"
  shows "cu_path c = path" and "cu_file_id c = file_id" and "cu_offset c = max 0 offset"
proof -
  have "known_cursor (iw_cursor (save_inbox_consumer E' path file_id offset start sha w))"
    by (simp add: known_cursor_def saved_cursor_fields [OF refl])
  from load_cursor_fields [OF this, of E]
  show "cu_path c = path" "cu_file_id c = file_id" "cu_offset c = max 0 offset"
    by (simp_all add: assms saved_cursor_fields [OF refl] natural_field_PInt)
qed

section \<open>The window of held records\<close>

text \<open>What two passes agree on: the inbox they read and how its lines are read.\<close>

definition same_source :: "ienv \<Rightarrow> ienv \<Rightarrow> bool" where
  "same_source E0 E \<longleftrightarrow>
     ie_path E = ie_path E0 \<and> ie_sha E = ie_sha E0 \<and> ie_loads E = ie_loads E0 \<and> ie_repr E = ie_repr E0"

lemma same_line_record: "same_source E0 E \<Longrightarrow> line_record E f a l = line_record E0 f a l"
  by (simp add: same_source_def line_record_def line_frame_def Let_def)

lemma same_line_records: "same_source E0 E \<Longrightarrow> line_records E f a s = line_records E0 f a s"
proof (induction E f a s rule: line_records.induct)
  case (1 E f a s)
  then show ?case
    by (simp add: line_records.simps [of _ f a s] same_line_record split: option.split prod.split)
qed

lemma same_load: "same_source E0 E \<Longrightarrow> load_inbox_consumer E c = load_inbox_consumer E0 c"
  unfolding same_source_def load_inbox_consumer_def by metis

text \<open>The cursor stands at \<open>n\<close> of this file, or is none yet; it has no anchor in another file.\<close>

definition cursor_at :: "ienv \<Rightarrow> string \<Rightarrow> int \<Rightarrow> json_file \<Rightarrow> bool" where
  "cursor_at E file_id n f \<longleftrightarrow>
     (let c = load_inbox_consumer E f in
      if cu_path c = ie_path E \<and> cu_file_id c = file_id then cu_offset c = n
      else n = 0 \<and> cu_anchor_sha256 c = [])"

text \<open>
  The inbox is: lines done with, lines held, and the rest. \<open>pend\<close> are the records held, those a
  consumer is working on before those in the queues.
\<close>

definition holds_window :: "ienv \<Rightarrow> inbox_record list \<Rightarrow> iworld \<Rightarrow> bool" where
  "holds_window E pend w \<longleftrightarrow>
     ie_path E \<noteq> [] \<and>
     (\<exists>file_id finished held ahead.
        iw_inbox w = Some (file_id, finished @ held @ ahead) \<and> file_id \<noteq> []
        \<and> whole_lines finished \<and> whole_lines held
        \<and> cursor_at E file_id (int (length finished)) (iw_cursor w)
        \<and> pend = line_records E file_id (int (length finished)) held
        \<and> (iw_scan w = Some (ie_path E, file_id, int (length (finished @ held)))
           \<or> iw_scan w = None \<and> held = []))"

definition inbox_window :: "ienv \<Rightarrow> iworld \<Rightarrow> bool" where
  "inbox_window E w \<longleftrightarrow> holds_window E (iw_retry w @ iw_queue w) w"

lemma holds_windowE:
  assumes "holds_window E pend w"
  obtains file_id finished held ahead where
    "ie_path E \<noteq> []" "iw_inbox w = Some (file_id, finished @ held @ ahead)" "file_id \<noteq> []"
    "whole_lines finished" "whole_lines held"
    "cursor_at E file_id (int (length finished)) (iw_cursor w)"
    "pend = line_records E file_id (int (length finished)) held"
    "iw_scan w = Some (ie_path E, file_id, int (length (finished @ held))) \<or> iw_scan w = None \<and> held = []"
  using assms unfolding holds_window_def by (elim exE conjE) (rule that)

lemma holds_windowI:
  assumes "ie_path E \<noteq> []" and "iw_inbox w = Some (file_id, finished @ held @ ahead)" and "file_id \<noteq> []"
    and "whole_lines finished" and "whole_lines held"
    and "cursor_at E file_id (int (length finished)) (iw_cursor w)"
    and "pend = line_records E file_id (int (length finished)) held"
    and "iw_scan w = Some (ie_path E, file_id, int (length (finished @ held))) \<or> iw_scan w = None \<and> held = []"
  shows "holds_window E pend w"
  unfolding holds_window_def using assms
  by (intro conjI exI [of _ file_id] exI [of _ finished] exI [of _ held] exI [of _ ahead]) assumption+

lemma same_window: "same_source E0 E \<Longrightarrow> holds_window E pend w = holds_window E0 pend w"
  by (simp add: holds_window_def cursor_at_def same_line_records same_load)
    (simp add: same_source_def)

text \<open>A state that differs elsewhere holds the same window.\<close>

lemma holds_window_frame:
  assumes "holds_window E pend w" and "iw_inbox w' = iw_inbox w" and "iw_scan w' = iw_scan w"
    and "iw_cursor w' = iw_cursor w"
  shows "holds_window E pend w'"
  using assms by (simp add: holds_window_def)

lemma cursor_start_window:
  assumes "cursor_at E file_id (int (length finished)) (iw_cursor w)"
    and "iw_inbox w = Some (file_id, finished @ rest)"
  shows "cursor_start E file_id (finished @ rest) w = (w, int (length finished))"
proof (cases "cu_path (load_inbox_consumer E (iw_cursor w)) = ie_path E
              \<and> cu_file_id (load_inbox_consumer E (iw_cursor w)) = file_id")
  case True
  then show ?thesis
    using assms(1) by (simp add: cursor_at_def cursor_start_def inbox_cursor_continues_file_def Let_def)
next
  case False
  then have "cu_anchor_sha256 (load_inbox_consumer E (iw_cursor w)) = []" "finished = []"
    using assms(1) by (auto simp: cursor_at_def Let_def)
  moreover from this(1) False have "\<not> inbox_cursor_continues_file E (load_inbox_consumer E (iw_cursor w)) file_id
      (finished @ rest)"
    unfolding inbox_cursor_continues_file_def by blast
  ultimately show ?thesis by (simp add: cursor_start_def Let_def)
qed

text \<open>One pass of the daemon's reader.\<close>

definition scan_pass :: "ienv \<Rightarrow> int \<Rightarrow> iworld \<Rightarrow> iworld" where
  "scan_pass E n w = (let (w1, rs) = read_new_inbox_records E n w in queue_inbox_records rs w1)"

text \<open>A pass takes some of the lines ahead, at least one if there is one.\<close>

lemma scan_pass_at:
  assumes inbox: "iw_inbox w = Some (file_id, finished @ held @ ahead)"
    and cur: "cursor_at E file_id (int (length finished)) (iw_cursor w)"
    and scan: "iw_scan w = Some (ie_path E, file_id, int (length (finished @ held)))
                 \<or> iw_scan w = None \<and> held = []"
  obtains pre post where "ahead = pre @ post" and "whole_lines pre"
    and "scan_pass E n w = w\<lparr>iw_scan := Some (ie_path E, file_id, int (length (finished @ held @ pre))),
           iw_queue := iw_queue w @ line_records E file_id (int (length (finished @ held))) pre\<rparr>"
    and "0 < n \<Longrightarrow> next_line ahead \<noteq> None \<Longrightarrow> pre \<noteq> []"
proof -
  let ?m = "int (length (finished @ held))"
  have st: "scan_start E file_id (finished @ held @ ahead) w = (w, ?m)"
    using scan
  proof
    assume "iw_scan w = None \<and> held = []"
    then show ?thesis
      using cursor_start_window [OF cur, of ahead] inbox by (simp add: scan_start_def)
  qed (simp add: scan_start_def)
  obtain rs fin where sc: "scan_lines E file_id n 0 ?m ahead = (rs, fin)" by fastforce
  from scan_lines_prefix [OF sc] obtain pre post where p:
    "ahead = pre @ post" "whole_lines pre" "rs = line_records E file_id ?m pre"
    "fin = ?m + int (length pre)" by blast
  have "drop (nat ?m) (finished @ held @ ahead) = ahead" by simp
  then have "scan_pass E n w = w\<lparr>iw_scan := Some (ie_path E, file_id, fin), iw_queue := iw_queue w @ rs\<rparr>"
    using inbox st sc by (simp add: scan_pass_def read_new_inbox_records_def queue_inbox_records_def)
  moreover have "pre \<noteq> []" if "0 < n" "next_line ahead \<noteq> None"
    using scan_lines_progress [OF that(2,1), of E file_id ?m] sc p(3) by auto
  ultimately show thesis using p by (intro that) simp_all
qed

lemma scan_keeps_window:
  assumes h: "inbox_window E w"
  shows "inbox_window E (scan_pass E n w)"
  using h unfolding inbox_window_def
proof (rule holds_windowE)
  fix file_id finished held ahead
  assume path: "ie_path E \<noteq> []" and inbox: "iw_inbox w = Some (file_id, finished @ held @ ahead)"
    and fid: "file_id \<noteq> []" and whole: "whole_lines finished" "whole_lines held"
    and cur: "cursor_at E file_id (int (length finished)) (iw_cursor w)"
    and pend: "iw_retry w @ iw_queue w = line_records E file_id (int (length finished)) held"
    and scan: "iw_scan w = Some (ie_path E, file_id, int (length (finished @ held)))
                 \<or> iw_scan w = None \<and> held = []"
  from inbox cur scan obtain pre post where p: "ahead = pre @ post" "whole_lines pre"
    "scan_pass E n w = w\<lparr>iw_scan := Some (ie_path E, file_id, int (length (finished @ held @ pre))),
       iw_queue := iw_queue w @ line_records E file_id (int (length (finished @ held))) pre\<rparr>"
    by (rule scan_pass_at)
  show "holds_window E (iw_retry (scan_pass E n w) @ iw_queue (scan_pass E n w)) (scan_pass E n w)"
  proof (rule holds_windowI)
    show "ie_path E \<noteq> []" "file_id \<noteq> []" "whole_lines finished" by (fact path fid whole)+
    show "iw_inbox (scan_pass E n w) = Some (file_id, finished @ (held @ pre) @ post)"
      by (simp add: p inbox)
    show "whole_lines (held @ pre)" using whole p by blast
    show "cursor_at E file_id (int (length finished)) (iw_cursor (scan_pass E n w))"
      using cur by (simp add: p)
    show "iw_retry (scan_pass E n w) @ iw_queue (scan_pass E n w)
        = line_records E file_id (int (length finished)) (held @ pre)"
      using whole(2) pend by (simp add: p line_records_append flip: append_assoc)
    show "iw_scan (scan_pass E n w) = Some (ie_path E, file_id, int (length (finished @ held @ pre)))
        \<or> iw_scan (scan_pass E n w) = None \<and> held @ pre = []"
      by (simp add: p)
  qed
qed

text \<open>Enough passes of a process that has just started take every complete line.\<close>

lemma scan_passes_at:
  assumes inbox: "iw_inbox w = Some (file_id, finished @ rest)"
    and cur: "cursor_at E file_id (int (length finished)) (iw_cursor w)"
    and fresh: "iw_scan w = None" "iw_queue w = []" and n: "0 < n"
  shows "\<exists>held ahead. rest = held @ ahead \<and> whole_lines held
     \<and> iw_inbox ((scan_pass E n ^^ N) w) = iw_inbox w \<and> iw_cursor ((scan_pass E n ^^ N) w) = iw_cursor w
     \<and> iw_retry ((scan_pass E n ^^ N) w) = iw_retry w
     \<and> iw_queue ((scan_pass E n ^^ N) w) = line_records E file_id (int (length finished)) held
     \<and> (iw_scan ((scan_pass E n ^^ N) w) = Some (ie_path E, file_id, int (length (finished @ held)))
        \<or> iw_scan ((scan_pass E n ^^ N) w) = None \<and> held = [])
     \<and> (next_line ahead = None \<or> N \<le> length held)"
proof (induction N)
  case 0
  show ?case using fresh by (intro exI [of _ "[]"] exI [of _ rest]) simp
next
  case (Suc N)
  let ?w = "(scan_pass E n ^^ N) w"
  from Suc obtain held ahead where h: "rest = held @ ahead" "whole_lines held"
    "iw_inbox ?w = iw_inbox w" "iw_cursor ?w = iw_cursor w" "iw_retry ?w = iw_retry w"
    "iw_queue ?w = line_records E file_id (int (length finished)) held"
    "iw_scan ?w = Some (ie_path E, file_id, int (length (finished @ held))) \<or> iw_scan ?w = None \<and> held = []"
    "next_line ahead = None \<or> N \<le> length held" by (elim exE conjE) (rule that)
  have "iw_inbox ?w = Some (file_id, finished @ held @ ahead)"
    "cursor_at E file_id (int (length finished)) (iw_cursor ?w)"
    using h inbox cur by simp_all
  then obtain pre post where p: "ahead = pre @ post" "whole_lines pre"
    "scan_pass E n ?w = ?w\<lparr>iw_scan := Some (ie_path E, file_id, int (length (finished @ held @ pre))),
       iw_queue := iw_queue ?w @ line_records E file_id (int (length (finished @ held))) pre\<rparr>"
    "next_line ahead \<noteq> None \<Longrightarrow> pre \<noteq> []"
    using h(7) n scan_pass_at [of ?w file_id finished held ahead E n] by blast
  have "next_line post = None \<or> Suc N \<le> length (held @ pre)"
  proof (cases "next_line ahead = None")
    case True
    then show ?thesis using p(1,2) next_line_append next_line_whole by (cases "pre = []") fastforce+
  next
    case False
    then obtain c cs where "pre = c # cs" using p(4) by (cases pre) auto
    moreover have "N \<le> length held" using h(8) False by blast
    ultimately have "Suc N \<le> length (held @ pre)" by simp
    then show ?thesis ..
  qed
  then show ?case
    using h p by (intro exI [of _ "held @ pre"] exI [of _ post])
      (auto simp: line_records_append algebra_simps)
qed

lemma scan_passes_all:
  assumes inbox: "iw_inbox w = Some (file_id, finished @ rest)"
    and cur: "cursor_at E file_id (int (length finished)) (iw_cursor w)"
    and fresh: "iw_scan w = None" "iw_queue w = []" and n: "0 < n" and N: "length rest < N"
  shows "iw_queue ((scan_pass E n ^^ N) w) = line_records E file_id (int (length finished)) rest
    \<and> iw_retry ((scan_pass E n ^^ N) w) = iw_retry w"
proof -
  from scan_passes_at [OF inbox cur fresh n, of N] obtain held ahead where h:
    "rest = held @ ahead" "whole_lines held" "iw_retry ((scan_pass E n ^^ N) w) = iw_retry w"
    "iw_queue ((scan_pass E n ^^ N) w) = line_records E file_id (int (length finished)) held"
    "next_line ahead = None \<or> N \<le> length held" by blast
  then show ?thesis using N by (auto simp: line_records_more)
qed

text \<open>Committing the first record held moves the cursor over its line and nothing else.\<close>

lemma commit_keeps_window:
  assumes h: "holds_window E (r # pend) w"
  shows "holds_window E pend (commit_inbox_record E r w)
    \<and> cu_offset (load_inbox_consumer E (iw_cursor (commit_inbox_record E r w))) = ir_end_offset r"
  using h
proof (rule holds_windowE)
  fix file_id finished held ahead
  assume path: "ie_path E \<noteq> []" and inbox: "iw_inbox w = Some (file_id, finished @ held @ ahead)"
    and fid: "file_id \<noteq> []" and whole: "whole_lines finished" "whole_lines held"
    and cur: "cursor_at E file_id (int (length finished)) (iw_cursor w)"
    and pend: "r # pend = line_records E file_id (int (length finished)) held"
    and scan: "iw_scan w = Some (ie_path E, file_id, int (length (finished @ held)))
                 \<or> iw_scan w = None \<and> held = []"
  from pend have "held \<noteq> []" by auto
  then obtain l rest where n: "next_line held = Some (l, rest)" using whole next_line_whole by blast
  have l: "held = l @ rest" "l \<noteq> []" "whole_lines l" "whole_lines rest"
    using next_line_Some [OF n] next_line_line [OF n] next_line_rest [OF n whole(2)] by auto
  have r: "r = line_record E file_id (int (length finished)) l"
    and tail: "pend = line_records E file_id (int (length finished) + int (length l)) rest"
    using pend by (simp_all add: line_records_Some [OF n])
  have f: "ir_path r = ie_path E" "ir_file_id r = file_id" "ir_end_offset r = int (length (finished @ l))"
    by (simp_all add: r line_record_def Let_def)
  have l0: "\<not> int (length finished) + int (length l) \<le> 0" "\<not> int (length finished) + int (length l) \<le> int (length finished)"
    using l(2) by (cases l; simp)+
  let ?c = "load_inbox_consumer E (iw_cursor w)"
  have go: "commit_inbox_record E r w
      = save_inbox_consumer E (ir_path r) (ir_file_id r) (ir_end_offset r) (ir_anchor_start r)
          (ir_anchor_sha256 r) w"
  proof (cases "cu_path ?c = ie_path E \<and> cu_file_id ?c = file_id")
    case True
    then have "cu_offset ?c = int (length finished)" using cur by (simp add: cursor_at_def Let_def)
    then show ?thesis using path fid l(2) by (simp add: commit_inbox_record_def f Let_def l0)
  next
    case False
    then show ?thesis using l0(1) path fid unfolding commit_inbox_record_def f Let_def by auto
  qed
  have "cu_offset (load_inbox_consumer E (iw_cursor (commit_inbox_record E r w))) = ir_end_offset r"
    unfolding go by (simp add: load_saved_cursor [OF refl] f)
  moreover have "holds_window E pend (commit_inbox_record E r w)"
  proof (rule holds_windowI)
    show "ie_path E \<noteq> []" "file_id \<noteq> []" by (fact path fid)+
    show "iw_inbox (commit_inbox_record E r w) = Some (file_id, (finished @ l) @ rest @ ahead)"
      by (simp add: go save_inbox_consumer_def Let_def inbox l)
    show "whole_lines (finished @ l)" "whole_lines rest" using whole l by auto
    show "cursor_at E file_id (int (length (finished @ l))) (iw_cursor (commit_inbox_record E r w))"
      unfolding go by (simp add: cursor_at_def load_saved_cursor [OF refl] f)
    show "pend = line_records E file_id (int (length (finished @ l))) rest" using tail by simp
    show "iw_scan (commit_inbox_record E r w) = Some (ie_path E, file_id, int (length ((finished @ l) @ rest)))
        \<or> iw_scan (commit_inbox_record E r w) = None \<and> rest = []"
      using scan \<open>held \<noteq> []\<close> l by (simp add: go save_inbox_consumer_def Let_def)
  qed
  ultimately show ?thesis by blast
qed

lemma restart_keeps_window:
  assumes "inbox_window E w"
  shows "inbox_window E (w\<lparr>iw_scan := None, iw_queue := [], iw_retry := []\<rparr>)"
  using assms unfolding inbox_window_def
proof (rule holds_windowE)
  fix file_id finished held ahead
  assume "ie_path E \<noteq> []" "iw_inbox w = Some (file_id, finished @ held @ ahead)" "file_id \<noteq> []"
    "whole_lines finished" "cursor_at E file_id (int (length finished)) (iw_cursor w)"
  then show "holds_window E (iw_retry (w\<lparr>iw_scan := None, iw_queue := [], iw_retry := []\<rparr>)
      @ iw_queue (w\<lparr>iw_scan := None, iw_queue := [], iw_retry := []\<rparr>))
      (w\<lparr>iw_scan := None, iw_queue := [], iw_retry := []\<rparr>)"
    by (intro holds_windowI [of _ _ file_id finished "[]" "held @ ahead"]) simp_all
qed

lemma append_keeps_window:
  assumes "inbox_window E w" and "iw_inbox w = Some (file_id, bytes)"
  shows "inbox_window E (w\<lparr>iw_inbox := Some (file_id, bytes @ added)\<rparr>)"
  using assms(1) unfolding inbox_window_def
proof (rule holds_windowE)
  fix f finished held ahead
  assume "ie_path E \<noteq> []" "iw_inbox w = Some (f, finished @ held @ ahead)" "f \<noteq> []"
    "whole_lines finished" "whole_lines held" "cursor_at E f (int (length finished)) (iw_cursor w)"
    "iw_retry w @ iw_queue w = line_records E f (int (length finished)) held"
    "iw_scan w = Some (ie_path E, f, int (length (finished @ held))) \<or> iw_scan w = None \<and> held = []"
  with assms(2) show "holds_window E (iw_retry (w\<lparr>iw_inbox := Some (file_id, bytes @ added)\<rparr>)
      @ iw_queue (w\<lparr>iw_inbox := Some (file_id, bytes @ added)\<rparr>)) (w\<lparr>iw_inbox := Some (file_id, bytes @ added)\<rparr>)"
    by (intro holds_windowI [of _ _ file_id finished held "ahead @ added"]) simp_all
qed

end
