(* ===== verification/InboxTurn.thy ===== *)
theory InboxTurn
  imports InboxScan MaintEvents
begin

text \<open>
  A turn of the consumer: it keeps the window of held records (\<open>InboxScan\<close>), commits a prefix of
  what it drained, and puts the rest back in front. \<open>message_to\<close> says what a message for a manager is,
  \<open>event_settled\<close> what has become of it when its record is committed.
\<close>

section \<open>What handling a record leaves alone\<close>

definition same_inbox :: "iworld \<Rightarrow> iworld \<Rightarrow> bool" where
  "same_inbox w w' \<longleftrightarrow>
     iw_inbox w' = iw_inbox w \<and> iw_scan w' = iw_scan w \<and> iw_cursor w' = iw_cursor w
     \<and> iw_queue w' = iw_queue w \<and> iw_retry w' = iw_retry w"

lemma same_inbox_refl [simp]: "same_inbox w w"
  by (simp add: same_inbox_def)

lemma same_inbox_trans: "same_inbox w w1 \<Longrightarrow> same_inbox w1 w2 \<Longrightarrow> same_inbox w w2"
  by (simp add: same_inbox_def)

lemma same_inbox_files [simp]:
  "same_inbox w (w\<lparr>iw_files := fs\<rparr>)" "same_inbox w (w\<lparr>iw_maint := m\<rparr>)"
  "same_inbox w (w\<lparr>iw_files := fs, iw_maint := m\<rparr>)"
  by (simp_all add: same_inbox_def)

lemma hand_over_inbox: "same_inbox w (fst (hand_over E r i ev c ctx w))"
  by (auto simp: hand_over_def Let_def same_inbox_def split: sum.split prod.split)

lemma handle_event_inbox: "same_inbox w (fst (handle_event E durable r i ev w))"
proof -
  have h: "same_inbox w (fst (hand_over E r i ev c ctx (w\<lparr>iw_files := fs\<rparr>)))" for c ctx fs
    using same_inbox_trans same_inbox_files(1) hand_over_inbox by blast
  obtain fs out where p: "process_incoming_event E ev durable (iw_files w) = (fs, out)" by fastforce
  show ?thesis
  proof (cases out)
    case (Inl e)
    then show ?thesis by (cases e) (simp_all add: handle_event_def p)
  next
    case (Inr v)
    show ?thesis
    proof (cases v)
      case (Some cc)
      obtain w1 res where "hand_over E r i ev (fst cc) (snd cc) (w\<lparr>iw_files := fs\<rparr>) = (w1, res)" by fastforce
      moreover from this have "same_inbox w w1" using h [of "fst cc" "snd cc" fs] by simp
      ultimately show ?thesis
        using Inr Some by (cases cc; cases res) (simp_all add: handle_event_def p)
    qed (use Inr p in \<open>simp add: handle_event_def\<close>)
  qed
qed

lemma handle_events_inbox: "same_inbox w (fst (handle_events E durable r i evs w))"
proof (induction evs arbitrary: i w)
  case (Cons ev evs)
  obtain w1 b cs where h: "handle_event E durable r i ev w = (w1, b, cs)" by (metis prod_cases3)
  have 1: "same_inbox w w1" using handle_event_inbox [of w E durable r i ev] h by simp
  obtain w2 b2 cs2 where g: "handle_events E durable r (Suc i) evs w1 = (w2, b2, cs2)" by (metis prod_cases3)
  have 2: "same_inbox w1 w2" using Cons.IH [of w1 "Suc i"] g by simp
  show ?case
    using 1 same_inbox_trans [OF 1 2] by (cases b) (simp_all add: h g)
qed simp

lemma handle_record_inbox: "same_inbox w (fst (handle_record E durable r w))"
proof -
  have "same_inbox w (fst (handle_events E durable r i evs (w\<lparr>iw_files := fs\<rparr>)))" for i evs fs
    using same_inbox_trans same_inbox_files(1) handle_events_inbox by blast
  then show ?thesis
    by (auto simp: handle_record_def split: prod.split sum.split)
qed

lemma same_inbox_window: "same_inbox w w' \<Longrightarrow> holds_window E pend w \<Longrightarrow> holds_window E pend w'"
  using holds_window_frame by (auto simp: same_inbox_def)

lemma commit_queues [simp]:
  "iw_queue (commit_inbox_record E r w) = iw_queue w" "iw_retry (commit_inbox_record E r w) = iw_retry w"
  by (simp_all add: commit_inbox_record_def save_inbox_consumer_def Let_def)

section \<open>A turn keeps the window\<close>

lemma process_records_window:
  assumes "holds_window E (rs @ iw_retry w @ iw_queue w) w"
  shows "inbox_window E (fst (process_records E durable rs w))"
  using assms
proof (induction rs arbitrary: w)
  case Nil
  then show ?case by (simp add: inbox_window_def)
next
  case (Cons r rs)
  obtain w1 b cs where h: "handle_record E durable r w = (w1, b, cs)" by (metis prod_cases3)
  have s: "same_inbox w w1" using handle_record_inbox [of w E durable r] h by simp
  have w1: "holds_window E (r # rs @ iw_retry w1 @ iw_queue w1) w1"
    using same_inbox_window [OF s] Cons.prems s by (simp add: same_inbox_def)
  show ?case
  proof (cases b)
    case True
    have "holds_window E (r # rs @ iw_retry w1 @ iw_queue w1) (retry_inbox_batch (r # rs) w1)"
      using w1 by (rule holds_window_frame) (simp_all add: retry_inbox_batch_def)
    then show ?thesis
      using True h by (simp add: inbox_window_def retry_inbox_batch_def)
  next
    case False
    have "holds_window E (rs @ iw_retry (commit_inbox_record E r w1) @ iw_queue (commit_inbox_record E r w1))
            (commit_inbox_record E r w1)"
      using commit_keeps_window [OF w1] by (simp del: append_assoc)
    from Cons.IH [OF this] show ?thesis
      using False h by (cases "process_records E durable rs (commit_inbox_record E r w1)") simp
  qed
qed

lemma drain_order:
  "drain_listener_events w = (w1, rs) \<Longrightarrow>
     rs @ iw_retry w1 @ iw_queue w1 = iw_retry w @ iw_queue w"
  by (auto simp: drain_listener_events_def Let_def MAX_DRAIN_def min_def)

lemma turn_keeps_window:
  assumes "inbox_window E w"
  shows "inbox_window E (fst (get_unread_events E durable w))"
proof -
  let ?w0 = "w\<lparr>iw_files := fst (discover_rooms (ie_contacts E) False (iw_files w))\<rparr>"
  obtain w1 rs where d: "drain_listener_events ?w0 = (w1, rs)" by fastforce
  have "holds_window E (iw_retry ?w0 @ iw_queue ?w0) ?w0"
    by (rule holds_window_frame [of _ _ w]) (use assms in \<open>simp_all add: inbox_window_def\<close>)
  then have "holds_window E (rs @ iw_retry w1 @ iw_queue w1) ?w0"
    unfolding drain_order [OF d] .
  then have "holds_window E (rs @ iw_retry w1 @ iw_queue w1) w1"
    by (rule holds_window_frame) (use d in \<open>auto simp: drain_listener_events_def Let_def\<close>)
  from process_records_window [OF this, of durable] show ?thesis
    using d by (cases "process_records E durable rs w1") (simp add: get_unread_events_def Let_def)
qed

section \<open>Ownership of a message\<close>

text \<open>The roots queued in a maintenance file: queue id, contact and context of each.\<close>

definition queued_roots :: "pyv option \<Rightarrow> (pyv \<times> pyv \<times> pyv) set" where
  "queued_roots file =
     (case normalize (doc_of file) of Inl e \<Rightarrow> {} | Inr s \<Rightarrow> payload ` set (ms_root_queue s))"

text \<open>The message has been accepted before: there is its receipt, or its root.\<close>

definition ingress_known :: "env \<Rightarrow> string \<Rightarrow> string \<Rightarrow> string \<Rightarrow> mstate \<Rightarrow> bool" where
  "ingress_known E contact_id context iid s \<longleftrightarrow>
     (let queue_id = ingress_queue_id E iid; fp = fingerprint E contact_id context;
          r = dget (ms_ingress_receipts s) queue_id in
      is_dict r \<and> get r ''fingerprint'' = PStr fp \<and> get r ''contact_id'' = PStr contact_id
      \<or> (\<exists>item \<in> set (ms_root_queue s).
           is_dict item \<and> str_or_empty (env_repr E) (get item ''queue_id'') = queue_id
           \<and> str_or_empty (env_repr E) (get item ''contact_id'') = contact_id
           \<and> fingerprint E contact_id (str_or_empty (env_repr E) (get item ''context'')) = fp))"

definition known_before :: "env \<Rightarrow> rat \<Rightarrow> string \<Rightarrow> string \<Rightarrow> string \<Rightarrow> pyv option \<Rightarrow> bool" where
  "known_before E now contact_id context iid file \<longleftrightarrow>
     (case normalize (doc_of file) of
        Inl e \<Rightarrow> False
      | Inr s0 \<Rightarrow> (case prune E s0 now of
                    Inl e \<Rightarrow> False | Inr s1 \<Rightarrow> ingress_known E contact_id context iid s1))"

lemma enqueue_ingress_result:
  assumes "enqueue_ingress_root_mut E now c x iid s = Inr (b, s')"
  shows "b \<and> (ingress_known E c x iid s
            \<or> map payload (ms_root_queue s')
                = map payload (ms_root_queue s) @ [(PStr (ingress_queue_id E iid), PStr c, PStr x)])"
proof -
  let ?q = "ingress_queue_id E iid" and ?fp = "fingerprint E c x"
  show ?thesis
  proof (cases "is_dict (dget (ms_ingress_receipts s) ?q)")
    case True
    then show ?thesis
      using assms by (auto simp: enqueue_ingress_root_mut_def Let_def ingress_known_def split: if_splits)
  next
    case nor: False
    show ?thesis
    proof (cases "find_root E ?q (ms_root_queue s)")
      case None
      have s': "ms_root_queue s'
          = ms_root_queue s @ [PDict (root_item ?q c x now (ms_epoch s))]" and b
        using assms nor None by (auto simp: enqueue_ingress_root_mut_def Let_def)
      then show ?thesis by (simp add: payload_def root_item_def dget_Cons)
    next
      case (Some item)
      then have i: "item \<in> set (ms_root_queue s)" "is_dict item"
        "str_or_empty (env_repr E) (get item ''queue_id'') = ?q"
        by (auto simp: find_root_def find_Some_iff)
      then show ?thesis
        using assms nor Some
        by (auto simp: enqueue_ingress_root_mut_def Let_def ingress_known_def split: if_splits)
    qed
  qed
qed

lemma normalize_queue:
  assumes "normalize d = Inr s" and "get d ''root_queue'' = PList q"
  shows "ms_root_queue s = q"
proof -
  obtain e where d: "d = PDict e" using assms(2) by (cases d) (simp_all add: get_def)
  then have "dget e ''root_queue'' = PList q" using assms(2) by simp
  then show ?thesis
    using assms(1) by (auto simp: d normalize_def Let_def split: sum.splits)
qed

lemma reach_queue: "coord_reach f \<Longrightarrow> \<exists>q. get (doc_of f) ''root_queue'' = PList q"
proof (induction rule: coord_reach.induct)
  case start
  show ?case by (simp add: doc_of_def default_doc_def dget_Cons)
next
  case (step f f')
  from step.hyps(2) obtain now and s2 :: mstate where
    "f' = f \<or> f' = Some (to_doc (s2\<lparr>ms_updated_at := PFloat now\<rparr>))"
    by (elim coord_step_states)
  then show ?case using step.IH by (auto simp: doc_of_def to_doc_def dget_Cons)
qed

lemma py_eq_queue:
  assumes "py_eq (to_doc s) d" and "get d ''root_queue'' = PList q"
  shows "length (ms_root_queue s) = length q"
  using assms by (cases d) (auto simp: to_doc_def dget_def list_all2_lengthD split: option.splits)

text \<open>A completed transaction is a step of the coordinator.\<close>

lemma transaction_coord_step:
  assumes "transaction E now m file = Inr (r, file')" and "\<And>s. state_of (m s) = step_of E now c s"
  shows "coord_step file file'"
proof (rule coord_step.op [where E = E and now = now and c = c])
  have m: "map_sum id (\<lambda>s'. ((), s')) (step_of E now c s)
      = (case m s of Inl e \<Rightarrow> Inl e | Inr (r, s') \<Rightarrow> Inr ((), s'))" for s
    unfolding assms(2) [symmetric] state_of_def by (auto split: sum.splits)
  show "transaction E now (\<lambda>s. map_sum id (\<lambda>s'. ((), s')) (step_of E now c s)) file = Inr ((), file')"
    using assms(1) unfolding m by (auto simp: transaction_def Let_def split: sum.splits if_splits)
qed

lemma transaction_states:
  assumes "transaction E now m file = Inr (r, file')"
  obtains s0 s1 s2 where
    "normalize (doc_of file) = Inr s0" and "prune E s0 now = Inr s1" and "m s1 = Inr (r, s2)"
    and "py_eq (to_doc s2) (doc_of file) \<and> file' = file \<or> file' = Some (to_doc (s2\<lparr>ms_updated_at := PFloat now\<rparr>))"
  using assms by (auto simp: transaction_def doc_of_def Let_def split: sum.splits if_splits)

lemma enqueue_ingress_owned:
  assumes reach: "coord_reach file" and e: "enqueue_ingress_root E now c x iid file = Inr (b, file')"
  shows "b" and "coord_reach file'" and "queued_roots file \<subseteq> queued_roots file'"
    and "known_before E now c x iid file
         \<or> (PStr (ingress_queue_id E iid), PStr c, PStr x) \<in> queued_roots file'"
proof -
  have t: "transaction E now (enqueue_ingress_root_mut E now c x iid) file = Inr (b, file')"
    using e by (auto simp: enqueue_ingress_root_def split: if_splits)
  from t obtain s0 s1 s2 where s: "normalize (doc_of file) = Inr s0" "prune E s0 now = Inr s1"
    "enqueue_ingress_root_mut E now c x iid s1 = Inr (b, s2)"
    and f: "py_eq (to_doc s2) (doc_of file) \<and> file' = file
            \<or> file' = Some (to_doc (s2\<lparr>ms_updated_at := PFloat now\<rparr>))"
    by (elim transaction_states)
  from enqueue_ingress_result [OF s(3)] have b
    and r: "ingress_known E c x iid s1 \<or> map payload (ms_root_queue s2)
              = map payload (ms_root_queue s1) @ [(PStr (ingress_queue_id E iid), PStr c, PStr x)]"
    by blast+
  show b by fact
  have step: "coord_step file file'"
    by (rule transaction_coord_step [OF t, where c = "EnqueueIngress c x iid"]) simp
  then show reach': "coord_reach file'" by (rule coord_reach.step [OF reach])
  have p01: "map payload (ms_root_queue s1) = map payload (ms_root_queue s0)"
    by (rule prune_payload [OF s(2)])
  obtain new where new: "map payload (ms_root_queue s2) = map payload (ms_root_queue s1) @ new"
    using ingress_payload [OF s(3)] by blast
  obtain q where q: "get (doc_of file) ''root_queue'' = PList q" using reach_queue [OF reach] by blast
  have q0: "ms_root_queue s0 = q" by (rule normalize_queue [OF s(1) q])
  have qf: "queued_roots file = set (map payload (ms_root_queue s0))"
    by (simp add: queued_roots_def s(1))
  have qf': "queued_roots file' = set (map payload (ms_root_queue s2))"
    using f
  proof
    assume eq: "py_eq (to_doc s2) (doc_of file) \<and> file' = file"
    then have "length (ms_root_queue s2) = length (ms_root_queue s0)"
      using py_eq_queue q q0 by blast
    moreover have "length (ms_root_queue s1) = length (ms_root_queue s0)"
      using p01 by (rule map_eq_imp_length_eq)
    moreover have "length (ms_root_queue s2) = length (ms_root_queue s1) + length new"
      using arg_cong [OF new, of length] by simp
    ultimately have "new = []" by simp
    with new p01 show ?thesis using eq qf by simp
  next
    assume w: "file' = Some (to_doc (s2\<lparr>ms_updated_at := PFloat now\<rparr>))"
    obtain s' where s': "normalize (doc_of file') = Inr s'"
      using fence.reach_normalizes [OF reach'] by blast
    have "get (doc_of file') ''root_queue'' = PList (ms_root_queue s2)"
      by (simp add: w doc_of_def to_doc_def dget_Cons)
    then have "ms_root_queue s' = ms_root_queue s2" by (rule normalize_queue [OF s'])
    then show ?thesis by (simp add: queued_roots_def s')
  qed
  show "queued_roots file \<subseteq> queued_roots file'"
    unfolding qf qf' using new p01 by auto
  show "known_before E now c x iid file
      \<or> (PStr (ingress_queue_id E iid), PStr c, PStr x) \<in> queued_roots file'"
  proof (cases "ingress_known E c x iid s1")
    case False
    with r have "map payload (ms_root_queue s2)
        = map payload (ms_root_queue s1) @ [(PStr (ingress_queue_id E iid), PStr c, PStr x)]" by blast
    then have "(PStr (ingress_queue_id E iid), PStr c, PStr x) \<in> set (map payload (ms_root_queue s2))"
      by simp
    then show ?thesis unfolding qf' ..
  qed (simp add: known_before_def s)
qed

section \<open>What a committed record stands for\<close>

text \<open>The state each event of a record, and each record of a turn, is handled in.\<close>

fun event_worlds :: "ienv \<Rightarrow> inbox_record \<Rightarrow> nat \<Rightarrow> pyv list \<Rightarrow> iworld \<Rightarrow> iworld list" where
  "event_worlds E r i [] w = []"
| "event_worlds E r i (ev # evs) w = w # event_worlds E r (Suc i) evs (fst (handle_event E True r i ev w))"

fun record_worlds :: "ienv \<Rightarrow> inbox_record list \<Rightarrow> iworld \<Rightarrow> iworld list" where
  "record_worlds E [] w = []"
| "record_worlds E (r # rs) w =
     w # record_worlds E rs (commit_inbox_record E r (fst (handle_record E True r w)))"

text \<open>
  What a message for the manager of contact \<open>c\<close> is, said of the event and of the contacts
  document it meets: it is of a visible kind, it is not the Silicon's own, its room is mapped to
  \<open>c\<close>, which the document knows, and neither the contact nor the room has its mark.
\<close>

definition message_to :: "ienv \<Rightarrow> pyv \<Rightarrow> cfiles \<Rightarrow> string \<Rightarrow> bool" where
  "message_to E ev fs c \<longleftrightarrow> (\<exists>fs' d. load_state (ie_contacts E) fs = (fs', Inr d)
     \<and> event_type (ie_repr E) ev \<in>
         {''m.text'', ''m.image'', ''m.file'', ''m.album'', ''m.voice'', ''m.tts''}
     \<and> \<not> event_is_self (ie_repr E) ev d
     \<and> room_contact (event_room_id (ie_repr E) ev) d = c \<and> c \<noteq> []
     \<and> truthy (get (dget d ''contacts'') c)
     \<and> (event_id (ie_repr E) ev = []
        \<or> PStr (event_id (ie_repr E) ev)
            \<notin> set (list_items (get (get (dget d ''contacts'') c) ''last_processed_event_ids''))
          \<and> PStr (event_id (ie_repr E) ev)
            \<notin> set (list_items (get (dget d ''processed_events'') (event_room_id (ie_repr E) ev)))))"

text \<open>A context that gives the manager the message: its text, or the command the text is.\<close>

definition tells :: "(pyv \<Rightarrow> string) \<Rightarrow> pyv \<Rightarrow> string \<Rightarrow> bool" where
  "tells rp ev x \<longleftrightarrow> (\<exists>a b. x = a @ event_body rp ev @ b)
     \<or> event_body rp ev = ''/new'' \<and> x = ''[COMMAND: NEW_SESSION]''
     \<or> event_body rp ev = ''/start'' \<and> x = ''[COMMAND: START]''"

text \<open>
  An event is settled when, if it is a message to a contact, a context that tells it has been
  accepted for this contact before under its identity, or is queued in the maintenance file
  \<open>final\<close>.
\<close>

definition event_settled :: "ienv \<Rightarrow> inbox_record \<Rightarrow> nat \<Rightarrow> pyv \<Rightarrow> iworld \<Rightarrow> pyv option \<Rightarrow> bool" where
  "event_settled E r i ev w final \<longleftrightarrow>
     (\<forall>c. message_to E ev (iw_files w) c \<longrightarrow>
        (\<exists>x. tells (ie_repr E) ev x \<and>
          (let iid = ingress_id E r i ev; (ME, now) = ie_handoff E iid in
           known_before ME now c x iid (iw_maint w)
           \<or> (PStr (ingress_queue_id ME iid), PStr c, PStr x) \<in> queued_roots final)))"

text \<open>A record is settled when each event its frame lists is, where it is handled.\<close>

definition record_settled :: "ienv \<Rightarrow> inbox_record \<Rightarrow> iworld \<Rightarrow> pyv option \<Rightarrow> bool" where
  "record_settled E r w final \<longleftrightarrow>
     (\<forall>evs. events_from_durable_frame (ie_repr E) (ir_frame r) = Inr evs \<longrightarrow>
        (\<forall>k < length evs. event_settled E r k (evs ! k) (event_worlds E r 0 evs w ! k) final))"

lemma event_settled_mono: "event_settled E r i ev w f \<Longrightarrow> queued_roots f \<subseteq> queued_roots g \<Longrightarrow> event_settled E r i ev w g"
  unfolding event_settled_def Let_def by (auto split: prod.splits) blast

lemma record_settled_mono: "record_settled E r w f \<Longrightarrow> queued_roots f \<subseteq> queued_roots g \<Longrightarrow> record_settled E r w g"
  unfolding record_settled_def by (blast intro: event_settled_mono)

text \<open>A message is given to its contact's manager, or the call journal keeps the record.\<close>

lemma raising_eq_Inr: "raising m = (s, Inr x) \<longleftrightarrow> m = (s, Inr x)"
  by (cases m; cases "snd m") (auto simp: raising_def)

lemma raising_Inr [simp]: "raising (s, Inr x) = (s, Inr x)"
  by (simp add: raising_def)

text \<open>A second load finds what the first one left.\<close>

lemma load_again: "load_state E fs = (fs1, r) \<Longrightarrow> load_state E fs1 = (fs1, r)"
  by (cases "cf_contacts fs"; cases "migrate_legacy_contacts E (cf_legacy fs)")
    (auto simp: load_state_def Let_def save_state_def write_json_def read_json_def split: pyv.splits)

lemma join_part: "y \<in> set ls \<Longrightarrow> \<exists>a b. py_join sep ls = a @ y @ b"
proof (induction sep ls rule: py_join.induct)
  case (3 sep x y' ls)
  show ?case
  proof (cases "y = x")
    case True
    then show ?thesis by (intro exI [of _ "[]"] exI [of _ "sep @ py_join sep (y' # ls)"]) simp
  next
    case False
    with 3 obtain a b where "py_join sep (y' # ls) = a @ y @ b" by auto
    then have "py_join sep (x # y' # ls) = (x @ sep @ a) @ y @ b" by simp
    then show ?thesis by blast
  qed
qed (auto intro: exI [of _ "[]"])

lemma context_tells:
  assumes "message_context E c contact ev fs = (fs', Inr x)"
  shows "tells (ie_repr E) ev x"
proof -
  let ?b = "event_body (ie_repr E) ev"
  have "\<exists>a b. x = a @ ?b @ b" if f: "format_event_context E c contact ev lp tr fs = (fs', Inr x)" for lp tr
  proof (cases "?b = []")
    case False
    from f obtain wr where "x = py_join [CHR 0x0A] (context_lines (ie_repr E) c contact ev lp tr wr)"
      by (auto simp: format_event_context_def Let_def bindS_eq_Inr)
    moreover have "?b \<in> set (context_lines (ie_repr E) c contact ev lp tr wr)"
      using False by (simp add: context_lines_def headed_def labelled_def)
    ultimately show ?thesis using join_part by metis
  qed auto
  then show ?thesis
    using assms by (auto simp: message_context_def tells_def Let_def split: if_splits prod.splits)
qed

lemma context_made:
  assumes "load_state (ie_contacts E) fs = (fs, Inr d)"
  shows "\<exists>x. message_context E c contact ev fs = (fs, Inr x)"
  using assms by (auto simp: message_context_def format_event_context_def work_event_reference_def Let_def
      split: prod.split pyv.split)

lemma message_given:
  assumes "message_to E ev fs c"
  obtains (call) fs1 where "process_incoming_event E ev True fs = (fs1, Inl CallBookkeepingError)"
  | (given) fs1 x where "process_incoming_event E ev True fs = (fs1, Inr (Some (c, x)))"
      and "tells (ie_repr E) ev x"
proof -
  let ?rp = "ie_repr E" and ?C = "ie_contacts E"
  let ?room = "event_room_id ?rp ev" and ?eid = "event_id ?rp ev"
  from assms obtain fs1 d where l: "load_state ?C fs = (fs1, Inr d)"
    and kind: "event_type ?rp ev \<in> {''m.text'', ''m.image'', ''m.file'', ''m.album'', ''m.voice'', ''m.tts''}"
    and own: "\<not> event_is_self ?rp ev d" and room: "room_contact ?room d = c" "c \<noteq> []"
    and known: "truthy (get (dget d ''contacts'') c)"
    and new: "?eid = [] \<or> PStr ?eid \<notin> set (list_items (get (get (dget d ''contacts'') c) ''last_processed_event_ids''))
        \<and> PStr ?eid \<notin> set (list_items (get (dget d ''processed_events'') ?room))"
    unfolding message_to_def by blast
  note l1 = load_again [OF l]
  have k: "event_type ?rp ev \<noteq> ''m.work_event''" "event_type ?rp ev \<in> set USER_VISIBLE_EVENT_TYPES"
    "event_type ?rp ev \<notin> set IGNORED_EVENT_TYPES"
    using kind by (auto simp: USER_VISIBLE_EVENT_TYPES_def IGNORED_EVENT_TYPES_def)
  have f: "contact_for_room ?C ?room fs1 = (fs1, Inr (c, get (dget d ''contacts'') c))"
    using room by (simp add: contact_for_room_def l1)
  have o: "already_processed ?C (get (dget d ''contacts'') c) ?room ?eid fs1 = (fs1, Inr False)"
    using new by (auto simp: already_processed_def l1)
  obtain x where x: "message_context E c (get (dget d ''contacts'') c) ev fs1 = (fs1, Inr x)"
    using context_made [OF l1] by blast
  have p: "process_incoming_event E ev True fs
      = bindS (fs1, record_incoming_call E c (get (dget d ''contacts'') c) (event_body ?rp ev) ?eid)
          (\<lambda>fs6 _. (fs6, Inr (Some (c, x))))"
    using l own k f o x room(2) known by (simp add: process_incoming_event_def Let_def)
  show thesis
  proof (cases "record_incoming_call E c (get (dget d ''contacts'') c) (event_body ?rp ev) ?eid")
    case (Inl e)
    then have "e = CallBookkeepingError" by (simp add: record_incoming_call_def split: if_splits)
    with p Inl call show thesis by simp
  next
    case (Inr u)
    with p given [OF _ context_tells [OF x]] show thesis by simp
  qed
qed

text \<open>The frames that list events are not the ones that change the mapping of rooms.\<close>

lemma listing_reconciled:
  assumes "events_from_durable_frame (ie_repr E) frame = Inr evs" and "evs \<noteq> []"
  shows "reconcile_durable_frame E frame fs = (fs, Inr ())"
proof -
  have "get frame ''type'' = PStr ''event'' \<or> get frame ''type'' = PStr ''initial.snapshot''"
    using assms by (auto simp: events_from_durable_frame_def event_from_frame_def split: if_splits)
  then show ?thesis by (auto simp: reconcile_durable_frame_def Let_def)
qed

text \<open>The maintenance file stays reachable and loses no root.\<close>

definition roots_grow :: "pyv option \<Rightarrow> pyv option \<Rightarrow> bool" where
  "roots_grow f g \<longleftrightarrow> coord_reach g \<and> queued_roots f \<subseteq> queued_roots g"

lemma roots_grow_trans: "roots_grow f g \<Longrightarrow> roots_grow g h \<Longrightarrow> roots_grow f h"
  by (auto simp: roots_grow_def)

lemma hand_over_owned:
  assumes "coord_reach (iw_maint w)" and "hand_over E r i ev c x w = (w', res)"
  shows "roots_grow (iw_maint w) (iw_maint w')"
    and "res = Inr () \<Longrightarrow> (let iid = ingress_id E r i ev; (ME, now) = ie_handoff E iid in
           known_before ME now c x iid (iw_maint w)
           \<or> (PStr (ingress_queue_id ME iid), PStr c, PStr x) \<in> queued_roots (iw_maint w'))"
proof -
  let ?iid = "ingress_id E r i ev"
  obtain ME now where m: "ie_handoff E ?iid = (ME, now)" by fastforce
  have "roots_grow (iw_maint w) (iw_maint w') \<and> (res = Inr () \<longrightarrow> known_before ME now c x ?iid (iw_maint w)
      \<or> (PStr (ingress_queue_id ME ?iid), PStr c, PStr x) \<in> queued_roots (iw_maint w'))"
  proof (cases "enqueue_ingress_root ME now c x ?iid (iw_maint w)")
    case (Inl e)
    then show ?thesis using assms m by (auto simp: hand_over_def Let_def roots_grow_def)
  next
    case (Inr bf)
    then obtain b f where e: "enqueue_ingress_root ME now c x ?iid (iw_maint w) = Inr (b, f)"
      by (cases bf) auto
    from enqueue_ingress_owned [OF assms(1) e] have o:
      "b" "coord_reach f" "queued_roots (iw_maint w) \<subseteq> queued_roots f"
      "known_before ME now c x ?iid (iw_maint w)
       \<or> (PStr (ingress_queue_id ME ?iid), PStr c, PStr x) \<in> queued_roots f" .
    have "iw_maint w' = f"
      using assms(2) m e o(1) by (auto simp: hand_over_def Let_def split: prod.splits sum.splits)
    with o show ?thesis by (auto simp: roots_grow_def)
  qed
  then show "roots_grow (iw_maint w) (iw_maint w')"
    and "res = Inr () \<Longrightarrow> (let iid = ingress_id E r i ev; (ME, now) = ie_handoff E iid in
           known_before ME now c x iid (iw_maint w)
           \<or> (PStr (ingress_queue_id ME iid), PStr c, PStr x) \<in> queued_roots (iw_maint w'))"
    by (simp_all add: m Let_def)
qed

lemma handle_event_owned:
  assumes reach: "coord_reach (iw_maint w)" and h: "handle_event E True r i ev w = (w', b, cs)"
  shows "roots_grow (iw_maint w) (iw_maint w') \<and> (\<not> b \<longrightarrow> event_settled E r i ev w (iw_maint w'))"
proof
  have same: "roots_grow (iw_maint w) (iw_maint w)" using reach by (simp add: roots_grow_def)
  obtain fs out where p: "process_incoming_event E ev True (iw_files w) = (fs, out)" by fastforce
  have r': "coord_reach (iw_maint (w\<lparr>iw_files := fs\<rparr>))" using reach by simp
  show "roots_grow (iw_maint w) (iw_maint w')"
  proof (cases "\<exists>c x. out = Inr (Some (c, x))")
    case True
    then obtain c x where out: "out = Inr (Some (c, x))" by blast
    obtain w1 res where o: "hand_over E r i ev c x (w\<lparr>iw_files := fs\<rparr>) = (w1, res)" by fastforce
    have "w' = w1" using h p out o by (cases res) (simp_all add: handle_event_def)
    with hand_over_owned(1) [OF r' o] show ?thesis by simp
  next
    case False
    have "iw_maint w' = iw_maint w"
    proof (cases out)
      case (Inl e)
      with h p show ?thesis by (cases e) (auto simp: handle_event_def)
    next
      case (Inr v)
      with False h p show ?thesis by (cases v) (auto simp: handle_event_def)
    qed
    with same show ?thesis by simp
  qed
  show "\<not> b \<longrightarrow> event_settled E r i ev w (iw_maint w')"
    unfolding event_settled_def
  proof (intro impI allI)
    fix c assume "\<not> b" and "message_to E ev (iw_files w) c"
    from this(2) show "\<exists>x. tells (ie_repr E) ev x \<and>
          (let iid = ingress_id E r i ev; (ME, now) = ie_handoff E iid in
           known_before ME now c x iid (iw_maint w)
           \<or> (PStr (ingress_queue_id ME iid), PStr c, PStr x) \<in> queued_roots (iw_maint w'))"
    proof (cases rule: message_given)
      case (call fs1)
      with h \<open>\<not> b\<close> show ?thesis by (simp add: handle_event_def)
    next
      case (given fs1 x)
      obtain w1 res where o: "hand_over E r i ev c x (w\<lparr>iw_files := fs1\<rparr>) = (w1, res)" by fastforce
      have "w' = w1" and "res = Inr ()"
        using h given(1) o \<open>\<not> b\<close> by (cases res; simp add: handle_event_def)+
      moreover have "coord_reach (iw_maint (w\<lparr>iw_files := fs1\<rparr>))" using reach by simp
      ultimately show ?thesis using hand_over_owned(2) [OF _ o] given(2) by auto
    qed
  qed
qed

lemma handle_events_owned:
  assumes "coord_reach (iw_maint w)" and "handle_events E True r i evs w = (w', b, cs)"
  shows "roots_grow (iw_maint w) (iw_maint w')
    \<and> (\<not> b \<longrightarrow> (\<forall>k < length evs. event_settled E r (i + k) (evs ! k) (event_worlds E r i evs w ! k) (iw_maint w')))"
  using assms
proof (induction evs arbitrary: i w w' b cs)
  case Nil
  then show ?case by (simp add: roots_grow_def)
next
  case (Cons ev evs)
  obtain w1 b1 cs1 where h: "handle_event E True r i ev w = (w1, b1, cs1)" by (metis prod_cases3)
  note o = handle_event_owned [OF Cons.prems(1) h]
  show ?case
  proof (cases b1)
    case True
    with Cons.prems(2) h o show ?thesis by simp
  next
    case False
    obtain w2 b2 cs2 where g: "handle_events E True r (Suc i) evs w1 = (w2, b2, cs2)" by (metis prod_cases3)
    have w': "w' = w2" "b = b2" using Cons.prems(2) h g False by simp_all
    have r1: "coord_reach (iw_maint w1)" using o by (simp add: roots_grow_def)
    from Cons.IH [OF r1 g] have ih: "roots_grow (iw_maint w1) (iw_maint w2)"
      "\<not> b2 \<Longrightarrow> k < length evs \<Longrightarrow>
         event_settled E r (Suc i + k) (evs ! k) (event_worlds E r (Suc i) evs w1 ! k) (iw_maint w2)" for k
      by blast+
    have first: "event_settled E r i ev w (iw_maint w2)"
      using o False ih(1) event_settled_mono by (auto simp: roots_grow_def)
    have "event_settled E r (i + k) ((ev # evs) ! k) (event_worlds E r i (ev # evs) w ! k) (iw_maint w2)"
      if "\<not> b2" "k < length (ev # evs)" for k
      using first ih(2) [OF that(1), of "k - 1"] that(2) h by (cases k) simp_all
    with w' show ?thesis using roots_grow_trans ih(1) o by blast
  qed
qed

lemma handle_record_owned:
  assumes reach: "coord_reach (iw_maint w)" and h: "handle_record E True r w = (w', b, cs)"
  shows "roots_grow (iw_maint w) (iw_maint w') \<and> (\<not> b \<longrightarrow> record_settled E r w (iw_maint w'))"
proof (cases "\<exists>ev evs. events_from_durable_frame (ie_repr E) (ir_frame r) = Inr (ev # evs)")
  case True
  then obtain ev evs where evs: "events_from_durable_frame (ie_repr E) (ir_frame r) = Inr (ev # evs)"
    by blast
  have "handle_events E True r 0 (ev # evs) w = (w', b, cs)"
    using h listing_reconciled [OF evs] by (simp add: handle_record_def evs)
  from handle_events_owned [OF reach this] show ?thesis by (simp add: record_settled_def evs)
next
  case False
  then have none: "events_from_durable_frame (ie_repr E) (ir_frame r) = Inr []
      \<or> (\<exists>e. events_from_durable_frame (ie_repr E) (ir_frame r) = Inl e)"
    by (metis list.exhaust sum.exhaust_sel)
  then have "iw_maint w' = iw_maint w"
    using h by (auto simp: handle_record_def split: prod.splits sum.splits)
  moreover have "record_settled E r w f" for f using none by (auto simp: record_settled_def)
  ultimately show ?thesis using reach by (simp add: roots_grow_def)
qed

lemma commit_maint [simp]: "iw_maint (commit_inbox_record E r w) = iw_maint w"
  by (simp add: commit_inbox_record_def save_inbox_consumer_def Let_def)

text \<open>A turn commits the first \<open>k\<close> records, each of them settled, and keeps the others in front.\<close>

lemma process_records_owned:
  assumes "coord_reach (iw_maint w)" and "holds_window E (rs @ iw_retry w @ iw_queue w) w"
    and "process_records E True rs w = (w', out)"
  shows "roots_grow (iw_maint w) (iw_maint w')
    \<and> (\<exists>k \<le> length rs.
         (\<forall>j < k. record_settled E (rs ! j) (record_worlds E rs w ! j) (iw_maint w'))
         \<and> iw_retry w' @ iw_queue w' = drop k rs @ iw_retry w @ iw_queue w
         \<and> (if k = 0 then iw_cursor w' = iw_cursor w
            else cu_offset (load_inbox_consumer E (iw_cursor w')) = ir_end_offset (rs ! (k - 1))))"
  using assms
proof (induction rs arbitrary: w w' out)
  case Nil
  then show ?case by (simp add: roots_grow_def)
next
  case (Cons r rs)
  obtain w1 b cs where h: "handle_record E True r w = (w1, b, cs)" by (metis prod_cases3)
  have s: "same_inbox w w1" using handle_record_inbox [of w E True r] h by simp
  note o = handle_record_owned [OF Cons.prems(1) h]
  show ?case
  proof (cases b)
    case True
    with Cons.prems(3) h have "w' = retry_inbox_batch (r # rs) w1" by simp
    then show ?thesis
      using o s by (intro conjI exI [of _ 0]) (simp_all add: retry_inbox_batch_def same_inbox_def)
  next
    case False
    let ?w2 = "commit_inbox_record E r w1"
    obtain w3 more where g: "process_records E True rs ?w2 = (w3, more)" by fastforce
    have w': "w' = w3" using Cons.prems(3) h g False by simp
    have w1: "holds_window E (r # rs @ iw_retry w1 @ iw_queue w1) w1"
      using same_inbox_window [OF s] Cons.prems(2) s by (simp add: same_inbox_def)
    then have w2: "holds_window E (rs @ iw_retry ?w2 @ iw_queue ?w2) ?w2"
      and off: "cu_offset (load_inbox_consumer E (iw_cursor ?w2)) = ir_end_offset r"
      using commit_keeps_window by auto
    have "coord_reach (iw_maint ?w2)" using o by (simp add: roots_grow_def)
    from Cons.IH [OF this w2 g] obtain k where
      grow: "roots_grow (iw_maint w1) (iw_maint w3)" and k: "k \<le> length rs"
      "\<And>j. j < k \<Longrightarrow> record_settled E (rs ! j) (record_worlds E rs ?w2 ! j) (iw_maint w3)"
      "iw_retry w3 @ iw_queue w3 = drop k rs @ iw_retry w1 @ iw_queue w1"
      "if k = 0 then iw_cursor w3 = iw_cursor ?w2
       else cu_offset (load_inbox_consumer E (iw_cursor w3)) = ir_end_offset (rs ! (k - 1))"
      by auto
    have first: "record_settled E r w (iw_maint w3)"
      using o False grow record_settled_mono by (auto simp: roots_grow_def)
    have "record_settled E ((r # rs) ! j) (record_worlds E (r # rs) w ! j) (iw_maint w3)" if "j < Suc k" for j
      using first k(2) [of "j - 1"] that h by (cases j) simp_all
    moreover have "cu_offset (load_inbox_consumer E (iw_cursor w3)) = ir_end_offset ((r # rs) ! k)"
      using k(4) off by (cases k) simp_all
    ultimately show ?thesis
      using grow o k(1,3) s w' roots_grow_trans [of "iw_maint w" "iw_maint w1" "iw_maint w3"]
      by (intro conjI exI [of _ "Suc k"]) (auto simp: same_inbox_def)
  qed
qed

end
