(* ===== verification/InboxMarks.thy ===== *)
theory InboxMarks
  imports InboxTurn
begin

text \<open>
  The marks of handled events in the contacts document: what a saved document reads back as, and
  that a marked event is not given to a manager again.
\<close>

section \<open>Loading what was saved\<close>

lemma setdefault_dget [simp]:
  "dget (setdefault k v d) k' = (if k' = k \<and> \<not> has_key d k then v else dget d k')"
  by (simp add: setdefault_def)

lemma setdefault_has_key [simp]: "has_key (setdefault k v d) k' \<longleftrightarrow> k' = k \<or> has_key d k'"
  by (auto simp: setdefault_def)

lemma dget_defaults:
  assumes "has_key d k"
  shows "dget (fold (\<lambda>(k, v). setdefault k v) ds d) k = dget d k"
  using assms by (induction ds arbitrary: d) (auto split: prod.split)

lemma load_saved:
  "\<exists>d. (\<forall>E. load_state E (save_state s fs) = (save_state s fs, Inr d))
     \<and> (\<forall>k. has_key s k \<longrightarrow> dget d k = sort_keys (dget s k))"
  by (auto simp: load_state_def save_state_def write_json_def read_json_def dget_defaults)

section \<open>Marks\<close>

definition event_marked :: "pyv \<Rightarrow> string \<Rightarrow> string \<Rightarrow> bool" where
  "event_marked rooms room_id eid \<longleftrightarrow> PStr eid \<in> set (list_items (get rooms room_id))"

lemma event_marked_sorted [simp]: "event_marked (sort_keys rooms) room_id eid = event_marked rooms room_id eid"
proof -
  have "PStr eid \<in> set (list_items (sort_keys v)) \<longleftrightarrow> PStr eid \<in> set (list_items v)" for v
    by (cases v) (auto simp: image_iff eq_commute [of "PStr eid"])
  then show ?thesis by (simp add: event_marked_def)
qed

lemma load_keys:
  assumes "load_state E fs = (fs1, Inr d)" and "k \<in> fst ` set default_contacts_state"
  shows "has_key d k"
proof -
  have "has_key (fold (\<lambda>(k, v). setdefault k v) ds d) k \<longleftrightarrow> k \<in> fst ` set ds \<or> has_key d k" for ds d
    by (induction ds arbitrary: d) (auto split: prod.split)
  then show ?thesis
    using assms by (auto simp: load_state_def Let_def split: pyv.splits)
qed

text \<open>
  The mark of an event stands in the list of its room with at most \<open>n\<close> marks behind it. The list
  keeps the last 500, so it stays there as long as fewer than 500 come after it.
\<close>

definition mark_near :: "string \<Rightarrow> string \<Rightarrow> nat \<Rightarrow> pyv \<Rightarrow> bool" where
  "mark_near room eid n v \<longleftrightarrow>
     is_dict v \<and> (\<exists>a b. list_items (get v room) = a @ PStr eid # b \<and> length b \<le> n)"

lemma mark_near_marked: "mark_near room eid n v \<Longrightarrow> event_marked v room eid"
  by (auto simp: mark_near_def event_marked_def)

lemma mark_near_mono: "mark_near room eid n v \<Longrightarrow> n \<le> m \<Longrightarrow> mark_near room eid m v"
  unfolding mark_near_def by (meson le_trans)

lemma list_items_sort: "list_items (sort_keys v) = map sort_keys (list_items v)"
  by (cases v) simp_all

lemma mark_near_sort: "mark_near room eid n v \<Longrightarrow> mark_near room eid n (sort_keys v)"
  unfolding mark_near_def
  by (auto simp: list_items_sort) (metis length_map sort_keys.simps(3) sort_keys_PStr)

text \<open>One more mark in the list of the room, or in another one.\<close>

lemma add_id_pushes:
  assumes "list_items ids = a @ PStr eid # b" and "length b < 499"
  shows "\<exists>a' b'. list_items (add_id e 500 ids) = a' @ PStr eid # b' \<and> length b' \<le> Suc (length b)"
proof -
  have cut: "\<exists>a'. last_items 500 (a @ PStr eid # bs) = a' @ PStr eid # bs" if "length bs \<le> 499" for bs
    using that by (simp add: last_items_def)
  show ?thesis
  proof (cases "PStr e \<in> set (list_items ids)")
    case True
    obtain a' where "last_items 500 (a @ PStr eid # b) = a' @ PStr eid # b"
      using cut [of b] assms(2) by auto
    with True assms(1) have "list_items (add_id e 500 ids) = a' @ PStr eid # b"
      by (simp add: add_id_def Let_def)
    then show ?thesis by (intro exI [of _ a'] exI [of _ b]) simp
  next
    case False
    obtain a' where "last_items 500 (a @ PStr eid # b @ [PStr e]) = a' @ PStr eid # b @ [PStr e]"
      using cut [of "b @ [PStr e]"] assms(2) by auto
    with False assms(1) have "list_items (add_id e 500 ids) = a' @ PStr eid # b @ [PStr e]"
      by (simp add: add_id_def Let_def)
    then show ?thesis by (intro exI [of _ a'] exI [of _ "b @ [PStr e]"]) simp
  qed
qed

lemma add_id_last:
  assumes "PStr eid \<notin> set (list_items ids)"
  shows "\<exists>a. list_items (add_id eid 500 ids) = a @ [PStr eid]"
  using assms by (simp add: add_id_def last_items_def Let_def)

lemma mark_near_room:
  assumes "mark_near room eid n v" and "r = room \<Longrightarrow> n < 499"
  shows "mark_near room eid (if r = room then Suc n else n) (put r (add_id e 500 (get v r)) v)"
proof -
  from assms(1) obtain a b where d: "is_dict v" and l: "list_items (get v room) = a @ PStr eid # b"
    and n: "length b \<le> n" by (auto simp: mark_near_def)
  show ?thesis
  proof (cases "r = room")
    case True
    from n assms(2) [OF True] have "length b < 499" by simp
    from add_id_pushes [OF l this, of e] obtain a' b' where
      l': "list_items (add_id e 500 (get v room)) = a' @ PStr eid # b'" and n': "length b' \<le> Suc (length b)"
      by blast
    have "list_items (get (put r (add_id e 500 (get v r)) v) room) = a' @ PStr eid # b'"
      using True d l' by simp
    moreover have "length b' \<le> Suc n" using n' n by simp
    ultimately show ?thesis using True d unfolding mark_near_def by fastforce
  next
    case False
    with d l n show ?thesis by (auto simp: mark_near_def)
  qed
qed

section \<open>The writers of the contacts document\<close>

text \<open>A stored contacts document whose section of marks holds the mark.\<close>

definition keeps_mark :: "string \<Rightarrow> string \<Rightarrow> nat \<Rightarrow> cfiles \<Rightarrow> bool" where
  "keeps_mark room eid n fs \<longleftrightarrow> (\<exists>c. cf_contacts fs = Doc (PDict c)
     \<and> mark_near room eid n (dget c ''processed_events''))"

lemma mark_near_key: "mark_near room eid n (dget c k) \<Longrightarrow> has_key c k"
  by (auto simp: mark_near_def dget_def has_key_def split: option.splits)

lemma keeps_save:
  assumes "mark_near room eid n (dget s ''processed_events'')"
  shows "keeps_mark room eid n (save_state s fs)"
  using mark_near_sort [OF assms] by (auto simp: keeps_mark_def save_state_def write_json_def)

lemma keeps_load:
  assumes "keeps_mark room eid n fs"
  obtains d where "\<And>E. load_state E fs = (fs, Inr d)"
    and "mark_near room eid n (dget d ''processed_events'')"
proof -
  from assms obtain c where c: "cf_contacts fs = Doc (PDict c)"
    and m: "mark_near room eid n (dget c ''processed_events'')" by (auto simp: keeps_mark_def)
  let ?d = "fold (\<lambda>(k, v). setdefault k v) default_contacts_state c"
  have "load_state E fs = (fs, Inr ?d)" for E
    using c by (simp add: load_state_def read_json_def)
  moreover have "dget ?d ''processed_events'' = dget c ''processed_events''"
    by (rule dget_defaults [OF mark_near_key [OF m]])
  ultimately show thesis using m by (intro that [of ?d]) simp_all
qed

lemma keeps_bind_load:
  assumes "keeps_mark room eid n fs"
    and "\<And>d. mark_near room eid n (dget d ''processed_events'') \<Longrightarrow> keeps_mark room eid m (fst (f fs d))"
  shows "keeps_mark room eid m (fst (bindS (load_state E fs) f))"
proof -
  from assms(1) obtain d where "\<And>E. load_state E fs = (fs, Inr d)"
    and "mark_near room eid n (dget d ''processed_events'')"
    by (rule keeps_load) (rule that; assumption)
  with assms(2) show ?thesis by simp
qed

lemma keeps_mono: "keeps_mark room eid n fs \<Longrightarrow> n \<le> m \<Longrightarrow> keeps_mark room eid m fs"
  unfolding keeps_mark_def using mark_near_mono by blast

lemma keeps_bind:
  assumes "keeps_mark room eid n (fst m)"
    and "\<And>s x. keeps_mark room eid n s \<Longrightarrow> keeps_mark room eid n (fst (f s x))"
  shows "keeps_mark room eid n (fst (bindS m f))"
  using assms by (cases m; cases "snd m") auto

lemmas keeps_after_load = keeps_bind_load [where m = n and n = n for n]

lemma keeps_upsert:
  assumes "keeps_mark room eid n fs"
  shows "keeps_mark room eid n (fst (upsert_contact E t f r nm tz md fs))"
  unfolding upsert_contact_def Let_def
  by (auto intro!: keeps_after_load [OF assms] keeps_bind keeps_save assms)

lemma keeps_discover_room:
  assumes "keeps_mark room eid n fs"
  shows "keeps_mark room eid n (fst (discover_room E own r fs))"
  unfolding discover_room_def Let_def
  by (simp add: assms split: option.split) (intro conjI impI allI keeps_bind keeps_upsert assms; simp)

lemma keeps_discover_each:
  "keeps_mark room eid n fs \<Longrightarrow> keeps_mark room eid n (fst (discover_each E own rs fs))"
  by (induction rs arbitrary: fs) (auto intro: keeps_bind keeps_discover_room)

lemma keeps_cache:
  assumes "keeps_mark room eid n fs"
  shows "keeps_mark room eid n (fst (cache_own_ids E own fs))"
  unfolding cache_own_ids_def Let_def
  by (auto simp: assms intro!: keeps_after_load [OF assms] keeps_save)

lemma keeps_look_up:
  assumes "keeps_mark room eid n fs"
  shows "keeps_mark room eid n (fst (look_up_own_ids E own fs))"
proof (cases "ce_whoami E")
  case (Inl e)
  have "keeps_mark room eid n (fst (bindS (load_state E fs)
      (\<lambda>fs1 state. (fs1, Inr (list_items (dget state ''own_ids''), PNone)))))"
    by (rule keeps_after_load [OF assms]) (simp add: assms)
  with Inl assms show ?thesis by (simp add: look_up_own_ids_def)
next
  case (Inr me)
  obtain fs1 out where c: "cache_own_ids E (extract_own_ids (ce_repr E) me) fs = (fs1, out)" by fastforce
  with keeps_cache [OF assms, of E "extract_own_ids (ce_repr E) me"]
  have k: "keeps_mark room eid n fs1" by simp
  have "keeps_mark room eid n (fst (bindS (load_state E fs1)
      (\<lambda>fs2 state. (fs2, Inr (list_items (dget state ''own_ids''), me)))))"
    by (rule keeps_after_load [OF k]) (simp add: k)
  with Inr c k assms show ?thesis by (simp add: look_up_own_ids_def split: sum.split)
qed

lemma keeps_sync_profile:
  assumes "keeps_mark room eid n fs"
  shows "keeps_mark room eid n (fst (sync_profile_from_glass E me fs))"
proof (cases "is_dict me")
  case True
  show ?thesis
    unfolding sync_profile_from_glass_def Let_def
    by (simp only: True not_True_eq_False if_False, rule keeps_after_load [OF assms], simp only: fst_conv,
        rule keeps_save) simp
qed (simp add: sync_profile_from_glass_def assms)

lemma keeps_finish:
  assumes "keeps_mark room eid n fs"
  shows "keeps_mark room eid n (fst (finish_room_sync E fs))"
  unfolding finish_room_sync_def Let_def
  by (rule keeps_after_load [OF assms]) (simp add: keeps_save)

lemma keeps_discover:
  assumes "keeps_mark room eid n fs"
  shows "keeps_mark room eid n (fst (discover_rooms E force fs))"
  unfolding discover_rooms_def
proof (rule keeps_after_load [OF assms], rule keeps_bind)
  fix d s due
  assume s: "keeps_mark room eid n s"
  show "keeps_mark room eid n (fst (if \<not> due then (s, Inr d)
      else bindS (look_up_own_ids E (list_items (dget d ''own_ids'')) s) (\<lambda>fs3 (own_ids, me).
         bindS (fs3, ce_rooms E) (\<lambda>fs4 payload.
         bindS (discover_each E own_ids (as_list payload [''rooms'', ''data'', ''results'']) fs4) (\<lambda>fs5 _.
         bindS (sync_profile_from_glass E me fs5) (\<lambda>fs6 _. finish_room_sync E fs6))))))"
    by (auto simp: s intro!: keeps_bind keeps_look_up keeps_discover_each keeps_sync_profile keeps_finish)
qed (simp add: assms)

lemma keeps_reference:
  assumes "keeps_mark room eid n fs"
  shows "keeps_mark room eid n (fst (remember_work_event_reference E ev fs))"
  unfolding remember_work_event_reference_def Let_def
  by (simp add: assms) (intro impI keeps_after_load [OF assms], simp add: keeps_save)

lemma put_contact_marks [simp]:
  "dget (put_contact c v s) ''processed_events'' = dget s ''processed_events''"
  by (simp add: put_contact_def)

lemma advance_marks [simp]:
  "dget (advance_event_cursor E eid s) ''processed_events'' = dget s ''processed_events''"
  by (simp add: advance_event_cursor_def)

lemma keeps_remove:
  assumes "keeps_mark room eid n fs"
  shows "keeps_mark room eid n (fst (remove_room_mapping E r fs))"
  unfolding remove_room_mapping_def Let_def
  by (simp add: assms) (intro impI keeps_after_load [OF assms], simp add: keeps_save)

text \<open>A mark of another event pushes the mark by one place, in the list of its room only.\<close>

lemma keeps_mark_room:
  assumes "mark_near room eid n (dget s ''processed_events'')" and "r = room \<Longrightarrow> n < 499"
  shows "keeps_mark room eid (if r = room then Suc n else n) (save_state (mark_room r e s) fs)"
  by (rule keeps_save) (simp add: mark_room_def Let_def mark_near_room [OF assms])

definition marks_in :: "string \<Rightarrow> string \<Rightarrow> string \<Rightarrow> nat" where
  "marks_in room e r = (if e \<noteq> [] \<and> r = room then 1 else 0)"

lemma keeps_processed:
  assumes "keeps_mark room eid n fs" and "n + marks_in room e r \<le> 499" and "room \<noteq> []"
  shows "keeps_mark room eid (n + marks_in room e r) (fst (remember_processed E c e r fs))"
proof (cases "e = []")
  case True
  with assms show ?thesis by (simp add: remember_processed_def marks_in_def)
next
  case e: False
  show ?thesis
  proof (cases "r = []")
    case True
    with e assms(3) show ?thesis
      unfolding remember_processed_def Let_def marks_in_def
      by simp (rule keeps_after_load [OF assms(1)], simp add: keeps_save)
  next
    case False
    have n: "n < 499" if "r = room" using assms(2) e that by (simp add: marks_in_def)
    define k where "k = n + marks_in room e r"
    have k: "k = (if r = room then Suc n else n)" using e by (simp add: k_def marks_in_def)
    have step: "keeps_mark room eid k (save_state (mark_room r e s) fs)"
      if "mark_near room eid n (dget s ''processed_events'')" for s fs
      unfolding k using keeps_mark_room [OF that n] by blast
    show ?thesis
      unfolding remember_processed_def Let_def k_def [symmetric]
      using e False by simp (rule keeps_bind_load [OF assms(1)], simp add: step)
  qed
qed

lemma keeps_seen:
  assumes "keeps_mark room eid n fs" and "n + marks_in room e r \<le> 499" and "room \<noteq> []"
  shows "keeps_mark room eid (n + marks_in room e r) (fst (remember_seen_event E r e fs))"
proof (cases "e = []")
  case True
  with assms show ?thesis by (simp add: remember_seen_event_def marks_in_def)
next
  case e: False
  show ?thesis
  proof (cases "r = []")
    case True
    with e assms(3) show ?thesis
      unfolding remember_seen_event_def Let_def marks_in_def
      by simp (rule keeps_after_load [OF assms(1)], simp add: keeps_save)
  next
    case False
    have n: "n < 499" if "r = room" using assms(2) e that by (simp add: marks_in_def)
    define k where "k = n + marks_in room e r"
    have k: "k = (if r = room then Suc n else n)" using e by (simp add: k_def marks_in_def)
    have step: "keeps_mark room eid k (save_state (mark_room r e s) fs)"
      if "mark_near room eid n (dget s ''processed_events'')" for s fs
      unfolding k using keeps_mark_room [OF that n] by blast
    show ?thesis
      unfolding remember_seen_event_def Let_def k_def [symmetric]
      using e False by simp (rule keeps_bind_load [OF assms(1)], simp add: step)
  qed
qed

section \<open>Sequences of writers\<close>

text \<open>The operations that write the contacts document, of this process or of another.\<close>

datatype contacts_op =
    Processed string string string
  | Seen string string
  | Reference pyv
  | Unmap string
  | Upsert string string string string string dict
  | Discover bool

fun contacts_do :: "cenv \<Rightarrow> contacts_op \<Rightarrow> cfiles \<Rightarrow> cfiles" where
  "contacts_do E (Processed c eid room_id) fs = fst (remember_processed E c eid room_id fs)"
| "contacts_do E (Seen room_id eid) fs = fst (remember_seen_event E room_id eid fs)"
| "contacts_do E (Reference ev) fs = fst (remember_work_event_reference E ev fs)"
| "contacts_do E (Unmap room_id) fs = fst (remove_room_mapping E room_id fs)"
| "contacts_do E (Upsert t i room_id name tz md) fs = fst (upsert_contact E t i room_id name tz md fs)"
| "contacts_do E (Discover force) fs = fst (discover_rooms E force fs)"

text \<open>The marks an operation may add to the list of a room.\<close>

fun marks_of :: "string \<Rightarrow> contacts_op \<Rightarrow> nat" where
  "marks_of room (Processed c eid room_id) = marks_in room eid room_id"
| "marks_of room (Seen room_id eid) = marks_in room eid room_id"
| "marks_of room op = 0"

lemma keeps_op:
  assumes "keeps_mark room eid n fs" and "n + marks_of room op \<le> 499" and "room \<noteq> []"
  shows "keeps_mark room eid (n + marks_of room op) (contacts_do E op fs)"
  using assms
  by (cases op) (simp_all add: keeps_processed keeps_seen keeps_reference keeps_remove keeps_upsert
      keeps_discover)

lemma keeps_ops:
  assumes "keeps_mark room eid n fs" and "n + sum_list (map (marks_of room \<circ> snd) ops) \<le> 499"
    and "room \<noteq> []"
  shows "keeps_mark room eid (n + sum_list (map (marks_of room \<circ> snd) ops))
    (fold (\<lambda>(E, op). contacts_do E op) ops fs)"
  using assms
proof (induction ops arbitrary: n fs)
  case (Cons x ops)
  obtain E op where x: "x = (E, op)" by (cases x)
  have "keeps_mark room eid (n + marks_of room op) (contacts_do E op fs)"
    using Cons.prems x by (intro keeps_op) auto
  from Cons.IH [OF this] Cons.prems(2,3) x show ?case by (simp add: add.assoc)
qed simp

text \<open>The mark of a hand-over is the last of its list.\<close>

lemma remember_processed_marks:
  assumes r: "remember_processed E c eid room_id fs = (fs', Inr u)" and "eid \<noteq> []" "room_id \<noteq> []"
    and l: "load_state E fs = (fs, Inr d)" and new: "\<not> event_marked (dget d ''processed_events'') room_id eid"
    and typed: "is_dict (dget d ''processed_events'')"
  shows "keeps_mark room_id eid 0 fs'"
proof -
  from new obtain a where a: "list_items (add_id eid 500 (get (dget d ''processed_events'') room_id)) = a @ [PStr eid]"
    using add_id_last by (auto simp: event_marked_def)
  from r l assms(2,3) obtain s2 where fs': "fs' = save_state (mark_room room_id eid s2) fs"
    and same: "dget s2 ''processed_events'' = dget d ''processed_events''"
    by (auto simp: remember_processed_def Let_def)
  show ?thesis
    unfolding fs' by (rule keeps_save)
      (use a typed in \<open>auto simp: mark_room_def Let_def same mark_near_def\<close>)
qed

section \<open>A marked event is not given out\<close>

lemma seen_gives_nothing [simp]: "snd (bindS m (\<lambda>fs u. (fs, Inr None))) \<noteq> Inr (Some p)"
  by (cases m; cases "snd m") auto

lemma marked_not_given:
  assumes l: "load_state (ie_contacts E) fs = (fs, Inr d)"
    and known: "room_contact (event_room_id (ie_repr E) ev) d \<noteq> []"
    and mark: "event_marked (dget d ''processed_events'') (event_room_id (ie_repr E) ev) (event_id (ie_repr E) ev)"
    and id: "event_id (ie_repr E) ev \<noteq> []"
  shows "snd (process_incoming_event E ev durable fs) \<noteq> Inr (Some p)"
proof -
  let ?rp = "ie_repr E" and ?C = "ie_contacts E"
  let ?room = "event_room_id ?rp ev" and ?eid = "event_id ?rp ev" and ?kind = "event_type ?rp ev"
  have room: "contact_for_room ?C ?room fs
      = (fs, Inr (room_contact ?room d, get (dget d ''contacts'') (room_contact ?room d)))"
    using known by (simp add: contact_for_room_def l)
  have old: "already_processed ?C c ?room ?eid fs = (fs, Inr True)" for c
    using mark id by (simp add: already_processed_def l event_marked_def)
  consider (self) "event_is_self ?rp ev d" | (other) "\<not> event_is_self ?rp ev d"
      "?kind \<in> set IGNORED_EVENT_TYPES \<or> ?kind \<notin> set USER_VISIBLE_EVENT_TYPES"
    | (visible) "\<not> event_is_self ?rp ev d" "?kind \<notin> set IGNORED_EVENT_TYPES"
        "?kind \<in> set USER_VISIBLE_EVENT_TYPES" by blast
  then show ?thesis
  proof cases
    case visible
    then have "?kind \<noteq> ''m.work_event''" by (auto simp: USER_VISIBLE_EVENT_TYPES_def)
    with visible show ?thesis
      by (simp add: process_incoming_event_def raising_def l room old Let_def)
  qed (simp_all add: process_incoming_event_def raising_def l Let_def)
qed

text \<open>What an event has been through when its context is made: its mark is new.\<close>

lemma given_unmarked:
  assumes p: "process_incoming_event E ev True fs = (fs', Inr (Some cx))"
    and id: "event_id (ie_repr E) ev \<noteq> []"
  obtains d where "load_state (ie_contacts E) fs' = (fs', Inr d)"
    and "\<not> event_marked (dget d ''processed_events'') (event_room_id (ie_repr E) ev) (event_id (ie_repr E) ev)"
proof -
  let ?rp = "ie_repr E" and ?C = "ie_contacts E"
  let ?room = "event_room_id ?rp ev" and ?eid = "event_id ?rp ev"
  from p obtain fs3 c contact fs4 fs5 x where a: "already_processed ?C contact ?room ?eid fs3 = (fs4, Inr False)"
    and m: "message_context E c contact ev fs4 = (fs5, Inr x)" and f: "fs' = fs5"
    by (auto simp: process_incoming_event_def Let_def bindS_eq_Inr raising_eq_Inr
        split: if_splits prod.splits sum.splits)
  from a id obtain d where d: "load_state ?C fs3 = (fs4, Inr d)"
    and new: "\<not> event_marked (dget d ''processed_events'') ?room ?eid"
    by (auto simp: already_processed_def bindS_eq_Inr event_marked_def split: if_splits)
  note l4 = load_again [OF d]
  have "fs5 = fs4"
    using m l4 by (auto simp: message_context_def format_event_context_def work_event_reference_def Let_def
        bindS_eq_Inr split: if_splits prod.splits pyv.splits)
  with l4 new f show thesis using that by blast
qed

end
