(* ===== verification/InboxSpec.thy ===== *)
theory InboxSpec
  imports InboxMarks
begin

text \<open>
  Properties of the durable inbox and its hand-over to the maintenance coordinator
  (\<open>core/interface.py\<close>), with an inductive relation of what can happen between the daemon, the
  process and the files.
\<close>

section \<open>Runs\<close>

text \<open>
  The daemon appends bytes; a pass scans and queues; a turn consumes; a restart loses what is in
  memory; other operations may change the contacts and the maintenance file at will. Every pass
  and turn may meet other answers from outside, of the same inbox.
\<close>

inductive inbox_step :: "ienv \<Rightarrow> iworld \<Rightarrow> iworld \<Rightarrow> bool" for E0 where
  written: "iw_inbox w = Some (f, bytes) \<Longrightarrow> inbox_step E0 w (w\<lparr>iw_inbox := Some (f, bytes @ added)\<rparr>)"
| scanned: "same_source E0 E \<Longrightarrow> inbox_step E0 w (scan_pass E n w)"
| turned: "same_source E0 E \<Longrightarrow> get_unread_events E durable w = (w1, out) \<Longrightarrow> inbox_step E0 w w1"
| restarted: "inbox_step E0 w (w\<lparr>iw_scan := None, iw_queue := [], iw_retry := []\<rparr>)"
| elsewhere: "inbox_step E0 w (w\<lparr>iw_files := fs, iw_maint := m\<rparr>)"

text \<open>At first there is a named inbox and nothing of it has been read.\<close>

definition inbox_start :: "ienv \<Rightarrow> iworld \<Rightarrow> bool" where
  "inbox_start E w \<longleftrightarrow>
     ie_path E \<noteq> [] \<and> (case iw_inbox w of Some (f, bytes) \<Rightarrow> f \<noteq> [] | None \<Rightarrow> False)
     \<and> iw_cursor w = Missing \<and> iw_scan w = None \<and> iw_queue w = [] \<and> iw_retry w = []"

inductive inbox_reach :: "ienv \<Rightarrow> iworld \<Rightarrow> bool" for E0 where
  start: "inbox_start E0 w \<Longrightarrow> inbox_reach E0 w"
| step: "inbox_reach E0 w \<Longrightarrow> inbox_step E0 w w' \<Longrightarrow> inbox_reach E0 w'"

lemma load_missing:
  "load_inbox_consumer E Missing =
     \<lparr>cu_path = [], cu_file_id = [], cu_offset = 0, cu_anchor_start = 0, cu_anchor_sha256 = []\<rparr>"
  by (simp add: load_inbox_consumer_def read_json_def py_eq.simps(1))

lemma start_window: "inbox_start E w \<Longrightarrow> inbox_window E w"
  unfolding inbox_window_def
  by (rule holds_windowI [where finished = "[]" and held = "[]" and ahead = "snd (the (iw_inbox w))"
        and file_id = "fst (the (iw_inbox w))"])
    (auto simp: inbox_start_def cursor_at_def load_missing Let_def split: option.splits)

lemma same_inbox_window_env: "same_source E0 E \<Longrightarrow> inbox_window E w = inbox_window E0 w"
  by (simp add: inbox_window_def same_window)

lemma step_window: "inbox_step E0 w w' \<Longrightarrow> inbox_window E0 w \<Longrightarrow> inbox_window E0 w'"
proof (induction rule: inbox_step.induct)
  case (written w f bytes added)
  then show ?case using append_keeps_window by blast
next
  case (scanned E w n)
  then show ?case using scan_keeps_window same_inbox_window_env by blast
next
  case (turned E durable w w1 out)
  then show ?case using turn_keeps_window [of E w durable] same_inbox_window_env by auto
next
  case (restarted w)
  then show ?case by (rule restart_keeps_window)
next
  case (elsewhere w fs m)
  then show ?case
    unfolding inbox_window_def by (auto intro: holds_window_frame)
qed

lemma reach_window: "inbox_reach E w \<Longrightarrow> inbox_window E w"
  by (induction rule: inbox_reach.induct) (use start_window step_window in blast)+

section \<open>An inbox for the witnesses\<close>

text \<open>Two complete lines and the beginning of a third; the first is a message, the second is not JSON.\<close>

definition ex_cenv :: cenv where
  "ex_cenv =
     \<lparr>ce_repr = (\<lambda>v. []), ce_iso = ''now'', ce_now = 0,
      ce_tenv = \<lparr>te_repr = (\<lambda>v. []), te_text = (\<lambda>e. []), te_iso = [], te_uuid = [],
                 te_net = (\<lambda>a b c d w. (Inl (OtherError [] []), w))\<rparr>,
      ce_trust = \<lparr>tw_file = None, tw_contacts = [], tw_clock = 0\<rparr>,
      ce_whoami = Inl (OtherError [] []), ce_rooms = Inl (OtherError [] []),
      ce_members = (\<lambda>r. Inl (OtherError [] []))\<rparr>"

definition ex_event :: pyv where
  "ex_event = PDict [(''type'', PStr ''m.text''), (''id'', PStr ''e1''), (''room_id'', PStr ''r1''),
                     (''body'', PStr ''hi''), (''sender'', PStr ''bob'')]"

definition ex_ienv :: ienv where
  "ex_ienv =
     \<lparr>ie_contacts = ex_cenv, ie_sha = (\<lambda>s. s),
      ie_loads = (\<lambda>s. if s = [CHR ''a'', CHR 0x0A]
                      then Some (PDict [(''type'', PStr ''event''), (''event'', ex_event)]) else None),
      ie_path = ''inbox'', ie_download = (\<lambda>a b c. Inr []), ie_text = (\<lambda>e. []), ie_stt = (\<lambda>s. Inr PNone),
      ie_sent_call = (\<lambda>a b c. True), ie_received_call = (\<lambda>a b c. True),
      ie_handoff = (\<lambda>i. (\<lparr>env_pid = 7, env_uid = (\<lambda>n. ''u''), env_tick = (\<lambda>n. 5), env_sha = (\<lambda>s. s),
                          env_repr = (\<lambda>v. [])\<rparr>, 1))\<rparr>"

definition ex_files :: cfiles where
  "ex_files =
     \<lparr>cf_contacts = Doc (PDict
        [(''contacts'', PDict [(''c1'', PDict [(''contact_type'', PStr ''carbon''), (''name'', PStr ''Bob'')])]),
         (''rooms'', PDict [(''r1'', PStr ''c1'')]), (''processed_events'', PDict [])]),
      cf_legacy = Missing\<rparr>"

definition ex_iworld :: "pyv option \<Rightarrow> iworld" where
  "ex_iworld m =
     \<lparr>iw_files = ex_files, iw_maint = m, iw_cursor = Missing,
      iw_inbox = Some (''f'', [CHR ''a'', CHR 0x0A, CHR ''b'', CHR 0x0A, CHR ''c'']),
      iw_scan = None, iw_queue = [], iw_retry = []\<rparr>"

lemma ex_start: "inbox_start ex_ienv (ex_iworld m)"
  by (simp add: inbox_start_def ex_ienv_def ex_iworld_def)

lemma ex_reach: "inbox_reach ex_ienv (scan_pass ex_ienv 5 (ex_iworld m))"
  by (rule inbox_reach.step [OF inbox_reach.start [OF ex_start]])
    (rule inbox_step.scanned, simp add: same_source_def)

definition ex_record :: inbox_record where
  "ex_record = line_record ex_ienv ''f'' 0 [CHR ''a'', CHR 0x0A]"

lemma ex_held: "iw_queue (scan_pass ex_ienv 5 (ex_iworld m))
    = [ex_record, line_record ex_ienv ''f'' 2 [CHR ''b'', CHR 0x0A]]
    \<and> iw_retry (scan_pass ex_ienv 5 (ex_iworld m)) = [] \<and> iw_files (scan_pass ex_ienv 5 (ex_iworld m)) = ex_files
    \<and> iw_maint (scan_pass ex_ienv 5 (ex_iworld m)) = m \<and> iw_cursor (scan_pass ex_ienv 5 (ex_iworld m)) = Missing"
  by code_simp

section \<open>Properties\<close>

text \<open>
  C24: at every moment of a run the records the process holds, in the order it will handle them,
  are exactly the complete lines of the inbox between the committed cursor and the scan position,
  each once: no line is skipped, doubled or reordered by appends, passes, turns that fail half
  way, or restarts, and the cursor always stands at the end of a line.
\<close>

theorem inbox_window_kept:
  assumes "inbox_reach E w"
  shows "inbox_window E w"
  using assms by (rule reach_window)

text \<open>Two lines are held, with the cursor at the start.\<close>

theorem inbox_window_kept_witness:
  "inbox_window ex_ienv (scan_pass ex_ienv 5 (ex_iworld None))
     \<and> map ir_end_offset (iw_queue (scan_pass ex_ienv 5 (ex_iworld None))) = [2, 4]"
proof (intro conjI)
  show "map ir_end_offset (iw_queue (scan_pass ex_ienv 5 (ex_iworld None))) = [2, 4]" by code_simp
qed (rule inbox_window_kept [OF ex_reach])

lemma handle_durable_contexts:
  "snd (snd (handle_event E True r i ev w)) = []"
  by (auto simp: handle_event_def split: prod.split sum.split ingest_error.split option.split)

lemma durable_contexts: "process_records E True rs w = (w', out) \<Longrightarrow> out = []"
proof -
  have e: "snd (snd (handle_events E True r i evs w)) = []" for r i evs w
  proof (induction evs arbitrary: i w)
    case (Cons ev evs)
    obtain w1 b cs where h: "handle_event E True r i ev w = (w1, b, cs)" by (metis prod_cases3)
    obtain w2 b2 cs2 where g: "handle_events E True r (Suc i) evs w1 = (w2, b2, cs2)" by (metis prod_cases3)
    have "cs = []" "cs2 = []"
      using handle_durable_contexts [of E r i ev w] Cons.IH [of "Suc i" w1] h g by simp_all
    then show ?case by (cases b) (simp_all add: h g)
  qed simp
  have r: "snd (snd (handle_record E True r w)) = []" for r w
    by (auto simp: handle_record_def e split: prod.split sum.split)
  show "process_records E True rs w = (w', out) \<Longrightarrow> out = []"
  proof (induction rs arbitrary: w out)
    case (Cons a rs)
    obtain w1 b cs where h: "handle_record E True a w = (w1, b, cs)" by (metis prod_cases3)
    moreover from this have "cs = []" using r [of a w] by simp
    moreover obtain w2 later where "process_records E True rs (commit_inbox_record E a w1) = (w2, later)"
      by fastforce
    ultimately show ?case using Cons by (cases b) auto
  qed simp
qed

text \<open>
  C23: a line of the inbox is acknowledged only when its messages are safe. A durable turn commits
  the first \<open>k\<close> of the records it drained and moves the cursor to the end of the last of them. Every
  event such a record lists that was a message for a manager where it was handled (a visible kind,
  not the Silicon's own, its room mapped to a contact that the contacts document knows, without a
  mark) had been accepted before for that contact, or is queued for it in the maintenance file the turn leaves,
  with a context that holds its text. The other records stay, in their order, in front of
  everything that came later. Events of a room without a contact are no such messages, and a frame
  that is not readable lists none.
\<close>

theorem acknowledged_messages_owned:
  assumes "inbox_reach E w" and "coord_reach (iw_maint w)"
    and "drain_listener_events (w\<lparr>iw_files := fst (discover_rooms (ie_contacts E) False (iw_files w))\<rparr>) = (w1, rs)"
    and "get_unread_events E True w = (w', out)"
  shows "out = [] \<and> queued_roots (iw_maint w) \<subseteq> queued_roots (iw_maint w')
    \<and> (\<exists>k \<le> length rs.
         (\<forall>j < k. record_settled E (rs ! j) (record_worlds E rs w1 ! j) (iw_maint w'))
         \<and> iw_retry w' @ iw_queue w' = drop k (iw_retry w @ iw_queue w)
         \<and> (if k = 0 then iw_cursor w' = iw_cursor w
            else cu_offset (load_inbox_consumer E (iw_cursor w')) = ir_end_offset (rs ! (k - 1))))"
proof -
  let ?w0 = "w\<lparr>iw_files := fst (discover_rooms (ie_contacts E) False (iw_files w))\<rparr>"
  obtain contexts where p: "process_records E True rs w1 = (w', contexts)" and out: "out = joined_contexts contexts"
    using assms(3,4) by (auto simp: get_unread_events_def Let_def split: prod.splits)
  have same: "iw_maint w1 = iw_maint w" "iw_cursor w1 = iw_cursor w"
    using assms(3) by (auto simp: drain_listener_events_def Let_def)
  have order: "rs @ iw_retry w1 @ iw_queue w1 = iw_retry w @ iw_queue w"
    using drain_order [OF assms(3)] by simp
  have "holds_window E (iw_retry w @ iw_queue w) w"
    using reach_window [OF assms(1)] by (simp add: inbox_window_def)
  then have "holds_window E (rs @ iw_retry w1 @ iw_queue w1) w1"
    unfolding order by (rule holds_window_frame) (use assms(3) in \<open>auto simp: drain_listener_events_def Let_def\<close>)
  from process_records_owned [OF _ this p] assms(2) have
    "roots_grow (iw_maint w) (iw_maint w')
     \<and> (\<exists>k \<le> length rs.
         (\<forall>j < k. record_settled E (rs ! j) (record_worlds E rs w1 ! j) (iw_maint w'))
         \<and> iw_retry w' @ iw_queue w' = drop k rs @ iw_retry w1 @ iw_queue w1
         \<and> (if k = 0 then iw_cursor w' = iw_cursor w1
            else cu_offset (load_inbox_consumer E (iw_cursor w')) = ir_end_offset (rs ! (k - 1))))"
    unfolding same by blast
  then obtain k where k: "roots_grow (iw_maint w) (iw_maint w')" "k \<le> length rs"
    "\<forall>j < k. record_settled E (rs ! j) (record_worlds E rs w1 ! j) (iw_maint w')"
    "iw_retry w' @ iw_queue w' = drop k rs @ iw_retry w1 @ iw_queue w1"
    "if k = 0 then iw_cursor w' = iw_cursor w1
     else cu_offset (load_inbox_consumer E (iw_cursor w')) = ir_end_offset (rs ! (k - 1))"
    by blast
  have "iw_retry w' @ iw_queue w' = drop k (iw_retry w @ iw_queue w)"
    using k(2,4) by (simp flip: order)
  moreover have "out = []" by (simp add: out durable_contexts [OF p] joined_contexts_def fromkeys_def)
  ultimately show ?thesis
    using k unfolding roots_grow_def same by blast
qed

text \<open>The two lines are settled and committed; the message is queued for its contact.\<close>

definition ex_two :: iworld where
  "ex_two = scan_pass ex_ienv 5 (ex_iworld None)"

lemma ex_two_drained:
  "snd (drain_listener_events (ex_two\<lparr>iw_files := fst (discover_rooms (ie_contacts ex_ienv) False (iw_files ex_two))\<rparr>))
     = iw_queue ex_two \<and> length (iw_queue ex_two) = 2"
  by code_simp

lemma ex_two_turn:
  "(case get_unread_events ex_ienv True ex_two of
      (w', out) \<Rightarrow> out = [] \<and> cu_offset (load_inbox_consumer ex_ienv (iw_cursor w')) = 4
        \<and> iw_queue w' = [] \<and> iw_retry w' = []
        \<and> (case iw_maint w' of Some d \<Rightarrow> length (list_items (get d ''root_queue'')) = 1 | None \<Rightarrow> False))"
  by code_simp

theorem acknowledged_messages_owned_witness:
  "\<exists>w' k. get_unread_events ex_ienv True ex_two = (w', []) \<and> k \<le> 2
     \<and> iw_retry w' @ iw_queue w' = drop k (iw_retry ex_two @ iw_queue ex_two)
     \<and> cu_offset (load_inbox_consumer ex_ienv (iw_cursor w')) = 4"
proof -
  obtain w1 rs where d: "drain_listener_events
      (ex_two\<lparr>iw_files := fst (discover_rooms (ie_contacts ex_ienv) False (iw_files ex_two))\<rparr>) = (w1, rs)"
    by fastforce
  obtain w' out where t: "get_unread_events ex_ienv True ex_two = (w', out)" by fastforce
  have "length rs = 2" using ex_two_drained d by simp
  moreover have "coord_reach (iw_maint ex_two)"
    using ex_held [of None] coord_reach.start by (simp add: ex_two_def)
  moreover have "inbox_reach ex_ienv ex_two" unfolding ex_two_def by (rule ex_reach)
  ultimately obtain k where "k \<le> 2" "iw_retry w' @ iw_queue w' = drop k (iw_retry ex_two @ iw_queue ex_two)" "out = []"
    using acknowledged_messages_owned [OF _ _ d t] by auto
  then show ?thesis using t ex_two_turn by auto
qed

text \<open>Where the cursor of a file stands.\<close>

definition committed_offset :: "ienv \<Rightarrow> string \<Rightarrow> iworld \<Rightarrow> nat" where
  "committed_offset E file_id w =
     (let c = load_inbox_consumer E (iw_cursor w) in
      if cu_path c = ie_path E \<and> cu_file_id c = file_id then nat (cu_offset c) else 0)"

text \<open>
  C25: nothing that was not acknowledged is lost by a restart. However a run stopped, a new process
  holds, after enough passes over the inbox, exactly the complete lines behind the
  committed cursor, in their order, whatever the number of lines a pass may take.
\<close>

theorem restart_replays_uncommitted:
  assumes "inbox_reach E w" and "iw_inbox w = Some (file_id, bytes)" and "0 < n" and "length bytes < N"
  shows "iw_queue ((scan_pass E n ^^ N) (w\<lparr>iw_scan := None, iw_queue := [], iw_retry := []\<rparr>))
     = line_records E file_id (int (committed_offset E file_id w)) (drop (committed_offset E file_id w) bytes)"
  using reach_window [OF assms(1)] unfolding inbox_window_def
proof (rule holds_windowE)
  fix f finished held ahead
  assume "iw_inbox w = Some (f, finished @ held @ ahead)"
    and cur: "cursor_at E f (int (length finished)) (iw_cursor w)"
  then have f: "f = file_id" and bytes: "bytes = finished @ (held @ ahead)" using assms(2) by simp_all
  have off: "committed_offset E file_id w = length finished"
    using cur by (auto simp: f committed_offset_def cursor_at_def Let_def split: if_splits)
  let ?w = "w\<lparr>iw_scan := None, iw_queue := [], iw_retry := []\<rparr>"
  have "iw_inbox ?w = Some (file_id, finished @ (held @ ahead))" using assms(2) bytes by simp
  moreover have "cursor_at E file_id (int (length finished)) (iw_cursor ?w)" using cur f by simp
  moreover have "length (held @ ahead) < N" using assms(4) bytes by simp
  ultimately show ?thesis
    using scan_passes_all [of ?w file_id finished "held @ ahead" E n N] assms(3)
    unfolding off by (simp add: bytes)
qed

theorem restart_replays_uncommitted_witness:
  "iw_queue ((scan_pass ex_ienv 1 ^^ 6) ((scan_pass ex_ienv 5 (ex_iworld None))\<lparr>iw_scan := None, iw_queue := [], iw_retry := []\<rparr>))
     = line_records ex_ienv ''f'' 0 [CHR ''a'', CHR 0x0A, CHR ''b'', CHR 0x0A, CHR ''c'']"
proof -
  let ?w = "scan_pass ex_ienv 5 (ex_iworld None)"
  have "iw_inbox ?w = Some (''f'', [CHR ''a'', CHR 0x0A, CHR ''b'', CHR 0x0A, CHR ''c''])"
    and "committed_offset ex_ienv ''f'' ?w = 0" by code_simp+
  with restart_replays_uncommitted [OF ex_reach this(1), of 1 6] show ?thesis by simp
qed


lemma ex_message:
  "(case process_incoming_event ex_ienv ex_event True ex_files of
      (fs, Inr (Some (c, x))) \<Rightarrow> fs = ex_files \<and> c = ''c1'' | _ \<Rightarrow> False)"
  by code_simp

lemma ex_message_context:
  obtains x where "process_incoming_event ex_ienv ex_event True ex_files = (ex_files, Inr (Some (''c1'', x)))"
  using ex_message that by (auto split: prod.splits sum.splits option.splits)








text \<open>
  C27: a message whose ownership the coordinator refuses holds up the whole inbox. When the first
  record held has such a message, a durable turn commits nothing, leaves the
  maintenance file as it is, and keeps every record in its place. So an event identity that was accepted
  with another context stops all rooms until the file is repaired.
\<close>

theorem refused_handover_blocks_inbox:
  assumes held: "iw_retry w @ iw_queue w = r # rest"
    and rec: "reconcile_durable_frame E (ir_frame r)
                (fst (discover_rooms (ie_contacts E) False (iw_files w))) = (fs1, Inr u)"
    and evs: "events_from_durable_frame (ie_repr E) (ir_frame r) = Inr (ev # evs)"
    and msg: "process_incoming_event E ev True fs1 = (fs2, Inr (Some (c, x)))"
    and env: "ie_handoff E (ingress_id E r 0 ev) = (ME, now)"
    and refused: "enqueue_ingress_root ME now c x (ingress_id E r 0 ev) (iw_maint w) = Inl e"
  shows "\<exists>w'. get_unread_events E True w = (w', []) \<and> iw_cursor w' = iw_cursor w
     \<and> iw_maint w' = iw_maint w \<and> iw_retry w' @ iw_queue w' = r # rest"
proof -
  let ?w0 = "w\<lparr>iw_files := fst (discover_rooms (ie_contacts E) False (iw_files w))\<rparr>"
  obtain w1 rs where d: "drain_listener_events ?w0 = (w1, rs)" by fastforce
  have w1: "iw_files w1 = iw_files ?w0" "iw_maint w1 = iw_maint w" "iw_cursor w1 = iw_cursor w"
    using d by (auto simp: drain_listener_events_def Let_def)
  have order: "rs @ iw_retry w1 @ iw_queue w1 = r # rest" using drain_order [OF d] held by simp
  have "rs \<noteq> []"
    using d held by (auto simp: drain_listener_events_def Let_def MAX_DRAIN_def min_def split: if_splits)
  with order obtain rs' where rs: "rs = r # rs'" by (cases rs) simp_all
  have "hand_over E r 0 ev c x (w1\<lparr>iw_files := fs2\<rparr>) = (w1\<lparr>iw_files := fs2\<rparr>, Inl DurableHandoffError)"
    using refused env w1 by (simp add: hand_over_def Let_def)
  then have "handle_record E True r w1 = (w1\<lparr>iw_files := fs2\<rparr>, True, [])"
    using rec evs msg w1 by (simp add: handle_record_def handle_event_def)
  then have p: "process_records E True rs w1 = (retry_inbox_batch rs (w1\<lparr>iw_files := fs2\<rparr>), [])"
    by (simp add: rs)
  show ?thesis
    using p d order w1 by (simp add: get_unread_events_def Let_def retry_inbox_batch_def joined_contexts_def fromkeys_def)
qed

definition ex_conflict :: "pyv option" where
  "ex_conflict =
     (case ie_handoff ex_ienv [] of
        (ME, now) \<Rightarrow> (case enqueue_ingress_root ME now ''c1'' ''other'' ''interface:r1:e1'' None of
                        Inl e \<Rightarrow> None | Inr (b, f) \<Rightarrow> f))"

lemma ex_refused:
  "(case ie_handoff ex_ienv [] of
      (ME, now) \<Rightarrow>
        (case snd (process_incoming_event ex_ienv ex_event True ex_files) of
           Inr (Some (c, x)) \<Rightarrow>
             (case enqueue_ingress_root ME now c x (ingress_id ex_ienv ex_record 0 ex_event) ex_conflict of
                Inl e \<Rightarrow> e = ingress_conflict | Inr y \<Rightarrow> False)
         | _ \<Rightarrow> False))"
  by code_simp

lemma ex_frame:
  "fst (reconcile_durable_frame ex_ienv (ir_frame ex_record) ex_files) = ex_files
   \<and> snd (reconcile_durable_frame ex_ienv (ir_frame ex_record) ex_files) = Inr ()
   \<and> events_from_durable_frame (ie_repr ex_ienv) (ir_frame ex_record) = Inr [ex_event]
   \<and> fst (discover_rooms ex_cenv False ex_files) = ex_files"
  by code_simp

theorem refused_handover_blocks_inbox_witness:
  "\<exists>w'. get_unread_events ex_ienv True (scan_pass ex_ienv 5 (ex_iworld ex_conflict)) = (w', [])
     \<and> iw_cursor w' = Missing \<and> iw_maint w' = ex_conflict
     \<and> iw_retry w' @ iw_queue w' = [ex_record, line_record ex_ienv ''f'' 2 [CHR ''b'', CHR 0x0A]]"
proof -
  let ?w = "scan_pass ex_ienv 5 (ex_iworld ex_conflict)"
  obtain x where x: "process_incoming_event ex_ienv ex_event True ex_files = (ex_files, Inr (Some (''c1'', x)))"
    by (rule ex_message_context)
  obtain ME now where m: "ie_handoff ex_ienv i = (ME, now)" for i
    by (simp add: ex_ienv_def)
  have refused: "enqueue_ingress_root ME now ''c1'' x (ingress_id ex_ienv ex_record 0 ex_event) ex_conflict
      = Inl ingress_conflict"
    using ex_refused x m by (auto split: sum.splits)
  have ref: "enqueue_ingress_root ME now ''c1'' x (ingress_id ex_ienv ex_record 0 ex_event) (iw_maint ?w)
      = Inl ingress_conflict"
    using refused ex_held by simp
  have held: "iw_retry ?w @ iw_queue ?w = ex_record # [line_record ex_ienv ''f'' 2 [CHR ''b'', CHR 0x0A]]"
    using ex_held by simp
  have f: "iw_files ?w = ex_files" "iw_maint ?w = ex_conflict" "iw_cursor ?w = Missing"
    "ie_contacts ex_ienv = ex_cenv"
    using ex_held by (simp_all add: ex_ienv_def)
  have rec: "reconcile_durable_frame ex_ienv (ir_frame ex_record)
      (fst (discover_rooms (ie_contacts ex_ienv) False (iw_files ?w))) = (ex_files, Inr ())"
    unfolding f using ex_frame by (simp add: prod_eq_iff)
  have evs: "events_from_durable_frame (ie_repr ex_ienv) (ir_frame ex_record) = Inr (ex_event # [])"
    using ex_frame by simp
  from refused_handover_blocks_inbox [OF held rec evs x m ref] show ?thesis unfolding f .
qed

end
