(* ===== verification/Actor.thy ===== *)
theory Actor
  imports JsonFile
begin

text \<open>
  Who is running a command (\<open>core/iwantto/actor.py\<close>): every process the runtime starts is
  registered and given a token; a command finds out who it acts for by looking its token up in
  one JSON document. Fresh tokens, the clock and process ids are parameters.
\<close>

section \<open>Actors\<close>

definition TOKEN_ENV :: string where "TOKEN_ENV = ''SILICON_ACTOR_TOKEN''"
definition KIND_ENV :: string where "KIND_ENV = ''SILICON_ACTOR_KIND''"
definition ID_ENV :: string where "ID_ENV = ''SILICON_ACTOR_ID''"
definition CONTACT_ENV :: string where "CONTACT_ENV = ''SILICON_ACTOR_CONTACT''"

definition VALID_KINDS :: "string list" where
  "VALID_KINDS = [''manager'', ''advisor'', ''worker'']"

definition DEFAULT_TTL_SECONDS :: "string \<Rightarrow> rat" where
  "DEFAULT_TTL_SECONDS kind = (if kind = ''worker'' then 24 * 60 * 60 else 2 * 60 * 60)"

definition MAX_ACTORS :: nat where "MAX_ACTORS = 512"

definition actor_error :: pyerr where "actor_error = OtherError ''ActorError'' []"

record actor =
  ac_kind :: string
  ac_actor_id :: string
  ac_contact_id :: string
  ac_worker_type :: string
  ac_token :: string

definition acts_as_manager :: "actor \<Rightarrow> bool" where
  "acts_as_manager a \<longleftrightarrow> ac_kind a \<in> set [''manager'', ''advisor'']"

definition describe :: "actor \<Rightarrow> string" where
  "describe a =
     (if ac_kind a = ''worker''
      then (if ac_worker_type a = [] then ''worker'' else ac_worker_type a) @ '' worker `'' @ ac_actor_id a
           @ ''` working for the manager of `'' @ ac_contact_id a @ ''`''
      else ac_kind a @ '' of `'' @ ac_contact_id a @ ''`'')"

section \<open>The registry\<close>

definition default_actors :: dict where
  "default_actors = [(''version'', PInt 1), (''actors'', PDict [])]"

text \<open>An entry that has not expired.\<close>

definition unexpired :: "rat \<Rightarrow> pyv \<Rightarrow> bool" where
  "unexpired now entry \<longleftrightarrow>
     is_dict entry \<and> (case py_num (get entry ''expires_at'') of None \<Rightarrow> False | Some t \<Rightarrow> t > now)"

definition prune_actors :: "rat \<Rightarrow> dict \<Rightarrow> dict result" where
  "prune_actors now actors = keep_newest ''created_at'' MAX_ACTORS (filter (\<lambda>kv. unexpired now (snd kv)) actors)"

definition actor_entry :: "string \<Rightarrow> string \<Rightarrow> string \<Rightarrow> string \<Rightarrow> rat \<Rightarrow> rat \<Rightarrow> int \<Rightarrow> pyv" where
  "actor_entry kind actor_id contact_id worker_type now ttl pid =
     PDict [(''kind'', PStr kind), (''actor_id'', PStr actor_id), (''contact_id'', PStr contact_id),
            (''worker_type'', PStr worker_type), (''created_at'', PFloat now),
            (''expires_at'', PFloat (now + ttl)), (''pid'', PInt pid)]"

text \<open>\<open>token\<close> is the fresh token, \<open>pid\<close> the process that registers.\<close>

definition register_actor ::
  "string \<Rightarrow> int \<Rightarrow> rat \<Rightarrow> string \<Rightarrow> string \<Rightarrow> string \<Rightarrow> string \<Rightarrow> rat option \<Rightarrow> json_file
     \<Rightarrow> json_file \<times> string result" where
  "register_actor token pid now kind0 actor_id0 contact_id0 worker_type ttl_seconds f =
     (let kind = lower (strip kind0); actor_id = strip actor_id0; contact_id = strip contact_id0;
          ttl = (case ttl_seconds of Some t \<Rightarrow> t | None \<Rightarrow> DEFAULT_TTL_SECONDS kind) in
      if kind \<notin> set VALID_KINDS \<or> actor_id = [] \<or> contact_id = [] then (f, Inl actor_error)
      else update_json default_actors (\<lambda>state.
             bindE (section_of ''actors'' state) (\<lambda>actors.
             bindE (prune_actors now
                      (dput token (actor_entry kind actor_id contact_id worker_type now ttl pid) actors)) (\<lambda>kept.
               Inr (token, dput ''actors'' (PDict kept) state)))) f)"

definition revoke_actor :: "string \<Rightarrow> json_file \<Rightarrow> json_file \<times> unit result" where
  "revoke_actor token f =
     (if token = [] then (f, Inr ())
      else update_json default_actors (\<lambda>state.
             bindE (section_of ''actors'' state) (\<lambda>actors.
               Inr ((), dput ''actors'' (PDict (dpop token actors)) state))) f)"

section \<open>Identification\<close>

definition lookup_token :: "(pyv \<Rightarrow> string) \<Rightarrow> rat \<Rightarrow> string \<Rightarrow> json_file \<Rightarrow> actor option result" where
  "lookup_token rp now token f =
     (if token = [] then Inr None
      else (case read_json f (PDict default_actors) of
              PDict state \<Rightarrow>
                (case py_or (dget state ''actors'') (PDict []) of
                   PDict actors \<Rightarrow>
                     (let entry = dget actors token; kind = str_or_empty rp (get entry ''kind'') in
                      Inr (if unexpired now entry \<and> kind \<in> set VALID_KINDS
                           then Some \<lparr>ac_kind = kind, ac_actor_id = str_or_empty rp (get entry ''actor_id''),
                                      ac_contact_id = str_or_empty rp (get entry ''contact_id''),
                                      ac_worker_type = str_or_empty rp (get entry ''worker_type''), ac_token = token\<rparr>
                           else None))
                 | _ \<Rightarrow> Inl (AttributeError ''get''))
            | _ \<Rightarrow> Inl (AttributeError ''get'')))"

definition env_get :: "(string \<times> string) list \<Rightarrow> string \<Rightarrow> string" where
  "env_get environ name = (case map_of environ name of None \<Rightarrow> [] | Some v \<Rightarrow> v)"

definition resolve_actor ::
  "(pyv \<Rightarrow> string) \<Rightarrow> rat \<Rightarrow> (string \<times> string) list \<Rightarrow> json_file \<Rightarrow> actor result" where
  "resolve_actor rp now environ f =
     (let token = strip (env_get environ TOKEN_ENV) in
      if token = [] then Inl actor_error
      else bindE (lookup_token rp now token f) (\<lambda>found.
             (case found of None \<Rightarrow> Inl actor_error | Some a \<Rightarrow> Inr a)))"

section \<open>The environment of a run\<close>

definition actor_env :: "string \<Rightarrow> actor option \<Rightarrow> (string \<times> string) list" where
  "actor_env token a =
     (TOKEN_ENV, token) #
     (case a of None \<Rightarrow> []
      | Some a \<Rightarrow> [(KIND_ENV, ac_kind a), (ID_ENV, ac_actor_id a), (CONTACT_ENV, ac_contact_id a)])"

text \<open>The inherited identity is dropped before the new one is put in.\<close>

definition issue_run_env ::
  "string \<Rightarrow> int \<Rightarrow> rat \<Rightarrow> string \<Rightarrow> string \<Rightarrow> string \<Rightarrow> string \<Rightarrow> rat option \<Rightarrow> (string \<times> string) list
     \<Rightarrow> json_file \<Rightarrow> json_file \<times> (string \<times> (string \<times> string) list) result" where
  "issue_run_env token pid now kind actor_id contact_id worker_type ttl_seconds base_env f =
     bindS (register_actor token pid now kind actor_id contact_id worker_type ttl_seconds f) (\<lambda>f1 token.
       (let environ = filter (\<lambda>kv. fst kv \<notin> set [TOKEN_ENV, KIND_ENV, ID_ENV, CONTACT_ENV]) base_env;
            a = \<lparr>ac_kind = kind, ac_actor_id = actor_id, ac_contact_id = contact_id,
                 ac_worker_type = worker_type, ac_token = []\<rparr> in
        (f1, Inr (token, environ @ actor_env token (Some a)))))"

end
