(* ===== verification/ActorSpec.thy ===== *)
theory ActorSpec
  imports Actor
begin

text \<open>
  What a token stands for. \<open>actor_run\<close> relates the registry file to what has been granted and not
  revoked, under a clock that does not go back; operations that fail leave the file as it is and
  are no steps.
\<close>

section \<open>Runs\<close>

record grant =
  gr_kind :: string
  gr_actor_id :: string
  gr_contact_id :: string
  gr_worker_type :: string
  gr_until :: rat

definition grant_of :: "string \<Rightarrow> string \<Rightarrow> string \<Rightarrow> string \<Rightarrow> rat option \<Rightarrow> rat \<Rightarrow> grant" where
  "grant_of kind actor_id contact_id worker_type ttl now =
     \<lparr>gr_kind = lower (strip kind), gr_actor_id = strip actor_id, gr_contact_id = strip contact_id,
      gr_worker_type = worker_type,
      gr_until = now + (case ttl of Some t \<Rightarrow> t | None \<Rightarrow> DEFAULT_TTL_SECONDS (lower (strip kind)))\<rparr>"

inductive actor_run :: "(string \<rightharpoonup> grant) \<Rightarrow> rat \<Rightarrow> json_file \<Rightarrow> bool" where
  start: "actor_run Map.empty now Missing"
| later: "actor_run G now f \<Longrightarrow> now \<le> now' \<Longrightarrow> actor_run G now' f"
| registered: "actor_run G now f \<Longrightarrow> G token = None
    \<Longrightarrow> register_actor token pid now kind actor_id contact_id worker_type ttl f = (f', Inr t)
    \<Longrightarrow> actor_run (G(token \<mapsto> grant_of kind actor_id contact_id worker_type ttl now)) now f'"
| revoked: "actor_run G now f \<Longrightarrow> token \<noteq> [] \<Longrightarrow> revoke_actor token f = (f', Inr u)
    \<Longrightarrow> actor_run (G(token := None)) now f'"

text \<open>An entry that says what was granted.\<close>

definition entry_of :: "grant \<Rightarrow> rat \<Rightarrow> pyv \<Rightarrow> bool" where
  "entry_of g now v \<longleftrightarrow>
     is_dict v \<and> get v ''kind'' = PStr (gr_kind g) \<and> get v ''actor_id'' = PStr (gr_actor_id g)
     \<and> get v ''contact_id'' = PStr (gr_contact_id g) \<and> get v ''worker_type'' = PStr (gr_worker_type g)
     \<and> get v ''expires_at'' = PFloat (gr_until g)
     \<and> (\<exists>c. get v ''created_at'' = PFloat c \<and> c \<le> now) \<and> gr_kind g \<in> set VALID_KINDS"

definition granted_only :: "(string \<rightharpoonup> grant) \<Rightarrow> rat \<Rightarrow> dict \<Rightarrow> bool" where
  "granted_only G now actors \<longleftrightarrow>
     distinct (map fst actors) \<and> (\<forall>tok v. map_of actors tok = Some v \<longrightarrow> (\<exists>g. G tok = Some g \<and> entry_of g now v))"

definition registry :: "(string \<rightharpoonup> grant) \<Rightarrow> rat \<Rightarrow> json_file \<Rightarrow> bool" where
  "registry G now f \<longleftrightarrow>
     (\<exists>state actors. read_json f (PDict default_actors) = PDict state \<and> dget state ''actors'' = PDict actors
        \<and> has_key state ''actors'' \<and> granted_only G now actors)"

lemma entry_of_sorted: "entry_of g now v \<Longrightarrow> entry_of g now (sort_keys v)"
  by (auto simp: entry_of_def)

lemma distinct_sorted: "distinct (map fst d) \<Longrightarrow> distinct (map fst (sort_key fst (map (map_prod id sort_keys) d)))"
proof -
  assume "distinct (map fst d)"
  then have "distinct (map fst (map (map_prod id sort_keys) d))" by (simp add: comp_def)
  then show ?thesis unfolding distinct_map set_sort distinct_sort .
qed

lemma granted_sorted:
  "granted_only G now d \<Longrightarrow> granted_only G now (sort_key fst (map (map_prod id sort_keys) d))"
  using entry_of_sorted by (auto simp: granted_only_def distinct_sorted map_of_sorted) blast

lemma granted_filter_keys: "granted_only G now d \<Longrightarrow> granted_only G now (filter (\<lambda>kv. fst kv \<notin> S) d)"
  by (simp add: granted_only_def distinct_map_filter map_of_filter_keys)

lemma granted_filter_vals: "granted_only G now d \<Longrightarrow> granted_only G now (filter (\<lambda>kv. P (snd kv)) d)"
  by (auto simp: granted_only_def map_of_filter_val distinct_map_filter split: option.splits if_splits)

lemma granted_prune: "granted_only G now d \<Longrightarrow> prune_actors t d = Inr d' \<Longrightarrow> granted_only G now d'"
  unfolding prune_actors_def
  by (erule keep_newest_filter) (simp only: granted_filter_keys granted_filter_vals)

text \<open>A change of the registry's section is what the next reader finds.\<close>

lemma update_registry:
  assumes r: "registry G now f"
    and u: "update_json default_actors (\<lambda>state. bindE (section_of ''actors'' state) (\<lambda>actors.
              bindE (upd actors) (\<lambda>kept. Inr (x, dput ''actors'' (PDict kept) state)))) f = (f', Inr y)"
  obtains actors kept where "granted_only G now actors" and "upd actors = Inr kept"
    and "\<And>G' now'. granted_only G' now' kept \<Longrightarrow> registry G' now' f'"
    and "\<And>tok. map_of (dict_items (get (read_json f' (PDict default_actors)) ''actors'')) tok
                = map_option sort_keys (map_of kept tok)"
proof -
  from r obtain state actors where s: "read_json f (PDict default_actors) = PDict state"
    "dget state ''actors'' = PDict actors" "has_key state ''actors''" "granted_only G now actors"
    by (auto simp: registry_def)
  have sec: "section_of ''actors'' state = Inr actors"
    using s(2,3) by (auto simp: section_of_def dget_or_def dget_def has_key_def split: option.splits)
  from u obtain kept where k: "upd actors = Inr kept"
    and f': "f' = write_json (PDict (dput ''actors'' (PDict kept) state))"
    by (auto simp: update_json_def s(1) sec bindE_eq_Inr split: sum.splits)
  have d: "dget (sort_key fst (map (map_prod id sort_keys) (dput ''actors'' (PDict kept) state))) ''actors''
      = PDict (sort_key fst (map (map_prod id sort_keys) kept))" by simp
  show thesis
  proof (rule that [OF s(4) k])
    show "registry G' now' f'" if "granted_only G' now' kept" for G' now'
      unfolding registry_def f' write_json_def read_json_def
      using d granted_sorted [OF that] by auto
    show "map_of (dict_items (get (read_json f' (PDict default_actors)) ''actors'')) tok
        = map_option sort_keys (map_of kept tok)" for tok
      unfolding f' write_json_def read_json_def using d by (simp add: map_of_sorted)
  qed
qed

lemma registry_start: "registry Map.empty now Missing"
  by (auto simp: registry_def read_json_def default_actors_def granted_only_def dget_Cons has_key_def)

lemma granted_later: "granted_only G now d \<Longrightarrow> now \<le> now' \<Longrightarrow> granted_only G now' d"
  unfolding granted_only_def entry_of_def by (meson order_trans)

lemma map_of_granted: "granted_only G now d \<Longrightarrow> map_of d tok = Some v \<Longrightarrow> \<exists>g. G tok = Some g \<and> entry_of g now v"
  by (simp add: granted_only_def)

lemma granted_distinct: "granted_only G now d \<Longrightarrow> distinct (map fst d)"
  by (simp only: granted_only_def)

lemma granted_onlyI:
  assumes "distinct (map fst d)" and "\<And>tok v. map_of d tok = Some v \<Longrightarrow> \<exists>g. G tok = Some g \<and> entry_of g now v"
  shows "granted_only G now d"
  using assms unfolding granted_only_def by blast

lemma granted_absent: "granted_only G now d \<Longrightarrow> G tok = None \<Longrightarrow> tok \<notin> fst ` set d"
  by (metis granted_only_def map_of_eq_None_iff not_Some_eq option.discI)

lemma register_valid:
  "register_actor token pid now kind actor_id contact_id worker_type ttl f = (f', Inr t) \<Longrightarrow>
     lower (strip kind) \<in> set VALID_KINDS"
  by (auto simp: register_actor_def Let_def split: if_splits)

lemma entry_of_grant:
  "lower (strip kind) \<in> set VALID_KINDS \<Longrightarrow>
     entry_of (grant_of kind actor_id contact_id worker_type ttl now) now
       (actor_entry (lower (strip kind)) (strip actor_id) (strip contact_id) worker_type now
          (case ttl of Some t \<Rightarrow> t | None \<Rightarrow> DEFAULT_TTL_SECONDS (lower (strip kind))) pid)"
  by (simp add: entry_of_def grant_of_def actor_entry_def dget_Cons)

lemma registry_step_register:
  assumes r: "registry G now f" and new: "G token = None"
    and reg: "register_actor token pid now kind actor_id contact_id worker_type ttl f = (f', Inr t)"
  defines "g \<equiv> grant_of kind actor_id contact_id worker_type ttl now"
  shows "registry (G(token \<mapsto> g)) now f'"
    and "now < gr_until g \<Longrightarrow>
           \<exists>v. map_of (dict_items (get (read_json f' (PDict default_actors)) ''actors'')) token = Some v \<and> entry_of g now v"
proof -
  let ?e = "actor_entry (lower (strip kind)) (strip actor_id) (strip contact_id) worker_type now
          (case ttl of Some t \<Rightarrow> t | None \<Rightarrow> DEFAULT_TTL_SECONDS (lower (strip kind))) pid"
  have e: "entry_of g now ?e" unfolding g_def by (rule entry_of_grant [OF register_valid [OF reg]])
  have u: "update_json default_actors (\<lambda>state. bindE (section_of ''actors'' state) (\<lambda>actors.
             bindE (prune_actors now (dput token ?e actors)) (\<lambda>kept.
               Inr (token, dput ''actors'' (PDict kept) state)))) f = (f', Inr t)"
    using reg by (auto simp: register_actor_def Let_def split: if_splits)
  obtain actors kept where a: "granted_only G now actors"
    and k: "prune_actors now (dput token ?e actors) = Inr kept"
    and reg': "\<And>G' now'. granted_only G' now' kept \<Longrightarrow> registry G' now' f'"
    and m: "\<And>tok. map_of (dict_items (get (read_json f' (PDict default_actors)) ''actors'')) tok
             = map_option sort_keys (map_of kept tok)"
    by (rule update_registry [OF r u]) (rule that; assumption)
  have fresh: "token \<notin> fst ` set actors" by (rule granted_absent [OF a new])
  have d: "dput token ?e actors = actors @ [(token, ?e)]" by (rule dput_notin [OF fresh])
  have "granted_only (G(token \<mapsto> g)) now (dput token ?e actors)"
  proof (rule granted_onlyI)
    show "distinct (map fst (dput token ?e actors))" using granted_distinct [OF a] by (rule distinct_dput)
    show "\<exists>h. (G(token \<mapsto> g)) tok = Some h \<and> entry_of h now v" if "map_of (dput token ?e actors) tok = Some v" for tok v
      using that e map_of_granted [OF a, of tok v] by (cases "tok = token") simp_all
  qed
  then have gk: "granted_only (G(token \<mapsto> g)) now kept" using k by (rule granted_prune)
  then show "registry (G(token \<mapsto> g)) now f'" by (rule reg')
  assume ttl: "now < gr_until g"
  have live: "filter (\<lambda>kv. unexpired now (snd kv)) (dput token ?e actors)
      = filter (\<lambda>kv. unexpired now (snd kv)) actors @ [(token, ?e)]"
    using e ttl by (simp add: d unexpired_def entry_of_def)
  have "(token, ?e) \<in> set kept"
  proof (rule keep_newest_last)
    show "keep_newest ''created_at'' MAX_ACTORS
        (filter (\<lambda>kv. unexpired now (snd kv)) actors @ [(token, ?e)]) = Inr kept"
      using k unfolding prune_actors_def live .
    show "0 < MAX_ACTORS" by (simp add: MAX_ACTORS_def)
    show "token \<notin> fst ` set (filter (\<lambda>kv. unexpired now (snd kv)) actors)" using fresh by auto
    show "age_key ''created_at'' (token, ?e) = Inr now"
      by (simp add: age_key_def actor_entry_def dget_Cons py_or_def)
    show "b \<le> now" if "kv \<in> set (filter (\<lambda>kv. unexpired now (snd kv)) actors)" "age_key ''created_at'' kv = Inr b" for kv b
    proof -
      have "map_of actors (fst kv) = Some (snd kv)"
        using that(1) granted_distinct [OF a] by simp
      then obtain c where "get (snd kv) ''created_at'' = PFloat c" "c \<le> now"
        using map_of_granted [OF a] by (auto simp: entry_of_def)
      then show ?thesis using that(2) by (auto simp: age_key_def py_or_def split: if_splits)
    qed
  qed
  moreover have "distinct (map fst kept)" using gk by (rule granted_distinct)
  ultimately have "map_of kept token = Some ?e" by simp
  then show "\<exists>v. map_of (dict_items (get (read_json f' (PDict default_actors)) ''actors'')) token = Some v \<and> entry_of g now v"
    using e entry_of_sorted by (auto simp: m)
qed

lemma run_registry: "actor_run G now f \<Longrightarrow> registry G now f"
proof (induction rule: actor_run.induct)
  case (start now)
  show ?case by (rule registry_start)
next
  case (later G now f now')
  then show ?case using granted_later by (auto simp: registry_def)
next
  case (registered G now f token pid kind actor_id contact_id worker_type ttl f' t)
  then show ?case using registry_step_register(1) by blast
next
  case (revoked G now f token f' u)
  have "update_json default_actors (\<lambda>state. bindE (section_of ''actors'' state) (\<lambda>actors.
          bindE (Inr (dpop token actors)) (\<lambda>kept. Inr ((), dput ''actors'' (PDict kept) state)))) f = (f', Inr ())"
    using revoked by (simp add: revoke_actor_def)
  then obtain actors kept where a: "granted_only G now actors"
    and k: "(Inr (dpop token actors) :: dict result) = Inr kept"
    and r: "\<And>G' now'. granted_only G' now' kept \<Longrightarrow> registry G' now' f'"
    by (rule update_registry [OF revoked.IH]) (rule that; assumption)
  then have reg: "granted_only (G(token := None)) now (dpop token actors) \<Longrightarrow> registry (G(token := None)) now f'"
    by simp
  have "granted_only (G(token := None)) now (dpop token actors)"
  proof (rule granted_onlyI)
    show "distinct (map fst (dpop token actors))" using granted_distinct [OF a] by (rule distinct_dpop)
    show "\<exists>g. (G(token := None)) tok = Some g \<and> entry_of g now v" if "map_of (dpop token actors) tok = Some v" for tok v
      using that map_of_granted [OF a, of tok v] by (simp split: if_splits)
  qed
  then show ?case by (rule reg)
qed

section \<open>Properties\<close>

definition actor_of_grant :: "string \<Rightarrow> grant \<Rightarrow> actor" where
  "actor_of_grant token g =
     \<lparr>ac_kind = gr_kind g, ac_actor_id = gr_actor_id g, ac_contact_id = gr_contact_id g,
      ac_worker_type = gr_worker_type g, ac_token = token\<rparr>"

lemma lookup_registry:
  assumes r: "registry G now f" and tok: "token \<noteq> []"
  shows "lookup_token rp t token f =
    Inr (case map_of (dict_items (get (read_json f (PDict default_actors)) ''actors'')) token of
           None \<Rightarrow> None
         | Some v \<Rightarrow> (if unexpired t v then Some (actor_of_grant token (the (G token))) else None))"
proof -
  from r obtain state actors where s: "read_json f (PDict default_actors) = PDict state"
    "dget state ''actors'' = PDict actors" "granted_only G now actors"
    by (auto simp: registry_def)
  have o: "py_or (PDict actors) (PDict []) = PDict actors" by (simp add: py_or_def)
  show ?thesis
  proof (cases "map_of actors token")
    case None
    then have "dget actors token = PNone" by (simp add: dget_def)
    then show ?thesis using None tok by (simp add: lookup_token_def s o unexpired_def)
  next
    case (Some v)
    then have dv: "dget actors token = v" by (simp add: dget_def)
    from Some obtain g where g: "G token = Some g" "entry_of g now v" using map_of_granted [OF s(3)] by blast
    then show ?thesis
      using Some dv tok by (simp add: lookup_token_def s o entry_of_def actor_of_grant_def)
  qed
qed

text \<open>
  C30: a token is the identity. In every run of registrations and revocations, a token that
  resolves names exactly the actor it was issued for, was not revoked, and has not reached the
  end of its life; looking a token up never raises.
\<close>

theorem token_names_its_run:
  assumes "actor_run G now f"
  shows "\<exists>found. lookup_token rp t token f = Inr found
    \<and> (\<forall>a. found = Some a \<longrightarrow> (\<exists>g. G token = Some g \<and> a = actor_of_grant token g \<and> t < gr_until g))"
proof (cases "token = []")
  case True
  then show ?thesis by (simp add: lookup_token_def)
next
  case False
  note r = run_registry [OF assms]
  then obtain state actors where s: "read_json f (PDict default_actors) = PDict state"
    "dget state ''actors'' = PDict actors" "granted_only G now actors"
    by (auto simp: registry_def)
  show ?thesis
    unfolding lookup_registry [OF r False]
    using map_of_granted [OF s(3), of token]
    by (auto simp: s entry_of_def unexpired_def split: option.splits)
qed

text \<open>
  A new token resolves until its life ends, however full the registry is: the cap evicts
  older runs, never the one just registered.
\<close>

theorem new_token_resolves:
  assumes "actor_run G now f" and "G token = None" and "token \<noteq> []"
    and "register_actor token pid now kind actor_id contact_id worker_type ttl f = (f', Inr t)"
    and "now \<le> later" and "later < gr_until (grant_of kind actor_id contact_id worker_type ttl now)"
  shows "lookup_token rp later token f'
     = Inr (Some (actor_of_grant token (grant_of kind actor_id contact_id worker_type ttl now)))"
proof -
  let ?g = "grant_of kind actor_id contact_id worker_type ttl now"
  note step = registry_step_register [OF run_registry [OF assms(1)] assms(2,4)]
  from step(2) assms(5,6) obtain v where
    "map_of (dict_items (get (read_json f' (PDict default_actors)) ''actors'')) token = Some v" "entry_of ?g now v"
    by auto
  then show ?thesis
    using lookup_registry [OF step(1) assms(3)] assms(6) by (simp add: unexpired_def entry_of_def)
qed

text \<open>The witnesses register the manager of one contact at time 0.\<close>

definition ex_registered :: "json_file \<times> string result" where
  "ex_registered = register_actor ''t1'' 7 0 '' Manager'' ''m1'' ''c1'' [] None Missing"

lemma ex_registered_ok: "snd ex_registered = Inr ''t1''"
  by code_simp

lemma ex_registered_step:
  "register_actor ''t1'' 7 0 '' Manager'' ''m1'' ''c1'' [] None Missing = (fst ex_registered, Inr ''t1'')"
  using ex_registered_ok by (simp add: ex_registered_def prod_eq_iff)

lemma ex_grant: "grant_of '' Manager'' ''m1'' ''c1'' [] None 0
    = \<lparr>gr_kind = ''manager'', gr_actor_id = ''m1'', gr_contact_id = ''c1'', gr_worker_type = [], gr_until = 7200\<rparr>"
  by code_simp

lemma ex_actor_run: "actor_run [''t1'' \<mapsto> grant_of '' Manager'' ''m1'' ''c1'' [] None 0] 0 (fst ex_registered)"
  by (rule actor_run.registered [OF actor_run.start _ ex_registered_step]) simp

theorem token_names_its_run_witness:
  "\<exists>found. lookup_token (\<lambda>v. []) 10 ''t1'' (fst ex_registered) = Inr found
     \<and> (\<forall>a. found = Some a \<longrightarrow> ac_contact_id a = ''c1'')"
  using token_names_its_run [OF ex_actor_run, of "\<lambda>v. []" 10 "''t1''"]
  by (auto simp: ex_grant actor_of_grant_def)

theorem new_token_resolves_witness:
  "lookup_token (\<lambda>v. []) 7199 ''t1'' (fst ex_registered)
     = Inr (Some \<lparr>ac_kind = ''manager'', ac_actor_id = ''m1'', ac_contact_id = ''c1'', ac_worker_type = [],
                  ac_token = ''t1''\<rparr>)"
  using new_token_resolves [OF actor_run.start _ _ ex_registered_step, of 7199 "\<lambda>v. []"]
  by (simp add: ex_grant actor_of_grant_def)

end
