(* ===== verification/Mailbox.thy ===== *)
theory Mailbox
  imports JsonFile
begin

text \<open>
  Mail between a manager and its running workers (\<open>core/iwantto/mailbox.py\<close>), the registry of runs
  that accept input (\<open>core/iwantto/injection.py\<close>), and the contacts spoken to for the first time
  (\<open>claim_first_contact\<close> of \<open>core/iwantto/routing.py\<close>).
\<close>

section \<open>Mail\<close>

definition MAX_PER_BOX :: nat where "MAX_PER_BOX = 50"
definition MAIL_TTL_SECONDS :: rat where "MAIL_TTL_SECONDS = 24 * 60 * 60"

definition mail_key :: "string \<Rightarrow> string \<Rightarrow> string" where
  "mail_key kind actor_id = kind @ '':'' @ actor_id"

definition default_boxes :: dict where
  "default_boxes = [(''version'', PInt 1), (''boxes'', PDict [])]"

text \<open>The item is worth keeping; its time must be a number.\<close>

definition fresh_item :: "rat \<Rightarrow> pyv \<Rightarrow> bool result" where
  "fresh_item now item =
     (if \<not> is_dict item then Inr False
      else bindE (py_float (py_or (get item ''at'') (PFloat 0))) (\<lambda>sent. Inr (now - sent < MAIL_TTL_SECONDS)))"

definition prune_box :: "rat \<Rightarrow> pyv \<Rightarrow> pyv list result" where
  "prune_box now items =
     (case items of
        PList xs \<Rightarrow> bindE (filterE (fresh_item now) xs) (\<lambda>kept. Inr (last_of MAX_PER_BOX kept))
      | _ \<Rightarrow> Inr [])"

text \<open>Boxes that become empty are dropped.\<close>

fun prune_boxes :: "rat \<Rightarrow> dict \<Rightarrow> dict result" where
  "prune_boxes now [] = Inr []"
| "prune_boxes now ((key, items) # boxes) =
     bindE (prune_box now items) (\<lambda>kept.
     bindE (prune_boxes now boxes) (\<lambda>rest.
       Inr (if kept = [] then rest else (key, PList kept) # rest)))"

definition mail_entry :: "string \<Rightarrow> string \<Rightarrow> rat \<Rightarrow> pyv" where
  "mail_entry sender message now =
     PDict [(''from'', PStr sender), (''message'', PStr message), (''at'', PFloat now)]"

definition deliver :: "rat \<Rightarrow> string \<Rightarrow> string \<Rightarrow> string \<Rightarrow> string \<Rightarrow> json_file \<Rightarrow> json_file \<times> unit result" where
  "deliver now kind actor_id sender message f =
     (if kind = [] \<or> actor_id = [] then (f, Inr ())
      else update_json default_boxes (\<lambda>state.
             bindE (section_of ''boxes'' state) (\<lambda>boxes.
             bindE (prune_boxes now boxes) (\<lambda>kept.
               Inr ((), dput ''boxes'' (PDict
                     (let key = mail_key kind actor_id in
                      dput key (PList (list_items (dget kept key) @ [mail_entry sender message now])) kept)) state)))) f)"

text \<open>Whatever goes wrong, the caller is told of no mail.\<close>

definition drain :: "rat \<Rightarrow> string \<Rightarrow> string \<Rightarrow> json_file \<Rightarrow> json_file \<times> pyv list" where
  "drain now kind actor_id f =
     (if kind = [] \<or> actor_id = [] then (f, [])
      else (case update_json default_boxes (\<lambda>state.
                   bindE (section_of ''boxes'' state) (\<lambda>boxes.
                   bindE (prune_boxes now boxes) (\<lambda>kept.
                     (let key = mail_key kind actor_id in
                      Inr (list_items (dget kept key), dput ''boxes'' (PDict (dpop key kept)) state))))) f of
              (f1, Inl e) \<Rightarrow> (f1, [])
            | (f1, Inr items) \<Rightarrow> (f1, filter is_dict items)))"

definition format_mail :: "(pyv \<Rightarrow> string) \<Rightarrow> pyv list \<Rightarrow> string" where
  "format_mail rp items =
     (if items = [] then []
      else py_join [CHR 0x0A]
        ([[], ''--- You have messages ---'']
         @ map (\<lambda>item. ''From '' @ py_str rp (py_or (get item ''from'') (PStr ''someone''))
                        @ '': '' @ str_or_empty rp (get item ''message'')) items))"

section \<open>First contact\<close>

definition default_routing :: dict where
  "default_routing = [(''version'', PInt 1), (''first_contact'', PDict [])]"

definition claim_first_contact :: "rat \<Rightarrow> string \<Rightarrow> json_file \<Rightarrow> json_file \<times> bool" where
  "claim_first_contact now fixed_id f =
     (if fixed_id = [] then (f, False)
      else (case update_json default_routing (\<lambda>state.
                   bindE (section_of ''first_contact'' state) (\<lambda>seen.
                     if has_key seen fixed_id then Inr (False, dput ''first_contact'' (PDict seen) state)
                     else Inr (True, dput ''first_contact'' (PDict (dput fixed_id (PFloat now) seen)) state))) f of
              (f1, Inl e) \<Rightarrow> (f1, False)
            | (f1, Inr claimed) \<Rightarrow> (f1, claimed)))"

section \<open>Live runs\<close>

text \<open>
  A run is reachable while its block runs. \<open>enter\<close> and \<open>leave\<close> are the two ends of \<open>accepting\<close>: the
  run that leaves puts back what it found, when it is still the one registered. A run is named by
  its submit function, here by a value that identifies it.
\<close>

type_synonym 'r live = "(string \<times> string) \<rightharpoonup> 'r"

definition enter_run :: "string \<times> string \<Rightarrow> 'r \<Rightarrow> 'r live \<Rightarrow> 'r live \<times> 'r option" where
  "enter_run key submit live = (live(key \<mapsto> submit), live key)"

definition leave_run :: "string \<times> string \<Rightarrow> 'r \<Rightarrow> 'r option \<Rightarrow> 'r live \<Rightarrow> 'r live" where
  "leave_run key submit previous live =
     (if live key = Some submit then live(key := previous) else live)"

definition is_live :: "string \<times> string \<Rightarrow> 'r live \<Rightarrow> bool" where
  "is_live key live \<longleftrightarrow> live key \<noteq> None"

text \<open>\<open>submit\<close> is what a run answers to a text; an exception counts as a refusal.\<close>

definition offer :: "('r \<Rightarrow> string \<Rightarrow> bool result) \<Rightarrow> string \<times> string \<Rightarrow> string \<Rightarrow> 'r live \<Rightarrow> bool" where
  "offer submit key txt0 live =
     (if txt0 = [] then False
      else (case live key of
              None \<Rightarrow> False
            | Some r \<Rightarrow> (case submit r txt0 of Inl e \<Rightarrow> False | Inr b \<Rightarrow> b)))"

end
