(* ===== verification/MailboxSpec.thy ===== *)
theory MailboxSpec
  imports Mailbox
begin

text \<open>
  The mailbox implements a family of bounded queues of letters, one for each actor; first contact
  is claimed at most once; a run that ended can be registered again.
\<close>

section \<open>Letters\<close>

type_synonym letter = "string \<times> string \<times> rat"

text \<open>The specification: a queue of letters for each key, of which only the newest young ones count.\<close>

definition trimmed :: "rat \<Rightarrow> letter list \<Rightarrow> letter list" where
  "trimmed now q = last_of MAX_PER_BOX (filter (\<lambda>(sender, message, sent). now - sent < MAIL_TTL_SECONDS) q)"

definition queue_deliver :: "rat \<Rightarrow> string \<Rightarrow> letter \<Rightarrow> (string \<Rightarrow> letter list) \<Rightarrow> string \<Rightarrow> letter list" where
  "queue_deliver now key l q = (\<lambda>k. if k = key then trimmed now (q k) @ [l] else trimmed now (q k))"

definition queue_drain :: "rat \<Rightarrow> string \<Rightarrow> (string \<Rightarrow> letter list) \<Rightarrow> string \<Rightarrow> letter list" where
  "queue_drain now key q = (\<lambda>k. if k = key then [] else trimmed now (q k))"

section \<open>What a file stands for\<close>

definition letter_of :: "pyv \<Rightarrow> letter" where
  "letter_of item =
     ((case get item ''from'' of PStr s \<Rightarrow> s | _ \<Rightarrow> []), (case get item ''message'' of PStr s \<Rightarrow> s | _ \<Rightarrow> []),
      (case get item ''at'' of PFloat t \<Rightarrow> t | _ \<Rightarrow> 0))"

definition letter_ok :: "pyv \<Rightarrow> bool" where
  "letter_ok item \<longleftrightarrow>
     is_dict item \<and> (\<exists>s. get item ''from'' = PStr s) \<and> (\<exists>s. get item ''message'' = PStr s)
     \<and> (\<exists>t. get item ''at'' = PFloat t)"

definition boxes_ok :: "dict \<Rightarrow> bool" where
  "boxes_ok boxes \<longleftrightarrow>
     distinct (map fst boxes) \<and> (\<forall>kv \<in> set boxes. is_list (snd kv) \<and> list_all letter_ok (list_items (snd kv)))"

definition letters_in :: "dict \<Rightarrow> string \<Rightarrow> letter list" where
  "letters_in boxes key = map letter_of (list_items (dget boxes key))"

definition mail_file :: "json_file \<Rightarrow> bool" where
  "mail_file f \<longleftrightarrow>
     (\<exists>state boxes. read_json f (PDict default_boxes) = PDict state \<and> has_key state ''boxes''
        \<and> dget state ''boxes'' = PDict boxes \<and> boxes_ok boxes)"

definition letters :: "json_file \<Rightarrow> string \<Rightarrow> letter list" where
  "letters f = letters_in (dict_items (get (read_json f (PDict default_boxes)) ''boxes''))"

lemma no_mail: "mail_file Missing" and no_letters: "letters Missing = (\<lambda>k. [])"
  by (auto simp: mail_file_def letters_def letters_in_def read_json_def default_boxes_def dget_Cons
      has_key_def boxes_ok_def)

lemma letter_sorted: "letter_ok item \<Longrightarrow> letter_ok (sort_keys item) \<and> letter_of (sort_keys item) = letter_of item"
  by (auto simp: letter_ok_def letter_of_def)

lemma letter_entry: "letter_ok (mail_entry sender message now) \<and> letter_of (mail_entry sender message now) = (sender, message, now)"
  by (simp add: letter_ok_def letter_of_def mail_entry_def dget_Cons)

lemma fresh_letter: "letter_ok item \<Longrightarrow> fresh_item now item = Inr (now - snd (snd (letter_of item)) < MAIL_TTL_SECONDS)"
  by (auto simp: letter_ok_def fresh_item_def letter_of_def py_or_def)

lemma prune_box_letters:
  assumes "is_list v" and "list_all letter_ok (list_items v)"
  obtains kept where "prune_box now v = Inr kept" and "list_all letter_ok kept"
    and "map letter_of kept = trimmed now (map letter_of (list_items v))"
proof -
  obtain xs where v: "v = PList xs" using assms(1) by (cases v) auto
  let ?q = "\<lambda>i. now - snd (snd (letter_of i)) < MAIL_TTL_SECONDS"
  have "filterE (fresh_item now) xs = Inr (filter ?q xs)"
    by (rule filterE_filter) (use assms v in \<open>auto simp: list_all_iff fresh_letter\<close>)
  then have "prune_box now v = Inr (last_of MAX_PER_BOX (filter ?q xs))" by (simp add: prune_box_def v)
  moreover have "list_all letter_ok (last_of MAX_PER_BOX (filter ?q xs))"
    by (rule list_all_last_of) (use assms v in \<open>auto simp: list_all_iff\<close>)
  moreover have "map letter_of (last_of MAX_PER_BOX (filter ?q xs)) = trimmed now (map letter_of (list_items v))"
    by (simp add: trimmed_def v last_of_map filter_map comp_def case_prod_unfold)
  ultimately show thesis by (rule that)
qed

lemma trimmed_Nil [simp]: "trimmed now [] = []"
  by (simp add: trimmed_def last_of_def)

lemma prune_boxes_letters:
  assumes "boxes_ok boxes"
  shows "\<exists>kept. prune_boxes now boxes = Inr kept \<and> boxes_ok kept \<and> fst ` set kept \<subseteq> fst ` set boxes
    \<and> (\<forall>key. letters_in kept key = trimmed now (letters_in boxes key))"
  using assms
proof (induction boxes)
  case Nil
  then show ?case by (simp add: letters_in_def)
next
  case (Cons kv boxes)
  obtain key v where kv: "kv = (key, v)" by fastforce
  have ok: "is_list v" "list_all letter_ok (list_items v)" "boxes_ok boxes" "key \<notin> fst ` set boxes"
    using Cons.prems by (auto simp: boxes_ok_def kv)
  obtain kept where k: "prune_box now v = Inr kept" "list_all letter_ok kept"
    "map letter_of kept = trimmed now (map letter_of (list_items v))"
    using prune_box_letters [OF ok(1,2)] by blast
  obtain rest where r: "prune_boxes now boxes = Inr rest" "boxes_ok rest" "fst ` set rest \<subseteq> fst ` set boxes"
    "\<forall>key. letters_in rest key = trimmed now (letters_in boxes key)" using Cons.IH [OF ok(3)] by blast
  have absent: "dget boxes key = PNone" "dget rest key = PNone"
    using ok(4) r(3) by (auto simp: dget_def split: option.split dest!: map_of_SomeD) force+
  show ?case
  proof (cases "kept = []")
    case True
    have "letters_in rest j = trimmed now (letters_in (kv # boxes) j)" for j
      using r(4) k(3) True absent by (cases "j = key") (simp_all add: letters_in_def kv dget_Cons)
    then show ?thesis using r k True by (auto simp: kv)
  next
    case False
    have "letters_in ((key, PList kept) # rest) j = trimmed now (letters_in (kv # boxes) j)" for j
      using r(4) k(3) by (cases "j = key") (simp_all add: letters_in_def kv dget_Cons)
    moreover have "boxes_ok ((key, PList kept) # rest)"
      using r(2,3) k(2) ok(4) by (auto simp: boxes_ok_def)
    moreover have "prune_boxes now (kv # boxes) = Inr ((key, PList kept) # rest)"
      using k r False by (simp add: kv)
    ultimately show ?thesis using r(3) by (intro exI [of _ "(key, PList kept) # rest"]) (auto simp: kv)
  qed
qed

text \<open>Writing the boxes back changes no letter.\<close>

lemma boxes_sorted:
  assumes "boxes_ok boxes"
  defines "sorted_boxes \<equiv> sort_key fst (map (map_prod id sort_keys) boxes)"
  shows "boxes_ok sorted_boxes" and "letters_in sorted_boxes = letters_in boxes"
proof -
  have d: "distinct (map fst (map (map_prod id sort_keys) boxes))"
    using assms(1) by (simp add: boxes_ok_def comp_def)
  have "is_list (sort_keys v) \<and> list_all letter_ok (list_items (sort_keys v))"
    if "is_list v" "list_all letter_ok (list_items v)" for v
    using that letter_sorted by (cases v) (auto simp: list_all_iff)
  then show "boxes_ok sorted_boxes"
    using assms(1) d unfolding boxes_ok_def sorted_boxes_def distinct_map set_sort distinct_sort by auto
  show "letters_in sorted_boxes = letters_in boxes"
  proof
    fix key
    have "map letter_of (list_items (sort_keys v)) = map letter_of (list_items v)"
      if "list_all letter_ok (list_items v)" for v
      using that letter_sorted by (cases v) (auto simp: list_all_iff)
    moreover have "list_all letter_ok (list_items (dget boxes key))"
      using assms(1) by (auto simp: boxes_ok_def dget_def split: option.split dest!: map_of_SomeD)
    ultimately show "letters_in sorted_boxes key = letters_in boxes key"
      by (simp add: letters_in_def sorted_boxes_def)
  qed
qed

lemma written_boxes:
  assumes "boxes_ok kept" and "f' = write_json (PDict (dput ''boxes'' (PDict kept) state))"
  shows "mail_file f'" and "letters f' = letters_in kept"
  using boxes_sorted [OF assms(1)]
  by (auto simp: mail_file_def letters_def assms(2) write_json_def read_json_def)

lemma mail_section:
  assumes "mail_file f"
  obtains state boxes where "read_json f (PDict default_boxes) = PDict state"
    and "section_of ''boxes'' state = Inr boxes" and "boxes_ok boxes" and "letters f = letters_in boxes"
  using assms that
  by (auto simp: mail_file_def letters_def section_of_def dget_or_def dget_def has_key_def split: option.splits)

lemma boxes_ok_dget: "boxes_ok boxes \<Longrightarrow> list_all letter_ok (list_items (dget boxes key))"
  by (auto simp: boxes_ok_def dget_def split: option.split dest!: map_of_SomeD)

section \<open>Properties\<close>

text \<open>
  C31: the mailbox is a family of bounded queues. A delivery appends the letter to its actor's
  queue and a drain takes that queue whole, in the order of delivery, and leaves it empty; so a
  letter is handed out at most once. Both forget letters older than a day, all but the
  newest fifty of each queue, and touch nothing else; neither fails.
\<close>

theorem mailbox_refines_queues:
  assumes "mail_file f" and "kind \<noteq> []" and "actor_id \<noteq> []"
  shows "(case deliver now kind actor_id sender message f of
            (f', r) \<Rightarrow> r = Inr () \<and> mail_file f'
              \<and> letters f' = queue_deliver now (mail_key kind actor_id) (sender, message, now) (letters f))
    \<and> (case drain now kind actor_id f of
            (f', items) \<Rightarrow> mail_file f'
              \<and> map letter_of items = trimmed now (letters f (mail_key kind actor_id))
              \<and> letters f' = queue_drain now (mail_key kind actor_id) (letters f))"
proof -
  let ?k = "mail_key kind actor_id"
  obtain state boxes where s: "read_json f (PDict default_boxes) = PDict state"
    "section_of ''boxes'' state = Inr boxes" "boxes_ok boxes" "letters f = letters_in boxes"
    by (rule mail_section [OF assms(1)])
  obtain kept where k: "prune_boxes now boxes = Inr kept" "boxes_ok kept"
    "\<And>key. letters_in kept key = trimmed now (letters_in boxes key)"
    using prune_boxes_letters [OF s(3)] by blast
  let ?new = "dput ?k (PList (list_items (dget kept ?k) @ [mail_entry sender message now])) kept"
  have "boxes_ok ?new"
  proof -
    have "list_all letter_ok (list_items (dget kept ?k) @ [mail_entry sender message now])"
      using boxes_ok_dget [OF k(2)] letter_entry by simp
    then show ?thesis
      using k(2) set_dput_subset [of ?k _ kept] by (fastforce simp: boxes_ok_def distinct_dput)
  qed
  note w = written_boxes [OF this refl]
  have "letters_in ?new = queue_deliver now ?k (sender, message, now) (letters f)"
    by (rule ext) (use k(3) letter_entry in \<open>simp add: letters_in_def queue_deliver_def s(4)\<close>)
  with w s k have deliver: "case deliver now kind actor_id sender message f of
      (f', r) \<Rightarrow> r = Inr () \<and> mail_file f'
        \<and> letters f' = queue_deliver now ?k (sender, message, now) (letters f)"
    using assms(2,3) by (simp add: deliver_def update_json_def Let_def)
  have ok: "boxes_ok (dpop ?k kept)" using k(2) by (auto simp: boxes_ok_def distinct_dpop set_dpop)
  note v = written_boxes [OF ok refl]
  have "letters_in (dpop ?k kept) = queue_drain now ?k (letters f)"
    by (rule ext) (use k(3) in \<open>simp add: letters_in_def queue_drain_def s(4)\<close>)
  moreover have "filter is_dict (list_items (dget kept ?k)) = list_items (dget kept ?k)"
    using boxes_ok_dget [OF k(2), of ?k] by (auto simp: list_all_iff letter_ok_def filter_id_conv)
  ultimately have "case drain now kind actor_id f of
      (f', items) \<Rightarrow> mail_file f' \<and> map letter_of items = trimmed now (letters f ?k)
        \<and> letters f' = queue_drain now ?k (letters f)"
    using v s k assms(2,3) by (simp add: drain_def update_json_def Let_def letters_in_def)
  with deliver show ?thesis by blast
qed

theorem mailbox_refines_queues_witness:
  "case deliver 5 ''worker'' ''w1'' ''m'' ''go on'' Missing of
     (f, r) \<Rightarrow> (case drain 9 ''worker'' ''w1'' f of
        (g, items) \<Rightarrow> map letter_of items = [(''m'', ''go on'', 5)] \<and> letters g ''worker:w1'' = [])"
proof -
  obtain f r where d: "deliver 5 ''worker'' ''w1'' ''m'' ''go on'' Missing = (f, r)" by fastforce
  have f: "mail_file f" "letters f = queue_deliver 5 (mail_key ''worker'' ''w1'') (''m'', ''go on'', 5) (letters Missing)"
    using mailbox_refines_queues [OF no_mail, of "''worker''" "''w1''" 5 "''m''" "''go on''"] d by auto
  obtain g items where e: "drain 9 ''worker'' ''w1'' f = (g, items)" by fastforce
  from mailbox_refines_queues [OF f(1), of "''worker''" "''w1''" 9] e d show ?thesis
    by (simp add: f(2) no_letters queue_deliver_def queue_drain_def trimmed_def last_of_def
        MAIL_TTL_SECONDS_def MAX_PER_BOX_def mail_key_def)
qed

section \<open>First contact\<close>

fun claims :: "(rat \<times> string) list \<Rightarrow> json_file \<Rightarrow> bool list" where
  "claims [] f = []"
| "claims ((now, fixed_id) # cs) f =
     (let (f1, b) = claim_first_contact now fixed_id f in b # claims cs f1)"

definition seen_file :: "string set \<Rightarrow> json_file \<Rightarrow> bool" where
  "seen_file S f \<longleftrightarrow>
     (\<exists>state seen. read_json f (PDict default_routing) = PDict state
        \<and> section_of ''first_contact'' state = Inr seen \<and> (\<forall>i. has_key seen i \<longleftrightarrow> i \<in> S))"

lemma claim_step:
  assumes "seen_file S f" and "claim_first_contact now i f = (f', b)"
  shows "b = (i \<noteq> [] \<and> i \<notin> S) \<and> seen_file (if i = [] then S else insert i S) f'"
proof -
  obtain state seen where s: "read_json f (PDict default_routing) = PDict state"
    "section_of ''first_contact'' state = Inr seen" "\<And>j. has_key seen j \<longleftrightarrow> j \<in> S"
    using assms(1) by (auto simp: seen_file_def)
  have w: "seen_file T (write_json (PDict (dput ''first_contact'' (PDict x) state)))"
    if "\<And>j. has_key x j \<longleftrightarrow> j \<in> T" for x T
    using that by (auto simp: seen_file_def write_json_def read_json_def section_written)
  show ?thesis
  proof (cases "i = []")
    case True
    then show ?thesis using assms by (simp add: claim_first_contact_def)
  next
    case False
    show ?thesis
    proof (cases "i \<in> S")
      case True
      then have "b = False" "f' = write_json (PDict (dput ''first_contact'' (PDict seen) state))"
        using assms(2) False s by (simp_all add: claim_first_contact_def update_json_def)
      then show ?thesis using True False s(3) w [of seen "insert i S"] by auto
    next
      case new: False
      then have "b = True" "f' = write_json (PDict (dput ''first_contact'' (PDict (dput i (PFloat now) seen)) state))"
        using assms(2) False s by (simp_all add: claim_first_contact_def update_json_def)
      then show ?thesis using new False s(3) w [of "dput i (PFloat now) seen" "insert i S"] by auto
    qed
  qed
qed

lemma claims_seen:
  "seen_file S f \<Longrightarrow> claims cs f =
     map (\<lambda>k. snd (cs ! k) \<noteq> [] \<and> snd (cs ! k) \<notin> S \<union> snd ` set (take k cs)) [0..<length cs]"
proof (induction cs arbitrary: S f)
  case (Cons c cs)
  obtain now i where c: "c = (now, i)" by fastforce
  obtain f1 b where f1: "claim_first_contact now i f = (f1, b)" by fastforce
  note st = claim_step [OF Cons.prems f1]
  have u: "[0..<length (c # cs)] = 0 # map Suc [0..<length cs]"
    by (metis length_Cons map_Suc_upt upt_conv_Cons zero_less_Suc)
  have "claims cs f1 = map (\<lambda>k. snd (cs ! k) \<noteq> []
      \<and> snd (cs ! k) \<notin> (if i = [] then S else insert i S) \<union> snd ` set (take k cs)) [0..<length cs]"
    by (rule Cons.IH) (use st in blast)
  then show ?case
    unfolding u using st by (auto simp: c f1 comp_def)
qed simp

text \<open>
  C34: a first contact is claimed exactly once. In any sequence of claims on a fresh file, a claim
  succeeds exactly when it names a contact that no earlier claim named.
\<close>

theorem first_contact_claimed_once:
  "claims cs Missing = map (\<lambda>k. snd (cs ! k) \<noteq> [] \<and> snd (cs ! k) \<notin> snd ` set (take k cs)) [0..<length cs]"
proof -
  have "seen_file {} Missing"
    by (simp add: seen_file_def read_json_def default_routing_def section_of_def dget_or_def has_key_def)
  from claims_seen [OF this] show ?thesis by simp
qed

section \<open>Live runs\<close>

text \<open>Runs that are nested put back what they found.\<close>

lemma nested_runs:
  assumes "enter_run key a live = (l1, p1)" and "enter_run key b l1 = (l2, p2)"
  shows "leave_run key a p1 (leave_run key b p2 l2) = live"
  using assms by (auto simp: enter_run_def leave_run_def)

text \<open>
  When the older of two overlapping runs ends first, the end of the newer one registers the run
  that has ended, and nothing takes it away again.
\<close>

lemma ended_run_registered_again:
  assumes "enter_run key a live = (l1, p1)" and "enter_run key b l1 = (l2, p2)" and "a \<noteq> b"
  shows "leave_run key b p2 (leave_run key a p1 l2) key = Some a"
  using assms by (auto simp: enter_run_def leave_run_def)

end
