(* ===== verification/MessageLog.thy ===== *)
theory MessageLog
  imports JsonFile
begin

text \<open>
  What was said, to whom and when (\<open>core/iwantto/message_log.py\<close>): one document for each contact,
  holding its newest messages in both directions. The directory maps a file name to its document.
  The clock, its rendering and \<open>str.isalnum\<close> on a character are parameters.
\<close>

section \<open>Files\<close>

definition OUT :: string where "OUT = ''out''"
definition IN :: string where "IN = ''in''"
definition MAX_PER_CONTACT :: nat where "MAX_PER_CONTACT = 2000"
definition MAX_BODY_CHARS :: nat where "MAX_BODY_CHARS = 8000"

definition safe_contact :: "(string \<Rightarrow> bool) \<Rightarrow> string \<Rightarrow> string" where
  "safe_contact alnum contact_id =
     take_cp 120 (concat (map (\<lambda>c. if alnum c \<or> c \<in> set [''.'', ''_'', ''-''] then c else ''_'')
                            (chars_of (strip contact_id))))"

definition log_name :: "(string \<Rightarrow> bool) \<Rightarrow> string \<Rightarrow> string" where
  "log_name alnum contact_id = safe_contact alnum contact_id @ ''.json''"

definition default_log :: dict where
  "default_log = [(''version'', PInt 1), (''messages'', PList [])]"

type_synonym msg_dir = "(string \<times> json_file) list"

definition log_file :: "msg_dir \<Rightarrow> string \<Rightarrow> json_file" where
  "log_file dir name = (case map_of dir name of None \<Rightarrow> Missing | Some f \<Rightarrow> f)"

text \<open>The three bytes of the horizontal ellipsis.\<close>

definition ELLIPSIS :: string where "ELLIPSIS = [CHR 0xE2, CHR 0x80, CHR 0xA6]"

definition clip_body :: "string \<Rightarrow> string" where
  "clip_body body =
     (if py_len body > MAX_BODY_CHARS
      then take_cp MAX_BODY_CHARS body @ ELLIPSIS @ ''(+'' @ show_nat (py_len body - MAX_BODY_CHARS) @ '' chars)''
      else body)"

section \<open>Recording\<close>

definition message_entry ::
  "rat \<Rightarrow> string \<Rightarrow> string \<Rightarrow> string \<Rightarrow> string \<Rightarrow> string \<Rightarrow> string \<Rightarrow> pyv" where
  "message_entry now stamp direction event_id body kind sender =
     PDict [(''event_id'', PStr event_id), (''direction'', PStr (if direction = OUT then OUT else IN)),
            (''kind'', PStr (if kind = [] then ''text'' else kind)), (''body'', PStr (clip_body body)),
            (''at'', PFloat now), (''at_iso'', PStr stamp), (''sender'', PStr sender)]"

definition logged :: "string \<Rightarrow> pyv list \<Rightarrow> bool" where
  "logged event_id messages \<longleftrightarrow>
     event_id \<noteq> [] \<and> list_ex (\<lambda>item. is_dict item \<and> get item ''event_id'' = PStr event_id) messages"

definition append_message :: "string \<Rightarrow> pyv \<Rightarrow> pyv list \<Rightarrow> pyv list" where
  "append_message event_id entry messages =
     (if logged event_id messages then messages else last_of MAX_PER_CONTACT (messages @ [entry]))"

text \<open>An exception of the update leaves the file as it was and is not passed on.\<close>

definition record_message ::
  "(string \<Rightarrow> bool) \<Rightarrow> rat \<Rightarrow> string \<Rightarrow> string \<Rightarrow> string \<Rightarrow> string \<Rightarrow> string \<Rightarrow> string \<Rightarrow> string \<Rightarrow> msg_dir \<Rightarrow> msg_dir" where
  "record_message alnum now stamp contact_id direction event_id body kind sender dir =
     (if contact_id = [] then dir
      else let name = log_name alnum contact_id;
               entry = message_entry now stamp direction event_id body kind sender in
           case update_json default_log (\<lambda>state.
                  case dget_or state ''messages'' (PList []) of
                    PList messages \<Rightarrow> Inr ((), dput ''messages'' (PList (append_message event_id entry messages)) state)
                  | _ \<Rightarrow> Inl (AttributeError ''append'')) (log_file dir name) of
             (f, Inl e) \<Rightarrow> dir
           | (f, Inr u) \<Rightarrow> AList.update name f dir)"

definition record_outbound ::
  "(string \<Rightarrow> bool) \<Rightarrow> rat \<Rightarrow> string \<Rightarrow> string \<Rightarrow> string \<Rightarrow> string \<Rightarrow> string \<Rightarrow> msg_dir \<Rightarrow> msg_dir" where
  "record_outbound alnum now stamp contact_id event_id body kind =
     record_message alnum now stamp contact_id OUT event_id body kind []"

definition record_inbound ::
  "(string \<Rightarrow> bool) \<Rightarrow> rat \<Rightarrow> string \<Rightarrow> string \<Rightarrow> string \<Rightarrow> string \<Rightarrow> string \<Rightarrow> msg_dir \<Rightarrow> msg_dir" where
  "record_inbound alnum now stamp contact_id event_id body kind =
     record_message alnum now stamp contact_id IN event_id body kind contact_id"

section \<open>Reading\<close>

text \<open>The messages that satisfy a condition on their time.\<close>

fun by_time :: "(rat \<Rightarrow> bool) \<Rightarrow> pyv list \<Rightarrow> pyv list result" where
  "by_time p [] = Inr []"
| "by_time p (m # ms) =
     bindE (py_float (py_or (get m ''at'') (PInt 0))) (\<lambda>t.
     bindE (by_time p ms) (\<lambda>rest. Inr (if p t then m # rest else rest)))"

definition history ::
  "(string \<Rightarrow> bool) \<Rightarrow> string \<Rightarrow> int option \<Rightarrow> rat option \<Rightarrow> rat option \<Rightarrow> msg_dir \<Rightarrow> pyv list result" where
  "history alnum contact_id limit dt_from dt_to dir =
     (case read_json (log_file dir (log_name alnum contact_id)) (PDict default_log) of
        PDict state \<Rightarrow>
          bindE (py_iter (py_or (dget state ''messages'') (PList []))) (\<lambda>items.
          bindE (case dt_from of None \<Rightarrow> Inr (filter is_dict items)
                 | Some start \<Rightarrow> by_time (\<lambda>t. t \<ge> start) (filter is_dict items)) (\<lambda>later.
          bindE (case dt_to of None \<Rightarrow> Inr later | Some last_time \<Rightarrow> by_time (\<lambda>t. t \<le> last_time) later) (\<lambda>messages.
            Inr (case limit of None \<Rightarrow> messages
                 | Some n \<Rightarrow> if n > 0 then last_of (nat n) messages else messages))))
      | _ \<Rightarrow> Inl (AttributeError ''get''))"

definition incoming :: "pyv \<Rightarrow> bool" where
  "incoming item \<longleftrightarrow> get item ''direction'' = PStr IN"

definition outgoing :: "pyv \<Rightarrow> bool" where
  "outgoing item \<longleftrightarrow> get item ''direction'' = PStr OUT"

fun last_inbound :: "nat \<Rightarrow> int \<Rightarrow> pyv list \<Rightarrow> int" where
  "last_inbound index found [] = found"
| "last_inbound index found (item # items) =
     last_inbound (Suc index) (if incoming item then int index else found) items"

definition unanswered :: "(string \<Rightarrow> bool) \<Rightarrow> string \<Rightarrow> msg_dir \<Rightarrow> pyv list result" where
  "unanswered alnum contact_id dir =
     bindE (history alnum contact_id None None None dir) (\<lambda>messages.
       Inr (filter outgoing (drop (nat (last_inbound 0 (-1) messages + 1)) messages)))"

text \<open>The message with an id, whichever contact it belongs to.\<close>

fun find_item :: "string \<Rightarrow> pyv list \<Rightarrow> pyv option" where
  "find_item event_id [] = None"
| "find_item event_id (item # items) =
     (if is_dict item \<and> get item ''event_id'' = PStr event_id then Some item else find_item event_id items)"

definition ends_json :: "string \<Rightarrow> bool" where
  "ends_json name \<longleftrightarrow> is_prefix (rev ''.json'') (rev name)"

fun find_in :: "string \<Rightarrow> msg_dir \<Rightarrow> string list \<Rightarrow> (string \<times> pyv) result" where
  "find_in event_id dir [] = Inr ([], PDict [])"
| "find_in event_id dir (name # names) =
     (if \<not> ends_json name then find_in event_id dir names
      else case read_json (log_file dir name) (PDict default_log) of
             PDict state \<Rightarrow>
               bindE (py_iter (py_or (dget state ''messages'') (PList []))) (\<lambda>items.
                 case find_item event_id items of
                   Some item \<Rightarrow> Inr (take (length name - 5) name, item)
                 | None \<Rightarrow> find_in event_id dir names)
           | _ \<Rightarrow> Inl (AttributeError ''get''))"

definition find_message :: "string \<Rightarrow> msg_dir \<Rightarrow> (string \<times> pyv) result" where
  "find_message event_id0 dir =
     (let event_id = strip event_id0 in
      if event_id = [] then Inr ([], PDict []) else find_in event_id dir (sort (map fst dir)))"

section \<open>Showing\<close>

definition RIGHT_ARROW :: string where "RIGHT_ARROW = [CHR 0xE2, CHR 0x86, CHR 0x92]"
definition LEFT_ARROW :: string where "LEFT_ARROW = [CHR 0xE2, CHR 0x86, CHR 0x90]"

definition format_entry :: "(pyv \<Rightarrow> string) \<Rightarrow> string \<Rightarrow> pyv \<Rightarrow> string" where
  "format_entry rp contact_id entry =
     (let mine = outgoing entry;
          direction = (if mine then RIGHT_ARROW else LEFT_ARROW);
          who = (if mine then ''me'' else if contact_id = [] then ''them'' else contact_id);
          kind = py_str rp (py_or (get entry ''kind'') (PStr ''text''));
          kind_label = (if kind = ''text'' then [] else '' ['' @ kind @ '']'');
          body = py_join '' '' (split_ws (str_or_empty rp (get entry ''body'')));
          msgid = py_str rp (py_or (get entry ''event_id'') (PStr ''(no id)'')) in
      py_str rp (dget_or (dict_items entry) ''at_iso'' (PStr [])) @ '' '' @ direction @ '' '' @ who @ kind_label
        @ '' msgid='' @ msgid @ [CHR 0x0A] @ ''    '' @ body)"

definition format_history :: "(pyv \<Rightarrow> string) \<Rightarrow> string \<Rightarrow> pyv list \<Rightarrow> string" where
  "format_history rp contact_id entries =
     (if entries = [] then ''No messages recorded.''
      else py_join [CHR 0x0A] (map (format_entry rp contact_id) entries))"

end
