(* ===== verification/MessageLogSpec.thy ===== *)
theory MessageLogSpec
  imports MessageLog
begin

text \<open>
  The log of a contact is the sequence of its newest messages, each id once; what is unanswered is
  what was sent since the last reply.
\<close>

section \<open>The messages of a log\<close>

definition log_holds :: "json_file \<Rightarrow> pyv list \<Rightarrow> bool" where
  "log_holds f ms \<longleftrightarrow>
     (\<exists>state. read_json f (PDict default_log) = PDict state \<and> dget_or state ''messages'' (PList []) = PList ms
        \<and> list_all is_dict ms)"

lemma new_log: "log_holds Missing []"
  by (simp add: log_holds_def read_json_def default_log_def dget_or_def)

lemma history_of_log:
  assumes "log_holds (log_file dir (log_name alnum c)) ms"
  shows "history alnum c None None None dir = Inr ms"
proof -
  from assms obtain state where s: "read_json (log_file dir (log_name alnum c)) (PDict default_log) = PDict state"
    "dget_or state ''messages'' (PList []) = PList ms" "list_all is_dict ms" by (auto simp: log_holds_def)
  have "py_or (dget state ''messages'') (PList []) = PList ms"
    using s(2) by (cases "map_of state ''messages''"; cases ms) (auto simp: dget_or_def dget_def py_or_def)
  with s show ?thesis by (simp add: history_def list_all_iff)
qed

lemma log_holds_written:
  assumes "list_all is_dict ms"
  shows "log_holds (write_json (PDict (dput ''messages'' (PList ms) state))) (map sort_keys ms)"
proof -
  let ?d = "sort_key fst (map (map_prod id sort_keys) (dput ''messages'' (PList ms) state))"
  have "map_of ?d ''messages'' = Some (PList (map sort_keys ms))"
    by (simp add: map_of_sorted)
  then show ?thesis
    using assms by (simp add: log_holds_def write_json_def read_json_def dget_or_def list_all_iff)
qed

lemma message_entry_dict [simp]: "is_dict (message_entry now stamp d e b k s)"
  by (simp add: message_entry_def)

lemma append_message_dicts:
  "list_all is_dict ms \<Longrightarrow> is_dict entry \<Longrightarrow> list_all is_dict (append_message e entry ms)"
  unfolding append_message_def by (simp add: list_all_last_of)

lemma record_message_log:
  assumes "c \<noteq> []" and "log_holds (log_file dir (log_name alnum c)) ms"
  shows "log_holds (log_file (record_message alnum now stamp c d e b k s dir) (log_name alnum c))
           (map sort_keys (append_message e (message_entry now stamp d e b k s) ms))"
    and "log_name alnum c' \<noteq> log_name alnum c \<Longrightarrow>
           log_file (record_message alnum now stamp c d e b k s dir) (log_name alnum c') = log_file dir (log_name alnum c')"
proof -
  from assms(2) obtain state where st: "read_json (log_file dir (log_name alnum c)) (PDict default_log) = PDict state"
    "dget_or state ''messages'' (PList []) = PList ms" "list_all is_dict ms" by (auto simp: log_holds_def)
  let ?ms = "append_message e (message_entry now stamp d e b k s) ms"
  have r: "record_message alnum now stamp c d e b k s dir =
      AList.update (log_name alnum c) (write_json (PDict (dput ''messages'' (PList ?ms) state))) dir"
    using assms(1) st by (simp add: record_message_def update_json_def Let_def)
  show "log_holds (log_file (record_message alnum now stamp c d e b k s dir) (log_name alnum c)) (map sort_keys ?ms)"
    using log_holds_written [OF append_message_dicts [OF st(3) message_entry_dict]]
    by (simp add: r log_file_def update_conv)
  show "log_name alnum c' \<noteq> log_name alnum c \<Longrightarrow>
           log_file (record_message alnum now stamp c d e b k s dir) (log_name alnum c') = log_file dir (log_name alnum c')"
    by (simp add: r log_file_def update_conv)
qed

section \<open>What is unanswered\<close>

text \<open>The specification: what was sent since the last message that came in.\<close>

definition sent_since_reply :: "pyv list \<Rightarrow> pyv list" where
  "sent_since_reply ms = filter outgoing (rev (takeWhile (\<lambda>m. \<not> incoming m) (rev ms)))"

lemma last_inbound_snoc:
  "last_inbound n found (ms @ [m]) = (if incoming m then int (n + length ms) else last_inbound n found ms)"
  by (induction n found ms rule: last_inbound.induct) auto

lemma since_last_inbound:
  "last_inbound 0 (-1) ms + 1 \<le> int (length ms)
   \<and> drop (nat (last_inbound 0 (-1) ms + 1)) ms = rev (takeWhile (\<lambda>m. \<not> incoming m) (rev ms))"
  by (induction ms rule: rev_induct) (auto simp: last_inbound_snoc nat_add_distrib)

lemma sorted_direction [simp]: "incoming (sort_keys m) = incoming m" "outgoing (sort_keys m) = outgoing m"
  by (simp_all add: incoming_def outgoing_def)

lemma sent_since_sorted [simp]: "sent_since_reply (map sort_keys ms) = map sort_keys (sent_since_reply ms)"
  by (simp add: sent_since_reply_def rev_map takeWhile_map filter_map comp_def)

lemma sent_since_append: "m \<in> set new \<Longrightarrow> incoming m \<Longrightarrow> sent_since_reply (old @ new) = sent_since_reply new"
  using takeWhile_append1 [of m "rev new" "\<lambda>m. \<not> incoming m" "rev old"] by (simp add: sent_since_reply_def)

lemma sent_since_kept:
  "m \<in> set (last_of n ms) \<Longrightarrow> incoming m \<Longrightarrow> sent_since_reply (last_of n ms) = sent_since_reply ms"
  using sent_since_append [of m "last_of n ms" "take (length ms - n) ms"] by (simp add: last_of_def)

lemma newest_keep_reply:
  assumes "length ms < MAX_PER_CONTACT \<or> (\<exists>m\<in>set (last_of (MAX_PER_CONTACT - 1) ms). incoming m)"
  shows "sent_since_reply (last_of MAX_PER_CONTACT (ms @ [entry])) = sent_since_reply (ms @ [entry])"
proof (cases "length ms < MAX_PER_CONTACT")
  case False
  with assms obtain m where m: "m \<in> set (last_of (MAX_PER_CONTACT - 1) ms)" "incoming m" by blast
  have "0 < MAX_PER_CONTACT" by (simp add: MAX_PER_CONTACT_def)
  then have "last_of MAX_PER_CONTACT (ms @ [entry]) = last_of (MAX_PER_CONTACT - 1) ms @ [entry]"
    by (cases MAX_PER_CONTACT) (simp_all add: last_of_def)
  with m(1) have "m \<in> set (last_of MAX_PER_CONTACT (ms @ [entry]))" by simp
  then show ?thesis using m(2) by (rule sent_since_kept)
next
  case True
  then have "last_of MAX_PER_CONTACT (ms @ [entry]) = ms @ [entry]" by (simp add: last_of_def)
  then show ?thesis by simp
qed

lemma sent_since_snoc:
  "sent_since_reply (ms @ [m]) = (if incoming m then [] else sent_since_reply ms @ (if outgoing m then [m] else []))"
  by (simp add: sent_since_reply_def)

lemma entry_direction:
  "incoming (message_entry now stamp d e b k s) \<longleftrightarrow> d \<noteq> OUT" "outgoing (message_entry now stamp d e b k s) \<longleftrightarrow> d = OUT"
  by (simp_all add: message_entry_def incoming_def outgoing_def dget_Cons OUT_def IN_def)

text \<open>
  C32: for a readable log \<open>unanswered\<close> lists exactly the messages sent since the contact's last reply.
  Let the log have fewer messages than it may hold, or a reply among the newest but the one that
  is dropped next. Then a message of the contact that is new to the log leaves nothing unanswered,
  and a new message to the contact is unanswered after it, behind those that were. A message whose
  id the log has changes nothing. What is unanswered of another contact stays as it is, if the
  log of that contact has another name; contacts whose ids agree in 120 characters share one.
\<close>

theorem unanswered_since_reply:
  assumes "contact_id \<noteq> []" and "log_holds (log_file dir (log_name alnum contact_id)) ms"
    and "dir' = record_message alnum now stamp contact_id direction event_id body kind sender dir"
    and "length ms < MAX_PER_CONTACT \<or> (\<exists>m\<in>set (last_of (MAX_PER_CONTACT - 1) ms). incoming m)"
    and "entry = message_entry now stamp direction event_id body kind sender"
  shows "unanswered alnum contact_id dir = Inr (sent_since_reply ms)
    \<and> unanswered alnum contact_id dir' =
        Inr (map sort_keys (if logged event_id ms then sent_since_reply ms
                            else if direction = OUT then sent_since_reply ms @ [entry] else []))
    \<and> (log_name alnum other \<noteq> log_name alnum contact_id \<longrightarrow>
         unanswered alnum other dir' = unanswered alnum other dir)"
proof -
  have u: "unanswered alnum contact_id D = Inr (sent_since_reply xs)"
    if "log_holds (log_file D (log_name alnum contact_id)) xs" for D xs
    using since_last_inbound [of xs] by (simp add: unanswered_def history_of_log [OF that] sent_since_reply_def)
  have "sent_since_reply (append_message event_id entry ms)
      = (if logged event_id ms then sent_since_reply ms
         else if direction = OUT then sent_since_reply ms @ [entry] else [])"
    using newest_keep_reply [OF assms(4)] unfolding assms(5)
    by (simp add: append_message_def sent_since_snoc entry_direction)
  moreover have "unanswered alnum contact_id dir' = Inr (sent_since_reply (map sort_keys (append_message event_id entry ms)))"
    unfolding assms(3,5) by (rule u [OF record_message_log(1) [OF assms(1,2)]])
  moreover have "log_name alnum other \<noteq> log_name alnum contact_id \<Longrightarrow>
         unanswered alnum other dir' = unanswered alnum other dir"
    using record_message_log(2) [OF assms(1,2)] by (simp add: assms(3) unanswered_def history_def)
  ultimately show ?thesis using u [OF assms(2)] by simp
qed

definition is_alnum_text :: "string \<Rightarrow> bool" where
  "is_alnum_text c \<longleftrightarrow> list_all is_alnum c"

theorem unanswered_since_reply_witness:
  "unanswered is_alnum_text ''ann'' (record_message is_alnum_text 5 ''now'' ''ann'' OUT ''e1'' ''hello'' [] [] [])
     = Inr [sort_keys (message_entry 5 ''now'' OUT ''e1'' ''hello'' [] [])]"
proof -
  have l: "log_holds (log_file [] (log_name is_alnum_text ''ann'')) []" using new_log by (simp add: log_file_def)
  show ?thesis
    using unanswered_since_reply [where direction = OUT and event_id = "''e1''" and body = "''hello''" and kind = "[]"
        and sender = "[]" and now = 5 and stamp = "''now''", OF _ l refl _ refl]
    by (simp add: sent_since_reply_def logged_def MAX_PER_CONTACT_def)
qed

section \<open>Logs shared by contacts\<close>

text \<open>
  Identities of up to 160 characters are valid, a file name keeps 120: contacts whose ids agree
  on those have one log, and each reads what the other was told.
\<close>

lemma take_cp_append:
  assumes "list_all (\<lambda>c. \<not> is_cont c) s" and "length s \<ge> n" and "t = [] \<or> \<not> is_cont (hd t)"
  shows "take_cp n (s @ t) = take n s"
  using assms
proof (induction n s arbitrary: rule: take_cp.induct)
  case (3 n c cs)
  have "takeWhile is_cont (cs @ t) = []" "dropWhile is_cont (cs @ t) = cs @ t" "dropWhile is_cont cs = cs"
    using 3(2,4) by (cases cs; cases t; auto)+
  with 3 show ?case by simp
qed simp_all

lemma alnum_plain:
  assumes "is_alnum c"
  shows "\<not> is_cont c" and "ws_len (c # cs) = 0"
proof -
  have b: "48 \<le> (of_char c :: int)" "(of_char c :: int) \<le> 122"
    using assms by (auto simp: is_alnum_def Let_def)
  then show "\<not> is_cont c" by (simp add: is_cont_def)
  from b have "\<not> (of_char c :: int) \<le> 32" "(of_char c :: int) < 194" by simp_all
  then show "ws_len (c # cs) = 0"
    by (simp only: ws_len.simps Let_def) simp
qed

lemma strip_alnum:
  assumes "list_all is_alnum s"
  shows "strip s = s"
proof -
  have l: "lstrip t = t" if "list_all is_alnum t" for t
    using that alnum_plain(2) by (cases t) (simp_all del: ws_len.simps)
  have "rstrip t = t" if "list_all is_alnum t" for t
    using that by (induction t) (auto simp: l simp del: lstrip.simps)
  then show ?thesis using assms by (simp add: strip_def l)
qed

lemma chars_of_alnum: "list_all is_alnum s \<Longrightarrow> chars_of s = map (\<lambda>c. [c]) s"
proof (induction s)
  case (Cons c s)
  then have "takeWhile is_cont s = []" "dropWhile is_cont s = s"
    using alnum_plain(1) by (cases s; auto)+
  with Cons show ?case by simp
qed simp

lemma shared_log:
  assumes "list_all is_alnum (s @ t)" and "length s = 120"
  shows "log_name is_alnum_text (s @ t) = s @ ''.json''"
proof -
  have "concat (map (\<lambda>c. if is_alnum_text [c] \<or> [c] \<in> set [''.'', ''_'', ''-''] then [c] else ''_'') u) = u"
    if "list_all is_alnum u" for u
    using that by (induction u) (auto simp: is_alnum_text_def)
  then have "log_name is_alnum_text (s @ t) = take_cp 120 (s @ t) @ ''.json''"
    using assms(1) strip_alnum [OF assms(1)] chars_of_alnum [OF assms(1)]
    by (simp add: log_name_def safe_contact_def comp_def del: list_all_append map_append)
  also have "take_cp 120 (s @ t) = s"
    using take_cp_append [of s 120 t] assms alnum_plain(1) by (cases t) (auto simp: list_all_iff)
  finally show ?thesis .
qed

lemma contacts_share_a_log:
  assumes "list_all is_alnum (s @ t)" and "list_all is_alnum (s @ u)" and "length s = 120"
  shows "log_name is_alnum_text (s @ t) = log_name is_alnum_text (s @ u)"
  using shared_log [OF assms(1,3)] shared_log [OF assms(2,3)] by simp

end
