(* ===== verification/Routing.thy ===== *)
theory Routing
  imports JsonFile
begin

text \<open>
  Who a target is (\<open>core/iwantto/routing.py\<close>): a bare id or name is looked up among the local
  contacts, then among the identities of the trust policy, by id before name. The contacts and
  the entries of the policy are parameters.
\<close>

record target =
  tg_kind :: string
  tg_fixed_id :: string
  tg_display_name :: string
  tg_known :: bool

definition target_label :: "target \<Rightarrow> string" where
  "target_label t =
     (let name = (if tg_display_name t = [] then tg_fixed_id t else tg_display_name t) in
      if name \<noteq> tg_fixed_id t then name @ '' ('' @ tg_fixed_id t @ '')'' else name)"

definition routing_error :: "string \<Rightarrow> pyerr" where
  "routing_error msg = OtherError ''RoutingError'' msg"

definition kind_of :: "(pyv \<Rightarrow> string) \<Rightarrow> pyv \<Rightarrow> string" where
  "kind_of rp contact = py_str rp (py_or (get contact ''contact_type'') (PStr ''carbon''))"

definition known_target :: "(pyv \<Rightarrow> string) \<Rightarrow> string \<Rightarrow> pyv \<Rightarrow> target" where
  "known_target rp contact_id contact =
     \<lparr>tg_kind = kind_of rp contact, tg_fixed_id = contact_id,
      tg_display_name = str_or_empty rp (get contact ''display_name''), tg_known = True\<rparr>"

definition contacts_named :: "(pyv \<Rightarrow> string) \<Rightarrow> string \<Rightarrow> string \<Rightarrow> dict \<Rightarrow> dict" where
  "contacts_named rp lowered kind_hint contacts =
     filter (\<lambda>kv. is_dict (snd kv)
               \<and> lower (strip (str_or_empty rp (get (snd kv) ''display_name''))) = lowered
               \<and> (kind_hint = [] \<or> kind_of rp (snd kv) = kind_hint)) contacts"

definition kind_fits :: "(pyv \<Rightarrow> string) \<Rightarrow> string \<Rightarrow> pyv \<Rightarrow> bool" where
  "kind_fits rp kind_hint entry \<longleftrightarrow> kind_hint = [] \<or> str_or_empty rp (get entry ''kind'') = kind_hint"

definition directory_matches :: "(pyv \<Rightarrow> string) \<Rightarrow> string \<Rightarrow> string \<Rightarrow> pyv list \<Rightarrow> pyv list" where
  "directory_matches rp raw kind_hint directory =
     (let by_id = filter (\<lambda>e. str_or_empty rp (get e ''id'') = raw \<and> kind_fits rp kind_hint e) directory in
      if by_id \<noteq> [] then by_id
      else filter (\<lambda>e. lower (strip (str_or_empty rp (get e ''name''))) = lower raw \<and> kind_fits rp kind_hint e) directory)"

text \<open>What the directory says, once no contact answers to the name.\<close>

definition quoted :: "string \<Rightarrow> string" where
  "quoted raw = CHR 0x27 # raw @ [CHR 0x27]"

definition unknown_identity :: "string \<Rightarrow> string" where
  "unknown_identity raw =
     ''I don't know who '' @ quoted raw @ '' is. Nobody by that id or name is in my contacts or my Glass ''
       @ ''trust policy. If they are real and new, say which they are: --carbon '' @ raw @ '' or --silicon '' @ raw @ ''.''"

definition resolve_stranger :: "(pyv \<Rightarrow> string) \<Rightarrow> string \<Rightarrow> string \<Rightarrow> pyv list \<Rightarrow> target result" where
  "resolve_stranger rp raw kind_hint directory =
     (case directory_matches rp raw kind_hint directory of
        [] \<Rightarrow> if kind_hint \<noteq> []
              then Inr \<lparr>tg_kind = kind_hint, tg_fixed_id = raw, tg_display_name = [], tg_known = False\<rparr>
              else Inl (routing_error (unknown_identity raw))
      | [e] \<Rightarrow> Inr \<lparr>tg_kind = py_str rp (py_or (get e ''kind'') (PStr ''carbon'')),
                    tg_fixed_id = py_str rp (py_or (get e ''id'') (PStr raw)),
                    tg_display_name = str_or_empty rp (get e ''name''), tg_known = False\<rparr>
      | es \<Rightarrow> Inl (routing_error (quoted raw @ '' matches more than one identity (''
                @ py_join '', '' (sort (map (\<lambda>e. py_str rp (get e ''kind'') @ '':'' @ py_str rp (get e ''id'')) es))
                @ ''). Use the exact id, or pass --carbon / --silicon.'')))"

definition resolve_named :: "(pyv \<Rightarrow> string) \<Rightarrow> dict \<Rightarrow> pyv list \<Rightarrow> string \<Rightarrow> string \<Rightarrow> target result" where
  "resolve_named rp contacts directory raw kind_hint =
     (case contacts_named rp (lower raw) kind_hint contacts of
        [] \<Rightarrow> resolve_stranger rp raw kind_hint directory
      | [kv] \<Rightarrow> Inr (known_target rp (fst kv) (snd kv))
      | kvs \<Rightarrow> Inl (routing_error (quoted raw @ '' matches more than one contact (''
                 @ py_join '', '' (sort (map fst kvs)) @ ''). Use the exact id.'')))"

definition resolve_target :: "(pyv \<Rightarrow> string) \<Rightarrow> dict \<Rightarrow> pyv list \<Rightarrow> string \<Rightarrow> string \<Rightarrow> target result" where
  "resolve_target rp contacts directory name kind_hint0 =
     (let raw = dropWhile (\<lambda>c. c = CHR ''@'') (strip name); kind_hint = lower (strip kind_hint0);
          contact = dget contacts raw in
      if raw = [] then Inl (routing_error ''A carbon id or silicon id is required.'')
      else if is_dict contact \<and> (kind_hint = [] \<or> kind_hint = kind_of rp contact)
      then Inr (known_target rp raw contact)
      else resolve_named rp contacts directory raw kind_hint)"

text \<open>A contact no message was exchanged with is new, even when it is listed.\<close>

definition is_new_relationship :: "dict \<Rightarrow> target \<Rightarrow> bool" where
  "is_new_relationship contacts t \<longleftrightarrow>
     \<not> tg_known t \<or>
     (let contact = dget contacts (tg_fixed_id t) in
      \<not> is_dict contact \<or>
      \<not> (truthy (get contact ''last_processed_event_id'') \<or> truthy (get contact ''last_processed_event_ids'')
          \<or> truthy (get contact ''last_polled_event_id'')))"

definition first_contact_preamble :: "string \<Rightarrow> string" where
  "first_contact_preamble sender =
     ''you are not yet talking to your carbon, but this is the message that '' @ sender
       @ '' wants to send to your carbon, its advised to pass it forward.''"

end
