(* ===== verification/RoutingSpec.thy ===== *)
theory RoutingSpec
  imports Routing "HOL-Library.Multiset"
begin

text \<open>
  Targets are resolved by what the contacts and the directory hold, never by the order they list it in.
\<close>

lemma sort_of_mset: "mset xs = mset ys \<Longrightarrow> sort (map f xs) = (sort (map f ys) :: string list)"
  by (rule properties_for_sort) simp_all

lemma case_of_mset:
  assumes "mset xs = mset ys" and "none = none'"
  shows "(case xs of [] \<Rightarrow> none | [x] \<Rightarrow> one x | x # y # zs \<Rightarrow> many (sort (map f (x # y # zs)) :: string list))
       = (case ys of [] \<Rightarrow> none' | [x] \<Rightarrow> one x | x # y # zs \<Rightarrow> many (sort (map f (x # y # zs))))"
proof (cases xs)
  case Nil
  with assms show ?thesis by simp
next
  case (Cons x xs')
  show ?thesis
  proof (cases xs')
    case Nil
    with Cons assms(1) have "ys = [x]" by (metis mset_single_iff_right mset_single_iff)
    with Nil Cons show ?thesis by simp
  next
    case (Cons y zs)
    with \<open>xs = x # xs'\<close> assms(1) have "length ys = Suc (Suc (length zs))"
      using mset_eq_length by fastforce
    then obtain u v ws where "ys = u # v # ws" by (cases ys; cases "tl ys") auto
    with Cons \<open>xs = x # xs'\<close> show ?thesis using sort_of_mset [OF assms(1), of f] by simp
  qed
qed

lemma filter_of_mset: "mset xs = mset ys \<Longrightarrow> mset (filter p xs) = mset (filter p ys)"
  by simp

lemma stranger_of_mset:
  assumes "mset directory = mset directory'"
  shows "resolve_stranger rp raw kind_hint directory = resolve_stranger rp raw kind_hint directory'"
proof -
  have "filter p directory = [] \<longleftrightarrow> filter p directory' = []" for p
    using filter_of_mset [OF assms, of p] by (metis mset_zero_iff)
  then have "mset (directory_matches rp raw kind_hint directory) = mset (directory_matches rp raw kind_hint directory')"
    unfolding directory_matches_def Let_def using filter_of_mset [OF assms] by (simp only: split: if_split) blast
  from case_of_mset [OF this refl] show ?thesis unfolding resolve_stranger_def .
qed

lemma named_of_mset:
  assumes "mset contacts = mset contacts'" and "mset directory = mset directory'"
  shows "resolve_named rp contacts directory raw kind_hint = resolve_named rp contacts' directory' raw kind_hint"
proof -
  have "mset (contacts_named rp (lower raw) kind_hint contacts) = mset (contacts_named rp (lower raw) kind_hint contacts')"
    unfolding contacts_named_def by (rule filter_of_mset [OF assms(1)])
  from case_of_mset [OF this stranger_of_mset [OF assms(2)]] show ?thesis
    unfolding resolve_named_def .
qed

text \<open>
  Who a name stands for depends on the contacts and the trust policy, never on the order in
  which they are listed: an ambiguous name is refused, with the same message, in every order.
\<close>

theorem resolution_ignores_order:
  assumes "distinct (map fst contacts)" and "mset contacts = mset contacts'" and "mset directory = mset directory'"
  shows "resolve_target rp contacts' directory' name kind_hint = resolve_target rp contacts directory name kind_hint"
proof -
  have "mset (map fst contacts') = mset (map fst contacts)" using assms(2) by simp
  then have "distinct (map fst contacts')" using assms(1) by (metis mset_eq_imp_distinct_iff)
  moreover have "set contacts' = set contacts" using assms(2) by (metis set_mset_mset)
  ultimately have "map_of contacts' = map_of contacts" using assms(1) by (simp add: map_of_inject_set)
  then have "dget contacts' k = dget contacts k" for k by (simp add: dget_def)
  then show ?thesis
    using named_of_mset [OF assms(2,3)] unfolding resolve_target_def Let_def by (simp only:)
qed

definition two_anns :: dict where
  "two_anns = [(''ann'', PDict [(''display_name'', PStr ''Ann'')]), (''ann2'', PDict [(''display_name'', PStr ''ann'')])]"

theorem resolution_ignores_order_witness:
  "resolve_target (\<lambda>v. []) (rev two_anns) [] ''@Ann'' [] = resolve_target (\<lambda>v. []) two_anns [] ''@Ann'' []"
  by (rule resolution_ignores_order) (simp_all add: two_anns_def)

end
