(* ===== verification/Heartbeat.thy ===== *)
theory Heartbeat
  imports JsonFile
begin

text \<open>
  The manager heartbeat (\<open>core/heartbeat.py\<close>): the document of the last beats, the contacts whose
  manager is due, and the sweep that wakes them. The clock, its rendering, the contacts and the
  text of a beat are parameters.
\<close>

definition INTERVAL_SECONDS :: rat where "INTERVAL_SECONDS = 13 * 60"

definition default_beats :: dict where
  "default_beats = [(''version'', PInt 1), (''contacts'', PDict [])]"

definition beaten :: "string \<Rightarrow> rat \<Rightarrow> int \<Rightarrow> dict \<Rightarrow> dict" where
  "beaten stamp now n entry =
     dput ''beats'' (PInt (n + 1)) (dput ''last_beat_at_iso'' (PStr stamp) (dput ''last_beat_at'' (PFloat now) entry))"

text \<open>\<open>entry\<close> is \<open>state.setdefault("contacts", {}).setdefault(contact_id, {})\<close>.\<close>

definition record_beat :: "string \<Rightarrow> string \<Rightarrow> rat \<Rightarrow> json_file \<Rightarrow> json_file \<times> unit result" where
  "record_beat stamp contact_id now f =
     update_json default_beats (\<lambda>state.
       bindE (section_of ''contacts'' state) (\<lambda>beats.
       case dget_or beats contact_id (PDict []) of
         PDict entry \<Rightarrow> bindE (py_int (py_or (dget entry ''beats'') (PInt 0))) (\<lambda>n.
           Inr ((), dput ''contacts'' (PDict (dput contact_id (PDict (beaten stamp now n entry)) beats)) state))
       | _ \<Rightarrow> Inl (TypeError contact_id))) f"

text \<open>The last beat of a contact, 0 when there was none.\<close>

definition last_beat :: "pyv \<Rightarrow> string \<Rightarrow> rat result" where
  "last_beat beats contact_id =
     (case beats of
        PDict d \<Rightarrow> (let entry = dget d contact_id in
                   if is_dict entry then py_float (py_or (get entry ''last_beat_at'') (PFloat 0)) else Inr 0)
      | _ \<Rightarrow> Inl (AttributeError ''get''))"

text \<open>A contact seen for the first time starts its clock.\<close>

fun due_loop :: "string \<Rightarrow> rat \<Rightarrow> pyv \<Rightarrow> dict \<Rightarrow> json_file \<Rightarrow> json_file \<times> string list result" where
  "due_loop stamp now beats [] f = (f, Inr [])"
| "due_loop stamp now beats ((contact_id, contact) # contacts) f =
     (if \<not> is_dict contact then due_loop stamp now beats contacts f
      else bindS (f, last_beat beats contact_id) (\<lambda>f1 last.
           if last = 0
           then bindS (record_beat stamp contact_id now f1) (\<lambda>f2 u. due_loop stamp now beats contacts f2)
           else bindS (due_loop stamp now beats contacts f1) (\<lambda>f2 due.
                  (f2, Inr (if now - last \<ge> INTERVAL_SECONDS then contact_id # due else due)))))"

definition contacts_due :: "string \<Rightarrow> rat \<Rightarrow> dict \<Rightarrow> json_file \<Rightarrow> json_file \<times> string list result" where
  "contacts_due stamp now contacts f =
     (case read_json f (PDict default_beats) of
        PDict state \<Rightarrow> due_loop stamp now (py_or (dget state ''contacts'') (PDict [])) contacts f
      | _ \<Rightarrow> (f, Inl (AttributeError ''get'')))"

fun record_beats :: "string \<Rightarrow> rat \<Rightarrow> string list \<Rightarrow> json_file \<Rightarrow> json_file \<times> unit result" where
  "record_beats stamp now [] f = (f, Inr ())"
| "record_beats stamp now (c # cs) f =
     bindS (record_beat stamp c now f) (\<lambda>f1 u. record_beats stamp now cs f1)"

text \<open>A sweep: the contexts of the managers to wake, if there are any.\<close>

definition check_manager_heartbeats ::
  "string \<Rightarrow> (string \<Rightarrow> string) \<Rightarrow> rat \<Rightarrow> dict \<Rightarrow> json_file \<Rightarrow> json_file \<times> (string \<times> string) list option result" where
  "check_manager_heartbeats stamp build_context now contacts f =
     bindS (contacts_due stamp now contacts f) (\<lambda>f1 due.
       if due = [] then (f1, Inr None)
       else bindS (record_beats stamp now due f1) (\<lambda>f2 u. (f2, Inr (Some (map (\<lambda>c. (c, build_context c)) due)))))"

end
