(* ===== verification/HeartbeatSpec.thy ===== *)
theory HeartbeatSpec
  imports Heartbeat
begin

text \<open>
  The document of the beats implements one clock for each contact; the beats of a manager are
  at least an interval apart.
\<close>

section \<open>Clocks\<close>

text \<open>The specification: the time of the last beat, 0 before the contact was first seen.\<close>

type_synonym clocks = "string \<Rightarrow> rat"

definition seen_contacts :: "dict \<Rightarrow> string set" where
  "seen_contacts contacts = {c. \<exists>v. (c, v) \<in> set contacts \<and> is_dict v}"

definition due_now :: "rat \<Rightarrow> dict \<Rightarrow> clocks \<Rightarrow> string list" where
  "due_now now contacts L =
     map fst (filter (\<lambda>kv. is_dict (snd kv) \<and> L (fst kv) \<noteq> 0 \<and> now - L (fst kv) \<ge> INTERVAL_SECONDS) contacts)"

definition next_clocks :: "rat \<Rightarrow> dict \<Rightarrow> clocks \<Rightarrow> clocks" where
  "next_clocks now contacts L =
     (\<lambda>c. if c \<in> set (due_now now contacts L) \<or> (c \<in> seen_contacts contacts \<and> L c = 0) then now else L c)"

section \<open>The document\<close>

definition beat_entry :: "rat \<Rightarrow> pyv \<Rightarrow> bool" where
  "beat_entry t v \<longleftrightarrow> is_dict v \<and> get v ''last_beat_at'' = PFloat t \<and> (\<exists>n. get v ''beats'' = PInt n)"

fun beat_is :: "rat \<Rightarrow> pyv option \<Rightarrow> bool" where
  "beat_is t None = (t = 0)"
| "beat_is t (Some v) = beat_entry t v"

definition beats_hold :: "dict \<Rightarrow> clocks \<Rightarrow> bool" where
  "beats_hold beats L \<longleftrightarrow> (\<forall>c. beat_is (L c) (map_of beats c))"

definition clock_file :: "json_file \<Rightarrow> clocks \<Rightarrow> bool" where
  "clock_file f L \<longleftrightarrow>
     (\<exists>state beats. read_json f (PDict default_beats) = PDict state
        \<and> section_of ''contacts'' state = Inr beats \<and> beats_hold beats L)"

lemma new_clocks: "clock_file Missing (\<lambda>c. 0)"
  by (simp add: clock_file_def read_json_def default_beats_def section_of_def dget_or_def beats_hold_def)

lemma beat_is_sorted: "beat_is t v \<Longrightarrow> beat_is t (map_option sort_keys v)"
  by (cases v) (auto simp: beat_entry_def)

lemma beats_holdD: "beats_hold beats L \<Longrightarrow> beat_is (L c) (map_of beats c)"
  by (simp add: beats_hold_def)

lemma beats_hold_sorted: "beats_hold beats L \<Longrightarrow> beats_hold (sort_key fst (map (map_prod id sort_keys) beats)) L"
  by (simp add: beats_hold_def map_of_sorted beat_is_sorted)

lemma beat_recorded:
  assumes "clock_file f L"
  shows "\<exists>f'. record_beat stamp c now f = (f', Inr ()) \<and> clock_file f' (L(c := now))"
proof -
  from assms obtain state beats where s: "read_json f (PDict default_beats) = PDict state"
    "section_of ''contacts'' state = Inr beats" "beats_hold beats L" by (auto simp: clock_file_def)
  have "\<exists>entry n. dget_or beats c (PDict []) = PDict entry \<and> py_int (py_or (dget entry ''beats'') (PInt 0)) = Inr n"
  proof (cases "map_of beats c")
    case None
    then show ?thesis by (simp add: dget_or_def py_or_def)
  next
    case (Some v)
    with beats_holdD [OF s(3), of c] have "beat_entry (L c) v" by simp
    then obtain entry n where "v = PDict entry" "dget entry ''beats'' = PInt n"
      by (cases v) (auto simp: beat_entry_def)
    with Some show ?thesis by (simp add: dget_or_def py_or_def)
  qed
  then obtain entry n where e: "dget_or beats c (PDict []) = PDict entry"
    "py_int (py_or (dget entry ''beats'') (PInt 0)) = Inr n" by blast
  let ?beats = "dput c (PDict (beaten stamp now n entry)) beats"
  have "beats_hold ?beats (L(c := now))"
    using s(3) by (simp add: beats_hold_def beat_entry_def beaten_def)
  then have "clock_file (write_json (PDict (dput ''contacts'' (PDict ?beats) state))) (L(c := now))"
    using beats_hold_sorted by (simp add: clock_file_def write_json_def read_json_def section_written)
  with s e show ?thesis by (simp add: record_beat_def update_json_def)
qed

lemma beats_recorded:
  "clock_file f L \<Longrightarrow> \<exists>f'. record_beats stamp now cs f = (f', Inr ()) \<and> clock_file f' (\<lambda>c. if c \<in> set cs then now else L c)"
proof (induction cs arbitrary: f L)
  case (Cons c cs)
  from beat_recorded [OF Cons.prems] obtain f1 where f1: "record_beat stamp c now f = (f1, Inr ())"
    "clock_file f1 (L(c := now))" by blast
  from Cons.IH [OF f1(2)] obtain f2 where f2: "record_beats stamp now cs f1 = (f2, Inr ())"
    "clock_file f2 (\<lambda>d. if d \<in> set cs then now else (L(c := now)) d)" by blast
  have "(\<lambda>d. if d \<in> set cs then now else (L(c := now)) d) = (\<lambda>d. if d \<in> set (c # cs) then now else L d)" by auto
  with f1 f2 show ?case by simp
qed simp

lemma due_loop_clocks:
  assumes "\<And>c. last_beat beats c = Inr (L0 c)" and "clock_file f L"
  shows "\<exists>f'. due_loop stamp now beats contacts f = (f', Inr (due_now now contacts L0))
           \<and> clock_file f' (\<lambda>c. if c \<in> seen_contacts contacts \<and> L0 c = 0 then now else L c)"
  using assms(2)
proof (induction contacts arbitrary: f L)
  case Nil
  then show ?case by (simp add: due_now_def seen_contacts_def)
next
  case (Cons kv contacts)
  obtain c v where kv: "kv = (c, v)" by fastforce
  show ?case
  proof (cases "is_dict v \<and> L0 c = 0")
    case True
    from beat_recorded [OF Cons.prems] obtain f1 where f1: "record_beat stamp c now f = (f1, Inr ())"
      "clock_file f1 (L(c := now))" by blast
    have "(\<lambda>d. if d \<in> seen_contacts contacts \<and> L0 d = 0 then now else (L(c := now)) d)
        = (\<lambda>d. if d \<in> seen_contacts (kv # contacts) \<and> L0 d = 0 then now else L d)"
      using True by (auto simp: seen_contacts_def kv fun_eq_iff)
    with Cons.IH [OF f1(2)] f1(1) True show ?thesis by (simp add: kv assms(1) due_now_def)
  next
    case False
    have "(\<lambda>d. if d \<in> seen_contacts contacts \<and> L0 d = 0 then now else L d)
        = (\<lambda>d. if d \<in> seen_contacts (kv # contacts) \<and> L0 d = 0 then now else L d)"
      using False by (auto simp: seen_contacts_def kv fun_eq_iff)
    with Cons.IH [OF Cons.prems] False show ?thesis by (auto simp: kv assms(1) due_now_def)
  qed
qed

text \<open>A sweep wakes exactly the managers whose clocks are due, and cannot fail.\<close>

lemma sweep_clocks:
  assumes "clock_file f L"
  shows "\<exists>f'. check_manager_heartbeats stamp ctx now contacts f =
              (f', Inr (if due_now now contacts L = [] then None
                        else Some (map (\<lambda>c. (c, ctx c)) (due_now now contacts L))))
           \<and> clock_file f' (next_clocks now contacts L)"
proof -
  from assms obtain state beats where s: "read_json f (PDict default_beats) = PDict state"
    "section_of ''contacts'' state = Inr beats" "beats_hold beats L" by (auto simp: clock_file_def)
  have b: "py_or (dget state ''contacts'') (PDict []) = PDict beats"
    using s(2) by (cases beats) (auto simp: section_of_def dget_or_def dget_def py_or_def split: option.splits pyv.splits)
  have "last_beat (PDict beats) c = Inr (L c)" for c
    using beats_holdD [OF s(3), of c]
    by (cases "map_of beats c") (auto simp: last_beat_def dget_def beat_entry_def py_or_def Let_def)
  from due_loop_clocks [OF this assms] obtain f1 where
    f1: "due_loop stamp now (PDict beats) contacts f = (f1, Inr (due_now now contacts L))"
      "clock_file f1 (\<lambda>c. if c \<in> seen_contacts contacts \<and> L c = 0 then now else L c)" by blast
  from beats_recorded [OF f1(2)] obtain f2 where
    f2: "record_beats stamp now (due_now now contacts L) f1 = (f2, Inr ())"
      "clock_file f2 (\<lambda>c. if c \<in> set (due_now now contacts L) then now
                         else if c \<in> seen_contacts contacts \<and> L c = 0 then now else L c)" by blast
  have "(\<lambda>c. if c \<in> set (due_now now contacts L) then now
              else if c \<in> seen_contacts contacts \<and> L c = 0 then now else L c) = next_clocks now contacts L"
    by (auto simp: next_clocks_def)
  moreover have "(\<lambda>c. if c \<in> seen_contacts contacts \<and> L c = 0 then now else L c) = next_clocks now contacts L"
    if "due_now now contacts L = []"
    using that by (auto simp: next_clocks_def)
  ultimately show ?thesis
    using s(1) b f1 f2
    by (cases "due_now now contacts L = []") (simp_all add: check_manager_heartbeats_def contacts_due_def)
qed

section \<open>Sweeps\<close>

definition woken :: "(string \<times> string) list option \<Rightarrow> string list" where
  "woken r = (case r of None \<Rightarrow> [] | Some contexts \<Rightarrow> map fst contexts)"

text \<open>Sweeps from a missing document, at the times of a clock that does not go back; the beats so far.\<close>

inductive sweeps :: "(string \<times> rat) list \<Rightarrow> rat \<Rightarrow> json_file \<Rightarrow> bool" where
  start: "sweeps [] 0 Missing"
| sweep: "sweeps tr t f \<Longrightarrow> t \<le> now \<Longrightarrow> 0 < now \<Longrightarrow> distinct (map fst contacts)
           \<Longrightarrow> check_manager_heartbeats stamp ctx now contacts f = (f', Inr r)
           \<Longrightarrow> sweeps (tr @ map (\<lambda>c. (c, now)) (woken r)) now f'"

definition beat_times :: "string \<Rightarrow> (string \<times> rat) list \<Rightarrow> rat list" where
  "beat_times c tr = map snd (filter (\<lambda>b. fst b = c) tr)"

lemma beat_times_append: "beat_times c (tr @ tr') = beat_times c tr @ beat_times c tr'"
  by (simp add: beat_times_def)

lemma beat_times_now:
  "distinct cs \<Longrightarrow> beat_times c (map (\<lambda>c. (c, now)) cs) = (if c \<in> set cs then [now] else [])"
  by (induction cs) (auto simp: beat_times_def)

definition sweeps_inv :: "(string \<times> rat) list \<Rightarrow> rat \<Rightarrow> clocks \<Rightarrow> bool" where
  "sweeps_inv tr t L \<longleftrightarrow>
     (\<forall>c. L c \<le> t \<and> (\<forall>s\<in>set (beat_times c tr). s \<le> L c)
        \<and> sorted_wrt (\<lambda>s s'. s + INTERVAL_SECONDS \<le> s') (beat_times c tr))"

lemma due_now_distinct: "distinct (map fst contacts) \<Longrightarrow> distinct (due_now now contacts L)"
  unfolding due_now_def by (induction contacts) auto

lemma due_now_waited: "c \<in> set (due_now now contacts L) \<Longrightarrow> L c + INTERVAL_SECONDS \<le> now"
  by (auto simp: due_now_def)

lemma sweep_inv:
  assumes "sweeps_inv tr t L" and "t \<le> now" and "distinct (map fst contacts)"
  shows "sweeps_inv (tr @ map (\<lambda>c. (c, now)) (due_now now contacts L)) now (next_clocks now contacts L)"
proof -
  have "L c \<le> now" "\<And>s. s \<in> set (beat_times c tr) \<Longrightarrow> s \<le> L c \<and> s \<le> now" for c
    using assms(1,2) unfolding sweeps_inv_def by (meson order_trans)+
  moreover have "s + INTERVAL_SECONDS \<le> now" if "c \<in> set (due_now now contacts L)" "s \<in> set (beat_times c tr)" for c s
    using due_now_waited [OF that(1)] that(2) assms(1) unfolding sweeps_inv_def
    by (meson add_right_mono order_trans)
  ultimately show ?thesis
    using assms(1)
    unfolding sweeps_inv_def beat_times_append beat_times_now [OF due_now_distinct [OF assms(3)]]
    by (auto simp: sorted_wrt_append next_clocks_def)
qed

lemma sweeps_clocks: "sweeps tr t f \<Longrightarrow> \<exists>L. clock_file f L \<and> sweeps_inv tr t L"
proof (induction rule: sweeps.induct)
  case start
  show ?case using new_clocks by (auto simp: sweeps_inv_def beat_times_def)
next
  case (sweep tr t f now contacts stamp ctx f' r)
  then obtain L where L: "clock_file f L" "sweeps_inv tr t L" by blast
  from sweep_clocks [OF L(1), of stamp ctx now contacts] sweep.hyps(5)
  have "clock_file f' (next_clocks now contacts L)" "woken r = due_now now contacts L"
    by (auto simp: woken_def comp_def split: if_splits)
  with sweep_inv [OF L(2) sweep.hyps(2,4)] show ?case by auto
qed

text \<open>
  C33: however often the event loop sweeps, the beats of one manager are at least thirteen
  minutes apart; and no sweep fails.
\<close>

theorem beats_apart:
  assumes "sweeps tr t f"
  shows "sorted_wrt (\<lambda>s s'. s + INTERVAL_SECONDS \<le> s') (beat_times c tr)
         \<and> (\<exists>f' r. check_manager_heartbeats stamp ctx now contacts f = (f', Inr r))"
proof -
  from sweeps_clocks [OF assms] obtain L where "clock_file f L" "sweeps_inv tr t L" by blast
  with sweep_clocks [of f L stamp ctx now contacts] show ?thesis by (auto simp: sweeps_inv_def)
qed

lemma sweep_again:
  assumes "sweeps tr t f" and "clock_file f L" and "t \<le> now" and "0 < now" and "distinct (map fst contacts)"
  shows "\<exists>f'. sweeps (tr @ map (\<lambda>c. (c, now)) (due_now now contacts L)) now f'
           \<and> clock_file f' (next_clocks now contacts L)"
proof -
  let ?due = "due_now now contacts L"
  let ?r = "if ?due = [] then None else Some (map (\<lambda>c. (c, [])) ?due)"
  from sweep_clocks [OF assms(2), of "[]" "\<lambda>c. []" now contacts]
  obtain f' where f': "check_manager_heartbeats [] (\<lambda>c. []) now contacts f = (f', Inr ?r)"
    "clock_file f' (next_clocks now contacts L)" by blast
  have "woken ?r = ?due" by (simp add: woken_def comp_def)
  with sweeps.sweep [OF assms(1,3-5) f'(1)] f'(2) show ?thesis by auto
qed

text \<open>A contact first seen at 1000 beats at 1780, is not due at 1800, and beats again at 2560.\<close>

theorem beats_apart_witness:
  "\<exists>f. sweeps [(''ann'', 1780), (''ann'', 2560)] 2560 f
     \<and> sorted_wrt (\<lambda>s s'. s + INTERVAL_SECONDS \<le> s') (beat_times ''ann'' [(''ann'', 1780), (''ann'', 2560)])"
proof -
  let ?cs = "[(''ann'', PDict [])]"
  have clocks: "due_now now ?cs (\<lambda>c. if c = ''ann'' then u else 0) = (if u \<noteq> 0 \<and> now - u \<ge> 780 then [''ann''] else [])"
    "next_clocks now ?cs (\<lambda>c. if c = ''ann'' then u else 0)
       = (\<lambda>c. if c = ''ann'' then (if u = 0 \<or> now - u \<ge> 780 then now else u) else 0)" for now u
    by (auto simp: due_now_def next_clocks_def seen_contacts_def INTERVAL_SECONDS_def fun_eq_iff)
  have first: "due_now now ?cs (\<lambda>c. 0) = []" "next_clocks now ?cs (\<lambda>c. 0) = (\<lambda>c. if c = ''ann'' then now else 0)" for now
    by (auto simp: due_now_def next_clocks_def seen_contacts_def fun_eq_iff)
  from sweep_again [OF sweeps.start new_clocks, of 1000 ?cs] obtain f1
    where "sweeps [] 1000 f1" "clock_file f1 (\<lambda>c. if c = ''ann'' then 1000 else 0)" by (auto simp: first)
  from sweep_again [OF this, of 1780 ?cs] obtain f2
    where "sweeps [(''ann'', 1780)] 1780 f2" "clock_file f2 (\<lambda>c. if c = ''ann'' then 1780 else 0)" by (auto simp: clocks cong: if_cong)
  from sweep_again [OF this, of 1800 ?cs] obtain f3
    where "sweeps [(''ann'', 1780)] 1800 f3" "clock_file f3 (\<lambda>c. if c = ''ann'' then 1780 else 0)" by (auto simp: clocks cong: if_cong)
  from sweep_again [OF this, of 2560 ?cs] obtain f4
    where "sweeps [(''ann'', 1780), (''ann'', 2560)] 2560 f4" by (auto simp: clocks cong: if_cong)
  with beats_apart [OF this] show ?thesis by blast
qed

end
