(* ===== verification/Outbox.thy ===== *)
theory Outbox
  imports PyValue
begin

text \<open>
  The bounded executor of \<open>core/background.py\<close>: calls queue in lanes, a lane runs one call at a
  time, and a coalescing call replaces the one that waits in its lane. Every method runs under the
  condition's lock, so it is one step; a worker takes an item in one step, runs it outside the
  lock and ends it in another. What a call does is a value \<open>'c\<close>; an item is an object with an
  identity, its number.
\<close>

section \<open>The executor\<close>

record 'c item =
  it_number :: nat
  it_call :: 'c
  it_key :: string
  it_coalesce :: bool

text \<open>\<open>ob_running\<close> are the items the workers hold; \<open>ob_next\<close> numbers the next new item.\<close>

record 'c outbox =
  ob_max :: nat
  ob_workers :: nat
  ob_pending :: "'c item list"
  ob_coalesced :: "(string \<times> nat) list"
  ob_running_keys :: "string list"
  ob_active :: nat
  ob_closed :: bool
  ob_running :: "'c item list"
  ob_next :: nat

definition new_outbox :: "int \<Rightarrow> int \<Rightarrow> 'c outbox" where
  "new_outbox max_pending workers =
     \<lparr>ob_max = nat (max 1 max_pending), ob_workers = nat (max 1 workers), ob_pending = [], ob_coalesced = [], ob_running_keys = [],
      ob_active = 0, ob_closed = False, ob_running = [], ob_next = 0\<rparr>"

text \<open>A new item at the end of the queue, remembered by its lane when it coalesces.\<close>

definition append_item :: "'c \<Rightarrow> string \<Rightarrow> bool \<Rightarrow> 'c outbox \<Rightarrow> 'c outbox" where
  "append_item call lane coalesce ob =
     ob\<lparr>ob_pending := ob_pending ob @
          [\<lparr>it_number = ob_next ob, it_call = call, it_key = lane, it_coalesce = coalesce\<rparr>],
        ob_coalesced := (if coalesce \<and> lane \<noteq> [] then AList.update lane (ob_next ob) (ob_coalesced ob)
                         else ob_coalesced ob),
        ob_next := Suc (ob_next ob)\<rparr>"

text \<open>The call of the item with a number, replaced.\<close>

definition recall :: "nat \<Rightarrow> 'c \<Rightarrow> 'c outbox \<Rightarrow> 'c outbox" where
  "recall n call ob =
     ob\<lparr>ob_pending := map (\<lambda>i. if it_number i = n then i\<lparr>it_call := call\<rparr> else i) (ob_pending ob)\<rparr>"

definition submit :: "'c \<Rightarrow> string \<Rightarrow> bool \<Rightarrow> 'c outbox \<Rightarrow> 'c outbox \<times> bool" where
  "submit call lane coalesce ob =
     (if ob_closed ob then (ob, False)
      else case (if coalesce \<and> lane \<noteq> [] then map_of (ob_coalesced ob) lane else None) of
             Some n \<Rightarrow> (recall n call ob, True)
           | None \<Rightarrow> if length (ob_pending ob) \<ge> ob_max ob then (ob, False)
                     else (append_item call lane coalesce ob, True))"

text \<open>An item may run when its lane does not.\<close>

definition eligible :: "'c outbox \<Rightarrow> 'c item \<Rightarrow> bool" where
  "eligible ob i \<longleftrightarrow> it_key i = [] \<or> it_key i \<notin> set (ob_running_keys ob)"

text \<open>The first eligible item, and the others in their order.\<close>

fun take_first :: "('a \<Rightarrow> bool) \<Rightarrow> 'a list \<Rightarrow> ('a \<times> 'a list) option" where
  "take_first p [] = None"
| "take_first p (x # xs) =
     (if p x then Some (x, xs)
      else (case take_first p xs of None \<Rightarrow> None | Some (y, ys) \<Rightarrow> Some (y, x # ys)))"

definition next_item :: "'c outbox \<Rightarrow> ('c item \<times> 'c outbox) option" where
  "next_item ob =
     (case take_first (eligible ob) (ob_pending ob) of
        None \<Rightarrow> None
      | Some (i, rest) \<Rightarrow> Some (i, ob\<lparr>ob_pending := rest,
          ob_coalesced := (if it_coalesce i \<and> it_key i \<noteq> [] then AList.delete (it_key i) (ob_coalesced ob)
                           else ob_coalesced ob),
          ob_running_keys := (if it_key i \<noteq> [] then List.insert (it_key i) (ob_running_keys ob)
                              else ob_running_keys ob),
          ob_active := Suc (ob_active ob), ob_running := i # ob_running ob\<rparr>))"

text \<open>The end of a call, whether it returned or raised.\<close>

definition finish_item :: "'c item \<Rightarrow> 'c outbox \<Rightarrow> 'c outbox" where
  "finish_item i ob =
     ob\<lparr>ob_active := ob_active ob - 1,
        ob_running_keys := (if it_key i \<noteq> [] then removeAll (it_key i) (ob_running_keys ob) else ob_running_keys ob),
        ob_running := remove1 i (ob_running ob)\<rparr>"

definition close :: "'c outbox \<Rightarrow> 'c outbox" where
  "close ob = ob\<lparr>ob_closed := True\<rparr>"

text \<open>What \<open>flush\<close> waits for.\<close>

definition idle :: "'c outbox \<Rightarrow> bool" where
  "idle ob \<longleftrightarrow> ob_pending ob = [] \<and> ob_active ob = 0"

section \<open>Runs\<close>

datatype 'c mark = Started "'c item" | Ended "'c item"

text \<open>A step of a worker, with the mark it leaves: a free worker takes an item, a busy one ends its call.\<close>

inductive worker_step :: "'c outbox \<Rightarrow> 'c mark \<Rightarrow> 'c outbox \<Rightarrow> bool" where
  starts: "ob_active ob < ob_workers ob \<Longrightarrow> next_item ob = Some (i, ob') \<Longrightarrow> worker_step ob (Started i) ob'"
| ends: "i \<in> set (ob_running ob) \<Longrightarrow> worker_step ob (Ended i) (finish_item i ob)"

inductive_cases worker_stepE: "worker_step ob m ob'"

text \<open>A run from a new executor, with the marks so far.\<close>

inductive outbox_run :: "'c mark list \<Rightarrow> 'c outbox \<Rightarrow> bool" where
  new: "outbox_run [] (new_outbox max_pending workers)"
| submitted: "outbox_run tr ob \<Longrightarrow> outbox_run tr (fst (submit call lane coalesce ob))"
| worked: "outbox_run tr ob \<Longrightarrow> worker_step ob m ob' \<Longrightarrow> outbox_run (tr @ [m]) ob'"
| closed_down: "outbox_run tr ob \<Longrightarrow> outbox_run tr (close ob)"

end
