(* ===== verification/OutboxSpec.thy ===== *)
theory OutboxSpec
  imports Outbox "HOL-Library.Sublist"
begin

text \<open>
  The executor keeps its promises: a lane runs one call at a time, in submission
  order where it does not mix its kinds of submission, a coalescing lane holds the last submission only, the queue is bounded, and the workers drain it.
\<close>

section \<open>Lanes\<close>

definition of_lane :: "string \<Rightarrow> 'c item list \<Rightarrow> 'c item list" where
  "of_lane k = filter (\<lambda>i. it_key i = k)"

fun mark_item :: "'c mark \<Rightarrow> 'c item" where
  "mark_item (Started i) = i"
| "mark_item (Ended i) = i"

definition lane_marks :: "string \<Rightarrow> 'c mark list \<Rightarrow> 'c mark list" where
  "lane_marks k = filter (\<lambda>m. it_key (mark_item m) = k)"

text \<open>The items a trace starts, in order.\<close>

fun started :: "'c mark list \<Rightarrow> 'c item list" where
  "started [] = []"
| "started (Started i # ms) = i # started ms"
| "started (Ended i # ms) = started ms"

text \<open>Replaying a trace one call at a time: the call that runs after it, if it is such a trace.\<close>

fun replay :: "'c item option \<Rightarrow> 'c mark list \<Rightarrow> 'c item option option" where
  "replay s [] = Some s"
| "replay None (Started i # ms) = replay (Some i) ms"
| "replay (Some i) (Ended j # ms) = (if i = j then replay None ms else None)"
| "replay None (Ended j # ms) = None"
| "replay (Some i) (Started j # ms) = None"

definition one_at_a_time :: "'c mark list \<Rightarrow> bool" where
  "one_at_a_time ms \<longleftrightarrow> replay None ms \<noteq> None"

fun head :: "'a list \<Rightarrow> 'a option" where
  "head [] = None"
| "head (x # xs) = Some x"

lemma replay_append: "replay s (xs @ ys) = Option.bind (replay s xs) (\<lambda>t. replay t ys)"
  by (induction s xs rule: replay.induct) auto

lemma started_append [simp]: "started (xs @ ys) = started xs @ started ys"
  by (induction xs rule: started.induct) auto

lemma lane_marks_append [simp]: "lane_marks k (xs @ ys) = lane_marks k xs @ lane_marks k ys"
  and of_lane_append [simp]: "of_lane k (is @ js) = of_lane k is @ of_lane k js"
  by (simp_all add: lane_marks_def of_lane_def)

lemma of_lane_simps [simp]: "of_lane k [] = []" "of_lane k (i # is) = (if it_key i = k then i # of_lane k is else of_lane k is)"
  by (simp_all add: of_lane_def)

section \<open>The first eligible item\<close>

lemma take_first_None [simp]: "take_first p xs = None \<longleftrightarrow> (\<forall>x\<in>set xs. \<not> p x)"
  by (induction xs) (auto split: option.splits)

lemma take_first_Some:
  "take_first p xs = Some (x, rest) \<Longrightarrow>
     \<exists>before after. xs = before @ x # after \<and> rest = before @ after \<and> p x \<and> (\<forall>y\<in>set before. \<not> p y)"
proof (induction xs arbitrary: rest)
  case (Cons y ys)
  show ?case
  proof (cases "p y")
    case True
    with Cons.prems show ?thesis by - (rule exI [of _ "[]"], rule exI [of _ ys], auto)
  next
    case False
    with Cons.prems obtain rest' where r: "take_first p ys = Some (x, rest')" "rest = y # rest'"
      by (auto split: option.splits)
    from Cons.IH [OF r(1)] obtain before after where "ys = before @ x # after" "rest' = before @ after"
      "p x" "\<forall>z\<in>set before. \<not> p z" by blast
    with r False show ?thesis by - (rule exI [of _ "y # before"], rule exI [of _ after], auto)
  qed
qed simp

text \<open>The waiting items of a lane: the one that starts was the lane's first.\<close>

lemma next_item_split:
  assumes "next_item ob = Some (i, ob')"
  obtains before after where "ob_pending ob = before @ i # after" and "ob_pending ob' = before @ after"
    and "eligible ob i" and "it_key i \<noteq> [] \<Longrightarrow> of_lane (it_key i) before = []"
    and "ob_running ob' = i # ob_running ob" and "ob_active ob' = Suc (ob_active ob)"
    and "ob_coalesced ob' = (if it_coalesce i \<and> it_key i \<noteq> [] then AList.delete (it_key i) (ob_coalesced ob) else ob_coalesced ob)"
    and "set (ob_running_keys ob') = (if it_key i \<noteq> [] then insert (it_key i) (set (ob_running_keys ob)) else set (ob_running_keys ob))"
    and "ob_max ob' = ob_max ob" and "ob_workers ob' = ob_workers ob" and "ob_next ob' = ob_next ob"
proof -
  from assms obtain rest where t: "take_first (eligible ob) (ob_pending ob) = Some (i, rest)"
    by (auto simp: next_item_def split: option.splits)
  from take_first_Some [OF t] obtain before after where s: "ob_pending ob = before @ i # after"
    "rest = before @ after" "eligible ob i" "\<forall>j\<in>set before. \<not> eligible ob j" by blast
  have "of_lane (it_key i) before = []"
    using s(3,4) by (auto simp: of_lane_def eligible_def filter_empty_conv)
  with s assms t that show ?thesis by (auto simp: next_item_def)
qed

section \<open>The invariant\<close>

text \<open>The items of a coalescing lane that wait for it.\<close>

definition waiting :: "string \<Rightarrow> 'c item list \<Rightarrow> 'c item list" where
  "waiting k = filter (\<lambda>i. it_key i = k \<and> it_coalesce i)"

lemma waiting_append [simp]: "waiting k (is @ js) = waiting k is @ waiting k js"
  and waiting_simps [simp]: "waiting k [] = []"
    "waiting k (i # is) = (if it_key i = k \<and> it_coalesce i then i # waiting k is else waiting k is)"
  by (simp_all add: waiting_def)

definition counts_ok :: "'c outbox \<Rightarrow> bool" where
  "counts_ok ob \<longleftrightarrow> length (ob_pending ob) \<le> ob_max ob \<and> ob_active ob = length (ob_running ob)
     \<and> ob_active ob \<le> ob_workers ob \<and> 0 < ob_workers ob"

definition numbers_ok :: "'c outbox \<Rightarrow> bool" where
  "numbers_ok ob \<longleftrightarrow> sorted_wrt (<) (map it_number (ob_pending ob)) \<and> (\<forall>i\<in>set (ob_pending ob). it_number i < ob_next ob)"

definition coalesced_ok :: "'c outbox \<Rightarrow> bool" where
  "coalesced_ok ob \<longleftrightarrow>
     (\<forall>k. k \<noteq> [] \<longrightarrow> map it_number (waiting k (ob_pending ob)) = (case map_of (ob_coalesced ob) k of None \<Rightarrow> [] | Some n \<Rightarrow> [n]))"

definition lane_ok :: "'c mark list \<Rightarrow> 'c outbox \<Rightarrow> string \<Rightarrow> bool" where
  "lane_ok tr ob k \<longleftrightarrow>
     length (of_lane k (ob_running ob)) \<le> 1 \<and> (k \<in> set (ob_running_keys ob) \<longleftrightarrow> of_lane k (ob_running ob) \<noteq> [])
     \<and> replay None (lane_marks k tr) = Some (head (of_lane k (ob_running ob)))
     \<and> sorted_wrt (<) (map it_number (started (lane_marks k tr) @ of_lane k (ob_pending ob)))
     \<and> (\<forall>i\<in>set (started (lane_marks k tr)). it_number i < ob_next ob)"

definition outbox_inv :: "'c mark list \<Rightarrow> 'c outbox \<Rightarrow> bool" where
  "outbox_inv tr ob \<longleftrightarrow> counts_ok ob \<and> numbers_ok ob \<and> coalesced_ok ob \<and> (\<forall>k. k \<noteq> [] \<longrightarrow> lane_ok tr ob k)"

lemmas outbox_inv_defs = outbox_inv_def counts_ok_def numbers_ok_def coalesced_ok_def lane_ok_def

lemma inv_new: "outbox_inv [] (new_outbox n w)"
  by (auto simp: outbox_inv_defs new_outbox_def lane_marks_def)

lemma inv_close: "outbox_inv tr ob \<Longrightarrow> outbox_inv tr (close ob)"
  by (simp add: outbox_inv_defs close_def)

section \<open>Submission\<close>

lemma map_call_number [simp]:
  "map it_number (map (\<lambda>i. if it_number i = n then i\<lparr>it_call := c\<rparr> else i) is) = map it_number is"
  by (induction "is") auto

lemma of_lane_call:
  "map it_number (of_lane k (map (\<lambda>i. if it_number i = n then i\<lparr>it_call := c\<rparr> else i) is)) = map it_number (of_lane k is)"
  by (induction "is") auto

lemma waiting_call:
  "waiting k (map (\<lambda>i. if it_number i = n then i\<lparr>it_call := c\<rparr> else i) is)
   = map (\<lambda>i. if it_number i = n then i\<lparr>it_call := c\<rparr> else i) (waiting k is)"
  by (induction "is") auto

lemma inv_recall:
  assumes "outbox_inv tr ob"
  shows "outbox_inv tr (recall n c ob)"
  using assms by (auto simp: outbox_inv_defs recall_def of_lane_call waiting_call simp del: map_map)

lemma of_lane_sub: "set (of_lane k is) \<subseteq> set is"
  by (auto simp: of_lane_def)

lemma inv_add:
  assumes inv: "outbox_inv tr ob" and room: "length (ob_pending ob) < ob_max ob"
    and fresh: "coalesce \<Longrightarrow> lane \<noteq> [] \<Longrightarrow> map_of (ob_coalesced ob) lane = None"
  shows "outbox_inv tr (append_item call lane coalesce ob)" (is "outbox_inv tr ?ob")
proof -
  have "counts_ok ?ob" using inv room by (simp add: append_item_def outbox_inv_defs)
  moreover have "numbers_ok ?ob" using inv by (auto simp: append_item_def outbox_inv_def numbers_ok_def sorted_wrt_append)
  moreover have "coalesced_ok ?ob"
    using inv fresh by (auto simp: append_item_def outbox_inv_def coalesced_ok_def update_conv)
  moreover have "lane_ok tr ?ob k" if "k \<noteq> []" for k
    using inv that of_lane_sub [of k "ob_pending ob"]
    by (auto simp: append_item_def outbox_inv_def lane_ok_def numbers_ok_def sorted_wrt_append less_Suc_eq)
  ultimately show ?thesis by (simp add: append_item_def outbox_inv_def)
qed

lemma inv_submit:
  assumes inv: "outbox_inv tr ob"
  shows "outbox_inv tr (fst (submit call lane coalesce ob))"
  using inv by (auto simp: submit_def not_le intro: inv_recall inv_add split: option.split)

section \<open>The workers\<close>

lemma map_of_delete: "map_of (AList.delete k al) l = (if l = k then None else map_of al l)"
  by (simp add: delete_conv)

lemma inv_start:
  assumes inv: "outbox_inv tr ob" and free: "ob_active ob < ob_workers ob" and n: "next_item ob = Some (i, ob')"
  shows "outbox_inv (tr @ [Started i]) ob'"
proof -
  from n obtain before after where s: "ob_pending ob = before @ i # after" "ob_pending ob' = before @ after"
    "eligible ob i" "it_key i \<noteq> [] \<Longrightarrow> of_lane (it_key i) before = []"
    "ob_running ob' = i # ob_running ob" "ob_active ob' = Suc (ob_active ob)"
    "ob_coalesced ob' = (if it_coalesce i \<and> it_key i \<noteq> [] then AList.delete (it_key i) (ob_coalesced ob) else ob_coalesced ob)"
    "set (ob_running_keys ob') = (if it_key i \<noteq> [] then insert (it_key i) (set (ob_running_keys ob)) else set (ob_running_keys ob))"
    "ob_max ob' = ob_max ob" "ob_workers ob' = ob_workers ob" "ob_next ob' = ob_next ob"
    by (rule next_item_split) (rule that; assumption)
  have "counts_ok ob'" using inv free s by (simp add: outbox_inv_def counts_ok_def)
  moreover have "numbers_ok ob'"
    using inv s by (auto simp: outbox_inv_def numbers_ok_def sorted_wrt_append)
  moreover have "coalesced_ok ob'"
    unfolding coalesced_ok_def
  proof (intro allI impI)
    fix k :: string assume k: "k \<noteq> []"
    with inv have "map it_number (waiting k (ob_pending ob)) = (case map_of (ob_coalesced ob) k of None \<Rightarrow> [] | Some n \<Rightarrow> [n])"
      by (simp add: outbox_inv_def coalesced_ok_def)
    with k show "map it_number (waiting k (ob_pending ob')) = (case map_of (ob_coalesced ob') k of None \<Rightarrow> [] | Some n \<Rightarrow> [n])"
      unfolding s(1,2,7)
      by (cases "it_key i = k \<and> it_coalesce i")
        (auto simp: map_of_delete append_eq_Cons_conv split: option.splits)
  qed
  moreover have "lane_ok (tr @ [Started i]) ob' k" if k: "k \<noteq> []" for k
  proof (cases "it_key i = k")
    case True
    with inv k have l: "lane_ok tr ob k" by (simp add: outbox_inv_def)
    from s(3) k True have "k \<notin> set (ob_running_keys ob)" by (simp add: eligible_def)
    with l have "of_lane k (ob_running ob) = []" by (simp add: lane_ok_def)
    moreover have "it_number i < ob_next ob" using inv s(1) by (simp add: outbox_inv_def numbers_ok_def)
    ultimately show ?thesis
      using l True k s by (auto simp: lane_ok_def replay_append lane_marks_def)
  next
    case False
    with inv k have "lane_ok tr ob k" by (simp add: outbox_inv_def)
    with False s show ?thesis by (auto simp: lane_ok_def lane_marks_def)
  qed
  ultimately show ?thesis by (simp add: outbox_inv_def)
qed

lemma of_lane_remove1: "of_lane k (remove1 i is) = remove1 i (of_lane k is)"
  by (simp add: of_lane_def filter_remove1)

lemma inv_end:
  assumes inv: "outbox_inv tr ob" and i: "i \<in> set (ob_running ob)"
  shows "outbox_inv (tr @ [Ended i]) (finish_item i ob)"
proof -
  have "counts_ok (finish_item i ob)"
    using inv i by (auto simp: outbox_inv_def counts_ok_def finish_item_def length_remove1)
  moreover have "numbers_ok (finish_item i ob)" "coalesced_ok (finish_item i ob)"
    using inv by (auto simp: outbox_inv_defs finish_item_def)
  moreover have "lane_ok (tr @ [Ended i]) (finish_item i ob) k" if k: "k \<noteq> []" for k
  proof (cases "it_key i = k")
    case True
    with inv k have l: "lane_ok tr ob k" by (simp add: outbox_inv_def)
    from i True have "i \<in> set (of_lane k (ob_running ob))" by (simp add: of_lane_def)
    with l have "of_lane k (ob_running ob) = [i]"
      by (cases "of_lane k (ob_running ob)") (auto simp: lane_ok_def)
    with l True k show ?thesis
      by (auto simp: lane_ok_def finish_item_def of_lane_remove1 replay_append lane_marks_def)
  next
    case False
    with inv k have "lane_ok tr ob k" by (simp add: outbox_inv_def)
    moreover from False have "i \<notin> set (of_lane k (ob_running ob))" by (simp add: of_lane_def)
    ultimately show ?thesis
      using False by (auto simp: lane_ok_def finish_item_def of_lane_remove1 remove1_idem lane_marks_def)
  qed
  ultimately show ?thesis by (simp add: outbox_inv_def)
qed

lemma inv_worked: "outbox_inv tr ob \<Longrightarrow> worker_step ob m ob' \<Longrightarrow> outbox_inv (tr @ [m]) ob'"
  by (erule worker_stepE) (auto intro: inv_start inv_end)

lemma outbox_run_inv: "outbox_run tr ob \<Longrightarrow> outbox_inv tr ob"
  by (induction rule: outbox_run.induct) (simp_all add: inv_new inv_submit inv_worked inv_close)

section \<open>Properties of every run\<close>

text \<open>
  A run with its history: the submissions that were accepted, in their order, each with its call,
  its lane and whether it coalesces.
\<close>

inductive outbox_log :: "('c \<times> string \<times> bool) list \<Rightarrow> 'c mark list \<Rightarrow> 'c outbox \<Rightarrow> bool" where
  new_log: "outbox_log [] [] (new_outbox max_pending workers)"
| submit_log: "outbox_log h tr ob \<Longrightarrow> submit call lane coalesce ob = (ob', accepted) \<Longrightarrow>
    outbox_log (if accepted then h @ [(call, lane, coalesce)] else h) tr ob'"
| work_log: "outbox_log h tr ob \<Longrightarrow> worker_step ob m ob' \<Longrightarrow> outbox_log h (tr @ [m]) ob'"
| close_log: "outbox_log h tr ob \<Longrightarrow> outbox_log h tr (close ob)"

lemma log_run: "outbox_log h tr ob \<Longrightarrow> outbox_run tr ob"
proof (induction rule: outbox_log.induct)
  case (submit_log h tr ob call lane coalesce ob' accepted)
  then show ?case using outbox_run.submitted [of tr ob call lane coalesce] by simp
qed (auto intro: outbox_run.intros)

text \<open>The calls a lane was given, and those it ran or still holds.\<close>

definition given_calls :: "string \<Rightarrow> ('c \<times> string \<times> bool) list \<Rightarrow> 'c list" where
  "given_calls k h = map fst (filter (\<lambda>(c, l, co). l = k) h)"

definition lane_calls :: "string \<Rightarrow> 'c mark list \<Rightarrow> 'c outbox \<Rightarrow> 'c list" where
  "lane_calls k tr ob = map it_call (started (lane_marks k tr) @ of_lane k (ob_pending ob))"

lemma given_calls_append [simp]:
  "given_calls k (h @ [(c, l, co)]) = given_calls k h @ (if l = k then [c] else [])"
  by (simp add: given_calls_def)

text \<open>A step of a worker moves the first call of a lane from the queue to the trace.\<close>

lemma step_calls:
  assumes "worker_step ob m ob'" and "k \<noteq> []"
  shows "lane_calls k (tr @ [m]) ob' = lane_calls k tr ob \<and> set (ob_pending ob') \<subseteq> set (ob_pending ob)"
proof (rule worker_stepE [OF assms(1)])
  fix i assume m: "m = Started i" and n: "next_item ob = Some (i, ob')"
  obtain before after where "ob_pending ob = before @ i # after" "ob_pending ob' = before @ after"
    and "it_key i \<noteq> [] \<Longrightarrow> of_lane (it_key i) before = []"
    using n by (rule next_item_split) (rule that; assumption)
  then show ?thesis using m assms(2) by (auto simp: lane_calls_def lane_marks_def)
next
  fix i assume "m = Ended i" and "ob' = finish_item i ob"
  then show ?thesis by (simp add: lane_calls_def lane_marks_def finish_item_def)
qed

text \<open>The item a coalescing submission recalls is the one that waits in its lane.\<close>

lemma recalled_item:
  assumes inv: "outbox_inv tr ob" and c: "map_of (ob_coalesced ob) l = Some n" and "l \<noteq> []"
  obtains j where "waiting l (ob_pending ob) = [j]" and "it_number j = n" and "it_key j = l"
    and "\<And>i. i \<in> set (ob_pending ob) \<Longrightarrow> it_number i = n \<Longrightarrow> i = j"
proof -
  from assms have "map it_number (waiting l (ob_pending ob)) = [n]"
    by (simp add: outbox_inv_def coalesced_ok_def)
  then obtain j where j: "waiting l (ob_pending ob) = [j]" "it_number j = n" by auto
  then have "j \<in> set (ob_pending ob)" and "it_key j = l"
    by (auto simp: waiting_def filter_eq_Cons_iff)
  moreover have "inj_on it_number (set (ob_pending ob))"
    using inv by (simp add: outbox_inv_def numbers_ok_def strict_sorted_iff distinct_map)
  ultimately show thesis using j that by (metis inj_on_eq_iff)
qed

lemma recall_other_lane:
  assumes inv: "outbox_inv tr ob" and c: "map_of (ob_coalesced ob) l = Some n" and "l \<noteq> []" and "l \<noteq> k"
  shows "of_lane k (ob_pending (recall n call ob)) = of_lane k (ob_pending ob)"
proof -
  obtain j where j: "it_key j = l" "\<And>i. i \<in> set (ob_pending ob) \<Longrightarrow> it_number i = n \<Longrightarrow> i = j"
    using inv c assms(3) by (rule recalled_item) (rule that; assumption)
  have "of_lane k (map (\<lambda>i. if it_number i = n then i\<lparr>it_call := call\<rparr> else i) is) = of_lane k is"
    if "set is \<subseteq> set (ob_pending ob)" for "is"
    using that j assms(4) by (induction "is") auto
  then show ?thesis by (simp add: recall_def)
qed

text \<open>What an accepted submission does to the calls of its lane and of the others.\<close>

lemma submit_calls:
  assumes inv: "outbox_inv tr ob" and s: "submit call l co ob = (ob', True)" and k: "k \<noteq> []"
  shows "l \<noteq> k \<Longrightarrow> of_lane k (ob_pending ob') = of_lane k (ob_pending ob)"
    and "\<not> co \<Longrightarrow> of_lane l (ob_pending ob') = of_lane l (ob_pending ob)
      @ [\<lparr>it_number = ob_next ob, it_call = call, it_key = l, it_coalesce = co\<rparr>]"
    and "co \<Longrightarrow> l = k \<Longrightarrow> \<forall>i \<in> set (of_lane k (ob_pending ob)). it_coalesce i \<Longrightarrow>
      map it_call (of_lane k (ob_pending ob')) = [call]"
    and "\<forall>i \<in> set (ob_pending ob'). (it_key i, it_coalesce i)
      \<in> insert (l, co) ((\<lambda>i. (it_key i, it_coalesce i)) ` set (ob_pending ob))"
proof -
  consider (recall) n where "co" "l \<noteq> []" "map_of (ob_coalesced ob) l = Some n" "ob' = recall n call ob"
    | (append) "ob' = append_item call l co ob" "co \<Longrightarrow> l \<noteq> [] \<Longrightarrow> map_of (ob_coalesced ob) l = None"
    using s by (auto simp: submit_def split: if_splits option.splits)
  note cases = this
  show "l \<noteq> k \<Longrightarrow> of_lane k (ob_pending ob') = of_lane k (ob_pending ob)"
    by (cases rule: cases) (use recall_other_lane [OF inv] in \<open>auto simp: append_item_def\<close>)
  show "\<not> co \<Longrightarrow> of_lane l (ob_pending ob') = of_lane l (ob_pending ob)
      @ [\<lparr>it_number = ob_next ob, it_call = call, it_key = l, it_coalesce = co\<rparr>]"
    by (cases rule: cases) (auto simp: append_item_def)
  show "\<forall>i \<in> set (ob_pending ob'). (it_key i, it_coalesce i)
      \<in> insert (l, co) ((\<lambda>i. (it_key i, it_coalesce i)) ` set (ob_pending ob))"
    by (cases rule: cases) (auto simp: append_item_def recall_def)
  assume co: "co" "l = k" and all: "\<forall>i \<in> set (of_lane k (ob_pending ob)). it_coalesce i"
  have w: "of_lane k (ob_pending ob) = waiting k (ob_pending ob)"
    using all by (auto simp: of_lane_def waiting_def intro: filter_cong)
  show "map it_call (of_lane k (ob_pending ob')) = [call]"
  proof (cases rule: cases)
    case (recall n)
    then obtain j where j: "waiting k (ob_pending ob) = [j]" "it_number j = n"
      using inv co k by (metis recalled_item)
    have "of_lane k (ob_pending (recall n call ob))
        = map (\<lambda>i. if it_number i = n then i\<lparr>it_call := call\<rparr> else i) (of_lane k (ob_pending ob))"
      by (simp add: recall_def of_lane_def filter_map comp_def if_distrib [of it_key] cong: if_cong)
    with w j recall(4) show ?thesis by simp
  next
    case append
    with inv k co have "map it_number (waiting k (ob_pending ob)) = []"
      by (simp add: outbox_inv_def coalesced_ok_def)
    with w append(1) co show ?thesis by (simp add: append_item_def)
  qed
qed

lemma log_kinds:
  assumes "outbox_log h tr ob"
  shows "\<forall>i \<in> set (ob_pending ob). \<exists>c. (c, it_key i, it_coalesce i) \<in> set h"
  using assms
proof (induction rule: outbox_log.induct)
  case (submit_log h tr ob call lane coalesce ob' accepted)
  show ?case
  proof (cases accepted)
    case True
    show ?thesis
    proof
      fix i assume "i \<in> set (ob_pending ob')"
      with submit_calls(4) [OF outbox_run_inv [OF log_run [OF submit_log(1)]], of call lane coalesce ob' "''k''"]
        submit_log(2) True have "(it_key i, it_coalesce i) = (lane, coalesce)
          \<or> (\<exists>j \<in> set (ob_pending ob). (it_key i, it_coalesce i) = (it_key j, it_coalesce j))"
        by fastforce
      then have "(it_key i, it_coalesce i) = (lane, coalesce) \<or> (\<exists>c. (c, it_key i, it_coalesce i) \<in> set h)"
        using submit_log.IH by (metis prod.inject)
      then show "\<exists>c. (c, it_key i, it_coalesce i)
          \<in> set (if accepted then h @ [(call, lane, coalesce)] else h)" using True by auto
    qed
  next
    case False
    with submit_log show ?thesis by (auto simp: submit_def split: if_splits option.splits)
  qed
next
  case (work_log h tr ob m ob')
  then show ?case using step_calls [OF work_log(2), of "''k''"] by blast
qed (simp_all add: new_outbox_def close_def)

lemma plain_calls:
  assumes "outbox_log h tr ob" and k: "k \<noteq> []" and "\<forall>(c, l, co) \<in> set h. l = k \<longrightarrow> \<not> co"
  shows "lane_calls k tr ob = given_calls k h"
  using assms(1,3)
proof (induction rule: outbox_log.induct)
  case (new_log n w)
  then show ?case by (simp add: lane_calls_def given_calls_def lane_marks_def new_outbox_def)
next
  case (submit_log h tr ob call l co ob' accepted)
  note inv = outbox_run_inv [OF log_run [OF submit_log(1)]]
  show ?case
  proof (cases accepted)
    case True
    with submit_log have s: "submit call l co ob = (ob', True)" and ih: "lane_calls k tr ob = given_calls k h"
      and plain: "l = k \<Longrightarrow> \<not> co" by auto
    show ?thesis
      using submit_calls(1,2) [OF inv s k] True ih plain by (cases "l = k") (auto simp: lane_calls_def)
  next
    case False
    with submit_log show ?thesis by (auto simp: submit_def split: if_splits option.splits)
  qed
next
  case (work_log h tr ob m ob')
  then show ?case using step_calls [OF work_log(2) k] by simp
next
  case (close_log h tr ob)
  then show ?case by (simp add: lane_calls_def close_def)
qed

lemma coalescing_calls:
  assumes "outbox_log h tr ob" and k: "k \<noteq> []" and "\<forall>(c, l, co) \<in> set h. l = k \<longrightarrow> co"
  shows "subseq (lane_calls k tr ob) (given_calls k h)
    \<and> (given_calls k h \<noteq> [] \<longrightarrow> lane_calls k tr ob \<noteq> []
         \<and> last (lane_calls k tr ob) = last (given_calls k h))"
  using assms(1,3)
proof (induction rule: outbox_log.induct)
  case (new_log n w)
  then show ?case by (simp add: lane_calls_def given_calls_def lane_marks_def new_outbox_def)
next
  case (submit_log h tr ob call l co ob' accepted)
  note inv = outbox_run_inv [OF log_run [OF submit_log(1)]]
  show ?case
  proof (cases accepted)
    case True
    with submit_log have s: "submit call l co ob = (ob', True)" and kinds: "l = k \<Longrightarrow> co"
      and sub: "subseq (lane_calls k tr ob) (given_calls k h)"
      and tail: "given_calls k h \<noteq> [] \<longrightarrow> lane_calls k tr ob \<noteq> []
         \<and> last (lane_calls k tr ob) = last (given_calls k h)" by auto
    show ?thesis
    proof (cases "l = k")
      case True
      have "\<forall>i \<in> set (of_lane k (ob_pending ob)). it_coalesce i"
        using log_kinds [OF submit_log(1)] submit_log(4) by (fastforce simp: of_lane_def split: if_splits)
      with submit_calls(3) [OF inv s k] True kinds have c: "map it_call (of_lane k (ob_pending ob')) = [call]"
        by blast
      have "subseq (map it_call (started (lane_marks k tr))) (given_calls k h)"
      proof (rule subseq_order.trans)
        show "subseq (map it_call (started (lane_marks k tr))) (lane_calls k tr ob)"
          by (simp add: lane_calls_def prefix_imp_subseq)
      qed (rule sub)
      then have "subseq (map it_call (started (lane_marks k tr)) @ [call]) (given_calls k h @ [call])"
        by (intro list_emb_append_mono) simp_all
      with c True \<open>accepted\<close> show ?thesis by (simp add: lane_calls_def)
    next
      case False
      with submit_calls(1) [OF inv s k] sub tail \<open>accepted\<close> show ?thesis by (simp add: lane_calls_def)
    qed
  next
    case False
    with submit_log show ?thesis by (auto simp: submit_def split: if_splits option.splits)
  qed
next
  case (work_log h tr ob m ob')
  then show ?case using step_calls [OF work_log(2) k] by simp
next
  case (close_log h tr ob)
  then show ?case by (simp add: lane_calls_def close_def)
qed

text \<open>
  C28: In every run the calls of a lane execute one at a time, each started only after the one
  before it ended. A lane whose submissions never coalesce runs every call it accepted, in the
  order of acceptance: what it started, followed by what waits, is exactly what it was given. A
  lane whose submissions all coalesce runs some of them, in the order of acceptance, and never
  loses the newest. (A lane that mixes both kinds keeps neither order, see below.)
\<close>

theorem lane_in_order:
  assumes "outbox_log h tr ob" and "k \<noteq> []"
  shows "one_at_a_time (lane_marks k tr)
    \<and> ((\<forall>(c, l, co) \<in> set h. l = k \<longrightarrow> \<not> co) \<longrightarrow> lane_calls k tr ob = given_calls k h)
    \<and> ((\<forall>(c, l, co) \<in> set h. l = k \<longrightarrow> co) \<longrightarrow> subseq (lane_calls k tr ob) (given_calls k h)
        \<and> (given_calls k h \<noteq> [] \<longrightarrow> lane_calls k tr ob \<noteq> []
             \<and> last (lane_calls k tr ob) = last (given_calls k h)))"
proof -
  have "one_at_a_time (lane_marks k tr)"
    using outbox_run_inv [OF log_run [OF assms(1)]] assms(2)
    by (simp add: outbox_inv_def lane_ok_def one_at_a_time_def)
  then show ?thesis using plain_calls [OF assms] coalescing_calls [OF assms] by blast
qed

text \<open>
  A plain call that is queued behind a coalescing one of its lane is overtaken by a later
  coalescing call, which takes the place of the first one.
\<close>

lemma mixed_lane_overtakes:
  "map it_call (ob_pending (fst (submit (2::int) ''room'' True (fst (submit 1 ''room'' False
     (fst (submit 0 ''room'' True (new_outbox 8 2)))))))) = [2, 1]"
  by (simp add: submit_def append_item_def recall_def new_outbox_def)

text \<open>The queue never passes its bound, never more calls run than there are workers, and a coalescing
  submission that is accepted leaves exactly one coalescing call waiting in its lane, the one submitted.\<close>

theorem latest_call_waits:
  assumes "outbox_run tr ob" and "k \<noteq> []" and "submit call k True ob = (ob', True)"
  shows "map it_call (waiting k (ob_pending ob')) = [call] \<and> length (ob_pending ob') \<le> ob_max ob'
         \<and> length (ob_running ob') \<le> ob_workers ob'"
proof -
  note inv = outbox_run_inv [OF assms(1)]
  have "outbox_inv tr ob'" using inv_submit [OF inv, of call k True] assms(3) by simp
  moreover have w: "map it_number (waiting k (ob_pending ob)) = (case map_of (ob_coalesced ob) k of None \<Rightarrow> [] | Some n \<Rightarrow> [n])"
    using inv assms(2) by (simp add: outbox_inv_def coalesced_ok_def)
  have "map it_call (waiting k (ob_pending ob')) = [call]"
  proof (cases "map_of (ob_coalesced ob) k")
    case None
    with assms(2,3) w show ?thesis by (auto simp: submit_def append_item_def split: if_splits)
  next
    case (Some n)
    with w obtain i where i: "waiting k (ob_pending ob) = [i]" "it_number i = n" by auto
    from Some assms(2,3) have "ob' = recall n call ob"
      by (auto simp: submit_def split: if_splits)
    with i show ?thesis by (simp add: recall_def waiting_call)
  qed
  ultimately show ?thesis by (simp add: outbox_inv_def counts_ok_def)
qed

section \<open>The queue drains\<close>

inductive worker_run :: "'c outbox \<Rightarrow> 'c mark list \<Rightarrow> 'c outbox \<Rightarrow> bool" where
  rests: "worker_run ob [] ob"
| works: "worker_run ob ms ob' \<Longrightarrow> worker_step ob' m ob'' \<Longrightarrow> worker_run ob (ms @ [m]) ob''"

definition work_left :: "'c outbox \<Rightarrow> nat" where
  "work_left ob = 2 * length (ob_pending ob) + length (ob_running ob)"

lemma step_works: "worker_step ob m ob' \<Longrightarrow> work_left ob = Suc (work_left ob')"
proof (erule worker_stepE)
  fix i assume "next_item ob = Some (i, ob')"
  then show ?thesis by (rule next_item_split) (simp add: work_left_def)
next
  fix i assume "ob' = finish_item i ob" "i \<in> set (ob_running ob)"
  then show ?thesis by (auto simp: work_left_def finish_item_def length_remove1 dest: length_pos_if_in_set)
qed

lemma run_continues: "worker_run ob ms ob' \<Longrightarrow> outbox_run tr ob \<Longrightarrow> outbox_run (tr @ ms) ob'"
proof (induction rule: worker_run.induct)
  case (works ob ms ob' m ob'')
  then show ?case using outbox_run.worked [of "tr @ ms" ob' m ob''] by simp
qed simp

lemma run_works: "worker_run ob ms ob' \<Longrightarrow> work_left ob = length ms + work_left ob'"
  by (induction rule: worker_run.induct) (auto dest: step_works)

text \<open>A worker can take a step unless nothing is left: with no call running every waiting item is eligible.\<close>

lemma never_stuck:
  assumes "outbox_inv tr ob" and "\<not> idle ob"
  shows "\<exists>m ob'. worker_step ob m ob'"
proof (cases "ob_running ob")
  case Nil
  have e: "eligible ob j" for j
    using assms(1) Nil by (cases "it_key j = []") (auto simp: eligible_def outbox_inv_def lane_ok_def)
  from assms Nil obtain j js where p: "ob_pending ob = j # js" and a: "ob_active ob < ob_workers ob"
    by (cases "ob_pending ob") (auto simp: idle_def outbox_inv_def counts_ok_def)
  have "next_item ob \<noteq> None" by (simp add: next_item_def p e)
  then obtain x where "next_item ob = Some x" by auto
  then show ?thesis using worker_step.starts [OF a] by (cases x) blast
next
  case (Cons i js)
  then show ?thesis using worker_step.ends [of i ob] by auto
qed

lemma idle_left: "outbox_inv tr ob \<Longrightarrow> idle ob \<longleftrightarrow> work_left ob = 0"
  by (auto simp: idle_def work_left_def outbox_inv_def counts_ok_def)

text \<open>C29: The workers drain the queue: from every state of a run they take at most two steps for each
  waiting call and one for each running call, they can always take the next one until nothing is left,
  and once they have taken that many the executor is idle.\<close>

theorem queue_drains:
  assumes "outbox_run tr ob" and "worker_run ob ms ob'"
  shows "length ms \<le> 2 * length (ob_pending ob) + length (ob_running ob)
         \<and> (idle ob' \<longleftrightarrow> length ms = 2 * length (ob_pending ob) + length (ob_running ob))
         \<and> (idle ob' \<or> (\<exists>m ob''. worker_step ob' m ob''))"
proof -
  have inv: "outbox_inv (tr @ ms) ob'" using outbox_run_inv run_continues [OF assms(2,1)] by blast
  show ?thesis
    using run_works [OF assms(2)] idle_left [OF inv] never_stuck [OF inv] by (auto simp: work_left_def)
qed

section \<open>Two calls of a lane\<close>

definition two_queued :: "string outbox" where
  "two_queued = fst (submit ''second'' ''room'' False (fst (submit ''first'' ''room'' False (new_outbox 8 2))))"

definition first_call :: "string item" where
  "first_call = \<lparr>it_number = 0, it_call = ''first'', it_key = ''room'', it_coalesce = False\<rparr>"

definition second_call :: "string item" where
  "second_call = \<lparr>it_number = 1, it_call = ''second'', it_key = ''room'', it_coalesce = False\<rparr>"

definition first_taken :: "string outbox" where
  "first_taken = two_queued\<lparr>ob_pending := [second_call], ob_running_keys := [''room''], ob_active := 1,
     ob_running := [first_call]\<rparr>"

definition second_taken :: "string outbox" where
  "second_taken = two_queued\<lparr>ob_pending := [], ob_running_keys := [''room''], ob_active := 1,
     ob_running := [second_call]\<rparr>"

lemmas two_calls = two_queued_def first_call_def second_call_def first_taken_def second_taken_def
  submit_def append_item_def new_outbox_def next_item_def eligible_def finish_item_def

lemma two_queued_run: "outbox_run [] two_queued"
  unfolding two_queued_def by (intro outbox_run.intros)

lemma two_calls_run: "worker_run two_queued [Started first_call, Ended first_call, Started second_call] second_taken"
proof -
  have "worker_step two_queued (Started first_call) first_taken"
    by (rule worker_step.starts) (simp_all add: two_calls)
  moreover have "worker_step first_taken (Ended first_call) (finish_item first_call first_taken)"
    by (rule worker_step.ends) (simp add: two_calls)
  moreover have "worker_step (finish_item first_call first_taken) (Started second_call) second_taken"
    by (rule worker_step.starts) (simp_all add: two_calls)
  ultimately show ?thesis
    using worker_run.rests worker_run.works [of two_queued "[]"] worker_run.works [of two_queued "[_]"]
      worker_run.works [of two_queued "[_, _]"] by (metis append_Cons append_Nil)
qed

lemma log_continues: "worker_run ob ms ob' \<Longrightarrow> outbox_log h tr ob \<Longrightarrow> outbox_log h (tr @ ms) ob'"
proof (induction rule: worker_run.induct)
  case (works ob ms ob' m ob'')
  then show ?case using outbox_log.work_log [of h "tr @ ms" ob' m ob''] by simp
qed simp

lemma two_queued_log: "outbox_log [(''first'', ''room'', False), (''second'', ''room'', False)] [] two_queued"
proof -
  obtain ob1 where 1: "submit ''first'' ''room'' False (new_outbox 8 2) = (ob1, True)"
    by (simp add: submit_def new_outbox_def)
  obtain ob2 where 2: "submit ''second'' ''room'' False ob1 = (ob2, True)"
    using 1 by (auto simp: submit_def new_outbox_def append_item_def)
  have "ob2 = two_queued" by (simp add: two_queued_def 1 2)
  with outbox_log.submit_log [OF outbox_log.submit_log [OF outbox_log.new_log 1] 2] show ?thesis by simp
qed

theorem lane_in_order_witness:
  "one_at_a_time [Started first_call, Ended first_call, Started second_call]
   \<and> lane_calls ''room'' [Started first_call, Ended first_call, Started second_call] second_taken
     = [''first'', ''second'']"
  using lane_in_order [OF log_continues [OF two_calls_run two_queued_log], of "''room''"]
  by (simp add: lane_marks_def first_call_def second_call_def given_calls_def)

theorem queue_drains_witness:
  "\<not> idle second_taken \<and> (\<exists>m ob''. worker_step second_taken m ob'')"
  using queue_drains [OF two_queued_run two_calls_run] by (auto simp: idle_def second_taken_def)

theorem latest_call_waits_witness:
  "map it_call (waiting ''room'' (ob_pending (fst (submit ''new'' ''room'' True (fst (submit ''old'' ''room'' True (new_outbox 8 2)))))))
   = [''new'']"
proof -
  let ?ob = "fst (submit ''old'' ''room'' True (new_outbox 8 2))"
  have "outbox_run [] ?ob" by (intro outbox_run.intros)
  from latest_call_waits [OF this, of "''room''" "''new''"] show ?thesis
    by (simp add: submit_def append_item_def new_outbox_def recall_def)
qed

end
