(* ===== verification/CallState.thy ===== *)
theory CallState
  imports JsonFile "HOL-Library.Product_Lexorder"
begin

text \<open>
  The document of the calls between agents (\<open>core/work_updates.py\<close>): the journal of mutations that
  are not delivered yet, receipts of accepted ones, and for every contact the calls and tasks it
  knows. Every read prunes the document. A document is a dictionary as the module writes it; of
  what is not converted by the code, any value is allowed.
\<close>

section \<open>Parameters and constants\<close>

record wenv =
  we_repr :: "pyv \<Rightarrow> string"
  we_now :: rat
  we_sha :: "string \<Rightarrow> string"
  we_alnum :: "string \<Rightarrow> bool"
  we_uuid :: string
  we_utc :: string
  we_owner :: string

definition PENDING_CALL_TTL_SECONDS :: rat where "PENDING_CALL_TTL_SECONDS = 6 * 60 * 60"
definition CALL_IDLE_TIMEOUT_SECONDS :: rat where "CALL_IDLE_TIMEOUT_SECONDS = 10"
definition TERMINAL_TASK_TTL_SECONDS :: rat where "TERMINAL_TASK_TTL_SECONDS = 7 * 24 * 60 * 60"
definition MAX_CACHED_TASKS_PER_CONTACT :: nat where "MAX_CACHED_TASKS_PER_CONTACT = 200"
definition CALL_RETRY_BASE_DELAY_SECONDS :: rat where "CALL_RETRY_BASE_DELAY_SECONDS = 1"
definition CALL_RETRY_MAX_DELAY_SECONDS :: rat where "CALL_RETRY_MAX_DELAY_SECONDS = 5 * 60"
definition CALL_RETRY_BATCH_LIMIT :: int where "CALL_RETRY_BATCH_LIMIT = 20"
definition CALL_RETRY_MAX_ATTEMPTS :: int where "CALL_RETRY_MAX_ATTEMPTS = 297"
definition CALL_RETRY_LEASE_SECONDS :: rat where "CALL_RETRY_LEASE_SECONDS = 90"
definition CALL_RETRY_MAX_ENTRIES :: nat where "CALL_RETRY_MAX_ENTRIES = 1000"
definition CALL_RETRY_DEAD_LETTER_RETENTION_SECONDS :: rat where
  "CALL_RETRY_DEAD_LETTER_RETENTION_SECONDS = 24 * 60 * 60"
definition CALL_RETRY_ARCHIVE_LIMIT :: nat where "CALL_RETRY_ARCHIVE_LIMIT = 200"
definition CALL_RETRY_DEDUPE_RETENTION_SECONDS :: rat where
  "CALL_RETRY_DEDUPE_RETENTION_SECONDS = 7 * 24 * 60 * 60"
definition CALL_RETRY_DEDUPE_LIMIT :: nat where "CALL_RETRY_DEDUPE_LIMIT = 5000"

definition work_update_error :: "string \<Rightarrow> pyerr" where
  "work_update_error msg = OtherError ''WorkUpdateError'' msg"

section \<open>Fields\<close>

definition num_of :: "pyv \<Rightarrow> string \<Rightarrow> rat result" where
  "num_of e k = py_float (py_or (get e k) (PFloat 0))"

definition int_of :: "pyv \<Rightarrow> string \<Rightarrow> int result" where
  "int_of e k = py_int (py_or (get e k) (PInt 0))"

definition text_of :: "(pyv \<Rightarrow> string) \<Rightarrow> pyv \<Rightarrow> string \<Rightarrow> string" where
  "text_of rp e k = str_or_empty rp (get e k)"

definition timestamp :: "pyv \<Rightarrow> rat" where
  "timestamp v = (case py_float (py_or v (PInt 0)) of Inl e \<Rightarrow> 0 | Inr r \<Rightarrow> r)"

text \<open>\<open>v in {...}\<close> for a set of texts; a list or a dictionary has no hash.\<close>

fun in_texts :: "pyv \<Rightarrow> string list \<Rightarrow> bool result" where
  "in_texts (PStr s) ts = Inr (s \<in> set ts)"
| "in_texts (PList xs) ts = Inl (TypeError ''unhashable type'')"
| "in_texts (PDict d) ts = Inl (TypeError ''unhashable type'')"
| "in_texts v ts = Inr False"

definition ended :: "pyv \<Rightarrow> bool result" where
  "ended e = in_texts (get e ''state'') [''completed'', ''failed'', ''cancelled'']"

definition put_fields :: "(string \<times> pyv) list \<Rightarrow> pyv \<Rightarrow> pyv" where
  "put_fields kvs e = foldl (\<lambda>e kv. put (fst kv) (snd kv) e) e kvs"

section \<open>Entries of the journal\<close>

definition dead :: "pyv \<Rightarrow> bool" where
  "dead e \<longleftrightarrow> get e ''status'' = PStr ''dead_letter''"

definition pending :: "pyv \<Rightarrow> bool" where
  "pending e \<longleftrightarrow> dget_or (dict_items e) ''status'' (PStr ''pending'') = PStr ''pending''"

text \<open>An entry that holds up its call: one to deliver, or a creation that was given up.\<close>

definition holds_lane :: "pyv \<Rightarrow> bool" where
  "holds_lane e \<longleftrightarrow> pending e \<or> (dead e \<and> get e ''operation'' = PStr ''create'')"

definition reference_of :: "pyv \<Rightarrow> pyv result" where
  "reference_of e = (let r = py_or (get e ''reference'') (PDict []) in
     if is_dict r then Inr r else Inl (AttributeError ''get''))"

definition archive_record :: "wenv \<Rightarrow> pyv \<Rightarrow> pyv result" where
  "archive_record E e =
     (let rp = we_repr E in
      bindE (reference_of e) (\<lambda>r.
      bindE (int_of e ''attempts'') (\<lambda>attempts.
        Inr (PDict
          [(''retry_id'', PStr (text_of rp e ''retry_id'')), (''operation'', PStr (text_of rp e ''operation'')),
           (''direction'', PStr (text_of rp e ''direction'')),
           (''call_ref'', PStr (take 24 (we_sha E (py_join [CHR 0x1F]
              [text_of rp r ''owner_contact_id'', text_of rp r ''task_id'', text_of rp r ''call_id''])))),
           (''attempts'', PInt attempts), (''last_error'', PStr (take_cp 120 (text_of rp e ''last_error''))),
           (''archived_at'', PFloat (we_now E))]))))"

text \<open>The archive keeps its newest records.\<close>

definition archive :: "pyv list \<Rightarrow> dict \<Rightarrow> dict" where
  "archive records state =
     (if records = [] then state
      else dput ''call_retry_dead_letters''
             (PList (last_of CALL_RETRY_ARCHIVE_LIMIT
                       (list_items (dget state ''call_retry_dead_letters'') @ records))) state)"

section \<open>Pruning\<close>

definition fresh_receipt :: "rat \<Rightarrow> string \<times> pyv \<Rightarrow> bool result" where
  "fresh_receipt now kv =
     (if \<not> is_dict (snd kv) then Inr False
      else bindE (num_of (snd kv) ''created_at'') (\<lambda>t. Inr (now - t < CALL_RETRY_DEDUPE_RETENTION_SECONDS)))"

text \<open>Each part returns the document and whether it changed.\<close>

definition prune_dedupe :: "rat \<Rightarrow> dict \<Rightarrow> (dict \<times> bool) result" where
  "prune_dedupe now state =
     (case dget state ''call_retry_dedupe'' of
        PDict d \<Rightarrow>
          bindE (filterE (fresh_receipt now) d) (\<lambda>d1.
          bindE (keep_newest ''created_at'' CALL_RETRY_DEDUPE_LIMIT d1) (\<lambda>d2.
            Inr (dput ''call_retry_dedupe'' (PDict d2) state, length d2 < length d)))
      | _ \<Rightarrow> Inr (dput ''call_retry_dedupe'' (PDict []) state, True))"

datatype verdict = Drop | Archive | Keep

definition well_formed :: "(pyv \<Rightarrow> string) \<Rightarrow> pyv \<Rightarrow> bool result" where
  "well_formed rp e =
     (if \<not> is_dict e \<or> \<not> is_dict (get e ''reference'') \<or> text_of rp (get e ''reference'') ''call_id'' = []
      then Inr False
      else in_texts (get e ''direction'') [''outbound'', ''inbound'', ''mutation''])"

definition judge :: "wenv \<Rightarrow> pyv \<Rightarrow> verdict result" where
  "judge E e =
     bindE (well_formed (we_repr E) e) (\<lambda>ok.
       if \<not> ok then Inr Drop
       else if \<not> dead e then Inr Keep
       else bindE (py_float (py_or (get e ''dead_lettered_at'') (py_or (get e ''last_attempt_at'')
                     (py_or (get e ''created_at'') (PFloat (we_now E)))))) (\<lambda>t.
              Inr (if we_now E - t \<ge> CALL_RETRY_DEAD_LETTER_RETENTION_SECONDS then Archive else Keep)))"

text \<open>The entries that stay, the records of the archived ones, the calls that are held up.\<close>

fun prune_entries :: "wenv \<Rightarrow> dict \<Rightarrow> (dict \<times> pyv list \<times> string list) result" where
  "prune_entries E [] = Inr ([], [], [])"
| "prune_entries E ((k, e) # entries) =
     bindE (judge E e) (\<lambda>v.
     bindE (if v = Archive then bindE (archive_record E e) (\<lambda>r. Inr [r]) else Inr []) (\<lambda>records.
     bindE (prune_entries E entries) (\<lambda>(kept, archived, calls).
       Inr (if v = Keep then (k, e) # kept else kept, records @ archived,
            if v = Keep \<and> holds_lane e then text_of (we_repr E) (get e ''reference'') ''call_id'' # calls else calls))))"

definition prune_journal :: "wenv \<Rightarrow> dict \<Rightarrow> (dict \<times> string list \<times> bool) result" where
  "prune_journal E state =
     (case dget state ''call_retry_journal'' of
        PDict journal \<Rightarrow>
          bindE (prune_entries E journal) (\<lambda>(kept, archived, calls).
            Inr (dput ''call_retry_journal'' (PDict kept) (archive archived state), calls,
                 length kept < length journal))
      | _ \<Rightarrow> Inr (dput ''call_retry_journal'' (PDict []) state, [], True))"

definition call_ids_of :: "(pyv \<Rightarrow> string) \<Rightarrow> pyv \<Rightarrow> string list" where
  "call_ids_of rp c = [text_of rp c ''outbound_call_id'', text_of rp c ''inbound_call_id'']"

definition keeps_correlation :: "wenv \<Rightarrow> string list \<Rightarrow> pyv \<Rightarrow> bool" where
  "keeps_correlation E calls c \<longleftrightarrow>
     is_dict c \<and>
     (let updated_at = timestamp (get c ''updated_at'') in
      (\<exists>i\<in>set (call_ids_of (we_repr E) c). i \<in> set calls)
      \<or> \<not> (truthy (get c ''terminal_requested'') \<or> updated_at = 0
            \<or> we_now E - updated_at > PENDING_CALL_TTL_SECONDS))"

text \<open>An ended call or task that was cached long ago.\<close>

definition stale :: "rat \<Rightarrow> pyv \<Rightarrow> bool result" where
  "stale now e =
     (let cached_at = timestamp (get e ''_cached_at'') in
      bindE (ended e) (\<lambda>b. Inr (b \<and> cached_at \<noteq> 0 \<and> now - cached_at > TERMINAL_TASK_TTL_SECONDS)))"

definition keeps_cached :: "rat \<Rightarrow> string \<times> pyv \<Rightarrow> bool result" where
  "keeps_cached now kv = (if \<not> is_dict (snd kv) then Inr False else bindE (stale now (snd kv)) (\<lambda>b. Inr (\<not> b)))"

definition cached_ages :: "dict \<Rightarrow> (rat \<times> string) list" where
  "cached_ages d = sort (map (\<lambda>(k, e). (timestamp (get e ''_cached_at''), k)) d)"

definition prune_standalone :: "rat \<Rightarrow> dict \<Rightarrow> dict result" where
  "prune_standalone now calls =
     bindE (filterE (keeps_cached now) calls) (\<lambda>kept.
       let doomed = map snd (take (length kept - 200) (cached_ages kept)) in
       Inr (filter (\<lambda>kv. fst kv \<notin> set doomed) kept))"

definition trim_bucket :: "string \<times> nat \<Rightarrow> pyv \<Rightarrow> pyv" where
  "trim_bucket nl task =
     (case get task (fst nl) of
        PDict b \<Rightarrow> if length b > snd nl then put (fst nl) (PDict (drop (length b - snd nl) b)) task else task
      | _ \<Rightarrow> task)"

definition trim_task :: "pyv \<Rightarrow> pyv" where
  "trim_task task =
     fold trim_bucket [(''events'', 500), (''calls'', 200), (''worker_groups'', 200), (''todos'', 500)] task"

fun evict_tasks :: "string \<Rightarrow> string list \<Rightarrow> dict \<Rightarrow> dict" where
  "evict_tasks active [] tasks = tasks"
| "evict_tasks active (t # ts) tasks =
     (if length tasks \<le> MAX_CACHED_TASKS_PER_CONTACT then tasks
      else evict_tasks active ts (if t \<noteq> active then dpop t tasks else tasks))"

definition prune_tasks :: "wenv \<Rightarrow> string \<Rightarrow> dict \<Rightarrow> dict result" where
  "prune_tasks E active tasks =
     bindE (filterE (keeps_cached (we_now E)) tasks) (\<lambda>kept.
       let trimmed = map (\<lambda>(k, t). (k, trim_task t)) kept in
       Inr (evict_tasks active (map snd (cached_ages trimmed)) trimmed))"

text \<open>The parts of a contact that are dictionaries, each in place.\<close>

definition in_part :: "string \<Rightarrow> (dict \<Rightarrow> dict result) \<Rightarrow> pyv \<Rightarrow> pyv result" where
  "in_part k f c =
     (case get c k of PDict d \<Rightarrow> bindE (f d) (\<lambda>d'. Inr (put k (PDict d') c)) | _ \<Rightarrow> Inr c)"

definition prune_contact :: "wenv \<Rightarrow> string list \<Rightarrow> pyv \<Rightarrow> pyv result" where
  "prune_contact E calls c =
     (if \<not> is_dict c then Inr c
      else bindE (in_part ''pending_calls'' (\<lambda>d. Inr (filter (\<lambda>kv. keeps_correlation E calls (snd kv)) d)) c) (\<lambda>c1.
           bindE (in_part ''standalone_calls'' (prune_standalone (we_now E)) c1) (\<lambda>c2.
             in_part ''tasks'' (prune_tasks E (text_of (we_repr E) c2 ''active_task_id'')) c2)))"

fun prune_contacts :: "wenv \<Rightarrow> string list \<Rightarrow> dict \<Rightarrow> dict result" where
  "prune_contacts E calls [] = Inr []"
| "prune_contacts E calls ((k, c) # cs) =
     bindE (prune_contact E calls c) (\<lambda>c'. bindE (prune_contacts E calls cs) (\<lambda>cs'. Inr ((k, c') # cs')))"

text \<open>Pruning of a contact only removes or replaces values by shorter ones, so it changed exactly when they differ.\<close>

definition prune_state :: "wenv \<Rightarrow> dict \<Rightarrow> (dict \<times> bool) result" where
  "prune_state E state =
     bindE (prune_dedupe (we_now E) state) (\<lambda>(s1, c1).
     bindE (prune_journal E s1) (\<lambda>(s2, calls, c2).
       case dget_or s2 ''contacts'' (PDict []) of
         PDict contacts \<Rightarrow>
           bindE (prune_contacts E calls contacts) (\<lambda>contacts'.
             Inr (if has_key s2 ''contacts'' then dput ''contacts'' (PDict contacts') s2 else s2,
                  c1 \<or> c2 \<or> contacts' \<noteq> contacts))
       | _ \<Rightarrow> Inl (AttributeError ''values'')))"

section \<open>Reading and writing the document\<close>

definition default_work_state :: dict where
  "default_work_state =
     [(''version'', PInt 1), (''contacts'', PDict []), (''call_retry_journal'', PDict []),
      (''call_retry_sequence'', PInt 0), (''call_retry_dead_letters'', PList []),
      (''call_retry_overflow_count'', PInt 0), (''call_retry_last_overflow_at'', PFloat 0),
      (''call_retry_dedupe'', PDict [])]"

text \<open>\<open>d.setdefault(k, v)\<close>.\<close>

definition add_missing :: "dict \<Rightarrow> string \<times> pyv \<Rightarrow> dict" where
  "add_missing d kv = (if has_key d (fst kv) then d else dput (fst kv) (snd kv) d)"

definition fill_defaults :: "dict \<Rightarrow> dict" where
  "fill_defaults state =
     foldl add_missing state default_work_state"

definition read_state_with_prune_status :: "wenv \<Rightarrow> json_file \<Rightarrow> (dict \<times> bool) result" where
  "read_state_with_prune_status E f =
     (let raw = read_json f (PDict default_work_state);
          state = (if is_dict raw then dict_items raw else default_work_state);
          filled = fill_defaults state in
      bindE (prune_state E filled) (\<lambda>(s, changed). Inr (s, changed \<or> filled \<noteq> state \<or> \<not> is_dict raw)))"

definition read_work_state :: "wenv \<Rightarrow> json_file \<Rightarrow> dict result" where
  "read_work_state E f = bindE (read_state_with_prune_status E f) (\<lambda>(s, changed). Inr s)"

definition contact_defaults :: dict where
  "contact_defaults =
     [(''active_task_id'', PStr []), (''activity'', PDict []), (''tasks'', PDict []), (''workers'', PDict []),
      (''pending_calls'', PDict []), (''standalone_calls'', PDict [])]"

text \<open>The document with all parts of a contact present, and the contact.\<close>

definition contact_state :: "string \<Rightarrow> dict \<Rightarrow> (dict \<times> dict) result" where
  "contact_state contact_id state =
     bindE (section_of ''contacts'' state) (\<lambda>contacts.
     bindE (section_of contact_id contacts) (\<lambda>c.
       let c' = foldl add_missing c contact_defaults in
       Inr (dput ''contacts'' (PDict (dput contact_id (PDict c') contacts)) state, c')))"

section \<open>Identifiers\<close>

definition strip_chars :: "string list \<Rightarrow> string list \<Rightarrow> string list" where
  "strip_chars cs s = rev (dropWhile (\<lambda>c. c \<in> set cs) (rev (dropWhile (\<lambda>c. c \<in> set cs) s)))"

definition safe_fragment :: "wenv \<Rightarrow> string \<Rightarrow> string \<Rightarrow> string" where
  "safe_fragment E value fallback =
     (let cleaned = concat (strip_chars [''-'', ''.'', ''_'', '':'']
             (map (\<lambda>c. if we_alnum E c \<or> c \<in> set [''.'', ''_'', '':'', ''-''] then c else ''-'')
                  (chars_of (strip value)))) in
      take_cp 48 (if cleaned = [] then fallback else cleaned))"

definition new_id :: "wenv \<Rightarrow> string \<Rightarrow> string \<Rightarrow> string" where
  "new_id E prefix0 hint0 =
     (let prefix = safe_fragment E prefix0 ''work''; hint = safe_fragment E hint0 [];
          token = take 20 (we_uuid E) in
      if hint = [] then prefix @ '':'' @ token else take_cp 128 (prefix @ '':'' @ hint @ '':'' @ token))"

definition stable_id :: "wenv \<Rightarrow> string \<Rightarrow> string list \<Rightarrow> string" where
  "stable_id E prefix parts =
     safe_fragment E prefix ''work'' @ '':'' @ take 24 (we_sha E (py_join [CHR 0x1F] parts))"

definition call_retry_id :: "wenv \<Rightarrow> string \<Rightarrow> pyv \<Rightarrow> string" where
  "call_retry_id E direction r =
     stable_id E ''call-create-retry'' [direction, text_of (we_repr E) r ''owner_contact_id'', text_of (we_repr E) r ''call_id'']"

definition call_retry_lane :: "wenv \<Rightarrow> pyv \<Rightarrow> string" where
  "call_retry_lane E r =
     (let rp = we_repr E in
      stable_id E ''call-lane'' [text_of rp r ''owner_contact_id'', text_of rp r ''task_id'', text_of rp r ''call_id''])"

end
