(* ===== verification/CallJournal.thy ===== *)
theory CallJournal
  imports CallState "HOL-Library.List_Lexorder"
begin

text \<open>
  The journal of call mutations in \<open>core/work_updates.py\<close>: entries are inserted with a sequence
  number, claimed under a lease by the process that delivers them, removed when delivered, and
  put back with a delay or given up when not. Each operation reads, prunes and writes the document
  under its lock, so it is one step.
\<close>

section \<open>Backpressure\<close>

text \<open>\<open>min\<close>: the first of the elements with the least key.\<close>

definition first_least :: "('a \<Rightarrow> 'k::linorder result) \<Rightarrow> 'a list \<Rightarrow> 'a option result" where
  "first_least key es =
     (if es = [] then Inr None
      else bindE (mapE (\<lambda>e. bindE (key e) (\<lambda>k. Inr (k, e))) es) (\<lambda>kes. Inr (Some (snd (arg_min_list fst kes)))))"

definition failed_retry :: "wenv \<Rightarrow> pyv \<Rightarrow> bool result" where
  "failed_retry E e =
     (if \<not> (is_dict e \<and> pending e \<and> text_of (we_repr E) e ''last_error'' \<noteq> []) then Inr False
      else bindE (num_of e ''lease_expires_at'') (\<lambda>t. Inr (t \<le> we_now E)))"

definition age_and_sequence :: "string \<Rightarrow> pyv \<Rightarrow> (rat \<times> int) result" where
  "age_and_sequence field e = bindE (num_of e field) (\<lambda>t. bindE (int_of e ''sequence'') (\<lambda>n. Inr (t, n)))"

definition capacity_victim :: "wenv \<Rightarrow> dict \<Rightarrow> (string \<times> pyv) option result" where
  "capacity_victim E journal =
     (let dead_letters = filter (\<lambda>kv. is_dict (snd kv) \<and> dead (snd kv)) journal in
      if dead_letters \<noteq> [] then first_least (\<lambda>kv. age_and_sequence ''dead_lettered_at'' (snd kv)) dead_letters
      else bindE (filterE (\<lambda>kv. failed_retry E (snd kv)) journal)
             (first_least (\<lambda>kv. age_and_sequence ''created_at'' (snd kv))))"

text \<open>A live victim becomes a dead letter.\<close>

definition evicted :: "wenv \<Rightarrow> pyv \<Rightarrow> pyv" where
  "evicted E e =
     (let prior = take_cp 96 (text_of (we_repr E) e ''last_error'') in
      put ''last_error'' (PStr (if prior = [] then ''capacity_evicted'' else prior @ ''|capacity_evicted''))
        (put ''dead_lettered_at'' (PFloat (we_now E)) (put ''status'' (PStr ''dead_letter'') e)))"

definition count_overflow :: "wenv \<Rightarrow> dict \<Rightarrow> dict result" where
  "count_overflow E state =
     bindE (int_of (PDict state) ''call_retry_overflow_count'') (\<lambda>n.
       Inr (dput ''call_retry_last_overflow_at'' (PFloat (we_now E))
              (dput ''call_retry_overflow_count'' (PInt (n + 1)) state)))"

definition journal_of :: "dict \<Rightarrow> dict" where
  "journal_of state = dict_items (dget state ''call_retry_journal'')"

definition put_journal :: "dict \<Rightarrow> dict \<Rightarrow> dict" where
  "put_journal journal state = dput ''call_retry_journal'' (PDict journal) state"

text \<open>One round of the loop that makes room; the document is what is saved when it raises.\<close>

definition evict_one :: "wenv \<Rightarrow> dict \<Rightarrow> dict \<times> unit result" where
  "evict_one E state =
     bindS (state, capacity_victim E (journal_of state)) (\<lambda>s victim.
       case victim of
         None \<Rightarrow> (case count_overflow E s of
                    Inl e \<Rightarrow> (s, Inl e)
                  | Inr s1 \<Rightarrow> (s1, Inl (work_update_error ''Call retry journal is at its live-entry limit.'')))
         | Some (k, e) \<Rightarrow>
           bindS (if dead e then (s, Inr e)
                  else (case count_overflow E s of
                          Inl x \<Rightarrow> (s, Inl x)
                        | Inr s1 \<Rightarrow> (put_journal (dput k (evicted E e) (journal_of s1)) s1, Inr (evicted E e)))) (\<lambda>s1 e1.
           bindS (s1, archive_record E e1) (\<lambda>s2 r.
             (put_journal (dpop (text_of (we_repr E) e1 ''retry_id'') (journal_of s2)) (archive [r] s2), Inr ()))))"

text \<open>The loop ends only when the journal gets shorter; \<open>None\<close> is a loop without end.\<close>

partial_function (option) make_room :: "wenv \<Rightarrow> nat \<Rightarrow> dict \<Rightarrow> (dict \<times> unit result) option" where
  "make_room E new_count state =
     (if length (journal_of state) + new_count \<le> CALL_RETRY_MAX_ENTRIES then Some (state, Inr ())
      else (case evict_one E state of
              (s, Inl e) \<Rightarrow> Some (s, Inl e)
            | (s, Inr u) \<Rightarrow> make_room E new_count s))"

section \<open>Insertion\<close>

definition retry_id_of :: "wenv \<Rightarrow> pyv \<Rightarrow> string" where
  "retry_id_of E e = text_of (we_repr E) e ''retry_id''"

definition in_journal :: "dict \<Rightarrow> string \<Rightarrow> bool" where
  "in_journal journal k \<longleftrightarrow> is_dict (dget journal k)"

definition new_count :: "wenv \<Rightarrow> dict \<Rightarrow> pyv list \<Rightarrow> nat" where
  "new_count E journal sources =
     length (filter (\<lambda>e. retry_id_of E e \<noteq> [] \<and> \<not> in_journal journal (retry_id_of E e)) sources)"

text \<open>The loop over the sources, with the sequence number and the identifiers so far.\<close>

fun insert_sources :: "wenv \<Rightarrow> pyv list \<Rightarrow> int \<Rightarrow> dict \<Rightarrow> dict \<times> (int \<times> string list) result" where
  "insert_sources E [] n state = (state, Inr (n, []))"
| "insert_sources E (e # es) n state =
     (let k = retry_id_of E e in
      if k = [] then (state, Inl (work_update_error ''Call journal entry requires retry_id.''))
      else bindS (if in_journal (journal_of state) k then insert_sources E es n state
                  else insert_sources E es (n + 1)
                         (put_journal (dput k (put ''sequence'' (PInt (n + 1)) e) (journal_of state)) state))
             (\<lambda>s (n', ks). (s, Inr (n', k # ks))))"

definition call_receipt :: "wenv \<Rightarrow> string list \<Rightarrow> string \<Rightarrow> pyv \<Rightarrow> pyv" where
  "call_receipt E inserted kind result_doc =
     PDict ([(''retry_ids'', PList (map PStr inserted)), (''created_at'', PFloat (we_now E))]
            @ (if kind = [] then [] else [(''kind'', PStr kind)])
            @ (if is_dict result_doc then [(''result'', result_doc)] else []))"

definition receipt_of :: "dict \<Rightarrow> string \<Rightarrow> pyv" where
  "receipt_of state dedupe_key = dget (dict_items (dget state ''call_retry_dedupe'')) dedupe_key"

text \<open>\<open>[str(value) for value in receipt.get("retry_ids") or [] if value]\<close>.\<close>

definition retry_ids_of :: "wenv \<Rightarrow> pyv \<Rightarrow> string list result" where
  "retry_ids_of E r =
     bindE (py_iter (py_or (get r ''retry_ids'') (PList []))) (\<lambda>vs. Inr (map (py_str (we_repr E)) (filter truthy vs)))"

definition insert_in_state ::
  "wenv \<Rightarrow> pyv list \<Rightarrow> string \<Rightarrow> string \<Rightarrow> pyv \<Rightarrow> dict \<Rightarrow> (dict \<times> string list result) option" where
  "insert_in_state E sources dedupe_key kind result_doc state =
     (if dedupe_key \<noteq> [] \<and> is_dict (receipt_of state dedupe_key)
      then Some (state, retry_ids_of E (receipt_of state dedupe_key))
      else case int_of (PDict state) ''call_retry_sequence'' of
             Inl e \<Rightarrow> Some (state, Inl e)
           | Inr n \<Rightarrow>
               map_option (\<lambda>m. bindS m (\<lambda>s u.
                 bindS (insert_sources E sources n s) (\<lambda>s1 (n', inserted).
                   (let s2 = dput ''call_retry_sequence'' (PInt n') s1 in
                    (if dedupe_key = [] then s2
                     else dput ''call_retry_dedupe'' (PDict (dput dedupe_key (call_receipt E inserted kind result_doc)
                                                            (dict_items (dget s2 ''call_retry_dedupe'')))) s2,
                     Inr inserted)))))
                 (make_room E (new_count E (journal_of state) sources) state))"

definition write_state :: "dict \<Rightarrow> json_file" where
  "write_state state = write_json (PDict state)"

text \<open>The document is written even when the insertion raises.\<close>

definition insert_entries ::
  "wenv \<Rightarrow> pyv list \<Rightarrow> string \<Rightarrow> string \<Rightarrow> pyv \<Rightarrow> json_file \<Rightarrow> (json_file \<times> string list result) option" where
  "insert_entries E sources dedupe_key kind result_doc f =
     (case read_work_state E f of
        Inl e \<Rightarrow> Some (f, Inl e)
      | Inr state \<Rightarrow>
          map_option (\<lambda>(s, r). (write_state s, r)) (insert_in_state E sources dedupe_key kind result_doc state))"

section \<open>Receipts\<close>

definition operations_of :: "wenv \<Rightarrow> dict \<Rightarrow> pyv \<Rightarrow> string list result" where
  "operations_of E journal r =
     bindE (py_iter (py_or (get r ''retry_ids'') (PList []))) (\<lambda>vs.
       Inr (map (\<lambda>e. text_of (we_repr E) e ''operation'')
              (filter is_dict (map (\<lambda>v. dget journal (str_or_empty (we_repr E) v)) vs))))"

text \<open>Receipts of older versions have no kind; it is inferred from the entries still in the journal.\<close>

definition dedupe_receipt :: "wenv \<Rightarrow> string \<Rightarrow> json_file \<Rightarrow> pyv result" where
  "dedupe_receipt E dedupe_key f =
     (if dedupe_key = [] then Inr (PDict [])
      else bindE (read_work_state E f) (\<lambda>state.
           let r = receipt_of state dedupe_key in
           if \<not> is_dict r then Inr (PDict [])
           else if truthy (get r ''kind'') then Inr r
           else bindE (operations_of E (journal_of state) r) (\<lambda>ops.
                  Inr (if ops = [] then r
                       else if list_all (\<lambda>x. x = ''create'') ops then put ''kind'' (PStr ''create'') r
                       else put ''kind'' (PStr ''append'') r))))"

definition dedupe_result :: "wenv \<Rightarrow> string \<Rightarrow> string \<Rightarrow> json_file \<Rightarrow> pyv result" where
  "dedupe_result E dedupe_key retry_id f =
     bindE (read_work_state E f) (\<lambda>state.
       let r = (if dedupe_key = [] then PNone else receipt_of state dedupe_key);
           e = dget (journal_of state) retry_id in
       Inr (if is_dict r \<and> is_dict (get r ''result'') then get r ''result''
            else if is_dict e \<and> is_dict (get e ''reference'') then get e ''reference''
            else PDict []))"

section \<open>Lanes\<close>

definition lane_of :: "wenv \<Rightarrow> pyv \<Rightarrow> string result" where
  "lane_of E e =
     (if truthy (get e ''lane'') then Inr (py_str (we_repr E) (get e ''lane''))
      else bindE (reference_of e) (\<lambda>r. Inr (call_retry_lane E r)))"

definition queue_key :: "wenv \<Rightarrow> pyv \<Rightarrow> (int \<times> rat \<times> string) result" where
  "queue_key E e =
     bindE (int_of e ''sequence'') (\<lambda>n. bindE (num_of e ''created_at'') (\<lambda>t. Inr (n, t, retry_id_of E e)))"

definition in_lane :: "wenv \<Rightarrow> string \<Rightarrow> pyv \<Rightarrow> bool result" where
  "in_lane E lane e =
     (if \<not> is_dict e then Inr False else bindE (lane_of E e) (\<lambda>l. Inr (l = lane \<and> holds_lane e)))"

text \<open>What holds up a lane, oldest first.\<close>

definition lane_entries :: "wenv \<Rightarrow> string \<Rightarrow> dict \<Rightarrow> pyv list result" where
  "lane_entries E lane journal = filterE (in_lane E lane) (map snd journal)"

section \<open>Claims\<close>

text \<open>
  \<open>now\<close> is the time of a claim: what the caller hands over, a periodic tick the time it was read
  at, or the clock when the claim was called. The document is pruned at the time it is read.
\<close>

definition lease :: "wenv \<Rightarrow> rat \<Rightarrow> string \<Rightarrow> pyv \<Rightarrow> pyv" where
  "lease E now lane e =
     put ''lease_expires_at'' (PFloat (now + CALL_RETRY_LEASE_SECONDS))
       (put ''lease_token'' (PStr (we_uuid E)) (put ''lease_owner'' (PStr (we_owner E)) (put ''lane'' (PStr lane) e)))"

text \<open>The entry to deliver, \<open>None\<close> when it is not its turn.\<close>

definition claimable_lane :: "wenv \<Rightarrow> rat \<Rightarrow> string \<Rightarrow> dict \<Rightarrow> string option result" where
  "claimable_lane E now retry_id journal =
     (let e = dget journal retry_id in
      if \<not> is_dict e \<or> get e ''status'' \<noteq> PStr ''pending'' then Inr None
      else bindE (num_of e ''next_attempt_at'') (\<lambda>next_at.
           if next_at > now then Inr None
           else bindE (lane_of E e) (\<lambda>lane.
                bindE (lane_entries E lane journal) (\<lambda>es.
                bindE (first_least (queue_key E) es) (\<lambda>first.
                  case first of
                    None \<Rightarrow> Inr None
                  | Some e1 \<Rightarrow>
                      if get e1 ''retry_id'' \<noteq> PStr retry_id then Inr None
                      else bindE (num_of e ''lease_expires_at'') (\<lambda>until.
                             Inr (if until > now then None else Some lane)))))))"

definition claim_call_retry :: "wenv \<Rightarrow> rat \<Rightarrow> string \<Rightarrow> json_file \<Rightarrow> json_file \<times> pyv option result" where
  "claim_call_retry E now retry_id f =
     (case read_work_state E f of
        Inl e \<Rightarrow> (f, Inl e)
      | Inr state \<Rightarrow>
          bindS (write_state state, claimable_lane E now retry_id (journal_of state)) (\<lambda>f1 found.
            case found of
              None \<Rightarrow> (f1, Inr None)
            | Some lane \<Rightarrow>
                (let e = lease E now lane (dget (journal_of state) retry_id) in
                 (write_state (put_journal (dput retry_id e (journal_of state)) state), Inr (Some e)))))"

section \<open>Outcomes\<close>

fun error_class :: "pyerr \<Rightarrow> string" where
  "error_class (TypeError m) = ''TypeError''"
| "error_class (ValueError m) = ''ValueError''"
| "error_class (RuntimeError m) = ''RuntimeError''"
| "error_class (AttributeError m) = ''AttributeError''"
| "error_class (ConflictError m) = ''ConflictError''"
| "error_class (OtherError c m) = c"

fun error_text :: "pyerr \<Rightarrow> string" where
  "error_text (TypeError m) = m"
| "error_text (ValueError m) = m"
| "error_text (RuntimeError m) = m"
| "error_text (AttributeError m) = m"
| "error_text (ConflictError m) = m"
| "error_text (OtherError c m) = m"

text \<open>
  The status in a message: \<open>HTTP\<close> or \<open>api\<close> as a word in any case, white space, and three digits
  that end a word, over the characters of the message. \<open>I\<close> has two more forms in Unicode.
\<close>

definition is_word :: "wenv \<Rightarrow> string \<Rightarrow> bool" where
  "is_word E c \<longleftrightarrow> we_alnum E c \<or> c = ''_''"

definition drop_keyword :: "string list list \<Rightarrow> string list \<Rightarrow> string list option" where
  "drop_keyword letters s =
     (if length letters \<le> length s \<and> list_all2 (\<lambda>forms c. c \<in> set forms) letters (take (length letters) s)
      then Some (drop (length letters) s) else None)"

definition HTTP :: "string list list" where
  "HTTP = [[''h'', ''H''], [''t'', ''T''], [''t'', ''T''], [''p'', ''P'']]"

definition API :: "string list list" where
  "API = [[''a'', ''A''], [''p'', ''P''], [''i'', ''I'', [CHR 0xC4, CHR 0xB0], [CHR 0xC4, CHR 0xB1]]]"

fun digits_follow :: "wenv \<Rightarrow> string list \<Rightarrow> string option" where
  "digits_follow E ([a] # [b] # [c] # rest) =
     (if a \<in> set ''12345'' \<and> is_digit b \<and> is_digit c \<and> (case rest of [] \<Rightarrow> True | d # _ \<Rightarrow> \<not> is_word E d)
      then Some [a, b, c] else None)"
| "digits_follow E s = None"

definition status_after :: "wenv \<Rightarrow> string list option \<Rightarrow> string option" where
  "status_after E s =
     (case s of
        Some (c # cs) \<Rightarrow> if ws_len c > 0 then digits_follow E (dropWhile (\<lambda>c. ws_len c > 0) cs) else None
      | _ \<Rightarrow> None)"

fun find_status :: "wenv \<Rightarrow> bool \<Rightarrow> string list \<Rightarrow> string" where
  "find_status E in_word [] = []"
| "find_status E in_word (c # cs) =
     (case (if in_word then None
            else case status_after E (drop_keyword HTTP (c # cs)) of
                   Some s \<Rightarrow> Some s | None \<Rightarrow> status_after E (drop_keyword API (c # cs))) of
        Some s \<Rightarrow> s
      | None \<Rightarrow> find_status E (is_word E c) cs)"

definition error_status :: "wenv \<Rightarrow> pyerr \<Rightarrow> string" where
  "error_status E x = find_status E False (chars_of (error_text x))"

text \<open>The class of the error and the status, never its text.\<close>

definition safe_retry_error :: "wenv \<Rightarrow> pyerr \<Rightarrow> string" where
  "safe_retry_error E x =
     (let name = take_cp 80 (error_class x); name' = (if name = [] then ''Exception'' else name) in
      if error_status E x = [] then name' else name' @ '':http_'' @ error_status E x)"

text \<open>The classes of \<open>ValueError\<close> that calls of the standard library raise.\<close>

definition VALUE_ERRORS :: "string list" where
  "VALUE_ERRORS = [''ValueError'', ''UnicodeError'', ''UnicodeDecodeError'', ''UnicodeEncodeError'', ''JSONDecodeError'']"

definition terminal_call_retry_error :: "wenv \<Rightarrow> pyerr \<Rightarrow> bool" where
  "terminal_call_retry_error E x \<longleftrightarrow>
     error_class x \<in> set (''TypeError'' # ''WorkUpdateError'' # VALUE_ERRORS)
     \<or> error_status E x \<in> set [''400'', ''404'', ''405'', ''410'', ''413'', ''422'']"

text \<open>\<open>jitter\<close> is what \<open>random.uniform(0.75, 1.25)\<close> returned.\<close>

definition retry_delay :: "rat \<Rightarrow> int \<Rightarrow> rat" where
  "retry_delay jitter attempts =
     min (min (CALL_RETRY_BASE_DELAY_SECONDS * 2 ^ nat (min (attempts - 1) 12)) CALL_RETRY_MAX_DELAY_SECONDS * jitter)
       CALL_RETRY_MAX_DELAY_SECONDS"

definition failed_entry :: "wenv \<Rightarrow> rat \<Rightarrow> pyerr \<Rightarrow> int \<Rightarrow> pyv \<Rightarrow> pyv" where
  "failed_entry E jitter x tries e =
     (let attempts = max 0 tries + 1;
          terminal = terminal_call_retry_error E x \<or> attempts \<ge> CALL_RETRY_MAX_ATTEMPTS in
      put_fields
        [(''status'', PStr (if terminal then ''dead_letter'' else ''pending'')), (''attempts'', PInt attempts),
         (''last_attempt_at'', PFloat (we_now E)),
         (''next_attempt_at'', PFloat (if terminal then 0 else we_now E + retry_delay jitter attempts)),
         (''last_error'', PStr (safe_retry_error E x)), (''dead_lettered_at'', PFloat (if terminal then we_now E else 0)),
         (''lease_owner'', PStr []), (''lease_token'', PStr []), (''lease_expires_at'', PFloat 0)] e)"

definition holds_lease :: "pyv \<Rightarrow> pyv \<Rightarrow> bool" where
  "holds_lease current e \<longleftrightarrow> is_dict current \<and> py_eq (get current ''lease_token'') (get e ''lease_token'')"

text \<open>A failure of a process that has lost its lease changes nothing. The entry as it is now, if it has not.\<close>

definition record_call_retry_failure ::
  "wenv \<Rightarrow> rat \<Rightarrow> string \<Rightarrow> pyv \<Rightarrow> pyerr \<Rightarrow> json_file \<Rightarrow> json_file \<times> pyv option result" where
  "record_call_retry_failure E jitter retry_id e x f =
     bindS (f, read_work_state E f) (\<lambda>f1 state.
       let current = dget (journal_of state) retry_id in
       if \<not> holds_lease current e then (f1, Inr None)
       else bindS (f1, int_of current ''attempts'') (\<lambda>f2 tries.
              let updated = failed_entry E jitter x tries current in
              (write_state (put_journal (dput retry_id updated (journal_of state)) state), Inr (Some updated))))"

definition complete_call_retry :: "wenv \<Rightarrow> string \<Rightarrow> pyv \<Rightarrow> json_file \<Rightarrow> json_file \<times> bool result" where
  "complete_call_retry E retry_id e f =
     bindS (f, read_work_state E f) (\<lambda>f1 state.
       if \<not> holds_lease (dget (journal_of state) retry_id) e then (f1, Inr False)
       else (write_state (put_journal (dpop retry_id (journal_of state)) state), Inr True))"

section \<open>Scheduling\<close>

text \<open>What a completed delivery schedules next.\<close>

definition next_call_lane :: "wenv \<Rightarrow> pyv \<Rightarrow> json_file \<Rightarrow> string option result" where
  "next_call_lane E completed f =
     bindE (lane_of E completed) (\<lambda>lane.
     bindE (read_work_state E f) (\<lambda>state.
     bindE (lane_entries E lane (journal_of state)) (\<lambda>es.
     bindE (first_least (queue_key E) es) (\<lambda>first.
       case first of
         None \<Rightarrow> Inr None
       | Some e \<Rightarrow>
           if \<not> pending e then Inr None
           else bindE (num_of e ''next_attempt_at'') (\<lambda>t.
                  Inr (if t > we_now E then None else Some (retry_id_of E e)))))))"

text \<open>The first entry of each lane, in the order of the sequence.\<close>

fun first_by_lane :: "wenv \<Rightarrow> string list \<Rightarrow> pyv list \<Rightarrow> pyv list result" where
  "first_by_lane E seen [] = Inr []"
| "first_by_lane E seen (e # es) =
     (if \<not> holds_lane e then first_by_lane E seen es
      else bindE (lane_of E e) (\<lambda>lane.
             if lane \<in> set seen then first_by_lane E seen es
             else bindE (first_by_lane E (lane # seen) es) (\<lambda>rest. Inr (e # rest))))"

definition due_retry :: "rat \<Rightarrow> pyv \<Rightarrow> bool result" where
  "due_retry now e =
     (if \<not> pending e then Inr False
      else bindE (num_of e ''next_attempt_at'') (\<lambda>next_at.
           if next_at > now then Inr False
           else bindE (num_of e ''lease_expires_at'') (\<lambda>until. Inr (until \<le> now))))"

definition in_sequence :: "wenv \<Rightarrow> pyv list \<Rightarrow> pyv list result" where
  "in_sequence E es =
     bindE (mapE (\<lambda>e. bindE (queue_key E e) (\<lambda>k. Inr (k, e))) es) (\<lambda>kes. Inr (map snd (sort_key fst kes)))"

text \<open>The retries a periodic tick schedules; each is claimed later with the time \<open>now\<close> of the tick.\<close>

definition replay_pending_call_updates :: "wenv \<Rightarrow> int \<Rightarrow> rat \<Rightarrow> json_file \<Rightarrow> json_file \<times> string list result" where
  "replay_pending_call_updates E limit now f =
     bindS (f, read_state_with_prune_status E f) (\<lambda>f0 (state, pruned).
     bindS (if pruned then write_state state else f0,
            bindE (in_sequence E (filter is_dict (map snd (journal_of state)))) (\<lambda>ordered.
            bindE (first_by_lane E [] ordered) (\<lambda>firsts. filterE (due_retry now) firsts))) (\<lambda>f1 eligible.
       (f1, Inr (filter (\<lambda>k. k \<noteq> []) (map (retry_id_of E) (take (nat limit) eligible))))))"

definition least_time :: "string \<Rightarrow> pyv list \<Rightarrow> rat result" where
  "least_time field es = (if es = [] then Inr 0 else bindE (mapE (\<lambda>e. num_of e field) es) (\<lambda>ts. Inr (Min (set ts))))"

definition failed_before :: "pyv \<Rightarrow> bool result" where
  "failed_before e = bindE (int_of e ''attempts'') (\<lambda>n. Inr (n > 0))"

text \<open>The health of the journal, without texts.\<close>

definition pending_call_update_retries :: "wenv \<Rightarrow> bool \<Rightarrow> json_file \<Rightarrow> json_file \<times> dict result" where
  "pending_call_update_retries E persist_prune f =
     bindS (f, read_state_with_prune_status E f) (\<lambda>f0 (state, pruned).
     let es = filter is_dict (map snd (journal_of state)) in
     bindS (if persist_prune \<and> pruned then write_state state else f0,
            bindE (int_of (PDict state) ''call_retry_overflow_count'') (\<lambda>overflow.
            bindE (num_of (PDict state) ''call_retry_last_overflow_at'') (\<lambda>last_overflow.
            bindE (filterE failed_before (filter pending es)) (\<lambda>failed.
            bindE (least_time ''created_at'' es) (\<lambda>oldest.
            bindE (least_time ''next_attempt_at'' es) (\<lambda>next_at.
              Inr [(''pending'', PInt (int (length (filter pending es)))), (''failed'', PInt (int (length failed))),
                   (''dead_letter'', PInt (int (length (filter dead es)))), (''total'', PInt (int (length es))),
                   (''archived_dead_letter'',
                      PInt (int (length (list_items (dget state ''call_retry_dead_letters''))))),
                   (''overflow_count'', PInt overflow), (''last_overflow_at'', PFloat last_overflow),
                   (''oldest_created_at'', PFloat oldest), (''next_attempt_at'', PFloat next_at)])))))) (\<lambda>f1 health.
       (f1, Inr health)))"

end
