(* ===== verification/CallInv.thy ===== *)
theory CallInv
  imports CallJournal
begin

text \<open>
  The invariant of the journal of call mutations: what its entries look like, that their sequence
  numbers differ, and that an entry under a live lease is the first of its lane; every operation
  keeps it. Statements are about the journal as a map, so that the order of keys does not matter.
\<close>

section \<open>Entries\<close>

definition seq_num :: "pyv \<Rightarrow> int" where
  "seq_num e = (case get e ''sequence'' of PInt n \<Rightarrow> n | _ \<Rightarrow> 0)"

definition lane_text :: "pyv \<Rightarrow> string" where
  "lane_text e = (case get e ''lane'' of PStr l \<Rightarrow> l | _ \<Rightarrow> [])"

definition leased_until :: "pyv \<Rightarrow> rat" where
  "leased_until e = (case get e ''lease_expires_at'' of PFloat t \<Rightarrow> t | _ \<Rightarrow> 0)"

definition token_of :: "pyv \<Rightarrow> string" where
  "token_of e = (case get e ''lease_token'' of PStr s \<Rightarrow> s | _ \<Rightarrow> [])"

fun is_text :: "pyv \<Rightarrow> bool" where "is_text (PStr s) = True" | "is_text v = False"
fun is_float :: "pyv \<Rightarrow> bool" where "is_float (PFloat t) = True" | "is_float v = False"
fun is_int :: "pyv \<Rightarrow> bool" where "is_int (PInt n) = True" | "is_int v = False"

lemma typed_sorted [simp]: "is_text (sort_keys v) = is_text v" "is_float (sort_keys v) = is_float v" "is_int (sort_keys v) = is_int v"
  by (cases v; simp)+

lemma typed_E: "is_text v \<Longrightarrow> \<exists>s. v = PStr s" "is_float v \<Longrightarrow> \<exists>t. v = PFloat t" "is_int v \<Longrightarrow> \<exists>n. v = PInt n"
  by (cases v; simp)+

definition shaped :: "string \<Rightarrow> pyv \<Rightarrow> bool" where
  "shaped k e \<longleftrightarrow>
     is_dict e \<and> k \<noteq> [] \<and> get e ''retry_id'' = PStr k \<and> is_text (get e ''lane'') \<and> get e ''lane'' \<noteq> PStr []
     \<and> (get e ''status'' = PStr ''pending'' \<or> get e ''status'' = PStr ''dead_letter'')
     \<and> is_float (get e ''created_at'') \<and> is_float (get e ''next_attempt_at'') \<and> is_float (get e ''lease_expires_at'')
     \<and> is_int (get e ''attempts'') \<and> is_text (get e ''lease_token'') \<and> is_text (get e ''last_error'')
     \<and> is_float (get e ''last_attempt_at'') \<and> (get e ''dead_lettered_at'' = PNone \<or> is_float (get e ''dead_lettered_at''))
     \<and> is_dict (get e ''reference'') \<and> is_text (get (get e ''reference'') ''call_id'')
     \<and> get (get e ''reference'') ''call_id'' \<noteq> PStr []
     \<and> (\<exists>d\<in>set [''outbound'', ''inbound'', ''mutation'']. get e ''direction'' = PStr d)"

definition entry_ok :: "string \<Rightarrow> pyv \<Rightarrow> bool" where
  "entry_ok k e \<longleftrightarrow> shaped k e \<and> is_int (get e ''sequence'')"

text \<open>A mutation as it is handed to the journal.\<close>

definition source_ok :: "pyv \<Rightarrow> bool" where
  "source_ok e \<longleftrightarrow>
     (\<exists>k. shaped k e) \<and> get e ''status'' = PStr ''pending'' \<and> get e ''lease_expires_at'' = PFloat 0
     \<and> get e ''last_error'' = PStr [] \<and> get e ''attempts'' = PInt 0"

definition failing :: "pyv \<Rightarrow> bool" where
  "failing e \<longleftrightarrow> dead e \<or> get e ''last_error'' \<noteq> PStr []"

lemma sorted_PNone [simp]: "sort_keys v = PNone \<longleftrightarrow> v = PNone"
  by (cases v) auto

lemma sorted_views [simp]:
  "seq_num (sort_keys e) = seq_num e" "lane_text (sort_keys e) = lane_text e"
  "leased_until (sort_keys e) = leased_until e" "token_of (sort_keys e) = token_of e"
  "dead (sort_keys e) = dead e"
  by (auto simp: seq_num_def lane_text_def leased_until_def token_of_def dead_def split: pyv.split)

lemma shaped_sorted [simp]: "shaped k (sort_keys e) = shaped k e"
  by (simp add: shaped_def)

lemma entry_ok_sorted [simp]: "entry_ok k (sort_keys e) = entry_ok k e"
  by (simp add: entry_ok_def)

lemma failing_sorted [simp]: "failing (sort_keys e) = failing e"
  by (cases "get e ''last_error''") (auto simp: failing_def dead_def)

lemma present_or: "get e k = PStr s \<Longrightarrow> dget_or (dict_items e) k v = PStr s"
  by (auto simp: get_def dget_def dget_or_def split: option.splits)

lemma pending_shaped: "shaped k e \<Longrightarrow> pending e \<longleftrightarrow> get e ''status'' = PStr ''pending''"
  unfolding shaped_def pending_def by (elim conjE disjE) (simp_all add: present_or)

lemma holds_shaped:
  "shaped k e \<Longrightarrow> holds_lane e \<longleftrightarrow> get e ''status'' = PStr ''pending'' \<or> (dead e \<and> get e ''operation'' = PStr ''create'')"
  by (simp add: holds_lane_def pending_shaped)

lemma holds_sorted: "shaped k e \<Longrightarrow> holds_lane (sort_keys e) = holds_lane e"
  using holds_shaped [of k e] holds_shaped [of k "sort_keys e"] by simp

lemma shaped_status: "shaped k e \<Longrightarrow> dead e \<longleftrightarrow> get e ''status'' \<noteq> PStr ''pending''"
  by (auto simp: shaped_def dead_def)

section \<open>The journal\<close>

definition good_journal :: "int \<Rightarrow> dict \<Rightarrow> bool" where
  "good_journal n j \<longleftrightarrow>
     distinct (map fst j) \<and> (\<forall>k e. map_of j k = Some e \<longrightarrow> entry_ok k e \<and> seq_num e \<le> n)
     \<and> (\<forall>k1 e1 k2 e2. map_of j k1 = Some e1 \<longrightarrow> map_of j k2 = Some e2 \<longrightarrow> seq_num e1 = seq_num e2 \<longrightarrow> k1 = k2)"

definition leases_ok :: "rat \<Rightarrow> dict \<Rightarrow> bool" where
  "leases_ok t j \<longleftrightarrow>
     (\<forall>k1 e1. map_of j k1 = Some e1 \<longrightarrow> t < leased_until e1 \<longrightarrow>
        (\<forall>k2 e2. map_of j k2 = Some e2 \<longrightarrow> holds_lane e2 \<longrightarrow> lane_text e1 = lane_text e2 \<longrightarrow> seq_num e1 \<le> seq_num e2)
        \<and> \<not> dead e1)"

lemma good_distinct: "good_journal n j \<Longrightarrow> distinct (map fst j)"
  by (simp add: good_journal_def)

lemma good_entry: "good_journal n j \<Longrightarrow> map_of j k = Some e \<Longrightarrow> entry_ok k e \<and> seq_num e \<le> n"
  by (simp add: good_journal_def)

lemma good_seq: "good_journal n j \<Longrightarrow> map_of j k1 = Some e1 \<Longrightarrow> map_of j k2 = Some e2 \<Longrightarrow> seq_num e1 = seq_num e2 \<Longrightarrow> k1 = k2"
  unfolding good_journal_def by blast

lemma good_shaped: "good_journal n j \<Longrightarrow> map_of j k = Some e \<Longrightarrow> shaped k e"
  using good_entry by (auto simp: entry_ok_def)

lemma lease_first:
  "leases_ok t j \<Longrightarrow> map_of j k1 = Some e1 \<Longrightarrow> t < leased_until e1 \<Longrightarrow> map_of j k2 = Some e2 \<Longrightarrow> holds_lane e2
     \<Longrightarrow> lane_text e1 = lane_text e2 \<Longrightarrow> seq_num e1 \<le> seq_num e2"
  unfolding leases_ok_def by blast

lemma lease_alive: "leases_ok t j \<Longrightarrow> map_of j k1 = Some e1 \<Longrightarrow> t < leased_until e1 \<Longrightarrow> \<not> dead e1"
  unfolding leases_ok_def by blast

text \<open>A journal with fewer entries keeps both.\<close>

lemma fewer_entries:
  assumes "\<And>k e. map_of j' k = Some e \<Longrightarrow> map_of j k = Some e" and "distinct (map fst j')"
  shows "good_journal n j \<Longrightarrow> good_journal n j'" and "leases_ok t j \<Longrightarrow> leases_ok t j'"
  using assms unfolding good_journal_def leases_ok_def by blast+

lemma leases_later: "leases_ok t j \<Longrightarrow> t \<le> u \<Longrightarrow> leases_ok u j"
  unfolding leases_ok_def by (meson order.strict_trans1)

lemma good_more: "good_journal n j \<Longrightarrow> n \<le> m \<Longrightarrow> good_journal m j"
  unfolding good_journal_def by (meson order.trans)

lemma map_of_filter_distinct:
  assumes "distinct (map fst j)" and "map_of (filter P j) k = Some e"
  shows "map_of j k = Some e"
  using map_of_SomeD [OF assms(2)] by (simp add: assms(1))

lemma distinct_filter_keys: "distinct (map fst j) \<Longrightarrow> distinct (map fst (filter P j))"
  by (rule distinct_map_filter)

lemma filter_keeps:
  assumes "good_journal n j"
  shows "good_journal n (filter P j)" and "leases_ok t j \<Longrightarrow> leases_ok t (filter P j)"
proof -
  note d = good_distinct [OF assms]
  show "good_journal n (filter P j)"
    by (rule fewer_entries(1) [OF map_of_filter_distinct [OF d] distinct_filter_keys [OF d] assms])
  show "leases_ok t j \<Longrightarrow> leases_ok t (filter P j)"
    by (rule fewer_entries(2) [OF map_of_filter_distinct [OF d] distinct_filter_keys [OF d]])
qed

lemma dpop_keeps:
  assumes "good_journal n j"
  shows "good_journal n (dpop k j)" and "leases_ok t j \<Longrightarrow> leases_ok t (dpop k j)"
  unfolding dpop_alt by (rule filter_keeps [OF assms], assumption?)+

text \<open>A journal with sorted keys.\<close>

definition sorted_journal :: "dict \<Rightarrow> dict" where
  "sorted_journal j = sort_key fst (map (map_prod id sort_keys) j)"

lemma map_of_sorted_journal: "map_of (sorted_journal j) k = map_option sort_keys (map_of j k)"
  by (simp add: sorted_journal_def map_of_sorted)

lemma distinct_sorted_journal: "distinct (map fst j) \<Longrightarrow> distinct (map fst (sorted_journal j))"
proof -
  assume "distinct (map fst j)"
  then have "distinct (map fst (map (map_prod id sort_keys) j))" by (simp add: comp_def)
  then show ?thesis unfolding sorted_journal_def distinct_map set_sort distinct_sort .
qed

lemma sorted_keeps:
  assumes "good_journal n j"
  shows "good_journal n (sorted_journal j)" and "leases_ok t j \<Longrightarrow> leases_ok t (sorted_journal j)"
proof -
  show "good_journal n (sorted_journal j)"
    using assms distinct_sorted_journal unfolding good_journal_def map_of_sorted_journal by fastforce
  have h: "map_of j k = Some e \<Longrightarrow> holds_lane (sort_keys e) = holds_lane e" for k e
    using holds_sorted good_shaped [OF assms] by blast
  then show "leases_ok t j \<Longrightarrow> leases_ok t (sorted_journal j)"
    unfolding leases_ok_def map_of_sorted_journal by fastforce
qed

text \<open>An entry is replaced by one that neither moves nor blocks more nor is leased.\<close>

lemma replace_keeps:
  assumes g: "good_journal n j" and e: "map_of j k = Some e" and e': "shaped k e'" "get e' ''sequence'' = get e ''sequence''"
    "lane_text e' = lane_text e" "holds_lane e' \<Longrightarrow> holds_lane e" and until: "leased_until e' \<le> t"
  shows "good_journal n (dput k e' j)" and "leases_ok t j \<Longrightarrow> leases_ok t (dput k e' j)"
proof -
  have s: "seq_num e' = seq_num e" using e'(2) by (simp add: seq_num_def)
  have "entry_ok k e'" using good_entry [OF g e] e' by (simp add: entry_ok_def)
  with s show "good_journal n (dput k e' j)"
    using g e distinct_dput [of j k e'] unfolding good_journal_def map_of_dput by (metis option.inject)
  show "leases_ok t (dput k e' j)" if l: "leases_ok t j"
    unfolding leases_ok_def map_of_dput
  proof (intro allI impI)
    fix k1 e1 assume 1: "(if k1 = k then Some e' else map_of j k1) = Some e1" "t < leased_until e1"
    with until have k1: "k1 \<noteq> k" "map_of j k1 = Some e1" by (auto split: if_splits)
    show "(\<forall>k2 e2. (if k2 = k then Some e' else map_of j k2) = Some e2 \<longrightarrow> holds_lane e2 \<longrightarrow>
            lane_text e1 = lane_text e2 \<longrightarrow> seq_num e1 \<le> seq_num e2) \<and> \<not> dead e1"
    proof (intro conjI allI impI)
      show "\<not> dead e1" by (rule lease_alive [OF l k1(2) 1(2)])
      fix k2 e2 assume 2: "(if k2 = k then Some e' else map_of j k2) = Some e2" "holds_lane e2" "lane_text e1 = lane_text e2"
      show "seq_num e1 \<le> seq_num e2"
      proof (cases "k2 = k")
        case True
        with 2 e' s have "holds_lane e" "lane_text e1 = lane_text e" "seq_num e2 = seq_num e" by auto
        then show ?thesis using lease_first [OF l k1(2) 1(2) e] by simp
      next
        case False
        with 2 show ?thesis using lease_first [OF l k1(2) 1(2)] by simp
      qed
    qed
  qed
qed

text \<open>A new entry comes last.\<close>

lemma add_keeps:
  assumes g: "good_journal n j" and k: "map_of j k = None" and e: "shaped k e" "get e ''sequence'' = PInt m" "n < m" and until: "leased_until e \<le> t"
  shows "good_journal m (dput k e j)" and "leases_ok t j \<Longrightarrow> leases_ok t (dput k e j)"
proof -
  have s: "seq_num e = m" and ok: "entry_ok k e" using e by (simp_all add: seq_num_def entry_ok_def)
  have less: "map_of j k2 = Some e2 \<Longrightarrow> seq_num e2 < m" for k2 e2 using good_entry [OF g] e(3) by fastforce
  show "good_journal m (dput k e j)"
    unfolding good_journal_def map_of_dput
  proof (intro conjI allI impI)
    show "distinct (map fst (dput k e j))" using good_distinct [OF g] by (rule distinct_dput)
  next
    fix k1 e1 assume "(if k1 = k then Some e else map_of j k1) = Some e1"
    then show "entry_ok k1 e1" "seq_num e1 \<le> m"
      using ok s good_entry [OF g, of k1 e1] less [of k1 e1] by (auto split: if_splits)
  next
    fix k1 e1 k2 e2 assume a: "(if k1 = k then Some e else map_of j k1) = Some e1"
      "(if k2 = k then Some e else map_of j k2) = Some e2" "seq_num e1 = seq_num e2"
    show "k1 = k2"
    proof (cases "k1 = k"; cases "k2 = k")
      assume "k1 \<noteq> k" "k2 \<noteq> k"
      with a good_seq [OF g, of k1 e1 k2 e2] show ?thesis by simp
    qed (use a s less [of k1 e1] less [of k2 e2] in auto)
  qed
  show "leases_ok t (dput k e j)" if l: "leases_ok t j"
    unfolding leases_ok_def map_of_dput
  proof (intro allI impI)
    fix k1 e1 assume 1: "(if k1 = k then Some e else map_of j k1) = Some e1" "t < leased_until e1"
    with until have k1: "map_of j k1 = Some e1" by (auto split: if_splits)
    show "(\<forall>k2 e2. (if k2 = k then Some e else map_of j k2) = Some e2 \<longrightarrow> holds_lane e2 \<longrightarrow>
            lane_text e1 = lane_text e2 \<longrightarrow> seq_num e1 \<le> seq_num e2) \<and> \<not> dead e1"
      using lease_first [OF l k1 1(2)] lease_alive [OF l k1 1(2)] less [OF k1] s by (auto split: if_splits)
  qed
qed

text \<open>The first entry of a lane is leased when no lease of the lane is alive.\<close>

lemma lease_keeps:
  assumes g: "good_journal n j" and l: "leases_ok t j" and e: "map_of j k = Some e" "\<not> dead e"
    and e': "shaped k e'" "get e' ''sequence'' = get e ''sequence''" "lane_text e' = lane_text e" "\<not> dead e'"
    and first: "\<And>k2 e2. map_of j k2 = Some e2 \<Longrightarrow> holds_lane e2 \<Longrightarrow> lane_text e = lane_text e2 \<Longrightarrow> seq_num e \<le> seq_num e2"
    and holds: "holds_lane e" and free: "leased_until e \<le> t"
  shows "good_journal n (dput k e' j)" and "leases_ok t (dput k e' j)"
proof -
  have s: "seq_num e' = seq_num e" using e'(2) by (simp add: seq_num_def)
  have "entry_ok k e'" using good_entry [OF g e(1)] e' by (simp add: entry_ok_def)
  with s show "good_journal n (dput k e' j)"
    using g e distinct_dput [of j k e'] unfolding good_journal_def map_of_dput by (metis option.inject)
  have others: "k1 = k" if k1: "map_of j k1 = Some e1" "t < leased_until e1" "lane_text e1 = lane_text e" for k1 e1
  proof -
    have "seq_num e1 \<le> seq_num e" by (rule lease_first [OF l k1(1,2) e(1) holds k1(3)])
    moreover have "holds_lane e1"
      using holds_shaped [OF good_shaped [OF g k1(1)]] shaped_status [OF good_shaped [OF g k1(1)]] lease_alive [OF l k1(1,2)] by simp
    then have "seq_num e \<le> seq_num e1" using first [OF k1(1)] k1(3) by simp
    ultimately show ?thesis using good_seq [OF g k1(1) e(1)] by simp
  qed
  show "leases_ok t (dput k e' j)"
    unfolding leases_ok_def map_of_dput
  proof (intro allI impI)
    fix k1 e1 assume 1: "(if k1 = k then Some e' else map_of j k1) = Some e1" "t < leased_until e1"
    show "(\<forall>k2 e2. (if k2 = k then Some e' else map_of j k2) = Some e2 \<longrightarrow> holds_lane e2 \<longrightarrow>
            lane_text e1 = lane_text e2 \<longrightarrow> seq_num e1 \<le> seq_num e2) \<and> \<not> dead e1"
    proof (cases "k1 = k")
      case True
      with 1 e'(4) s e'(3) first show ?thesis by (auto split: if_splits)
    next
      case False
      with 1 have k1: "map_of j k1 = Some e1" by simp
      with others [OF k1 1(2)] False have "lane_text e1 \<noteq> lane_text e" by auto
      with False k1 lease_first [OF l k1 1(2)] lease_alive [OF l k1 1(2)] e'(3) show ?thesis by (auto split: if_splits)
    qed
  qed
qed

end
