(* ===== verification/CallSteps.thy ===== *)
theory CallSteps
  imports CallInv
begin

text \<open>
  Every operation on the document of the calls keeps the invariant of the journal, and the loop
  that makes room ends.
\<close>

section \<open>Documents\<close>

definition seq_of :: "dict \<Rightarrow> int" where
  "seq_of s = (case dget s ''call_retry_sequence'' of PInt n \<Rightarrow> n | _ \<Rightarrow> 0)"

definition good_state :: "rat \<Rightarrow> dict \<Rightarrow> bool" where
  "good_state t s \<longleftrightarrow>
     is_dict (dget s ''call_retry_journal'') \<and> is_int (dget s ''call_retry_sequence'')
     \<and> good_journal (seq_of s) (journal_of s) \<and> leases_ok t (journal_of s)"

definition raw_state :: "json_file \<Rightarrow> dict" where
  "raw_state f = (let raw = read_json f (PDict default_work_state) in
     if is_dict raw then dict_items raw else default_work_state)"

definition good_file :: "rat \<Rightarrow> json_file \<Rightarrow> bool" where
  "good_file t f \<longleftrightarrow> good_state t (fill_defaults (raw_state f))"

definition journal_in :: "json_file \<Rightarrow> dict" where
  "journal_in f = journal_of (raw_state f)"

lemma map_of_missing:
  "map_of (add_missing d kv) k = (case map_of d k of Some v \<Rightarrow> Some v | None \<Rightarrow> if k = fst kv then Some (snd kv) else None)"
  by (auto simp: add_missing_def has_key_def split: option.split)

lemma map_of_fill:
  "map_of (foldl add_missing d defaults) k = (case map_of d k of Some v \<Rightarrow> Some v | None \<Rightarrow> map_of defaults k)"
proof (induction defaults arbitrary: d)
  case (Cons kv defaults)
  show ?case by (cases kv) (auto simp: Cons map_of_missing split: option.split)
qed (auto split: option.split)

lemma no_key: "\<not> has_key d k \<Longrightarrow> dget d k = PNone"
  by (simp add: has_key_def dget_def)

lemma dget_fill: "dget (fill_defaults d) k = (if has_key d k then dget d k else dget default_work_state k)"
  by (simp add: fill_defaults_def dget_def map_of_fill has_key_def split: option.split)

lemma journal_fill [simp]: "journal_of (fill_defaults d) = journal_of d"
  using no_key [of d "''call_retry_journal''"]
  by (auto simp: journal_of_def dget_fill default_work_state_def dget_Cons)

lemma same_fields:
  assumes "good_state t s" and "dget s' ''call_retry_journal'' = dget s ''call_retry_journal''"
    and "dget s' ''call_retry_sequence'' = dget s ''call_retry_sequence''"
  shows "good_state t s'"
  using assms by (simp add: good_state_def seq_of_def journal_of_def)

text \<open>The same document with another journal, or another sequence.\<close>

lemma good_put_journal:
  assumes "good_state t s" and "good_journal (seq_of s) j" and "leases_ok t j"
  shows "good_state t (put_journal j s)"
  using assms by (simp add: good_state_def seq_of_def journal_of_def put_journal_def)

lemma journal_put [simp]: "journal_of (put_journal j s) = j" "seq_of (put_journal j s) = seq_of s"
  by (simp_all add: journal_of_def put_journal_def seq_of_def)

lemma good_later: "good_state t s \<Longrightarrow> t \<le> u \<Longrightarrow> good_state u s"
  unfolding good_state_def by (blast intro: leases_later)

lemma sort_keys_dict: "is_dict v \<Longrightarrow> dict_items (sort_keys v) = sorted_journal (dict_items v)"
  by (cases v) (simp_all add: sorted_journal_def)

lemma raw_written: "raw_state (write_state s) = sort_key fst (map (map_prod id sort_keys) s)"
  by (simp add: raw_state_def write_state_def write_json_def read_json_def)

lemma dget_written: "dget (raw_state (write_state s)) k = sort_keys (dget s k)"
  by (simp add: raw_written)

lemma dget_fill_present: "dget d k \<noteq> PNone \<Longrightarrow> dget (fill_defaults d) k = dget d k"
  using no_key [of d k] by (auto simp: dget_fill)

theorem written_good:
  assumes "good_state t s"
  shows "good_file t (write_state s)"
proof -
  let ?d = "fill_defaults (raw_state (write_state s))"
  from assms have j: "is_dict (dget s ''call_retry_journal'')" and n: "is_int (dget s ''call_retry_sequence'')"
    by (simp_all add: good_state_def)
  from j have dj: "dget ?d ''call_retry_journal'' = sort_keys (dget s ''call_retry_journal'')"
    using dget_fill_present [of "raw_state (write_state s)" "''call_retry_journal''"] by (cases "dget s ''call_retry_journal''") (auto simp: dget_written)
  from n have dn: "dget ?d ''call_retry_sequence'' = dget s ''call_retry_sequence''"
    using dget_fill_present [of "raw_state (write_state s)" "''call_retry_sequence''"] by (cases "dget s ''call_retry_sequence''") (auto simp: dget_written)
  have "journal_of ?d = sorted_journal (journal_of s)"
    unfolding journal_of_def dj using j by (rule sort_keys_dict)
  moreover have "seq_of ?d = seq_of s" by (simp add: seq_of_def dn)
  ultimately show ?thesis
    using assms sorted_keeps [of "seq_of s" "journal_of s"] dj dn by (simp add: good_file_def good_state_def)
qed

lemma journal_in_written: "is_dict (dget s ''call_retry_journal'') \<Longrightarrow> journal_in (write_state s) = sorted_journal (journal_of s)"
  by (simp add: journal_in_def journal_of_def dget_written sort_keys_dict)

lemma new_file_good: "0 \<le> t \<Longrightarrow> good_file t Missing"
  by (simp add: good_file_def good_state_def raw_state_def read_json_def dget_fill default_work_state_def has_key_def
      dget_Cons seq_of_def journal_of_def good_journal_def leases_ok_def)

section \<open>Pruning\<close>

lemma prune_entries_filter:
  "prune_entries E j = Inr (kept, archived, calls) \<Longrightarrow> kept = filter (\<lambda>kv. judge E (snd kv) = Inr Keep) j"
proof (induction j arbitrary: kept archived calls)
  case (Cons kv j)
  obtain k e where kv: "kv = (k, e)" by fastforce
  from Cons.prems obtain v records kept' archived' calls' where v: "judge E e = Inr v"
    and r: "prune_entries E j = Inr (kept', archived', calls')"
    and kept: "kept = (if v = Keep then (k, e) # kept' else kept')"
    by (auto simp: kv bindE_eq_Inr)
  from Cons.IH [OF r] v kept show ?case by (simp add: kv)
qed simp

lemma archive_fields [simp]:
  "k \<noteq> ''call_retry_dead_letters'' \<Longrightarrow> dget (archive records s) k = dget s k"
  by (simp add: archive_def)

text \<open>What pruning does to the journal: some entries go, and none that waits and is well formed.\<close>

lemma pruned_journal:
  assumes "prune_state E s = Inr (s', changed)"
  shows "journal_of s' = filter (\<lambda>kv. judge E (snd kv) = Inr Keep) (journal_of s)
     \<and> is_dict (dget s' ''call_retry_journal'') \<and> dget s' ''call_retry_sequence'' = dget s ''call_retry_sequence''"
proof -
  from assms obtain s1 c1 s2 calls c2 where d: "prune_dedupe (we_now E) s = Inr (s1, c1)"
    and j: "prune_journal E s1 = Inr (s2, calls, c2)"
    and c: "(case dget_or s2 ''contacts'' (PDict []) of
         PDict contacts \<Rightarrow>
           bindE (prune_contacts E calls contacts) (\<lambda>contacts'.
             Inr (if has_key s2 ''contacts'' then dput ''contacts'' (PDict contacts') s2 else s2,
                  c1 \<or> c2 \<or> contacts' \<noteq> contacts))
       | _ \<Rightarrow> Inl (AttributeError ''values'')) = Inr (s', changed)"
    by (auto simp: prune_state_def bindE_eq_Inr)
  from c have 2: "dget s' k = dget s2 k" if "k \<noteq> ''contacts''" for k
    using that by (auto simp: bindE_eq_Inr split: pyv.splits if_splits)
  from d have 1: "dget s1 k = dget s k" if "k \<noteq> ''call_retry_dedupe''" for k
    using that by (auto simp: prune_dedupe_def bindE_eq_Inr split: pyv.splits)
  show ?thesis
  proof (cases "is_dict (dget s1 ''call_retry_journal'')")
    case True
    then obtain journal where jd: "dget s1 ''call_retry_journal'' = PDict journal"
      by (cases "dget s1 ''call_retry_journal''") auto
    with j obtain kept archived where k: "prune_entries E journal = Inr (kept, archived, calls)"
      and s2: "s2 = dput ''call_retry_journal'' (PDict kept) (archive archived s1)"
      by (auto simp: prune_journal_def bindE_eq_Inr)
    from prune_entries_filter [OF k] jd 1 2 s2 show ?thesis by (simp add: journal_of_def)
  next
    case False
    then have "s2 = dput ''call_retry_journal'' (PDict []) s1"
      using j by (cases "dget s1 ''call_retry_journal''") (auto simp: prune_journal_def)
    moreover from False have "journal_of s = []"
      using 1 [of "''call_retry_journal''"] by (cases "dget s ''call_retry_journal''") (auto simp: journal_of_def)
    ultimately show ?thesis using 1 2 by (simp add: journal_of_def)
  qed
qed

lemma read_journal:
  assumes "read_state_with_prune_status E f = Inr (s, changed)"
  shows "journal_of s = filter (\<lambda>kv. judge E (snd kv) = Inr Keep) (journal_in f)
     \<and> is_dict (dget s ''call_retry_journal'')
     \<and> dget s ''call_retry_sequence'' = dget (fill_defaults (raw_state f)) ''call_retry_sequence''"
proof -
  from assms obtain changed' where "prune_state E (fill_defaults (raw_state f)) = Inr (s, changed')"
    by (auto simp: read_state_with_prune_status_def raw_state_def Let_def bindE_eq_Inr)
  from pruned_journal [OF this] show ?thesis by (simp add: journal_in_def)
qed

lemma read_good_status:
  assumes "read_state_with_prune_status E f = Inr (s, changed)" and "good_file t f"
  shows "good_state t s"
proof -
  note r = read_journal [OF assms(1)]
  have q: "seq_of s = seq_of (fill_defaults (raw_state f))" using r by (simp add: seq_of_def)
  have "good_journal (seq_of s) (journal_in f)" "leases_ok t (journal_in f)"
    using assms(2) q by (simp_all add: good_file_def good_state_def journal_in_def)
  moreover have "is_int (dget s ''call_retry_sequence'')" using r assms(2) by (simp add: good_file_def good_state_def)
  ultimately show ?thesis using r filter_keeps by (simp add: good_state_def)
qed

lemma read_state_status: "read_work_state E f = Inr s \<Longrightarrow> \<exists>c. read_state_with_prune_status E f = Inr (s, c)"
  by (auto simp: read_work_state_def bindE_eq_Inr)

lemma read_good: "read_work_state E f = Inr s \<Longrightarrow> good_file t f \<Longrightarrow> good_state t s"
  using read_state_status read_good_status by blast

section \<open>Making room\<close>

lemma first_least_in:
  assumes "first_least key es = Inr (Some e)"
  shows "e \<in> set es \<and> (\<exists>k. key e = Inr k \<and> (\<forall>e2\<in>set es. \<exists>k2. key e2 = Inr k2 \<and> k \<le> k2))"
proof -
  from assms obtain kes where ne: "es \<noteq> []" and m: "mapE (\<lambda>e. bindE (key e) (\<lambda>k. Inr (k, e))) es = Inr kes"
    and e: "e = snd (arg_min_list fst kes)"
    by (auto simp: first_least_def bindE_eq_Inr split: if_splits)
  have "map snd kes = map id es"
    by (rule mapE_Inr_map [OF m]) (auto simp: bindE_eq_Inr)
  then have es: "es = map snd kes" by simp
  with ne have nek: "kes \<noteq> []" by auto
  have keys: "p \<in> set kes \<Longrightarrow> key (snd p) = Inr (fst p)" for p
    using mapE_Inr_set [OF m] by (fastforce simp: bindE_eq_Inr)
  have m: "arg_min_list fst kes \<in> set kes" by (rule arg_min_list_in [OF nek])
  have "fst (arg_min_list fst kes) \<le> fst p" if "p \<in> set kes" for p
    using that f_arg_min_list_f [OF nek, of fst] by simp
  with m keys e es show ?thesis by fastforce
qed

lemma filterE_set: "filterE p xs = Inr ys \<Longrightarrow> ys = filter (\<lambda>x. p x = Inr True) xs"
  by (induction xs arbitrary: ys) (auto simp: bindE_eq_Inr)

lemma victim_in:
  assumes "capacity_victim E j = Inr (Some (k, e))"
  shows "(k, e) \<in> set j \<and> is_dict e \<and> (\<not> dead e \<longrightarrow> failed_retry E e = Inr True)"
proof (cases "filter (\<lambda>kv. is_dict (snd kv) \<and> dead (snd kv)) j = []")
  case True
  with assms obtain es where es: "filterE (\<lambda>kv. failed_retry E (snd kv)) j = Inr es"
    and f: "first_least (\<lambda>kv. age_and_sequence ''created_at'' (snd kv)) es = Inr (Some (k, e))"
    by (auto simp: capacity_victim_def Let_def bindE_eq_Inr)
  from first_least_in [OF f] filterE_set [OF es] have "(k, e) \<in> set j" "failed_retry E e = Inr True" by auto
  then show ?thesis by (auto simp: failed_retry_def split: if_splits)
next
  case False
  with assms have f: "first_least (\<lambda>kv. age_and_sequence ''dead_lettered_at'' (snd kv))
      (filter (\<lambda>kv. is_dict (snd kv) \<and> dead (snd kv)) j) = Inr (Some (k, e))"
    by (simp add: capacity_victim_def Let_def)
  from first_least_in [OF f] show ?thesis by auto
qed

lemma overflow_fields:
  assumes "count_overflow E s = Inr s'"
  shows "dget s' ''call_retry_journal'' = dget s ''call_retry_journal''"
    "dget s' ''call_retry_sequence'' = dget s ''call_retry_sequence''"
  using assms by (auto simp: count_overflow_def bindE_eq_Inr)

lemma overflow_good: "count_overflow E s = Inr s' \<Longrightarrow> good_state t s \<Longrightarrow> good_state t s'"
  using overflow_fields same_fields by blast

lemma shaped_text: "shaped k e \<Longrightarrow> text_of rp e ''retry_id'' = k"
  by (simp add: shaped_def text_of_def)

lemma float_num: "is_float (get e k) \<Longrightarrow> \<exists>t. get e k = PFloat t \<and> num_of e k = Inr t"
  using typed_E(2) [of "get e k"] by (auto simp: num_of_def py_or_def)

lemma lease_time: "shaped k e \<Longrightarrow> num_of e ''lease_expires_at'' = Inr (leased_until e)"
  using float_num [of e "''lease_expires_at''"] by (auto simp: shaped_def leased_until_def)

lemma evicted_dict [simp]: "is_dict (evicted E e) = is_dict e"
  by (simp add: evicted_def Let_def)

lemma evicted_get: "is_dict e \<Longrightarrow> get (evicted E e) k =
   (if k = ''last_error''
    then PStr (let prior = take_cp 96 (text_of (we_repr E) e ''last_error'') in
               if prior = [] then ''capacity_evicted'' else prior @ ''|capacity_evicted'')
    else if k = ''dead_lettered_at'' then PFloat (we_now E)
    else if k = ''status'' then PStr ''dead_letter'' else get e k)"
  by (simp add: evicted_def Let_def)

lemma evicted_shaped: "shaped k e \<Longrightarrow> shaped k (evicted E e)"
  by (simp add: shaped_def evicted_get)

lemma archived_shaped: "shaped k e \<Longrightarrow> \<exists>r. archive_record E e = Inr r"
  using typed_E(3) [of "get e ''attempts''"]
  by (auto simp: shaped_def archive_record_def reference_of_def int_of_def py_or_def Let_def)

lemma dpop_dput: "dpop k (dput k v d) = dpop k d"
  unfolding dpop_alt dput_def by (induction d) auto

text \<open>One round takes exactly the victim away, or ends the loop with an error; what it archives has failed.\<close>

lemma evict_one_cases:
  assumes g: "good_state t s" and now: "we_now E \<le> t"
  obtains (raised) s' x where "evict_one E s = (s', Inl x)" and "good_state t s'" and "journal_of s' = journal_of s" and "seq_of s' = seq_of s"
  | (evicted) s' k e where "evict_one E s = (s', Inr ())" and "good_state t s'" and "map_of (journal_of s) k = Some e"
      and "\<And>k'. map_of (journal_of s') k' = (if k' = k then None else map_of (journal_of s) k')"
      and "length (journal_of s') < length (journal_of s)" and "failing e" and "seq_of s' = seq_of s"
proof (cases "capacity_victim E (journal_of s)")
  case (Inl x)
  then show thesis using g raised by (simp add: evict_one_def)
next
  case (Inr victim)
  show thesis
  proof (cases victim)
    case None
    show thesis
    proof (cases "count_overflow E s")
      case (Inl x)
      then show thesis using g Inr None raised by (simp add: evict_one_def)
    next
      case (Inr s1)
      then have "journal_of s1 = journal_of s" "seq_of s1 = seq_of s"
        using overflow_fields [OF Inr] by (simp_all add: journal_of_def seq_of_def)
      then show thesis
        using raised overflow_good [OF Inr g] Inr \<open>capacity_victim E (journal_of s) = Inr victim\<close> None
        by (simp add: evict_one_def)
    qed
  next
    case (Some v)
    obtain k e where v: "v = (k, e)" by fastforce
    note vic = victim_in [OF Inr [unfolded Some v]]
    have j: "good_journal (seq_of s) (journal_of s)" using g by (simp add: good_state_def)
    have m: "map_of (journal_of s) k = Some e" using vic good_distinct [OF j] by simp
    have sh: "shaped k e" by (rule good_shaped [OF j m])
    have err: "failing e"
      using vic by (auto simp: failing_def failed_retry_def text_of_def split: if_splits)
    have gone: "good_state t s' \<and> (\<forall>k'. map_of (journal_of s') k' = (if k' = k then None else map_of (journal_of s) k'))
        \<and> length (journal_of s') < length (journal_of s) \<and> seq_of s' = seq_of s"
      if s': "s' = put_journal (dpop k (dput k e1 (journal_of s))) s1" and g1: "good_state t s1"
        and "seq_of s1 = seq_of s" for s' s1 e1
    proof -
      have map: "map_of (dpop k (dput k e1 (journal_of s))) k' = (if k' = k then None else map_of (journal_of s) k')" for k'
        by simp
      have "dpop k (dput k e1 (journal_of s)) = dpop k (journal_of s)"
        by (rule dpop_dput)
      moreover have "length (dpop k (journal_of s)) < length (journal_of s)"
        using vic unfolding dpop_alt by (intro length_filter_less) auto
      ultimately have len: "length (dpop k (dput k e1 (journal_of s))) < length (journal_of s)" by simp
      have "good_journal (seq_of s) (dpop k (dput k e1 (journal_of s)))" "leases_ok t (dpop k (dput k e1 (journal_of s)))"
        unfolding dpop_dput using dpop_keeps [OF j] g by (auto simp: good_state_def)
      with g1 that(3) s' map len show ?thesis using good_put_journal [OF g1] by simp
    qed
    show thesis
    proof (cases "dead e")
      case True
      from archived_shaped [OF sh] obtain r where r: "archive_record E e = Inr r" by blast
      have step: "evict_one E s = (put_journal (dpop k (journal_of s)) (archive [r] s), Inr ())"
        using Inr Some v True r shaped_text [OF sh] by (simp add: evict_one_def journal_of_def)
      have "good_state t (archive [r] s)" by (rule same_fields [OF g]) simp_all
      moreover have "seq_of (archive [r] s) = seq_of s" by (simp add: seq_of_def)
      moreover have "dpop k (dput k e (journal_of s)) = dpop k (journal_of s)"
        by (rule dpop_dput)
      ultimately show thesis using evicted [OF step _ m _ _ err] gone [of _ e "archive [r] s"] by simp
    next
      case False
      show thesis
      proof (cases "count_overflow E s")
        case (Inl x)
        then show thesis using g Inr Some v False raised by (simp add: evict_one_def)
      next
        case of: (Inr s1)
        have js: "journal_of s1 = journal_of s" "seq_of s1 = seq_of s"
          using overflow_fields [OF of] by (simp_all add: journal_of_def seq_of_def)
        let ?e = "evicted E e"
        from archived_shaped [OF evicted_shaped [OF sh]] obtain r where r: "archive_record E ?e = Inr r" by blast
        let ?s1 = "put_journal (dput k ?e (journal_of s1)) s1"
        have step: "evict_one E s = (put_journal (dpop k (dput k ?e (journal_of s))) (archive [r] ?s1), Inr ())"
          using Inr Some v False of r shaped_text [OF evicted_shaped [OF sh]] js
          by (simp add: evict_one_def journal_of_def put_journal_def)
        have "leased_until e \<le> t"
          using vic False now lease_time [OF sh] by (auto simp: failed_retry_def split: if_splits)
        then have "good_journal (seq_of s) (dput k ?e (journal_of s))" "leases_ok t (dput k ?e (journal_of s))"
          using replace_keeps [OF j m evicted_shaped [OF sh, of E]] g sh
            holds_shaped [OF evicted_shaped [OF sh, of E]] holds_shaped [OF sh] shaped_status [OF sh] False
          by (simp_all add: evicted_get lane_text_def leased_until_def good_state_def shaped_def)
        then have "good_state t ?s1" using good_put_journal [OF overflow_good [OF of g]] js by simp
        then have "good_state t (archive [r] ?s1)" by (rule same_fields) simp_all
        moreover have "seq_of (archive [r] ?s1) = seq_of s" using js by (simp add: seq_of_def put_journal_def)
        ultimately show thesis using evicted [OF step _ m _ _ err] gone [of _ ?e "archive [r] ?s1"] by simp
      qed
    qed
  qed
qed

section \<open>What a run has seen\<close>

datatype call_event = Accepted string | Delivered string | Attempt_failed string

text \<open>Accepted, and since then neither delivered nor tried without success; the newest event comes first.\<close>

fun waiting :: "call_event list \<Rightarrow> string \<Rightarrow> bool" where
  "waiting [] k = False"
| "waiting (Accepted k' # tr) k = (k' = k \<or> waiting tr k)"
| "waiting (Delivered k' # tr) k = (k' \<noteq> k \<and> waiting tr k)"
| "waiting (Attempt_failed k' # tr) k = (k' \<noteq> k \<and> waiting tr k)"

text \<open>What waits is in the journal, and shows no failure; what was given up is under no lease.\<close>

definition tracked :: "(string \<Rightarrow> bool) \<Rightarrow> dict \<Rightarrow> bool" where
  "tracked w j \<longleftrightarrow> (\<forall>k. w k \<longrightarrow> map_of j k \<noteq> None) \<and> (\<forall>k e. map_of j k = Some e \<longrightarrow> failing e \<longrightarrow> \<not> w k)
     \<and> (\<forall>k e. map_of j k = Some e \<longrightarrow> dead e \<longrightarrow> token_of e = [])"

lemma tracked_present: "tracked w j \<Longrightarrow> w k \<Longrightarrow> map_of j k \<noteq> None"
  unfolding tracked_def by blast

lemma tracked_failed: "tracked w j \<Longrightarrow> map_of j k = Some e \<Longrightarrow> failing e \<Longrightarrow> \<not> w k"
  unfolding tracked_def by blast

lemma tracked_dead: "tracked w j \<Longrightarrow> map_of j k = Some e \<Longrightarrow> dead e \<Longrightarrow> token_of e = []"
  unfolding tracked_def by blast

lemma tracked_sorted: "tracked w j \<Longrightarrow> tracked w (sorted_journal j)"
  by (auto simp: tracked_def map_of_sorted_journal)

text \<open>Entries that failed may go.\<close>

lemma tracked_fewer:
  assumes tr: "tracked w j" and sub: "\<And>k e. map_of j' k = Some e \<Longrightarrow> map_of j k = Some e"
    and gone: "\<And>k e. map_of j k = Some e \<Longrightarrow> map_of j' k = None \<Longrightarrow> failing e"
  shows "tracked w j'"
  unfolding tracked_def
proof (intro conjI allI impI)
  fix k assume "w k"
  with tracked_present [OF tr this] gone [of k] tracked_failed [OF tr, of k]
  show "map_of j' k \<noteq> None" by blast
next
  fix k e assume "map_of j' k = Some e" "failing e"
  with sub tracked_failed [OF tr, of k e] show "\<not> w k" by blast
next
  fix k e assume "map_of j' k = Some e" "dead e"
  with sub tracked_dead [OF tr, of k e] show "token_of e = []" by blast
qed

lemma judge_alive: "shaped k e \<Longrightarrow> \<not> dead e \<Longrightarrow> judge E e = Inr Keep"
  by (auto simp: shaped_def judge_def well_formed_def text_of_def dest!: typed_E)

lemma tracked_pruned:
  assumes g: "good_journal n j" and tr: "tracked w j"
  shows "tracked w (filter (\<lambda>kv. judge E (snd kv) = Inr Keep) j)"
proof (rule tracked_fewer [OF tr])
  show "map_of j k = Some e" if "map_of (filter (\<lambda>kv. judge E (snd kv) = Inr Keep) j) k = Some e" for k e
    using map_of_filter_distinct [OF good_distinct [OF g] that] .
  fix k e assume e: "map_of j k = Some e" and none: "map_of (filter (\<lambda>kv. judge E (snd kv) = Inr Keep) j) k = None"
  have "judge E e \<noteq> Inr Keep"
    using none map_of_SomeD [OF e] by (auto simp: map_of_eq_None_iff image_iff)
  then show "failing e" using judge_alive [OF good_shaped [OF g e]] by (auto simp: failing_def)
qed

section \<open>Insertion\<close>

lemma make_room_ends:
  assumes "good_state t s" and "we_now E \<le> t" and "tracked w (journal_of s)"
  shows "\<exists>s' r. make_room E n s = Some (s', r) \<and> good_state t s' \<and> tracked w (journal_of s')
           \<and> seq_of s' = seq_of s \<and> (\<forall>k e. map_of (journal_of s') k = Some e \<longrightarrow> map_of (journal_of s) k = Some e)
           \<and> (r = Inr () \<longrightarrow> length (journal_of s') + n \<le> CALL_RETRY_MAX_ENTRIES)"
  using assms
proof (induction "length (journal_of s)" arbitrary: s rule: less_induct)
  case less
  show ?case
  proof (cases "length (journal_of s) + n \<le> CALL_RETRY_MAX_ENTRIES")
    case True
    then show ?thesis using less.prems by (simp add: make_room.simps)
  next
    case False
    show ?thesis
    proof (rule evict_one_cases [OF less.prems(1,2)])
      fix s' x assume "evict_one E s = (s', Inl x)" "good_state t s'" "journal_of s' = journal_of s" "seq_of s' = seq_of s"
      then show ?thesis using False less.prems(3) by (subst make_room.simps) simp
    next
      fix s' k e assume e: "evict_one E s = (s', Inr ())" "good_state t s'" "map_of (journal_of s) k = Some e"
        "\<And>k'. map_of (journal_of s') k' = (if k' = k then None else map_of (journal_of s) k')"
        "length (journal_of s') < length (journal_of s)" "failing e" "seq_of s' = seq_of s"
      have "tracked w (journal_of s')"
        by (rule tracked_fewer [OF less.prems(3)]) (use e(3,4,6) in \<open>auto split: if_splits\<close>)
      from less.hyps [OF e(5,2) less.prems(2) this] obtain s2 r2 where
        i: "make_room E n s' = Some (s2, r2)" "good_state t s2" "tracked w (journal_of s2)" "seq_of s2 = seq_of s'"
          "\<forall>k e. map_of (journal_of s2) k = Some e \<longrightarrow> map_of (journal_of s') k = Some e"
          "r2 = Inr () \<longrightarrow> length (journal_of s2) + n \<le> CALL_RETRY_MAX_ENTRIES" by blast
      have "map_of (journal_of s) k' = Some e'" if "map_of (journal_of s2) k' = Some e'" for k' e'
        using i(5) [rule_format, OF that] e(4) [of k'] by (simp split: if_splits)
      moreover have "make_room E n s = Some (s2, r2)" using False e(1) i(1) by (subst make_room.simps) simp
      ultimately show ?thesis using i e(7) by auto
    qed
  qed
qed

lemma shaped_put_sequence: "is_dict e \<Longrightarrow> shaped k (put ''sequence'' v e) = shaped k e"
  by (simp add: shaped_def)

lemma in_good_journal: "good_journal n j \<Longrightarrow> in_journal j k \<longleftrightarrow> map_of j k \<noteq> None"
  by (cases "map_of j k") (auto simp: in_journal_def dget_def shaped_def dest: good_shaped)

text \<open>New entries are appended to the sequence; those there are left alone.\<close>

lemma sources_inserted:
  assumes "good_journal n (journal_of s)" and "leases_ok t (journal_of s)" and "list_all source_ok sources" and "0 \<le> t"
    and "tracked w (journal_of s)"
  shows "\<exists>s' n' ks. insert_sources E sources n s = (s', Inr (n', ks)) \<and> n \<le> n' \<and> good_journal n' (journal_of s')
     \<and> leases_ok t (journal_of s') \<and> tracked w (journal_of s')
     \<and> (is_dict (dget s ''call_retry_journal'') \<longrightarrow> is_dict (dget s' ''call_retry_journal''))
     \<and> length (journal_of s') \<le> length (journal_of s) + length sources
     \<and> (\<forall>k e. map_of (journal_of s') k = Some e \<longrightarrow> map_of (journal_of s) k = Some e \<or> \<not> failing e)
     \<and> (\<forall>k. map_of (journal_of s) k \<noteq> None \<or> k \<in> set ks \<longrightarrow> map_of (journal_of s') k \<noteq> None)
     \<and> ks = map (retry_id_of E) sources"
  using assms
proof (induction sources arbitrary: n s)
  case Nil
  then show ?case by simp
next
  case (Cons e sources)
  from Cons.prems(3) have "source_ok e" and ok: "list_all source_ok sources" by simp_all
  then obtain k where sh: "shaped k e" and new: "get e ''status'' = PStr ''pending''"
    "get e ''lease_expires_at'' = PFloat 0" "get e ''last_error'' = PStr []"
    by (auto simp: source_ok_def)
  have k: "retry_id_of E e = k" "k \<noteq> []" "is_dict e" using sh by (simp_all add: retry_id_of_def shaped_text) (simp_all add: shaped_def)
  show ?case
  proof (cases "in_journal (journal_of s) k")
    case True
    from Cons.IH [OF Cons.prems(1,2) ok Cons.prems(4,5)] obtain s' n' ks where
      r: "insert_sources E sources n s = (s', Inr (n', ks))" "n \<le> n'" "good_journal n' (journal_of s')"
        "leases_ok t (journal_of s')" "tracked w (journal_of s')"
        "is_dict (dget s ''call_retry_journal'') \<longrightarrow> is_dict (dget s' ''call_retry_journal'')"
        "length (journal_of s') \<le> length (journal_of s) + length sources"
        "\<forall>k e. map_of (journal_of s') k = Some e \<longrightarrow> map_of (journal_of s) k = Some e \<or> \<not> failing e"
        "\<forall>k. map_of (journal_of s) k \<noteq> None \<or> k \<in> set ks \<longrightarrow> map_of (journal_of s') k \<noteq> None"
        "ks = map (retry_id_of E) sources" by auto
    have "map_of (journal_of s) k \<noteq> None" using True in_good_journal [OF Cons.prems(1)] by simp
    then have "\<forall>k'. map_of (journal_of s) k' \<noteq> None \<or> k' \<in> set (k # ks) \<longrightarrow> map_of (journal_of s') k' \<noteq> None"
      using r(9) by auto
    moreover have "insert_sources E (e # sources) n s = (s', Inr (n', k # ks))" using r(1) k True by simp
    ultimately show ?thesis using r k by fastforce
  next
    case False
    let ?e = "put ''sequence'' (PInt (n + 1)) e"
    let ?s = "put_journal (dput k ?e (journal_of s)) s"
    have none: "map_of (journal_of s) k = None" using False in_good_journal [OF Cons.prems(1)] by simp
    have she: "shaped k ?e" using sh k by (simp add: shaped_put_sequence)
    have until: "leased_until ?e \<le> t" using new k Cons.prems(4) by (simp add: leased_until_def)
    have keeps: "good_journal (n + 1) (dput k ?e (journal_of s))" "leases_ok t (dput k ?e (journal_of s))"
      using add_keeps [OF Cons.prems(1) none she _ _ until, of "n + 1"] Cons.prems(2) k by simp_all
    have "tracked w (dput k ?e (journal_of s))"
      unfolding tracked_def map_of_dput
    proof (intro conjI allI impI)
      fix k' assume "w k'"
      from tracked_present [OF Cons.prems(5) this]
      show "(if k' = k then Some ?e else map_of (journal_of s) k') \<noteq> None" by auto
    next
      fix k' e' assume "(if k' = k then Some ?e else map_of (journal_of s) k') = Some e'" "failing e'"
      then show "\<not> w k'"
        using new k tracked_failed [OF Cons.prems(5), of k' e'] by (auto simp: failing_def dead_def split: if_splits)
    next
      fix k' e' assume "(if k' = k then Some ?e else map_of (journal_of s) k') = Some e'" "dead e'"
      then show "token_of e' = []"
        using new k tracked_dead [OF Cons.prems(5), of k' e'] by (auto simp: dead_def split: if_splits)
    qed
    with Cons.IH [of "n + 1" ?s, simplified, OF keeps ok Cons.prems(4)] obtain s' n' ks where
      r: "insert_sources E sources (n + 1) ?s = (s', Inr (n', ks))" "n + 1 \<le> n'" "good_journal n' (journal_of s')"
        "leases_ok t (journal_of s')" "tracked w (journal_of s')"
        "is_dict (dget ?s ''call_retry_journal'') \<longrightarrow> is_dict (dget s' ''call_retry_journal'')"
        "length (journal_of s') \<le> length (dput k ?e (journal_of s)) + length sources"
        "\<forall>k' e'. map_of (journal_of s') k' = Some e' \<longrightarrow> map_of (dput k ?e (journal_of s)) k' = Some e' \<or> \<not> failing e'"
        "\<forall>k'. map_of (dput k ?e (journal_of s)) k' \<noteq> None \<or> k' \<in> set ks \<longrightarrow> map_of (journal_of s') k' \<noteq> None"
        "ks = map (retry_id_of E) sources" by auto
    have "map_of (journal_of s) k' = Some e' \<or> \<not> failing e'" if "map_of (journal_of s') k' = Some e'" for k' e'
    proof -
      have "\<not> failing ?e" using new k by (simp add: failing_def dead_def)
      with r(8) [rule_format, OF that] none show ?thesis by (auto split: if_splits)
    qed
    moreover
    have "is_dict (dget ?s ''call_retry_journal'')" by (simp add: put_journal_def)
    moreover have "map_of (journal_of s') k' \<noteq> None" if "map_of (journal_of s) k' \<noteq> None \<or> k' \<in> set (k # ks)" for k'
      using r(9) [rule_format, of k'] that by (auto split: if_splits)
    moreover have "insert_sources E (e # sources) n s = (s', Inr (n', k # ks))" using r(1) k False by simp
    ultimately show ?thesis using r k length_dput [of k ?e "journal_of s"] by auto
  qed
qed

lemma inserted_good:
  assumes g: "good_state t s" and now: "we_now E = t" "0 \<le> t" and ok: "list_all source_ok sources"
    and tr: "tracked w (journal_of s)"
  shows "\<exists>s' r. insert_in_state E sources key kind doc s = Some (s', r) \<and> good_state t s' \<and> tracked w (journal_of s')
     \<and> (\<forall>k e. map_of (journal_of s') k = Some e \<longrightarrow> map_of (journal_of s) k = Some e \<or> \<not> failing e)
     \<and> (key = [] \<longrightarrow> (\<forall>ks. r = Inr ks \<longrightarrow> ks = map (retry_id_of E) sources \<and> (\<forall>k\<in>set ks. map_of (journal_of s') k \<noteq> None)))"
proof (cases "key \<noteq> [] \<and> is_dict (receipt_of s key)")
  case True
  then show ?thesis using g tr by (simp add: insert_in_state_def)
next
  case False
  from g obtain n where n: "dget s ''call_retry_sequence'' = PInt n" using typed_E(3) by (auto simp: good_state_def)
  then have i: "int_of (PDict s) ''call_retry_sequence'' = Inr n" by (auto simp: int_of_def py_or_def)
  from make_room_ends [OF g _ tr, of E] now obtain s1 r1 where
    m: "make_room E (new_count E (journal_of s) sources) s = Some (s1, r1)" "good_state t s1" "tracked w (journal_of s1)"
      "seq_of s1 = seq_of s" "\<forall>k e. map_of (journal_of s1) k = Some e \<longrightarrow> map_of (journal_of s) k = Some e" by blast
  show ?thesis
  proof (cases r1)
    case (Inl x)
    then show ?thesis using False i m by (auto simp: insert_in_state_def)
  next
    case (Inr u)
    have "seq_of s1 = n" using m(4) n by (simp add: seq_of_def)
    with m(2) have g1: "good_journal n (journal_of s1)" "leases_ok t (journal_of s1)" "is_dict (dget s1 ''call_retry_journal'')"
      by (simp_all add: good_state_def)
    from sources_inserted [OF g1(1,2) ok now(2) m(3)] g1(3) obtain s2 n' ks where
      r: "insert_sources E sources n s1 = (s2, Inr (n', ks))" "good_journal n' (journal_of s2)" "leases_ok t (journal_of s2)"
        "tracked w (journal_of s2)" "is_dict (dget s2 ''call_retry_journal'')"
        "\<forall>k e. map_of (journal_of s2) k = Some e \<longrightarrow> map_of (journal_of s1) k = Some e \<or> \<not> failing e"
        "\<forall>k. map_of (journal_of s1) k \<noteq> None \<or> k \<in> set ks \<longrightarrow> map_of (journal_of s2) k \<noteq> None"
        "ks = map (retry_id_of E) sources" by blast
    let ?s3 = "dput ''call_retry_sequence'' (PInt n') s2"
    let ?s4 = "if key = [] then ?s3 else dput ''call_retry_dedupe'' (PDict (dput key (call_receipt E ks kind doc)
                 (dict_items (dget ?s3 ''call_retry_dedupe'')))) ?s3"
    have "insert_in_state E sources key kind doc s = Some (?s4, Inr ks)"
      using False i m(1) Inr r(1) by (auto simp: insert_in_state_def Let_def)
    moreover have "good_state t ?s4" and j: "journal_of ?s4 = journal_of s2"
      using r by (auto simp: good_state_def seq_of_def journal_of_def)
    moreover have "map_of (journal_of s) k = Some e \<or> \<not> failing e" if "map_of (journal_of s2) k = Some e" for k e
      using r(6) m(5) that by blast
    moreover have "map_of (journal_of s2) k \<noteq> None" if "k \<in> set ks" for k using r(7) that by blast
    ultimately show ?thesis using r(4,8) by (intro exI [of _ ?s4] exI [of _ "Inr ks"]) (simp only: j, blast)
  qed
qed

end
