(* ===== verification/CallCards.thy ===== *)
theory CallCards
  imports CallJournal
begin

text \<open>
  Call cards of \<open>core/work_updates.py\<close>: the mutations that create and change a card, the correlation of
  the two sides of a call, the delivery of a journaled mutation, and the calls that end by idleness.
  The own profile, the rooms of contacts, fresh identifiers and the Interface client are
  parameters; one operation sees one reading of the clock.
\<close>

section \<open>Mutations\<close>

definition transcript_row :: "(pyv \<Rightarrow> string) \<Rightarrow> string \<Rightarrow> pyv \<Rightarrow> pyv" where
  "transcript_row rp fallback row =
     (let created_at = py_str rp (py_or (get row ''created_at'') (PStr fallback));
          row1 = put ''created_at'' (PStr created_at) row in
      put ''updated_at'' (PStr (py_str rp (py_or (get row1 ''updated_at'') (PStr created_at)))) row1)"

definition transcript_timestamps :: "wenv \<Rightarrow> pyv \<Rightarrow> string \<Rightarrow> pyv list" where
  "transcript_timestamps E transcript occurred_at =
     map (transcript_row (we_repr E) (if occurred_at = [] then we_utc E else occurred_at))
       (filter is_dict (list_items transcript))"

definition new_call_retry_entry :: "wenv \<Rightarrow> string \<Rightarrow> string \<Rightarrow> string \<Rightarrow> pyv \<Rightarrow> pyv \<Rightarrow> pyv" where
  "new_call_retry_entry E retry_id operation direction reference payload =
     PDict [(''retry_id'', PStr retry_id), (''operation'', PStr operation), (''direction'', PStr direction),
            (''reference'', reference), (''payload'', payload), (''lane'', PStr (call_retry_lane E reference)),
            (''status'', PStr ''pending''), (''attempts'', PInt 0), (''created_at'', PFloat (we_now E)),
            (''last_attempt_at'', PFloat 0), (''next_attempt_at'', PFloat 0), (''last_error'', PStr []),
            (''lease_owner'', PStr []), (''lease_token'', PStr []), (''lease_expires_at'', PFloat 0)]"

text \<open>A row of a transcript, as both directions build it.\<close>

definition new_row :: "string \<Rightarrow> string \<Rightarrow> string \<Rightarrow> string \<Rightarrow> string \<Rightarrow> string \<Rightarrow> pyv" where
  "new_row transcript_id kind speaker_id speaker_name body occurred_at =
     PDict [(''transcript_id'', PStr transcript_id), (''speaker_kind'', PStr kind),
            (''speaker_id'', PStr speaker_id), (''speaker_name'', PStr speaker_name),
            (''body'', PStr body), (''blocks'', PList []), (''revision'', PInt 0),
            (''created_at'', PStr occurred_at), (''updated_at'', PStr occurred_at)]"

definition peer_kind :: "(pyv \<Rightarrow> string) \<Rightarrow> pyv \<Rightarrow> string \<Rightarrow> string" where
  "peer_kind rp r k = (if text_of rp r k = ''silicon'' then ''silicon'' else ''manager'')"

definition or_text :: "string \<Rightarrow> string \<Rightarrow> string" where
  "or_text a b = (if a = [] then b else a)"

text \<open>\<open>own_name\<close> is the name of the own profile, \<open>room_of\<close> the room of a contact.\<close>

definition outbound_parts ::
  "wenv \<Rightarrow> string \<Rightarrow> pyv \<Rightarrow> string \<Rightarrow> string \<Rightarrow> string \<Rightarrow> string \<times> string \<times> string \<times> pyv \<times> string" where
  "outbound_parts E own_name r target_name message occurred_at =
     (let rp = we_repr E; call_id = text_of rp r ''call_id''; target_id = text_of rp r ''target_id'';
          kind = peer_kind rp r ''target_kind''; name = or_text target_name target_id;
          speaker = or_text (text_of rp r ''speaker_name'') (or_text own_name ''Silicon manager'') in
      (target_id, kind, name,
       new_row (stable_id E ''transcript-outbound'' [call_id]) ''manager''
         (safe_fragment E (''manager:'' @ text_of rp r ''owner_contact_id'') ''manager'') speaker message occurred_at,
       if kind = ''silicon'' then ''Called '' @ name else ''Calling '' @ name))"

definition inbound_parts :: "wenv \<Rightarrow> pyv \<Rightarrow> string \<Rightarrow> string \<times> string \<times> string \<times> pyv \<times> string" where
  "inbound_parts E r occurred_at =
     (let rp = we_repr E; call_id = text_of rp r ''call_id''; target_id = text_of rp r ''source_id'';
          kind = peer_kind rp r ''source_kind''; name = or_text (text_of rp r ''source_name'') target_id in
      (target_id, kind, name,
       new_row (stable_id E ''transcript-inbound'' [call_id]) kind
         (safe_fragment E (if kind = ''silicon'' then target_id else ''manager:'' @ target_id) ''speaker'') name
         (text_of rp r ''message'') occurred_at,
       ''Received call from '' @ name))"

definition call_create_payload ::
  "wenv \<Rightarrow> string \<Rightarrow> (string \<Rightarrow> string) \<Rightarrow> string \<Rightarrow> pyv \<Rightarrow> string \<Rightarrow> string \<Rightarrow> string \<Rightarrow> pyv result" where
  "call_create_payload E own_name room_of direction r target_name message occurred_at0 =
     (let rp = we_repr E; owner = text_of rp r ''owner_contact_id''; task_id = text_of rp r ''task_id'';
          call_id = text_of rp r ''call_id''; event_id = text_of rp r ''work_event_id'';
          occurred_at = or_text occurred_at0 (we_utc E) in
      if owner = [] \<or> call_id = [] then Inl (work_update_error ''Call retry requires an owner and call_id.'')
      else if direction \<notin> set [''outbound'', ''inbound''] then Inl (ValueError ''call retry direction is invalid'')
      else case (if direction = ''outbound'' then outbound_parts E own_name r target_name message occurred_at
                 else inbound_parts E r occurred_at) of
        (target_id, kind, name, row, body) \<Rightarrow>
          (let payload = [(''call_id'', PStr call_id),
                 (''work_event_id'', PStr (or_text event_id (stable_id E ''call-event'' [owner, task_id, call_id]))),
                 (''kind'', PStr ''call''), (''direction'', PStr direction), (''target_kind'', PStr kind),
                 (''target_id'', PStr (safe_fragment E target_id ''unknown'')), (''target_name'', PStr name),
                 (''state'', PStr ''in_progress''), (''body'', PStr body), (''blocks'', PList []),
                 (''transcript'', PList [row]),
                 (''client_id'', PStr (stable_id E ''create-call''
                    [or_text task_id (text_of rp r ''room_id''), call_id]))];
               room_id = or_text (text_of rp r ''room_id'') (room_of owner) in
           if task_id \<noteq> [] then Inr (PDict payload)
           else if room_id = [] then Inl (work_update_error ''Standalone call retry requires a room.'')
           else Inr (PDict (payload @ [(''room_id'', PStr room_id)]))))"

definition with_room_and_speaker :: "wenv \<Rightarrow> string \<Rightarrow> (string \<Rightarrow> string) \<Rightarrow> string \<Rightarrow> pyv \<Rightarrow> pyv" where
  "with_room_and_speaker E own_name room_of direction r =
     (let owner = text_of (we_repr E) r ''owner_contact_id'';
          r1 = (if \<not> truthy (get r ''room_id'') \<and> owner \<noteq> [] then put ''room_id'' (PStr (room_of owner)) r else r) in
      if direction = ''outbound'' then put ''speaker_name'' (PStr (or_text own_name ''Silicon manager'')) r1 else r1)"

text \<open>The receipt keeps the identity of the call, not what was said.\<close>

definition receipt_reference :: "pyv \<Rightarrow> pyv" where
  "receipt_reference r =
     PDict (filter (\<lambda>kv. fst kv \<notin> set [''message'', ''source_name'', ''speaker_name'', ''target_name'']) (dict_items r))"

definition journal_call_create ::
  "wenv \<Rightarrow> string \<Rightarrow> (string \<Rightarrow> string) \<Rightarrow> string \<Rightarrow> pyv \<Rightarrow> string \<Rightarrow> string \<Rightarrow> string \<Rightarrow> json_file
     \<Rightarrow> (json_file \<times> string result) option" where
  "journal_call_create E own_name room_of direction r0 target_name message dedupe_key f =
     (let r = with_room_and_speaker E own_name room_of direction r0 in
      case call_create_payload E own_name room_of direction r target_name message (we_utc E) of
        Inl e \<Rightarrow> Some (f, Inl e)
      | Inr payload \<Rightarrow>
          map_option (\<lambda>m. bindS m (\<lambda>f1 ids. (f1, case ids of [] \<Rightarrow> Inl (OtherError ''IndexError'' []) | i # _ \<Rightarrow> Inr i)))
            (insert_entries E [new_call_retry_entry E (call_retry_id E direction r) ''create'' direction r payload]
               dedupe_key ''create'' (receipt_reference r) f))"

definition call_patch_entry :: "wenv \<Rightarrow> pyv \<Rightarrow> dict \<Rightarrow> string \<Rightarrow> string \<Rightarrow> string \<Rightarrow> pyv result" where
  "call_patch_entry E r payload mutation_id direction occurred_at0 =
     (let rp = we_repr E; owner = text_of rp r ''owner_contact_id''; call_id = text_of rp r ''call_id'';
          occurred_at = or_text occurred_at0 (we_utc E); p1 = dpop ''revision'' payload;
          p2 = (if has_key p1 ''transcript''
                then dput ''transcript'' (PList (transcript_timestamps E (dget p1 ''transcript'') occurred_at)) p1 else p1) in
      if owner = [] \<or> call_id = [] then Inl (work_update_error ''Call mutation requires an owner and call_id.'')
      else Inr (new_call_retry_entry E
             (stable_id E ''call-mutation-retry'' [owner, text_of rp r ''task_id'', call_id, mutation_id]) ''patch''
             direction r
             (PDict (dput ''client_id'' (PStr (stable_id E ''call-mutation'' [owner, call_id, mutation_id])) p2))))"

definition journal_call_patch ::
  "wenv \<Rightarrow> pyv \<Rightarrow> dict \<Rightarrow> string \<Rightarrow> string \<Rightarrow> string \<Rightarrow> json_file \<Rightarrow> (json_file \<times> string result) option" where
  "journal_call_patch E r payload mutation_id0 direction occurred_at f =
     (let mutation_id = or_text mutation_id0 (new_id E ''call-mutation'' (text_of (we_repr E) r ''call_id'')) in
      case call_patch_entry E r payload mutation_id direction occurred_at of
        Inl e \<Rightarrow> Some (f, Inl e)
      | Inr entry \<Rightarrow>
          map_option (\<lambda>m. bindS m (\<lambda>f1 ids. (f1, case ids of [] \<Rightarrow> Inl (OtherError ''IndexError'' []) | i # _ \<Rightarrow> Inr i)))
            (insert_entries E [entry] [] [] PNone f))"

section \<open>Correlations\<close>

definition side_field :: "string \<Rightarrow> string \<Rightarrow> string" where
  "side_field side k = side @ ''_'' @ k"

definition has_call_reference :: "pyv \<Rightarrow> string \<Rightarrow> bool" where
  "has_call_reference c side \<longleftrightarrow>
     truthy (get c (side_field side ''owner_contact_id'')) \<and> truthy (get c (side_field side ''call_id''))"

definition call_role_for_owner :: "(pyv \<Rightarrow> string) \<Rightarrow> pyv \<Rightarrow> string \<Rightarrow> string" where
  "call_role_for_owner rp c contact_id =
     (case filter (\<lambda>side. has_call_reference c side \<and> text_of rp c (side_field side ''owner_contact_id'') = contact_id)
             [''outbound'', ''inbound''] of
        [] \<Rightarrow> [] | side # _ \<Rightarrow> side)"

definition side_reference :: "(pyv \<Rightarrow> string) \<Rightarrow> pyv \<Rightarrow> string \<Rightarrow> dict" where
  "side_reference rp c side =
     map (\<lambda>k. (k, PStr (text_of rp c (side_field side k)))) [''owner_contact_id'', ''task_id'', ''call_id'', ''work_event_id'']"

definition call_reference_for_owner :: "(pyv \<Rightarrow> string) \<Rightarrow> pyv \<Rightarrow> string \<Rightarrow> dict" where
  "call_reference_for_owner rp c contact_id =
     (let side = call_role_for_owner rp c contact_id in
      if side = [] then [] else side_reference rp c side @ [(''continuation_role'', PStr side)])"

text \<open>The correlations of a document, and a change of some of them.\<close>

definition contacts_of :: "dict \<Rightarrow> dict" where
  "contacts_of state = dict_items (dget state ''contacts'')"

definition correlations :: "dict \<Rightarrow> pyv list" where
  "correlations state =
     filter is_dict (concat (map (\<lambda>kv. map snd (dict_items (get (snd kv) ''pending_calls''))) (contacts_of state)))"

definition on_pending :: "(dict \<Rightarrow> dict) \<Rightarrow> dict \<Rightarrow> dict" where
  "on_pending g state =
     dput ''contacts'' (PDict (map (\<lambda>(k, c).
       (k, case get c ''pending_calls'' of PDict d \<Rightarrow> put ''pending_calls'' (PDict (g d)) c | _ \<Rightarrow> c)) (contacts_of state))) state"

definition change_correlations :: "(pyv \<Rightarrow> bool) \<Rightarrow> (pyv \<Rightarrow> pyv) \<Rightarrow> dict \<Rightarrow> dict" where
  "change_correlations p g = on_pending (map (\<lambda>(k, c). (k, if is_dict c \<and> p c then g c else c)))"

text \<open>\<open>call_id in {...}\<close> on the two raw identifiers; a list or dictionary has no hash.\<close>

definition unhashable :: "pyv \<Rightarrow> bool" where
  "unhashable v \<longleftrightarrow> is_dict v \<or> is_list v"

definition no_hash :: "pyv \<Rightarrow> bool" where
  "no_hash c \<longleftrightarrow> unhashable (get c ''outbound_call_id'') \<or> unhashable (get c ''inbound_call_id'')"

definition has_call :: "string \<Rightarrow> pyv \<Rightarrow> bool" where
  "has_call call_id c \<longleftrightarrow> get c ''outbound_call_id'' = PStr call_id \<or> get c ''inbound_call_id'' = PStr call_id"

definition held_calls :: "wenv \<Rightarrow> dict \<Rightarrow> string list result" where
  "held_calls E state =
     mapE (\<lambda>e. bindE (reference_of e) (\<lambda>r. Inr (text_of (we_repr E) r ''call_id'')))
       (filter (\<lambda>e. is_dict e \<and> holds_lane e) (map snd (journal_of state)))"

definition clearable :: "wenv \<Rightarrow> string \<Rightarrow> string list \<Rightarrow> pyv \<Rightarrow> bool" where
  "clearable E call_id held c \<longleftrightarrow>
     is_dict c \<and> has_call call_id c \<and> truthy (get c ''terminal_requested'')
     \<and> (\<forall>i\<in>set (call_ids_of (we_repr E) c). i \<notin> set held)"

definition clear_call_correlations :: "wenv \<Rightarrow> string \<Rightarrow> json_file \<Rightarrow> json_file \<times> unit result" where
  "clear_call_correlations E call_id f =
     bindS (f, read_work_state E f) (\<lambda>f1 state.
     bindS (f1, held_calls E state) (\<lambda>f2 held.
       if list_ex no_hash (correlations state) then (f2, Inl (TypeError ''unhashable type''))
       else if list_ex (clearable E call_id held) (correlations state)
       then (write_state (on_pending (filter (\<lambda>kv. \<not> clearable E call_id held (snd kv))) state), Inr ())
       else (f2, Inr ())))"

definition mark_call_correlations_terminal :: "wenv \<Rightarrow> string \<Rightarrow> json_file \<Rightarrow> json_file \<times> unit result" where
  "mark_call_correlations_terminal E call_id f =
     bindS (f, read_work_state E f) (\<lambda>f1 state.
       if list_ex no_hash (correlations state) then (f1, Inl (TypeError ''unhashable type''))
       else if list_ex (has_call call_id) (correlations state)
       then (write_state (change_correlations (has_call call_id) (put ''terminal_requested'' (PBool True)) state), Inr ())
       else (f1, Inr ()))"

definition touches :: "wenv \<Rightarrow> string list \<Rightarrow> pyv \<Rightarrow> bool" where
  "touches E ids c \<longleftrightarrow> (\<exists>i\<in>set (call_ids_of (we_repr E) c). i \<in> set ids)"

definition touch_call_correlations :: "wenv \<Rightarrow> string list \<Rightarrow> json_file \<Rightarrow> json_file \<times> bool result" where
  "touch_call_correlations E ids0 f =
     (let ids = filter (\<lambda>i. i \<noteq> []) ids0 in
      if ids = [] then (f, Inr False)
      else bindS (f, read_work_state E f) (\<lambda>f1 state.
           let hits = filter (touches E ids) (correlations state) in
           if hits = [] \<or> list_ex (\<lambda>c. truthy (get c ''terminal_requested'')) hits then (f1, Inr False)
           else (write_state (change_correlations (touches E ids) (put ''updated_at'' (PFloat (we_now E))) state),
                 Inr True)))"

definition correlation_identity :: "(pyv \<Rightarrow> string) \<Rightarrow> pyv \<Rightarrow> string list" where
  "correlation_identity rp c =
     map (text_of rp c) [''outbound_owner_contact_id'', ''outbound_task_id'', ''outbound_call_id'',
                         ''inbound_owner_contact_id'', ''inbound_task_id'', ''inbound_call_id'']"

text \<open>Work of a manager refreshes the live calls it owns, every copy of them or none.\<close>

definition touch_manager_call_activity :: "wenv \<Rightarrow> string \<Rightarrow> json_file \<Rightarrow> json_file \<times> bool result" where
  "touch_manager_call_activity E contact_id f =
     (if contact_id = [] then (f, Inr False)
      else bindS (f, read_work_state E f) (\<lambda>f1 state.
           let identity = correlation_identity (we_repr E);
               own = filter is_dict (map snd (dict_items (get (dget (contacts_of state) contact_id) ''pending_calls'')));
               ids = map identity (filter (\<lambda>c. \<not> truthy (get c ''terminal_requested'')
                                             \<and> (\<exists>t\<in>set (identity c). t \<noteq> [])) own);
               live = filter (\<lambda>i. \<not> list_ex (\<lambda>c. identity c = i \<and> truthy (get c ''terminal_requested''))
                                      (correlations state)) ids in
           if live = [] then (f1, Inr False)
           else (write_state (change_correlations (\<lambda>c. identity c \<in> set live)
                                (put ''updated_at'' (PFloat (we_now E))) state), Inr True)))"

section \<open>Calls to others\<close>

definition active_task_id :: "wenv \<Rightarrow> string \<Rightarrow> json_file \<Rightarrow> string result" where
  "active_task_id E contact_id f =
     bindE (read_work_state E f) (\<lambda>state. bindE (contact_state contact_id state) (\<lambda>(s, c).
       Inr (str_or_empty (we_repr E) (dget c ''active_task_id''))))"

text \<open>The correlation of a contact with a peer, an empty dictionary when there is none.\<close>

definition pending_call :: "wenv \<Rightarrow> string \<Rightarrow> string \<Rightarrow> json_file \<Rightarrow> pyv result" where
  "pending_call E contact_id peer_id f =
     bindE (read_work_state E f) (\<lambda>state. bindE (contact_state contact_id state) (\<lambda>(s, c).
       case dget c ''pending_calls'' of
         PDict d \<Rightarrow> Inr (py_or (dget d peer_id) (PDict []))
       | _ \<Rightarrow> Inl (AttributeError ''get'')))"

definition prepare_outbound_call ::
  "wenv \<Rightarrow> string \<Rightarrow> string \<Rightarrow> string \<Rightarrow> string \<Rightarrow> json_file \<Rightarrow> pyv result" where
  "prepare_outbound_call E contact_id kind0 target_id task0 f =
     (let rp = we_repr E; kind = (if kind0 = ''silicon'' then ''silicon'' else ''manager'') in
      bindE (if task0 \<noteq> [] then Inr task0 else active_task_id E contact_id f) (\<lambda>task_id.
      bindE (pending_call E contact_id target_id f) (\<lambda>c.
        if \<not> is_dict c then Inl (AttributeError ''get'')
        else if \<not> truthy (get c ''terminal_requested'') \<and> (has_call_reference c ''outbound'' \<or> has_call_reference c ''inbound'')
        then Inr (put_fields [(''target_kind'', PStr kind), (''target_id'', PStr target_id), (''continuation'', PBool True)]
                    (PDict (call_reference_for_owner rp c contact_id)))
        else (let call_id = new_id E ''call'' target_id in
              Inr (PDict [(''owner_contact_id'', PStr contact_id), (''task_id'', PStr task_id), (''call_id'', PStr call_id),
                          (''work_event_id'', PStr (stable_id E ''call-event'' [contact_id, task_id, call_id])),
                          (''target_kind'', PStr kind), (''target_id'', PStr target_id)])))))"

text \<open>A continuation whose call ended meanwhile becomes a continuation of the current call or a new one.\<close>

definition refresh_stale_call_continuation :: "wenv \<Rightarrow> pyv \<Rightarrow> json_file \<Rightarrow> pyv result" where
  "refresh_stale_call_continuation E r f =
     (let rp = we_repr E; owner = text_of rp r ''owner_contact_id''; target_id = text_of rp r ''target_id'' in
      if \<not> truthy (get r ''continuation'') then Inr r
      else bindE (pending_call E owner target_id f) (\<lambda>c.
           if \<not> is_dict c then Inl (AttributeError ''get'')
           else let current = PDict (call_reference_for_owner rp c owner) in
                if truthy c \<and> \<not> truthy (get c ''terminal_requested'')
                   \<and> text_of rp current ''call_id'' = text_of rp r ''call_id''
                then Inr r
                else prepare_outbound_call E owner
                       (py_str rp (py_or (get r ''target_kind'') (PStr ''manager''))) target_id (text_of rp r ''task_id'') f))"

definition put_pending_call :: "string \<Rightarrow> string \<Rightarrow> pyv \<Rightarrow> dict \<Rightarrow> dict result" where
  "put_pending_call contact_id peer_id c state =
     bindE (contact_state contact_id state) (\<lambda>(s, contact).
     bindE (section_of ''pending_calls'' contact) (\<lambda>calls.
       Inr (dput ''contacts'' (PDict (dput contact_id
              (PDict (dput ''pending_calls'' (PDict (dput peer_id c calls)) contact)) (contacts_of s))) s)))"

definition remember_outbound_call_reference :: "wenv \<Rightarrow> pyv \<Rightarrow> json_file \<Rightarrow> json_file \<times> unit result" where
  "remember_outbound_call_reference E r f =
     (let rp = we_repr E; contact_id = text_of rp r ''owner_contact_id''; target_id = text_of rp r ''target_id'';
          call_id = text_of rp r ''call_id'';
          c = PDict [(''outbound_owner_contact_id'', PStr contact_id), (''outbound_task_id'', PStr (text_of rp r ''task_id'')),
                     (''outbound_call_id'', PStr call_id), (''outbound_work_event_id'', PStr (text_of rp r ''work_event_id'')),
                     (''inbound_owner_contact_id'', PStr []), (''inbound_task_id'', PStr []), (''inbound_call_id'', PStr []),
                     (''inbound_work_event_id'', PStr []), (''source_kind'', PStr (text_of rp r ''target_kind'')),
                     (''source_id'', PStr target_id), (''updated_at'', PFloat (we_now E))] in
      if truthy (get r ''continuation'') \<or> contact_id = [] \<or> target_id = [] \<or> call_id = [] then (f, Inr ())
      else bindS (f, read_work_state E f) (\<lambda>f1 state.
           bindS (f1, put_pending_call contact_id target_id c state) (\<lambda>f2 s. (write_state s, Inr ()))))"

text \<open>The mutations of both sides of a call by one message.\<close>

definition append_entry ::
  "wenv \<Rightarrow> pyv \<Rightarrow> string \<Rightarrow> string \<Rightarrow> string \<Rightarrow> string \<Rightarrow> string \<Rightarrow> bool \<Rightarrow> string \<Rightarrow> pyv result" where
  "append_entry E c message_id kind speaker_id speaker_name message terminal side =
     call_patch_entry E (PDict (side_reference (we_repr E) c side))
       [(''state'', PStr (if terminal then ''completed'' else ''in_progress'')),
        (''transcript'', PList [new_row (stable_id E ''transcript-message'' [message_id, side])
           (if kind = ''silicon'' then ''silicon'' else ''manager'') (safe_fragment E speaker_id ''speaker'')
           (or_text speaker_name speaker_id) message (we_utc E)])]
       (message_id @ '':'' @ side) side (we_utc E)"

definition sides_of :: "(pyv \<Rightarrow> string) \<Rightarrow> pyv \<Rightarrow> string list" where
  "sides_of rp c =
     filter (\<lambda>side. text_of rp c (side_field side ''owner_contact_id'') \<noteq> [] \<and> text_of rp c (side_field side ''call_id'') \<noteq> [])
       [''outbound'', ''inbound'']"

definition mark_all_terminal :: "wenv \<Rightarrow> string list \<Rightarrow> json_file \<Rightarrow> json_file \<times> unit result" where
  "mark_all_terminal E call_ids f =
     foldl (\<lambda>m i. bindS m (\<lambda>f u. mark_call_correlations_terminal E i f)) (f, Inr ()) call_ids"

text \<open>Accepted or not, and the retries to schedule.\<close>

definition append_correlated_call ::
  "wenv \<Rightarrow> pyv \<Rightarrow> string \<Rightarrow> string \<Rightarrow> string \<Rightarrow> string \<Rightarrow> string \<Rightarrow> bool \<Rightarrow> json_file
     \<Rightarrow> (json_file \<times> (bool \<times> string list) result) option" where
  "append_correlated_call E c kind speaker_id speaker_name message dedupe_key terminal f =
     (let rp = we_repr E;
          message_id = (if dedupe_key \<noteq> [] then stable_id E ''call-message'' [dedupe_key] else new_id E ''call-message'' []) in
      case touch_call_correlations E (call_ids_of rp c) f of
        (f1, Inl e) \<Rightarrow> Some (f1, Inl e)
      | (f1, Inr touched) \<Rightarrow>
          if \<not> touched \<or> sides_of rp c = [] then Some (f1, Inr (False, []))
          else case mapE (append_entry E c message_id kind speaker_id speaker_name message terminal) (sides_of rp c) of
                 Inl e \<Rightarrow> Some (f1, Inl e)
               | Inr entries \<Rightarrow>
                   (case dedupe_receipt E dedupe_key f1 of
                      Inl e \<Rightarrow> Some (f1, Inl e)
                    | Inr r \<Rightarrow>
                        if get r ''kind'' = PStr ''create''
                        then Some (f1, bindE (retry_ids_of E r) (\<lambda>ids. Inr (True, ids)))
                        else map_option (\<lambda>m. bindS m (\<lambda>f2 ids.
                               bindS (if terminal
                                      then mark_all_terminal E
                                             (map (\<lambda>e. text_of rp (get e ''reference'') ''call_id'') entries) f2
                                      else (f2, Inr ())) (\<lambda>f3 u. (f3, Inr (True, ids)))))
                               (insert_entries E entries dedupe_key ''append'' PNone f1)))"

text \<open>A primary message was accepted: its card is journaled. Accepted or not, the reference as it is then, the retries to schedule.\<close>

definition enqueue_outbound_call ::
  "wenv \<Rightarrow> string \<Rightarrow> (string \<Rightarrow> string) \<Rightarrow> pyv \<Rightarrow> string \<Rightarrow> string \<Rightarrow> string \<Rightarrow> json_file
     \<Rightarrow> (json_file \<times> (bool \<times> pyv \<times> string list) result) option" where
  "enqueue_outbound_call E own_name room_of r0 target_name message dedupe_key f =
     (let rp = we_repr E in
      case (if truthy (get r0 ''continuation'') then dedupe_receipt E dedupe_key f else Inr (PDict [])) of
        Inl e \<Rightarrow> Some (f, Inl e)
      | Inr seen \<Rightarrow>
        if get seen ''kind'' = PStr ''append'' then Some (f, Inr (True, r0, []))
        else case refresh_stale_call_continuation E r0 f of
          Inl e \<Rightarrow> Some (f, Inl e)
        | Inr r \<Rightarrow>
          if \<not> truthy (get r ''continuation'')
          then map_option (\<lambda>m. bindS m (\<lambda>f1 retry_id.
                 bindS (f1, if dedupe_key = [] then Inr r else dedupe_result E dedupe_key retry_id f1) (\<lambda>f2 canonical.
                 bindS (remember_outbound_call_reference E (py_or canonical r) f2) (\<lambda>f3 u.
                   (f3, Inr (True, r, [retry_id]))))))
                 (journal_call_create E own_name room_of ''outbound'' r target_name message dedupe_key f)
          else let owner = text_of rp r ''owner_contact_id'' in
               case pending_call E owner (text_of rp r ''target_id'') f of
                 Inl e \<Rightarrow> Some (f, Inl e)
               | Inr c \<Rightarrow>
                   if \<not> truthy c then Some (f, Inr (False, r, []))
                   else let role = or_text (text_of rp r ''continuation_role'') (call_role_for_owner rp c owner) in
                        map_option (\<lambda>m. bindS m (\<lambda>f1 (ok, ids). (f1, Inr (ok, r, ids))))
                          (append_correlated_call E c ''manager'' (''manager:'' @ owner) (or_text own_name ''Silicon manager'')
                             message dedupe_key (role = ''inbound'') f))"

section \<open>Calls from others\<close>

definition prepare_inbound_call ::
  "wenv \<Rightarrow> string \<Rightarrow> string \<Rightarrow> string \<Rightarrow> string \<Rightarrow> string \<Rightarrow> pyv \<Rightarrow> json_file \<Rightarrow> pyv result" where
  "prepare_inbound_call E contact_id source_kind source_id source_name message outbound f =
     (let rp = we_repr E;
          out = (\<lambda>k. PStr (py_str rp (py_or (get outbound k) (py_or (get outbound (side_field ''outbound'' k)) (PStr []))))) in
      bindE (active_task_id E contact_id f) (\<lambda>task_id.
        let call_id = new_id E ''call'' source_id;
            event_id = stable_id E ''call-event'' [contact_id, task_id, call_id] in
        Inr (PDict
          [(''owner_contact_id'', PStr contact_id), (''task_id'', PStr task_id), (''call_id'', PStr call_id),
           (''work_event_id'', PStr event_id), (''source_kind'', PStr source_kind), (''source_id'', PStr source_id),
           (''source_name'', PStr source_name), (''message'', PStr message),
           (''outbound_owner_contact_id'', out ''owner_contact_id''), (''outbound_task_id'', out ''task_id''),
           (''outbound_call_id'', out ''call_id''), (''outbound_work_event_id'', out ''work_event_id''),
           (''inbound_owner_contact_id'', PStr contact_id), (''inbound_task_id'', PStr task_id),
           (''inbound_call_id'', PStr call_id), (''inbound_work_event_id'', PStr event_id)])))"

definition remember_inbound_call_reference :: "wenv \<Rightarrow> pyv \<Rightarrow> json_file \<Rightarrow> json_file \<times> unit result" where
  "remember_inbound_call_reference E r f =
     (let rp = we_repr E; contact_id = text_of rp r ''owner_contact_id''; source_id = text_of rp r ''source_id'';
          call_id = text_of rp r ''call_id''; outbound_owner = text_of rp r ''outbound_owner_contact_id'';
          c = PDict [(''outbound_owner_contact_id'', PStr outbound_owner),
                     (''outbound_task_id'', PStr (text_of rp r ''outbound_task_id'')),
                     (''outbound_call_id'', PStr (text_of rp r ''outbound_call_id'')),
                     (''outbound_work_event_id'', PStr (text_of rp r ''outbound_work_event_id'')),
                     (''inbound_owner_contact_id'', PStr contact_id), (''inbound_task_id'', PStr (text_of rp r ''task_id'')),
                     (''inbound_call_id'', PStr call_id), (''inbound_work_event_id'', PStr (text_of rp r ''work_event_id'')),
                     (''source_kind'', PStr (text_of rp r ''source_kind'')), (''source_id'', PStr source_id),
                     (''updated_at'', PFloat (we_now E))] in
      if contact_id = [] \<or> source_id = [] \<or> call_id = [] then (f, Inr ())
      else bindS (f, read_work_state E f) (\<lambda>f1 state.
           bindS (f1, put_pending_call contact_id source_id c state) (\<lambda>f2 s1.
           bindS (f2, if outbound_owner = [] then Inr s1 else put_pending_call outbound_owner contact_id c s1) (\<lambda>f3 s2.
             (write_state s2, Inr ())))))"

text \<open>The reference of the call as it is known from then on, and the retry to schedule.\<close>

definition enqueue_inbound_call ::
  "wenv \<Rightarrow> string \<Rightarrow> (string \<Rightarrow> string) \<Rightarrow> string \<Rightarrow> string \<Rightarrow> string \<Rightarrow> string \<Rightarrow> string \<Rightarrow> pyv \<Rightarrow> string \<Rightarrow> json_file
     \<Rightarrow> (json_file \<times> (dict \<times> string) result) option" where
  "enqueue_inbound_call E own_name room_of contact_id source_kind source_id source_name message outbound dedupe_key f =
     (let rp = we_repr E in
      case prepare_inbound_call E contact_id source_kind source_id source_name message outbound f of
        Inl e \<Rightarrow> Some (f, Inl e)
      | Inr r0 \<Rightarrow>
          map_option (\<lambda>m. bindS m (\<lambda>f1 retry_id.
            bindS (f1, if dedupe_key = [] then Inr r0 else dedupe_result E dedupe_key retry_id f1) (\<lambda>f2 canonical.
            let r = py_or canonical r0 in
            bindS (remember_inbound_call_reference E r f2) (\<lambda>f3 u.
              (f3, Inr (map (\<lambda>k. (k, PStr (text_of rp r k))) [''owner_contact_id'', ''task_id'', ''call_id'', ''work_event_id''],
                        retry_id))))))
            (journal_call_create E own_name room_of ''inbound'' r0 [] [] dedupe_key f))"

definition record_contact_call_message ::
  "wenv \<Rightarrow> string \<Rightarrow> string \<Rightarrow> string \<Rightarrow> string \<Rightarrow> string \<Rightarrow> string \<Rightarrow> string \<Rightarrow> bool \<Rightarrow> json_file
     \<Rightarrow> (json_file \<times> (bool \<times> string list) result) option" where
  "record_contact_call_message E contact_id peer0 kind speaker_id speaker_name message dedupe_key terminal f =
     (let rp = we_repr E in
      case dedupe_receipt E dedupe_key f of
        Inl e \<Rightarrow> Some (f, Inl e)
      | Inr seen \<Rightarrow>
        if get seen ''kind'' = PStr ''append'' then Some (f, Inr (True, []))
        else case pending_call E contact_id (or_text peer0 contact_id) f of
          Inl e \<Rightarrow> Some (f, Inl e)
        | Inr c \<Rightarrow>
            if \<not> (is_dict c \<and> \<not> truthy (get c ''terminal_requested'')
                  \<and> (has_call_reference c ''outbound'' \<or> has_call_reference c ''inbound''))
            then Some (f, Inr (False, []))
            else let role = call_role_for_owner rp c contact_id;
                     is_response = ((role = ''outbound'' \<and> kind = ''silicon'') \<or> (role = ''inbound'' \<and> kind = ''manager'')) in
                 append_correlated_call E c kind speaker_id speaker_name message dedupe_key (terminal \<and> is_response) f)"

end
