(* ===== verification/CallDelivery.thy ===== *)
theory CallDelivery
  imports CallCards
begin

text \<open>
  Delivery of journaled mutations and the end of idle calls (\<open>core/work_updates.py\<close>). What the
  Interface answers is a parameter, and so is what other processes do while a delivery is under
  way: it claims, asks, remembers and records under the lock of the document each time.
\<close>

section \<open>Answers\<close>

text \<open>Up to three wrappings are taken off an answer.\<close>

definition unwrap :: "pyv \<Rightarrow> pyv option" where
  "unwrap v =
     (if is_dict (get v ''data'') then Some (get v ''data'')
      else if is_dict (get v ''result'') then Some (get v ''result'') else None)"

fun unwrap_times :: "nat \<Rightarrow> pyv \<Rightarrow> pyv" where
  "unwrap_times 0 v = v"
| "unwrap_times (Suc n) v = (case unwrap v of None \<Rightarrow> v | Some w \<Rightarrow> unwrap_times n w)"

definition result_data :: "pyv \<Rightarrow> pyv" where
  "result_data v = (if is_dict v then unwrap_times 3 v else PDict [])"

definition new_task :: "string \<Rightarrow> dict" where
  "new_task task_id =
     [(''task_id'', PStr task_id), (''todos'', PDict []), (''events'', PDict []), (''worker_groups'', PDict []),
      (''calls'', PDict [])]"

definition with_parts :: "dict \<Rightarrow> dict" where
  "with_parts task =
     foldl add_missing task [(''events'', PDict []), (''worker_groups'', PDict []), (''calls'', PDict [])]"

text \<open>\<open>task[part][k] = v\<close>.\<close>

definition put_in_part :: "string \<Rightarrow> string \<Rightarrow> pyv \<Rightarrow> dict \<Rightarrow> dict result" where
  "put_in_part part k v task =
     (case dget task part of PDict d \<Rightarrow> Inr (dput part (PDict (dput k v d)) task) | _ \<Rightarrow> Inl (TypeError part))"

definition remembered_task :: "wenv \<Rightarrow> pyv \<Rightarrow> dict \<Rightarrow> dict result" where
  "remembered_task E snapshot task =
     (let rp = we_repr E; event_id = text_of rp snapshot ''work_event_id''; kind = text_of rp snapshot ''kind'' in
      bindE (if event_id \<noteq> [] then put_in_part ''events'' event_id snapshot task else Inr task) (\<lambda>t1.
      bindE (if kind = ''worker_group'' \<and> truthy (get snapshot ''group_id'')
             then put_in_part ''worker_groups'' (py_str rp (get snapshot ''group_id'')) snapshot t1 else Inr t1) (\<lambda>t2.
      bindE (if kind = ''call'' \<and> truthy (get snapshot ''call_id'')
             then put_in_part ''calls'' (py_str rp (get snapshot ''call_id'')) (put ''_cached_at'' (PFloat (we_now E)) snapshot) t2
             else Inr t2) (\<lambda>t3.
        Inr (dput ''_cached_at'' (PFloat (we_now E)) t3)))))"

definition put_contact_part :: "string \<Rightarrow> string \<Rightarrow> (dict \<Rightarrow> dict result) \<Rightarrow> dict \<Rightarrow> dict result" where
  "put_contact_part contact_id part g state =
     bindE (contact_state contact_id state) (\<lambda>(s, contact).
     case dget contact part of
       PDict d \<Rightarrow> bindE (g d) (\<lambda>d'. Inr (dput ''contacts'' (PDict (dput contact_id
                    (PDict (dput part (PDict d') contact)) (contacts_of s))) s))
     | _ \<Rightarrow> Inl (TypeError part))"

definition remember_event :: "wenv \<Rightarrow> string \<Rightarrow> pyv \<Rightarrow> json_file \<Rightarrow> json_file \<times> unit result" where
  "remember_event E contact_id snapshot f =
     (let rp = we_repr E; task_id = text_of rp snapshot ''task_id'' in
      if task_id = [] \<and> text_of rp snapshot ''kind'' = ''call'' \<and> truthy (get snapshot ''call_id'')
      then bindS (f, read_work_state E f) (\<lambda>f1 state.
           bindS (f1, put_contact_part contact_id ''standalone_calls'' (\<lambda>d. Inr (dput (py_str rp (get snapshot ''call_id''))
                        (put ''_cached_at'' (PFloat (we_now E)) snapshot) d)) state) (\<lambda>f2 s. (write_state s, Inr ())))
      else if task_id = [] then (f, Inr ())
      else bindS (f, read_work_state E f) (\<lambda>f1 state.
           bindS (f1, put_contact_part contact_id ''tasks'' (\<lambda>tasks.
                        case dget_or tasks task_id (PDict (new_task task_id)) of
                          PDict task \<Rightarrow> bindE (remembered_task E snapshot (with_parts task)) (\<lambda>t. Inr (dput task_id (PDict t) tasks))
                        | _ \<Rightarrow> Inl (AttributeError ''setdefault'')) state) (\<lambda>f2 s. (write_state s, Inr ()))))"

section \<open>Delivery\<close>

definition row_present :: "pyv \<Rightarrow> (string \<times> pyv) list \<Rightarrow> (pyv \<Rightarrow> string) \<Rightarrow> bool" where
  "row_present desired current rp \<longleftrightarrow>
     is_dict desired \<and>
     (case map_of current (text_of rp desired ''transcript_id'') of
        None \<Rightarrow> False
      | Some existing \<Rightarrow> list_all (\<lambda>kv. py_eq (get existing (fst kv)) (snd kv)) (dict_items desired))"

text \<open>What the card already shows need not be sent again; of rows with one id the last counts.\<close>

definition call_mutation_satisfied :: "(pyv \<Rightarrow> string) \<Rightarrow> pyv \<Rightarrow> pyv \<Rightarrow> bool result" where
  "call_mutation_satisfied rp snapshot payload =
     (if \<not> truthy snapshot then Inr False
      else if list_ex (\<lambda>k. has_key (dict_items payload) k \<and> \<not> py_eq (get snapshot k) (get payload k))
                [''state'', ''body'', ''blocks''] then Inr False
      else if \<not> truthy (get payload ''transcript'') then Inr True
      else bindE (py_iter (py_or (get snapshot ''transcript'') (PList []))) (\<lambda>rows.
           bindE (py_iter (get payload ''transcript'')) (\<lambda>desired.
             let current = rev (map (\<lambda>row. (text_of rp row ''transcript_id'', row)) (filter is_dict rows)) in
             Inr (list_all (\<lambda>d. row_present d current rp) desired))))"

text \<open>
  \<open>patch n\<close> answers the \<open>n\<close>th attempt; a failure may carry a status and the revision the server has.
  A conflict is tried once more at that revision.
\<close>

type_synonym patch_answer = "(pyerr \<times> (int \<times> int option) option) + pyv"

definition patch_result :: "patch_answer \<Rightarrow> pyv result" where
  "patch_result a = (case a of Inl (e, _) \<Rightarrow> Inl e | Inr v \<Rightarrow> Inr v)"

definition deliver_call_patch ::
  "(pyv \<Rightarrow> string) \<Rightarrow> (nat \<Rightarrow> pyv \<Rightarrow> patch_answer) \<Rightarrow> pyv \<Rightarrow> pyv \<Rightarrow> pyv result" where
  "deliver_call_patch rp patch snapshot payload =
     bindE (call_mutation_satisfied rp snapshot payload) (\<lambda>done.
       if done then Inr snapshot
       else let attempt = (case get snapshot ''revision'' of PInt r \<Rightarrow> put ''revision'' (PInt r) payload | _ \<Rightarrow> payload) in
            case patch 0 attempt of
              Inl (e, Some (status, Some r)) \<Rightarrow>
                if status = 409 then patch_result (patch 1 (put ''revision'' (PInt r) attempt)) else Inl e
            | a \<Rightarrow> patch_result a)"

definition cached_call_snapshot :: "wenv \<Rightarrow> pyv \<Rightarrow> json_file \<Rightarrow> pyv result" where
  "cached_call_snapshot E r f =
     (let rp = we_repr E; owner = text_of rp r ''owner_contact_id''; task_id = text_of rp r ''task_id'';
          call_id = text_of rp r ''call_id'';
          part = (\<lambda>k. bindE (read_work_state E f) (\<lambda>state. bindE (contact_state owner state) (\<lambda>(s, c).
                   if is_dict (dget c k) then Inr (dget c k) else Inl (AttributeError ''get'')))) in
      if task_id \<noteq> []
      then bindE (part ''tasks'') (\<lambda>tasks.
             let v = get (get (get tasks task_id) ''calls'') call_id in Inr (if is_dict v then v else PDict []))
      else bindE (part ''standalone_calls'') (\<lambda>calls.
             let v = get calls call_id in Inr (if is_dict v then v else PDict [])))"

text \<open>The calls of the Interface client; a creation names the task, the empty text for none.\<close>

record transport =
  tr_create :: "string \<Rightarrow> pyv \<Rightarrow> pyv result"
  tr_patch :: "string \<Rightarrow> string \<Rightarrow> nat \<Rightarrow> pyv \<Rightarrow> patch_answer"

text \<open>The attempt for a claimed entry, before anything is recorded.\<close>

definition attempt_delivery :: "wenv \<Rightarrow> transport \<Rightarrow> pyv \<Rightarrow> json_file \<Rightarrow> pyv result" where
  "attempt_delivery E T e f =
     (let rp = we_repr E; r = py_or (get e ''reference'') (PDict []); payload = py_or (get e ''payload'') (PDict []);
          task_id = text_of rp r ''task_id''; call_id = text_of rp r ''call_id'' in
      if call_id = [] \<or> \<not> truthy payload then Inl (work_update_error ''Journaled call mutation is incomplete.'')
      else if get e ''operation'' = PStr ''create'' then tr_create T task_id payload
      else if get e ''operation'' = PStr ''patch''
      then bindE (cached_call_snapshot E r f) (\<lambda>snapshot.
             deliver_call_patch rp (tr_patch T task_id call_id) snapshot payload)
      else Inl (work_update_error ''Journaled call mutation has no operation.''))"

text \<open>
  A delivery takes the lock of the document several times, and between two of them other processes
  do what they do. \<open>mw_file n\<close> is what they make of the document before the \<open>n\<close>th lock, \<open>mw_env n\<close> what
  is read under it: 0 claims, 1 reads the cached card, 2 remembers the answer, 3 records the
  outcome, 4 and 5 look for what is next.
\<close>

record meanwhile =
  mw_env :: "nat \<Rightarrow> wenv"
  mw_file :: "nat \<Rightarrow> json_file \<Rightarrow> json_file"

text \<open>What the code tries: the attempt, and to remember the card in its answer.\<close>

definition try_delivery :: "meanwhile \<Rightarrow> transport \<Rightarrow> pyv \<Rightarrow> json_file \<Rightarrow> json_file \<times> unit result" where
  "try_delivery W T e f =
     (let E = mw_env W 1; r = py_or (get e ''reference'') (PDict []); f1 = mw_file W 1 f in
      bindS (mw_file W 2 f1, attempt_delivery E T e f1) (\<lambda>f2 answer.
        if truthy (result_data answer)
        then remember_event (mw_env W 2) (text_of (we_repr E) r ''owner_contact_id'') (result_data answer) f2
        else (f2, Inr ())))"

text \<open>The outcome in the journal: whether the mutation was removed.\<close>

definition record_outcome ::
  "wenv \<Rightarrow> rat \<Rightarrow> string \<Rightarrow> pyv \<Rightarrow> unit result \<Rightarrow> json_file \<Rightarrow> json_file \<times> bool result" where
  "record_outcome E jitter retry_id e tried f =
     (case tried of
        Inl x \<Rightarrow> bindS (record_call_retry_failure E jitter retry_id e x f) (\<lambda>f1 updated. (f1, Inr False))
      | Inr u \<Rightarrow> complete_call_retry E retry_id e f)"

definition schedule_next :: "meanwhile \<Rightarrow> pyv \<Rightarrow> bool \<Rightarrow> json_file \<Rightarrow> json_file \<times> (bool \<times> string option) result" where
  "schedule_next W e delivered f =
     (let f1 = mw_file W 5 f in bindS (f1, next_call_lane (mw_env W 5) e f1) (\<lambda>f2 n. (f2, Inr (delivered, n))))"

text \<open>After the record: whether it was delivered, and the retry to schedule next.\<close>

definition after_outcome ::
  "meanwhile \<Rightarrow> string \<Rightarrow> pyv \<Rightarrow> unit result \<Rightarrow> bool \<Rightarrow> json_file \<Rightarrow> json_file \<times> (bool \<times> string option) result" where
  "after_outcome W retry_id e tried removed f =
     (let E = mw_env W 4; r = py_or (get e ''reference'') (PDict []) in
      case tried of
        Inl x \<Rightarrow>
          bindS (mw_file W 4 f, read_work_state E (mw_file W 4 f)) (\<lambda>f1 state.
            let failed = dget (journal_of state) retry_id in
            if is_dict failed \<and> dead failed \<and> get failed ''operation'' \<noteq> PStr ''create''
            then schedule_next W failed False f1 else (f1, Inr (False, None)))
      | Inr u \<Rightarrow>
          if \<not> removed then (f, Inr (True, None))
          else bindS (clear_call_correlations E (text_of (we_repr E) r ''call_id'') (mw_file W 4 f)) (\<lambda>f1 u.
                 schedule_next W e True f1))"

definition deliver_call_retry ::
  "meanwhile \<Rightarrow> rat \<Rightarrow> rat \<Rightarrow> transport \<Rightarrow> string \<Rightarrow> json_file \<Rightarrow> json_file \<times> (bool \<times> string option) result" where
  "deliver_call_retry W claim_now jitter T retry_id f =
     bindS (claim_call_retry (mw_env W 0) claim_now retry_id f) (\<lambda>f1 claimed.
       case claimed of
         None \<Rightarrow> (f1, Inr (False, None))
       | Some e \<Rightarrow>
           (case try_delivery W T e f1 of
              (f2, tried) \<Rightarrow>
                bindS (record_outcome (mw_env W 3) jitter retry_id e tried (mw_file W 3 f2)) (\<lambda>f3 removed.
                  after_outcome W retry_id e tried removed f3)))"

text \<open>
  The identifiers whose delivery is queued or running in this process. \<open>submit\<close> is whether the outbox
  takes a retry for a lane, with the time its claim will have; a raise leaves the identifier where it was put.
\<close>

definition schedule_call_retry ::
  "wenv \<Rightarrow> (string \<Rightarrow> rat option \<Rightarrow> string \<Rightarrow> bool) \<Rightarrow> string \<Rightarrow> rat option \<Rightarrow> json_file \<Rightarrow> string list
     \<Rightarrow> string list \<times> bool result" where
  "schedule_call_retry E submit retry_id claim_now f inflight =
     (if retry_id \<in> set inflight then (inflight, Inr True)
      else bindS (retry_id # inflight,
             bindE (read_work_state E f) (\<lambda>state.
               let e = py_or (dget (journal_of state) retry_id) (PDict []) in
               if is_dict e then lane_of E e else Inl (AttributeError ''get''))) (\<lambda>queued lane.
             if submit retry_id claim_now lane then (queued, Inr True) else (removeAll retry_id queued, Inr False)))"

definition leave_inflight :: "string \<Rightarrow> string list \<Rightarrow> string list" where
  "leave_inflight retry_id inflight = removeAll retry_id inflight"

section \<open>Calls recorded at once\<close>

text \<open>The deliveries of several mutations one after the other, each claimed at its own time, with the retries to schedule.\<close>

definition deliver_each ::
  "(string \<Rightarrow> meanwhile) \<Rightarrow> rat \<Rightarrow> transport \<Rightarrow> string list \<Rightarrow> json_file \<Rightarrow> json_file \<times> string list result" where
  "deliver_each W jitter T ids f =
     foldl (\<lambda>m i. bindS m (\<lambda>f next_ids. bindS (deliver_call_retry (W i) (we_now (mw_env (W i) 0)) jitter T i f) (\<lambda>f1 (done, n).
              (f1, Inr (next_ids @ (case n of None \<Rightarrow> [] | Some k \<Rightarrow> [k])))))) (f, Inr []) ids"

text \<open>The reference of the call, empty when nothing was recorded.\<close>

definition record_outbound_call ::
  "wenv \<Rightarrow> (string \<Rightarrow> meanwhile) \<Rightarrow> rat \<Rightarrow> transport \<Rightarrow> string \<Rightarrow> (string \<Rightarrow> string) \<Rightarrow> string \<Rightarrow> string \<Rightarrow> string \<Rightarrow> string \<Rightarrow> string
     \<Rightarrow> string \<Rightarrow> json_file \<Rightarrow> (json_file \<times> (pyv \<times> string list) result) option" where
  "record_outbound_call E W jitter T own_name room_of contact_id kind target_id target_name message task0 f =
     (let rp = we_repr E in
      case bindE (prepare_outbound_call E contact_id kind target_id task0 f)
             (\<lambda>r. refresh_stale_call_continuation E r f) of
        Inl e \<Rightarrow> Some (f, Inl e)
      | Inr r \<Rightarrow>
          if \<not> truthy (get r ''continuation'')
          then map_option (\<lambda>m. bindS m (\<lambda>f1 retry_id.
                 bindS (remember_outbound_call_reference E r f1) (\<lambda>f2 u.
                 bindS (deliver_each W jitter T [retry_id] f2) (\<lambda>f3 ids. (f3, Inr (r, ids))))))
                 (journal_call_create E own_name room_of ''outbound'' r target_name message [] f)
          else let owner = text_of rp r ''owner_contact_id'' in
               case pending_call E owner (text_of rp r ''target_id'') f of
                 Inl e \<Rightarrow> Some (f, Inl e)
               | Inr c \<Rightarrow>
                   if \<not> truthy c then Some (f, Inr (PDict [], []))
                   else let role = or_text (text_of rp r ''continuation_role'') (call_role_for_owner rp c owner) in
                        map_option (\<lambda>m. bindS m (\<lambda>f1 (ok, ids).
                          bindS (deliver_each W jitter T ids f1) (\<lambda>f2 next_ids.
                            (f2, Inr (if ok then r else PDict [], next_ids)))))
                          (append_correlated_call E c ''manager'' (''manager:'' @ owner) (or_text own_name ''Silicon manager'')
                             message [] (role = ''inbound'') f))"

definition record_inbound_call ::
  "wenv \<Rightarrow> (string \<Rightarrow> meanwhile) \<Rightarrow> rat \<Rightarrow> transport \<Rightarrow> string \<Rightarrow> (string \<Rightarrow> string) \<Rightarrow> string \<Rightarrow> string \<Rightarrow> string \<Rightarrow> string \<Rightarrow> string
     \<Rightarrow> pyv \<Rightarrow> string \<Rightarrow> json_file \<Rightarrow> (json_file \<times> (dict \<times> string list) result) option" where
  "record_inbound_call E W jitter T own_name room_of contact_id source_kind source_id source_name message outbound dedupe_key f =
     map_option (\<lambda>m. bindS m (\<lambda>f1 (r, retry_id).
       bindS (deliver_each W jitter T [retry_id] f1) (\<lambda>f2 ids. (f2, Inr (r, ids)))))
       (enqueue_inbound_call E own_name room_of contact_id source_kind source_id source_name message outbound dedupe_key f)"

section \<open>Idle calls\<close>

definition correlation_references :: "(pyv \<Rightarrow> string) \<Rightarrow> pyv \<Rightarrow> (string \<times> pyv) list" where
  "correlation_references rp c = map (\<lambda>side. (side, PDict (side_reference rp c side))) (sides_of rp c)"

definition call_reference_identity :: "(pyv \<Rightarrow> string) \<Rightarrow> pyv \<Rightarrow> string list" where
  "call_reference_identity rp r = map (text_of rp r) [''owner_contact_id'', ''task_id'', ''call_id'']"

text \<open>The correlations that count, with their identity.\<close>

definition counted :: "wenv \<Rightarrow> dict \<Rightarrow> (string list \<times> pyv) list" where
  "counted E state =
     map (\<lambda>c. (correlation_identity (we_repr E) c, c))
       (filter (\<lambda>c. (\<exists>t\<in>set (correlation_identity (we_repr E) c). t \<noteq> []) \<and> correlation_references (we_repr E) c \<noteq> [])
          (correlations state))"

fun firsts :: "string list list \<Rightarrow> string list list" where
  "firsts [] = []"
| "firsts (i # is) = i # filter (\<lambda>j. j \<noteq> i) (firsts is)"

text \<open>An identity is idle when no copy is terminal and none was used since the cut-off.\<close>

definition idle_identity :: "rat \<Rightarrow> pyv list \<Rightarrow> bool" where
  "idle_identity cutoff copies \<longleftrightarrow>
     (let updated_at = fold max (map (\<lambda>c. timestamp (get c ''updated_at'')) copies) 0 in
      \<not> list_ex (\<lambda>c. truthy (get c ''terminal_requested'')) copies \<and> updated_at \<noteq> 0 \<and> updated_at \<le> cutoff)"

definition idle_entry :: "wenv \<Rightarrow> string \<Rightarrow> pyv \<Rightarrow> pyv result" where
  "idle_entry E direction r = call_patch_entry E r [(''state'', PStr ''completed'')] ''idle-complete'' direction []"

text \<open>Entries so far, the identities of the calls they are for.\<close>

definition add_idle ::
  "wenv \<Rightarrow> pyv list \<times> string list list \<Rightarrow> string \<times> pyv \<Rightarrow> (pyv list \<times> string list list) result" where
  "add_idle E acc sr =
     (case acc of (entries, ids) \<Rightarrow>
        let i = call_reference_identity (we_repr E) (snd sr) in
        if i \<in> set ids then Inr (entries, ids)
        else bindE (idle_entry E (fst sr) (snd sr)) (\<lambda>e. Inr (entries @ [e], ids @ [i])))"

text \<open>The idle identities in order: entries, identities of calls, and the identities that got an entry.\<close>

fun idle_groups ::
  "wenv \<Rightarrow> rat \<Rightarrow> (string list \<times> pyv) list \<Rightarrow> string list list \<Rightarrow> pyv list \<times> string list list
     \<Rightarrow> (pyv list \<times> string list list \<times> string list list) result" where
  "idle_groups E cutoff cs [] acc = Inr (fst acc, snd acc, [])"
| "idle_groups E cutoff cs (i # is) acc =
     (let copies = map snd (filter (\<lambda>c. fst c = i) cs) in
      if \<not> idle_identity cutoff copies then idle_groups E cutoff cs is acc
      else bindE (foldE (add_idle E) acc (correlation_references (we_repr E) (hd copies))) (\<lambda>acc'.
           bindE (idle_groups E cutoff cs is acc') (\<lambda>(entries, ids, added).
             Inr (entries, ids, if length (fst acc') > length (fst acc) then i # added else added))))"

text \<open>A visible card: its owner, its task if it has one, its id, and the time it was cached.\<close>

type_synonym card = "(string \<times> string option \<times> string) \<times> pyv \<times> rat"

definition items_of :: "pyv \<Rightarrow> dict result" where
  "items_of v = (let d = py_or v (PDict []) in if is_dict d then Inr (dict_items d) else Inl (AttributeError ''items''))"

definition cards_of_task :: "string \<Rightarrow> string \<times> pyv \<Rightarrow> card list result" where
  "cards_of_task owner kt =
     (if \<not> is_dict (snd kt) then Inr []
      else bindE (items_of (dget_or (dict_items (snd kt)) ''calls'' (PDict []))) (\<lambda>calls.
             Inr (map (\<lambda>(i, call). ((owner, Some (fst kt), i), call,
                    timestamp (py_or (get call ''_cached_at'') (PFloat (timestamp (get (snd kt) ''_cached_at'')))))) calls)))"

definition cards_of_contact :: "string \<times> pyv \<Rightarrow> card list result" where
  "cards_of_contact kc =
     (if \<not> is_dict (snd kc) then Inr []
      else bindE (items_of (dget_or (dict_items (snd kc)) ''standalone_calls'' (PDict []))) (\<lambda>calls.
           bindE (items_of (dget_or (dict_items (snd kc)) ''tasks'' (PDict []))) (\<lambda>tasks.
           bindE (mapE (cards_of_task (fst kc)) tasks) (\<lambda>of_tasks.
             Inr (map (\<lambda>(i, call). ((fst kc, None, i), call, timestamp (get call ''_cached_at''))) calls @ concat of_tasks)))))"

definition open_card :: "pyv \<Rightarrow> bool result" where
  "open_card call =
     (if \<not> is_dict call \<or> truthy (get call ''_idle_terminal_requested'') then Inr False
      else in_texts (get call ''state'') [''connecting'', ''in_progress''])"

definition card_reference :: "wenv \<Rightarrow> card \<Rightarrow> pyv" where
  "card_reference E c =
     (case c of ((owner, task, i), call, cached_at) \<Rightarrow>
        PDict [(''owner_contact_id'', PStr owner), (''task_id'', PStr (case task of None \<Rightarrow> [] | Some t \<Rightarrow> t)),
               (''call_id'', PStr i), (''work_event_id'', PStr (text_of (we_repr E) call ''work_event_id''))])"

definition orphan :: "wenv \<Rightarrow> rat \<Rightarrow> string list list \<Rightarrow> string list list \<Rightarrow> card \<Rightarrow> bool result" where
  "orphan E cutoff known ids c =
     (let i = call_reference_identity (we_repr E) (card_reference E c); cached_at = snd (snd c) in
      if \<not> is_dict (fst (snd c)) \<or> i \<in> set known \<or> i \<in> set ids then Inr False
      else bindE (open_card (fst (snd c))) (\<lambda>b. Inr (b \<and> cached_at \<noteq> 0 \<and> cached_at \<le> cutoff)))"

fun orphan_entries ::
  "wenv \<Rightarrow> rat \<Rightarrow> string list list \<Rightarrow> card list \<Rightarrow> pyv list \<times> string list list
     \<Rightarrow> (pyv list \<times> (string \<times> string option \<times> string) list) result" where
  "orphan_entries E cutoff known [] acc = Inr (fst acc, [])"
| "orphan_entries E cutoff known (c # cs) acc =
     bindE (orphan E cutoff known (snd acc) c) (\<lambda>b.
       if \<not> b then orphan_entries E cutoff known cs acc
       else let r = card_reference E c in
            bindE (idle_entry E (py_str (we_repr E) (py_or (get (fst (snd c)) ''direction'') (PStr ''mutation''))) r) (\<lambda>e.
            bindE (orphan_entries E cutoff known cs
                     (fst acc @ [e], snd acc @ [call_reference_identity (we_repr E) r])) (\<lambda>(entries, marks).
              Inr (entries, fst c # marks))))"

text \<open>The marks on what was ended.\<close>

definition end_correlation :: "wenv \<Rightarrow> pyv \<Rightarrow> pyv" where
  "end_correlation E c =
     put_fields [(''terminal_requested'', PBool True), (''terminal_requested_at'', PFloat (we_now E)),
             (''terminal_reason'', PStr ''inactivity'')] c"

definition mark_cards :: "(string \<times> string option \<times> string) list \<Rightarrow> dict \<Rightarrow> dict" where
  "mark_cards marks state =
     (let idle = put ''_idle_terminal_requested'' (PBool True);
          in_calls = (\<lambda>owner task. map (\<lambda>(i, call). (i, if (owner, task, i) \<in> set marks then idle call else call)));
          in_tasks = (\<lambda>owner. map (\<lambda>(t, task).
             (t, case get task ''calls'' of PDict d \<Rightarrow> put ''calls'' (PDict (in_calls owner (Some t) d)) task | _ \<Rightarrow> task))) in
      dput ''contacts'' (PDict (map (\<lambda>(owner, c).
        (owner,
         let c1 = (case get c ''standalone_calls'' of
                     PDict d \<Rightarrow> put ''standalone_calls'' (PDict (in_calls owner None d)) c | _ \<Rightarrow> c) in
         case get c1 ''tasks'' of PDict d \<Rightarrow> put ''tasks'' (PDict (in_tasks owner d)) c1 | _ \<Rightarrow> c1)) (contacts_of state))) state)"

text \<open>What is to be ended: entries, identities of correlations, cards.\<close>

definition idle_calls ::
  "wenv \<Rightarrow> dict \<Rightarrow> (pyv list \<times> string list list \<times> (string \<times> string option \<times> string) list) result" where
  "idle_calls E state =
     (let rp = we_repr E; cutoff = we_now E - CALL_IDLE_TIMEOUT_SECONDS; cs = counted E state;
          known = concat (map (\<lambda>c. map (\<lambda>sr. call_reference_identity rp (snd sr)) (correlation_references rp (snd c))) cs) in
      bindE (idle_groups E cutoff cs (firsts (map fst cs)) ([], [])) (\<lambda>(entries, ids, added).
      bindE (mapE cards_of_contact (contacts_of state)) (\<lambda>cards.
      bindE (orphan_entries E cutoff known (concat cards) (entries, ids)) (\<lambda>(all_entries, marks).
        Inr (all_entries, added, marks)))))"

text \<open>The retries to schedule and the number of calls that were ended.\<close>

definition complete_inactive_calls :: "wenv \<Rightarrow> json_file \<Rightarrow> (json_file \<times> (string list \<times> nat) result) option" where
  "complete_inactive_calls E f =
     (case bindE (read_work_state E f) (\<lambda>state. bindE (idle_calls E state) (\<lambda>w. Inr (state, w))) of
        Inl e \<Rightarrow> Some (f, Inl e)
      | Inr (state, entries, added, marks) \<Rightarrow>
          if entries = [] then Some (f, Inr ([], 0))
          else map_option (\<lambda>(s, r). case r of
                   Inl e \<Rightarrow> (write_state s, Inl e)
                 | Inr ids \<Rightarrow>
                     (write_state (mark_cards marks
                        (change_correlations (\<lambda>c. correlation_references (we_repr E) c \<noteq> []
                             \<and> correlation_identity (we_repr E) c \<in> set added) (end_correlation E) s)),
                      Inr (ids, length added + length marks)))
                 (insert_in_state E entries [] [] PNone state))"

text \<open>The next time a call becomes idle.\<close>

definition deadline_of_correlation :: "wenv \<Rightarrow> pyv \<Rightarrow> rat list" where
  "deadline_of_correlation E c =
     (let t = timestamp (get c ''updated_at'') in
      if truthy (get c ''terminal_requested'') \<or> correlation_references (we_repr E) c = [] \<or> t = 0 then []
      else [t + CALL_IDLE_TIMEOUT_SECONDS])"

definition deadline_of_card :: "card \<Rightarrow> rat list result" where
  "deadline_of_card c =
     (if \<not> is_dict (fst (snd c)) then Inr []
      else bindE (open_card (fst (snd c))) (\<lambda>b.
             Inr (if b \<and> snd (snd c) \<noteq> 0 then [snd (snd c) + CALL_IDLE_TIMEOUT_SECONDS] else [])))"

definition next_inactive_call_deadline :: "wenv \<Rightarrow> json_file \<Rightarrow> rat option result" where
  "next_inactive_call_deadline E f =
     bindE (read_work_state E f) (\<lambda>state.
     bindE (mapE cards_of_contact (contacts_of state)) (\<lambda>cards.
     bindE (mapE deadline_of_card (concat cards)) (\<lambda>of_cards.
       let ts = concat (map (deadline_of_correlation E) (correlations state)) @ concat of_cards in
       Inr (if ts = [] then None else Some (Min (set ts))))))"

end
