(* ===== verification/CallRun.thy ===== *)
theory CallRun
  imports CallSteps CallDelivery
begin

text \<open>
  Runs of the journal of call mutations: any sequence of acceptances, claims, failures,
  completions, sweeps, and changes of contacts, each under the lock of the document and at one
  reading of a clock that does not go back. The invariant holds in every state of a run.
\<close>

section \<open>The invariant of a file\<close>

definition call_inv :: "(string \<Rightarrow> bool) \<Rightarrow> rat \<Rightarrow> json_file \<Rightarrow> bool" where
  "call_inv w t f \<longleftrightarrow> good_file t f \<and> tracked w (journal_in f)"

lemma inv_written: "good_state t s \<Longrightarrow> tracked w (journal_of s) \<Longrightarrow> call_inv w t (write_state s)"
  using journal_in_written [of s] tracked_sorted
  by (simp add: call_inv_def written_good) (simp add: good_state_def)

lemma file_journal: "good_file t f \<Longrightarrow> good_journal (seq_of (fill_defaults (raw_state f))) (journal_in f) \<and> leases_ok t (journal_in f)"
  by (simp add: good_file_def good_state_def journal_in_def)

lemma inv_read_status:
  assumes "call_inv w t f" and "read_state_with_prune_status E f = Inr (s, c)"
  shows "good_state t s \<and> tracked w (journal_of s)"
  using assms read_good_status read_journal [OF assms(2)] tracked_pruned file_journal [of t f]
  unfolding call_inv_def by metis

lemma inv_read: "call_inv w t f \<Longrightarrow> read_work_state E f = Inr s \<Longrightarrow> good_state t s \<and> tracked w (journal_of s)"
  using read_state_status inv_read_status by blast

lemma inv_later: "call_inv w t f \<Longrightarrow> t \<le> u \<Longrightarrow> call_inv w u f"
  unfolding call_inv_def good_file_def using good_later by blast

lemma inv_fresh: "call_inv (waiting []) 0 Missing"
  by (simp add: call_inv_def new_file_good tracked_def journal_in_def raw_state_def read_json_def journal_of_def
      default_work_state_def dget_Cons)

text \<open>What is read is what the file has, less entries that failed.\<close>

lemma read_entry: "read_work_state E f = Inr s \<Longrightarrow> good_file t f \<Longrightarrow> map_of (journal_of s) k = Some e \<Longrightarrow> map_of (journal_in f) k = Some e"
  using read_state_status [of E f s] read_journal [of E f s] map_of_filter_distinct good_distinct file_journal by metis

lemma read_alive:
  assumes "read_work_state E f = Inr s" and g: "good_file t f" and m: "map_of (journal_in f) k = Some e" and "\<not> dead e"
  shows "map_of (journal_of s) k = Some e"
proof -
  have j: "journal_of s = filter (\<lambda>kv. judge E (snd kv) = Inr Keep) (journal_in f)"
    using read_state_status [OF assms(1)] read_journal by blast
  have d: "distinct (map fst (journal_in f))" using file_journal [OF g] good_distinct by blast
  have "(k, e) \<in> set (journal_of s)"
    using map_of_SomeD [OF m] judge_alive [OF good_shaped [OF file_journal [OF g, THEN conjunct1] m] assms(4)] by (simp add: j)
  moreover have "distinct (map fst (journal_of s))" using d unfolding j by (rule distinct_filter_keys)
  ultimately show ?thesis by simp
qed

section \<open>Lanes of a good journal\<close>

lemma lane_of_shaped: "shaped k e \<Longrightarrow> lane_of E e = Inr (lane_text e)"
  using typed_E(1) [of "get e ''lane''"] by (auto simp: shaped_def lane_of_def lane_text_def)

lemma in_lane_shaped: "shaped k e \<Longrightarrow> in_lane E lane e = Inr (lane_text e = lane \<and> holds_lane e)"
  by (simp add: in_lane_def lane_of_shaped) (simp add: shaped_def)

lemma queue_key_ok:
  assumes "entry_ok k e" shows "\<exists>t. queue_key E e = Inr (seq_num e, t, k)"
proof -
  from assms obtain n where n: "get e ''sequence'' = PInt n" using typed_E(3) by (auto simp: entry_ok_def)
  obtain t where "num_of e ''created_at'' = Inr t" using assms float_num [of e "''created_at''"] by (auto simp: entry_ok_def shaped_def)
  moreover have "int_of e ''sequence'' = Inr (seq_num e)" using n by (auto simp: int_of_def py_or_def seq_num_def)
  moreover have "retry_id_of E e = k" using assms by (simp add: retry_id_of_def shaped_text entry_ok_def)
  ultimately show ?thesis by (simp add: queue_key_def)
qed

lemma lane_entries_good:
  assumes "good_journal n j"
  shows "lane_entries E lane j = Inr (filter (\<lambda>e. lane_text e = lane \<and> holds_lane e) (map snd j))"
  unfolding lane_entries_def
proof (rule filterE_filter)
  fix e assume "e \<in> set (map snd j)"
  then obtain k where "(k, e) \<in> set j" by auto
  then have "map_of j k = Some e" using good_distinct [OF assms] by simp
  then show "in_lane E lane e = Inr (lane_text e = lane \<and> holds_lane e)" using good_shaped [OF assms] in_lane_shaped by blast
qed

lemma lane_first:
  assumes g: "good_journal n j" and f: "first_least (queue_key E) (filter (\<lambda>e. lane_text e = lane \<and> holds_lane e) (map snd j)) = Inr (Some e)"
    and k: "get e ''retry_id'' = PStr k"
  shows "map_of j k = Some e \<and> lane_text e = lane \<and> holds_lane e
     \<and> (\<forall>k2 e2. map_of j k2 = Some e2 \<longrightarrow> holds_lane e2 \<longrightarrow> lane_text e2 = lane \<longrightarrow> seq_num e \<le> seq_num e2)"
proof -
  note l = first_least_in [OF f]
  from l obtain k1 where "(k1, e) \<in> set j" and e: "lane_text e = lane" "holds_lane e" by auto
  then have m: "map_of j k1 = Some e" using good_distinct [OF g] by simp
  then have k1: "k1 = k" using good_shaped [OF g m] k by (simp add: shaped_def)
  obtain t where t: "queue_key E e = Inr (seq_num e, t, k1)" using queue_key_ok good_entry [OF g m] by blast
  have "seq_num e \<le> seq_num e2" if e2: "map_of j k2 = Some e2" "holds_lane e2" "lane_text e2 = lane" for k2 e2
  proof -
    have "e2 \<in> set (filter (\<lambda>e. lane_text e = lane \<and> holds_lane e) (map snd j))"
      using e2 map_of_SomeD [OF e2(1)] by force
    with l t obtain q where "queue_key E e2 = Inr q" "(seq_num e, t, k1) \<le> q" by auto
    moreover obtain t2 where "queue_key E e2 = Inr (seq_num e2, t2, k2)" using queue_key_ok good_entry [OF g e2(1)] by blast
    ultimately show ?thesis by (auto simp: less_eq_prod_def)
  qed
  with m k1 e show ?thesis by blast
qed

section \<open>Claims\<close>

lemma lease_get:
  "is_dict e \<Longrightarrow> get (lease E now lane e) k =
     (if k = ''lease_expires_at'' then PFloat (now + CALL_RETRY_LEASE_SECONDS)
      else if k = ''lease_token'' then PStr (we_uuid E) else if k = ''lease_owner'' then PStr (we_owner E)
      else if k = ''lane'' then PStr lane else get e k)"
  by (simp add: lease_def)

lemma lease_shaped: "shaped k e \<Longrightarrow> lane \<noteq> [] \<Longrightarrow> shaped k (lease E now lane e)"
  by (simp add: shaped_def lease_get) (simp add: lease_def)

lemma lease_views:
  assumes "shaped k e"
  shows "lane_text (lease E now lane e) = lane" "seq_num (lease E now lane e) = seq_num e" "dead (lease E now lane e) = dead e"
    "failing (lease E now lane e) = failing e" "leased_until (lease E now lane e) = now + CALL_RETRY_LEASE_SECONDS"
    "token_of (lease E now lane e) = we_uuid E"
  using assms by (simp_all add: shaped_def lease_get lane_text_def seq_num_def dead_def failing_def leased_until_def token_of_def)

text \<open>What a claim that succeeds has checked.\<close>

lemma claimable_first:
  assumes g: "good_journal n j" and c: "claimable_lane E now k j = Inr (Some lane)"
  obtains e where "map_of j k = Some e" and "get e ''status'' = PStr ''pending''" and "lane_text e = lane"
    and "leased_until e \<le> now" and "holds_lane e"
    and "\<And>k2 e2. map_of j k2 = Some e2 \<Longrightarrow> holds_lane e2 \<Longrightarrow> lane_text e2 = lane \<Longrightarrow> seq_num e \<le> seq_num e2"
proof -
  let ?e = "dget j k"
  from c have d: "is_dict ?e" and st: "get ?e ''status'' = PStr ''pending''"
    by (auto simp: claimable_lane_def Let_def split: if_splits)
  from d have m: "map_of j k = Some ?e" by (auto simp: dget_def split: option.splits)
  note sh = good_shaped [OF g m]
  from c d st obtain next_at e1 where "num_of ?e ''next_attempt_at'' = Inr next_at" "\<not> next_at > now"
    and f: "first_least (queue_key E) (filter (\<lambda>e. lane_text e = lane_text ?e \<and> holds_lane e) (map snd j)) = Inr (Some e1)"
    and e1: "get e1 ''retry_id'' = PStr k"
    and u: "\<not> leased_until ?e > now" and lane: "lane = lane_text ?e"
    by (auto simp: claimable_lane_def Let_def bindE_eq_Inr lane_of_shaped [OF sh] lane_entries_good [OF g] lease_time [OF sh]
        split: if_splits option.splits)
  from lane_first [OF g f e1] m have "e1 = ?e" by simp
  with lane_first [OF g f e1] that [OF m st] lane u show ?thesis by auto
qed

lemma claim_steps:
  assumes "claim_call_retry E now k f = (f', r)"
  shows "f' = f \<or> (\<exists>s. read_work_state E f = Inr s \<and>
     ((f' = write_state s \<and> (\<forall>e. r \<noteq> Inr (Some e))) \<or> (\<exists>lane. claimable_lane E now k (journal_of s) = Inr (Some lane) \<and>
        r = Inr (Some (lease E now lane (dget (journal_of s) k))) \<and>
        f' = write_state (put_journal (dput k (lease E now lane (dget (journal_of s) k)) (journal_of s)) s))))"
proof (cases "read_work_state E f")
  case (Inr s)
  show ?thesis
  proof (cases "claimable_lane E now k (journal_of s)")
    case (Inr c)
    then show ?thesis using assms \<open>read_work_state E f = Inr s\<close> by (cases c) (auto simp: claim_call_retry_def Let_def)
  qed (use assms Inr in \<open>auto simp: claim_call_retry_def\<close>)
qed (use assms in \<open>auto simp: claim_call_retry_def\<close>)

lemma claim_keeps:
  assumes inv: "call_inv w (we_now E) f" and now: "now \<le> we_now E" and c: "claim_call_retry E now k f = (f', r)"
  shows "call_inv w (we_now E) f'"
proof -
  from claim_steps [OF c] consider "f' = f" | s where "read_work_state E f = Inr s" "f' = write_state s"
    | s lane where "read_work_state E f = Inr s" "claimable_lane E now k (journal_of s) = Inr (Some lane)"
      "f' = write_state (put_journal (dput k (lease E now lane (dget (journal_of s) k)) (journal_of s)) s)" by blast
  then show ?thesis
  proof cases
    case 1
    then show ?thesis using inv by simp
  next
    case 2
    then show ?thesis using inv_written inv_read [OF inv] by blast
  next
    case 3
    from inv_read [OF inv 3(1)] have g: "good_state (we_now E) s" and tr: "tracked w (journal_of s)" by simp_all
    then have j: "good_journal (seq_of s) (journal_of s)" "leases_ok (we_now E) (journal_of s)" by (simp_all add: good_state_def)
    from claimable_first [OF j(1) 3(2)] obtain e where e: "map_of (journal_of s) k = Some e" "get e ''status'' = PStr ''pending''"
      "lane_text e = lane" "leased_until e \<le> now" "holds_lane e"
      and first: "\<And>k2 e2. map_of (journal_of s) k2 = Some e2 \<Longrightarrow> holds_lane e2 \<Longrightarrow> lane_text e2 = lane \<Longrightarrow> seq_num e \<le> seq_num e2"
      by blast
    have free: "leased_until e \<le> we_now E" using e(4) now by simp
    have sh: "shaped k e" by (rule good_shaped [OF j(1) e(1)])
    have alive: "\<not> dead e" using e(2) by (simp add: dead_def)
    have lane: "lane \<noteq> []" using sh e(3) typed_E(1) [of "get e ''lane''"] by (auto simp: shaped_def lane_text_def)
    let ?e = "lease E now lane e"
    note sh' = lease_shaped [OF sh lane, of E now]
    have s': "get ?e ''sequence'' = get e ''sequence''" using sh by (simp add: shaped_def lease_get)
    note keeps = lease_keeps [OF j e(1) alive sh' s' _ _ _ e(5) free]
    have "good_journal (seq_of s) (dput k ?e (journal_of s))" "leases_ok (we_now E) (dput k ?e (journal_of s))"
      by (rule keeps; use lease_views [OF sh, of E now lane] e(3) alive first in auto)+
    then have "good_state (we_now E) (put_journal (dput k ?e (journal_of s)) s)" by (rule good_put_journal [OF g])
    moreover have "tracked w (dput k ?e (journal_of s))"
      unfolding tracked_def map_of_dput
      using tr e(1) alive lease_views [OF sh, of E now lane] tracked_present [OF tr] tracked_failed [OF tr] tracked_dead [OF tr]
      by auto
    moreover have "dget (journal_of s) k = e" using e(1) by (simp add: dget_def)
    ultimately show ?thesis using inv_written 3(3) by simp
  qed
qed

section \<open>Outcomes\<close>

lemma failed_get:
  "is_dict e \<Longrightarrow> get (failed_entry E jitter x tries e) k =
     (let attempts = max 0 tries + 1; terminal = terminal_call_retry_error E x \<or> attempts \<ge> CALL_RETRY_MAX_ATTEMPTS in
      if k = ''lease_expires_at'' then PFloat 0 else if k = ''lease_token'' then PStr [] else if k = ''lease_owner'' then PStr []
      else if k = ''dead_lettered_at'' then PFloat (if terminal then we_now E else 0)
      else if k = ''last_error'' then PStr (safe_retry_error E x)
      else if k = ''next_attempt_at'' then PFloat (if terminal then 0 else we_now E + retry_delay jitter attempts)
      else if k = ''last_attempt_at'' then PFloat (we_now E) else if k = ''attempts'' then PInt attempts
      else if k = ''status'' then PStr (if terminal then ''dead_letter'' else ''pending'') else get e k)"
  by (simp add: failed_entry_def Let_def put_fields_def)

lemma failed_dict [simp]: "is_dict (failed_entry E jitter x tries e) = is_dict e"
  by (simp add: failed_entry_def Let_def put_fields_def)

lemma failed_shaped: "shaped k e \<Longrightarrow> shaped k (failed_entry E jitter x tries e)"
  unfolding shaped_def by (simp add: failed_get Let_def)

text \<open>A token that is not empty names a live entry.\<close>

lemma leased_entry:
  assumes g: "good_journal n j" and tr: "tracked w j" and c: "holds_lease (dget j k) e" and tok: "get e ''lease_token'' = PStr tok" "tok \<noteq> []"
  obtains c where "map_of j k = Some c" and "dget j k = c" and "\<not> dead c"
proof -
  from c have d: "is_dict (dget j k)" by (simp add: holds_lease_def)
  then have m: "map_of j k = Some (dget j k)" by (auto simp: dget_def split: option.splits)
  have "is_text (get (dget j k) ''lease_token'')" using good_shaped [OF g m] by (simp add: shaped_def)
  with c tok have "token_of (dget j k) = tok" using typed_E(1) by (fastforce simp: holds_lease_def token_of_def)
  with tok tracked_dead [OF tr m] that [OF m] show ?thesis by auto
qed

lemma failure_keeps:
  assumes inv: "call_inv w (we_now E) f" and now: "0 \<le> we_now E" and tok: "get e ''lease_token'' = PStr tok" "tok \<noteq> []"
    and c: "record_call_retry_failure E jitter k e x f = (f', r)"
  shows "(f' = f \<and> (\<forall>u. r \<noteq> Inr (Some u))) \<or> call_inv (\<lambda>k'. k' \<noteq> k \<and> w k') (we_now E) f'"
proof (cases "\<exists>u. r = Inr (Some u)")
  case False
  with c show ?thesis by (auto simp: record_call_retry_failure_def bindS_def Let_def split: sum.splits if_splits)
next
  case True
  with c obtain s tries where s: "read_work_state E f = Inr s" and h: "holds_lease (dget (journal_of s) k) e"
    and f': "f' = write_state (put_journal (dput k (failed_entry E jitter x tries (dget (journal_of s) k)) (journal_of s)) s)"
    by (auto simp: record_call_retry_failure_def bindS_def Let_def split: sum.splits if_splits)
  from inv_read [OF inv s] have g: "good_state (we_now E) s" and tr: "tracked w (journal_of s)" by simp_all
  then have j: "good_journal (seq_of s) (journal_of s)" "leases_ok (we_now E) (journal_of s)" by (simp_all add: good_state_def)
  from leased_entry [OF j(1) tr h tok] obtain c where m: "map_of (journal_of s) k = Some c" and c: "dget (journal_of s) k = c"
    and alive: "\<not> dead c" by blast
  have sh: "shaped k c" by (rule good_shaped [OF j(1) m])
  let ?e = "failed_entry E jitter x tries c"
  have d: "is_dict c" using sh by (simp add: shaped_def)
  have sh': "shaped k ?e" by (rule failed_shaped [OF sh])
  have "holds_lane c" using holds_shaped [OF sh] shaped_status [OF sh] alive by simp
  moreover have "get ?e ''sequence'' = get c ''sequence''" "lane_text ?e = lane_text c" "leased_until ?e \<le> we_now E"
    using d now by (simp_all add: failed_get Let_def lane_text_def leased_until_def)
  ultimately have "good_journal (seq_of s) (dput k ?e (journal_of s))" "leases_ok (we_now E) (dput k ?e (journal_of s))"
    using replace_keeps [OF j(1) m sh'] j(2) by blast+
  then have "good_state (we_now E) (put_journal (dput k ?e (journal_of s)) s)" by (rule good_put_journal [OF g])
  moreover have "token_of ?e = []" using d by (simp add: failed_get Let_def token_of_def)
  then have "tracked (\<lambda>k'. k' \<noteq> k \<and> w k') (dput k ?e (journal_of s))"
    unfolding tracked_def map_of_dput using tracked_present [OF tr] tracked_failed [OF tr] tracked_dead [OF tr] by auto
  ultimately show ?thesis using inv_written f' c by simp
qed

lemma complete_keeps:
  assumes inv: "call_inv w (we_now E) f" and c: "complete_call_retry E k e f = (f', r)"
  shows "(f' = f \<and> r \<noteq> Inr True) \<or> call_inv (\<lambda>k'. k' \<noteq> k \<and> w k') (we_now E) f'"
proof (cases "r = Inr True")
  case False
  with c show ?thesis by (auto simp: complete_call_retry_def bindS_def Let_def split: sum.splits if_splits)
next
  case True
  with c obtain s where s: "read_work_state E f = Inr s" and f': "f' = write_state (put_journal (dpop k (journal_of s)) s)"
    by (auto simp: complete_call_retry_def bindS_def Let_def split: sum.splits if_splits)
  from inv_read [OF inv s] have g: "good_state (we_now E) s" and tr: "tracked w (journal_of s)" by simp_all
  then have j: "good_journal (seq_of s) (journal_of s)" and l: "leases_ok (we_now E) (journal_of s)" by (simp_all add: good_state_def)
  have "good_state (we_now E) (put_journal (dpop k (journal_of s)) s)"
    by (rule good_put_journal [OF g dpop_keeps(1) [OF j] dpop_keeps(2) [OF j l]])
  moreover have "tracked (\<lambda>k'. k' \<noteq> k \<and> w k') (dpop k (journal_of s))"
    unfolding tracked_def using tracked_present [OF tr] tracked_failed [OF tr] tracked_dead [OF tr] by auto
  ultimately show ?thesis using inv_written f' by simp
qed

section \<open>Writers that leave the journal alone\<close>

definition contacts_only :: "dict \<Rightarrow> dict \<Rightarrow> bool" where
  "contacts_only s s' \<longleftrightarrow> (\<forall>k. k \<noteq> ''contacts'' \<longrightarrow> dget s' k = dget s k)"

definition contact_step :: "wenv \<Rightarrow> json_file \<Rightarrow> json_file \<Rightarrow> bool" where
  "contact_step E f f' \<longleftrightarrow> f' = f \<or> (\<exists>s s' c. read_state_with_prune_status E f = Inr (s, c) \<and> contacts_only s s' \<and> f' = write_state s')"

lemma contact_keeps:
  assumes "call_inv w t f" and "contact_step E f f'"
  shows "call_inv w t f'"
proof (cases "f' = f")
  case False
  with assms(2) obtain s s' c where s: "read_state_with_prune_status E f = Inr (s, c)" "contacts_only s s'" "f' = write_state s'"
    by (auto simp: contact_step_def)
  from inv_read_status [OF assms(1) s(1)] have "good_state t s" "tracked w (journal_of s)" by simp_all
  moreover have "journal_of s' = journal_of s" using s(2) by (simp add: contacts_only_def journal_of_def)
  ultimately show ?thesis using s(2,3) same_fields [of t s s'] inv_written by (simp add: contacts_only_def)
qed (use assms in simp)

lemma contact_step_same [simp, intro]: "contact_step E f f"
  by (simp add: contact_step_def)

lemma contact_step_read: "read_work_state E f = Inr s \<Longrightarrow> contacts_only s s' \<Longrightarrow> contact_step E f (write_state s')"
  unfolding contact_step_def using read_state_status by blast

lemma contacts_only_refl [simp]: "contacts_only s s"
  by (simp add: contacts_only_def)

lemma contacts_only_trans: "contacts_only s s1 \<Longrightarrow> contacts_only s1 s2 \<Longrightarrow> contacts_only s s2"
  by (simp add: contacts_only_def)

lemma contacts_only_put [simp]: "contacts_only s (dput ''contacts'' v s1) \<longleftrightarrow> contacts_only s s1"
  by (auto simp: contacts_only_def)

lemma on_pending_contacts [simp]: "contacts_only s (on_pending g s)" "contacts_only s (change_correlations p h s)"
  by (simp_all add: on_pending_def change_correlations_def)

lemma contact_state_contacts: "contact_state i s = Inr (s1, c) \<Longrightarrow> contacts_only s s1"
  by (auto simp: contact_state_def bindE_eq_Inr Let_def)

lemma put_pending_contacts: "put_pending_call i p c s = Inr s1 \<Longrightarrow> contacts_only s s1"
  using contact_state_contacts by (auto simp: put_pending_call_def bindE_eq_Inr)

lemma put_part_contacts: "put_contact_part i p g s = Inr s1 \<Longrightarrow> contacts_only s s1"
  unfolding put_contact_part_def bindE_eq_Inr
  by (elim exE conjE) (auto simp: bindE_eq_Inr dest: contact_state_contacts split: prod.splits pyv.splits)

lemma step_after_read:
  assumes "\<And>s. read_work_state E f = Inr s \<Longrightarrow> contact_step E f (fst (g f s))"
  shows "contact_step E f (fst (bindS (f, read_work_state E f) g))"
  using assms by (cases "read_work_state E f") simp_all

lemma step_after_value:
  assumes "\<And>v. m = Inr v \<Longrightarrow> contact_step E f (fst (g f v))"
  shows "contact_step E f (fst (bindS (f, m) g))"
  using assms by (cases m) simp_all

lemma clear_step: "contact_step E f (fst (clear_call_correlations E i f))"
  unfolding clear_call_correlations_def by (intro step_after_read step_after_value) (auto intro: contact_step_read)

lemma mark_step: "contact_step E f (fst (mark_call_correlations_terminal E i f))"
  unfolding mark_call_correlations_terminal_def by (intro step_after_read) (auto intro: contact_step_read)

lemma remember_outbound_step: "contact_step E f (fst (remember_outbound_call_reference E r f))"
  unfolding remember_outbound_call_reference_def Let_def
  by (auto intro!: step_after_read step_after_value dest!: put_pending_contacts intro: contact_step_read)

lemma remember_inbound_step: "contact_step E f (fst (remember_inbound_call_reference E r f))"
  unfolding remember_inbound_call_reference_def Let_def
  by (auto intro!: step_after_read step_after_value dest!: put_pending_contacts split: if_splits)
    (erule contact_step_read; blast intro: contacts_only_trans)+

lemma remember_event_step: "contact_step E f (fst (remember_event E i snapshot f))"
  unfolding remember_event_def Let_def
  by (auto intro!: step_after_read step_after_value dest!: put_part_contacts intro: contact_step_read)

lemma touch_step: "contact_step E f (fst (touch_call_correlations E ids f))"
  unfolding touch_call_correlations_def Let_def
  by (auto intro!: step_after_read intro: contact_step_read [OF _ on_pending_contacts(2)])

lemma touch_manager_step: "contact_step E f (fst (touch_manager_call_activity E i f))"
  unfolding touch_manager_call_activity_def Let_def
  by (auto intro!: step_after_read intro: contact_step_read [OF _ on_pending_contacts(2)])

lemma contact_step_pruned: "read_state_with_prune_status E f = Inr (s, c) \<Longrightarrow> contact_step E f (write_state s)"
  unfolding contact_step_def using contacts_only_refl by blast

text \<open>The periodic readers save what they pruned.\<close>

lemma replay_step: "contact_step E f (fst (replay_pending_call_updates E limit now f))"
proof (cases "read_state_with_prune_status E f")
  case (Inr p)
  obtain s c where "p = (s, c)" by fastforce
  moreover from this Inr have "contact_step E f (write_state s)" using contact_step_pruned by blast
  ultimately show ?thesis using Inr unfolding replay_pending_call_updates_def bindS_def
    by (auto split: sum.split prod.split)
qed (simp add: replay_pending_call_updates_def)

lemma report_step: "contact_step E f (fst (pending_call_update_retries E persist f))"
proof (cases "read_state_with_prune_status E f")
  case (Inr p)
  obtain s c where "p = (s, c)" by fastforce
  moreover from this Inr have "contact_step E f (write_state s)" using contact_step_pruned by blast
  ultimately show ?thesis using Inr unfolding pending_call_update_retries_def bindS_def Let_def
    by (auto split: sum.split)
qed (simp add: pending_call_update_retries_def)

section \<open>Acceptance\<close>

lemma seq_filled: "seq_of (fill_defaults (raw_state f)) = seq_of (raw_state f)"
  using no_key [of "raw_state f" "''call_retry_sequence''"]
  by (simp add: seq_of_def dget_fill default_work_state_def dget_Cons split: pyv.split)

text \<open>The entries that an acceptance added, by their sequence numbers.\<close>

definition accepted_in :: "json_file \<Rightarrow> json_file \<Rightarrow> string list" where
  "accepted_in f f' = map fst (filter (\<lambda>kv. seq_of (raw_state f) < seq_num (snd kv)) (journal_in f'))"

lemma waiting_accepted: "waiting (map Accepted ks @ tr) k \<longleftrightarrow> k \<in> set ks \<or> waiting tr k"
  by (induction ks) auto

text \<open>An insertion, and changes of contacts under the same lock.\<close>

lemma accept_state:
  assumes inv: "call_inv (waiting tr) (we_now E) f" and now: "0 \<le> we_now E" and ok: "list_all source_ok sources"
    and s: "read_work_state E f = Inr s"
  obtains s' r where "insert_in_state E sources key kind doc s = Some (s', r)"
    and "is_dict (dget s' ''call_retry_journal'')"
    and "\<And>s2. contacts_only s' s2 \<Longrightarrow> call_inv (waiting (map Accepted (accepted_in f (write_state s2)) @ tr)) (we_now E) (write_state s2)"
    and "\<And>ks. key = [] \<Longrightarrow> r = Inr ks \<Longrightarrow> ks = map (retry_id_of E) sources \<and> (\<forall>k\<in>set ks. map_of (journal_of s') k \<noteq> None)"
proof -
  from inv_read [OF inv s] have g: "good_state (we_now E) s" and tr: "tracked (waiting tr) (journal_of s)" by simp_all
  from inserted_good [OF g refl now ok tr, of key kind doc] obtain s' r where
    i: "insert_in_state E sources key kind doc s = Some (s', r)" "good_state (we_now E) s'" "tracked (waiting tr) (journal_of s')"
      "\<forall>k e. map_of (journal_of s') k = Some e \<longrightarrow> map_of (journal_of s) k = Some e \<or> \<not> failing e"
      "key = [] \<longrightarrow> (\<forall>ks. r = Inr ks \<longrightarrow> ks = map (retry_id_of E) sources \<and> (\<forall>k\<in>set ks. map_of (journal_of s') k \<noteq> None))" by blast
  have n: "seq_of s = seq_of (raw_state f)"
    using read_state_status [OF s] read_journal seq_filled [of f] by (fastforce simp: seq_of_def)
  have run: "call_inv (waiting (map Accepted (accepted_in f (write_state s2)) @ tr)) (we_now E) (write_state s2)"
    if s2: "contacts_only s' s2" for s2
  proof -
    let ?f = "write_state s2"
    have j2: "journal_of s2 = journal_of s'" using s2 by (simp add: contacts_only_def journal_of_def)
    have g2: "good_state (we_now E) s2" using s2 same_fields [OF i(2), of s2] by (simp add: contacts_only_def)
    have inv': "call_inv (waiting tr) (we_now E) ?f" using inv_written [OF g2] i(3) j2 by simp
    have j': "journal_in ?f = sorted_journal (journal_of s')" using g2 j2 by (simp add: journal_in_written good_state_def)
    have new: "\<not> failing e" if e: "map_of (journal_in ?f) k = Some e" "seq_of (raw_state f) < seq_num e" for k e
    proof -
      from e(1) obtain e1 where e1: "map_of (journal_of s') k = Some e1" "e = sort_keys e1" by (auto simp: j' map_of_sorted_journal)
      have "map_of (journal_of s) k \<noteq> Some e1"
        using good_entry [of "seq_of s" "journal_of s" k e1] g e(2) e1(2) n by (auto simp: good_state_def)
      with i(4) e1 show ?thesis by simp blast
    qed
    have d: "distinct (map fst (journal_in ?f))" using inv' file_journal good_distinct by (fastforce simp: call_inv_def)
    have ks: "k \<in> set (accepted_in f ?f) \<longleftrightarrow> (\<exists>e. map_of (journal_in ?f) k = Some e \<and> seq_of (raw_state f) < seq_num e)" for k
      using d by (force simp: accepted_in_def)
    have "tracked (waiting (map Accepted (accepted_in f ?f) @ tr)) (journal_in ?f)"
      unfolding tracked_def waiting_accepted
    proof (intro conjI allI impI)
      fix k assume "k \<in> set (accepted_in f ?f) \<or> waiting tr k"
      then show "map_of (journal_in ?f) k \<noteq> None" using ks inv' tracked_present by (fastforce simp: call_inv_def)
    next
      fix k e assume e: "map_of (journal_in ?f) k = Some e" "failing e"
      then have "\<not> waiting tr k" using inv' tracked_failed by (auto simp: call_inv_def)
      with e ks [of k] new show "\<not> (k \<in> set (accepted_in f ?f) \<or> waiting tr k)" by auto
    next
      fix k e assume "map_of (journal_in ?f) k = Some e" "dead e"
      then show "token_of e = []" using inv' tracked_dead by (auto simp: call_inv_def)
    qed
    with inv' show ?thesis by (simp add: call_inv_def)
  qed
  show thesis
  proof (rule that [OF i(1) _ run])
    show "is_dict (dget s' ''call_retry_journal'')" using i(2) by (simp add: good_state_def)
    fix ks assume "key = []" "r = Inr ks"
    with i(5) show "ks = map (retry_id_of E) sources \<and> (\<forall>k\<in>set ks. map_of (journal_of s') k \<noteq> None)" by blast
  qed
qed

lemma nothing_accepted:
  assumes "call_inv w t f" shows "accepted_in f f = []"
proof -
  have "seq_num e \<le> seq_of (raw_state f)" if "(k, e) \<in> set (journal_in f)" for k e
    using that good_entry good_distinct file_journal [of t f] assms unfolding call_inv_def seq_filled
    by (metis map_of_is_SomeI)
  then show ?thesis by (force simp: accepted_in_def filter_empty_conv)
qed

lemma accept_keeps:
  assumes inv: "call_inv (waiting tr) (we_now E) f" and now: "0 \<le> we_now E" and ok: "list_all source_ok sources"
  obtains f' r where "insert_entries E sources key kind doc f = Some (f', r)"
    and "call_inv (waiting (map Accepted (accepted_in f f') @ tr)) (we_now E) f'"
    and "\<And>ks. key = [] \<Longrightarrow> r = Inr ks \<Longrightarrow> ks = map (retry_id_of E) sources \<and> (\<forall>k\<in>set ks. map_of (journal_in f') k \<noteq> None)"
proof (cases "read_work_state E f")
  case (Inl x)
  with inv nothing_accepted [OF inv] that [of f "Inl x"] show ?thesis by (simp add: insert_entries_def)
next
  case (Inr s)
  from accept_state [OF inv now ok Inr, of key kind doc] obtain s' r where
    i: "insert_in_state E sources key kind doc s = Some (s', r)" "is_dict (dget s' ''call_retry_journal'')"
    and run: "\<And>s2. contacts_only s' s2 \<Longrightarrow> call_inv (waiting (map Accepted (accepted_in f (write_state s2)) @ tr)) (we_now E) (write_state s2)"
    and ks: "\<And>ks. key = [] \<Longrightarrow> r = Inr ks \<Longrightarrow> ks = map (retry_id_of E) sources \<and> (\<forall>k\<in>set ks. map_of (journal_of s') k \<noteq> None)"
    by blast
  have "insert_entries E sources key kind doc f = Some (write_state s', r)" using Inr i(1) by (simp add: insert_entries_def)
  with that run [OF contacts_only_refl] show ?thesis using ks journal_in_written [OF i(2)] by (simp add: map_of_sorted_journal)
qed

text \<open>The sweep of idle calls inserts their completions and marks them.\<close>

lemma mark_cards_contacts [simp]: "contacts_only s (mark_cards marks s1) \<longleftrightarrow> contacts_only s s1"
  by (simp add: mark_cards_def Let_def)

lemma idle_keeps:
  assumes inv: "call_inv (waiting tr) (we_now E) f" and now: "0 \<le> we_now E"
    and ok: "\<And>s es added marks. read_work_state E f = Inr s \<Longrightarrow> idle_calls E s = Inr (es, added, marks) \<Longrightarrow> list_all source_ok es"
  shows "\<exists>f' r. complete_inactive_calls E f = Some (f', r)
     \<and> call_inv (waiting (map Accepted (accepted_in f f') @ tr)) (we_now E) f'"
proof (cases "bindE (read_work_state E f) (\<lambda>state. bindE (idle_calls E state) (\<lambda>w. Inr (state, w)))")
  case (Inl x)
  then show ?thesis using inv nothing_accepted [OF inv] by (simp add: complete_inactive_calls_def)
next
  case (Inr w)
  obtain s es added marks where w: "w = (s, es, added, marks)" by (cases w) auto
  from Inr w have s: "read_work_state E f = Inr s" and es: "idle_calls E s = Inr (es, added, marks)" by (auto simp: bindE_eq_Inr)
  show ?thesis
  proof (cases "es = []")
    case True
    then show ?thesis using Inr w inv nothing_accepted [OF inv] by (simp add: complete_inactive_calls_def)
  next
    case False
    obtain s' r where
      i: "insert_in_state E es [] [] PNone s = Some (s', r)"
      and run: "\<And>s2. contacts_only s' s2 \<Longrightarrow> call_inv (waiting (map Accepted (accepted_in f (write_state s2)) @ tr)) (we_now E) (write_state s2)"
      by (rule accept_state [OF inv now ok [OF s es] s, of "[]" "[]" PNone]) (rule that; assumption)
    let ?s2 = "\<lambda>s'. mark_cards marks (change_correlations (\<lambda>c. correlation_references (we_repr E) c \<noteq> []
        \<and> correlation_identity (we_repr E) c \<in> set added) (end_correlation E) s')"
    have run2: "call_inv (waiting (map Accepted (accepted_in f (write_state (?s2 s'))) @ tr)) (we_now E) (write_state (?s2 s'))"
      by (rule run) (simp only: mark_cards_contacts on_pending_contacts)
    have c: "complete_inactive_calls E f = Some (case r of Inl x \<Rightarrow> (write_state s', Inl x)
        | Inr ids \<Rightarrow> (write_state (?s2 s'), Inr (ids, length added + length marks)))"
      unfolding complete_inactive_calls_def Inr w sum.case prod.case i option.map by (cases r) (simp_all only: False if_False sum.case prod.case)
    show ?thesis
    proof (cases r)
      case (Inl x)
      show ?thesis unfolding c Inl sum.case using run [OF contacts_only_refl] by blast
    next
      case (Inr ids)
      show ?thesis unfolding c Inr sum.case using run2 by blast
    qed
  qed
qed

section \<open>Runs\<close>

text \<open>
  A claim has a time that is not after the clock. An outcome is recorded by a process that holds a
  claimed entry, whose token is not empty. A
  sweep of idle calls is taken when cached cards have one of the directions of a call.
\<close>

inductive call_run :: "call_event list \<Rightarrow> rat \<Rightarrow> json_file \<Rightarrow> bool" where
  call_start: "call_run [] 0 Missing"
| call_later: "call_run tr t f \<Longrightarrow> t \<le> u \<Longrightarrow> call_run tr u f"
| call_accepted: "call_run tr (we_now E) f \<Longrightarrow> list_all source_ok sources \<Longrightarrow>
    insert_entries E sources key kind doc f = Some (f', r) \<Longrightarrow> call_run (map Accepted (accepted_in f f') @ tr) (we_now E) f'"
| call_idle: "call_run tr (we_now E) f \<Longrightarrow> complete_inactive_calls E f = Some (f', r) \<Longrightarrow>
    (\<And>s es added marks. read_work_state E f = Inr s \<Longrightarrow> idle_calls E s = Inr (es, added, marks) \<Longrightarrow> list_all source_ok es) \<Longrightarrow>
    call_run (map Accepted (accepted_in f f') @ tr) (we_now E) f'"
| call_claimed: "call_run tr (we_now E) f \<Longrightarrow> now \<le> we_now E \<Longrightarrow> claim_call_retry E now k f = (f', r) \<Longrightarrow> call_run tr (we_now E) f'"
| call_failed: "call_run tr (we_now E) f \<Longrightarrow> get e ''lease_token'' = PStr tok \<Longrightarrow> tok \<noteq> [] \<Longrightarrow>
    record_call_retry_failure E jitter k e x f = (f', r) \<Longrightarrow>
    call_run ((case r of Inr (Some u) \<Rightarrow> [Attempt_failed k] | _ \<Rightarrow> []) @ tr) (we_now E) f'"
| call_completed: "call_run tr (we_now E) f \<Longrightarrow> complete_call_retry E k e f = (f', r) \<Longrightarrow>
    call_run ((if r = Inr True then [Delivered k] else []) @ tr) (we_now E) f'"
| call_noted: "call_run tr (we_now E) f \<Longrightarrow> contact_step E f f' \<Longrightarrow> call_run tr (we_now E) f'"

theorem call_run_inv: "call_run tr t f \<Longrightarrow> 0 \<le> t \<and> call_inv (waiting tr) t f"
proof (induction rule: call_run.induct)
  case call_start
  show ?case using inv_fresh by (simp del: waiting.simps)
next
  case (call_later tr t f u)
  then show ?case using inv_later by fastforce
next
  case (call_accepted tr E f sources key kind doc f' r)
  then show ?case using accept_keeps [of tr E f sources key kind doc] by (metis option.inject prod.inject)
next
  case (call_idle tr E f f' r)
  then show ?case using idle_keeps [of tr E f] by (metis option.inject prod.inject)
next
  case (call_claimed tr E f now k f' r)
  then show ?case using claim_keeps by blast
next
  case (call_failed tr E f e tok jitter k x f' r)
  then have inv: "call_inv (waiting tr) (we_now E) f" and now: "0 \<le> we_now E" by simp_all
  show ?case
  proof (cases "\<exists>u. r = Inr (Some u)")
    case True
    have "waiting (Attempt_failed k # tr) = (\<lambda>k'. k' \<noteq> k \<and> waiting tr k')" by auto
    with True failure_keeps [OF inv now call_failed.hyps(2,3,4)] now show ?thesis by auto
  next
    case False
    then have "(case r of Inr (Some u) \<Rightarrow> [Attempt_failed k] | _ \<Rightarrow> []) = []" by (auto split: sum.split option.split)
    moreover have "f' = f"
      using False call_failed.hyps(4) by (auto simp: record_call_retry_failure_def bindS_def Let_def split: sum.splits if_splits)
    ultimately show ?thesis using inv now by simp
  qed
next
  case (call_completed tr E f k e f' r)
  then have inv: "call_inv (waiting tr) (we_now E) f" and now: "0 \<le> we_now E" by simp_all
  have "waiting (Delivered k # tr) = (\<lambda>k'. k' \<noteq> k \<and> waiting tr k')" by auto
  moreover have "r \<noteq> Inr True \<Longrightarrow> f' = f"
    using call_completed.hyps(2) by (auto simp: complete_call_retry_def bindS_def Let_def split: sum.splits if_splits)
  moreover have "r = Inr True \<Longrightarrow> call_inv (\<lambda>k'. k' \<noteq> k \<and> waiting tr k') (we_now E) f'"
    using complete_keeps [OF inv call_completed.hyps(2)] by blast
  ultimately show ?case using inv now by simp
next
  case (call_noted tr E f f')
  then show ?case using contact_keeps by blast
qed

end
