(* ===== verification/CallSpec.thy ===== *)
theory CallSpec
  imports CallRun
begin

text \<open>
  The properties of the journal of call mutations (\<open>core/work_updates.py\<close>): one live lease in a
  lane, nothing that was accepted is lost before it was tried, acceptance returns, the head of a
  lane can be claimed, an acceptance under the same key is the first one, and the messages of a
  call are journaled by steps of a run.
\<close>

section \<open>A small run\<close>

definition demo_call_env :: "rat \<Rightarrow> wenv" where
  "demo_call_env t = \<lparr>we_repr = (\<lambda>v. ''?''), we_now = t, we_sha = (\<lambda>s. ''sha''), we_alnum = (\<lambda>c. c \<noteq> [] \<and> is_digit (hd c)),
     we_uuid = ''token'', we_utc = ''now'', we_owner = ''host''\<rparr>"

definition demo_call_entry :: pyv where
  "demo_call_entry = new_call_retry_entry (demo_call_env 5) ''r1'' ''patch'' ''outbound''
     (PDict [(''owner_contact_id'', PStr ''ada''), (''task_id'', PStr []), (''call_id'', PStr ''c1'')])
     (PDict [(''state'', PStr ''completed'')])"

text \<open>The document after the entry was accepted under a key at time 5.\<close>

definition demo_call_state :: dict where
  "demo_call_state = dput ''call_retry_dedupe'' (PDict [(''msg'', call_receipt (demo_call_env 5) [''r1''] ''append'' PNone)])
     (dput ''call_retry_sequence'' (PInt 1) (put_journal [(''r1'', put ''sequence'' (PInt 1) demo_call_entry)] default_work_state))"

definition demo_call_file :: json_file where
  "demo_call_file = write_state demo_call_state"

definition demo_call_stored :: pyv where
  "demo_call_stored = sort_keys (put ''sequence'' (PInt 1) demo_call_entry)"

lemma demo_clock [simp]: "we_now (demo_call_env t) = t"
  by (simp add: demo_call_env_def)

section \<open>Entries of mutations\<close>

lemma stable_id_present [simp]: "stable_id E prefix parts \<noteq> []"
  by (simp add: stable_id_def)

lemma new_entry_ok:
  assumes "retry_id \<noteq> []" and "is_dict r" and "get r ''call_id'' = PStr i" and "i \<noteq> []"
    and "direction \<in> set [''outbound'', ''inbound'', ''mutation'']"
  shows "source_ok (new_call_retry_entry E retry_id operation direction r payload)"
proof -
  have "shaped retry_id (new_call_retry_entry E retry_id operation direction r payload)"
    using assms by (auto simp: shaped_def new_call_retry_entry_def call_retry_lane_def get_def dget_Cons Let_def)
  then show ?thesis by (auto simp: source_ok_def new_call_retry_entry_def get_def dget_Cons)
qed

lemma demo_call_entry_ok: "source_ok demo_call_entry"
  unfolding demo_call_entry_def by (rule new_entry_ok [where i = "''c1''"]) (simp_all add: get_def dget_Cons)

text \<open>The example is a run.\<close>

lemma default_fields: "journal_of default_work_state = []" "receipt_of default_work_state k = PNone"
  "int_of (PDict default_work_state) ''call_retry_sequence'' = Inr 0" "dget default_work_state ''call_retry_dedupe'' = PDict []"
  "dget default_work_state ''call_retry_journal'' = PDict []" "dget_or default_work_state ''contacts'' (PDict []) = PDict []"
  by (simp_all add: journal_of_def default_work_state_def dget_Cons receipt_of_def int_of_def py_or_def get_def dget_or_def)

lemma default_refilled: "fill_defaults default_work_state = default_work_state"
  "dput ''call_retry_dedupe'' (PDict []) default_work_state = default_work_state"
  "dput ''call_retry_journal'' (PDict []) default_work_state = default_work_state"
  "dput ''contacts'' (PDict []) default_work_state = default_work_state"
  by code_simp+

lemma read_missing_calls: "read_work_state E Missing = Inr default_work_state"
  by (simp add: read_work_state_def read_state_with_prune_status_def read_json_def Let_def default_refilled default_fields
      prune_state_def prune_dedupe_def prune_journal_def keep_newest_def archive_def)

lemma demo_id: "retry_id_of E demo_call_entry = ''r1''"
  by (simp add: retry_id_of_def demo_call_entry_def new_call_retry_entry_def text_of_def get_def dget_Cons)

lemma demo_accepted: "insert_entries (demo_call_env 5) [demo_call_entry] ''msg'' ''append'' PNone Missing =
   Some (demo_call_file, Inr [''r1''])"
  by (simp add: insert_entries_def read_missing_calls insert_in_state_def default_fields make_room.simps new_count_def CALL_RETRY_MAX_ENTRIES_def
     demo_id in_journal_def demo_call_file_def demo_call_state_def put_journal_def Let_def dput_notin)

lemma demo_readable: "case read_work_state (demo_call_env 6) demo_call_file of
    Inl x \<Rightarrow> False | Inr s \<Rightarrow> map_of (journal_of s) ''r1'' \<noteq> None"
  by code_simp

lemma demo_claimed: "case claim_call_retry (demo_call_env 6) 6 ''r1'' demo_call_file of
    (f, Inr (Some e)) \<Rightarrow> lane_text e = ''work:sha'' \<and> leased_until e = 96 | (f, r) \<Rightarrow> False"
  by code_simp

lemma demo_waits: "accepted_in Missing demo_call_file = [''r1'']"
  by code_simp

lemma demo_entry: "journal_in demo_call_file = [(''r1'', demo_call_stored)]"
  by code_simp

lemma demo_receipts: "length (dict_items (dget (raw_state demo_call_file) ''call_retry_dedupe'')) = 1"
  by code_simp

lemma demo_stored_is: "pending demo_call_stored \<and> holds_lane demo_call_stored \<and> lane_text demo_call_stored = ''work:sha''
    \<and> leased_until demo_call_stored = 0 \<and> num_of demo_call_stored ''next_attempt_at'' = Inr 0"
  by code_simp

lemma demo_call_run:
  assumes "5 \<le> t"
  shows "call_run [Accepted ''r1''] (we_now (demo_call_env t)) demo_call_file"
proof -
  have "call_run [] (we_now (demo_call_env 5)) Missing" by (rule call_later [OF call_start]) simp
  from call_accepted [OF this _ demo_accepted] have "call_run (map Accepted (accepted_in Missing demo_call_file) @ []) 5 demo_call_file"
    by (simp add: demo_call_entry_ok)
  then show ?thesis using call_later assms by (simp add: demo_waits)
qed

lemma patch_entry_ok:
  assumes "call_patch_entry E r payload m direction occurred_at = Inr e" and "is_dict r" and "is_text (get r ''call_id'')"
    and "direction \<in> set [''outbound'', ''inbound'', ''mutation'']"
  shows "source_ok e"
proof -
  obtain i where i: "get r ''call_id'' = PStr i" using typed_E(1) [OF assms(3)] by blast
  with assms(1) have "i \<noteq> []"
    by (auto simp: call_patch_entry_def Let_def text_of_def split: if_splits)
  with assms i show ?thesis
    by (auto simp: call_patch_entry_def Let_def split: if_splits intro!: new_entry_ok)
qed

lemma side_reference_get [simp]: "dget (side_reference rp c side) ''call_id'' = PStr (text_of rp c (side_field side ''call_id''))"
  by (simp add: side_reference_def get_def dget_Cons)

section \<open>Leases\<close>

lemma claim_found:
  assumes "claim_call_retry E now k f = (f', Inr (Some e))"
  shows "\<exists>s lane. read_work_state E f = Inr s \<and> claimable_lane E now k (journal_of s) = Inr (Some lane)
    \<and> e = lease E now lane (dget (journal_of s) k) \<and> f' = write_state (put_journal (dput k e (journal_of s)) s)"
proof (cases "read_work_state E f")
  case (Inr s)
  then show ?thesis
    using assms by (cases "claimable_lane E now k (journal_of s)") (auto simp: claim_call_retry_def Let_def split: option.splits)
qed (use assms in \<open>simp add: claim_call_retry_def\<close>)

text \<open>A mutation under a live lease is the first that is pending in its lane.\<close>

lemma pending_holds: "shaped k e \<Longrightarrow> \<not> dead e \<Longrightarrow> holds_lane e"
  using holds_shaped shaped_status by blast

lemma dead_not_pending: "shaped k e \<Longrightarrow> pending e \<longleftrightarrow> \<not> dead e"
  using pending_shaped shaped_status by blast

lemma live_leases_agree:
  assumes g: "good_journal n j" and l: "leases_ok t j" and 1: "map_of j k1 = Some e1" "t < leased_until e1"
    and 2: "map_of j k2 = Some e2" "holds_lane e2" "lane_text e1 = lane_text e2"
    and first: "\<And>k e. map_of j k = Some e \<Longrightarrow> holds_lane e \<Longrightarrow> lane_text e = lane_text e2 \<Longrightarrow> seq_num e2 \<le> seq_num e"
  shows "k1 = k2"
proof -
  have "seq_num e1 \<le> seq_num e2" by (rule lease_first [OF l 1 2])
  moreover have "holds_lane e1" by (rule pending_holds [OF good_shaped [OF g 1(1)] lease_alive [OF l 1]])
  then have "seq_num e2 \<le> seq_num e1" using first [OF 1(1)] 2(3) by simp
  ultimately show ?thesis using good_seq [OF g 1(1) 2(1)] by simp
qed

text \<open>Under a live lease are only copies of one mutation of a lane.\<close>

lemma one_live_lease:
  assumes g: "good_journal n j" and l: "leases_ok t j"
    and 1: "map_of j k1 = Some e1" "t < leased_until e1" and 2: "map_of j k2 = Some e2" "t < leased_until e2"
    and lane: "lane_text e1 = lane_text e2"
  shows "k1 = k2"
proof -
  have h1: "holds_lane e1" by (rule pending_holds [OF good_shaped [OF g 1(1)] lease_alive [OF l 1]])
  have h2: "holds_lane e2" by (rule pending_holds [OF good_shaped [OF g 2(1)] lease_alive [OF l 2]])
  have "seq_num e1 = seq_num e2"
    using lease_first [OF l 1 2(1) h2 lane] lease_first [OF l 2 1(1) h1 lane [symmetric]] by simp
  then show ?thesis by (rule good_seq [OF g 1(1) 2(1)])
qed

text \<open>
  C35: in every run a claim that succeeds takes the first pending mutation of its call at a moment when
  no mutation of the call is under a live lease, and leaves at most one of any call under one. The
  lease ends ninety seconds after the time of the claim, which a periodic tick hands over as the
  time of the tick: it may be shorter than a delivery, or over when it is taken, and then another
  process may claim the same mutation.
\<close>

theorem claim_exclusive:
  assumes run: "call_run tr (we_now E) f" and now: "now \<le> we_now E" and claim: "claim_call_retry E now k f = (f', Inr (Some e))"
    and other: "map_of (journal_in f) k2 = Some e2" "lane_text e2 = lane_text e"
  shows "leased_until e = now + CALL_RETRY_LEASE_SECONDS \<and> leased_until e2 \<le> we_now E
     \<and> (pending e2 \<longrightarrow> seq_num e \<le> seq_num e2)
     \<and> (\<forall>k3 e3 k4 e4. map_of (journal_in f') k3 = Some e3 \<longrightarrow> we_now E < leased_until e3 \<longrightarrow>
          map_of (journal_in f') k4 = Some e4 \<longrightarrow> we_now E < leased_until e4 \<longrightarrow> lane_text e3 = lane_text e4 \<longrightarrow> k3 = k4)"
proof -
  from call_run_inv [OF run] have inv: "call_inv (waiting tr) (we_now E) f" by simp
  then have gf: "good_file (we_now E) f" by (simp add: call_inv_def)
  note fj = file_journal [OF gf]
  from claim_found [OF claim] obtain s lane where s: "read_work_state E f = Inr s"
    and c: "claimable_lane E now k (journal_of s) = Inr (Some lane)" and e: "e = lease E now lane (dget (journal_of s) k)" by blast
  from inv_read [OF inv s] have g: "good_journal (seq_of s) (journal_of s)" "leases_ok (we_now E) (journal_of s)"
    by (simp_all add: good_state_def)
  obtain e1 where m: "map_of (journal_of s) k = Some e1" and "get e1 ''status'' = PStr ''pending''" and l1: "lane_text e1 = lane"
    and u1: "leased_until e1 \<le> now" and h1: "holds_lane e1"
    and first: "\<And>k2 e2. map_of (journal_of s) k2 = Some e2 \<Longrightarrow> holds_lane e2 \<Longrightarrow> lane_text e2 = lane \<Longrightarrow> seq_num e1 \<le> seq_num e2"
    by (rule claimable_first [OF g(1) c]) (rule that; assumption)
  note sh1 = good_shaped [OF g(1) m]
  have e1: "e = lease E now lane e1" using e m by (simp add: dget_def)
  have lane: "lane_text e2 = lane" using other(2) e1 lease_views(1) [OF sh1] by simp
  note sh2 = good_shaped [OF conjunct1 [OF fj] other(1)]
  have until: "leased_until e2 \<le> we_now E"
  proof (rule ccontr)
    assume "\<not> leased_until e2 \<le> we_now E"
    then have live: "we_now E < leased_until e2" by simp
    have m2: "map_of (journal_of s) k2 = Some e2"
      by (rule read_alive [OF s gf other(1) lease_alive [OF conjunct2 [OF fj] other(1) live]])
    have "k2 = k" by (rule live_leases_agree [OF g m2 live m h1]) (use lane l1 first in auto)
    then show False using m2 m u1 now live by simp
  qed
  have first2: "seq_num e \<le> seq_num e2" if "pending e2"
  proof -
    have alive: "\<not> dead e2" using that dead_not_pending [OF sh2] by simp
    have "seq_num e1 \<le> seq_num e2"
      by (rule first [OF read_alive [OF s gf other(1) alive] pending_holds [OF sh2 alive] lane])
    then show ?thesis using e1 lease_views(2) [OF sh1] by simp
  qed
  from call_run_inv [OF call_claimed [OF run now claim]] have "good_file (we_now E) f'" by (simp add: call_inv_def)
  note f'j = file_journal [OF this]
  show ?thesis
    using until first2 e1 lease_views(5) [OF sh1] one_live_lease [OF conjunct1 [OF f'j] conjunct2 [OF f'j]] by blast
qed

theorem claim_exclusive_witness:
  "\<exists>f' e. claim_call_retry (demo_call_env 6) 6 ''r1'' demo_call_file = (f', Inr (Some e)) \<and> leased_until e = 6 + CALL_RETRY_LEASE_SECONDS
     \<and> leased_until demo_call_stored \<le> 6 \<and> seq_num e \<le> seq_num demo_call_stored"
proof -
  obtain f' e where c: "claim_call_retry (demo_call_env 6) 6 ''r1'' demo_call_file = (f', Inr (Some e))" and l: "lane_text e = ''work:sha''"
    using demo_claimed by (auto split: prod.splits sum.splits option.splits)
  have m: "map_of (journal_in demo_call_file) ''r1'' = Some demo_call_stored" by (simp add: demo_entry)
  have "lane_text demo_call_stored = lane_text e" using demo_stored_is l by simp
  from claim_exclusive [OF demo_call_run _ c m this] c demo_stored_is show ?thesis by simp
qed

text \<open>
  A claim of a tick at 6 that runs at 100 takes a lease that is over: a second process takes the same
  mutation while the first delivers it.
\<close>

lemma late_claims_overlap:
  "case claim_call_retry (demo_call_env 100) 6 ''r1'' demo_call_file of
     (f1, Inr (Some e1)) \<Rightarrow>
       (case claim_call_retry (demo_call_env 100\<lparr>we_uuid := ''other''\<rparr>) 100 ''r1'' f1 of
          (f2, Inr (Some e2)) \<Rightarrow> leased_until e1 = 96 \<and> token_of e2 = ''other'' | (f2, r) \<Rightarrow> False)
   | (f1, r) \<Rightarrow> False"
  by code_simp

section \<open>What was accepted\<close>

text \<open>
  C36: in every run, whatever was accepted into the journal and since then neither delivered nor tried
  without success is still there, pending and without a failure: neither pruning, the limit of the
  journal, the end of a lease nor a writer of other parts of the document loses it.
\<close>

theorem accepted_waits:
  assumes "call_run tr t f" and "waiting tr k"
  shows "\<exists>e. map_of (journal_in f) k = Some e \<and> get e ''status'' = PStr ''pending'' \<and> get e ''last_error'' = PStr []"
proof -
  from call_run_inv [OF assms(1)] have g: "good_file t f" and tr: "tracked (waiting tr) (journal_in f)" by (simp_all add: call_inv_def)
  from tracked_present [OF tr assms(2)] obtain e where e: "map_of (journal_in f) k = Some e" by auto
  have "\<not> failing e" using tracked_failed [OF tr e] assms(2) by blast
  with e shaped_status [OF good_shaped [OF conjunct1 [OF file_journal [OF g]] e]] show ?thesis
    by (auto simp: failing_def)
qed

theorem accepted_waits_witness:
  "\<exists>e. map_of (journal_in demo_call_file) ''r1'' = Some e \<and> get e ''status'' = PStr ''pending'' \<and> get e ''last_error'' = PStr []"
  by (rule accepted_waits [OF demo_call_run [of 6]]) simp_all

text \<open>
  C37: in every run the acceptance of mutations returns: the loop that makes room for them ends, by
  taking away an entry each time or by raising; and without a key of its own every accepted mutation
  is in the journal afterwards under the identifier that is returned.
\<close>

theorem acceptance_ends:
  assumes "call_run tr (we_now E) f" and "list_all source_ok sources"
  shows "\<exists>f' r. insert_entries E sources key kind doc f = Some (f', r)
     \<and> (key = [] \<longrightarrow> (\<forall>ks. r = Inr ks \<longrightarrow> ks = map (retry_id_of E) sources \<and> (\<forall>k\<in>set ks. map_of (journal_in f') k \<noteq> None)))"
proof -
  from call_run_inv [OF assms(1)] have inv: "call_inv (waiting tr) (we_now E) f" and now: "0 \<le> we_now E" by simp_all
  show ?thesis by (rule accept_keeps [OF inv now assms(2), of key kind doc]) blast
qed

theorem acceptance_ends_witness:
  "\<exists>f' r. insert_entries (demo_call_env 6) [demo_call_entry] ''other'' [] PNone demo_call_file = Some (f', r)"
  using acceptance_ends [OF demo_call_run [of 6], of "[demo_call_entry]" "''other''" "[]" PNone] demo_call_entry_ok by auto

section \<open>Progress of a lane\<close>

lemma first_least_total:
  assumes "es \<noteq> []" and "\<And>e. e \<in> set es \<Longrightarrow> \<exists>k. key e = Inr k"
  shows "\<exists>e. first_least key es = Inr (Some e)"
proof -
  have "mapE (\<lambda>e. bindE (key e) (\<lambda>k. Inr (k, e))) es = Inr (map (\<lambda>e. (projr (key e), e)) es)"
    by (rule mapE_cong_Inr) (use assms(2) in fastforce)
  then show ?thesis using assms(1) by (simp add: first_least_def)
qed

lemma lane_head:
  assumes g: "good_journal n j" and m: "map_of j k = Some e" and h: "holds_lane e"
    and first: "\<And>k2 e2. map_of j k2 = Some e2 \<Longrightarrow> holds_lane e2 \<Longrightarrow> lane_text e2 = lane_text e \<Longrightarrow> seq_num e \<le> seq_num e2"
  shows "first_least (queue_key E) (filter (\<lambda>e2. lane_text e2 = lane_text e \<and> holds_lane e2) (map snd j)) = Inr (Some e)"
proof -
  let ?es = "filter (\<lambda>e2. lane_text e2 = lane_text e \<and> holds_lane e2) (map snd j)"
  have at: "\<exists>k2. map_of j k2 = Some e2" if "e2 \<in> set ?es" for e2
    using that good_distinct [OF g] by force
  have "e \<in> set ?es" using map_of_SomeD [OF m] h by force
  from length_pos_if_in_set [OF this] have ne: "?es \<noteq> []" by (simp only: length_greater_0_conv not_False_eq_True)
  have keys: "\<exists>q. queue_key E e2 = Inr q" if e2: "e2 \<in> set ?es" for e2
  proof -
    from at [OF e2] obtain k2 where "map_of j k2 = Some e2" ..
    from queue_key_ok [OF conjunct1 [OF good_entry [OF g this]]] show ?thesis by blast
  qed
  from first_least_total [of ?es "queue_key E", OF ne keys] obtain e1 where e1: "first_least (queue_key E) ?es = Inr (Some e1)" by blast
  have "e1 \<in> set ?es" using first_least_in [OF e1] by simp
  from at [OF this] obtain k1 where m1: "map_of j k1 = Some e1" ..
  have "get e1 ''retry_id'' = PStr k1" using good_shaped [OF g m1] by (simp add: shaped_def)
  from lane_first [OF g e1 this] m h have "seq_num e1 \<le> seq_num e" "holds_lane e1" "lane_text e1 = lane_text e" by auto
  with first [OF m1] have "seq_num e1 = seq_num e" by simp
  then have "k1 = k" by (rule good_seq [OF g m1 m])
  with m m1 e1 show ?thesis by simp
qed

text \<open>
  C38: in every run the first mutation of a call that is due and under no live lease at the time of a claim can be claimed:
  no lane is stuck behind a lease that has ended, whichever process held it.
\<close>

theorem lane_head_claimable:
  assumes run: "call_run tr (we_now E) f" and readable: "read_work_state E f = Inr s"
    and e: "map_of (journal_in f) k = Some e" "pending e"
    and due: "num_of e ''next_attempt_at'' = Inr t" "t \<le> now" and free: "leased_until e \<le> now"
    and first: "\<forall>k2 e2. map_of (journal_in f) k2 = Some e2 \<longrightarrow> holds_lane e2 \<longrightarrow> lane_text e2 = lane_text e \<longrightarrow> seq_num e \<le> seq_num e2"
  shows "\<exists>f'. claim_call_retry E now k f = (f', Inr (Some (lease E now (lane_text e) e)))
     \<and> map_of (journal_in f') k = Some (sort_keys (lease E now (lane_text e) e))"
proof -
  from call_run_inv [OF run] have inv: "call_inv (waiting tr) (we_now E) f" by simp
  then have gf: "good_file (we_now E) f" by (simp add: call_inv_def)
  from inv_read [OF inv readable] have gs: "good_state (we_now E) s" by simp
  then have g: "good_journal (seq_of s) (journal_of s)" by (simp add: good_state_def)
  have alive: "\<not> dead e" using dead_not_pending [OF good_shaped [OF conjunct1 [OF file_journal [OF gf]] e(1)]] e(2) by simp
  have m: "map_of (journal_of s) k = Some e" by (rule read_alive [OF readable gf e(1) alive])
  note sh = good_shaped [OF g m]
  have st: "is_dict e" "get e ''status'' = PStr ''pending''" "get e ''retry_id'' = PStr k"
    using sh e(2) pending_shaped [OF sh] by (simp_all add: shaped_def)
  have d: "dget (journal_of s) k = e" using m by (simp add: dget_def)
  have h: "first_least (queue_key E) (filter (\<lambda>e2. lane_text e2 = lane_text e \<and> holds_lane e2) (map snd (journal_of s))) = Inr (Some e)"
    by (rule lane_head [OF g m pending_holds [OF sh alive]]) (use first read_entry [OF readable gf] in blast)
  have "claimable_lane E now k (journal_of s) = Inr (Some (lane_text e))"
    using st due free
    by (simp add: claimable_lane_def d Let_def lane_of_shaped [OF sh] lane_entries_good [OF g] h lease_time [OF sh])
  then have c: "claim_call_retry E now k f = (write_state (put_journal (dput k (lease E now (lane_text e) e) (journal_of s)) s),
      Inr (Some (lease E now (lane_text e) e)))"
    using readable d by (simp add: claim_call_retry_def Let_def)
  have "is_dict (dget (put_journal (dput k (lease E now (lane_text e) e) (journal_of s)) s) ''call_retry_journal'')"
    by (simp add: put_journal_def)
  from journal_in_written [OF this] have "map_of (journal_in (write_state (put_journal (dput k (lease E now (lane_text e) e) (journal_of s)) s))) k
      = Some (sort_keys (lease E now (lane_text e) e))" by (simp add: map_of_sorted_journal)
  with c show ?thesis by blast
qed

theorem lane_head_claimable_witness:
  "\<exists>f'. claim_call_retry (demo_call_env 6) 6 ''r1'' demo_call_file = (f', Inr (Some (lease (demo_call_env 6) 6 ''work:sha'' demo_call_stored)))"
proof -
  obtain s where s: "read_work_state (demo_call_env 6) demo_call_file = Inr s" using demo_readable by (auto split: sum.splits)
  have m: "map_of (journal_in demo_call_file) ''r1'' = Some demo_call_stored" by (simp add: demo_entry)
  have first: "\<forall>k2 e2. map_of (journal_in demo_call_file) k2 = Some e2 \<longrightarrow> holds_lane e2 \<longrightarrow> lane_text e2 = lane_text demo_call_stored
      \<longrightarrow> seq_num demo_call_stored \<le> seq_num e2" by (simp add: demo_entry)
  from lane_head_claimable [OF demo_call_run s m _ _ _ _ first, of 0 6] demo_stored_is show ?thesis by auto
qed

section \<open>Acceptance under a key\<close>

lemma dget_filter_first: "dget d k = v \<Longrightarrow> v \<noteq> PNone \<Longrightarrow> P (k, v) \<Longrightarrow> dget (filter P d) k = v"
  by (induction d) (auto simp: dget_def split: if_splits)

text \<open>A young receipt stays when the receipts are within their limit.\<close>

lemma pruned_receipt:
  assumes p: "prune_state E s = Inr (s', c)" and d: "dget s ''call_retry_dedupe'' = PDict d" "length d \<le> CALL_RETRY_DEDUPE_LIMIT"
    and r: "dget d key = r" "is_dict r" "fresh_receipt (we_now E) (key, r) = Inr True"
  shows "receipt_of s' key = r"
proof -
  from p obtain s1 c1 s2 calls c2 where 1: "prune_dedupe (we_now E) s = Inr (s1, c1)"
    and j: "prune_journal E s1 = Inr (s2, calls, c2)"
    and c: "(case dget_or s2 ''contacts'' (PDict []) of
         PDict contacts \<Rightarrow>
           bindE (prune_contacts E calls contacts) (\<lambda>contacts'.
             Inr (if has_key s2 ''contacts'' then dput ''contacts'' (PDict contacts') s2 else s2,
                  c1 \<or> c2 \<or> contacts' \<noteq> contacts))
       | _ \<Rightarrow> Inl (AttributeError ''values'')) = Inr (s', c)"
    by (auto simp: prune_state_def bindE_eq_Inr)
  from 1 d obtain d1 where d1: "filterE (fresh_receipt (we_now E)) d = Inr d1"
    and k: "\<exists>d2. keep_newest ''created_at'' CALL_RETRY_DEDUPE_LIMIT d1 = Inr d2 \<and> s1 = dput ''call_retry_dedupe'' (PDict d2) s"
    by (auto simp: prune_dedupe_def bindE_eq_Inr)
  from filterE_set [OF d1] have f: "d1 = filter (\<lambda>kv. fresh_receipt (we_now E) kv = Inr True) d" .
  then have "length d1 \<le> CALL_RETRY_DEDUPE_LIMIT" using d(2) length_filter_le order_trans by blast
  with k have s1: "s1 = dput ''call_retry_dedupe'' (PDict d1) s" by (simp add: keep_newest_def)
  have "dget s2 ''call_retry_dedupe'' = dget s1 ''call_retry_dedupe''"
    using j by (auto simp: prune_journal_def bindE_eq_Inr split: pyv.splits)
  moreover have "dget s' ''call_retry_dedupe'' = dget s2 ''call_retry_dedupe''"
    using c by (auto simp: bindE_eq_Inr split: pyv.splits if_splits)
  moreover have "dget d1 key = r"
    unfolding f by (rule dget_filter_first [OF r(1)]) (use r in auto)
  ultimately show ?thesis using s1 by (simp add: receipt_of_def)
qed

lemma inserted_ids:
  "insert_sources E sources n s = (s', Inr (n', ks)) \<Longrightarrow> [] \<notin> set ks"
proof (induction sources arbitrary: n s s' n' ks)
  case (Cons e sources)
  then show ?case by (auto simp: Let_def bindS_eq_Inr split: if_splits)
qed simp

lemma truthy_ids: "[] \<notin> set ks \<Longrightarrow> map (py_str rp) (filter truthy (map PStr ks)) = ks"
  by (induction ks) auto

text \<open>
  C39: the acceptance under a key that has a receipt is the first one again: whatever mutations are
  handed in, it returns the identifiers of the first and inserts nothing, as long as the receipt is
  within its retention and the receipts within their limit.
\<close>

theorem accepted_once:
  assumes first: "insert_entries E sources key kind doc f = Some (f', Inr ks)" and key: "key \<noteq> []"
    and none: "read_work_state E f = Inr s0" "\<not> is_dict (receipt_of s0 key)"
    and again: "read_work_state E2 f' = Inr s" and young: "we_now E2 - we_now E < CALL_RETRY_DEDUPE_RETENTION_SECONDS"
    and room: "length (dict_items (dget (raw_state f') ''call_retry_dedupe'')) \<le> CALL_RETRY_DEDUPE_LIMIT"
  shows "insert_entries E2 sources2 key kind2 doc2 f' = Some (write_state s, Inr ks)"
proof -
  from first key none obtain n s1 s2 n' where i: "insert_sources E sources n s1 = (s2, Inr (n', ks))"
    and f': "f' = write_state (dput ''call_retry_dedupe'' (PDict (dput key (call_receipt E ks kind doc)
               (dict_items (dget s2 ''call_retry_dedupe'')))) (dput ''call_retry_sequence'' (PInt n') s2))"
    by (auto simp: insert_entries_def insert_in_state_def bindS_eq_Inr Let_def split: sum.splits)
  let ?r = "call_receipt E ks kind doc"
  let ?d = "dput key ?r (dict_items (dget s2 ''call_retry_dedupe''))"
  have raw: "dget (raw_state f') ''call_retry_dedupe'' = PDict (sorted_journal ?d)"
    unfolding f' dget_written by (simp add: sorted_journal_def)
  then have filled: "dget (fill_defaults (raw_state f')) ''call_retry_dedupe'' = PDict (sorted_journal ?d)"
    using dget_fill_present by fastforce
  have r: "dget (sorted_journal ?d) key = sort_keys ?r" by (simp add: sorted_journal_def)
  have rd: "is_dict (sort_keys ?r)" and ca: "get (sort_keys ?r) ''created_at'' = PFloat (we_now E)"
    and ri: "get (sort_keys ?r) ''retry_ids'' = PList (map PStr ks)"
    by (simp_all add: call_receipt_def get_def dget_Cons comp_def)
  have fresh: "fresh_receipt (we_now E2) (key, sort_keys ?r) = Inr True"
    using rd ca young by (simp add: fresh_receipt_def num_of_def py_or_def)
  from again obtain c where p: "prune_state E2 (fill_defaults (raw_state f')) = Inr (s, c)"
    by (auto simp: read_work_state_def read_state_with_prune_status_def raw_state_def Let_def bindE_eq_Inr)
  have rec: "receipt_of s key = sort_keys ?r"
    by (rule pruned_receipt [OF p filled _ r rd fresh]) (use room raw in simp)
  have "retry_ids_of E2 (sort_keys ?r) = Inr (map (py_str (we_repr E2)) (filter truthy (map PStr ks)))"
    unfolding retry_ids_of_def ri by (cases ks) (simp_all add: py_or_def)
  then have "retry_ids_of E2 (sort_keys ?r) = Inr ks" unfolding truthy_ids [OF inserted_ids [OF i]] .
  with rec rd key again show ?thesis by (simp add: insert_entries_def insert_in_state_def)
qed

theorem accepted_once_witness:
  "\<exists>s. insert_entries (demo_call_env 6) [] ''msg'' [] PNone demo_call_file = Some (write_state s, Inr [''r1''])"
proof -
  obtain s where s: "read_work_state (demo_call_env 6) demo_call_file = Inr s" using demo_readable by (auto split: sum.splits)
  from accepted_once [OF demo_accepted _ read_missing_calls _ s] show ?thesis
    by (intro exI [of _ s]) (simp add: default_fields demo_receipts CALL_RETRY_DEDUPE_LIMIT_def CALL_RETRY_DEDUPE_RETENTION_SECONDS_def)
qed

section \<open>Messages of a call\<close>

lemma run_contact: "call_run tr (we_now E) f \<Longrightarrow> contact_step E f f' \<Longrightarrow> call_run tr (we_now E) f'"
  by (rule call_noted)

lemma run_marks:
  assumes "call_run tr (we_now E) f"
  shows "call_run tr (we_now E) (fst (mark_all_terminal E ids f))"
proof -
  have "call_run tr (we_now E) (fst m) \<Longrightarrow>
      call_run tr (we_now E) (fst (foldl (\<lambda>m i. bindS m (\<lambda>f u. mark_call_correlations_terminal E i f)) m ids))"
    for m :: "json_file \<times> unit result"
  proof (induction ids arbitrary: m)
    case (Cons i ids)
    have "call_run tr (we_now E) (fst (bindS m (\<lambda>f u. mark_call_correlations_terminal E i f)))"
    proof (cases "snd m")
      case (Inr u)
      then show ?thesis using Cons.prems run_contact [OF _ mark_step] by (cases m) simp
    qed (use Cons.prems in \<open>cases m; simp\<close>)
    then show ?case using Cons.IH by simp
  qed simp
  from this [of "(f, Inr ())"] assms show ?thesis by (simp add: mark_all_terminal_def)
qed

lemma append_entries_ok:
  assumes "mapE (append_entry E c message_id kind speaker_id speaker_name message terminal) (sides_of rp c) = Inr entries"
  shows "list_all source_ok entries"
proof -
  have "source_ok e" if "e \<in> set entries" for e
  proof -
    from mapE_Inr_set [OF assms that] obtain side where "side \<in> set (sides_of rp c)"
      and e: "append_entry E c message_id kind speaker_id speaker_name message terminal side = Inr e" by blast
    then have "side \<in> set [''outbound'', ''inbound'']" unfolding sides_of_def set_filter by blast
    then show ?thesis using e unfolding append_entry_def
      by (intro patch_entry_ok) auto
  qed
  then show ?thesis by (simp add: list_all_iff)
qed

text \<open>
  A message of a call that goes on, journaled for both sides and with the correlations marked when
  it ends the call, is a continuation of the run it starts in: it returns, and every step keeps
  what was accepted and the leases.
\<close>

theorem append_runs:
  assumes "call_run tr (we_now E) f"
  shows "\<exists>f' r new. append_correlated_call E c kind speaker_id speaker_name message key terminal f = Some (f', r)
     \<and> call_run (map Accepted new @ tr) (we_now E) f'"
proof -
  obtain f1 r1 where touched: "touch_call_correlations E (call_ids_of (we_repr E) c) f = (f1, r1)" by fastforce
  have run1: "call_run tr (we_now E) f1"
    using run_contact [OF assms touch_step [of E f "call_ids_of (we_repr E) c"]] touched by simp
  have stays: "\<exists>f' r new. Some (f1, x) = Some (f', r) \<and> call_run (map Accepted new @ tr) (we_now E) f'" for x :: "(bool \<times> string list) result"
    using run1 by (intro exI [of _ f1] exI [of _ x] exI [of _ "[]"]) simp
  let ?id = "if key \<noteq> [] then stable_id E ''call-message'' [key] else new_id E ''call-message'' []"
  show ?thesis
  proof (cases "\<exists>entries. r1 = Inr True \<and> sides_of (we_repr E) c \<noteq> []
      \<and> mapE (append_entry E c ?id kind speaker_id speaker_name message terminal) (sides_of (we_repr E) c) = Inr entries
      \<and> (\<exists>seen. dedupe_receipt E key f1 = Inr seen \<and> get seen ''kind'' \<noteq> PStr ''create'')")
    case False
    let ?D = "dedupe_receipt E key f1"
    let ?M = "mapE (append_entry E c ?id kind speaker_id speaker_name message terminal) (sides_of (we_repr E) c)"
    have "\<exists>x. append_correlated_call E c kind speaker_id speaker_name message key terminal f = Some (f1, x)"
    proof (cases "r1 = Inr True \<and> sides_of (we_repr E) c \<noteq> []")
      case True
      with False show ?thesis unfolding append_correlated_call_def Let_def touched
        by (cases ?M; cases ?D) simp_all
    next
      case False
      then show ?thesis unfolding append_correlated_call_def Let_def touched by (cases r1) auto
    qed
    then obtain x where "append_correlated_call E c kind speaker_id speaker_name message key terminal f = Some (f1, x)" ..
    then show ?thesis using stays [of x] by (simp only:)
  next
    case True
    then obtain entries seen where t: "r1 = Inr True" "sides_of (we_repr E) c \<noteq> []"
      "mapE (append_entry E c ?id kind speaker_id speaker_name message terminal) (sides_of (we_repr E) c) = Inr entries"
      "dedupe_receipt E key f1 = Inr seen" "get seen ''kind'' \<noteq> PStr ''create''" by blast
    note ok = append_entries_ok [OF t(3)]
    from call_run_inv [OF run1] have inv: "call_inv (waiting tr) (we_now E) f1" and now: "0 \<le> we_now E" by simp_all
    obtain f2 r2 where i: "insert_entries E entries key ''append'' PNone f1 = Some (f2, r2)"
      by (rule accept_keeps [OF inv now ok]) (rule that; assumption)
    have run2: "call_run (map Accepted (accepted_in f1 f2) @ tr) (we_now E) f2" by (rule call_accepted [OF run1 ok i])
    let ?ids = "map (\<lambda>e. text_of (we_repr E) (get e ''reference'') ''call_id'') entries"
    let ?m = "bindS (f2, r2) (\<lambda>f2 ids. bindS (if terminal then mark_all_terminal E ?ids f2 else (f2, Inr ())) (\<lambda>f3 u. (f3, Inr (True, ids))))"
    have "append_correlated_call E c kind speaker_id speaker_name message key terminal f = Some (fst ?m, snd ?m)"
      unfolding append_correlated_call_def Let_def touched prod.collapse using t i by simp
    moreover have "call_run (map Accepted (accepted_in f1 f2) @ tr) (we_now E) (fst ?m)"
      using run2 run_marks [OF run2, of ?ids] by (cases r2) (auto simp: bindS_def split: prod.split sum.split)
    ultimately show ?thesis by blast
  qed
qed

definition demo_call_reference :: pyv where
  "demo_call_reference = PDict [(''owner_contact_id'', PStr ''ada''), (''target_id'', PStr ''bob''), (''call_id'', PStr ''c1'')]"

definition demo_call_known :: json_file where
  "demo_call_known = fst (remember_outbound_call_reference (demo_call_env 6) demo_call_reference demo_call_file)"

theorem append_runs_witness:
  "\<exists>f' r new. append_correlated_call (demo_call_env 6)
       (PDict [(''outbound_owner_contact_id'', PStr ''ada''), (''outbound_call_id'', PStr ''c1'')])
       ''manager'' ''manager:ada'' [] ''hello'' [] False demo_call_known = Some (f', r)
     \<and> call_run (map Accepted new @ [Accepted ''r1'']) 6 f'"
proof -
  have "call_run [Accepted ''r1''] (we_now (demo_call_env 6)) demo_call_known"
    unfolding demo_call_known_def by (rule run_contact [OF demo_call_run remember_outbound_step]) simp
  from append_runs [OF this, of "PDict [(''outbound_owner_contact_id'', PStr ''ada''), (''outbound_call_id'', PStr ''c1'')]"
    "''manager''" "''manager:ada''" "[]" "''hello''" "[]" False] show ?thesis by simp
qed

section \<open>Deliveries\<close>

text \<open>
  What other processes do while a delivery is under way is any continuation of a run: \<open>acts n f\<close> are
  its events between the locks \<open>n - 1\<close> and \<open>n\<close>, when the document was \<open>f\<close>.
\<close>

definition others_run :: "meanwhile \<Rightarrow> (nat \<Rightarrow> json_file \<Rightarrow> call_event list) \<Rightarrow> bool" where
  "others_run W acts \<longleftrightarrow> (\<forall>n. we_now (mw_env W n) \<le> we_now (mw_env W (Suc n)))
     \<and> (\<forall>n tr f. call_run tr (we_now (mw_env W n)) f \<longrightarrow>
          call_run (acts (Suc n) f @ tr) (we_now (mw_env W (Suc n))) (mw_file W (Suc n) f))"

definition of_others :: "(nat \<Rightarrow> json_file \<Rightarrow> call_event list) \<Rightarrow> call_event list \<Rightarrow> bool" where
  "of_others acts l \<longleftrightarrow> (\<forall>x\<in>set l. \<exists>n f. x \<in> set (acts n f))"

lemma of_others_simps [simp]: "of_others acts []" "of_others acts (acts n f)" "of_others acts (l @ l') \<longleftrightarrow> of_others acts l \<and> of_others acts l'"
  by (auto simp: of_others_def)

lemma others_step:
  "others_run W acts \<Longrightarrow> call_run tr (we_now (mw_env W n)) f \<Longrightarrow> call_run (acts (Suc n) f @ tr) (we_now (mw_env W (Suc n))) (mw_file W (Suc n) f)"
  unfolding others_run_def by blast

lemma others_later:
  "others_run W acts \<Longrightarrow> call_run tr (we_now (mw_env W n)) f \<Longrightarrow> call_run tr (we_now (mw_env W (n + i))) f"
proof (induction i)
  case (Suc i)
  then show ?case using call_later unfolding others_run_def by (metis add_Suc_right)
qed simp

text \<open>What a copy of a mutation says after a failure: tried once more, released, and as it was else.\<close>

definition failed_copy :: "wenv \<Rightarrow> rat \<Rightarrow> pyerr \<Rightarrow> pyv \<Rightarrow> pyv \<Rightarrow> bool" where
  "failed_copy E jitter x c e \<longleftrightarrow>
     (\<exists>n. get c ''attempts'' = PInt n \<and> get e ''attempts'' = PInt (max 0 n + 1)
        \<and> (dead e \<longleftrightarrow> terminal_call_retry_error E x \<or> CALL_RETRY_MAX_ATTEMPTS \<le> max 0 n + 1)
        \<and> (\<not> dead e \<longrightarrow> pending e \<and> get e ''next_attempt_at'' = PFloat (we_now E + retry_delay jitter (max 0 n + 1))))
     \<and> get e ''last_error'' = PStr (safe_retry_error E x) \<and> get e ''lease_token'' = PStr [] \<and> leased_until e = 0
     \<and> (\<forall>key\<in>set [''retry_id'', ''lane'', ''sequence'', ''operation'', ''direction'', ''reference'', ''payload'', ''created_at''].
          get e key = sort_keys (get c key))"

text \<open>
  How an attempt ends in the journal, from the document \<open>f\<close> to \<open>f'\<close>: nothing is recorded for a mutation
  that another process has claimed since or that is gone; else it is removed if the attempt
  succeeded, and stays with its failure if not.
\<close>

definition settled :: "wenv \<Rightarrow> rat \<Rightarrow> string \<Rightarrow> pyv \<Rightarrow> unit result \<Rightarrow> json_file \<Rightarrow> json_file \<Rightarrow> call_event list \<Rightarrow> bool" where
  "settled E jitter k e tried f f' ev \<longleftrightarrow>
     (case read_work_state E f of
        Inl x \<Rightarrow> f' = f \<and> ev = []
      | Inr s \<Rightarrow>
          (case map_of (journal_of s) k of
             None \<Rightarrow> f' = f \<and> ev = []
           | Some c \<Rightarrow>
               if token_of c \<noteq> token_of e then f' = f \<and> ev = []
               else (case tried of
                       Inr u \<Rightarrow> map_of (journal_in f') k = None \<and> ev = [Delivered k]
                     | Inl x \<Rightarrow> (\<exists>e'. map_of (journal_in f') k = Some e' \<and> failed_copy E jitter x c e') \<and> ev = [Attempt_failed k])))"

lemma failed_entry_copy:
  assumes "shaped k c" and "get c ''attempts'' = PInt n"
  shows "failed_copy E jitter x c (sort_keys (failed_entry E jitter x n c))"
proof -
  let ?e = "failed_entry E jitter x n c"
  have d: "is_dict c" using assms(1) by (simp add: shaped_def)
  have sh: "shaped k (sort_keys ?e)" using failed_shaped [OF assms(1)] by simp
  have p: "pending (sort_keys ?e)" if "\<not> dead (sort_keys ?e)" using dead_not_pending [OF sh] that by simp
  show ?thesis
    unfolding failed_copy_def
    using p assms(2) d by (simp add: failed_get Let_def dead_def leased_until_def)
qed

text \<open>The token of a copy that a process holds is the text the claim wrote.\<close>

lemma holds_lease_token:
  assumes "shaped k c" and "get e ''lease_token'' = PStr tok"
  shows "holds_lease c e \<longleftrightarrow> token_of c = token_of e"
  using assms typed_E(1) [of "get c ''lease_token''"] by (auto simp: shaped_def holds_lease_def token_of_def)

lemma outcome_settles:
  assumes run: "call_run tr (we_now E) f" and tok: "get e ''lease_token'' = PStr tok" "tok \<noteq> []"
    and out: "record_outcome E jitter k e tried f = (f', removed)"
  shows "\<exists>ev. call_run (ev @ tr) (we_now E) f' \<and> settled E jitter k e tried f f' ev
     \<and> ((\<exists>u. tried = Inr u) \<longrightarrow> removed = Inr True \<longrightarrow> map_of (journal_in f') k = None)"
proof (cases "read_work_state E f")
  case (Inl x)
  then have "f' = f" "removed \<noteq> Inr True" using out
    by (auto simp: record_outcome_def record_call_retry_failure_def complete_call_retry_def split: sum.splits)
  with run Inl show ?thesis by (intro exI [of _ "[]"]) (simp add: settled_def)
next
  case (Inr s)
  from call_run_inv [OF run] have inv: "call_inv (waiting tr) (we_now E) f" by simp
  from inv_read [OF inv Inr] have gs: "good_state (we_now E) s" by simp
  then have g: "good_journal (seq_of s) (journal_of s)" by (simp add: good_state_def)
  show ?thesis
  proof (cases "\<exists>c. map_of (journal_of s) k = Some c \<and> token_of c = token_of e")
    case False
    have "\<not> holds_lease (dget (journal_of s) k) e"
    proof (cases "map_of (journal_of s) k")
      case None
      then show ?thesis by (simp add: dget_def holds_lease_def)
    next
      case (Some c)
      with False holds_lease_token [OF good_shaped [OF g Some] tok(1)] show ?thesis by (simp add: dget_def)
    qed
    then have "f' = f" "removed \<noteq> Inr True" using out Inr
      by (auto simp: record_outcome_def record_call_retry_failure_def complete_call_retry_def Let_def split: sum.splits)
    with run Inr False show ?thesis by (intro exI [of _ "[]"]) (auto simp: settled_def split: option.split)
  next
    case True
    then obtain c where m: "map_of (journal_of s) k = Some c" and t: "token_of c = token_of e" by blast
    note sh = good_shaped [OF g m]
    have d: "dget (journal_of s) k = c" using m by (simp add: dget_def)
    have h: "holds_lease c e" using holds_lease_token [OF sh tok(1)] t by simp
    show ?thesis
    proof (cases tried)
      case (Inl x)
      obtain n where n: "get c ''attempts'' = PInt n" using sh typed_E(3) by (auto simp: shaped_def)
      let ?f = "write_state (put_journal (dput k (failed_entry E jitter x n c) (journal_of s)) s)"
      have "int_of c ''attempts'' = Inr n" using n by (auto simp: int_of_def py_or_def)
      then have rec: "record_call_retry_failure E jitter k e x f = (?f, Inr (Some (failed_entry E jitter x n c)))"
        using Inr d h by (simp add: record_call_retry_failure_def Let_def)
      with out Inl have f': "f' = ?f" by (simp add: record_outcome_def)
      from call_failed [OF run tok rec] have "call_run ([Attempt_failed k] @ tr) (we_now E) f'" unfolding f' by simp
      moreover have "journal_in f' = sorted_journal (dput k (failed_entry E jitter x n c) (journal_of s))"
        unfolding f' by (subst journal_in_written) (simp_all add: put_journal_def journal_of_def)
      then have "map_of (journal_in f') k = Some (sort_keys (failed_entry E jitter x n c))" by (simp add: map_of_sorted_journal)
      ultimately show ?thesis
        using Inl Inr m t failed_entry_copy [OF sh n] by (intro exI [of _ "[Attempt_failed k]"]) (simp add: settled_def)
    next
      case (Inr u)
      let ?f = "write_state (put_journal (dpop k (journal_of s)) s)"
      have rec: "complete_call_retry E k e f = (?f, Inr True)"
        using \<open>read_work_state E f = Inr s\<close> d h by (simp add: complete_call_retry_def)
      with out Inr have f': "f' = ?f" by (simp add: record_outcome_def)
      from call_completed [OF run rec] have "call_run ([Delivered k] @ tr) (we_now E) f'" unfolding f' by simp
      moreover have "journal_in f' = sorted_journal (dpop k (journal_of s))"
        unfolding f' by (subst journal_in_written) (simp_all add: put_journal_def journal_of_def)
      then have "map_of (journal_in f') k = None" by (simp add: map_of_sorted_journal)
      ultimately show ?thesis
        using Inr \<open>read_work_state E f = Inr s\<close> m t by (intro exI [of _ "[Delivered k]"]) (simp add: settled_def)
    qed
  qed
qed

lemma fst_bindS_same: "(\<And>s x. fst (g s x) = s) \<Longrightarrow> fst (bindS m g) = fst m"
  by (cases m; cases "snd m") (auto simp: bindS_def)

lemma tried_step:
  assumes t: "try_delivery W T e f = (f', tried)"
  shows "contact_step (mw_env W 2) (mw_file W 2 (mw_file W 1 f)) f'"
proof (cases "attempt_delivery (mw_env W 1) T e (mw_file W 1 f)")
  case (Inr a)
  let ?owner = "text_of (we_repr (mw_env W 1)) (py_or (get e ''reference'') (PDict [])) ''owner_contact_id''"
  show ?thesis
  proof (cases "truthy (result_data a)")
    case True
    with t Inr have "f' = fst (remember_event (mw_env W 2) ?owner (result_data a) (mw_file W 2 (mw_file W 1 f)))"
      by (simp add: try_delivery_def Let_def)
    then show ?thesis using remember_event_step by simp
  qed (use t Inr in \<open>simp add: try_delivery_def Let_def\<close>)
qed (use t in \<open>simp add: try_delivery_def Let_def\<close>)

lemma tried_runs:
  assumes others: "others_run W acts" and run: "call_run tr (we_now (mw_env W 0)) f" and t: "try_delivery W T e f = (f', tried)"
  shows "\<exists>mid. of_others acts mid \<and> call_run (mid @ tr) (we_now (mw_env W 2)) f'"
proof -
  let ?f1 = "mw_file W 1 f" and ?f2 = "mw_file W 2 (mw_file W 1 f)"
  have "call_run (acts 1 f @ tr) (we_now (mw_env W 1)) ?f1" using others_step [OF others run] by simp
  from others_step [OF others this] have 2: "call_run ((acts 2 ?f1 @ acts 1 f) @ tr) (we_now (mw_env W 2)) ?f2"
    by (simp add: numeral_2_eq_2)
  have "call_run ((acts 2 ?f1 @ acts 1 f) @ tr) (we_now (mw_env W 2)) f'" by (rule run_contact [OF 2 tried_step [OF t]])
  then show ?thesis by (intro exI [of _ "acts 2 ?f1 @ acts 1 f"]) simp
qed

lemma next_scheduled_runs:
  assumes others: "others_run W acts" and run: "call_run tr (we_now (mw_env W 4)) f"
  shows "\<exists>late. of_others acts late \<and> call_run (late @ tr) (we_now (mw_env W 5)) (fst (schedule_next W e d f))"
proof -
  have "fst (schedule_next W e d f) = mw_file W 5 f"
    by (simp add: schedule_next_def Let_def bindS_def split: sum.split)
  moreover have "call_run (acts 5 f @ tr) (we_now (mw_env W 5)) (mw_file W 5 f)"
    using others_step [OF others run] by simp
  ultimately show ?thesis by (intro exI [of _ "acts 5 f"]) simp
qed

lemma later_runs:
  assumes others: "others_run W acts" and run: "call_run tr (we_now (mw_env W n)) f" and n: "n \<le> 5"
  shows "\<exists>late. of_others acts late \<and> call_run (late @ tr) (we_now (mw_env W 5)) f"
  using others_later [OF others run, of "5 - n"] n by (intro exI [of _ "[]"]) simp

text \<open>What follows a recorded outcome writes nothing in the journal; it may prune a failed mutation.\<close>

lemma after_runs:
  assumes others: "others_run W acts" and run: "call_run tr (we_now (mw_env W 3)) f"
  shows "\<exists>late. of_others acts late \<and> call_run (late @ tr) (we_now (mw_env W 5)) (fst (after_outcome W k e tried removed f))"
proof -
  let ?f = "mw_file W 4 f" and ?i = "text_of (we_repr (mw_env W 4)) (py_or (get e ''reference'') (PDict [])) ''call_id''"
  have 4: "call_run (acts 4 f @ tr) (we_now (mw_env W 4)) ?f" using others_step [OF others run] by simp
  have more_acts: ?thesis if "\<exists>late. of_others acts late \<and> call_run (late @ acts 4 f @ tr) (we_now (mw_env W 5)) (fst (after_outcome W k e tried removed f))"
    using that by (elim exE) (metis append_assoc of_others_simps(2,3))
  show ?thesis
  proof (cases tried)
    case (Inl x)
    show ?thesis
    proof (cases "read_work_state (mw_env W 4) ?f")
      case (Inl y)
      then have "fst (after_outcome W k e tried removed f) = ?f" using \<open>tried = Inl x\<close> by (simp add: after_outcome_def)
      with later_runs [OF others 4] show ?thesis by (intro more_acts) simp
    next
      case (Inr s)
      let ?c = "dget (journal_of s) k"
      have "fst (after_outcome W k e tried removed f) = ?f
          \<or> fst (after_outcome W k e tried removed f) = fst (schedule_next W ?c False ?f)"
        using \<open>tried = Inl x\<close> Inr by (simp add: after_outcome_def Let_def)
      with later_runs [OF others 4] next_scheduled_runs [OF others 4, of ?c False] show ?thesis by (intro more_acts) auto
    qed
  next
    case (Inr u)
    show ?thesis
    proof (cases removed)
      case False
      then have "fst (after_outcome W k e tried removed f) = f" using Inr by (simp add: after_outcome_def)
      with later_runs [OF others run] show ?thesis by simp
    next
      case True
      obtain g r where g: "clear_call_correlations (mw_env W 4) ?i ?f = (g, r)" by fastforce
      have 5: "call_run (acts 4 f @ tr) (we_now (mw_env W 4)) g" using run_contact [OF 4 clear_step] g by (metis fst_conv)
      have "fst (after_outcome W k e tried removed f) = (case r of Inl x \<Rightarrow> g | Inr v \<Rightarrow> fst (schedule_next W e True g))"
        using Inr True g by (simp add: after_outcome_def Let_def split: sum.split)
      with later_runs [OF others 5] next_scheduled_runs [OF others 5, of e True] show ?thesis
        by (intro more_acts) (cases r; simp)
    qed
  qed
qed

text \<open>Writers of other parts keep a mutation that has not failed, and bring none back.\<close>

lemma contact_step_journal:
  assumes "contact_step E f f'"
  shows "f' = f \<or> journal_in f' = sorted_journal (filter (\<lambda>kv. judge E (snd kv) = Inr Keep) (journal_in f))"
proof (cases "f' = f")
  case False
  with assms obtain s s' c where s: "read_state_with_prune_status E f = Inr (s, c)" "contacts_only s s'" "f' = write_state s'"
    by (auto simp: contact_step_def)
  then have d: "dget s' ''call_retry_journal'' = dget s ''call_retry_journal''" by (simp add: contacts_only_def)
  with read_journal [OF s(1)] have "is_dict (dget s' ''call_retry_journal'')" by simp
  with d read_journal [OF s(1)] s(3) show ?thesis by (simp add: journal_in_written journal_of_def)
qed simp

lemma contact_step_gone:
  assumes "contact_step E f f'" and "map_of (journal_in f) k = None"
  shows "map_of (journal_in f') k = None"
proof -
  have "map_of (filter P (journal_in f)) k = None" for P using assms(2) by (auto simp: map_of_eq_None_iff)
  with contact_step_journal [OF assms(1)] assms(2) show ?thesis by (auto simp: map_of_sorted_journal)
qed

lemma contact_step_copy:
  assumes "contact_step E f f'" and inv: "call_inv w t f" and m: "map_of (journal_in f) k = Some c" and "\<not> dead c"
  shows "\<exists>c'. map_of (journal_in f') k = Some c' \<and> \<not> dead c' \<and> token_of c' = token_of c"
proof -
  let ?j = "filter (\<lambda>kv. judge E (snd kv) = Inr Keep) (journal_in f)"
  have g: "good_file t f" using inv by (simp add: call_inv_def)
  have d: "distinct (map fst (journal_in f))" using file_journal [OF g] good_distinct by blast
  have "(k, c) \<in> set ?j"
    using map_of_SomeD [OF m] judge_alive [OF good_shaped [OF file_journal [OF g, THEN conjunct1] m] assms(4)] by simp
  then have "map_of ?j k = Some c" using distinct_filter_keys [OF d] by simp
  with contact_step_journal [OF assms(1)] m assms(4) show ?thesis by (auto simp: map_of_sorted_journal)
qed

lemma after_quiet:
  assumes quiet: "\<forall>n\<ge>4. \<forall>g. mw_file W n g = g"
    and gone: "(\<exists>u. tried = Inr u) \<longrightarrow> removed \<longrightarrow> map_of (journal_in f) k = None"
  shows "map_of (journal_in (fst (after_outcome W k e tried removed f))) k = map_of (journal_in f) k"
proof -
  have next_same: "fst (schedule_next W c d g) = g" for c d g
    using quiet by (simp add: schedule_next_def Let_def bindS_def split: sum.split)
  have clear_same: "fst (bindS m (\<lambda>f1 u. schedule_next W e True f1)) = fst m" for m :: "json_file \<times> unit result"
    by (rule fst_bindS_same) (rule next_same)
  have 4: "mw_file W 4 f = f" using quiet by simp
  show ?thesis
  proof (cases "\<exists>u. tried = Inr u \<and> removed")
    case False
    then have "fst (after_outcome W k e tried removed f) = f"
      using next_same 4 by (cases tried; cases "read_work_state (mw_env W 4) f") (auto simp: after_outcome_def Let_def)
    then show ?thesis by simp
  next
    case True
    let ?i = "text_of (we_repr (mw_env W 4)) (py_or (get e ''reference'') (PDict [])) ''call_id''"
    have "fst (after_outcome W k e tried removed f) = fst (clear_call_correlations (mw_env W 4) ?i f)"
      using True 4 clear_same by (auto simp: after_outcome_def Let_def)
    with True gone contact_step_gone [OF clear_step] show ?thesis by simp
  qed
qed

text \<open>The entry that a claim returns is in the journal, under a token of its own.\<close>

lemma claimed_copy:
  assumes run: "call_run tr (we_now E) f" and claim: "claim_call_retry E now k f = (f', Inr (Some e))"
  shows "get e ''lease_token'' = PStr (we_uuid E) \<and> map_of (journal_in f') k = Some (sort_keys e) \<and> \<not> dead e"
proof -
  from claim_found [OF claim] obtain s lane where s: "read_work_state E f = Inr s" "claimable_lane E now k (journal_of s) = Inr (Some lane)"
    "e = lease E now lane (dget (journal_of s) k)" "f' = write_state (put_journal (dput k e (journal_of s)) s)" by blast
  from s(2) have d: "is_dict (dget (journal_of s) k)" "get (dget (journal_of s) k) ''status'' = PStr ''pending''"
    by (auto simp: claimable_lane_def Let_def split: if_splits)
  have "journal_in f' = sorted_journal (dput k e (journal_of s))"
    unfolding s(4) by (subst journal_in_written) (simp_all add: put_journal_def journal_of_def)
  with s(3) d show ?thesis by (simp add: lease_get map_of_sorted_journal dead_def)
qed

lemma alone_holds:
  assumes alone: "\<forall>n g. mw_file W n g = g" and inv: "call_inv w t f" and t: "try_delivery W T e f = (f', tried)"
    and m: "map_of (journal_in f) k = Some c" "\<not> dead c" and inv': "call_inv w' t' f'" and s: "read_work_state E f' = Inr s"
  shows "\<exists>c'. map_of (journal_of s) k = Some c' \<and> token_of c' = token_of c"
proof -
  have "contact_step (mw_env W 2) f f'" using tried_step [OF t] alone by simp
  from contact_step_copy [OF this inv m] obtain c' where c': "map_of (journal_in f') k = Some c'" "\<not> dead c'" "token_of c' = token_of c" by blast
  have "good_file t' f'" using inv' by (simp add: call_inv_def)
  from read_alive [OF s this c'(1,2)] c'(3) show ?thesis by blast
qed

text \<open>
  C40: a delivery claims a mutation, asks the Interface, remembers the card it answers and records the
  outcome, and between these other processes go on with their runs. When the request or the
  remembering fails, the mutation stays with its failure; otherwise it is removed as delivered;
  and nothing is recorded when another process has taken the mutation over in the meantime. All of it
  is a continuation of the run in which, besides what the other processes do, at most the one
  event of this mutation happens. A delivery that no other process interferes with records
  its outcome whenever it can read the document.
\<close>

theorem delivery_runs:
  assumes run: "call_run tr (we_now (mw_env W 0)) f" and now: "claim_now \<le> we_now (mw_env W 0)"
    and uuid: "we_uuid (mw_env W 0) \<noteq> []" and others: "others_run W acts"
    and claim: "claim_call_retry (mw_env W 0) claim_now k f = (f1, Inr (Some e))"
    and tried: "try_delivery W T e f1 = (f2, tried)"
    and deliver: "deliver_call_retry W claim_now jitter T k f = (f', res)"
  shows "(\<forall>x. attempt_delivery (mw_env W 1) T e (mw_file W 1 f1) = Inl x \<longrightarrow> tried = Inl x)
     \<and> (\<forall>a x. attempt_delivery (mw_env W 1) T e (mw_file W 1 f1) = Inr a \<longrightarrow> tried = Inl x \<longrightarrow>
          (\<exists>owner. snd (remember_event (mw_env W 2) owner (result_data a) (mw_file W 2 (mw_file W 1 f1))) = Inl x))
     \<and> (\<exists>mid ev late f3. of_others acts (mid @ late)
          \<and> settled (mw_env W 3) jitter k e tried (mw_file W 3 f2) f3 ev
          \<and> call_run (late @ ev @ mid @ tr) (we_now (mw_env W 5)) f'
          \<and> ((\<forall>n\<ge>4. \<forall>g. mw_file W n g = g) \<longrightarrow> map_of (journal_in f') k = map_of (journal_in f3) k)
          \<and> ((\<forall>n g. mw_file W n g = g) \<longrightarrow> (\<exists>s. read_work_state (mw_env W 3) f2 = Inr s) \<longrightarrow> ev \<noteq> []))"
proof -
  have run1: "call_run tr (we_now (mw_env W 0)) f1" by (rule call_claimed [OF run now claim])
  note copy = claimed_copy [OF run claim]
  obtain mid where mid: "of_others acts mid" "call_run (mid @ tr) (we_now (mw_env W 2)) f2"
    using tried_runs [OF others run1 tried] by blast
  let ?g = "mw_file W 3 f2"
  have run3: "call_run ((acts 3 f2 @ mid) @ tr) (we_now (mw_env W 3)) ?g"
    using others_step [OF others mid(2)] by (simp add: numeral_3_eq_3)
  obtain f3 removed where out: "record_outcome (mw_env W 3) jitter k e tried ?g = (f3, removed)" by fastforce
  from outcome_settles [OF run3 conjunct1 [OF copy] uuid out] obtain ev where
    ev: "call_run (ev @ (acts 3 f2 @ mid) @ tr) (we_now (mw_env W 3)) f3" "settled (mw_env W 3) jitter k e tried ?g f3 ev"
    and gone: "(\<exists>u. tried = Inr u) \<longrightarrow> removed = Inr True \<longrightarrow> map_of (journal_in f3) k = None" by blast
  have f': "f' = (case removed of Inl x \<Rightarrow> f3 | Inr b \<Rightarrow> fst (after_outcome W k e tried b f3))"
    using deliver by (auto simp: deliver_call_retry_def claim tried out bindS_def split: sum.splits)
  obtain late where late: "of_others acts late" "call_run (late @ ev @ (acts 3 f2 @ mid) @ tr) (we_now (mw_env W 5)) f'"
    using later_runs [OF others ev(1)] after_runs [OF others ev(1), of k e tried] by (cases removed) (auto simp: f')
  have quiet: "map_of (journal_in f') k = map_of (journal_in f3) k" if "\<forall>n\<ge>4. \<forall>g. mw_file W n g = g"
    using after_quiet [OF that, of tried _ f3 k e] gone by (cases removed) (auto simp: f')
  have alone: "ev \<noteq> []" if a: "\<forall>n g. mw_file W n g = g" and s: "read_work_state (mw_env W 3) f2 = Inr s" for s
  proof -
    from call_run_inv [OF run1] have inv: "call_inv (waiting tr) (we_now (mw_env W 0)) f1" by simp
    from call_run_inv [OF mid(2)] have inv': "call_inv (waiting (mid @ tr)) (we_now (mw_env W 2)) f2" by simp
    obtain c where "map_of (journal_of s) k = Some c" "token_of c = token_of (sort_keys e)"
      using alone_holds [OF a inv tried _ _ inv' s] copy by force
    then show ?thesis using ev(2) a s by (auto simp: settled_def split: sum.splits)
  qed
  have "(\<forall>x. attempt_delivery (mw_env W 1) T e (mw_file W 1 f1) = Inl x \<longrightarrow> tried = Inl x)"
    using tried by (auto simp: try_delivery_def Let_def)
  moreover have "(\<forall>a x. attempt_delivery (mw_env W 1) T e (mw_file W 1 f1) = Inr a \<longrightarrow> tried = Inl x \<longrightarrow>
          (\<exists>owner. snd (remember_event (mw_env W 2) owner (result_data a) (mw_file W 2 (mw_file W 1 f1))) = Inl x))"
    using tried by (auto simp: try_delivery_def Let_def split: if_splits) (metis snd_conv)
  ultimately show ?thesis
    using mid(1) late ev(2) quiet alone
    by (intro conjI exI [of _ "acts 3 f2 @ mid"] exI [of _ ev] exI [of _ late] exI [of _ f3]) auto
qed

definition demo_alone :: meanwhile where
  "demo_alone = \<lparr>mw_env = (\<lambda>n. demo_call_env 6), mw_file = (\<lambda>n f. f)\<rparr>"

definition demo_transport :: transport where
  "demo_transport = \<lparr>tr_create = (\<lambda>task_id payload. Inr payload), tr_patch = (\<lambda>task_id call_id n payload. Inr payload)\<rparr>"

lemma demo_tried: "case claim_call_retry (demo_call_env 6) 6 ''r1'' demo_call_file of
    (f1, Inr (Some e)) \<Rightarrow>
      (case try_delivery demo_alone demo_transport e f1 of
         (f2, tried) \<Rightarrow> tried = Inr () \<and> (case read_work_state (demo_call_env 6) f2 of Inl x \<Rightarrow> False | Inr s \<Rightarrow> True))
  | (f1, r) \<Rightarrow> False"
  by code_simp

theorem delivery_runs_witness:
  "\<exists>f' res. deliver_call_retry demo_alone 6 1 demo_transport ''r1'' demo_call_file = (f', res)
     \<and> call_run [Delivered ''r1'', Accepted ''r1''] 6 f' \<and> map_of (journal_in f') ''r1'' = None"
proof -
  have env: "mw_env demo_alone n = demo_call_env 6" "mw_file demo_alone n g = g" for n g by (simp_all add: demo_alone_def)
  obtain f1 r where r: "claim_call_retry (demo_call_env 6) 6 ''r1'' demo_call_file = (f1, r)" by fastforce
  obtain e where e: "r = Inr (Some e)" using demo_tried unfolding r by (cases r) (auto split: option.splits)
  obtain f2 tried where f2: "try_delivery demo_alone demo_transport e f1 = (f2, tried)" by fastforce
  from demo_tried have "tried = Inr () \<and> (case read_work_state (demo_call_env 6) f2 of Inl x \<Rightarrow> False | Inr s \<Rightarrow> True)"
    unfolding r e prod.case sum.case option.case f2 .
  then obtain s where t: "try_delivery demo_alone demo_transport e f1 = (f2, Inr ())" and s: "read_work_state (demo_call_env 6) f2 = Inr s"
    using f2 by (cases "read_work_state (demo_call_env 6) f2") auto
  have c: "claim_call_retry (mw_env demo_alone 0) 6 ''r1'' demo_call_file = (f1, Inr (Some e))" unfolding env r e ..
  obtain f' res where d: "deliver_call_retry demo_alone 6 1 demo_transport ''r1'' demo_call_file = (f', res)" by fastforce
  have o: "others_run demo_alone (\<lambda>n f. [])" by (simp add: others_run_def env)
  have "call_run [Accepted ''r1''] (we_now (mw_env demo_alone 0)) demo_call_file" "we_uuid (mw_env demo_alone 0) \<noteq> []"
    using demo_call_run [of 6] by (simp_all add: env) (simp add: demo_call_env_def)
  from delivery_runs [OF this(1) _ this(2) o c t d] obtain mid ev late f3 where
    "of_others (\<lambda>n f. []) (mid @ late)" and st: "settled (demo_call_env 6) 1 ''r1'' e (Inr ()) f2 f3 ev"
    and run: "call_run (late @ ev @ mid @ [Accepted ''r1'']) 6 f'"
    and j: "map_of (journal_in f') ''r1'' = map_of (journal_in f3) ''r1''" and ev: "ev \<noteq> []"
    using s by (auto simp: env)
  then have "mid = []" "late = []" by (auto simp: of_others_def) (metis list.set_intros(1) list.exhaust)+
  moreover from st ev have "ev = [Delivered ''r1''] \<and> map_of (journal_in f3) ''r1'' = None"
    by (auto simp: settled_def s split: option.splits if_splits)
  ultimately show ?thesis using run d j by auto
qed


text \<open>A retry is in flight at most once.\<close>

lemma inflight_distinct:
  "distinct inflight \<Longrightarrow> distinct (fst (schedule_call_retry E submit k claim_now f inflight)) \<and> distinct (leave_inflight k inflight)"
  by (auto simp: schedule_call_retry_def leave_inflight_def bindS_def distinct_removeAll split: sum.split)

end
