(* ===== verification/Spec2Isabelle.thy ===== *)
theory Spec2Isabelle
  imports MaintSpec TrustSpec CronSpec SnapshotSpec InboxSpec ActorSpec MailboxSpec MessageLogSpec RoutingSpec
    HeartbeatSpec OutboxSpec CallSpec
begin

text \<open>
  A verification development for the silicon-stemcell runtime: a long-running agent that takes
  messages, runs workers, keeps schedules, updates itself and protects its data. Modelled is
  the durable core below the agent, the parts that decide what survives a crash, an update or
  a restore, and who is trusted.

  Parts and their interaction. The maintenance coordinator (\<open>core/maintenance.py\<close>) is the fence
  an update raises: the scheduler asks it for leases, hands it incoming messages, and an
  updater moves it through its phases. The trust cache (\<open>core/trust.py\<close>) holds the policy of the
  Glass service; \<open>core/interface.py\<close> projects it on the contacts. The scheduled work
  (\<open>core/cron\<close>) fires crons and checkbacks. The snapshots (\<open>core/backup\<close>, with the path rules of
  \<open>core/data_policy.py\<close>) are what an update falls back to: the collector must keep what update
  and restore journals refer to, and an in-place restore must not lower the release floor.

  Theories, in the order of their imports.
  \<^item> \<open>PyValue\<close>, \<open>Store\<close>: JSON values, Python's equality, truth and text of them, the string methods
    the code uses, dictionaries as association lists, the
    document file of a component and the locale of such a store. \<open>Outcome\<close>: sequencing of
    computations that may raise. \<open>JsonFile\<close>: documents on disk with sorted keys, and \<open>update_json\<close>.
    \<open>DateTime\<close>: the calendar and ISO text of instants.
  \<^item> \<open>MaintState\<close> (the document and its normalisation), \<open>MaintOps\<close> (one definition \<open>m_mut\<close> per
    \<open>mutate\<close> body and one per method \<open>m\<close>, run by \<open>transaction\<close>), \<open>MaintInv\<close> (steps and
    reachable files as inductive relations, the locale of an invariant of the coordinator),
    \<open>MaintEvents\<close> and \<open>MaintReach\<close> (its interpretations), \<open>MaintCoord\<close>, \<open>MaintSafe\<close>,
    \<open>MaintProps\<close>, \<open>MaintSpec\<close> (properties).
  \<^item> \<open>Trust\<close>, \<open>TrustSpec\<close>: the cache, reconciliation with Glass, the change of a level and the
    projection on the contacts; properties.
  \<^item> \<open>Cron\<close>, \<open>CronSpec\<close>: trigger matching, the minute loop, claiming of fires, the record cache,
    checkbacks and the cron tools; properties.
  \<^item> \<open>SnapFs\<close>, \<open>SnapPath\<close>, \<open>SnapStore\<close>, \<open>Manifest\<close>: errors, the files of an instance, path rules,
    objects and JSON documents, manifests. \<open>ReleaseFloor\<close>: the anti-rollback floor. \<open>SnapRoots\<close>:
    the durable references. \<open>SnapGC\<close>: the collector; \<open>SnapGCSafe\<close> (a locale of bounded scans,
    interpreted on the two scans of the store), \<open>SnapForeign\<close> (entries the scans do not know),
    \<open>SnapGCKeep\<close>, \<open>SnapGCAgain\<close>, \<open>SnapSpec\<close>: its properties. \<open>Restore\<close>, \<open>RestoreSpec\<close>: the in-place restore; properties.
  \<^item> \<open>Glob\<close>, \<open>Policy\<close>: \<open>fnmatch\<close>, and the data policy of \<open>core/data_policy.py\<close>: its classes, the walk over
    the tree and what it selects; a Python generator is the list of what it yields with the error it
    ends in. \<open>PolicySafe\<close>: the walk is sound and complete; \<open>PolicySpec\<close>: properties. \<open>Snapshot\<close>: the
    legacy path list, the copy of a live source, \<open>create_local_snapshot\<close>, and the restore into a new
    directory; a \<open>live_view\<close> says what a source held when an attempt opened it, while it read and
    afterwards. \<open>SnapshotSpec\<close>: properties, among them that mandatory data survives a snapshot and
    its in-place restore.
  \<^item> \<open>Event\<close>, \<open>Contacts\<close>, \<open>Ingest\<close>: how \<open>core/interface.py\<close> reads an event, the contacts document with
    room discovery and the marks of handled events, and the durable inbox: scan, cursor, queues, the
    interpretation of a record, its hand-over to the coordinator. \<open>InboxScan\<close> (the reference reading
    \<open>line_records\<close> and the window of held records), \<open>InboxTurn\<close> (a turn keeps the window; what a
    committed record stands for), \<open>InboxMarks\<close> (a marked event is not given out again, whatever is
    written later, until 500 newer marks of its room), \<open>InboxSpec\<close>:
    runs as an inductive relation, and properties that span the inbox and the coordinator.
  \<^item> \<open>Actor\<close>, \<open>Mailbox\<close>, \<open>MessageLog\<close>, \<open>Routing\<close> with their \<open>Spec\<close> theories: the documents of the command line
    \<open>core/iwantto\<close> by which a run acts: the registry of tokens, the mail between a manager and its
    workers, the log of what was said, and who a name stands for. Runs and files are related to an
    abstract state: grants, queues of letters, sequences of messages.
  \<^item> \<open>Heartbeat\<close>, \<open>HeartbeatSpec\<close>: the sweeps of \<open>core/heartbeat.py\<close> as clocks. \<open>Outbox\<close>, \<open>OutboxSpec\<close>: the bounded
    executor of \<open>core/background.py\<close>, its steps and the runs of submissions and workers, with the log of
    what a lane was given and what it ran.

  \<^item> \<open>CallState\<close>, \<open>CallJournal\<close>, \<open>CallCards\<close>, \<open>CallDelivery\<close>: the calls between agents of
    \<open>core/work_updates.py\<close>: the document and its pruning; the journal of mutations with its limit,
    receipts, lanes, leases and outcomes; the cards and the correlation of the two sides of a call;
    a delivery as claim, answer and record, and the end of idle calls. \<open>CallInv\<close>, \<open>CallSteps\<close>: the
    invariant of the journal and the loop that makes room. \<open>CallRun\<close>: runs as an inductive relation, in
    which writers of other parts of the document are steps too; \<open>CallSpec\<close>: properties. A claim
    has a time of its own, at most the clock, since a periodic tick hands over the time it read; a
    delivery takes the lock several times, and what other processes do in between is a parameter
    (\<open>meanwhile\<close>) that any steps of a run may fill.

  Correspondence. A definition has the name of the function it models, without a leading
  underscore; a suffix marks a loop body or a part of a function. Documents are dictionaries in
  the order the code builds them; a record (\<open>mstate\<close>, \<open>snap_limits\<close>, \<open>gc_plan\<close>, \<open>manifest\<close>) stands
  where the code fixes the fields. An operation on a file takes the files or the document and
  returns what it leaves, with its result or the error it raises; so a failing operation's
  effects are visible. Errors are constructors of \<open>pyerr\<close>, \<open>trust_error\<close> and \<open>snap_error\<close>; the text
  of a message is abbreviated, the class is not.

  Parameters: the clock, process ids, fresh identifiers, SHA-256, \<open>repr\<close>, \<open>json.loads\<close>, time zones,
  \<open>croniter\<close>, the Glass client. What a property needs of one is a hypothesis of it.

  Bounds. Loops are structural recursions over lists, with the limits of the code as they are
  (200 events, 600000 minutes, the snapshot limits), or recursions over the finite tree of files.
  No definition takes fuel; the two loops without a bound, the search for a free archive name and
  the one that makes room in the journal of calls, are partial functions, proved to return. Integers are
  unbounded as in Python; floats are exact rationals, so rounding, NaN and infinities are outside
  the model. Strings are UTF-8 byte lists; lengths in characters are counted as such.

  Not modelled. Threads and processes run one at a time: an operation under a file lock is one
  step, and orders of operations are sequences of steps. The operating system fails only by a
  missing entry or one of the wrong type; a link is never followed, since the code refuses it. A
  requested snapshot store and a restore target are given as resolved paths; archives of a snapshot
  and their upload are not modelled.
  The inbox daemon and the Interface client are not modelled beyond the bytes and the answers they
  give; one turn gets one answer per outside call. There the journal of calls between
  Silicons is a yes or no; it is modelled on its own. Of \<open>core/work_updates.py\<close> the commands on tasks,
  the cards of workers and the activity frames are not modelled. HTTP, subprocesses, language model calls, prompt text, SQLite diagnostics and the
  outgoing messages of \<open>core/interface.py\<close> are not modelled.
\<close>

end
